(* ===== verification/IotPrelude.thy ===== *)
theory IotPrelude
  imports
    Main
    "HOL-Library.Word"
    "HOL-Library.Char_ord"
    "HOL-Library.Signed_Division"
begin

text \<open>
  Prelude of the gateway development: the names of the machine types, C strings and
  byte buffers, table scans, big-endian fields, and the lemma collections the component
  theories share.

  Conventions.  A C string (\<open>char *\<close> up to its terminator) is a HOL \<open>string\<close>
  without the terminator; a pointer the code compares with \<open>NULL\<close> is a
  \<open>string option\<close>.  A C \<open>int\<close> is an \<open>int\<close>; where a computation could leave
  the 32-bit range the theory concerned says so.  The fixed-width types of
  \<open>stdint.h\<close> are words, so their arithmetic wraps.  C division and remainder, which
  truncate, are \<open>sdiv\<close> and \<open>smod\<close>.
\<close>

unbundle bit_operations_syntax

type_synonym u8 = "8 word"
type_synonym u16 = "16 word"
type_synonym u32 = "32 word"
type_synonym u64 = "64 word"
type_synonym c_int = int

definition INT_MIN :: c_int where
  "INT_MIN = - 2147483648"

definition INT_MAX :: c_int where
  "INT_MAX = 2147483647"

named_theorems iot_mem \<open>reads of a buffer after a write to it\<close>
named_theorems iot_scan \<open>first-match scans of fixed-size tables\<close>
named_theorems iot_bytes \<open>fields and their byte images\<close>

section \<open>Characters and strings\<close>

abbreviation NUL :: char where
  "NUL \<equiv> CHR 0x00"

definition code :: "char \<Rightarrow> int" where
  "code c = int (of_char c)"

definition of_code :: "int \<Rightarrow> char" where
  "of_code n = char_of (nat (n mod 256))"

text \<open>
  \<open>code\<close> is the value of a character as an \<open>unsigned char\<close>; \<open>of_code\<close> is the
  conversion of an \<open>int\<close> to \<open>char\<close>, which keeps the low eight bits.
\<close>

lemma code_bounds [simp]: "0 \<le> code c" "code c < 256"
  by (simp_all add: code_def)

lemma of_code_code [simp]: "of_code (code c) = c"
  by (simp add: of_code_def code_def)

lemma code_of_code [simp]: "code (of_code n) = n mod 256"
  by (simp add: of_code_def code_def nat_mod_distrib)

lemma code_inject [simp]: "code a = code b \<longleftrightarrow> a = b"
  by (metis of_code_code)

definition is_cstring :: "string \<Rightarrow> bool" where
  "is_cstring s \<longleftrightarrow> NUL \<notin> set s"

lemma is_cstring_simps [simp]:
  "is_cstring []"
  "is_cstring (c # s) \<longleftrightarrow> c \<noteq> NUL \<and> is_cstring s"
  "is_cstring (s @ t) \<longleftrightarrow> is_cstring s \<and> is_cstring t"
  by (auto simp: is_cstring_def)

lemma is_cstring_take [simp]: "is_cstring s \<Longrightarrow> is_cstring (take n s)"
  by (auto simp: is_cstring_def dest: in_set_takeD)

section \<open>Strings inside a buffer\<close>

text \<open>
  A buffer is the list of its bytes.  \<open>cstr_at m o\<close> is the C string that starts at
  offset \<open>o\<close>: the bytes up to the first terminator.
\<close>

definition cstr_at :: "char list \<Rightarrow> nat \<Rightarrow> string" where
  "cstr_at m off = takeWhile (\<lambda>c. c \<noteq> NUL) (drop off m)"

lemma is_cstring_cstr_at [simp]: "is_cstring (cstr_at m off)"
  by (auto simp: is_cstring_def cstr_at_def dest: set_takeWhileD)

lemma cstr_at_terminate [iot_mem]:
  "off < length m \<Longrightarrow> cstr_at (m[off := NUL]) off = []"
  by (simp add: cstr_at_def drop_update_cancel Cons_nth_drop_Suc [symmetric])

lemma takeWhile_update_after:
  assumes "length (takeWhile P xs) < i" and "i < length xs"
  shows "takeWhile P (xs[i := x]) = takeWhile P xs"
  using assms
proof (induction xs arbitrary: i)
  case (Cons y ys)
  then show ?case by (cases i) (auto split: if_splits)
qed simp

lemma takeWhile_snoc_update:
  assumes "length (takeWhile P xs) = n" and "Suc n < length xs" and "P c" and "\<not> P z"
  shows "takeWhile P (xs[n := c, Suc n := z]) = takeWhile P xs @ [c]"
  using assms
proof (induction xs arbitrary: n)
  case (Cons y ys)
  show ?case
  proof (cases "P y")
    case True
    with Cons.prems(1) obtain k where k: "n = Suc k" "length (takeWhile P ys) = k"
      by auto
    with Cons.prems(2) have "Suc k < length ys" by simp
    with Cons.IH [OF k(2) _ Cons.prems(3,4)] True k show ?thesis by simp
  next
    case False
    with Cons.prems have n: "n = 0" by simp
    with Cons.prems(2) obtain w ws where "ys = w # ws" by (cases ys) auto
    with n False Cons.prems(3,4) show ?thesis by simp
  qed
qed simp

lemma drop_update_below: "i < off \<Longrightarrow> drop off (m[i := c]) = drop off m"
  by (simp add: drop_update_swap)

lemma drop_update_above: "off \<le> i \<Longrightarrow> drop off (m[i := c]) = (drop off m)[i - off := c]"
  by (cases "i < length m") (simp_all add: drop_update_swap)

text \<open>Appending one character and a new terminator at the end of a string.\<close>

lemma cstr_at_append [iot_mem]:
  assumes "length (cstr_at m off) = n" and "Suc (off + n) < length m" and "c \<noteq> NUL"
  shows "cstr_at (m[off + n := c, Suc (off + n) := NUL]) off = cstr_at m off @ [c]"
proof -
  have "drop off (m[off + n := c, Suc (off + n) := NUL]) = (drop off m)[n := c, Suc n := NUL]"
    by (simp add: drop_update_above)
  moreover have "Suc n < length (drop off m)" using assms(2) by simp
  ultimately show ?thesis
    using takeWhile_snoc_update [of "\<lambda>c. c \<noteq> NUL" "drop off m" n c NUL] assms(1,3)
    by (simp add: cstr_at_def)
qed

lemma cstr_at_update_other [iot_mem]:
  assumes "i < off \<or> off + length (cstr_at m off) < i"
  shows "cstr_at (m[i := c]) off = cstr_at m off"
proof (cases "i < off")
  case True
  then show ?thesis by (simp add: cstr_at_def drop_update_below)
next
  case False
  with assms have above: "length (takeWhile (\<lambda>c. c \<noteq> NUL) (drop off m)) < i - off" and le: "off \<le> i"
    by (auto simp: cstr_at_def)
  show ?thesis
  proof (cases "i < length m")
    case True
    with above le show ?thesis
      by (simp add: cstr_at_def drop_update_above takeWhile_update_after)
  qed (simp add: list_update_beyond)
qed

section \<open>Scans of fixed-size tables\<close>

text \<open>
  Many operations of the gateway are a loop over a table that stops at the first entry
  with a property.  \<open>first_idx P xs\<close> is the index such a loop stops at.
\<close>

fun first_idx :: "('a \<Rightarrow> bool) \<Rightarrow> 'a list \<Rightarrow> nat option" where
  "first_idx P [] = None"
| "first_idx P (x # xs) = (if P x then Some 0 else map_option Suc (first_idx P xs))"

lemma first_idx_None [iot_scan]: "first_idx P xs = None \<longleftrightarrow> (\<forall>x\<in>set xs. \<not> P x)"
  by (induction xs) auto

lemma first_idx_SomeD:
  "first_idx P xs = Some i \<Longrightarrow> i < length xs \<and> P (xs ! i) \<and> (\<forall>j<i. \<not> P (xs ! j))"
proof (induction xs arbitrary: i)
  case (Cons x xs)
  show ?case
  proof (cases "P x")
    case False
    with Cons.prems obtain k where "i = Suc k" "first_idx P xs = Some k"
      by (auto split: if_splits)
    with Cons.IH [of k] False show ?thesis
      by (auto simp: nth_Cons split: nat.split)
  qed (use Cons.prems in auto)
qed simp

lemma first_idx_Some_iff [iot_scan]:
  "first_idx P xs = Some i \<longleftrightarrow> i < length xs \<and> P (xs ! i) \<and> (\<forall>j<i. \<not> P (xs ! j))"
proof (induction xs arbitrary: i)
  case (Cons x xs)
  show ?case
  proof (cases i)
    case 0
    then show ?thesis by auto
  next
    case (Suc k)
    have "(\<forall>j<Suc k. \<not> P ((x # xs) ! j)) \<longleftrightarrow> \<not> P x \<and> (\<forall>j<k. \<not> P (xs ! j))"
      by (auto simp: nth_Cons less_Suc_eq_0_disj)
    with Suc Cons.IH [of k] show ?thesis by auto
  qed
qed simp

lemma first_idx_less: "first_idx P xs = Some i \<Longrightarrow> i < length xs"
  by (simp add: first_idx_SomeD)

lemma first_idx_holds: "first_idx P xs = Some i \<Longrightarrow> P (xs ! i)"
  by (simp add: first_idx_SomeD)

lemma first_idx_update_hit:
  assumes "first_idx P xs = Some i" and "P y"
  shows "first_idx P (xs[i := y]) = Some i"
  using assms by (auto simp: first_idx_Some_iff)

lemma first_idx_unique:
  assumes "i < length xs" and "P (xs ! i)" and uniq: "\<And>j. j < length xs \<Longrightarrow> P (xs ! j) \<Longrightarrow> j = i"
  shows "first_idx P xs = Some i"
proof -
  have "\<not> P (xs ! j)" if "j < i" for j
    using uniq [of j] that assms(1) by fastforce
  with assms(1,2) show ?thesis by (simp add: first_idx_Some_iff)
qed

section \<open>Big-endian fields\<close>

text \<open>
  The control bridge sends and receives its integers most significant byte first
  (\<open>htons\<close>, \<open>htobe64\<close> and their inverses on the host).
\<close>

definition be16 :: "u16 \<Rightarrow> u8 list" where
  "be16 w = [ucast (drop_bit 8 w), ucast w]"

definition unbe16 :: "u8 \<Rightarrow> u8 \<Rightarrow> u16" where
  "unbe16 hi lo = push_bit 8 (ucast hi) + ucast lo"

lemma length_be16 [simp]: "length (be16 w) = 2"
  by (simp add: be16_def)

lemma unat_unbe16: "unat (unbe16 hi lo) = 256 * unat hi + unat lo"
proof -
  have "unat hi < 256" "unat lo < 256"
    using unsigned_less [of hi] unsigned_less [of lo] by simp_all
  then show ?thesis
    by (simp add: unbe16_def push_bit_eq_mult unat_word_ariths unsigned_ucast_eq take_bit_eq_mod)
qed

lemma unbe16_be16 [iot_bytes, simp]:
  "unbe16 (ucast (drop_bit 8 w)) (ucast w) = (w :: u16)"
proof (rule word_unat_eq_iff [THEN iffD2])
  have "unat w < 65536" using unsigned_less [of w] by simp
  then have hi: "unat w div 256 < 256" by (simp add: less_mult_imp_div_less)
  have "unat (ucast (drop_bit 8 w) :: u8) = unat w div 256"
    using hi by (simp add: unsigned_ucast_eq take_bit_eq_mod drop_bit_eq_div unat_div)
  moreover have "unat (ucast w :: u8) = unat w mod 256"
    by (simp add: unsigned_ucast_eq take_bit_eq_mod)
  ultimately show "unat (unbe16 (ucast (drop_bit 8 w)) (ucast w)) = unat w"
    by (simp add: unat_unbe16)
qed

section \<open>Little-endian fields and buffers written in place\<close>

definition le32 :: "u32 \<Rightarrow> u8 list" where
  "le32 w = [ucast w, ucast (drop_bit 8 w), ucast (drop_bit 16 w), ucast (drop_bit 24 w)]"

definition unle32 :: "u8 list \<Rightarrow> u32" where
  "unle32 bs = ucast (bs ! 0) + push_bit 8 (ucast (bs ! 1)) + push_bit 16 (ucast (bs ! 2)) + push_bit 24 (ucast (bs ! 3))"

definition overwrite :: "nat \<Rightarrow> u8 list \<Rightarrow> u8 list \<Rightarrow> u8 list" where
  "overwrite off r cache = take off cache @ r @ drop (off + length r) cache"

lemma length_le32 [iot_bytes, simp]: "length (le32 w) = 4"
  by (simp add: le32_def)

lemma unle32_le32: "unle32 (le32 w @ xs) = w"
proof -
  have "unle32 (le32 w @ xs) = ucast (ucast w :: u8) OR push_bit 8 (ucast (ucast (drop_bit 8 w) :: u8))
      OR push_bit 16 (ucast (ucast (drop_bit 16 w) :: u8)) OR push_bit 24 (ucast (ucast (drop_bit 24 w) :: u8))"
    by (simp add: unle32_def le32_def) ((subst disjunctive_add, force simp: bit_simps)+, simp add: or.assoc)
  also have "\<dots> = w"
  proof (rule bit_word_eqI)
    fix n assume "n < LENGTH(32)"
    then consider "n < 8" | "8 \<le> n" "n < 16" | "16 \<le> n" "n < 24" | "24 \<le> n" "n < 32" by force
    then show "bit ((ucast (ucast w :: u8) :: u32) OR push_bit 8 (ucast (ucast (drop_bit 8 w) :: u8))
      OR push_bit 16 (ucast (ucast (drop_bit 16 w) :: u8)) OR push_bit 24 (ucast (ucast (drop_bit 24 w) :: u8))) n = bit w n"
      by cases (simp_all add: bit_simps less_diff_conv2)
  qed
  finally show ?thesis .
qed

lemma length_overwrite: "off + length r \<le> length c \<Longrightarrow> length (overwrite off r c) = length c"
  by (simp add: overwrite_def)

lemma nth_overwrite:
  "off + length r \<le> length c \<Longrightarrow> k < length c \<Longrightarrow>
   overwrite off r c ! k = (if off \<le> k \<and> k < off + length r then r ! (k - off) else c ! k)"
  by (auto simp: overwrite_def nth_append min_def)

end
