(* ===== verification/AttrStore.thy ===== *)
theory AttrStore
  imports IotPrelude
begin

text \<open>
  The contract between the JSON callbacks of the daemons and the attribute tables of
  \<open>parsing.c\<close>: a table of registered names, each with a current value, which a reset
  sets back to a default and a callback overwrites.  The lemmas inside the locale say what
  a table holds after a whole message, and are used for both kinds of table.
\<close>

definition last_assigned :: "('v \<Rightarrow> bool) \<Rightarrow> string \<Rightarrow> 'v \<Rightarrow> (string \<times> 'v) list \<Rightarrow> 'v" where
  "last_assigned ok k d kvs = fold (\<lambda>(k', v) old. if k' = k \<and> ok v then v else old) kvs d"

lemma last_assigned_simps [simp]:
  "last_assigned ok k d [] = d"
  "last_assigned ok k d ((k', v) # kvs) = last_assigned ok k (if k' = k \<and> ok v then v else d) kvs"
  by (simp_all add: last_assigned_def)

lemma last_assigned_absent: "k \<notin> fst ` set kvs \<Longrightarrow> last_assigned ok k d kvs = d"
  by (induction kvs) auto

lemma last_assigned_unique:
  assumes "distinct (map fst kvs)" and "(k, v) \<in> set kvs" and "ok v"
  shows "last_assigned ok k d kvs = v"
  using assms by (induction kvs arbitrary: d) (auto simp: last_assigned_absent image_iff)

definition assign_all :: "(string \<Rightarrow> 'v \<Rightarrow> 's \<Rightarrow> 's) \<Rightarrow> (string \<times> 'v) list \<Rightarrow> 's \<Rightarrow> 's" where
  "assign_all assign kvs s = fold (\<lambda>(k, v). assign k v) kvs s"

lemma assign_all_simps [simp]:
  "assign_all assign [] s = s"
  "assign_all assign ((k, v) # kvs) s = assign_all assign kvs (assign k v s)"
  by (simp_all add: assign_all_def)

locale attr_store =
  fixes wf :: "'s \<Rightarrow> bool"
    and known :: "'s \<Rightarrow> string \<Rightarrow> bool"
    and fits :: "'s \<Rightarrow> string \<Rightarrow> 'v \<Rightarrow> bool"
    and assign :: "string \<Rightarrow> 'v \<Rightarrow> 's \<Rightarrow> 's"
    and fetch :: "'s \<Rightarrow> string \<Rightarrow> 'v"
    and reset :: "'s \<Rightarrow> 's"
    and default :: "'v"
  assumes wf_assign: "wf s \<Longrightarrow> wf (assign k v s)"
    and wf_reset: "wf s \<Longrightarrow> wf (reset s)"
    and known_assign: "known (assign k v s) = known s"
    and fits_assign: "fits (assign k v s) = fits s"
    and known_reset: "known (reset s) = known s"
    and fits_reset: "fits (reset s) = fits s"
    and fetch_assign: "wf s \<Longrightarrow> known s k \<Longrightarrow>
      fetch (assign k' v s) k = (if k' = k \<and> fits s k v then v else fetch s k)"
    and fetch_reset: "known s k \<Longrightarrow> fetch (reset s) k = default"
begin

lemma assign_all_wf: "wf s \<Longrightarrow> wf (assign_all assign kvs s)"
  by (induction kvs arbitrary: s) (auto simp: wf_assign)

lemma assign_all_known: "known (assign_all assign kvs s) = known s"
  by (induction kvs arbitrary: s) (auto simp: known_assign)

lemma assign_all_fits: "fits (assign_all assign kvs s) = fits s"
  by (induction kvs arbitrary: s) (auto simp: fits_assign)

lemma fetch_assign_all:
  "wf s \<Longrightarrow> known s k \<Longrightarrow>
   fetch (assign_all assign kvs s) k = last_assigned (fits s k) k (fetch s k) kvs"
proof (induction kvs arbitrary: s)
  case (Cons kv kvs)
  obtain k' v where kv: "kv = (k', v)" by (cases kv)
  have "wf (assign k' v s)" "known (assign k' v s) k" "fits (assign k' v s) = fits s"
    using Cons.prems by (simp_all add: wf_assign known_assign fits_assign)
  with Cons.IH [of "assign k' v s"] Cons.prems show ?case
    by (simp add: kv fetch_assign)
qed simp

text \<open>A message: reset, then one assignment per name and value it carries.\<close>

lemma fetch_message:
  assumes "wf s" and "known s k"
  shows "fetch (assign_all assign kvs (reset s)) k = last_assigned (fits s k) k default kvs"
  using fetch_assign_all [of "reset s" k kvs] assms
  by (simp add: wf_reset known_reset fits_reset fetch_reset)

lemma message_forgets_past:
  assumes "wf s" and "known s k"
  shows "fetch (assign_all assign kvs (reset (assign_all assign older s))) k
       = fetch (assign_all assign kvs (reset s)) k"
  using assms by (simp add: fetch_message assign_all_wf assign_all_known assign_all_fits)

end

end
