(* ===== verification/Parsing.thy ===== *)
theory Parsing
  imports AttrStore
begin

text \<open>
  The attribute tables the daemons parse a message into (\<open>IotCommon/parsing.c\<close>,
  \<open>parsing.h\<close>): registered integer and string names, their current values, and the
  add, reset, set and get operations.  Only the used prefix of each static array is
  modelled, so \<open>numIntAttrs\<close> and \<open>numStringAttrs\<close> are lengths; an entry that has
  never been written holds the zero of static storage.
\<close>

definition MAXSTRINGATTRS :: nat where
  "MAXSTRINGATTRS = 25"

definition MAXINTATTRS :: nat where
  "MAXINTATTRS = 30"

record intattr =
  ia_name :: string
  ia_value :: c_int

record stringattr =
  sa_name :: string
  sa_maxlen :: c_int
  sa_value :: string

record parsing =
  parsingIntAttrs :: "intattr list"
  parsingStringAttrs :: "stringattr list"

section \<open>Lookup\<close>

definition idx_or_minus1 :: "nat option \<Rightarrow> c_int" where
  "idx_or_minus1 r = (case r of Some i \<Rightarrow> int i | None \<Rightarrow> - 1)"

definition parsingExistsIntAttr :: "parsing \<Rightarrow> string \<Rightarrow> c_int" where
  "parsingExistsIntAttr p name =
     idx_or_minus1 (first_idx (\<lambda>a. ia_name a = name) (parsingIntAttrs p))"

definition parsingExistsStringAttr :: "parsing \<Rightarrow> string \<Rightarrow> c_int" where
  "parsingExistsStringAttr p name =
     idx_or_minus1 (first_idx (\<lambda>a. sa_name a = name) (parsingStringAttrs p))"

section \<open>Add\<close>

definition parsingAddIntAttr :: "string \<Rightarrow> parsing \<Rightarrow> c_int \<times> parsing" where
  "parsingAddIntAttr name p =
     (if parsingExistsIntAttr p name < 0 then
        if length (parsingIntAttrs p) < MAXINTATTRS
        then (1, p\<lparr>parsingIntAttrs := parsingIntAttrs p @ [\<lparr>ia_name = name, ia_value = 0\<rparr>]\<rparr>)
        else (0, p)
      else (0, p))"

definition parsingAddStringAttr :: "string \<Rightarrow> c_int \<Rightarrow> parsing \<Rightarrow> c_int \<times> parsing" where
  "parsingAddStringAttr name maxlen p =
     (let num = parsingExistsStringAttr p name; tab = parsingStringAttrs p
      in if num < 0 then
           if length tab < MAXSTRINGATTRS
           then (1, p\<lparr>parsingStringAttrs := tab @ [\<lparr>sa_name = name, sa_maxlen = maxlen, sa_value = []\<rparr>]\<rparr>)
           else (0, p)
         else if sa_maxlen (tab ! nat num) < maxlen
           then (0, p\<lparr>parsingStringAttrs := tab[nat num := (tab ! nat num)\<lparr>sa_maxlen := maxlen\<rparr>]\<rparr>)
         else (0, p))"

section \<open>Reset\<close>

definition parsingReset :: "parsing \<Rightarrow> parsing" where
  "parsingReset p = p\<lparr>
     parsingIntAttrs := map (\<lambda>a. a\<lparr>ia_value := INT_MIN\<rparr>) (parsingIntAttrs p),
     parsingStringAttrs := map (\<lambda>a. a\<lparr>sa_value := []\<rparr>) (parsingStringAttrs p)\<rparr>"

section \<open>Set\<close>

definition parsingIntAttr :: "string \<Rightarrow> c_int \<Rightarrow> parsing \<Rightarrow> c_int \<times> parsing" where
  "parsingIntAttr name val p =
     (case first_idx (\<lambda>a. ia_name a = name) (parsingIntAttrs p) of
        Some i \<Rightarrow> (1, p\<lparr>parsingIntAttrs :=
                          (parsingIntAttrs p)[i := (parsingIntAttrs p ! i)\<lparr>ia_value := val\<rparr>]\<rparr>)
      | None \<Rightarrow> (0, p))"

text \<open>
  The length test compares a \<open>size_t\<close> with an \<open>int\<close>, so a negative limit counts as a
  huge one.  An entry whose value does not fit is skipped and the scan goes on.
\<close>

definition fits_maxlen :: "c_int \<Rightarrow> string \<Rightarrow> bool" where
  "fits_maxlen maxlen val \<longleftrightarrow> maxlen < 0 \<or> int (length val) \<le> maxlen"

definition parsingStringAttr :: "string \<Rightarrow> string \<Rightarrow> parsing \<Rightarrow> c_int \<times> parsing" where
  "parsingStringAttr name val p =
     (case first_idx (\<lambda>a. sa_name a = name \<and> fits_maxlen (sa_maxlen a) val) (parsingStringAttrs p) of
        Some i \<Rightarrow> (1, p\<lparr>parsingStringAttrs :=
                          (parsingStringAttrs p)[i := (parsingStringAttrs p ! i)\<lparr>sa_value := val\<rparr>]\<rparr>)
      | None \<Rightarrow> (0, p))"

section \<open>Get\<close>

definition parsingGetIntAttr :: "parsing \<Rightarrow> string \<Rightarrow> c_int" where
  "parsingGetIntAttr p name =
     (case first_idx (\<lambda>a. ia_name a = name) (parsingIntAttrs p) of
        Some i \<Rightarrow> ia_value (parsingIntAttrs p ! i)
      | None \<Rightarrow> INT_MIN)"

definition parsingGetStringAttr :: "parsing \<Rightarrow> string \<Rightarrow> string option" where
  "parsingGetStringAttr p name =
     (case first_idx (\<lambda>a. sa_name a = name) (parsingStringAttrs p) of
        Some i \<Rightarrow> Some (sa_value (parsingStringAttrs p ! i))
      | None \<Rightarrow> None)"

definition parsingGetStringAttr0 :: "parsing \<Rightarrow> string \<Rightarrow> string option" where
  "parsingGetStringAttr0 p name =
     (case first_idx (\<lambda>a. sa_name a = name) (parsingStringAttrs p) of
        Some i \<Rightarrow> (let v = sa_value (parsingStringAttrs p ! i) in if v \<noteq> [] then Some v else None)
      | None \<Rightarrow> None)"

section \<open>Well-formed tables\<close>

definition parsing_wf :: "parsing \<Rightarrow> bool" where
  "parsing_wf p \<longleftrightarrow>
     length (parsingIntAttrs p) \<le> MAXINTATTRS
   \<and> length (parsingStringAttrs p) \<le> MAXSTRINGATTRS
   \<and> distinct (map ia_name (parsingIntAttrs p))
   \<and> distinct (map sa_name (parsingStringAttrs p))
   \<and> (\<forall>a\<in>set (parsingStringAttrs p). 0 \<le> sa_maxlen a \<and> int (length (sa_value a)) \<le> sa_maxlen a)"

definition parsing_init :: parsing where
  "parsing_init = \<lparr>parsingIntAttrs = [], parsingStringAttrs = []\<rparr>"

lemma parsing_wf_init [simp]: "parsing_wf parsing_init"
  by (simp add: parsing_wf_def parsing_init_def)

lemma idx_or_minus1_neg: "idx_or_minus1 r < 0 \<longleftrightarrow> r = None"
  by (cases r) (simp_all add: idx_or_minus1_def)

lemma idx_or_minus1_Some [simp]: "nat (idx_or_minus1 (Some i)) = i"
  by (simp add: idx_or_minus1_def)

lemma map_update_same:
  "(i < length xs \<Longrightarrow> f y = f (xs ! i)) \<Longrightarrow> map f (xs[i := y]) = map f xs"
  by (cases "i < length xs") (simp_all add: map_update list_update_same_conv list_update_beyond)

lemma first_idx_name_update:
  "(i < length xs \<Longrightarrow> f y = f (xs ! i)) \<Longrightarrow>
   first_idx (\<lambda>a. f a = k) (xs[i := y]) = first_idx (\<lambda>a. f a = k) xs"
proof -
  have key: "first_idx (\<lambda>a. f a = k) ys = first_idx (\<lambda>a. a = k) (map f ys)" for ys
    by (induction ys) auto
  assume "i < length xs \<Longrightarrow> f y = f (xs ! i)"
  then show ?thesis by (simp add: key map_update_same)
qed

lemma first_idx_map_pres: "(\<And>a. Q (g a) = P a) \<Longrightarrow> first_idx Q (map g xs) = first_idx P xs"
  by (induction xs) auto

lemma string_attrs_update:
  assumes "parsing_wf p" and "i < length (parsingStringAttrs p)"
    and "sa_name a = sa_name (parsingStringAttrs p ! i)"
    and "0 \<le> sa_maxlen a" and "int (length (sa_value a)) \<le> sa_maxlen a"
  shows "parsing_wf (p\<lparr>parsingStringAttrs := (parsingStringAttrs p)[i := a]\<rparr>)"
  using assms by (auto simp: parsing_wf_def map_update_same dest!: set_update_subset_insert [THEN subsetD])

lemma string_attrs_nth:
  "parsing_wf p \<Longrightarrow> i < length (parsingStringAttrs p) \<Longrightarrow>
   0 \<le> sa_maxlen (parsingStringAttrs p ! i)
   \<and> int (length (sa_value (parsingStringAttrs p ! i))) \<le> sa_maxlen (parsingStringAttrs p ! i)"
  by (simp add: parsing_wf_def)

lemma parsingAddIntAttr_wf: "parsing_wf p \<Longrightarrow> parsing_wf (snd (parsingAddIntAttr name p))"
  by (auto simp: parsing_wf_def parsingAddIntAttr_def parsingExistsIntAttr_def idx_or_minus1_neg first_idx_None)

lemma parsingAddStringAttr_wf:
  assumes wf: "parsing_wf p" and "0 \<le> maxlen"
  shows "parsing_wf (snd (parsingAddStringAttr name maxlen p))"
proof (cases "first_idx (\<lambda>a. sa_name a = name) (parsingStringAttrs p)")
  case None
  then have "\<forall>a\<in>set (parsingStringAttrs p). sa_name a \<noteq> name" by (simp add: first_idx_None)
  with assms None show ?thesis
    by (auto simp: parsing_wf_def parsingAddStringAttr_def parsingExistsStringAttr_def
        idx_or_minus1_def Let_def)
next
  case (Some i)
  then have i: "i < length (parsingStringAttrs p)" by (rule first_idx_less)
  show ?thesis
    using wf i Some string_attrs_nth [OF wf i] assms(2)
    by (auto simp: parsingAddStringAttr_def parsingExistsStringAttr_def idx_or_minus1_def Let_def
        intro!: string_attrs_update)
qed

lemma parsingReset_wf: "parsing_wf p \<Longrightarrow> parsing_wf (parsingReset p)"
  by (auto simp: parsing_wf_def parsingReset_def comp_def)

lemma parsingIntAttr_wf: "parsing_wf p \<Longrightarrow> parsing_wf (snd (parsingIntAttr name val p))"
  by (simp add: parsing_wf_def parsingIntAttr_def map_update_same split: option.split)

lemma parsingStringAttr_wf:
  assumes wf: "parsing_wf p"
  shows "parsing_wf (snd (parsingStringAttr name val p))"
proof (cases "first_idx (\<lambda>a. sa_name a = name \<and> fits_maxlen (sa_maxlen a) val) (parsingStringAttrs p)")
  case (Some i)
  then have i: "i < length (parsingStringAttrs p)"
    and fit: "fits_maxlen (sa_maxlen (parsingStringAttrs p ! i)) val"
    by (auto dest: first_idx_SomeD)
  show ?thesis
    using wf i fit Some string_attrs_nth [OF wf i]
    by (auto simp: parsingStringAttr_def fits_maxlen_def intro!: string_attrs_update)
qed (use wf in \<open>simp add: parsingStringAttr_def\<close>)

section \<open>The tables meet the attribute contract\<close>

definition int_known :: "parsing \<Rightarrow> string \<Rightarrow> bool" where
  "int_known p name \<longleftrightarrow> name \<in> ia_name ` set (parsingIntAttrs p)"

definition string_maxlen :: "parsing \<Rightarrow> string \<Rightarrow> c_int option" where
  "string_maxlen p name =
     map_option (\<lambda>i. sa_maxlen (parsingStringAttrs p ! i))
       (first_idx (\<lambda>a. sa_name a = name) (parsingStringAttrs p))"

definition string_fits :: "parsing \<Rightarrow> string \<Rightarrow> string \<Rightarrow> bool" where
  "string_fits p name val \<longleftrightarrow> (\<exists>m. string_maxlen p name = Some m \<and> fits_maxlen m val)"

text \<open>With distinct names, the scan that also tests the length finds the entry of that name.\<close>

lemma first_idx_name_fits:
  assumes "distinct (map sa_name xs)"
  shows "first_idx (\<lambda>a. sa_name a = name \<and> F a) xs =
    (case first_idx (\<lambda>a. sa_name a = name) xs of
       Some i \<Rightarrow> if F (xs ! i) then Some i else None | None \<Rightarrow> None)"
  using assms
proof (induction xs)
  case (Cons x xs)
  show ?case
  proof (cases "sa_name x = name")
    case True
    with Cons.prems have "name \<notin> sa_name ` set xs" by simp
    then have "first_idx (\<lambda>a. sa_name a = name \<and> F a) xs = None"
      by (auto simp: first_idx_None image_iff)
    with True show ?thesis by simp
  qed (use Cons in \<open>simp split: option.split\<close>)
qed simp

lemma first_idx_name_Some:
  "distinct (map f xs) \<Longrightarrow> first_idx (\<lambda>a. f a = f (xs ! i)) xs = Some i \<longleftrightarrow> i < length xs"
  by (auto simp: first_idx_Some_iff distinct_conv_nth)

lemma parsingIntAttr_names:
  "map ia_name (parsingIntAttrs (snd (parsingIntAttr k v p))) = map ia_name (parsingIntAttrs p)"
  by (simp add: parsingIntAttr_def map_update_same split: option.split)

lemma int_known_map: "int_known p name \<longleftrightarrow> name \<in> set (map ia_name (parsingIntAttrs p))"
  by (simp add: int_known_def)

lemma int_known_idx: "int_known p name \<longleftrightarrow> (\<exists>i. first_idx (\<lambda>a. ia_name a = name) (parsingIntAttrs p) = Some i)"
  using first_idx_None [of "\<lambda>a. ia_name a = name" "parsingIntAttrs p"]
  by (auto simp: int_known_def image_iff)

lemma parsingGetIntAttr_parsingIntAttr:
  assumes "int_known p k"
  shows "parsingGetIntAttr (snd (parsingIntAttr k' v p)) k = (if k' = k then v else parsingGetIntAttr p k)"
proof (cases "first_idx (\<lambda>a. ia_name a = k') (parsingIntAttrs p)")
  case None
  with assms show ?thesis by (auto simp: parsingIntAttr_def int_known_idx)
next
  case (Some i)
  then have i: "i < length (parsingIntAttrs p)" "ia_name (parsingIntAttrs p ! i) = k'"
    by (auto dest: first_idx_SomeD)
  obtain j where j: "first_idx (\<lambda>a. ia_name a = k) (parsingIntAttrs p) = Some j"
    using assms by (auto simp: int_known_idx)
  then have jj: "j < length (parsingIntAttrs p)" "ia_name (parsingIntAttrs p ! j) = k"
    by (auto dest: first_idx_SomeD)
  show ?thesis
    using Some i j jj
    by (auto simp: parsingGetIntAttr_def parsingIntAttr_def first_idx_name_update nth_list_update)
qed

interpretation int_attrs: attr_store parsing_wf int_known "\<lambda>_ _ _. True"
  "\<lambda>k v p. snd (parsingIntAttr k v p)" parsingGetIntAttr parsingReset INT_MIN
proof unfold_locales
  fix p :: parsing and k k' :: string and v :: c_int
  show "int_known (snd (parsingIntAttr k v p)) = int_known p"
    by (simp add: fun_eq_iff int_known_map parsingIntAttr_names del: set_map)
  show "int_known (parsingReset p) = int_known p"
    by (auto simp: fun_eq_iff int_known_def parsingReset_def image_image)
  show "parsing_wf p \<Longrightarrow> int_known p k \<Longrightarrow> parsingGetIntAttr (snd (parsingIntAttr k' v p)) k
      = (if k' = k \<and> True then v else parsingGetIntAttr p k)"
    by (simp add: parsingGetIntAttr_parsingIntAttr)
  show "int_known p k \<Longrightarrow> parsingGetIntAttr (parsingReset p) k = INT_MIN"
  proof -
    assume "int_known p k"
    then obtain i where i: "first_idx (\<lambda>a. ia_name a = k) (parsingIntAttrs p) = Some i"
      by (auto simp: int_known_idx)
    with first_idx_less [OF i] show ?thesis
      by (simp add: parsingGetIntAttr_def parsingReset_def first_idx_map_pres)
  qed
qed (simp_all add: parsingIntAttr_wf parsingReset_wf)

lemma parsingStringAttr_scan:
  assumes "parsing_wf p"
  shows "parsingStringAttr k v p =
    (case first_idx (\<lambda>a. sa_name a = k) (parsingStringAttrs p) of
       None \<Rightarrow> (0, p)
     | Some i \<Rightarrow> if fits_maxlen (sa_maxlen (parsingStringAttrs p ! i)) v
         then (1, p\<lparr>parsingStringAttrs := (parsingStringAttrs p)[i := (parsingStringAttrs p ! i)\<lparr>sa_value := v\<rparr>]\<rparr>)
         else (0, p))"
  using assms by (simp add: parsingStringAttr_def parsing_wf_def first_idx_name_fits split: option.split)

definition string_fetch :: "parsing \<Rightarrow> string \<Rightarrow> string" where
  "string_fetch p name = (case parsingGetStringAttr p name of Some v \<Rightarrow> v | None \<Rightarrow> [])"

lemma string_maxlen_map:
  assumes "map (\<lambda>a. (sa_name a, sa_maxlen a)) (parsingStringAttrs p)
         = map (\<lambda>a. (sa_name a, sa_maxlen a)) (parsingStringAttrs q)"
  shows "string_maxlen p = string_maxlen q"
proof
  fix k
  have idx: "first_idx (\<lambda>a. sa_name a = k) xs = first_idx (\<lambda>a. fst a = k) (map (\<lambda>a. (sa_name a, sa_maxlen a)) xs)" for xs
    by (induction xs) simp_all
  have val: "i < length xs \<Longrightarrow> sa_maxlen (xs ! i) = snd (map (\<lambda>a. (sa_name a, sa_maxlen a)) xs ! i)" for i xs
    by simp
  have len: "length (parsingStringAttrs p) = length (parsingStringAttrs q)"
    using map_eq_imp_length_eq [OF assms] .
  show "string_maxlen p k = string_maxlen q k"
  proof (cases "first_idx (\<lambda>a. sa_name a = k) (parsingStringAttrs q)")
    case None
    with assms show ?thesis by (simp add: string_maxlen_def idx)
  next
    case (Some i)
    moreover from this have "i < length (parsingStringAttrs q)" by (rule first_idx_less)
    moreover have "first_idx (\<lambda>a. sa_name a = k) (parsingStringAttrs p) = Some i"
      using Some assms by (simp add: idx)
    ultimately show ?thesis using len assms by (simp add: string_maxlen_def val del: nth_map)
  qed
qed

lemma string_maxlen_parsingStringAttr: "string_maxlen (snd (parsingStringAttr k v p)) = string_maxlen p"
  by (rule string_maxlen_map) (simp add: parsingStringAttr_def map_update_same split: option.split)

lemma string_maxlen_reset: "string_maxlen (parsingReset p) = string_maxlen p"
  by (rule string_maxlen_map) (simp add: parsingReset_def comp_def)

lemma string_fetch_parsingStringAttr:
  assumes "parsing_wf p" and "string_maxlen p k \<noteq> None"
  shows "string_fetch (snd (parsingStringAttr k' v p)) k
       = (if k' = k \<and> string_fits p k v then v else string_fetch p k)"
proof -
  from assms(2) obtain j where j: "first_idx (\<lambda>a. sa_name a = k) (parsingStringAttrs p) = Some j"
    by (auto simp: string_maxlen_def)
  then have jj: "j < length (parsingStringAttrs p)" "sa_name (parsingStringAttrs p ! j) = k"
    by (auto dest: first_idx_SomeD)
  show ?thesis
  proof (cases "first_idx (\<lambda>a. sa_name a = k') (parsingStringAttrs p)")
    case None
    with j assms(1) show ?thesis by (auto simp: parsingStringAttr_scan)
  next
    case (Some i)
    then have "i < length (parsingStringAttrs p)" "sa_name (parsingStringAttrs p ! i) = k'"
      by (auto dest: first_idx_SomeD)
    with Some j jj assms(1) show ?thesis
      by (auto simp: parsingStringAttr_scan string_fetch_def parsingGetStringAttr_def string_fits_def
          string_maxlen_def first_idx_name_update nth_list_update)
  qed
qed

interpretation string_attrs: attr_store parsing_wf "\<lambda>p k. string_maxlen p k \<noteq> None" string_fits
  "\<lambda>k v p. snd (parsingStringAttr k v p)" string_fetch parsingReset "[]"
proof unfold_locales
  fix p :: parsing and k k' v :: string
  show "parsing_wf p \<Longrightarrow> string_maxlen p k \<noteq> None \<Longrightarrow>
      string_fetch (snd (parsingStringAttr k' v p)) k
      = (if k' = k \<and> string_fits p k v then v else string_fetch p k)"
    by (rule string_fetch_parsingStringAttr)
  show "string_maxlen p k \<noteq> None \<Longrightarrow> string_fetch (parsingReset p) k = []"
  proof -
    assume "string_maxlen p k \<noteq> None"
    then obtain i where i: "first_idx (\<lambda>a. sa_name a = k) (parsingStringAttrs p) = Some i"
      by (auto simp: string_maxlen_def)
    with first_idx_less [OF i] show ?thesis
      by (simp add: string_fetch_def parsingGetStringAttr_def parsingReset_def first_idx_map_pres)
  qed
qed (simp_all add: parsingStringAttr_wf parsingReset_wf string_fits_def fun_eq_iff
       string_maxlen_parsingStringAttr string_maxlen_reset)

lemma registration_wf:
  assumes "parsing_wf p" and "\<forall>(k, m)\<in>set sks. 0 \<le> m"
  shows "parsing_wf (fold (\<lambda>(k, m) q. snd (parsingAddStringAttr k m q)) sks
                      (fold (\<lambda>k q. snd (parsingAddIntAttr k q)) ks p))"
proof -
  have "parsing_wf (fold (\<lambda>k q. snd (parsingAddIntAttr k q)) ks p)"
    using assms(1) by (induction ks arbitrary: p) (simp_all add: parsingAddIntAttr_wf)
  moreover have "parsing_wf q \<Longrightarrow> parsing_wf (fold (\<lambda>(k, m) q. snd (parsingAddStringAttr k m q)) sks q)" for q
    using assms(2) by (induction sks arbitrary: q) (auto simp: parsingAddStringAttr_wf)
  ultimately show ?thesis by blast
qed

section \<open>Properties\<close>

text \<open>
  Registration keeps the tables well formed: whatever sequence of names is added, with
  non-negative string limits, the tables never exceed their static size and never hold a
  name twice; a name that is already present or does not fit leaves the integer table as it
  was and reports 0.
\<close>

theorem parsing_registration:
  assumes "parsing_wf p" and "\<forall>(k, m)\<in>set sks. 0 \<le> m"
  shows "parsing_wf (fold (\<lambda>(k, m) q. snd (parsingAddStringAttr k m q)) sks
                      (fold (\<lambda>k q. snd (parsingAddIntAttr k q)) ks p))
       \<and> (int_known p k \<or> length (parsingIntAttrs p) = MAXINTATTRS \<longrightarrow> parsingAddIntAttr k p = (0, p))"
  using registration_wf [OF assms]
  by (auto simp: parsingAddIntAttr_def parsingExistsIntAttr_def int_known_idx idx_or_minus1_neg)

theorem parsing_registration_witness:
  "parsing_wf (fold (\<lambda>(k, m) q. snd (parsingAddStringAttr k m q)) [(''mac'', 16), (''cmd'', 8)]
     (fold (\<lambda>k q. snd (parsingAddIntAttr k q)) [''lvl'', ''rgb''] parsing_init))"
  using parsing_registration [of parsing_init "[(''mac'', 16), (''cmd'', 8)]" "[''lvl'', ''rgb'']"] by simp

text \<open>
  C32: The tables are a last-writer-wins store per message: after a reset and any sequence of
  integer assignments, a registered integer reads as the last value assigned to it, and as
  \<open>INT_MIN\<close> if the message did not carry it, whatever earlier messages stored.
\<close>

theorem parsing_int_message:
  assumes "parsing_wf p" and "int_known p k"
  shows "parsingGetIntAttr (assign_all (\<lambda>k v q. snd (parsingIntAttr k v q)) kvs
           (parsingReset (assign_all (\<lambda>k v q. snd (parsingIntAttr k v q)) older p))) k
       = last_assigned (\<lambda>_. True) k INT_MIN kvs"
  using int_attrs.message_forgets_past [OF assms] int_attrs.fetch_message [OF assms] by simp

theorem parsing_int_message_witness:
  "parsingGetIntAttr (assign_all (\<lambda>k v q. snd (parsingIntAttr k v q)) [(''lvl'', 3), (''lvl'', 4)]
     (parsingReset (assign_all (\<lambda>k v q. snd (parsingIntAttr k v q)) [(''lvl'', 9)]
        (snd (parsingAddIntAttr ''lvl'' parsing_init))))) ''lvl'' = 4"
  using parsing_int_message [OF parsingAddIntAttr_wf [OF parsing_wf_init], of "''lvl''" "''lvl''"
      "[(''lvl'', 3), (''lvl'', 4)]" "[(''lvl'', 9)]"]
  by (simp add: int_known_def parsingAddIntAttr_def parsingExistsIntAttr_def idx_or_minus1_def parsing_init_def MAXINTATTRS_def)

end
