(* ===== verification/Nibbles.thy ===== *)
theory Nibbles
  imports IotPrelude
begin

text \<open>
  Hexadecimal nibble strings (\<open>IotCommon/nibbles.c\<close>), the guarded \<open>atoi\<close> variants
  (\<open>IotCommon/atoi.c\<close>) and \<open>strtoupper\<close>.  MAC addresses travel through the gateway as
  64-bit words on the serial link and as sixteen nibble characters in the database and in
  the JSON messages; the round trips proved here are what makes the two forms one key.
\<close>

section \<open>Nibbles\<close>

definition nibble2num :: "char \<Rightarrow> c_int" where
  "nibble2num c =
     (if CHR ''0'' \<le> c \<and> c \<le> CHR ''9'' then code c - code (CHR ''0'')
      else if CHR ''A'' \<le> c \<and> c \<le> CHR ''F'' then code c - code (CHR ''A'') + 10
      else if CHR ''a'' \<le> c \<and> c \<le> CHR ''f'' then code c - code (CHR ''a'') + 10
      else 0)"

definition num2nibble :: "c_int \<Rightarrow> char" where
  "num2nibble num =
     (if num < 0 \<or> num > 16 then CHR ''0''
      else if num < 10 then of_code (num + code (CHR ''0''))
      else of_code (num - 10 + code (CHR ''A'')))"

text \<open>The characters \<open>num2nibble\<close> produces for an argument in its documented range.\<close>

definition is_upper_nibble :: "char \<Rightarrow> bool" where
  "is_upper_nibble c \<longleftrightarrow>
     CHR ''0'' \<le> c \<and> c \<le> CHR ''9'' \<or> CHR ''A'' \<le> c \<and> c \<le> CHR ''F''"

lemma char_le_code: "a \<le> b \<longleftrightarrow> code a \<le> code b"
  by (simp add: code_def less_eq_char_def)

lemma code_ascii [simp]:
  "code CHR ''0'' = 48" "code CHR ''9'' = 57" "code CHR ''A'' = 65" "code CHR ''F'' = 70"
  "code CHR ''a'' = 97" "code CHR ''f'' = 102" "code CHR ''Z'' = 90" "code CHR ''z'' = 122"
  "code CHR ''-'' = 45" "code CHR ''+'' = 43" "code NUL = 0"
  by (simp_all add: code_def)

lemma num2nibble_code:
  "0 \<le> n \<Longrightarrow> n < 16 \<Longrightarrow> code (num2nibble n) = (if n < 10 then n + 48 else n + 55)"
  by (simp add: num2nibble_def)

lemma nibble2num_num2nibble [simp]: "0 \<le> n \<Longrightarrow> n < 16 \<Longrightarrow> nibble2num (num2nibble n) = n"
  by (simp add: nibble2num_def char_le_code num2nibble_code)

lemma nibble2num_bounds: "0 \<le> nibble2num c \<and> nibble2num c < 16"
  by (auto simp: nibble2num_def char_le_code)

lemma num2nibble_nibble2num: "is_upper_nibble c \<Longrightarrow> num2nibble (nibble2num c) = c"
proof -
  assume "is_upper_nibble c"
  then have "code (num2nibble (nibble2num c)) = code c"
    by (auto simp: is_upper_nibble_def nibble2num_def char_le_code num2nibble_code)
  then show ?thesis by simp
qed

lemma is_upper_nibble_num2nibble: "0 \<le> n \<Longrightarrow> n < 16 \<Longrightarrow> is_upper_nibble (num2nibble n)"
  by (simp add: is_upper_nibble_def char_le_code num2nibble_code)

lemma num2nibble_not_NUL [simp]: "num2nibble n \<noteq> NUL" "NUL \<noteq> num2nibble n"
proof -
  have "code (num2nibble n) \<noteq> 0"
    by (cases "0 \<le> n \<and> n \<le> 16") (auto simp: num2nibble_def)
  then show "num2nibble n \<noteq> NUL" by (metis code_ascii(11))
  then show "NUL \<noteq> num2nibble n" by metis
qed

section \<open>Nibble strings and byte strings\<close>

text \<open>
  The conversion loop of \<open>nibblestr2hex\<close>: \<open>i\<close> counts the source characters, \<open>val\<close>
  holds the high nibble read at an even \<open>i\<close>, and each odd \<open>i\<close> stores one byte.
\<close>

fun nibblestr2hex_loop :: "nat \<Rightarrow> c_int \<Rightarrow> string \<Rightarrow> u8 list" where
  "nibblestr2hex_loop i val [] = []"
| "nibblestr2hex_loop i val (c # src) =
     (if i AND 1 = 0 then nibblestr2hex_loop (Suc i) (nibble2num c) src
      else let val' = push_bit 4 val + nibble2num c
           in word_of_int val' # nibblestr2hex_loop (Suc i) val' src)"

text \<open>
  \<open>None\<close> is a null pointer.  The result pairs the return value with the destination
  buffer: the leading zeros, the bytes the loop stores, and the rest of the buffer as it
  was (the code fills exactly \<open>dstlen\<close> bytes, so nothing is left when the buffer has
  that size).
\<close>

definition nibblestr2hex :: "u8 list option \<Rightarrow> c_int \<Rightarrow> string option \<Rightarrow> c_int \<Rightarrow> c_int \<times> u8 list option" where
  "nibblestr2hex dst dstlen src srclen =
     (case (dst, src) of
        (Some d, Some s) \<Rightarrow>
          (let hexbytes = srclen sdiv 2
           in if srclen < 0 \<or> hexbytes > dstlen \<or> srclen AND 1 = 1 then (0, dst)
              else let out = replicate (nat (dstlen - hexbytes)) 0
                             @ nibblestr2hex_loop 0 0 (take (nat srclen) s)
                   in (1, Some (out @ drop (length out) d)))
      | _ \<Rightarrow> (0, dst))"

fun hex2nibblestr :: "u8 list \<Rightarrow> string" where
  "hex2nibblestr [] = []"
| "hex2nibblestr (b # src) =
     num2nibble (uint (drop_bit 4 b AND 0x0F)) # num2nibble (uint (b AND 0x0F)) # hex2nibblestr src"

text \<open>
  \<open>hex2u64\<close> adds a plain \<open>char\<close>, whose signedness is the target's: \<open>schar\<close> is true
  where \<open>char\<close> is signed.
\<close>

definition char_value :: "bool \<Rightarrow> char \<Rightarrow> c_int" where
  "char_value schar c = (if schar \<and> 128 \<le> code c then code c - 256 else code c)"

fun hex2u64_loop :: "bool \<Rightarrow> nat \<Rightarrow> u64 \<Rightarrow> string \<Rightarrow> u64" where
  "hex2u64_loop schar i u64 [] = u64"
| "hex2u64_loop schar i u64 (c # hex) =
     (if i < 8 then hex2u64_loop schar (Suc i) (push_bit 8 u64 + word_of_int (char_value schar c)) hex
      else u64)"

definition hex2u64 :: "bool \<Rightarrow> string \<Rightarrow> u64" where
  "hex2u64 schar hex = hex2u64_loop schar 0 0 hex"

fun nibblestr2u64_loop :: "nat \<Rightarrow> u64 \<Rightarrow> string \<Rightarrow> u64" where
  "nibblestr2u64_loop i u64 [] = u64"
| "nibblestr2u64_loop i u64 (c # s) =
     (if i < 16 then nibblestr2u64_loop (Suc i) (push_bit 4 u64 + word_of_int (nibble2num c)) s
      else u64)"

definition nibblestr2u64 :: "string \<Rightarrow> u64" where
  "nibblestr2u64 nibblestr = nibblestr2u64_loop 0 0 nibblestr"

text \<open>
  \<open>u642nibblestr\<close> fills the sixteen positions from the last to the first; the positions
  already written are the accumulator.
\<close>

function u642nibblestr_loop :: "nat \<Rightarrow> u64 \<Rightarrow> string \<Rightarrow> string" where
  "u642nibblestr_loop i u64 acc =
     (if i < 16 then u642nibblestr_loop (Suc i) (drop_bit 4 u64) (num2nibble (uint (u64 AND 0x0F)) # acc)
      else acc)"
  by pat_completeness auto
termination
  by (relation "measure (\<lambda>(i, u, acc). 16 - i)") auto

declare u642nibblestr_loop.simps [simp del]

definition u642nibblestr :: "u64 \<Rightarrow> string" where
  "u642nibblestr u64 = u642nibblestr_loop 0 u64 []"

subsection \<open>Base-16 digits\<close>

fun digs16 :: "nat \<Rightarrow> nat \<Rightarrow> nat list" where
  "digs16 0 n = []"
| "digs16 (Suc k) n = digs16 k (n div 16) @ [n mod 16]"

definition val16 :: "nat \<Rightarrow> nat list \<Rightarrow> nat" where
  "val16 x ds = foldl (\<lambda>x d. 16 * x + d) x ds"

definition nibble_chars :: "nat list \<Rightarrow> string" where
  "nibble_chars ds = map (\<lambda>d. num2nibble (int d)) ds"

lemma val16_simps [simp]:
  "val16 x [] = x" "val16 x (d # ds) = val16 (16 * x + d) ds"
  "val16 x (ds @ es) = val16 (val16 x ds) es"
  by (simp_all add: val16_def)

lemma nibble_chars_simps [simp]:
  "nibble_chars [] = []" "nibble_chars (d # ds) = num2nibble (int d) # nibble_chars ds"
  "nibble_chars (ds @ es) = nibble_chars ds @ nibble_chars es"
  "length (nibble_chars ds) = length ds"
  by (simp_all add: nibble_chars_def)

lemma length_digs16 [simp]: "length (digs16 k n) = k"
  by (induction k arbitrary: n) simp_all

lemma digs16_less: "d \<in> set (digs16 k n) \<Longrightarrow> d < 16"
  by (induction k arbitrary: n) auto

lemma val16_digs16: "n < 16 ^ k \<Longrightarrow> val16 0 (digs16 k n) = n"
proof (induction k arbitrary: n)
  case (Suc k)
  from Suc.prems have "n div 16 < 16 ^ k" by (simp add: less_mult_imp_div_less mult.commute)
  from Suc.IH [OF this] show ?case by simp
qed simp

lemma digs16_val16: "\<forall>d\<in>set ds. d < 16 \<Longrightarrow> digs16 (length ds) (val16 x ds) = ds"
  by (induction ds rule: rev_induct) simp_all

lemma val16_bound: "\<forall>d\<in>set ds. d < 16 \<Longrightarrow> val16 0 ds < 16 ^ length ds"
  by (induction ds rule: rev_induct) auto

lemma is_upper_nibble_chars: "\<forall>c\<in>set s. is_upper_nibble c \<Longrightarrow>
    s = nibble_chars (map (\<lambda>c. nat (nibble2num c)) s)"
  by (induction s) (simp_all add: num2nibble_nibble2num nibble2num_bounds)

subsection \<open>Words and nibble strings\<close>

lemma word_and_15: "(x :: 'a::len word) AND 15 = take_bit 4 x"
  by (simp add: take_bit_eq_mask mask_eq_exp_minus_1)

lemma uint_and_15: "uint ((x :: 'a::len word) AND 15) = take_bit 4 (uint x)"
  by (simp add: word_and_15 unsigned_take_bit_eq)

lemma u642nibblestr_loop_eq:
  "i + k = 16 \<Longrightarrow> u642nibblestr_loop i u acc = nibble_chars (digs16 k (unat u)) @ acc"
proof (induction k arbitrary: i u acc)
  case 0
  then show ?case by (simp add: u642nibblestr_loop.simps)
next
  case (Suc k)
  have low: "uint (u AND 15) = int (unat u mod 16)"
    by (simp add: uint_and_15 take_bit_eq_mod of_nat_mod)
  have high: "unat (drop_bit 4 u) = unat u div 16"
    by (simp add: drop_bit_eq_div unat_div)
  have "u642nibblestr_loop i u acc
      = u642nibblestr_loop (Suc i) (drop_bit 4 u) (num2nibble (uint (u AND 15)) # acc)"
    using Suc.prems by (simp add: u642nibblestr_loop.simps [of i])
  also have "\<dots> = nibble_chars (digs16 k (unat u div 16)) @ num2nibble (int (unat u mod 16)) # acc"
    using Suc.IH [of "Suc i" "drop_bit 4 u"] Suc.prems by (simp add: low high)
  finally show ?case by simp
qed

lemma u642nibblestr_digs: "u642nibblestr u = nibble_chars (digs16 16 (unat u))"
  using u642nibblestr_loop_eq [of 0 16 u "[]"] by (simp add: u642nibblestr_def)

lemma nibblestr2u64_loop_chars:
  assumes "\<forall>d\<in>set ds. d < 16" and "i + length ds \<le> 16"
  shows "nibblestr2u64_loop i (of_nat x) (nibble_chars ds) = of_nat (val16 x ds)"
  using assms
proof (induction ds arbitrary: i x)
  case (Cons d ds)
  have "push_bit 4 (of_nat x :: u64) + word_of_int (nibble2num (num2nibble (int d)))
      = of_nat (16 * x + d)"
    using Cons.prems(1) by (simp add: push_bit_eq_mult)
  moreover have "nibblestr2u64_loop (Suc i) (of_nat (16 * x + d)) (nibble_chars ds)
      = of_nat (val16 (16 * x + d) ds)"
    using Cons.prems by (intro Cons.IH) simp_all
  ultimately show ?case using Cons.prems by simp
qed simp

lemma nibblestr2u64_chars:
  assumes "\<forall>d\<in>set ds. d < 16" and "length ds \<le> 16"
  shows "nibblestr2u64 (nibble_chars ds) = of_nat (val16 0 ds)"
  using nibblestr2u64_loop_chars [OF assms(1), of 0 0] assms(2) by (simp add: nibblestr2u64_def)

lemma nibblestr2u64_u642nibblestr [simp]: "nibblestr2u64 (u642nibblestr u) = u"
proof -
  have "unat u < 16 ^ 16" using unsigned_less [of u] by simp
  then show ?thesis
    by (simp add: u642nibblestr_digs nibblestr2u64_chars digs16_less val16_digs16)
qed

lemma u642nibblestr_nibblestr2u64:
  assumes "length s = 16" and "\<forall>c\<in>set s. is_upper_nibble c"
  shows "u642nibblestr (nibblestr2u64 s) = s"
proof -
  define ds where "ds = map (\<lambda>c. nat (nibble2num c)) s"
  have s: "s = nibble_chars ds" unfolding ds_def by (rule is_upper_nibble_chars [OF assms(2)])
  have ds: "\<forall>d\<in>set ds. d < 16" and len: "length ds = 16"
    using nibble2num_bounds assms(1) by (auto simp: ds_def nat_less_iff)
  have "val16 0 ds < 2 ^ 64" using val16_bound [OF ds] len by simp
  then have "unat (of_nat (val16 0 ds) :: u64) = val16 0 ds"
    by (simp add: unat_of_nat)
  then show ?thesis
    using digs16_val16 [OF ds, of 0] ds len by (simp add: s nibblestr2u64_chars u642nibblestr_digs)
qed

lemma u642nibblestr_inject [simp]: "u642nibblestr a = u642nibblestr b \<longleftrightarrow> a = b"
  by (metis nibblestr2u64_u642nibblestr)

lemma length_u642nibblestr [simp]: "length (u642nibblestr u) = 16"
  by (simp add: u642nibblestr_digs)

lemma u642nibblestr_upper: "c \<in> set (u642nibblestr u) \<Longrightarrow> is_upper_nibble c"
  by (auto simp: u642nibblestr_digs nibble_chars_def is_upper_nibble_num2nibble dest!: digs16_less)

lemma is_cstring_u642nibblestr [simp]: "is_cstring (u642nibblestr u)"
  by (auto simp: u642nibblestr_digs nibble_chars_def is_cstring_def)

subsection \<open>Byte strings and nibble strings\<close>

lemma byte_nibbles:
  fixes b :: u8
  shows "0 \<le> uint (drop_bit 4 b AND 15) \<and> uint (drop_bit 4 b AND 15) < 16"
    and "0 \<le> uint (b AND 15) \<and> uint (b AND 15) < 16"
    and "push_bit 4 (uint (drop_bit 4 b AND 15)) + uint (b AND 15) = uint b"
proof -
  have "uint b < 256" using uint_bounded [of b] by simp
  then have lt: "uint b div 16 < 16" "0 \<le> uint b div 16"
    by (simp_all add: pos_imp_zdiv_nonneg_iff)
  have hi: "uint (drop_bit 4 b AND 15) = uint b div 16"
    using lt by (simp add: uint_and_15 take_bit_eq_mod drop_bit_eq_div uint_div)
  have lo: "uint (b AND 15) = uint b mod 16" by (simp add: uint_and_15 take_bit_eq_mod)
  show "0 \<le> uint (drop_bit 4 b AND 15) \<and> uint (drop_bit 4 b AND 15) < 16"
    using lt by (simp add: hi)
  show "0 \<le> uint (b AND 15) \<and> uint (b AND 15) < 16" by (simp add: lo)
  show "push_bit 4 (uint (drop_bit 4 b AND 15)) + uint (b AND 15) = uint b"
    by (simp add: hi lo push_bit_eq_mult)
qed

lemma length_hex2nibblestr [simp]: "length (hex2nibblestr bs) = 2 * length bs"
  by (induction bs) simp_all

lemma nibblestr2hex_loop_hex2nibblestr:
  "even i \<Longrightarrow> nibblestr2hex_loop i val (hex2nibblestr bs) = bs"
proof (induction bs arbitrary: i val)
  case (Cons b bs)
  have and1: "i mod 2 = 0" "Suc i mod 2 = Suc 0"
    using Cons.prems by presburger+
  show ?case
    using Cons.IH [of "Suc (Suc i)"] Cons.prems byte_nibbles [of b]
    by (simp add: and1 and_one_eq Let_def)
qed simp

text \<open>
  A MAC address survives the trip through its database form: printing any 64-bit
  address as sixteen nibbles and reading it back gives the address, and the printed form is
  always sixteen upper-case nibbles, so it fits the \<open>mac\<close> field and is a C string.
\<close>

theorem mac_nibble_roundtrip:
  "nibblestr2u64 (u642nibblestr u) = u
   \<and> length (u642nibblestr u) = 16
   \<and> list_all is_upper_nibble (u642nibblestr u)
   \<and> is_cstring (u642nibblestr u)"
  by (simp add: list_all_iff u642nibblestr_upper)

text \<open>
  Converting a byte string to nibbles and back restores the bytes, right-aligned and
  zero-filled in a destination that is at least as large.
\<close>

theorem nibblestr2hex_hex2nibblestr:
  assumes "length bs \<le> n" and "length dst = n"
  shows "nibblestr2hex (Some dst) (int n) (Some (hex2nibblestr bs)) (2 * int (length bs))
       = (1, Some (replicate (n - length bs) 0 @ bs))"
proof -
  have "2 * int (length bs) sdiv 2 = int (length bs)"
    by (simp add: signed_divide_int_def sgn_if)
  moreover have "nat (int n - int (length bs)) = n - length bs" by arith
  ultimately show ?thesis
    using assms by (simp add: nibblestr2hex_def and_one_eq Let_def nibblestr2hex_loop_hex2nibblestr)
qed

theorem nibblestr2hex_hex2nibblestr_witness:
  "nibblestr2hex (Some [7, 7, 7]) 3 (Some (hex2nibblestr [171, 16])) 4 = (1, Some [0, 171, 16])"
  using nibblestr2hex_hex2nibblestr [of "[171, 16]" 3 "[7, 7, 7]"] by simp

lemma nibblestr2hex_rejects:
  "nibblestr2hex None dstlen src srclen = (0, None)"
  "nibblestr2hex dst dstlen None srclen = (0, dst)"
  "odd srclen \<Longrightarrow> nibblestr2hex dst dstlen src srclen = (0, dst)"
  "srclen < 0 \<Longrightarrow> nibblestr2hex dst dstlen src srclen = (0, dst)"
  by (simp_all add: nibblestr2hex_def and_one_eq mod_2_eq_odd split: option.split)

lemma num2nibble_out_of_range:
  "n < 0 \<or> 16 < n \<Longrightarrow> num2nibble n = CHR ''0''"
  by (auto simp: num2nibble_def)

lemma num2nibble_16: "num2nibble 16 = CHR ''G''"
  by (subst code_inject [symmetric]) (simp add: num2nibble_def, simp add: code_def)

section \<open>Decimal strings\<close>

text \<open>
  The C library's \<open>atoi\<close> and \<open>strtol\<close>: leading white space, an optional sign, then
  digits up to the first other character.  On the gateway's 32-bit targets \<open>long\<close> and
  \<open>int\<close> have the same range, and \<open>strtol\<close> clamps to it.
\<close>

definition c_isspace :: "char \<Rightarrow> bool" where
  "c_isspace c \<longleftrightarrow> code c = 32 \<or> (9 \<le> code c \<and> code c \<le> 13)"

definition c_isdigit :: "char \<Rightarrow> bool" where
  "c_isdigit c \<longleftrightarrow> 48 \<le> code c \<and> code c \<le> 57"

definition clamp_int :: "int \<Rightarrow> c_int" where
  "clamp_int n = max INT_MIN (min INT_MAX n)"

definition dec_value :: "string \<Rightarrow> int" where
  "dec_value ds = foldl (\<lambda>v c. 10 * v + (code c - 48)) 0 ds"

definition c_sign :: "string \<Rightarrow> int \<times> string" where
  "c_sign s = (case s of
      [] \<Rightarrow> (1, [])
    | c # r \<Rightarrow> if c = CHR ''-'' then (- 1, r) else if c = CHR ''+'' then (1, r) else (1, s))"

definition c_atoi :: "string \<Rightarrow> c_int" where
  "c_atoi s = (case c_sign (dropWhile c_isspace s) of
      (g, r) \<Rightarrow> clamp_int (g * dec_value (takeWhile c_isdigit r)))"

definition Atoi :: "string option \<Rightarrow> c_int" where
  "Atoi str = (case str of Some (c # s) \<Rightarrow> c_atoi (c # s) | _ \<Rightarrow> - 1)"

definition Atoi0 :: "string option \<Rightarrow> c_int" where
  "Atoi0 str = (case str of Some (c # s) \<Rightarrow> c_atoi (c # s) | _ \<Rightarrow> 0)"

definition AtoiMI :: "string option \<Rightarrow> c_int" where
  "AtoiMI str = (case str of Some (c # s) \<Rightarrow> c_atoi (c # s) | _ \<Rightarrow> INT_MIN)"

definition c_isxdigit :: "char \<Rightarrow> bool" where
  "c_isxdigit c \<longleftrightarrow> is_upper_nibble c \<or> CHR ''a'' \<le> c \<and> c \<le> CHR ''f''"

definition hex_value :: "string \<Rightarrow> int" where
  "hex_value ds = foldl (\<lambda>v c. 16 * v + nibble2num c) 0 ds"

definition c_skip0x :: "string \<Rightarrow> string" where
  "c_skip0x s = (case s of
      z # x # d # r \<Rightarrow>
        if z = CHR ''0'' \<and> (x = CHR ''x'' \<or> x = CHR ''X'') \<and> c_isxdigit d then d # r else s
    | _ \<Rightarrow> s)"

definition AtoiHex :: "string option \<Rightarrow> c_int" where
  "AtoiHex str = (case str of
      Some (c # s) \<Rightarrow> (case c_sign (dropWhile c_isspace (c # s)) of
         (g, r) \<Rightarrow> clamp_int (g * hex_value (takeWhile c_isxdigit (c_skip0x r))))
    | _ \<Rightarrow> - 1)"

section \<open>Upper case\<close>

definition c_toupper :: "char \<Rightarrow> char" where
  "c_toupper c = (if CHR ''a'' \<le> c \<and> c \<le> CHR ''z'' then of_code (code c - 32) else c)"

fun strtoupper :: "string \<Rightarrow> string" where
  "strtoupper [] = []"
| "strtoupper (c # s) = c_toupper c # strtoupper s"

lemma strtoupper_map: "strtoupper s = map c_toupper s"
  by (induction s) simp_all

lemma c_toupper_idem: "c_toupper (c_toupper c) = c_toupper c"
  by (auto simp: c_toupper_def char_le_code)

lemma strtoupper_idem: "strtoupper (strtoupper s) = strtoupper s"
  by (induction s) (simp_all add: c_toupper_idem)

section \<open>Printing integers\<close>

text \<open>The digits \<open>printf\<close> writes for \<open>%d\<close>, most significant first.\<close>

fun dec_digits :: "nat \<Rightarrow> string" where
  "dec_digits n = (if n < 10 then [of_code (int n + 48)]
                   else dec_digits (n div 10) @ [of_code (int (n mod 10) + 48)])"

declare dec_digits.simps [simp del]

definition c_itoa :: "int \<Rightarrow> string" where
  "c_itoa n = (if n < 0 then CHR ''-'' # dec_digits (nat (- n)) else dec_digits (nat n))"

lemma dec_digits_isdigit: "c \<in> set (dec_digits n) \<Longrightarrow> c_isdigit c"
proof (induction n rule: dec_digits.induct)
  case (1 n)
  then show ?case
    by (cases "n < 10") (auto simp: dec_digits.simps [of n] c_isdigit_def)
qed

lemma dec_digits_not_Nil [simp]: "dec_digits n \<noteq> []"
  by (subst dec_digits.simps) simp

lemma dec_value_snoc: "dec_value (s @ [c]) = 10 * dec_value s + (code c - 48)"
  by (simp add: dec_value_def)

lemma dec_value_dec_digits: "dec_value (dec_digits n) = int n"
proof (induction n rule: dec_digits.induct)
  case (1 n)
  show ?case
  proof (cases "n < 10")
    case True
    then show ?thesis by (subst dec_digits.simps) (simp add: dec_value_def)
  next
    case False
    with 1 show ?thesis
      by (subst dec_digits.simps) (simp add: dec_value_snoc zdiv_int zmod_int)
  qed
qed

lemma clamp_int_id: "INT_MIN \<le> n \<Longrightarrow> n \<le> INT_MAX \<Longrightarrow> clamp_int n = n"
  by (simp add: clamp_int_def)

lemma not_space_digit: "c_isdigit c \<Longrightarrow> \<not> c_isspace c \<and> c \<noteq> CHR ''-'' \<and> c \<noteq> CHR ''+''"
  by (auto simp: c_isdigit_def c_isspace_def)

lemma c_atoi_digits:
  assumes "ds \<noteq> []" and "\<forall>c\<in>set ds. c_isdigit c"
  shows "c_atoi ds = clamp_int (dec_value ds)"
    and "c_atoi (CHR ''-'' # ds) = clamp_int (- dec_value ds)"
    and "c_atoi (CHR ''+'' # ds) = clamp_int (dec_value ds)"
proof -
  obtain c s where ds: "ds = c # s" using assms(1) by (cases ds) auto
  have tw: "takeWhile c_isdigit ds = ds" using assms(2) by simp
  have "\<not> c_isspace c \<and> c \<noteq> CHR ''-'' \<and> c \<noteq> CHR ''+''"
    using not_space_digit assms(2) ds by simp
  with tw show "c_atoi ds = clamp_int (dec_value ds)"
    by (simp add: c_atoi_def c_sign_def ds del: takeWhile_eq_all_conv)
  from tw show "c_atoi (CHR ''-'' # ds) = clamp_int (- dec_value ds)"
    by (simp add: c_atoi_def c_sign_def c_isspace_def del: takeWhile_eq_all_conv)
  from tw show "c_atoi (CHR ''+'' # ds) = clamp_int (dec_value ds)"
    by (simp add: c_atoi_def c_sign_def c_isspace_def del: takeWhile_eq_all_conv)
qed

lemma c_atoi_c_itoa: "INT_MIN \<le> n \<Longrightarrow> n \<le> INT_MAX \<Longrightarrow> c_atoi (c_itoa n) = n"
  by (simp add: c_itoa_def c_atoi_digits dec_digits_isdigit dec_value_dec_digits clamp_int_id)

lemma c_itoa_not_Nil [simp]: "c_itoa n \<noteq> []"
  by (simp add: c_itoa_def)

lemma Atoi_c_itoa: "INT_MIN \<le> n \<Longrightarrow> n \<le> INT_MAX \<Longrightarrow> Atoi (Some (c_itoa n)) = n"
  using c_atoi_c_itoa [of n] by (cases "c_itoa n") (simp_all add: Atoi_def)

end
