(* ===== verification/JsonParser.thy ===== *)
theory JsonParser
  imports Nibbles
begin

text \<open>
  The character-at-a-time JSON parser (\<open>IotCommon/json.c\<close>): its state stack, its name
  and value buffers, the ring buffer of recent characters it reports with an error, and
  the callbacks it makes.  The callbacks are recorded in order in a trace; the user
  functions behind them do not call back into the parser (nested messages use a second
  parser instance through \<open>jsonSelectNext\<close>).

  The three character arrays of \<open>parser_data_t\<close> follow each other in the structure and
  the code writes one byte past a row when it is full, so they are modelled as one region:
  the five name rows, the five value rows and the error ring.  \<open>p_fault\<close> is no variable of the
  code: it says that the code has written outside these arrays or its state stack, more than
  one byte behind a row, or outside the buffer of an error text, from where on C says nothing.
  \<open>numchars\<close> is an \<open>int\<close> and wraps.
\<close>

definition MAXPARSERS :: nat where "MAXPARSERS = 2"
definition MAXSTATES :: nat where "MAXSTATES = 10"
definition MAXSTACK :: nat where "MAXSTACK = 5"
definition MAXERRORBUFFER :: nat where "MAXERRORBUFFER = 20"
definition MAXNAME :: nat where "MAXNAME = 30"
definition MAXVALUE :: nat where "MAXVALUE = 160"

lemmas json_sizes = MAXPARSERS_def MAXSTATES_def MAXSTACK_def MAXERRORBUFFER_def MAXNAME_def MAXVALUE_def

datatype json_state =
    STATE_NONE | STATE_INOBJECT | STATE_TONAME | STATE_INNAME | STATE_TOCOLUMN
  | STATE_TOVALUE | STATE_INSTRING | STATE_INNUM | STATE_INARRAY | STATE_OUTVALUE

datatype json_err =
    ERR_NONE | ERR_DISCARD | ERR_NAMETOOLONG | ERR_VALUETOOLONG | ERR_PARSE_OBJECT
  | ERR_PARSE_NAME | ERR_PARSE_ILLNAME | ERR_PARSE_ASSIGNMENT | ERR_PARSE_VALUE
  | ERR_PARSE_ARRAY | ERR_INTERNAL

fun json_errors :: "json_err \<Rightarrow> string" where
  "json_errors ERR_NONE = ''none''"
| "json_errors ERR_DISCARD = ''discard''"
| "json_errors ERR_NAMETOOLONG = ''name too long''"
| "json_errors ERR_VALUETOOLONG = ''value too long''"
| "json_errors ERR_PARSE_OBJECT = ''parsing object''"
| "json_errors ERR_PARSE_NAME = ''parsing name''"
| "json_errors ERR_PARSE_ILLNAME = ''illegal name char''"
| "json_errors ERR_PARSE_ASSIGNMENT = ''parsing assignment''"
| "json_errors ERR_PARSE_VALUE = ''parsing value''"
| "json_errors ERR_PARSE_ARRAY = ''parsing array''"
| "json_errors ERR_INTERNAL = ''internal error''"

datatype json_event =
    EvError json_err string string
  | EvObjectStart string
  | EvObjectComplete string
  | EvArrayStart string
  | EvArrayComplete string
  | EvString string string
  | EvInteger string c_int

text \<open>Which callbacks the user has installed (a null pointer is \<open>False\<close>).\<close>

record json_handlers =
  onError :: bool
  onObjectStart :: bool
  onObjectComplete :: bool
  onArrayStart :: bool
  onArrayComplete :: bool
  onString :: bool
  onInteger :: bool

record parser_data =
  p_state :: json_state
  p_states :: "json_state list"
  p_stateIndex :: nat
  p_allowComma :: bool
  p_isSlash :: bool
  p_stack :: nat
  p_chars :: "char list"
  p_errbufIndex :: nat
  p_numchars :: c_int
  p_on :: json_handlers
  p_trace :: "json_event list"
  p_fault :: bool

definition fault_if :: "bool \<Rightarrow> parser_data \<Rightarrow> parser_data" where
  "fault_if b p = (if b then p\<lparr>p_fault := True\<rparr> else p)"

section \<open>The character region\<close>

definition name_row :: "nat \<Rightarrow> nat" where
  "name_row k = MAXNAME * k"

definition value_row :: "nat \<Rightarrow> nat" where
  "value_row k = MAXNAME * MAXSTACK + MAXVALUE * k"

definition errbuf_row :: nat where
  "errbuf_row = MAXNAME * MAXSTACK + MAXVALUE * MAXSTACK"

definition chars_size :: nat where
  "chars_size = errbuf_row + MAXERRORBUFFER"

definition cur_name :: "parser_data \<Rightarrow> string" where
  "cur_name p = cstr_at (p_chars p) (name_row (p_stack p))"

definition cur_value :: "parser_data \<Rightarrow> string" where
  "cur_value p = cstr_at (p_chars p) (value_row (p_stack p))"

definition poke :: "nat \<Rightarrow> char \<Rightarrow> parser_data \<Rightarrow> parser_data" where
  "poke i c p = fault_if (length (p_chars p) \<le> i) (p\<lparr>p_chars := (p_chars p)[i := c]\<rparr>)"

text \<open>A byte of a row; the one behind the row is the first of the next row.\<close>

definition row_put :: "nat \<Rightarrow> nat \<Rightarrow> nat \<Rightarrow> char \<Rightarrow> parser_data \<Rightarrow> parser_data" where
  "row_put row room k c p = fault_if (room < k) (poke (row + k) c p)"

definition emit :: "(json_handlers \<Rightarrow> bool) \<Rightarrow> json_event \<Rightarrow> parser_data \<Rightarrow> parser_data" where
  "emit h ev p = (if h (p_on p) then p\<lparr>p_trace := p_trace p @ [ev]\<rparr> else p)"

section \<open>Reset and errors\<close>

definition jsonReset :: "parser_data \<Rightarrow> parser_data" where
  "jsonReset p = poke (value_row 0) NUL (poke (name_row 0) NUL
     (p\<lparr>p_allowComma := False, p_isSlash := False, p_state := STATE_NONE, p_stateIndex := 0,
        p_stack := 0, p_errbufIndex := 0, p_numchars := 0\<rparr>))"

text \<open>The copy loop of \<open>jsonError\<close>: \<open>n\<close> characters of the ring from \<open>start\<close> on.\<close>

fun errbuf_read :: "char list \<Rightarrow> nat \<Rightarrow> nat \<Rightarrow> string" where
  "errbuf_read m 0 start = []"
| "errbuf_read m (Suc n) start =
     m ! (errbuf_row + start) # errbuf_read m n (if MAXERRORBUFFER \<le> Suc start then 0 else Suc start)"

definition jsonErrorText :: "parser_data \<Rightarrow> string" where
  "jsonErrorText p =
     (let len = (if int MAXERRORBUFFER \<le> p_numchars p then int MAXERRORBUFFER else p_numchars p);
          d = int (p_errbufIndex p) - len;
          start = (if d < 0 then d + int MAXERRORBUFFER else d)
      in takeWhile (\<lambda>c. c \<noteq> NUL) (errbuf_read (p_chars p) (nat len) (nat start)))"

text \<open>The text is terminated in a local buffer at the index \<open>len\<close>, which a negative count puts before it.\<close>

definition jsonError :: "json_err \<Rightarrow> parser_data \<Rightarrow> parser_data" where
  "jsonError err p =
     jsonReset (emit onError (EvError err (json_errors err) (jsonErrorText p)) (fault_if (p_numchars p < 0) p))"

section \<open>Character classes and buffers\<close>

definition isWhiteSpace :: "char \<Rightarrow> bool" where
  "isWhiteSpace c \<longleftrightarrow> c = CHR '' '' \<or> c = CHR 0x0D \<or> c = CHR 0x0A \<or> c = CHR 0x09"

definition isSign :: "char \<Rightarrow> bool" where
  "isSign c \<longleftrightarrow> c = CHR ''-'' \<or> c = CHR ''+''"

definition isNum :: "char \<Rightarrow> bool" where
  "isNum c \<longleftrightarrow> CHR ''0'' \<le> c \<and> c \<le> CHR ''9''"

definition isAlpha :: "char \<Rightarrow> bool" where
  "isAlpha c \<longleftrightarrow> (c \<ge> CHR ''a'' \<and> c \<le> CHR ''z'') \<or> (c \<ge> CHR ''A'' \<and> c \<le> CHR ''Z'')"

definition isValidNameChar :: "char \<Rightarrow> bool" where
  "isValidNameChar c \<longleftrightarrow> isAlpha c \<or> isNum c \<or> c = CHR ''_'' \<or> c = CHR ''+''"

definition appendName :: "char \<Rightarrow> parser_data \<Rightarrow> parser_data" where
  "appendName c p =
     (let row = name_row (p_stack p); len = length (cur_name p)
      in if len < MAXNAME then row_put row MAXNAME (len + 1) NUL (row_put row MAXNAME len c p)
         else jsonError ERR_NAMETOOLONG p)"

definition appendValue :: "char \<Rightarrow> parser_data \<Rightarrow> parser_data" where
  "appendValue c p =
     (let row = value_row (p_stack p); len = length (cur_value p)
      in if len < MAXVALUE then row_put row MAXVALUE (len + 1) NUL (row_put row MAXVALUE len c p)
         else jsonError ERR_VALUETOOLONG p)"

section \<open>State changes\<close>

definition setState :: "json_state \<Rightarrow> parser_data \<Rightarrow> parser_data" where
  "setState st p0 =
     (let p = p0\<lparr>p_state := st\<rparr>
      in case st of
           STATE_INNAME \<Rightarrow> poke (name_row (p_stack p)) NUL p
         | STATE_TOVALUE \<Rightarrow> poke (value_row (p_stack p)) NUL p
         | STATE_INOBJECT \<Rightarrow>
             (let q = p\<lparr>p_stack := Suc (p_stack p)\<rparr>
              in if p_stack q < MAXSTACK then poke (name_row (p_stack q)) NUL q
                 else jsonError ERR_INTERNAL q)
         | STATE_INARRAY \<Rightarrow>
             (let q = p\<lparr>p_stack := Suc (p_stack p)\<rparr>
              in if p_stack q < MAXSTACK then poke (name_row (p_stack q)) NUL q
                 else jsonError ERR_INTERNAL q)
         | _ \<Rightarrow> p)"

definition toState :: "json_state \<Rightarrow> parser_data \<Rightarrow> parser_data" where
  "toState st p =
     (let q = (fault_if (MAXSTATES \<le> p_stateIndex p) p)\<lparr>p_states := (p_states p)[p_stateIndex p := p_state p],
                p_stateIndex := Suc (p_stateIndex p)\<rparr>
      in if p_stateIndex q < MAXSTATES then setState st q else jsonError ERR_INTERNAL q)"

definition upState :: "parser_data \<Rightarrow> parser_data" where
  "upState p =
     (if 0 < p_stateIndex p then
        let i = p_stateIndex p - 1; q = p\<lparr>p_stateIndex := i, p_state := p_states p ! i\<rparr>
        in if p_state q = STATE_INOBJECT \<or> p_state q = STATE_INARRAY then
             if 0 < p_stack q then q\<lparr>p_stack := p_stack q - 1, p_allowComma := True\<rparr>
             else jsonError ERR_INTERNAL q
           else if p_state q = STATE_NONE then poke (name_row (p_stack q)) NUL q
           else q
      else jsonError ERR_INTERNAL p)"

section \<open>Eating a character\<close>

definition c_wrap :: "int \<Rightarrow> c_int" where
  "c_wrap n = (n + 2147483648) mod 4294967296 - 2147483648"

text \<open>
  One pass through the \<open>switch\<close> of \<open>jsonEatNoLog\<close>; the flag is the code's \<open>again\<close>.
\<close>

definition eat_switch :: "char \<Rightarrow> parser_data \<Rightarrow> parser_data \<times> bool" where
  "eat_switch c p = (case p_state p of
     STATE_NONE \<Rightarrow>
       (if c = CHR ''{'' then
          ((toState STATE_TONAME (toState STATE_INOBJECT
             (emit onObjectStart (EvObjectStart (cur_name p)) p)))\<lparr>p_allowComma := False\<rparr>, False)
        else if c = CHR 0x22 then (toState STATE_INNAME p, False)
        else (p, False))
   | STATE_INOBJECT \<Rightarrow>
       (if c = CHR ''}'' then
          (upState (emit onObjectComplete (EvObjectComplete (cur_name p)) p), False)
        else if c = CHR 0x22 then (toState STATE_INNAME p, False)
        else if c = CHR '','' \<and> p_allowComma p then (toState STATE_TONAME (p\<lparr>p_allowComma := False\<rparr>), False)
        else if \<not> isWhiteSpace c then (jsonError ERR_PARSE_OBJECT p, False)
        else (p, False))
   | STATE_TONAME \<Rightarrow>
       (if c = CHR 0x22 then (setState STATE_INNAME p, False)
        else if \<not> isWhiteSpace c then (jsonError ERR_PARSE_NAME p, False)
        else (p, False))
   | STATE_INNAME \<Rightarrow>
       (if c = CHR 0x22 then (setState STATE_TOCOLUMN p, False)
        else if isValidNameChar c then (appendName c p, False)
        else (jsonError ERR_PARSE_ILLNAME p, False))
   | STATE_TOCOLUMN \<Rightarrow>
       (if c = CHR '':'' then (setState STATE_TOVALUE p, False)
        else if \<not> isWhiteSpace c then (jsonError ERR_PARSE_ASSIGNMENT p, False)
        else (p, False))
   | STATE_TOVALUE \<Rightarrow>
       (if c = CHR 0x22 then (setState STATE_INSTRING (p\<lparr>p_isSlash := False\<rparr>), False)
        else if isNum c \<or> isSign c then (setState STATE_INNUM (appendValue c p), False)
        else if c = CHR ''['' then
          (toState STATE_TONAME (setState STATE_INARRAY
             (emit onArrayStart (EvArrayStart (cur_name p)) p)), False)
        else if c = CHR ''{'' then
          (toState STATE_TONAME (setState STATE_INOBJECT
             (emit onObjectStart (EvObjectStart (cur_name p)) p)), False)
        else if \<not> isWhiteSpace c then (jsonError ERR_PARSE_VALUE p, False)
        else (p, False))
   | STATE_INSTRING \<Rightarrow>
       (if \<not> p_isSlash p \<and> c = CHR 0x5C then (p\<lparr>p_isSlash := True\<rparr>, False)
        else if p_isSlash p then (appendValue c (appendValue (CHR 0x5C) (p\<lparr>p_isSlash := False\<rparr>)), False)
        else if c = CHR 0x22 then
          (setState STATE_OUTVALUE (emit onString (EvString (cur_name p) (cur_value p)) p), False)
        else (appendValue c p, False))
   | STATE_INNUM \<Rightarrow>
       (if isNum c then (appendValue c p, False)
        else (setState STATE_OUTVALUE
                (emit onInteger (EvInteger (cur_name p) (Atoi (Some (cur_value p)))) p), True))
   | STATE_INARRAY \<Rightarrow>
       (if c = CHR '']'' then
          (upState (emit onArrayComplete (EvArrayComplete (cur_name p)) p), False)
        else if c = CHR 0x22 then (toState STATE_INNAME p, False)
        else if c = CHR '','' \<and> p_allowComma p then (toState STATE_TONAME (p\<lparr>p_allowComma := False\<rparr>), False)
        else if \<not> isWhiteSpace c then (jsonError ERR_PARSE_ARRAY p, False)
        else (p, False))
   | STATE_OUTVALUE \<Rightarrow>
       (if \<not> isWhiteSpace c then
          (if c = CHR '','' then (toState STATE_TONAME p, False) else (upState p, True))
        else (p, False)))"

text \<open>
  The recursive call on the same character stops because each repetition either leaves a
  number for the state behind it or pops the state stack.
\<close>

definition eat_measure :: "parser_data \<Rightarrow> nat" where
  "eat_measure p = 2 * p_stateIndex p +
     (case p_state p of STATE_INNUM \<Rightarrow> 2 | STATE_OUTVALUE \<Rightarrow> 1 | _ \<Rightarrow> 0)"

lemma fault_if_sel [simp]:
  "p_state (fault_if b p) = p_state p" "p_states (fault_if b p) = p_states p"
  "p_stateIndex (fault_if b p) = p_stateIndex p" "p_stack (fault_if b p) = p_stack p"
  "p_allowComma (fault_if b p) = p_allowComma p" "p_isSlash (fault_if b p) = p_isSlash p"
  "p_errbufIndex (fault_if b p) = p_errbufIndex p" "p_numchars (fault_if b p) = p_numchars p"
  "p_on (fault_if b p) = p_on p" "p_trace (fault_if b p) = p_trace p" "p_chars (fault_if b p) = p_chars p"
  "p_fault (fault_if b p) \<longleftrightarrow> b \<or> p_fault p" "fault_if False p = p"
  by (simp_all add: fault_if_def)

lemma poke_sel [simp]:
  "p_state (poke i c p) = p_state p" "p_states (poke i c p) = p_states p"
  "p_stateIndex (poke i c p) = p_stateIndex p" "p_stack (poke i c p) = p_stack p"
  "p_allowComma (poke i c p) = p_allowComma p" "p_isSlash (poke i c p) = p_isSlash p"
  "p_errbufIndex (poke i c p) = p_errbufIndex p" "p_numchars (poke i c p) = p_numchars p"
  "p_on (poke i c p) = p_on p" "p_trace (poke i c p) = p_trace p"
  "p_chars (poke i c p) = (p_chars p)[i := c]" "p_fault (poke i c p) \<longleftrightarrow> length (p_chars p) \<le> i \<or> p_fault p"
  by (simp_all add: poke_def)

lemma row_put_in [simp]: "k \<le> room \<Longrightarrow> row_put row room k c p = poke (row + k) c p"
  by (simp add: row_put_def)

lemma emit_sel [simp]:
  "p_state (emit h ev p) = p_state p" "p_states (emit h ev p) = p_states p"
  "p_stateIndex (emit h ev p) = p_stateIndex p" "p_stack (emit h ev p) = p_stack p"
  "p_allowComma (emit h ev p) = p_allowComma p" "p_isSlash (emit h ev p) = p_isSlash p"
  "p_errbufIndex (emit h ev p) = p_errbufIndex p" "p_numchars (emit h ev p) = p_numchars p"
  "p_on (emit h ev p) = p_on p" "p_chars (emit h ev p) = p_chars p" "p_fault (emit h ev p) = p_fault p"
  by (simp_all add: emit_def)

lemma jsonReset_sel [simp]:
  "p_state (jsonReset p) = STATE_NONE" "p_states (jsonReset p) = p_states p"
  "p_stateIndex (jsonReset p) = 0" "p_stack (jsonReset p) = 0"
  "p_errbufIndex (jsonReset p) = 0" "p_numchars (jsonReset p) = 0"
  "p_allowComma (jsonReset p) = False" "p_isSlash (jsonReset p) = False"
  "p_on (jsonReset p) = p_on p" "p_trace (jsonReset p) = p_trace p"
  "length (p_chars (jsonReset p)) = length (p_chars p)"
  by (simp_all add: jsonReset_def)

lemma jsonError_sel [simp]:
  "p_state (jsonError e p) = STATE_NONE" "p_states (jsonError e p) = p_states p"
  "p_stateIndex (jsonError e p) = 0" "p_stack (jsonError e p) = 0"
  "p_errbufIndex (jsonError e p) = 0" "p_numchars (jsonError e p) = 0"
  "p_on (jsonError e p) = p_on p"
  "length (p_chars (jsonError e p)) = length (p_chars p)"
  by (simp_all add: jsonError_def)

lemma setState_measure:
  "eat_measure (setState STATE_OUTVALUE p) = 2 * p_stateIndex p + 1"
  by (simp add: setState_def eat_measure_def)

lemma upState_measure: "eat_measure (upState p) < 2 * p_stateIndex p + 1"
  by (auto simp: upState_def eat_measure_def Let_def split: json_state.split)

lemma eat_switch_again: "eat_switch c p = (q, True) \<Longrightarrow> eat_measure q < eat_measure p"
proof -
  assume "eat_switch c p = (q, True)"
  then consider "p_state p = STATE_INNUM"
      "q = setState STATE_OUTVALUE (emit onInteger (EvInteger (cur_name p) (Atoi (Some (cur_value p)))) p)"
    | "p_state p = STATE_OUTVALUE" "q = upState p"
    by (auto simp: eat_switch_def split: json_state.splits if_splits)
  then show ?thesis
    using setState_measure upState_measure [of p] by cases (auto simp: eat_measure_def setState_def)
qed

function jsonEatNoLog :: "char \<Rightarrow> parser_data \<Rightarrow> parser_data" where
  "jsonEatNoLog c p = (case eat_switch c p of (q, again) \<Rightarrow> if again then jsonEatNoLog c q else q)"
  by pat_completeness auto
termination
  by (relation "measure (\<lambda>(c, p). eat_measure p)") (auto simp: eat_switch_again)

declare jsonEatNoLog.simps [simp del]

definition jsonEat :: "char \<Rightarrow> parser_data \<Rightarrow> parser_data" where
  "jsonEat c p0 =
     (let p = p0\<lparr>p_numchars := c_wrap (p_numchars p0 + 1)\<rparr>;
          i = p_errbufIndex p;
          q = (if \<not> isWhiteSpace c then
                 (poke (errbuf_row + i) c p)\<lparr>p_errbufIndex := (if MAXERRORBUFFER \<le> Suc i then 0 else Suc i)\<rparr>
               else p)
      in jsonEatNoLog c q)"

definition jsonEats :: "string \<Rightarrow> parser_data \<Rightarrow> parser_data" where
  "jsonEats s p = fold jsonEat s p"

end
