(* ===== verification/JsonInvariant.thy ===== *)
theory JsonInvariant
  imports JsonParser
begin

text \<open>
  The bounds the parser keeps: its state stack, its name stack, its buffers and its error
  ring are never indexed outside their declared sizes, whatever bytes arrive.  The one
  write that leaves its own row (the terminator of a full name or value) is described
  exactly.
\<close>

definition json_inv :: "parser_data \<Rightarrow> bool" where
  "json_inv p \<longleftrightarrow> length (p_states p) = MAXSTATES \<and> p_stateIndex p < MAXSTATES
     \<and> p_stack p < MAXSTACK \<and> length (p_chars p) = chars_size \<and> p_errbufIndex p < MAXERRORBUFFER"

definition json_init :: "json_handlers \<Rightarrow> parser_data" where
  "json_init on = \<lparr>p_state = STATE_NONE, p_states = replicate MAXSTATES STATE_NONE, p_stateIndex = 0,
     p_allowComma = False, p_isSlash = False, p_stack = 0, p_chars = replicate chars_size NUL,
     p_errbufIndex = 0, p_numchars = 0, p_on = on, p_trace = [], p_fault = False\<rparr>"

definition all_handlers :: json_handlers where
  "all_handlers = \<lparr>onError = True, onObjectStart = True, onObjectComplete = True, onArrayStart = True,
     onArrayComplete = True, onString = True, onInteger = True\<rparr>"

lemma chars_size_num: "chars_size = 970" and errbuf_row_num: "errbuf_row = 950"
  by (simp_all add: chars_size_def errbuf_row_def json_sizes)

lemma json_inv_init: "json_inv (json_init on)"
  by (simp add: json_inv_def json_init_def json_sizes)

named_theorems json_pres \<open>operations that keep the parser's bounds\<close>

lemma json_inv_poke [json_pres]: "json_inv p \<Longrightarrow> json_inv (poke i c p)"
  by (simp add: json_inv_def)

lemma json_inv_fault_if [json_pres]: "json_inv p \<Longrightarrow> json_inv (fault_if b p)"
  by (simp add: json_inv_def)

lemma json_inv_row_put [json_pres]: "json_inv p \<Longrightarrow> json_inv (row_put row room k c p)"
  by (simp add: row_put_def json_pres)

lemma json_inv_emit [json_pres]: "json_inv p \<Longrightarrow> json_inv (emit h ev p)"
  by (simp add: json_inv_def)

lemma json_inv_flags [json_pres]:
  "json_inv p \<Longrightarrow> json_inv (p\<lparr>p_state := st\<rparr>)"
  "json_inv p \<Longrightarrow> json_inv (p\<lparr>p_allowComma := b\<rparr>)"
  "json_inv p \<Longrightarrow> json_inv (p\<lparr>p_isSlash := b\<rparr>)"
  "json_inv p \<Longrightarrow> json_inv (p\<lparr>p_numchars := n\<rparr>)"
  by (simp_all add: json_inv_def)

lemma json_inv_reset [json_pres]:
  "length (p_states p) = MAXSTATES \<Longrightarrow> length (p_chars p) = chars_size \<Longrightarrow> json_inv (jsonReset p)"
  by (simp add: json_inv_def json_sizes)

lemma json_inv_error:
  "length (p_states p) = MAXSTATES \<Longrightarrow> length (p_chars p) = chars_size \<Longrightarrow> json_inv (jsonError e p)"
  by (simp add: json_inv_def json_sizes)

lemma json_inv_error' [json_pres]: "json_inv p \<Longrightarrow> json_inv (jsonError e p)"
  by (rule json_inv_error) (simp_all add: json_inv_def)

lemma json_inv_appendName [json_pres]: "json_inv p \<Longrightarrow> json_inv (appendName c p)"
  by (simp add: appendName_def Let_def json_pres)

lemma json_inv_appendValue [json_pres]: "json_inv p \<Longrightarrow> json_inv (appendValue c p)"
  by (simp add: appendValue_def Let_def json_pres)

lemma json_inv_setState [json_pres]: "json_inv p \<Longrightarrow> json_inv (setState st p)"
proof -
  assume inv: "json_inv p"
  then have "length (p_states p) = MAXSTATES" "length (p_chars p) = chars_size"
    by (simp_all add: json_inv_def)
  then have "json_inv (jsonError ERR_INTERNAL (p\<lparr>p_state := st, p_stack := n\<rparr>))" for n
    by (intro json_inv_error) simp_all
  moreover have "n < MAXSTACK \<Longrightarrow> json_inv (poke i c (p\<lparr>p_state := st, p_stack := n\<rparr>))" for n i c
    using inv by (simp add: json_inv_def)
  ultimately show ?thesis
    using inv by (cases st) (simp_all add: setState_def Let_def json_pres)
qed

lemma json_inv_toState [json_pres]: "json_inv p \<Longrightarrow> json_inv (toState st p)"
proof -
  assume inv: "json_inv p"
  define q where "q = (fault_if (MAXSTATES \<le> p_stateIndex p) p)
    \<lparr>p_states := (p_states p)[p_stateIndex p := p_state p], p_stateIndex := Suc (p_stateIndex p)\<rparr>"
  have eq: "toState st p = (if p_stateIndex q < MAXSTATES then setState st q else jsonError ERR_INTERNAL q)"
    by (simp only: toState_def Let_def q_def)
  show ?thesis
  proof (cases "p_stateIndex q < MAXSTATES")
    case True
    then have "json_inv q" using inv by (simp add: q_def json_inv_def)
    then show ?thesis using True by (simp add: eq json_inv_setState)
  next
    case False
    have "length (p_states q) = MAXSTATES" "length (p_chars q) = chars_size"
      using inv by (simp_all add: q_def json_inv_def)
    then show ?thesis using False by (simp add: eq json_inv_error)
  qed
qed

lemma json_inv_upState [json_pres]: "json_inv p \<Longrightarrow> json_inv (upState p)"
proof -
  assume inv: "json_inv p"
  define q where "q = p\<lparr>p_stateIndex := p_stateIndex p - 1, p_state := p_states p ! (p_stateIndex p - 1)\<rparr>"
  have eq: "upState p = (if 0 < p_stateIndex p then
      if p_state q = STATE_INOBJECT \<or> p_state q = STATE_INARRAY then
        if 0 < p_stack q then q\<lparr>p_stack := p_stack q - 1, p_allowComma := True\<rparr>
        else jsonError ERR_INTERNAL q
      else if p_state q = STATE_NONE then poke (name_row (p_stack q)) NUL q else q
    else jsonError ERR_INTERNAL p)"
    by (simp only: upState_def Let_def q_def)
  have q: "json_inv q" using inv by (auto simp: q_def json_inv_def)
  moreover from q have "json_inv (q\<lparr>p_stack := p_stack q - 1, p_allowComma := True\<rparr>)"
    by (auto simp: json_inv_def)
  ultimately show ?thesis using inv by (simp add: eq json_pres)
qed

lemma json_inv_eat_switch: "json_inv p \<Longrightarrow> json_inv (fst (eat_switch c p))"
  by (cases "p_state p") (simp_all add: eat_switch_def json_pres)

lemma json_inv_eatNoLog [json_pres]: "json_inv p \<Longrightarrow> json_inv (jsonEatNoLog c p)"
proof (induction c p rule: jsonEatNoLog.induct)
  case (1 c p)
  obtain q again where q: "eat_switch c p = (q, again)" by (cases "eat_switch c p")
  then have "json_inv q" using json_inv_eat_switch [OF "1.prems", of c] by simp
  then show ?case
    using "1.IH" [OF q [symmetric]] by (simp add: jsonEatNoLog.simps [of c p] q)
qed

lemma json_inv_jsonEat [json_pres]: "json_inv p \<Longrightarrow> json_inv (jsonEat c p)"
  unfolding jsonEat_def Let_def
  by (intro json_inv_eatNoLog) (auto simp: json_inv_def json_sizes)

lemma json_inv_jsonEats [json_pres]: "json_inv p \<Longrightarrow> json_inv (jsonEats s p)"
  by (induction s arbitrary: p) (simp_all add: jsonEats_def json_inv_jsonEat)

section \<open>Nothing is written outside the buffers\<close>

text \<open>The bounds, no write outside them so far, and at most \<open>n\<close> characters counted since the last reset.\<close>

definition json_safe :: "int \<Rightarrow> parser_data \<Rightarrow> bool" where
  "json_safe n p \<longleftrightarrow> json_inv p \<and> \<not> p_fault p \<and> 0 \<le> p_numchars p \<and> p_numchars p \<le> n"

lemma json_safe_init: "json_safe 0 (json_init on)"
  by (simp add: json_safe_def json_inv_init) (simp add: json_init_def)

named_theorems json_safes \<open>operations that write inside the parser's buffers\<close>

lemma name_row_lt: "k < MAXSTACK \<Longrightarrow> i \<le> MAXNAME \<Longrightarrow> name_row k + i < chars_size"
  by (simp add: name_row_def chars_size_num json_sizes)

lemma value_row_lt: "k < MAXSTACK \<Longrightarrow> i \<le> MAXVALUE \<Longrightarrow> value_row k + i < chars_size"
  by (simp add: value_row_def chars_size_num json_sizes)

lemma json_safe_poke: "json_safe n p \<Longrightarrow> i < chars_size \<Longrightarrow> json_safe n (poke i c p)"
  by (simp add: json_safe_def json_inv_def)

lemma json_safe_rows [json_safes]:
  "json_safe n p \<Longrightarrow> p_stack p = k \<Longrightarrow> json_safe n (poke (name_row k) c p)"
  "json_safe n p \<Longrightarrow> p_stack p = k \<Longrightarrow> json_safe n (poke (value_row k) c p)"
  using name_row_lt [of k 0] value_row_lt [of k 0]
  by (auto simp: json_safe_def json_inv_def)

lemma json_safe_emit [json_safes]: "json_safe n p \<Longrightarrow> json_safe n (emit h ev p)"
  by (simp add: json_safe_def json_pres)

lemma json_safe_flags [json_safes]:
  "json_safe n p \<Longrightarrow> json_safe n (p\<lparr>p_state := st\<rparr>)"
  "json_safe n p \<Longrightarrow> json_safe n (p\<lparr>p_allowComma := b\<rparr>)"
  "json_safe n p \<Longrightarrow> json_safe n (p\<lparr>p_isSlash := b\<rparr>)"
  by (simp_all add: json_safe_def json_pres)

lemma json_safe_error:
  assumes "length (p_states p) = MAXSTATES" "length (p_chars p) = chars_size" "\<not> p_fault p" "0 \<le> p_numchars p" "0 \<le> n"
  shows "json_safe n (jsonError e p)"
proof -
  have "json_inv (jsonError e p)" by (rule json_inv_error [OF assms(1,2)])
  moreover have "\<not> p_fault (jsonError e p)"
    using assms(2-4) by (simp add: jsonError_def jsonReset_def name_row_def value_row_def chars_size_num json_sizes)
  ultimately show ?thesis using assms(5) by (simp add: json_safe_def)
qed

lemma json_safe_error' [json_safes]: "json_safe n p \<Longrightarrow> json_safe n (jsonError e p)"
  by (rule json_safe_error) (simp_all add: json_safe_def json_inv_def)

lemma json_safe_appendName [json_safes]: "json_safe n p \<Longrightarrow> json_safe n (appendName c p)"
proof -
  assume safe: "json_safe n p"
  have "p_stack p < MAXSTACK" "length (p_chars p) = chars_size" using safe by (simp_all add: json_safe_def json_inv_def)
  then have "length (cur_name p) < MAXNAME \<Longrightarrow> ?thesis"
    using safe name_row_lt [of "p_stack p" "length (cur_name p)"] name_row_lt [of "p_stack p" "Suc (length (cur_name p))"]
    by (simp add: appendName_def row_put_def Let_def json_safe_def json_pres)
  then show ?thesis using safe by (auto simp: appendName_def Let_def json_safes)
qed

lemma json_safe_appendValue [json_safes]: "json_safe n p \<Longrightarrow> json_safe n (appendValue c p)"
proof -
  assume safe: "json_safe n p"
  have "p_stack p < MAXSTACK" "length (p_chars p) = chars_size" using safe by (simp_all add: json_safe_def json_inv_def)
  then have "length (cur_value p) < MAXVALUE \<Longrightarrow> ?thesis"
    using safe value_row_lt [of "p_stack p" "length (cur_value p)"] value_row_lt [of "p_stack p" "Suc (length (cur_value p))"]
    by (simp add: appendValue_def row_put_def Let_def json_safe_def json_pres)
  then show ?thesis using safe by (auto simp: appendValue_def Let_def json_safes)
qed

lemma json_safe_setState [json_safes]: "json_safe n p \<Longrightarrow> json_safe n (setState st p)"
proof -
  assume safe: "json_safe n p"
  then have "json_safe n (jsonError ERR_INTERNAL (p\<lparr>p_state := st, p_stack := k\<rparr>))" for k
    by (intro json_safe_error) (simp_all add: json_safe_def json_inv_def)
  moreover have "k < MAXSTACK \<Longrightarrow> json_safe n (poke (name_row k) c (p\<lparr>p_state := st, p_stack := k\<rparr>))" for k c
    using safe name_row_lt [of k 0] by (simp add: json_safe_def json_inv_def)
  ultimately show ?thesis
    using safe by (cases st) (simp_all add: setState_def Let_def json_safes)
qed

lemma json_safe_toState [json_safes]: "json_safe n p \<Longrightarrow> json_safe n (toState st p)"
proof -
  assume safe: "json_safe n p"
  define q where "q = (fault_if (MAXSTATES \<le> p_stateIndex p) p)
    \<lparr>p_states := (p_states p)[p_stateIndex p := p_state p], p_stateIndex := Suc (p_stateIndex p)\<rparr>"
  have eq: "toState st p = (if p_stateIndex q < MAXSTATES then setState st q else jsonError ERR_INTERNAL q)"
    by (simp only: toState_def Let_def q_def)
  have q: "length (p_states q) = MAXSTATES" "length (p_chars q) = chars_size" "\<not> p_fault q" "0 \<le> p_numchars q" "0 \<le> n"
    using safe by (simp_all add: q_def json_safe_def json_inv_def)
  have "p_stateIndex q < MAXSTATES \<Longrightarrow> json_safe n q" using safe by (simp add: q_def json_safe_def json_inv_def)
  then show ?thesis using json_safe_error [OF q] by (simp add: eq json_safe_setState)
qed

lemma json_safe_upState [json_safes]: "json_safe n p \<Longrightarrow> json_safe n (upState p)"
proof -
  assume safe: "json_safe n p"
  define q where "q = p\<lparr>p_stateIndex := p_stateIndex p - 1, p_state := p_states p ! (p_stateIndex p - 1)\<rparr>"
  have eq: "upState p = (if 0 < p_stateIndex p then
      if p_state q = STATE_INOBJECT \<or> p_state q = STATE_INARRAY then
        if 0 < p_stack q then q\<lparr>p_stack := p_stack q - 1, p_allowComma := True\<rparr>
        else jsonError ERR_INTERNAL q
      else if p_state q = STATE_NONE then poke (name_row (p_stack q)) NUL q else q
    else jsonError ERR_INTERNAL p)"
    by (simp only: upState_def Let_def q_def)
  have q: "json_safe n q" using safe by (auto simp: q_def json_safe_def json_inv_def)
  moreover from q have "json_safe n (q\<lparr>p_stack := p_stack q - 1, p_allowComma := True\<rparr>)"
    by (auto simp: json_safe_def json_inv_def)
  ultimately show ?thesis using safe by (simp add: eq json_safes)
qed

lemma json_safe_eat_switch: "json_safe n p \<Longrightarrow> json_safe n (fst (eat_switch c p))"
  by (cases "p_state p") (simp_all add: eat_switch_def json_safes)

lemma json_safe_eatNoLog: "json_safe n p \<Longrightarrow> json_safe n (jsonEatNoLog c p)"
proof (induction c p rule: jsonEatNoLog.induct)
  case (1 c p)
  obtain q again where q: "eat_switch c p = (q, again)" by (cases "eat_switch c p")
  then have "json_safe n q" using json_safe_eat_switch [OF "1.prems", of c] by simp
  then show ?case
    using "1.IH" [OF q [symmetric]] by (simp add: jsonEatNoLog.simps [of c p] q)
qed

lemma json_safe_jsonEat: "json_safe n p \<Longrightarrow> n < 2147483647 \<Longrightarrow> json_safe (n + 1) (jsonEat c p)"
  unfolding jsonEat_def Let_def
  by (intro json_safe_eatNoLog)
    (auto simp: json_safe_def json_inv_def json_sizes c_wrap_def chars_size_num errbuf_row_num)

lemma json_safe_jsonEats:
  "json_safe n p \<Longrightarrow> n + int (length s) < 2147483648 \<Longrightarrow> json_safe (n + int (length s)) (jsonEats s p)"
proof (induction s arbitrary: n p)
  case (Cons c s)
  then show ?case using Cons.IH [of "n + 1" "jsonEat c p"] json_safe_jsonEat [of n p c] by (simp add: jsonEats_def add.assoc)
qed (simp add: jsonEats_def)

section \<open>Parser selection\<close>

text \<open>The two parser instances and the selected one.\<close>

record json_system =
  parserData :: "parser_data list"
  selected :: nat

definition jsonGetSelected :: "json_system \<Rightarrow> nat" where
  "jsonGetSelected s =
     (case first_idx (\<lambda>i. selected s = i) [0..<MAXPARSERS] of Some i \<Rightarrow> i | None \<Rightarrow> 0)"

definition jsonSelectNext :: "json_system \<Rightarrow> json_system" where
  "jsonSelectNext s =
     (let p = jsonGetSelected s in if p < MAXPARSERS - 1 then s\<lparr>selected := p + 1\<rparr> else s)"

definition jsonSelectPrev :: "json_system \<Rightarrow> json_system" where
  "jsonSelectPrev s =
     (let p = jsonGetSelected s in if 0 < p then s\<lparr>selected := p - 1\<rparr> else s)"

definition with_selected :: "(parser_data \<Rightarrow> parser_data) \<Rightarrow> json_system \<Rightarrow> json_system" where
  "with_selected f s =
     s\<lparr>parserData := (parserData s)[selected s := f (parserData s ! selected s)]\<rparr>"

definition json_system_inv :: "json_system \<Rightarrow> bool" where
  "json_system_inv s \<longleftrightarrow> length (parserData s) = MAXPARSERS \<and> selected s < MAXPARSERS
     \<and> (\<forall>p\<in>set (parserData s). json_inv p)"

lemma jsonGetSelected_eq: "selected s < MAXPARSERS \<Longrightarrow> jsonGetSelected s = selected s"
proof -
  assume "selected s < MAXPARSERS"
  then have "first_idx (\<lambda>i. selected s = i) [0..<MAXPARSERS] = Some (selected s)"
    by (auto simp: first_idx_Some_iff)
  then show ?thesis by (simp add: jsonGetSelected_def)
qed

lemma json_system_inv_select:
  "json_system_inv s \<Longrightarrow> json_system_inv (jsonSelectNext s)"
  "json_system_inv s \<Longrightarrow> json_system_inv (jsonSelectPrev s)"
  by (auto simp: json_system_inv_def jsonSelectNext_def jsonSelectPrev_def jsonGetSelected_eq Let_def)

lemma json_system_inv_eat:
  "json_system_inv s \<Longrightarrow> json_system_inv (with_selected (jsonEat c) s)"
  by (auto simp: json_system_inv_def with_selected_def json_inv_jsonEat
      dest!: set_update_subset_insert [THEN subsetD])

section \<open>Properties\<close>

text \<open>
  C28: The parser writes inside its own buffers on every input of fewer than \<open>2^31\<close> characters:
  from the initial state, after any such bytes, it has not written outside its character
  arrays, not written more than the one terminator behind a name or value row (the terminator
  of a row filled to the last character is the first byte of what follows it in the
  structure), not pushed beyond its state stack and not terminated an error text outside its
  buffer; and the state stack, the name stack and the error ring are indexed inside
  their declared sizes.
\<close>

theorem json_parser_bounds:
  assumes "length s < 2147483648"
  shows "let p = jsonEats s (json_init on) in
     \<not> p_fault p
   \<and> p_stateIndex p < length (p_states p)
   \<and> p_stack p < MAXSTACK
   \<and> p_errbufIndex p < MAXERRORBUFFER
   \<and> name_row (p_stack p) + MAXNAME < chars_size
   \<and> value_row (p_stack p) + MAXVALUE < chars_size
   \<and> errbuf_row + p_errbufIndex p < length (p_chars p)"
proof -
  have "json_safe (int (length s)) (jsonEats s (json_init on))"
    using json_safe_jsonEats [OF json_safe_init, of s on] assms by simp
  then show ?thesis
    by (simp add: Let_def json_safe_def json_inv_def name_row_def value_row_def chars_size_num errbuf_row_num json_sizes)
qed

theorem json_parser_bounds_witness:
  "\<not> p_fault (jsonEats (''{'' @ [CHR 0x22] @ replicate 40 (CHR ''a'')) (json_init all_handlers))"
  using json_parser_bounds [of "''{'' @ [CHR 0x22] @ replicate 40 (CHR ''a'')" all_handlers] by (simp add: Let_def)

text \<open>
  A name of the maximal length overruns its row by exactly the terminator: when the
  current name has \<open>MAXNAME - 1\<close> characters, accepting one more stores the terminator in
  the first byte of the next name row, which thereby becomes the empty string; shorter names
  leave the next row alone.
\<close>

theorem appendName_row_overrun:
  assumes "json_inv p" and "length (cur_name p) < MAXNAME" and "c \<noteq> NUL"
  shows "cur_name (appendName c p) = cur_name p @ [c]
       \<and> p_chars (appendName c p) ! name_row (Suc (p_stack p))
         = (if length (cur_name p) = MAXNAME - 1 then NUL else p_chars p ! name_row (Suc (p_stack p)))"
proof -
  let ?row = "name_row (p_stack p)" and ?n = "length (cur_name p)"
  have size: "Suc (?row + ?n) < length (p_chars p)" "?n < 30" "length (p_chars p) = 970"
    using assms(1,2) by (auto simp: json_inv_def name_row_def chars_size_num json_sizes)
  have chars: "p_chars (appendName c p) = (p_chars p)[?row + ?n := c, Suc (?row + ?n) := NUL]"
    using assms(2) by (simp add: appendName_def row_put_def Let_def)
  have stack: "p_stack (appendName c p) = p_stack p"
    using assms(2) by (simp add: appendName_def row_put_def Let_def)
  have "cur_name (appendName c p) = cur_name p @ [c]"
    using cstr_at_append [of "p_chars p" ?row ?n c] size(1) assms(3)
    by (simp add: cur_name_def [of "appendName c p"] stack chars) (simp add: cur_name_def)
  moreover have "name_row (Suc (p_stack p)) = ?row + 30" by (simp add: name_row_def json_sizes)
  moreover have "?row + 30 < 970"
    using assms(1) by (simp add: json_inv_def name_row_def json_sizes)
  ultimately show ?thesis
    using size by (auto simp: chars nth_list_update json_sizes)
qed

theorem appendName_row_overrun_witness:
  "cur_name (appendName (CHR ''a'') (json_init all_handlers)) = ''a''"
  using appendName_row_overrun [of "json_init all_handlers" "CHR ''a''"] json_inv_init
  by (simp add: cur_name_def json_init_def cstr_at_def name_row_def chars_size_num json_sizes)

end
