(* ===== verification/JsonObject.thy ===== *)
theory JsonObject
  imports JsonInvariant
begin

text \<open>
  What the parser reports for a flat JSON object, the shape of every message between the
  gateway's processes: the object start, one callback per member in order, the object end.
  The state stack has room for eight members; the ninth is an internal error.
\<close>

section \<open>The grammar of flat objects\<close>

datatype json_value = VInt c_int | VStr string

definition plain_char :: "char \<Rightarrow> bool" where
  "plain_char c \<longleftrightarrow> c \<noteq> CHR 0x22 \<and> c \<noteq> CHR 0x5C \<and> c \<noteq> NUL"

definition ok_name :: "string \<Rightarrow> bool" where
  "ok_name s \<longleftrightarrow> length s \<le> MAXNAME \<and> list_all isValidNameChar s"

fun ok_value :: "json_value \<Rightarrow> bool" where
  "ok_value (VInt n) \<longleftrightarrow> INT_MIN \<le> n \<and> n \<le> INT_MAX"
| "ok_value (VStr s) \<longleftrightarrow> length s \<le> MAXVALUE \<and> list_all plain_char s"

fun show_value :: "json_value \<Rightarrow> string" where
  "show_value (VInt n) = c_itoa n"
| "show_value (VStr s) = [CHR 0x22] @ s @ [CHR 0x22]"

definition show_member :: "string \<times> json_value \<Rightarrow> string" where
  "show_member m = (case m of (n, v) \<Rightarrow> [CHR 0x22] @ n @ [CHR 0x22, CHR '':''] @ show_value v)"

text \<open>\<open>sp\<close> is the white space a writer puts behind each comma.\<close>

fun show_members :: "string \<Rightarrow> (string \<times> json_value) list \<Rightarrow> string" where
  "show_members sp [] = []"
| "show_members sp [m] = show_member m"
| "show_members sp (m # ms) = show_member m @ [CHR '',''] @ sp @ show_members sp ms"

definition show_object :: "(string \<times> json_value) list \<Rightarrow> string" where
  "show_object ms = [CHR ''{''] @ show_members [] ms @ [CHR ''}'']"

fun member_event :: "string \<times> json_value \<Rightarrow> json_event" where
  "member_event (n, VInt i) = EvInteger n i"
| "member_event (n, VStr s) = EvString n s"

section \<open>Where the parser is inside a flat object\<close>

text \<open>
  \<open>in_obj nm st i T p\<close>: in state \<open>st\<close>, behind \<open>i\<close> commas of a top-level object called
  \<open>nm\<close>, with the callbacks \<open>T\<close> made so far.
\<close>

definition in_obj :: "string \<Rightarrow> json_state \<Rightarrow> nat \<Rightarrow> json_event list \<Rightarrow> parser_data \<Rightarrow> bool" where
  "in_obj nm st i T p \<longleftrightarrow> json_inv p \<and> p_on p = all_handlers \<and> p_state p = st \<and> i \<le> 7
     \<and> p_stateIndex p = 2 + i
     \<and> p_states p ! 0 = STATE_NONE \<and> p_states p ! 1 = STATE_INOBJECT
     \<and> (\<forall>j. 2 \<le> j \<and> j < 2 + i \<longrightarrow> p_states p ! j = STATE_OUTVALUE)
     \<and> p_stack p = 1 \<and> length nm < 30 \<and> cstr_at (p_chars p) 0 = nm \<and> p_trace p = T"

text \<open>At the top level, between messages.\<close>

definition at_top :: "json_event list \<Rightarrow> parser_data \<Rightarrow> bool" where
  "at_top T p \<longleftrightarrow> json_inv p \<and> p_on p = all_handlers \<and> p_state p = STATE_NONE \<and> p_stateIndex p = 0
     \<and> p_stack p = 0 \<and> p_chars p ! 0 = NUL \<and> p_trace p = T"

lemma in_obj_stack: "in_obj nm st i T p \<Longrightarrow> p_stack p = 1"
  by (simp add: in_obj_def)

lemma in_obj_chars: "in_obj nm st i T p \<Longrightarrow> length (p_chars p) = 970"
  by (simp add: in_obj_def json_inv_def chars_size_num)

lemma cur_name_1: "in_obj nm st i T p \<Longrightarrow> cur_name p = cstr_at (p_chars p) 30"
  by (simp add: cur_name_def in_obj_def name_row_def json_sizes)

lemma cur_value_1: "in_obj nm st i T p \<Longrightarrow> cur_value p = cstr_at (p_chars p) 310"
  by (simp add: cur_value_def in_obj_def value_row_def json_sizes)

lemma in_obj_state: "in_obj nm st i T p \<Longrightarrow> in_obj nm st' i T (p\<lparr>p_state := st'\<rparr>)"
  by (simp add: in_obj_def json_pres)

lemma in_obj_poke: "in_obj nm st i T p \<Longrightarrow> 30 \<le> j \<Longrightarrow> in_obj nm st i T (poke j c p)"
  using cstr_at_update_other [of j 0 "p_chars p" c] by (auto simp: in_obj_def json_pres)

lemma in_obj_slash: "in_obj nm st i T p \<Longrightarrow> in_obj nm st i T (p\<lparr>p_isSlash := b\<rparr>)"
  by (simp add: in_obj_def json_pres)

lemma in_obj_emit:
  "in_obj nm st i T p \<Longrightarrow> h all_handlers \<Longrightarrow> in_obj nm st i (T @ [ev]) (emit h ev p)"
  by (simp add: in_obj_def json_pres) (simp add: emit_def json_inv_def)

text \<open>
  The bookkeeping of \<open>jsonEat\<close> before the switch: the character count and the error ring
  lie outside the strings, so a step may be proved for \<open>jsonEatNoLog\<close>.
\<close>

definition logged :: "char \<Rightarrow> parser_data \<Rightarrow> parser_data" where
  "logged c p0 =
     (let p = p0\<lparr>p_numchars := c_wrap (p_numchars p0 + 1)\<rparr>; i = p_errbufIndex p
      in if \<not> isWhiteSpace c then
           (poke (errbuf_row + i) c p)\<lparr>p_errbufIndex := (if MAXERRORBUFFER \<le> Suc i then 0 else Suc i)\<rparr>
         else p)"

lemma jsonEat_logged: "jsonEat c p = jsonEatNoLog c (logged c p)"
  by (simp add: jsonEat_def logged_def Let_def)

lemma json_inv_logged: "json_inv p \<Longrightarrow> json_inv (logged c p)"
  by (auto simp: logged_def json_inv_def json_sizes Let_def)

lemma logged_sel [simp]:
  "p_state (logged c p) = p_state p" "p_states (logged c p) = p_states p"
  "p_stateIndex (logged c p) = p_stateIndex p" "p_stack (logged c p) = p_stack p"
  "p_allowComma (logged c p) = p_allowComma p" "p_isSlash (logged c p) = p_isSlash p"
  "p_on (logged c p) = p_on p" "p_trace (logged c p) = p_trace p"
  by (simp_all add: logged_def Let_def)

lemma cstr_at_logged:
  "off + length (cstr_at (p_chars p) off) < 950 \<Longrightarrow>
   cstr_at (p_chars (logged c p)) off = cstr_at (p_chars p) off"
  by (simp add: logged_def Let_def errbuf_row_num cstr_at_update_other)

lemma in_obj_logged: "in_obj nm st i T p \<Longrightarrow> in_obj nm st i T (logged c p)"
  using cstr_at_logged [of 0 p c] by (auto simp: in_obj_def json_inv_logged)

lemma cur_name_logged:
  "in_obj nm st i T p \<Longrightarrow> length (cur_name p) \<le> 30 \<Longrightarrow> cur_name (logged c p) = cur_name p"
  using cstr_at_logged [of 30 p c] in_obj_logged [of nm st i T p c] by (simp add: cur_name_1)

lemma cur_value_logged:
  "in_obj nm st i T p \<Longrightarrow> length (cur_value p) \<le> 160 \<Longrightarrow> cur_value (logged c p) = cur_value p"
  using cstr_at_logged [of 310 p c] in_obj_logged [of nm st i T p c] by (simp add: cur_value_1)

section \<open>Character steps of \<open>jsonEatNoLog\<close>\<close>

lemma eat_once: "eat_switch c p = (q, False) \<Longrightarrow> jsonEatNoLog c p = q"
  by (subst jsonEatNoLog.simps) simp

lemma eat_again: "eat_switch c p = (q, True) \<Longrightarrow> jsonEatNoLog c p = jsonEatNoLog c q"
  by (subst jsonEatNoLog.simps) simp

lemma setState_INNAME: "in_obj nm st i T p \<Longrightarrow>
   in_obj nm STATE_INNAME i T (setState STATE_INNAME p) \<and> cur_name (setState STATE_INNAME p) = []"
proof -
  assume obj: "in_obj nm st i T p"
  have "in_obj nm STATE_INNAME i T (poke 30 NUL (p\<lparr>p_state := STATE_INNAME\<rparr>))"
    by (intro in_obj_poke in_obj_state [OF obj]) simp
  moreover have "setState STATE_INNAME p = poke 30 NUL (p\<lparr>p_state := STATE_INNAME\<rparr>)"
    using obj by (simp add: setState_def in_obj_def name_row_def json_sizes)
  moreover have "cstr_at ((p_chars p)[30 := NUL]) 30 = []"
    using in_obj_chars [OF obj] by (simp add: cstr_at_terminate)
  ultimately show ?thesis by (simp add: cur_name_1)
qed

lemma setState_TOVALUE: "in_obj nm st i T p \<Longrightarrow> length (cur_name p) \<le> 30 \<Longrightarrow>
   in_obj nm STATE_TOVALUE i T (setState STATE_TOVALUE p)
   \<and> cur_name (setState STATE_TOVALUE p) = cur_name p \<and> cur_value (setState STATE_TOVALUE p) = []"
proof -
  assume obj: "in_obj nm st i T p" and len: "length (cur_name p) \<le> 30"
  have new: "in_obj nm STATE_TOVALUE i T (poke 310 NUL (p\<lparr>p_state := STATE_TOVALUE\<rparr>))"
    by (intro in_obj_poke in_obj_state [OF obj]) simp
  moreover have "setState STATE_TOVALUE p = poke 310 NUL (p\<lparr>p_state := STATE_TOVALUE\<rparr>)"
    using obj by (simp add: setState_def in_obj_def value_row_def json_sizes)
  moreover have "cstr_at ((p_chars p)[310 := NUL]) 310 = []"
    using in_obj_chars [OF obj] by (simp add: cstr_at_terminate)
  moreover have "cstr_at ((p_chars p)[310 := NUL]) 30 = cstr_at (p_chars p) 30"
    using len by (simp add: cstr_at_update_other cur_name_1 [OF obj])
  ultimately show ?thesis using obj by (simp add: cur_name_1 cur_value_1)
qed

lemma appendName_step:
  assumes obj: "in_obj nm st i T p" and len: "length (cur_name p) < 30" and c: "c \<noteq> NUL"
  shows "in_obj nm st i T (appendName c p) \<and> cur_name (appendName c p) = cur_name p @ [c]"
proof -
  let ?n = "length (cur_name p)"
  have eq: "appendName c p = poke (Suc (30 + ?n)) NUL (poke (30 + ?n) c p)"
    using obj len by (simp add: appendName_def Let_def in_obj_def name_row_def json_sizes)
  have new: "in_obj nm st i T (appendName c p)"
    unfolding eq by (intro in_obj_poke obj) simp_all
  moreover have "cstr_at ((p_chars p)[30 + ?n := c, Suc (30 + ?n) := NUL]) 30 = cstr_at (p_chars p) 30 @ [c]"
    by (rule cstr_at_append) (use len in_obj_chars [OF obj] c cur_name_1 [OF obj] in simp_all)
  ultimately show ?thesis
    by (simp add: cur_name_1 [OF new] cur_name_1 [OF obj]) (simp add: eq cur_name_1 [OF obj])
qed

lemma appendValue_step:
  assumes obj: "in_obj nm st i T p" and len: "length (cur_value p) < 160" and c: "c \<noteq> NUL"
    and name: "length (cur_name p) \<le> 30"
  shows "in_obj nm st i T (appendValue c p) \<and> cur_value (appendValue c p) = cur_value p @ [c]
       \<and> cur_name (appendValue c p) = cur_name p"
proof -
  let ?n = "length (cur_value p)"
  have eq: "appendValue c p = poke (Suc (310 + ?n)) NUL (poke (310 + ?n) c p)"
    using obj len by (simp add: appendValue_def Let_def in_obj_def value_row_def json_sizes)
  have new: "in_obj nm st i T (appendValue c p)"
    unfolding eq by (intro in_obj_poke obj) simp_all
  moreover have "cstr_at ((p_chars p)[310 + ?n := c, Suc (310 + ?n) := NUL]) 310
      = cstr_at (p_chars p) 310 @ [c]"
    by (rule cstr_at_append) (use len in_obj_chars [OF obj] c cur_value_1 [OF obj] in simp_all)
  moreover have "cstr_at ((p_chars p)[310 + ?n := c, Suc (310 + ?n) := NUL]) 30 = cstr_at (p_chars p) 30"
    using name by (simp add: cstr_at_update_other cur_name_1 [OF obj])
  ultimately show ?thesis
    by (simp add: cur_name_1 [OF new] cur_name_1 [OF obj] cur_value_1 [OF new])
       (simp add: eq cur_value_1 [OF obj])
qed

section \<open>Steps of \<open>jsonEat\<close>\<close>

definition at_name :: "string \<Rightarrow> json_state \<Rightarrow> nat \<Rightarrow> json_event list \<Rightarrow> string \<Rightarrow> parser_data \<Rightarrow> bool" where
  "at_name nm st i T n p \<longleftrightarrow> in_obj nm st i T p \<and> cur_name p = n \<and> length n \<le> 30"

definition at_value :: "string \<Rightarrow> json_state \<Rightarrow> nat \<Rightarrow> json_event list \<Rightarrow> string \<Rightarrow> string \<Rightarrow> parser_data \<Rightarrow> bool" where
  "at_value nm st i T n v p \<longleftrightarrow> at_name nm st i T n p \<and> cur_value p = v \<and> length v \<le> 160"

lemma at_name_logged: "at_name nm st i T n p \<Longrightarrow> at_name nm st i T n (logged c p)"
  by (auto simp: at_name_def in_obj_logged cur_name_logged)

lemma at_value_logged: "at_value nm st i T n v p \<Longrightarrow> at_value nm st i T n v (logged c p)"
  by (auto simp: at_value_def at_name_def in_obj_logged cur_name_logged cur_value_logged)

lemma in_obj_pstate: "in_obj nm st i T p \<Longrightarrow> p_state p = st"
  by (simp add: in_obj_def)

lemmas at_defs = at_value_def at_name_def

lemma at_name_pstate: "at_name nm st i T n p \<Longrightarrow> p_state p = st"
  by (simp add: at_name_def in_obj_def)

lemma at_value_pstate': "at_value nm st i T n v p \<Longrightarrow> p_state p = st"
  by (auto simp: at_value_def dest: at_name_pstate)

lemma json_codes [simp]:
  "code CHR 0x00 = 0" "code CHR 0x22 = 34" "code CHR 0x5C = 92" "code (CHR ''{'') = 123"
  "code (CHR ''}'') = 125" "code (CHR ''['') = 91" "code (CHR '']'') = 93" "code (CHR '','') = 44"
  "code (CHR '':'') = 58" "code (CHR '' '') = 32" "code CHR 0x0D = 13" "code CHR 0x0A = 10"
  "code CHR 0x09 = 9"
  by (simp_all add: code_def)

lemma in_obj_setState_plain:
  assumes "in_obj nm st i T p"
    and "st' \<notin> {STATE_INNAME, STATE_TOVALUE, STATE_INOBJECT, STATE_INARRAY}"
  shows "setState st' p = p\<lparr>p_state := st'\<rparr>"
  using assms(2) by (cases st') (simp_all add: setState_def)

lemma cur_name_pstate [simp]:
  "cur_name (p\<lparr>p_state := st\<rparr>) = cur_name p" "cur_value (p\<lparr>p_state := st\<rparr>) = cur_value p"
  "cur_name (p\<lparr>p_isSlash := b\<rparr>) = cur_name p" "cur_value (p\<lparr>p_isSlash := b\<rparr>) = cur_value p"
  "cur_name (emit h ev p) = cur_name p" "cur_value (emit h ev p) = cur_value p"
  by (simp_all add: cur_name_def cur_value_def)

lemma at_value_pstate:
  "at_value nm st i T n v p \<Longrightarrow> at_value nm st' i T n v (p\<lparr>p_state := st'\<rparr>)"
  by (auto simp: at_defs in_obj_state)

text \<open>Opening quote of a member name.\<close>

lemma eat_name_open:
  assumes "in_obj nm STATE_TONAME i T p"
  shows "at_name nm STATE_INNAME i T [] (jsonEat (CHR 0x22) p)"
proof -
  have obj: "in_obj nm STATE_TONAME i T (logged (CHR 0x22) p)" using assms by (rule in_obj_logged)
  have "jsonEatNoLog (CHR 0x22) (logged (CHR 0x22) p) = setState STATE_INNAME (logged (CHR 0x22) p)"
    using in_obj_pstate [OF assms] by (intro eat_once) (simp add: eat_switch_def)
  then show ?thesis using setState_INNAME [OF obj] by (simp add: at_name_def jsonEat_logged)
qed

lemma valid_name_char: "isValidNameChar c \<Longrightarrow> c \<noteq> CHR 0x22 \<and> c \<noteq> NUL"
  by (auto simp: isValidNameChar_def isAlpha_def isNum_def char_le_code)

lemma eat_name_char:
  assumes "at_name nm STATE_INNAME i T n p" and "isValidNameChar c" and "length n < 30"
  shows "at_name nm STATE_INNAME i T (n @ [c]) (jsonEat c p)"
proof -
  have at: "at_name nm STATE_INNAME i T n (logged c p)" using assms(1) by (rule at_name_logged)
  have "jsonEatNoLog c (logged c p) = appendName c (logged c p)"
    using at_name_pstate [OF assms(1)] assms(2) valid_name_char [OF assms(2)]
    by (intro eat_once) (simp add: eat_switch_def)
  then show ?thesis
    using appendName_step [of nm STATE_INNAME i T "logged c p" c] at assms(3) valid_name_char [OF assms(2)]
    by (simp add: at_name_def jsonEat_logged)
qed

lemma jsonEats_simps [simp]:
  "jsonEats [] p = p" "jsonEats (c # s) p = jsonEats s (jsonEat c p)"
  "jsonEats (s @ t) p = jsonEats t (jsonEats s p)"
  by (simp_all add: jsonEats_def)

lemma eat_name_chars:
  "at_name nm STATE_INNAME i T n p \<Longrightarrow> list_all isValidNameChar s \<Longrightarrow> length n + length s \<le> 30 \<Longrightarrow>
   at_name nm STATE_INNAME i T (n @ s) (jsonEats s p)"
proof (induction s arbitrary: n p)
  case (Cons c s)
  from Cons.IH [OF eat_name_char [OF Cons.prems(1), of c]] Cons.prems show ?case by simp
qed simp

lemma eat_name_close:
  assumes "at_name nm STATE_INNAME i T n p"
  shows "at_name nm STATE_TOCOLUMN i T n (jsonEat (CHR 0x22) p)"
proof -
  have at: "at_name nm STATE_INNAME i T n (logged (CHR 0x22) p)" using assms by (rule at_name_logged)
  have "jsonEatNoLog (CHR 0x22) (logged (CHR 0x22) p) = setState STATE_TOCOLUMN (logged (CHR 0x22) p)"
    using at_name_pstate [OF assms] by (intro eat_once) (simp add: eat_switch_def)
  with at show ?thesis
    using in_obj_setState_plain [of nm _ i T "logged (CHR 0x22) p" STATE_TOCOLUMN]
    by (auto simp: at_name_def jsonEat_logged in_obj_state)
qed

lemma eat_colon:
  assumes "at_name nm STATE_TOCOLUMN i T n p"
  shows "at_value nm STATE_TOVALUE i T n [] (jsonEat (CHR '':'') p)"
proof -
  have at: "at_name nm STATE_TOCOLUMN i T n (logged (CHR '':'') p)" using assms by (rule at_name_logged)
  have "jsonEatNoLog (CHR '':'') (logged (CHR '':'') p) = setState STATE_TOVALUE (logged (CHR '':'') p)"
    using at_name_pstate [OF assms] by (intro eat_once) (simp add: eat_switch_def)
  with at show ?thesis
    using setState_TOVALUE [of nm _ i T "logged (CHR '':'') p"] by (auto simp: at_defs jsonEat_logged)
qed

text \<open>String values.\<close>

definition in_string :: "string \<Rightarrow> nat \<Rightarrow> json_event list \<Rightarrow> string \<Rightarrow> string \<Rightarrow> parser_data \<Rightarrow> bool" where
  "in_string nm i T n v p \<longleftrightarrow> at_value nm STATE_INSTRING i T n v p \<and> \<not> p_isSlash p"

lemma eat_string_open:
  assumes "at_value nm STATE_TOVALUE i T n [] p"
  shows "in_string nm i T n [] (jsonEat (CHR 0x22) p)"
proof -
  let ?p = "logged (CHR 0x22) p"
  have at: "at_value nm STATE_TOVALUE i T n [] ?p" using assms by (rule at_value_logged)
  have "jsonEatNoLog (CHR 0x22) ?p = ?p\<lparr>p_isSlash := False, p_state := STATE_INSTRING\<rparr>"
    using at_value_pstate' [OF assms] by (intro eat_once) (simp add: eat_switch_def setState_def)
  moreover have "in_obj nm STATE_INSTRING i T (?p\<lparr>p_isSlash := False, p_state := STATE_INSTRING\<rparr>)"
    using at by (intro in_obj_state [of nm STATE_TOVALUE] in_obj_slash) (simp add: at_defs)
  ultimately show ?thesis
    using at by (simp add: in_string_def at_defs jsonEat_logged)
qed

lemma eat_string_char:
  assumes "in_string nm i T n v p" and "plain_char c" and "length v < 160"
  shows "in_string nm i T n (v @ [c]) (jsonEat c p)"
proof -
  let ?p = "logged c p"
  have at: "at_value nm STATE_INSTRING i T n v ?p" and slash: "\<not> p_isSlash ?p"
    using assms(1) by (auto simp: in_string_def at_value_logged)
  have "jsonEatNoLog c ?p = appendValue c ?p"
    using assms(2) at_value_pstate' [OF at] slash
    by (intro eat_once) (simp add: eat_switch_def plain_char_def)
  moreover have "p_isSlash (appendValue c ?p) = p_isSlash ?p"
    using at assms(3) by (simp add: appendValue_def at_defs json_sizes Let_def)
  ultimately show ?thesis
    using appendValue_step [of nm STATE_INSTRING i T ?p c] at slash assms(2,3)
    by (auto simp: in_string_def at_defs jsonEat_logged plain_char_def)
qed

lemma eat_string_chars:
  "in_string nm i T n v p \<Longrightarrow> list_all plain_char s \<Longrightarrow> length v + length s \<le> 160 \<Longrightarrow>
   in_string nm i T n (v @ s) (jsonEats s p)"
proof (induction s arbitrary: v p)
  case (Cons c s)
  from Cons.IH [OF eat_string_char [OF Cons.prems(1), of c]] Cons.prems show ?case by simp
qed simp

lemma eat_string_close:
  assumes "in_string nm i T n v p"
  shows "in_obj nm STATE_OUTVALUE i (T @ [EvString n v]) (jsonEat (CHR 0x22) p)"
proof -
  let ?p = "logged (CHR 0x22) p"
  have at: "at_value nm STATE_INSTRING i T n v ?p" and slash: "\<not> p_isSlash ?p"
    using assms by (auto simp: in_string_def at_value_logged)
  have "cur_name ?p = n" "cur_value ?p = v" using at by (simp_all add: at_defs)
  then have "jsonEatNoLog (CHR 0x22) ?p = (emit onString (EvString n v) ?p)\<lparr>p_state := STATE_OUTVALUE\<rparr>"
    using at_value_pstate' [OF at] slash by (intro eat_once) (simp add: eat_switch_def setState_def)
  with at show ?thesis
    using in_obj_emit [of nm STATE_INSTRING i T ?p onString "EvString n v"]
    by (simp add: at_defs jsonEat_logged all_handlers_def in_obj_state)
qed

text \<open>Integer values.\<close>

lemma isNum_isdigit: "isNum c \<longleftrightarrow> c_isdigit c"
  by (simp add: isNum_def c_isdigit_def char_le_code)

lemma num_char: "isNum c \<or> isSign c \<Longrightarrow> c \<noteq> CHR 0x22 \<and> c \<noteq> NUL"
  by (auto simp: isNum_def isSign_def char_le_code)

lemma eat_number_open:
  assumes "at_value nm STATE_TOVALUE i T n [] p" and "isNum c \<or> isSign c"
  shows "at_value nm STATE_INNUM i T n [c] (jsonEat c p)"
proof -
  let ?p = "logged c p"
  have at: "at_value nm STATE_TOVALUE i T n [] ?p" using assms(1) by (rule at_value_logged)
  have "jsonEatNoLog c ?p = (appendValue c ?p)\<lparr>p_state := STATE_INNUM\<rparr>"
    using assms(2) num_char [OF assms(2)] at_value_pstate' [OF at]
    by (intro eat_once) (auto simp: eat_switch_def setState_def)
  then show ?thesis
    using appendValue_step [of nm STATE_TOVALUE i T ?p c] at num_char [OF assms(2)]
    by (auto simp: at_defs jsonEat_logged in_obj_state)
qed

lemma eat_number_char:
  assumes "at_value nm STATE_INNUM i T n v p" and "isNum c" and "length v < 160"
  shows "at_value nm STATE_INNUM i T n (v @ [c]) (jsonEat c p)"
proof -
  let ?p = "logged c p"
  have at: "at_value nm STATE_INNUM i T n v ?p" using assms(1) by (rule at_value_logged)
  have "jsonEatNoLog c ?p = appendValue c ?p"
    using assms(2) at_value_pstate' [OF at] by (intro eat_once) (simp add: eat_switch_def)
  then show ?thesis
    using appendValue_step [of nm STATE_INNUM i T ?p c] at num_char [of c] assms(2,3)
    by (auto simp: at_defs jsonEat_logged)
qed

lemma eat_number_chars:
  "at_value nm STATE_INNUM i T n v p \<Longrightarrow> list_all isNum s \<Longrightarrow> length v + length s \<le> 160 \<Longrightarrow>
   at_value nm STATE_INNUM i T n (v @ s) (jsonEats s p)"
proof (induction s arbitrary: v p)
  case (Cons c s)
  from Cons.IH [OF eat_number_char [OF Cons.prems(1), of c]] Cons.prems show ?case by simp
qed simp

lemma eat_number_close:
  assumes "at_value nm STATE_INNUM i T n v p" and "\<not> isNum c"
  shows "\<exists>q. in_obj nm STATE_OUTVALUE i (T @ [EvInteger n (Atoi (Some v))]) q \<and> jsonEat c p = jsonEatNoLog c q"
proof -
  let ?p = "logged c p" and ?ev = "EvInteger n (Atoi (Some v))"
  let ?q = "(emit onInteger ?ev (logged c p))\<lparr>p_state := STATE_OUTVALUE\<rparr>"
  have at: "at_value nm STATE_INNUM i T n v ?p" using assms(1) by (rule at_value_logged)
  have "cur_name ?p = n" "cur_value ?p = v" using at by (simp_all add: at_defs)
  then have "jsonEatNoLog c ?p = jsonEatNoLog c ?q"
    using assms(2) at_value_pstate' [OF at] by (intro eat_again) (simp add: eat_switch_def setState_def)
  moreover have "in_obj nm STATE_OUTVALUE i (T @ [?ev]) ?q"
    using at in_obj_emit [of nm STATE_INNUM i T ?p onInteger ?ev]
    by (simp add: at_defs all_handlers_def in_obj_state)
  ultimately show ?thesis by (auto simp: jsonEat_logged)
qed

section \<open>Between the members and at the end\<close>

lemma eat_comma:
  assumes "in_obj nm STATE_OUTVALUE i T p" and "i < 7"
  shows "in_obj nm STATE_TONAME (Suc i) T (jsonEatNoLog (CHR '','') p)"
proof -
  have st: "p_state p = STATE_OUTVALUE" "p_stateIndex p = 2 + i" using assms(1) by (simp_all add: in_obj_def)
  let ?q = "p\<lparr>p_states := (p_states p)[2 + i := STATE_OUTVALUE], p_stateIndex := Suc (2 + i),
              p_state := STATE_TONAME\<rparr>"
  have "toState STATE_TONAME p = ?q"
    using st assms(2) by (simp add: toState_def setState_def json_sizes)
  then have "jsonEatNoLog (CHR '','') p = ?q"
    using st by (intro eat_once) (simp add: eat_switch_def isWhiteSpace_def)
  moreover have "in_obj nm STATE_TONAME (Suc i) T ?q"
    using assms by (auto simp: in_obj_def json_inv_def json_sizes nth_list_update)
  ultimately show ?thesis by simp
qed

lemma at_top_error:
  assumes "json_inv p" and "p_on p = all_handlers" and "p_trace p = T"
  shows "\<exists>txt. at_top (T @ [EvError e (json_errors e) txt]) (jsonError e p)"
proof -
  have "length (p_chars p) = 970" using assms(1) by (simp add: json_inv_def chars_size_num)
  then show ?thesis
    using assms json_inv_error' [OF assms(1), of e]
    by (auto simp: at_top_def) (auto simp: jsonError_def jsonReset_def emit_def all_handlers_def
        nth_list_update name_row_def value_row_def json_sizes)
qed

lemma eat_comma_overflow:
  assumes "in_obj nm STATE_OUTVALUE 7 T p"
  shows "\<exists>txt. at_top (T @ [EvError ERR_INTERNAL (json_errors ERR_INTERNAL) txt]) (jsonEatNoLog (CHR '','') p)"
proof -
  have st: "p_state p = STATE_OUTVALUE" "p_stateIndex p = 9" using assms by (simp_all add: in_obj_def)
  let ?q = "p\<lparr>p_states := (p_states p)[9 := STATE_OUTVALUE], p_stateIndex := Suc 9\<rparr>"
  have "toState STATE_TONAME p = jsonError ERR_INTERNAL ?q"
    using st by (simp add: toState_def json_sizes)
  then have eq: "jsonEatNoLog (CHR '','') p = jsonError ERR_INTERNAL ?q"
    using st by (intro eat_once) (simp add: eat_switch_def isWhiteSpace_def)
  have "jsonError ERR_INTERNAL ?q = jsonError ERR_INTERNAL (p\<lparr>p_states := (p_states p)[9 := STATE_OUTVALUE]\<rparr>)"
    by (simp add: jsonError_def jsonReset_def emit_def jsonErrorText_def poke_def)
  moreover have "json_inv (p\<lparr>p_states := (p_states p)[9 := STATE_OUTVALUE]\<rparr>)"
    using assms by (simp add: in_obj_def json_inv_def)
  ultimately show ?thesis
    unfolding eq
    using at_top_error [of "p\<lparr>p_states := (p_states p)[9 := STATE_OUTVALUE]\<rparr>" T ERR_INTERNAL] assms
    by (simp add: in_obj_def)
qed

lemma cstr_at_0_Nil: "m \<noteq> [] \<Longrightarrow> cstr_at m 0 = [] \<longleftrightarrow> m ! 0 = NUL"
  by (cases m) (auto simp: cstr_at_def)

lemma eat_close_inobject:
  assumes "json_inv p" "p_on p = all_handlers" "p_state p = STATE_INOBJECT" "p_stateIndex p = 1"
    "p_states p ! 0 = STATE_NONE" "p_stack p = 0" "cstr_at (p_chars p) 0 = nm" "p_trace p = T"
  shows "at_top (T @ [EvObjectComplete nm]) (jsonEatNoLog (CHR ''}'') p)"
proof -
  have len: "length (p_chars p) = 970" using assms(1) by (simp add: json_inv_def chars_size_num)
  have name: "cur_name p = nm"
    using assms(6,7) by (simp add: cur_name_def name_row_def)
  let ?q = "poke (name_row 0) NUL ((emit onObjectComplete (EvObjectComplete nm) p)
              \<lparr>p_stateIndex := 0, p_state := STATE_NONE\<rparr>)"
  have "upState (emit onObjectComplete (EvObjectComplete nm) p) = ?q"
    using assms by (simp add: upState_def Let_def)
  then have "jsonEatNoLog (CHR ''}'') p = ?q"
    using assms name by (intro eat_once) (simp add: eat_switch_def)
  moreover have "at_top (T @ [EvObjectComplete nm]) ?q"
    using assms len by (auto simp: at_top_def json_inv_def json_sizes name_row_def chars_size_num)
      (simp add: emit_def all_handlers_def)
  ultimately show ?thesis by simp
qed

lemma eat_close:
  "in_obj nm STATE_OUTVALUE i T p \<Longrightarrow> at_top (T @ [EvObjectComplete nm]) (jsonEatNoLog (CHR ''}'') p)"
proof (induction i arbitrary: p)
  case 0
  then have st: "p_state p = STATE_OUTVALUE" "p_stateIndex p = 2" "p_states p ! Suc 0 = STATE_INOBJECT"
    "p_stack p = 1" by (simp_all add: in_obj_def)
  let ?q = "p\<lparr>p_stateIndex := 1, p_state := STATE_INOBJECT, p_stack := 0, p_allowComma := True\<rparr>"
  have "upState p = ?q" using st by (simp add: upState_def Let_def)
  then have "jsonEatNoLog (CHR ''}'') p = jsonEatNoLog (CHR ''}'') ?q"
    using st by (intro eat_again) (simp add: eat_switch_def isWhiteSpace_def)
  moreover have "at_top (T @ [EvObjectComplete nm]) (jsonEatNoLog (CHR ''}'') ?q)"
    by (rule eat_close_inobject) (use 0 in \<open>auto simp: in_obj_def json_inv_def json_sizes\<close>)
  ultimately show ?case by simp
next
  case (Suc i)
  then have st: "p_state p = STATE_OUTVALUE" "p_stateIndex p = Suc (Suc (Suc i))"
    "p_states p ! Suc (Suc i) = STATE_OUTVALUE" by (simp_all add: in_obj_def)
  let ?q = "p\<lparr>p_stateIndex := Suc (Suc i), p_state := STATE_OUTVALUE\<rparr>"
  have "upState p = ?q" using st by (simp add: upState_def Let_def)
  then have "jsonEatNoLog (CHR ''}'') p = jsonEatNoLog (CHR ''}'') ?q"
    using st by (intro eat_again) (simp add: eat_switch_def isWhiteSpace_def)
  moreover have "in_obj nm STATE_OUTVALUE i T ?q"
    using Suc.prems by (auto simp: in_obj_def json_inv_def json_sizes)
  ultimately show ?case using Suc.IH by simp
qed

text \<open>The opening brace at the top level.\<close>

lemma at_top_logged: "at_top T p \<Longrightarrow> at_top T (logged c p)"
  by (simp add: at_top_def json_inv_logged) (simp add: logged_def Let_def nth_list_update errbuf_row_num)

lemma eat_open:
  assumes "at_top T p"
  shows "in_obj [] STATE_TONAME 0 (T @ [EvObjectStart []]) (jsonEat (CHR ''{'') p)"
proof -
  define p' where "p' = logged (CHR ''{'') p"
  have top: "at_top T p'" unfolding p'_def using assms by (rule at_top_logged)
  then have len: "length (p_chars p') = 970" and st: "p_state p' = STATE_NONE" "p_stateIndex p' = 0"
    "p_stack p' = 0" "length (p_states p') = 10"
    by (simp_all add: at_top_def json_inv_def chars_size_num json_sizes)
  from len obtain m where m: "p_chars p' = NUL # m" using top by (cases "p_chars p'") (auto simp: at_top_def)
  have name: "cur_name p' = []" using st m by (simp add: cur_name_def name_row_def cstr_at_def)
  let ?e = "emit onObjectStart (EvObjectStart []) p'"
  let ?q = "(poke 30 NUL (?e\<lparr>p_states := (p_states p')[0 := STATE_NONE, Suc 0 := STATE_INOBJECT],
      p_stateIndex := 2, p_state := STATE_TONAME, p_stack := 1\<rparr>))\<lparr>p_allowComma := False\<rparr>"
  have "(toState STATE_TONAME (toState STATE_INOBJECT ?e))\<lparr>p_allowComma := False\<rparr> = ?q"
    using st by (simp add: toState_def setState_def name_row_def json_sizes poke_def)
  then have "jsonEatNoLog (CHR ''{'') p' = ?q"
    using st name by (intro eat_once) (simp add: eat_switch_def)
  moreover have "in_obj [] STATE_TONAME 0 (T @ [EvObjectStart []]) ?q"
    using top st len by (auto simp: in_obj_def at_top_def json_inv_def json_sizes nth_list_update m cstr_at_def)
      (simp add: emit_def all_handlers_def)
  ultimately show ?thesis by (simp add: jsonEat_logged p'_def)
qed

section \<open>Members and objects\<close>

lemma length_dec_digits: "n < 10 ^ Suc k \<Longrightarrow> length (dec_digits n) \<le> Suc k"
proof (induction n arbitrary: k rule: dec_digits.induct)
  case (1 n)
  show ?case
  proof (cases "n < 10")
    case True
    then show ?thesis by (subst dec_digits.simps) simp
  next
    case False
    with "1.prems" obtain j where k: "k = Suc j" by (cases k) auto
    with "1.prems" have "n div 10 < 10 ^ Suc j" by (simp add: div_less_iff_less_mult)
    with "1.IH" [OF False, of j] False k show ?thesis by (subst dec_digits.simps) simp
  qed
qed

lemma length_c_itoa: "INT_MIN \<le> n \<Longrightarrow> n \<le> INT_MAX \<Longrightarrow> length (c_itoa n) \<le> 11"
proof -
  assume n: "INT_MIN \<le> n" "n \<le> INT_MAX"
  then have "length (dec_digits (nat n)) \<le> 10" "length (dec_digits (nat (- n))) \<le> 10"
    using length_dec_digits [of "nat n" 9] length_dec_digits [of "nat (- n)" 9]
    by (simp_all add: INT_MIN_def INT_MAX_def)
  then show ?thesis by (simp add: c_itoa_def)
qed

lemma c_itoa_chars:
  obtains d ds where "c_itoa n = d # ds" "isNum d \<or> isSign d" "list_all isNum ds"
proof -
  have all: "list_all isNum (dec_digits k)" for k
    by (auto simp: list_all_iff isNum_isdigit dec_digits_isdigit)
  show ?thesis
  proof (cases "n < 0")
    case True
    with that [of "CHR ''-''" "dec_digits (nat (- n))"] all show ?thesis
      by (simp add: c_itoa_def isSign_def)
  next
    case False
    obtain d ds where "dec_digits (nat n) = d # ds" by (cases "dec_digits (nat n)") auto
    with that [of d ds] False all [of "nat n"] show ?thesis by (simp add: c_itoa_def)
  qed
qed

definition ok_member :: "string \<times> json_value \<Rightarrow> bool" where
  "ok_member m \<longleftrightarrow> ok_name (fst m) \<and> ok_value (snd m)"

lemma eat_name:
  assumes "in_obj nm STATE_TONAME i T p" and "ok_name n"
  shows "at_value nm STATE_TOVALUE i T n [] (jsonEats ([CHR 0x22] @ n @ [CHR 0x22, CHR '':'']) p)"
proof -
  have "at_name nm STATE_INNAME i T n (jsonEats n (jsonEat (CHR 0x22) p))"
    using eat_name_chars [OF eat_name_open [OF assms(1)], of n] assms(2)
    by (simp add: ok_name_def json_sizes)
  from eat_colon [OF eat_name_close [OF this]] show ?thesis by simp
qed

lemma eat_member:
  assumes obj: "in_obj nm STATE_TONAME i T p" and ok: "ok_member m" and c: "\<not> isNum c"
  shows "\<exists>q. in_obj nm STATE_OUTVALUE i (T @ [member_event m]) q
           \<and> jsonEat c (jsonEats (show_member m) p) = jsonEatNoLog c q"
proof -
  obtain n v where m: "m = (n, v)" by (cases m)
  let ?p = "jsonEats ([CHR 0x22] @ n @ [CHR 0x22, CHR '':'']) p"
  have at: "at_value nm STATE_TOVALUE i T n [] ?p"
    using eat_name [OF obj] ok by (simp add: ok_member_def m)
  have eats: "jsonEats (show_member m) p = jsonEats (show_value v) ?p"
    by (simp add: show_member_def m)
  show ?thesis
  proof (cases v)
    case (VStr s)
    have "in_string nm i T n s (jsonEats s (jsonEat (CHR 0x22) ?p))"
      using eat_string_chars [OF eat_string_open [OF at], of s] ok
      by (simp add: ok_member_def m VStr json_sizes)
    from in_obj_logged [OF eat_string_close [OF this], of c] show ?thesis
      unfolding eats by (auto simp: VStr m jsonEat_logged)
  next
    case (VInt k)
    then have k: "INT_MIN \<le> k" "k \<le> INT_MAX" using ok by (simp_all add: ok_member_def m)
    obtain d ds where d: "c_itoa k = d # ds" "isNum d \<or> isSign d" "list_all isNum ds"
      by (rule c_itoa_chars)
    have "length ds \<le> 10" using length_c_itoa [OF k] d(1) by simp
    with eat_number_chars [OF eat_number_open [OF at d(2)] d(3)]
    have "at_value nm STATE_INNUM i T n (c_itoa k) (jsonEats (c_itoa k) ?p)" by (simp add: d(1))
    from eat_number_close [OF this c] show ?thesis
      unfolding eats by (simp add: VInt m Atoi_c_itoa [OF k])
  qed
qed

lemma not_num_sep: "\<not> isNum (CHR '','')" "\<not> isNum (CHR ''}'')"
  by (simp_all add: isNum_def char_le_code)

lemma eat_space_TONAME:
  assumes "in_obj nm STATE_TONAME i T p" and "isWhiteSpace c"
  shows "in_obj nm STATE_TONAME i T (jsonEat c p)"
proof -
  have "jsonEatNoLog c (logged c p) = logged c p"
    using in_obj_pstate [OF assms(1)] assms(2)
    by (intro eat_once) (auto simp: eat_switch_def isWhiteSpace_def)
  with in_obj_logged [OF assms(1)] show ?thesis by (simp add: jsonEat_logged)
qed

lemma eat_spaces_TONAME:
  "in_obj nm STATE_TONAME i T p \<Longrightarrow> list_all isWhiteSpace sp \<Longrightarrow> in_obj nm STATE_TONAME i T (jsonEats sp p)"
  by (induction sp arbitrary: p) (simp_all add: eat_space_TONAME)

text \<open>The members up to a character behind the last one, which the last value gives back.\<close>

lemma eat_members:
  "in_obj nm STATE_TONAME i T p \<Longrightarrow> list_all ok_member ms \<Longrightarrow> ms \<noteq> [] \<Longrightarrow> i + length ms \<le> 8 \<Longrightarrow>
   list_all isWhiteSpace sp \<Longrightarrow> \<not> isNum c \<Longrightarrow>
   \<exists>q. in_obj nm STATE_OUTVALUE (i + length ms - 1) (T @ map member_event ms) q
     \<and> jsonEat c (jsonEats (show_members sp ms) p) = jsonEatNoLog c q"
proof (induction sp ms arbitrary: i T p rule: show_members.induct)
  case (2 sp m)
  then show ?case using eat_member [of nm i T p m c] by simp
next
  case (3 sp m m' ms)
  obtain q where q: "in_obj nm STATE_OUTVALUE i (T @ [member_event m]) q"
    "jsonEat (CHR '','') (jsonEats (show_member m) p) = jsonEatNoLog (CHR '','') q"
    using eat_member [of nm i T p m "CHR '',''"] "3.prems" not_num_sep by auto
  from eat_comma [OF q(1)] "3.prems"(4)
  have "in_obj nm STATE_TONAME (Suc i) (T @ [member_event m]) (jsonEatNoLog (CHR '','') q)" by simp
  then have "in_obj nm STATE_TONAME (Suc i) (T @ [member_event m]) (jsonEats sp (jsonEatNoLog (CHR '','') q))"
    using "3.prems"(5) by (rule eat_spaces_TONAME)
  from "3.IH" [OF this] "3.prems" q(2) show ?case by simp
qed simp

lemma eat_members_close:
  assumes "in_obj nm STATE_TONAME 0 T p" "list_all ok_member ms" "ms \<noteq> []" "length ms \<le> 8" "list_all isWhiteSpace sp"
  shows "at_top (T @ map member_event ms @ [EvObjectComplete nm])
     (jsonEat (CHR ''}'') (jsonEats (show_members sp ms) p))"
  using eat_members [of nm 0 T p ms sp "CHR ''}''"] assms not_num_sep eat_close by fastforce

text \<open>Messages that put white space before the closing brace.\<close>

lemma eat_space_OUTVALUE:
  assumes "in_obj nm STATE_OUTVALUE i T p" and "isWhiteSpace c"
  shows "jsonEatNoLog c p = p"
  using in_obj_pstate [OF assms(1)] assms(2) by (intro eat_once) (auto simp: eat_switch_def)

lemma eat_members_space_close:
  assumes "in_obj nm STATE_TONAME 0 T p" "list_all ok_member ms" "ms \<noteq> []" "length ms \<le> 8" "list_all isWhiteSpace sp"
  shows "at_top (T @ map member_event ms @ [EvObjectComplete nm])
     (jsonEats (show_members sp ms @ '' }'') p)"
proof -
  have sep: "\<not> isNum (CHR '' '')" "isWhiteSpace (CHR '' '')" by (simp_all add: isNum_def isWhiteSpace_def char_le_code)
  obtain q where q: "in_obj nm STATE_OUTVALUE (length ms - 1) (T @ map member_event ms) q"
    "jsonEat (CHR '' '') (jsonEats (show_members sp ms) p) = jsonEatNoLog (CHR '' '') q"
    using eat_members [OF assms(1,2,3) _ assms(5) sep(1)] assms(4) by auto
  then have "jsonEats (show_members sp ms @ '' '') p = q"
    using eat_space_OUTVALUE [OF q(1) sep(2)] by simp
  moreover have "jsonEat (CHR ''}'') q = jsonEatNoLog (CHR ''}'') (logged (CHR ''}'') q)"
    by (rule jsonEat_logged)
  ultimately show ?thesis
    using eat_close [OF in_obj_logged [OF q(1)]] by simp
qed

lemma eat_object:
  assumes "at_top T p" and "list_all ok_member ms" and "ms \<noteq> []" and "length ms \<le> 8"
  shows "at_top (T @ [EvObjectStart []] @ map member_event ms @ [EvObjectComplete []])
           (jsonEats (show_object ms) p)"
  using eat_members_close [OF eat_open [OF assms(1)] assms(2,3,4), of "[]"]
  by (simp add: show_object_def)

lemma at_top_init: "at_top [] (json_init all_handlers)"
  by (simp add: at_top_def json_inv_init) (simp add: json_init_def chars_size_num)

lemma at_top_chunk:
  assumes "at_top T p" and "list_all ok_member ms" and "ms \<noteq> []" and "length ms \<le> 8"
  shows "p_trace (jsonEats (show_object ms) p)
       = p_trace p @ [EvObjectStart []] @ map member_event ms @ [EvObjectComplete []]"
  using eat_object [OF assms] assms(1) by (simp add: at_top_def)

section \<open>Properties\<close>

text \<open>
  C10: A stream of flat messages is reported exactly: for any sequence of objects of one to
  eight members (names of up to 30 name characters, 32-bit integers, strings of up to 160
  characters without quote or backslash), the callbacks the parser makes are, per object and
  in order, the object start, one call per member with its name and value, and the object
  end; nothing is lost, repeated or left over between messages.
\<close>

theorem json_stream_events:
  assumes "\<forall>ms\<in>set mss. ms \<noteq> [] \<and> length ms \<le> 8 \<and> list_all ok_member ms"
  shows "p_trace (jsonEats (concat (map show_object mss)) (json_init all_handlers))
       = concat (map (\<lambda>ms. [EvObjectStart []] @ map member_event ms @ [EvObjectComplete []]) mss)"
proof -
  have "at_top T p \<Longrightarrow> at_top (T @ concat (map (\<lambda>ms. [EvObjectStart []] @ map member_event ms @ [EvObjectComplete []]) mss))
      (jsonEats (concat (map show_object mss)) p)" for T p
    using assms
  proof (induction mss arbitrary: T p)
    case (Cons ms mss)
    then have "at_top (T @ [EvObjectStart []] @ map member_event ms @ [EvObjectComplete []])
           (jsonEats (show_object ms) p)" by (intro eat_object) simp_all
    from Cons.IH [OF this] Cons.prems(2) show ?case by simp
  qed simp
  from this [OF at_top_init] show ?thesis by (simp add: at_top_def)
qed

theorem json_stream_events_witness:
  "p_trace (jsonEats (concat (map show_object
       [[(''cmd'', VInt 1), (''mac'', VStr ''00158D'')], [(''lvl'', VInt (- 5))]])) (json_init all_handlers))
   = [EvObjectStart [], EvInteger ''cmd'' 1, EvString ''mac'' ''00158D'', EvObjectComplete [],
      EvObjectStart [], EvInteger ''lvl'' (- 5), EvObjectComplete []]"
proof -
  have chars: "isValidNameChar (CHR ''c'')" "isValidNameChar (CHR ''m'')" "isValidNameChar (CHR ''d'')"
    "isValidNameChar (CHR ''a'')" "isValidNameChar (CHR ''l'')" "isValidNameChar (CHR ''v'')"
    by (simp_all add: isValidNameChar_def isAlpha_def char_le_code) (simp_all add: code_def)
  show ?thesis
    using json_stream_events [of "[[(''cmd'', VInt 1), (''mac'', VStr ''00158D'')], [(''lvl'', VInt (- 5))]]"]
    by (simp add: ok_member_def ok_name_def json_sizes INT_MIN_def INT_MAX_def plain_char_def chars)
qed

text \<open>
  The state stack bounds an object to eight members: every comma pushes a state that is
  popped only at the end of the object, so the comma behind the eighth member makes the
  parser report an internal error and reset to the top level, after having delivered the
  first eight members.
\<close>

theorem json_ninth_member:
  assumes "length ms = 8" and "list_all ok_member ms"
  shows "\<exists>txt. p_trace (jsonEats ([CHR ''{''] @ show_members [] ms @ [CHR '','']) (json_init all_handlers))
       = [EvObjectStart []] @ map member_event ms @ [EvError ERR_INTERNAL ''internal error'' txt]
     \<and> p_state (jsonEats ([CHR ''{''] @ show_members [] ms @ [CHR '','']) (json_init all_handlers)) = STATE_NONE"
proof -
  have "in_obj [] STATE_TONAME 0 [EvObjectStart []] (jsonEat (CHR ''{'') (json_init all_handlers))"
    using eat_open [OF at_top_init] by simp
  from eat_members [OF this assms(2), of "[]" "CHR '',''"] assms(1) not_num_sep
  obtain q where "in_obj [] STATE_OUTVALUE 7 ([EvObjectStart []] @ map member_event ms) q"
    "jsonEat (CHR '','') (jsonEats (show_members [] ms) (jsonEat (CHR ''{'') (json_init all_handlers)))
     = jsonEatNoLog (CHR '','') q" by force
  then show ?thesis using eat_comma_overflow [of "[]" "[EvObjectStart []] @ map member_event ms" q]
    by (auto simp: at_top_def)
qed

theorem json_ninth_member_witness:
  "\<exists>txt. p_trace (jsonEats ([CHR ''{''] @ show_members [] (replicate 8 (''a'', VInt 7)) @ [CHR '','']) (json_init all_handlers))
       = [EvObjectStart []] @ replicate 8 (EvInteger ''a'' 7) @ [EvError ERR_INTERNAL ''internal error'' txt]"
proof -
  have "isValidNameChar (CHR ''a'')" by (simp add: isValidNameChar_def isAlpha_def char_le_code)
  then have "list_all ok_member (replicate 8 (''a'', VInt 7))"
    by (simp add: list_all_iff ok_member_def ok_name_def json_sizes INT_MIN_def INT_MAX_def)
  with json_ninth_member [of "replicate 8 (''a'', VInt 7)"] show ?thesis by auto
qed

end
