(* ===== verification/SerialFrame.thy ===== *)
theory SerialFrame
  imports IotPrelude
begin

text \<open>
  The byte layer of the link to the Zigbee control bridge (\<open>ZCB/Serial.c\<close> and the framing
  half of \<open>ZCB/SerialLink.c\<close>): one-byte writes with their retry loop, the checksum, the
  escaping transmitter, and the receiver state machine whose variables are static and so
  survive from one call of \<open>eSL_ReadMessage\<close> to the next.

  The operating system's side of the port is a script: the results of the coming
  \<open>write\<close> calls (all succeed when it is used up), and for the receiver a list of
  \<open>read\<close> results, \<open>None\<close> being a read that returned no byte.
\<close>

section \<open>Single bytes\<close>

datatype teSerial_Status = E_SERIAL_OK | E_SERIAL_ERROR | E_SERIAL_NODATA

datatype write_result = WR_DONE | WR_ZERO | WR_AGAIN | WR_ERROR

record port =
  sent :: "u8 list"
  write_results :: "write_result list"

definition sys_write :: "u8 \<Rightarrow> port \<Rightarrow> write_result \<times> port" where
  "sys_write d p =
     (let r = (case write_results p of [] \<Rightarrow> WR_DONE | r # rs \<Rightarrow> r)
      in (r, p\<lparr>sent := (if r = WR_DONE then sent p @ [d] else sent p),
               write_results := tl (write_results p)\<rparr>))"

text \<open>
  The retry loop: \<open>k\<close> attempts are left, so \<open>attempts == 5\<close> is \<open>k = 1\<close>.
  \<open>None\<close> is the call of \<open>exit\<close>.
\<close>

fun eSerial_Write_retry :: "nat \<Rightarrow> u8 \<Rightarrow> port \<Rightarrow> (teSerial_Status \<times> port) option" where
  "eSerial_Write_retry 0 d p = Some (E_SERIAL_OK, p)"
| "eSerial_Write_retry (Suc k) d p = (case sys_write d p of
     (WR_DONE, q) \<Rightarrow> Some (E_SERIAL_OK, q)
   | (WR_ZERO, q) \<Rightarrow> Some (E_SERIAL_OK, q)
   | (WR_AGAIN, q) \<Rightarrow> if k = 0 then None else eSerial_Write_retry k d q
   | (WR_ERROR, q) \<Rightarrow> eSerial_Write_retry k d q)"

definition eSerial_Write :: "u8 \<Rightarrow> port \<Rightarrow> (teSerial_Status \<times> port) option" where
  "eSerial_Write d p = (case sys_write d p of
     (WR_AGAIN, q) \<Rightarrow> eSerial_Write_retry 6 d q
   | (WR_ERROR, q) \<Rightarrow> None
   | (_, q) \<Rightarrow> Some (E_SERIAL_OK, q))"

text \<open>\<open>eSerial_Read\<close> on the script of reads; a used-up script is a read without data.\<close>

fun eSerial_Read :: "u8 option list \<Rightarrow> u8 option \<times> u8 option list" where
  "eSerial_Read [] = (None, [])"
| "eSerial_Read (r # rs) = (r, rs)"

section \<open>Transmitter\<close>

definition SL_START_CHAR :: u8 where "SL_START_CHAR = 0x01"
definition SL_ESC_CHAR :: u8 where "SL_ESC_CHAR = 0x02"
definition SL_END_CHAR :: u8 where "SL_END_CHAR = 0x03"
definition SL_MAX_MESSAGE_LENGTH :: nat where "SL_MAX_MESSAGE_LENGTH = 256"

lemmas sl_chars = SL_START_CHAR_def SL_ESC_CHAR_def SL_END_CHAR_def

definition u8SL_CalculateCRC :: "u16 \<Rightarrow> u16 \<Rightarrow> u8 list \<Rightarrow> u8" where
  "u8SL_CalculateCRC u16Type u16Length pu8Data =
     fold (\<lambda>b crc. crc XOR b) (take (unat u16Length) pu8Data)
       (0 XOR ucast (drop_bit 8 u16Type) XOR ucast u16Type
          XOR ucast (drop_bit 8 u16Length) XOR ucast u16Length)"

text \<open>A failed byte is \<open>Inl\<close>; \<open>None\<close> stays the end of the process.\<close>

definition iSL_TxByte :: "bool \<Rightarrow> u8 \<Rightarrow> port \<Rightarrow> (bool \<times> port) option" where
  "iSL_TxByte bSpecialCharacter u8Data p =
     (if \<not> bSpecialCharacter \<and> u8Data < 0x10 then
        (case eSerial_Write SL_ESC_CHAR p of
           None \<Rightarrow> None
         | Some (st, q) \<Rightarrow>
             if st \<noteq> E_SERIAL_OK then Some (False, q)
             else map_option (\<lambda>(st, q). (True, q)) (eSerial_Write (u8Data XOR 0x10) q))
      else map_option (\<lambda>(st, q). (True, q)) (eSerial_Write u8Data p))"

datatype teSL_Status =
    E_SL_OK | E_SL_ERROR | E_SL_NOMESSAGE | E_SL_ERROR_SERIAL | E_SL_ERROR_NOMEM | E_SL_STACK u8

text \<open>
  The transmission of a list of bytes, stopping at the first that fails; each carries the
  flag of \<open>iSL_TxByte\<close>.
\<close>

fun tx_bytes :: "(bool \<times> u8) list \<Rightarrow> port \<Rightarrow> (teSL_Status \<times> port) option" where
  "tx_bytes [] p = Some (E_SL_OK, p)"
| "tx_bytes ((special, b) # bs) p = (case iSL_TxByte special b p of
     None \<Rightarrow> None
   | Some (ok, q) \<Rightarrow> if ok then tx_bytes bs q else Some (E_SL_ERROR, q))"

definition eSL_WriteMessage :: "u16 \<Rightarrow> u16 \<Rightarrow> u8 list \<Rightarrow> port \<Rightarrow> (teSL_Status \<times> port) option" where
  "eSL_WriteMessage u16Type u16Length pu8Data p =
     tx_bytes
       ([(True, SL_START_CHAR),
         (False, ucast (drop_bit 8 u16Type)), (False, ucast u16Type),
         (False, ucast (drop_bit 8 u16Length)), (False, ucast u16Length),
         (False, u8SL_CalculateCRC u16Type u16Length pu8Data)]
        @ map (Pair False) (take (unat u16Length) pu8Data)
        @ [(True, SL_END_CHAR)]) p"

section \<open>Receiver\<close>

datatype teSL_RxState =
    E_STATE_RX_WAIT_START | E_STATE_RX_WAIT_TYPEMSB | E_STATE_RX_WAIT_TYPELSB
  | E_STATE_RX_WAIT_LENMSB | E_STATE_RX_WAIT_LENLSB | E_STATE_RX_WAIT_CRC | E_STATE_RX_WAIT_DATA

record sl_reader =
  eRxState :: teSL_RxState
  u8CRC :: u8
  u16Bytes :: u16
  bInEsc :: bool
  rx_type :: u16
  rx_length :: u16
  rx_message :: "u8 list"

text \<open>
  What one byte does: the loop goes on, a message is complete, or the code writes outside
  the caller's buffer.
\<close>

datatype rx_outcome = RX_MORE | RX_MESSAGE | RX_FAULT

definition rx_data :: "u16 \<Rightarrow> u8 \<Rightarrow> sl_reader \<Rightarrow> sl_reader \<times> rx_outcome" where
  "rx_data u16MaxLength u8Data r = (case eRxState r of
     E_STATE_RX_WAIT_START \<Rightarrow> (r, RX_MORE)
   | E_STATE_RX_WAIT_TYPEMSB \<Rightarrow>
       (r\<lparr>rx_type := push_bit 8 (ucast u8Data), eRxState := E_STATE_RX_WAIT_TYPELSB\<rparr>, RX_MORE)
   | E_STATE_RX_WAIT_TYPELSB \<Rightarrow>
       (r\<lparr>rx_type := rx_type r + ucast u8Data, eRxState := E_STATE_RX_WAIT_LENMSB\<rparr>, RX_MORE)
   | E_STATE_RX_WAIT_LENMSB \<Rightarrow>
       (r\<lparr>rx_length := push_bit 8 (ucast u8Data), eRxState := E_STATE_RX_WAIT_LENLSB\<rparr>, RX_MORE)
   | E_STATE_RX_WAIT_LENLSB \<Rightarrow>
       (let len = rx_length r + ucast u8Data in
        (r\<lparr>rx_length := len,
           eRxState := (if len > u16MaxLength then E_STATE_RX_WAIT_START else E_STATE_RX_WAIT_CRC)\<rparr>, RX_MORE))
   | E_STATE_RX_WAIT_CRC \<Rightarrow> (r\<lparr>u8CRC := u8Data, eRxState := E_STATE_RX_WAIT_DATA\<rparr>, RX_MORE)
   | E_STATE_RX_WAIT_DATA \<Rightarrow>
       (if u16Bytes r < rx_length r then
          (if unat (u16Bytes r) < length (rx_message r) then
             (r\<lparr>rx_message := (rx_message r)[unat (u16Bytes r) := u8Data], u16Bytes := u16Bytes r + 1\<rparr>, RX_MORE)
           else (r, RX_FAULT))
        else (r, RX_MORE)))"

definition rx_byte :: "u16 \<Rightarrow> u8 \<Rightarrow> sl_reader \<Rightarrow> sl_reader \<times> rx_outcome" where
  "rx_byte u16MaxLength u8Data r =
     (if u8Data = SL_START_CHAR then
        (r\<lparr>u16Bytes := 0, bInEsc := False, eRxState := E_STATE_RX_WAIT_TYPEMSB\<rparr>, RX_MORE)
      else if u8Data = SL_ESC_CHAR then (r\<lparr>bInEsc := True\<rparr>, RX_MORE)
      else if u8Data = SL_END_CHAR then
        (if rx_length r > u16MaxLength then (r\<lparr>eRxState := E_STATE_RX_WAIT_START\<rparr>, RX_MORE)
         else if u8CRC r = u8SL_CalculateCRC (rx_type r) (rx_length r) (rx_message r) then
           (r\<lparr>eRxState := E_STATE_RX_WAIT_START\<rparr>, RX_MESSAGE)
         else (r, RX_MORE))
      else if bInEsc r then rx_data u16MaxLength (u8Data XOR 0x10) (r\<lparr>bInEsc := False\<rparr>)
      else rx_data u16MaxLength u8Data r)"

text \<open>The status is \<open>None\<close> after a write outside the buffer.\<close>

fun eSL_ReadMessage ::
  "u16 \<Rightarrow> u8 option list \<Rightarrow> sl_reader \<Rightarrow> teSL_Status option \<times> sl_reader \<times> u8 option list" where
  "eSL_ReadMessage u16MaxLength [] r = (Some E_SL_NOMESSAGE, r, [])"
| "eSL_ReadMessage u16MaxLength (None # rs) r = (Some E_SL_NOMESSAGE, r, rs)"
| "eSL_ReadMessage u16MaxLength (Some b # rs) r = (case rx_byte u16MaxLength b r of
     (q, RX_MORE) \<Rightarrow> eSL_ReadMessage u16MaxLength rs q
   | (q, RX_MESSAGE) \<Rightarrow> (Some E_SL_OK, q, rs)
   | (q, RX_FAULT) \<Rightarrow> (None, q, rs))"

text \<open>
  What the reader thread does before every call: a zeroed message whose length is too large
  to be accepted.  The static variables stay.
\<close>

definition reader_reset :: "sl_reader \<Rightarrow> sl_reader" where
  "reader_reset r = r\<lparr>rx_type := 0, rx_length := 0xFFFF, rx_message := replicate SL_MAX_MESSAGE_LENGTH 0\<rparr>"

definition reader_init :: sl_reader where
  "reader_init = \<lparr>eRxState = E_STATE_RX_WAIT_START, u8CRC = 0, u16Bytes = 0, bInEsc = False,
     rx_type = 0, rx_length = 0, rx_message = replicate SL_MAX_MESSAGE_LENGTH 0\<rparr>"

section \<open>The frame a message travels in\<close>

definition escape :: "u8 \<Rightarrow> u8 list" where
  "escape b = (if b < 0x10 then [SL_ESC_CHAR, b XOR 0x10] else [b])"

definition header_bytes :: "u16 \<Rightarrow> u16 \<Rightarrow> u8 list \<Rightarrow> u8 list" where
  "header_bytes t len d = be16 t @ be16 len @ [u8SL_CalculateCRC t len d]"

definition frame :: "u16 \<Rightarrow> u8 list \<Rightarrow> u8 list" where
  "frame t d = [SL_START_CHAR] @ concat (map escape (header_bytes t (of_nat (length d)) d @ d)) @ [SL_END_CHAR]"

lemma eSerial_Write_healthy:
  "write_results p = [] \<Longrightarrow> eSerial_Write d p = Some (E_SERIAL_OK, p\<lparr>sent := sent p @ [d]\<rparr>)"
  by (simp add: eSerial_Write_def sys_write_def Let_def)

lemma tx_bytes_healthy:
  "write_results p = [] \<Longrightarrow>
   tx_bytes bs p = Some (E_SL_OK, p\<lparr>sent := sent p @ concat (map (\<lambda>(sp, b). if sp then [b] else escape b) bs)\<rparr>)"
proof (induction bs arbitrary: p)
  case (Cons a bs)
  obtain sp b where a: "a = (sp, b)" by (cases a)
  have "iSL_TxByte sp b p = Some (True, p\<lparr>sent := sent p @ (if sp then [b] else escape b)\<rparr>)"
    using Cons.prems by (simp add: iSL_TxByte_def eSerial_Write_healthy escape_def)
  moreover have "write_results (p\<lparr>sent := x\<rparr>) = []" for x using Cons.prems by simp
  ultimately show ?case using Cons.IH by (simp add: a)
qed simp

lemma unat_of_nat16: "n < 65536 \<Longrightarrow> unat (of_nat n :: u16) = n"
  by (simp add: unat_of_nat take_bit_eq_mod)

lemma eSL_WriteMessage_frame:
  assumes "write_results p = []" and "length d < 65536"
  shows "eSL_WriteMessage t (of_nat (length d)) d p = Some (E_SL_OK, p\<lparr>sent := sent p @ frame t d\<rparr>)"
  using assms
  by (simp del: tx_bytes.simps
      add: eSL_WriteMessage_def tx_bytes_healthy frame_def header_bytes_def be16_def unat_of_nat16 comp_def)

section \<open>The receiver on escaped bytes\<close>

lemma escape_low:
  assumes "b < (0x10 :: u8)"
  shows "b XOR 0x10 \<noteq> SL_START_CHAR \<and> b XOR 0x10 \<noteq> SL_ESC_CHAR \<and> b XOR 0x10 \<noteq> SL_END_CHAR
       \<and> (b XOR 0x10) XOR 0x10 = b"
proof -
  have inv: "(b XOR 0x10) XOR 0x10 = b" by (simp add: xor.assoc)
  have "b \<noteq> 0x01 XOR 0x10" "b \<noteq> 0x02 XOR 0x10" "b \<noteq> 0x03 XOR 0x10"
    using assms by (auto simp: word_less_def)
  with inv show ?thesis unfolding sl_chars by (metis xor.assoc xor_self_eq xor.right_neutral)
qed

lemma high_not_special:
  "\<not> b < (0x10 :: u8) \<Longrightarrow> b \<noteq> SL_START_CHAR \<and> b \<noteq> SL_ESC_CHAR \<and> b \<noteq> SL_END_CHAR"
  by (auto simp: sl_chars)

lemma read_escape:
  assumes "\<not> bInEsc r"
  shows "eSL_ReadMessage mx (map Some (escape b) @ rs) r = (case rx_data mx b r of
     (q, RX_MORE) \<Rightarrow> eSL_ReadMessage mx rs q
   | (q, RX_MESSAGE) \<Rightarrow> (Some E_SL_OK, q, rs)
   | (q, RX_FAULT) \<Rightarrow> (None, q, rs))"
proof (cases "b < 0x10")
  case True
  have same: "r\<lparr>bInEsc := True, bInEsc := False\<rparr> = r" using assms by simp
  show ?thesis
    using escape_low [OF True] True same by (simp add: escape_def rx_byte_def sl_chars)
next
  case False
  then show ?thesis using high_not_special [OF False] assms by (simp add: escape_def rx_byte_def)
qed

text \<open>The header: six bytes take the receiver from the type field to the data.\<close>

lemma read_header:
  assumes "\<not> bInEsc r" and "eRxState r = E_STATE_RX_WAIT_TYPEMSB" and "len \<le> mx"
  shows "eSL_ReadMessage mx (map Some (concat (map escape (be16 t @ be16 len @ [crc]))) @ rs) r
       = eSL_ReadMessage mx rs
           (r\<lparr>rx_type := t, rx_length := len, u8CRC := crc, eRxState := E_STATE_RX_WAIT_DATA\<rparr>)"
proof -
  have word: "push_bit 8 (ucast (ucast (drop_bit 8 w) :: u8)) + ucast (ucast w :: u8) = w" for w :: u16
    using unbe16_be16 [of w] by (simp only: unbe16_def)
  show ?thesis
    using assms
    by (simp add: be16_def read_escape rx_data_def Let_def word leD)
qed

lemma read_payload:
  assumes "\<not> bInEsc r" and "eRxState r = E_STATE_RX_WAIT_DATA"
    and "unat (u16Bytes r) + length ds \<le> unat (rx_length r)"
    and "unat (u16Bytes r) + length ds \<le> length (rx_message r)"
  shows "eSL_ReadMessage mx (map Some (concat (map escape ds)) @ rs) r
       = eSL_ReadMessage mx rs
           (r\<lparr>u16Bytes := u16Bytes r + of_nat (length ds),
              rx_message := take (unat (u16Bytes r)) (rx_message r) @ ds
                            @ drop (unat (u16Bytes r) + length ds) (rx_message r)\<rparr>)"
  using assms
proof (induction ds arbitrary: r)
  case (Cons d ds)
  let ?k = "unat (u16Bytes r)"
  let ?q = "r\<lparr>rx_message := (rx_message r)[?k := d], u16Bytes := u16Bytes r + 1\<rparr>"
  have k: "?k < unat (rx_length r)" "?k < length (rx_message r)" using Cons.prems(3,4) by simp_all
  moreover have "unat (rx_length r) < 65536" using unsigned_less [of "rx_length r"] by simp
  ultimately have "Suc ?k < 65536" by simp
  then have suc: "unat (u16Bytes r + 1) = Suc ?k"
    by (simp add: unat_word_ariths)
  have "rx_data mx d r = (?q, RX_MORE)"
    using Cons.prems(2) k by (simp add: rx_data_def word_less_nat_alt)
  moreover have "take (Suc ?k) ((rx_message r)[?k := d]) = take ?k (rx_message r) @ [d]"
    using k(2) by (simp add: take_Suc_conv_app_nth)
  moreover have "drop (Suc (?k + length ds)) ((rx_message r)[?k := d]) = drop (Suc (?k + length ds)) (rx_message r)"
    by (rule drop_update_cancel) simp
  ultimately show ?case
    using Cons.IH [of ?q] Cons.prems suc
    by (simp add: read_escape) (simp add: ac_simps)
qed simp

lemma rx_byte_start [simp]:
  "rx_byte mx SL_START_CHAR r
   = (r\<lparr>u16Bytes := 0, bInEsc := False, eRxState := E_STATE_RX_WAIT_TYPEMSB\<rparr>, RX_MORE)"
  by (simp add: rx_byte_def)

text \<open>
  A frame of which only a prefix \<open>ys\<close> of the payload has arrived at its end character, in
  any state of the receiver.
\<close>

lemma read_frame:
  fixes t len :: u16 and crc :: u8
  assumes "len \<le> mx" and "length ys \<le> unat len" and "length ys \<le> length (rx_message r)"
  defines "buf \<equiv> ys @ drop (length ys) (rx_message r)"
  defines "q \<equiv> r\<lparr>rx_type := t, rx_length := len, u8CRC := crc, u16Bytes := of_nat (length ys),
                 bInEsc := False, rx_message := buf\<rparr>"
  shows "eSL_ReadMessage mx (map Some ([SL_START_CHAR] @ concat (map escape (be16 t @ be16 len @ [crc]))
             @ concat (map escape ys) @ [SL_END_CHAR]) @ rs) r
       = (if crc = u8SL_CalculateCRC t len buf then (Some E_SL_OK, q\<lparr>eRxState := E_STATE_RX_WAIT_START\<rparr>, rs)
          else eSL_ReadMessage mx rs (q\<lparr>eRxState := E_STATE_RX_WAIT_DATA\<rparr>))"
proof -
  let ?r1 = "r\<lparr>u16Bytes := 0, bInEsc := False, eRxState := E_STATE_RX_WAIT_TYPEMSB\<rparr>"
  let ?r2 = "?r1\<lparr>rx_type := t, rx_length := len, u8CRC := crc, eRxState := E_STATE_RX_WAIT_DATA\<rparr>"
  let ?r3 = "q\<lparr>eRxState := E_STATE_RX_WAIT_DATA\<rparr>"
  have h: "eSL_ReadMessage mx (map Some (concat (map escape (be16 t @ be16 len @ [crc]))) @ rest) ?r1
         = eSL_ReadMessage mx rest ?r2" for rest
    by (rule read_header) (simp_all add: assms(1))
  have p: "eSL_ReadMessage mx (map Some (concat (map escape ys)) @ rest) ?r2 = eSL_ReadMessage mx rest ?r3" for rest
  proof -
    have "?r2\<lparr>u16Bytes := u16Bytes ?r2 + of_nat (length ys),
          rx_message := take (unat (u16Bytes ?r2)) (rx_message ?r2) @ ys
             @ drop (unat (u16Bytes ?r2) + length ys) (rx_message ?r2)\<rparr> = ?r3"
      by (rule sl_reader.equality) (simp_all add: q_def buf_def)
    then show ?thesis using read_payload [of ?r2 ys mx rest] assms(2,3) by simp
  qed
  have "eSL_ReadMessage mx (map Some ([SL_START_CHAR] @ concat (map escape (be16 t @ be16 len @ [crc]))
             @ concat (map escape ys) @ [SL_END_CHAR]) @ rs) r
      = eSL_ReadMessage mx (Some SL_END_CHAR # rs) ?r3"
    using h [of "map Some (concat (map escape ys)) @ Some SL_END_CHAR # rs"] p [of "Some SL_END_CHAR # rs"]
    by simp
  also have "\<dots> = (if crc = u8SL_CalculateCRC t len buf then (Some E_SL_OK, q\<lparr>eRxState := E_STATE_RX_WAIT_START\<rparr>, rs)
          else eSL_ReadMessage mx rs ?r3)"
    using assms(1) by (simp add: rx_byte_def sl_chars q_def leD)
  finally show ?thesis .
qed

lemma u8SL_CalculateCRC_take:
  "take (unat len) d = take (unat len) d' \<Longrightarrow> u8SL_CalculateCRC t len d = u8SL_CalculateCRC t len d'"
  by (simp add: u8SL_CalculateCRC_def)

lemma read_whole_frame:
  assumes "length d \<le> SL_MAX_MESSAGE_LENGTH" and "length (rx_message r) = SL_MAX_MESSAGE_LENGTH"
  shows "\<exists>q. eSL_ReadMessage 256 (map Some (frame t d) @ rs) r = (Some E_SL_OK, q, rs)
           \<and> rx_type q = t \<and> unat (rx_length q) = length d \<and> take (length d) (rx_message q) = d
           \<and> length (rx_message q) = SL_MAX_MESSAGE_LENGTH \<and> eRxState q = E_STATE_RX_WAIT_START"
proof -
  let ?len = "of_nat (length d) :: u16"
  have len: "unat ?len = length d" and le: "length d \<le> 256"
    using assms(1) by (simp_all add: unat_of_nat16 SL_MAX_MESSAGE_LENGTH_def)
  then have mx: "?len \<le> 256" by (simp add: word_le_nat_alt)
  have crc: "u8SL_CalculateCRC t ?len d = u8SL_CalculateCRC t ?len (d @ drop (length d) (rx_message r))"
    by (rule u8SL_CalculateCRC_take) (simp add: len)
  have fr: "frame t d = [SL_START_CHAR] @ concat (map escape (be16 t @ be16 ?len @ [u8SL_CalculateCRC t ?len d]))
             @ concat (map escape d) @ [SL_END_CHAR]"
    by (simp add: frame_def header_bytes_def)
  show ?thesis
    unfolding fr
    by (subst read_frame [OF mx]) (use len le assms in \<open>auto simp: crc\<close>)
qed

section \<open>The reader thread's loop over the stream\<close>

text \<open>
  One pass of the reader thread resets the message and calls \<open>eSL_ReadMessage\<close>, and
  terminates a log message in place; the result is the list of messages received, and
  whether and where it then wrote outside its buffer: in the receiver, or with the terminator
  of a log message.
\<close>

definition E_SL_MSG_LOG :: u16 where "E_SL_MSG_LOG = 0x8001"

datatype reader_fault = FAULT_DATA | FAULT_LOG

lemma eSL_ReadMessage_shorter:
  "eSL_ReadMessage mx rs r = (st, q, rs') \<Longrightarrow> rs \<noteq> [] \<Longrightarrow> length rs' < length rs"
proof (induction mx rs r arbitrary: st q rs' rule: eSL_ReadMessage.induct)
  case (3 mx b rs r)
  obtain q1 o1 where b: "rx_byte mx b r = (q1, o1)" by (cases "rx_byte mx b r")
  show ?case
  proof (cases o1)
    case RX_MORE
    with 3 b show ?thesis by (cases "rs = []") fastforce+
  qed (use 3 b in auto)
qed auto

function reader_loop :: "u8 option list \<Rightarrow> sl_reader \<Rightarrow> (u16 \<times> u8 list) list \<times> sl_reader \<times> reader_fault option" where
  "reader_loop rs r =
     (if rs = [] then ([], r, None)
      else case eSL_ReadMessage (of_nat SL_MAX_MESSAGE_LENGTH) rs (reader_reset r) of
             (None, q, rs') \<Rightarrow> ([], q, Some FAULT_DATA)
           | (Some st, q, rs') \<Rightarrow>
               if st \<noteq> E_SL_OK then reader_loop rs' q
               else let m = (rx_type q, take (unat (rx_length q)) (rx_message q))
                    in if rx_type q = E_SL_MSG_LOG \<and> length (rx_message q) \<le> unat (rx_length q)
                       then ([m], q, Some FAULT_LOG)
                       else (case reader_loop rs' q of (ms, q', fault) \<Rightarrow> (m # ms, q', fault)))"
  by pat_completeness auto
termination
  by (relation "measure (\<lambda>(rs, r). length rs)") (auto dest!: eSL_ReadMessage_shorter [OF sym])

declare reader_loop.simps [simp del]

text \<open>
  The receiver never leaves its buffer as long as a length it has announced stays the
  length of the call that goes on reading.
\<close>

definition rx_safe :: "sl_reader \<Rightarrow> bool" where
  "rx_safe r \<longleftrightarrow> length (rx_message r) = SL_MAX_MESSAGE_LENGTH
     \<and> (eRxState r = E_STATE_RX_WAIT_CRC \<or> eRxState r = E_STATE_RX_WAIT_DATA \<longrightarrow> rx_length r \<le> 256)"

lemma rx_data_safe: "rx_safe r \<Longrightarrow> rx_safe (fst (rx_data 256 b r)) \<and> snd (rx_data 256 b r) \<noteq> RX_FAULT"
  by (cases "eRxState r")
     (auto simp: rx_data_def rx_safe_def SL_MAX_MESSAGE_LENGTH_def Let_def word_less_nat_alt word_le_nat_alt)

lemma rx_byte_safe: "rx_safe r \<Longrightarrow> rx_safe (fst (rx_byte 256 b r)) \<and> snd (rx_byte 256 b r) \<noteq> RX_FAULT"
proof -
  assume safe: "rx_safe r"
  then have "rx_safe (r\<lparr>bInEsc := False\<rparr>)" by (simp add: rx_safe_def)
  from rx_data_safe [OF safe, of b] rx_data_safe [OF this, of "b XOR 0x10"] safe show ?thesis
    by (auto simp: rx_byte_def) (auto simp: rx_safe_def)
qed

lemma eSL_ReadMessage_safe:
  "rx_safe r \<Longrightarrow> eSL_ReadMessage 256 rs r = (st, q, rs') \<Longrightarrow> st \<noteq> None \<and> rx_safe q"
proof (induction rs arbitrary: r)
  case (Cons b rs)
  show ?case
  proof (cases b)
    case (Some c)
    obtain q1 o1 where b: "rx_byte 256 c r = (q1, o1)" by (cases "rx_byte 256 c r")
    with rx_byte_safe [OF Cons.prems(1), of c] have "rx_safe q1" "o1 \<noteq> RX_FAULT" by simp_all
    with Cons b Some show ?thesis by (cases o1) auto
  qed (use Cons.prems in auto)
qed auto

lemma eSL_ReadMessage_ok_state:
  "eSL_ReadMessage mx rs r = (Some E_SL_OK, q, rs') \<Longrightarrow> eRxState q = E_STATE_RX_WAIT_START
     \<and> rx_length q \<le> mx \<and> u8CRC q = u8SL_CalculateCRC (rx_type q) (rx_length q) (rx_message q)"
proof (induction mx rs r rule: eSL_ReadMessage.induct)
  case (3 mx b rs r)
  obtain q1 o1 where b: "rx_byte mx b r = (q1, o1)" by (cases "rx_byte mx b r")
  have data: "snd (rx_data mx c r') \<noteq> RX_MESSAGE" for c r'
    by (auto simp: rx_data_def Let_def split: teSL_RxState.split)
  show ?case
  proof (cases o1)
    case RX_MESSAGE
    with b data [of b r] data [of "b XOR 0x10" "r\<lparr>bInEsc := False\<rparr>"]
    have "q1 = r\<lparr>eRxState := E_STATE_RX_WAIT_START\<rparr> \<and> rx_length r \<le> mx
       \<and> u8CRC r = u8SL_CalculateCRC (rx_type r) (rx_length r) (rx_message r)"
      by (auto simp: rx_byte_def split: if_splits)
    with "3.prems" b RX_MESSAGE show ?thesis by auto
  qed (use 3 b in auto)
qed auto

lemma rx_safe_reset: "eRxState r = E_STATE_RX_WAIT_START \<Longrightarrow> rx_safe (reader_reset r)"
  by (simp add: rx_safe_def reader_reset_def)

lemma reader_loop_frames:
  assumes "\<forall>m\<in>set ms. length (snd m) \<le> SL_MAX_MESSAGE_LENGTH
      \<and> (fst m = E_SL_MSG_LOG \<longrightarrow> length (snd m) < SL_MAX_MESSAGE_LENGTH)"
  shows "eRxState r = E_STATE_RX_WAIT_START \<Longrightarrow>
    \<exists>q. reader_loop (concat (map (\<lambda>(t, d). map Some (frame t d)) ms)) r = (ms, q, None)
      \<and> (ms = [] \<or> eRxState q = E_STATE_RX_WAIT_START)"
  using assms
proof (induction ms arbitrary: r)
  case Nil
  then show ?case by (subst reader_loop.simps) simp
next
  case (Cons m ms)
  obtain t d where m: "m = (t, d)" by (cases m)
  have len: "length (rx_message (reader_reset r)) = SL_MAX_MESSAGE_LENGTH" by (simp add: reader_reset_def)
  let ?rest = "concat (map (\<lambda>(t, d). map Some (frame t d)) ms)"
  have "length d \<le> SL_MAX_MESSAGE_LENGTH" using Cons.prems(2) by (simp add: m)
  from read_whole_frame [OF this len, of t ?rest]
  obtain q where q: "eSL_ReadMessage 256 (map Some (frame t d) @ ?rest) (reader_reset r) = (Some E_SL_OK, q, ?rest)"
    "rx_type q = t" "unat (rx_length q) = length d" "take (length d) (rx_message q) = d"
    "length (rx_message q) = SL_MAX_MESSAGE_LENGTH" "eRxState q = E_STATE_RX_WAIT_START" by auto
  obtain q' where "reader_loop ?rest q = (ms, q', None)" "ms = [] \<or> eRxState q' = E_STATE_RX_WAIT_START"
    using Cons.IH [OF q(6)] Cons.prems(2) by auto
  moreover have "ms = [] \<Longrightarrow> q' = q" using \<open>reader_loop ?rest q = (ms, q', None)\<close>
    by (simp add: reader_loop.simps)
  moreover have "\<not> (t = E_SL_MSG_LOG \<and> length (rx_message q) \<le> length d)"
    using Cons.prems(2) q(5) by (auto simp: m)
  ultimately show ?case
    using q by (subst reader_loop.simps) (auto simp: m frame_def SL_MAX_MESSAGE_LENGTH_def Let_def)
qed

text \<open>What is left of a stream without failed reads when a call returns.\<close>

lemma eSL_ReadMessage_rest:
  assumes "rx_safe r" and "eSL_ReadMessage 256 rs r = (st, q, rs')" and "\<forall>b\<in>set rs. b \<noteq> None"
  shows "(\<forall>b\<in>set rs'. b \<noteq> None) \<and> (st = Some E_SL_OK \<or> rs' = [])"
  using assms
proof (induction rs arbitrary: r)
  case (Cons b rs)
  obtain c where c: "b = Some c" using Cons.prems(3) by auto
  obtain q1 o1 where b: "rx_byte 256 c r = (q1, o1)" by (cases "rx_byte 256 c r")
  have "rx_safe q1" "o1 \<noteq> RX_FAULT" using rx_byte_safe [OF Cons.prems(1), of c] b by simp_all
  with Cons.prems Cons.IH [of q1] b c show ?case by (cases o1) auto
qed auto

definition full_log :: "u16 \<times> u8 list \<Rightarrow> bool" where
  "full_log m \<longleftrightarrow> fst m = E_SL_MSG_LOG \<and> length (snd m) = SL_MAX_MESSAGE_LENGTH"

lemma reader_loop_full_log:
  "eRxState r = E_STATE_RX_WAIT_START \<Longrightarrow> \<forall>b\<in>set rs. b \<noteq> None \<Longrightarrow> reader_loop rs r = (ms, q', fault) \<Longrightarrow>
   fault = (if \<exists>m\<in>set ms. full_log m then Some FAULT_LOG else None)"
proof (induction "length rs" arbitrary: rs r ms q' fault rule: less_induct)
  case (less rs r)
  obtain st q rs' where q: "eSL_ReadMessage 256 rs (reader_reset r) = (st, q, rs')"
    by (cases "eSL_ReadMessage 256 rs (reader_reset r)")
  note safe = rx_safe_reset [OF less.prems(1)]
  have st: "st \<noteq> None" "rx_safe q" using eSL_ReadMessage_safe [OF safe q] by simp_all
  note rest = eSL_ReadMessage_rest [OF safe q less.prems(2)]
  show ?case
  proof (cases "rs = []")
    case True
    with less.prems(3) show ?thesis by (simp add: reader_loop.simps)
  next
    case False
    show ?thesis
    proof (cases "st = Some E_SL_OK")
      case True
      let ?m = "(rx_type q, take (unat (rx_length q)) (rx_message q))"
      have ok: "eRxState q = E_STATE_RX_WAIT_START" "unat (rx_length q) \<le> 256"
        using eSL_ReadMessage_ok_state [of 256 rs "reader_reset r" q rs'] q True by (auto simp: word_le_nat_alt)
      have len: "length (rx_message q) = 256" using st(2) by (simp add: rx_safe_def SL_MAX_MESSAGE_LENGTH_def)
      with ok(2) have full: "full_log ?m \<longleftrightarrow> rx_type q = E_SL_MSG_LOG \<and> length (rx_message q) \<le> unat (rx_length q)"
        by (auto simp: full_log_def SL_MAX_MESSAGE_LENGTH_def)
      show ?thesis
      proof (cases "full_log ?m")
        case full': True
        with False q True less.prems(3) full have "ms = [?m]" "fault = Some FAULT_LOG"
          by (auto simp: reader_loop.simps [of rs r] SL_MAX_MESSAGE_LENGTH_def Let_def)
        with full' show ?thesis by simp
      next
        case not_full: False
        obtain ms1 q1 f1 where r1: "reader_loop rs' q = (ms1, q1, f1)" by (cases "reader_loop rs' q")
        have "ms = ?m # ms1" "fault = f1"
          using not_full full False q True less.prems(3) r1
          by (auto simp: reader_loop.simps [of rs r] SL_MAX_MESSAGE_LENGTH_def Let_def)
        with less.hyps [OF eSL_ReadMessage_shorter [OF q False] ok(1) _ r1] rest not_full show ?thesis by simp
      qed
    next
      case fail: False
      then have "rs' = []" using rest by simp
      with fail st(1) False q less.prems(3) show ?thesis
        by (auto simp: reader_loop.simps [of rs r] reader_loop.simps [of "[]" q] SL_MAX_MESSAGE_LENGTH_def)
    qed
  qed
qed

lemma reader_loop_fault:
  assumes "eRxState r = E_STATE_RX_WAIT_START" and "\<forall>b\<in>set rs. b \<noteq> None"
  shows "case reader_loop rs r of (ms, q, fault) \<Rightarrow>
     fault = (if \<exists>d. (E_SL_MSG_LOG, d) \<in> set ms \<and> length d = SL_MAX_MESSAGE_LENGTH then Some FAULT_LOG else None)"
proof -
  obtain ms q fault where r: "reader_loop rs r = (ms, q, fault)" by (cases "reader_loop rs r")
  have "(\<exists>m\<in>set ms. full_log m) \<longleftrightarrow> (\<exists>d. (E_SL_MSG_LOG, d) \<in> set ms \<and> length d = SL_MAX_MESSAGE_LENGTH)"
    by (force simp: full_log_def)
  with reader_loop_full_log [OF assms r] r show ?thesis by simp
qed

section \<open>The checksum and the retry loop\<close>

lemma crc_fold_init:
  "fold (\<lambda>b crc. crc XOR b) d (a XOR c) = fold (\<lambda>b crc. crc XOR b) d a XOR (c :: u8)"
proof (induction d arbitrary: a)
  case (Cons y ys)
  have "(a XOR c) XOR y = (a XOR y) XOR c" by (metis xor.assoc xor.commute)
  then show ?case using Cons.IH [of "a XOR y"] by simp
qed simp

lemma crc_fold_update:
  "i < length d \<Longrightarrow> fold (\<lambda>b crc. crc XOR b) (d[i := x]) a
     = fold (\<lambda>b crc. crc XOR b) d a XOR (d ! i XOR (x :: u8))"
proof (induction d arbitrary: a i)
  case (Cons y ys)
  show ?case
  proof (cases i)
    case 0
    have "a XOR x = (a XOR y) XOR (y XOR x)" by (simp add: xor.assoc [symmetric]) (simp add: xor.assoc)
    then show ?thesis using crc_fold_init [of ys "a XOR y" "y XOR x"] by (simp add: 0)
  qed (use Cons in simp)
qed simp

lemma u8SL_CalculateCRC_update:
  assumes "i < length d" and "unat len = length d"
  shows "u8SL_CalculateCRC t len (d[i := x]) = u8SL_CalculateCRC t len d \<longleftrightarrow> x = d ! i"
proof -
  have "u8SL_CalculateCRC t len (d[i := x]) = u8SL_CalculateCRC t len d XOR (d ! i XOR x)"
    using assms crc_fold_update by (simp add: u8SL_CalculateCRC_def)
  moreover have "a XOR (b XOR x) = a \<longleftrightarrow> x = b" for a b :: u8
    by (metis xor.assoc xor.right_neutral xor_self_eq xor.commute)
  ultimately show ?thesis by simp
qed

lemma retry_again:
  "write_results p = replicate j WR_AGAIN \<Longrightarrow> j < k \<Longrightarrow>
   eSerial_Write_retry k d p = Some (E_SERIAL_OK, p\<lparr>sent := sent p @ [d], write_results := []\<rparr>)"
proof (induction j arbitrary: k p)
  case 0
  then show ?case by (cases k) (simp_all add: sys_write_def Let_def)
next
  case (Suc j)
  then obtain k' where k: "k = Suc k'" "j < k'" by (cases k) auto
  have "sys_write d p = (WR_AGAIN, p\<lparr>write_results := replicate j WR_AGAIN\<rparr>)"
    using Suc.prems by (simp add: sys_write_def Let_def)
  then show ?case using Suc.IH [of "p\<lparr>write_results := replicate j WR_AGAIN\<rparr>" k'] k by simp
qed

lemma retry_exit:
  "write_results p = replicate j WR_AGAIN \<Longrightarrow> 0 < k \<Longrightarrow> k \<le> j \<Longrightarrow> eSerial_Write_retry k d p = None"
proof (induction j arbitrary: k p)
  case (Suc j)
  then obtain k' where k: "k = Suc k'" by (cases k) auto
  have "sys_write d p = (WR_AGAIN, p\<lparr>write_results := replicate j WR_AGAIN\<rparr>)"
    using Suc.prems by (simp add: sys_write_def Let_def)
  then show ?case using Suc.IH [of "p\<lparr>write_results := replicate j WR_AGAIN\<rparr>" k'] Suc.prems k by simp
qed simp

section \<open>Properties\<close>

text \<open>
  C1: The serial link carries messages faithfully: whatever sequence of messages of up to
  256 bytes, log messages of up to 255, is written with \<open>eSL_WriteMessage\<close> (payload bytes of
  any value, the special ones included), the reader thread's loop on those bytes receives
  exactly that sequence, types and payloads, and neither the receiver nor the terminator the
  loop puts behind a log message leaves the buffer.
\<close>

theorem serial_link_roundtrip:
  assumes "\<forall>m\<in>set ms. length (snd m) \<le> SL_MAX_MESSAGE_LENGTH
      \<and> (fst m = E_SL_MSG_LOG \<longrightarrow> length (snd m) < SL_MAX_MESSAGE_LENGTH)"
  shows "\<exists>q. reader_loop (map Some (sent (fold (\<lambda>(t, d) p. snd (the (eSL_WriteMessage t (of_nat (length d)) d p)))
             ms \<lparr>sent = [], write_results = []\<rparr>))) reader_init = (ms, q, None)"
proof -
  have "fold (\<lambda>(t, d) p. snd (the (eSL_WriteMessage t (of_nat (length d)) d p))) ms \<lparr>sent = s, write_results = []\<rparr>
      = \<lparr>sent = s @ concat (map (\<lambda>(t, d). frame t d) ms), write_results = []\<rparr>" for s
    using assms
  proof (induction ms arbitrary: s)
    case (Cons m ms)
    then show ?case
      by (cases m) (simp add: eSL_WriteMessage_frame SL_MAX_MESSAGE_LENGTH_def)
  qed simp
  moreover have "map Some (concat (map (\<lambda>(t, d). frame t d) ms)) = concat (map (\<lambda>(t, d). map Some (frame t d)) ms)"
    by (induction ms) auto
  moreover have "eRxState reader_init = E_STATE_RX_WAIT_START" by (simp add: reader_init_def)
  ultimately show ?thesis using reader_loop_frames [OF assms, of reader_init] by auto
qed

theorem serial_link_roundtrip_witness:
  "\<exists>q. reader_loop (map Some (sent (fold (\<lambda>(t, d) p. snd (the (eSL_WriteMessage t (of_nat (length d)) d p)))
     [(0x0092, [1, 2, 3]), (0x8001, [3, 0x41]), (0x8000, [])] \<lparr>sent = [], write_results = []\<rparr>))) reader_init
     = ([(0x0092, [1, 2, 3]), (0x8001, [3, 0x41]), (0x8000, [])], q, None)"
  by (rule serial_link_roundtrip) (simp add: SL_MAX_MESSAGE_LENGTH_def)

text \<open>
  C30: The receiver resynchronises on every frame: whatever state its static variables are in
  (in the middle of another message, behind an escape, with any stored checksum), a complete
  frame is received with its type, length and payload.
\<close>

theorem serial_resync:
  assumes "length d \<le> SL_MAX_MESSAGE_LENGTH" and "length (rx_message r) = SL_MAX_MESSAGE_LENGTH"
  shows "\<exists>q. eSL_ReadMessage 256 (map Some (frame t d) @ rs) r = (Some E_SL_OK, q, rs)
           \<and> rx_type q = t \<and> unat (rx_length q) = length d \<and> take (length d) (rx_message q) = d"
  using read_whole_frame [OF assms, of t rs] by auto

theorem serial_resync_witness:
  "\<exists>q. eSL_ReadMessage 256 (map Some (frame 0x8102 [7, 255]) @ [None])
         (reader_init\<lparr>eRxState := E_STATE_RX_WAIT_DATA, bInEsc := True, rx_length := 77\<rparr>) = (Some E_SL_OK, q, [None])
     \<and> rx_type q = 0x8102 \<and> unat (rx_length q) = 2 \<and> take 2 (rx_message q) = [7, 255]"
  using serial_resync [of "[7, 255]" "reader_init\<lparr>eRxState := E_STATE_RX_WAIT_DATA, bInEsc := True, rx_length := 77\<rparr>"
      "0x8102" "[None]"]
  by (simp add: SL_MAX_MESSAGE_LENGTH_def reader_init_def numeral_2_eq_2)

text \<open>
  C33: A damaged payload byte is always noticed: a frame whose header is that of a message
  but one of whose payload bytes has another value is not accepted.
\<close>

theorem serial_corruption_rejected:
  assumes "length d \<le> SL_MAX_MESSAGE_LENGTH" and "i < length d" and "x \<noteq> d ! i"
    and "length (rx_message r) = SL_MAX_MESSAGE_LENGTH"
  shows "\<exists>q. eSL_ReadMessage 256
       (map Some ([SL_START_CHAR] @ concat (map escape (header_bytes t (of_nat (length d)) d))
                  @ concat (map escape (d[i := x])) @ [SL_END_CHAR])) r = (Some E_SL_NOMESSAGE, q, [])"
proof -
  let ?len = "of_nat (length d) :: u16" and ?d = "d[i := x]"
  have len: "unat ?len = length d" and le: "length d \<le> 256"
    using assms(1) by (simp_all add: unat_of_nat16 SL_MAX_MESSAGE_LENGTH_def)
  then have mx: "?len \<le> 256" by (simp add: word_le_nat_alt)
  have "u8SL_CalculateCRC t ?len (?d @ drop (length d) (rx_message r)) = u8SL_CalculateCRC t ?len ?d"
    by (rule u8SL_CalculateCRC_take) (simp add: len)
  then have "u8SL_CalculateCRC t ?len d \<noteq> u8SL_CalculateCRC t ?len (?d @ drop (length d) (rx_message r))"
    using u8SL_CalculateCRC_update [OF assms(2) len] assms(3) by metis
  with read_frame [OF mx, of ?d r t "u8SL_CalculateCRC t ?len d" "[]"] len le assms(4) show ?thesis
    by (simp add: header_bytes_def SL_MAX_MESSAGE_LENGTH_def)
qed

theorem serial_corruption_rejected_witness:
  "\<exists>q. eSL_ReadMessage 256
     (map Some ([SL_START_CHAR] @ concat (map escape (header_bytes 0x8102 (of_nat (length [7, 9 :: u8])) [7, 9]))
        @ concat (map escape ([7, 9][1 := 8])) @ [SL_END_CHAR])) reader_init = (Some E_SL_NOMESSAGE, q, [])"
  by (rule serial_corruption_rejected) (simp_all add: SL_MAX_MESSAGE_LENGTH_def reader_init_def)

text \<open>
  The receiver does not check that the announced number of bytes has arrived: a frame
  that is cut short is accepted as a complete message, the missing bytes being the zeros of
  the reader's buffer, whenever the checksum agrees; so a message whose last bytes are zero
  may lose them on the line without notice.
\<close>

theorem serial_short_frame_accepted:
  assumes "length ys + k \<le> SL_MAX_MESSAGE_LENGTH"
  defines "d \<equiv> ys @ replicate k 0"
  shows "\<exists>q. eSL_ReadMessage 256
       (map Some ([SL_START_CHAR] @ concat (map escape (header_bytes t (of_nat (length d)) d))
                  @ concat (map escape ys) @ [SL_END_CHAR])) (reader_reset r) = (Some E_SL_OK, q, [])
     \<and> rx_type q = t \<and> take (unat (rx_length q)) (rx_message q) = d"
proof -
  let ?len = "of_nat (length d) :: u16"
  have le: "length d \<le> 256" using assms(1) by (simp add: SL_MAX_MESSAGE_LENGTH_def d_def)
  then have len: "unat ?len = length d" by (simp add: unat_of_nat16)
  have mx: "?len \<le> 256" using le len by (simp add: word_le_nat_alt)
  let ?buf = "ys @ drop (length ys) (rx_message (reader_reset r))"
  have buf: "take (length d) ?buf = d" using assms(1) by (simp add: reader_reset_def d_def)
  then have crc: "u8SL_CalculateCRC t ?len ?buf = u8SL_CalculateCRC t ?len d"
    by (intro u8SL_CalculateCRC_take) (simp add: len)
  have "length ys \<le> length (rx_message (reader_reset r))" "length ys \<le> unat ?len"
    using assms(1) by (simp_all add: reader_reset_def len) (simp add: d_def)
  with read_frame [OF mx, of ys "reader_reset r" t "u8SL_CalculateCRC t ?len d" "[]"] crc len buf
  show ?thesis by (simp add: header_bytes_def)
qed

theorem serial_short_frame_accepted_witness:
  "\<exists>q. eSL_ReadMessage 256
       (map Some ([SL_START_CHAR] @ concat (map escape (header_bytes 0x8102 (of_nat (length ([5 :: u8] @ replicate 3 0))) ([5] @ replicate 3 0)))
                  @ concat (map escape [5]) @ [SL_END_CHAR])) (reader_reset reader_init) = (Some E_SL_OK, q, [])
     \<and> rx_type q = 0x8102 \<and> take (unat (rx_length q)) (rx_message q) = [5] @ replicate 3 0"
  by (rule serial_short_frame_accepted) (simp add: SL_MAX_MESSAGE_LENGTH_def)

text \<open>
  C31: On a stream without failed reads the only write of the reader thread outside its
  message buffer, whatever the bytes are, is the terminator of a log message that fills the
  buffer: the receiver itself never leaves it, and the thread writes one byte behind it
  exactly if a log message of 256 bytes has been received.
\<close>

theorem serial_no_overflow:
  "case reader_loop (map Some bs) reader_init of (ms, q, fault) \<Rightarrow>
     fault = (if \<exists>d. (E_SL_MSG_LOG, d) \<in> set ms \<and> length d = SL_MAX_MESSAGE_LENGTH then Some FAULT_LOG else None)"
proof -
  have "\<forall>b\<in>set (map Some bs). b \<noteq> None" by auto
  from reader_loop_fault [OF _ this, of reader_init] show ?thesis
    by (auto simp: reader_init_def split: prod.split)
qed

text \<open>
  A read that fails in the middle of the data of a message leaves the receiver able to
  overrun its buffer: the reader thread starts over with a zeroed message and the length
  \<open>0xFFFF\<close> while the static state still is \<open>E_STATE_RX_WAIT_DATA\<close>, so once the 256 bytes
  of the buffer are filled by plain bytes the next one is written behind it.
\<close>

theorem serial_gap_overflow:
  assumes "eRxState r = E_STATE_RX_WAIT_DATA" and "\<not> bInEsc r"
    and "unat (u16Bytes r) + length ds = SL_MAX_MESSAGE_LENGTH" and "\<forall>b\<in>set (ds @ [c]). 0x10 \<le> b"
  shows "snd (snd (reader_loop (map Some (ds @ [c]) @ rs) r)) = Some FAULT_DATA"
proof -
  let ?r = "reader_reset r"
  have esc: "concat (map escape bs) = bs" if "\<forall>b\<in>set bs. 0x10 \<le> b" for bs
    using that by (induction bs) (simp_all add: escape_def leD)
  let ?q = "?r\<lparr>u16Bytes := u16Bytes ?r + of_nat (length ds),
      rx_message := take (unat (u16Bytes ?r)) (rx_message ?r) @ ds @ drop (unat (u16Bytes ?r) + length ds) (rx_message ?r)\<rparr>"
  have rd: "eSL_ReadMessage 256 (map Some ds @ Some c # rs) ?r = eSL_ReadMessage 256 (Some c # rs) ?q"
    using read_payload [of ?r ds 256 "Some c # rs"] assms
    by (simp add: reader_reset_def esc SL_MAX_MESSAGE_LENGTH_def)
  have bytes: "unat (u16Bytes ?q) = 256"
  proof -
    have "u16Bytes r + of_nat (length ds) = of_nat (unat (u16Bytes r) + length ds)" by simp
    also have "\<dots> = 256" using assms(3) by (simp del: of_nat_add add: SL_MAX_MESSAGE_LENGTH_def)
    finally show ?thesis by (simp add: reader_reset_def)
  qed
  have "\<not> c < 0x10" using assms(4) by (simp add: not_less)
  from high_not_special [OF this] have "rx_byte 256 c ?q = (?q, RX_FAULT)"
    using assms bytes
    by (simp add: rx_byte_def rx_data_def reader_reset_def word_less_nat_alt SL_MAX_MESSAGE_LENGTH_def leD)
  with rd show ?thesis by (subst reader_loop.simps) (simp add: SL_MAX_MESSAGE_LENGTH_def)
qed

theorem serial_gap_overflow_witness:
  "snd (snd (reader_loop (map Some (replicate 256 0x20 @ [0x21]) @ [])
     (reader_init\<lparr>eRxState := E_STATE_RX_WAIT_DATA\<rparr>))) = Some FAULT_DATA"
  by (rule serial_gap_overflow) (auto simp: SL_MAX_MESSAGE_LENGTH_def reader_init_def)

text \<open>
  A byte the port cannot take at once is retried six times: up to six \<open>EAGAIN\<close>
  answers delay it and it is then written exactly once; a seventh ends the process.  Other
  errors during the retries are different: if they use up the attempts the byte is reported
  as sent although it never was.
\<close>

theorem serial_write_retries:
  "(\<forall>j\<le>6. eSerial_Write d \<lparr>sent = s, write_results = replicate j WR_AGAIN\<rparr>
          = Some (E_SERIAL_OK, \<lparr>sent = s @ [d], write_results = []\<rparr>))
   \<and> (\<forall>j>6. eSerial_Write d \<lparr>sent = s, write_results = replicate j WR_AGAIN\<rparr> = None)
   \<and> eSerial_Write d \<lparr>sent = s, write_results = WR_AGAIN # replicate 6 WR_ERROR\<rparr>
     = Some (E_SERIAL_OK, \<lparr>sent = s, write_results = []\<rparr>)"
proof (intro conjI allI impI)
  fix j :: nat assume "j \<le> 6"
  then show "eSerial_Write d \<lparr>sent = s, write_results = replicate j WR_AGAIN\<rparr>
          = Some (E_SERIAL_OK, \<lparr>sent = s @ [d], write_results = []\<rparr>)"
    by (cases j) (simp_all add: eSerial_Write_def sys_write_def Let_def retry_again)
next
  fix j :: nat assume "6 < j"
  then obtain i where "j = Suc i" "6 \<le> i" by (cases j) auto
  then show "eSerial_Write d \<lparr>sent = s, write_results = replicate j WR_AGAIN\<rparr> = None"
    by (simp add: eSerial_Write_def sys_write_def Let_def retry_exit)
next
  show "eSerial_Write d \<lparr>sent = s, write_results = WR_AGAIN # replicate 6 WR_ERROR\<rparr>
     = Some (E_SERIAL_OK, \<lparr>sent = s, write_results = []\<rparr>)"
    by (simp add: eSerial_Write_def sys_write_def Let_def eval_nat_numeral)
qed

theorem serial_write_retries_witness:
  "eSerial_Write 7 \<lparr>sent = [1], write_results = [WR_AGAIN, WR_AGAIN]\<rparr>
     = Some (E_SERIAL_OK, \<lparr>sent = [1, 7], write_results = []\<rparr>)"
proof -
  have "eSerial_Write 7 \<lparr>sent = [1], write_results = replicate 2 WR_AGAIN\<rparr>
      = Some (E_SERIAL_OK, \<lparr>sent = [1] @ [7], write_results = []\<rparr>)"
    using serial_write_retries [of 7 "[1]"] by (meson le_numeral_extra numeral_le_iff semiring_norm)
  then show ?thesis by (simp add: numeral_2_eq_2)
qed

end
