(* ===== verification/UtilsQueue.thy ===== *)
theory UtilsQueue
  imports IotPrelude
begin

text \<open>
  The bounded queue between threads (\<open>ZCB/Utils.c\<close>): a ring buffer under a mutex, on which
  the serial reader puts received messages for the callback thread.  The contract of a
  bounded first-in-first-out queue is a locale; the ring buffer is its instance.

  Every operation holds the mutex from its test to its update, so it is one atomic step; an
  operation that would wait on a condition variable is \<open>None\<close>, and is tried again when
  another thread has changed the queue.  A timed dequeue is a sequence of such attempts, each
  from the test of its loop to the next wait, with the answer that wait will get.
\<close>

section \<open>The contract\<close>

datatype ('a, 'w) fifo_op = Put 'a | Get 'w

text \<open>
  A schedule of attempts by any number of threads: accepted values, delivered values, and
  the queue at the end.  An attempt that would block or is refused changes nothing; what a
  \<open>Get\<close> carries is what the taker meets when there is nothing to take.
\<close>

fun fifo_run :: "('a \<Rightarrow> 'q \<Rightarrow> 'q option) \<Rightarrow> ('w \<Rightarrow> 'q \<Rightarrow> ('a \<times> 'q) option) \<Rightarrow> ('a, 'w) fifo_op list \<Rightarrow> 'q
    \<Rightarrow> 'a list \<times> 'a list \<times> 'q" where
  "fifo_run enq deq [] q = ([], [], q)"
| "fifo_run enq deq (Put x # ops) q = (case enq x q of
     None \<Rightarrow> fifo_run enq deq ops q
   | Some q1 \<Rightarrow> (case fifo_run enq deq ops q1 of (puts, gets, q2) \<Rightarrow> (x # puts, gets, q2)))"
| "fifo_run enq deq (Get w # ops) q = (case deq w q of
     None \<Rightarrow> fifo_run enq deq ops q
   | Some (x, q1) \<Rightarrow> (case fifo_run enq deq ops q1 of (puts, gets, q2) \<Rightarrow> (puts, x # gets, q2)))"

locale bounded_fifo =
  fixes enq :: "'a \<Rightarrow> 'q \<Rightarrow> 'q option"
    and deq :: "'w \<Rightarrow> 'q \<Rightarrow> ('a \<times> 'q) option"
    and items :: "'q \<Rightarrow> 'a list"
    and capacity :: "'q \<Rightarrow> nat"
    and invar :: "'q \<Rightarrow> bool"
  assumes enq_full: "invar q \<Longrightarrow> length (items q) = capacity q \<Longrightarrow> enq x q = None"
    and enq_space: "invar q \<Longrightarrow> length (items q) < capacity q \<Longrightarrow>
      \<exists>q'. enq x q = Some q' \<and> invar q' \<and> capacity q' = capacity q \<and> items q' = items q @ [x]"
    and deq_empty: "invar q \<Longrightarrow> items q = [] \<Longrightarrow> deq w q = None"
    and deq_item: "invar q \<Longrightarrow> items q = y # ys \<Longrightarrow>
      \<exists>q'. deq w q = Some (y, q') \<and> invar q' \<and> capacity q' = capacity q \<and> items q' = ys"
    and within: "invar q \<Longrightarrow> length (items q) \<le> capacity q"
begin

lemma enq_cases:
  assumes "invar q"
  obtains "enq x q = None" "length (items q) = capacity q"
  | q' where "enq x q = Some q'" "invar q'" "capacity q' = capacity q" "items q' = items q @ [x]"
  using assms enq_full [of q x] enq_space [of q x] within [of q] by (cases "length (items q) = capacity q") auto

lemma deq_cases:
  assumes "invar q"
  obtains "deq w q = None" "items q = []"
  | y q' where "deq w q = Some (y, q')" "invar q'" "capacity q' = capacity q" "items q = y # items q'"
  using assms deq_empty [of q w] deq_item [of q _ _ w] by (cases "items q") auto

text \<open>Nothing is lost, duplicated or reordered, whatever the schedule.\<close>

lemma run_order:
  "invar q \<Longrightarrow> fifo_run enq deq ops q = (puts, gets, q') \<Longrightarrow>
   items q @ puts = gets @ items q' \<and> invar q' \<and> capacity q' = capacity q"
proof (induction ops arbitrary: q q' puts gets)
  case (Cons op ops)
  show ?case
  proof (cases op)
    case (Put x)
    from Cons.prems(1) show ?thesis
    proof (cases rule: enq_cases [of q x])
      case (2 q1)
      obtain p g q2 where r: "fifo_run enq deq ops q1 = (p, g, q2)" by (cases "fifo_run enq deq ops q1")
      with Cons.prems(2) 2 Put have "puts = x # p" "gets = g" "q' = q2" by simp_all
      with Cons.IH [OF 2(2) r] 2 show ?thesis by simp
    qed (use Cons Put in simp)
  next
    case (Get w)
    from Cons.prems(1) show ?thesis
    proof (cases rule: deq_cases [of q w])
      case 1
      with Cons.IH [of q puts gets q'] Cons.prems Get show ?thesis by simp
    next
      case (2 y q1)
      obtain p g q2 where r: "fifo_run enq deq ops q1 = (p, g, q2)" by (cases "fifo_run enq deq ops q1")
      with Cons.prems(2) 2 Get have "puts = p" "gets = y # g" "q' = q2" by simp_all
      with Cons.IH [OF 2(2) r] 2 show ?thesis by simp
    qed
  qed
qed simp

lemma run_backlog:
  assumes "invar q" and "items q = []" and "fifo_run enq deq ops q = (puts, gets, q')"
  shows "(\<exists>rest. puts = gets @ rest \<and> length rest \<le> capacity q)"
  using run_order [OF assms(1,3)] within [of q'] assms(2) by auto

end

section \<open>The ring buffer\<close>

datatype teUtilsStatus =
    E_UTILS_OK | E_UTILS_ERROR_FAILED | E_UTILS_ERROR_TIMEOUT | E_UTILS_ERROR_NO_MEM
  | E_UTILS_ERROR_BUSY | E_UTILS_ERROR_BLOCK

record 'a tsQueuePrivate =
  apvBuffer :: "'a option list"
  u32Capacity :: u32
  u32Size :: u32
  u32In :: u32
  u32Out :: u32
  nonblock_input :: bool
  nonblock_output :: bool

text \<open>The flag says whether the two allocations succeed.\<close>

definition eUtils_QueueCreate ::
  "bool \<Rightarrow> u32 \<Rightarrow> bool \<Rightarrow> bool \<Rightarrow> teUtilsStatus + 'a tsQueuePrivate" where
  "eUtils_QueueCreate mem u32MaxCapacity nb_in nb_out =
     (if \<not> mem then Inl E_UTILS_ERROR_NO_MEM
      else Inr \<lparr>apvBuffer = replicate (unat u32MaxCapacity) None, u32Capacity = u32MaxCapacity, u32Size = 0,
                u32In = 0, u32Out = 0, nonblock_input = nb_in, nonblock_output = nb_out\<rparr>)"

definition uq_store :: "'a \<Rightarrow> 'a tsQueuePrivate \<Rightarrow> 'a tsQueuePrivate" where
  "uq_store x q = q\<lparr>apvBuffer := (apvBuffer q)[unat (u32In q) := Some x], u32Size := u32Size q + 1,
                   u32In := (u32In q + 1) mod u32Capacity q\<rparr>"

definition uq_fetch :: "'a tsQueuePrivate \<Rightarrow> 'a option \<times> 'a tsQueuePrivate" where
  "uq_fetch q = (apvBuffer q ! unat (u32Out q),
                 q\<lparr>u32Size := u32Size q - 1, u32Out := (u32Out q + 1) mod u32Capacity q\<rparr>)"

definition eUtils_QueueQueue :: "'a \<Rightarrow> 'a tsQueuePrivate \<Rightarrow> (teUtilsStatus \<times> 'a tsQueuePrivate) option" where
  "eUtils_QueueQueue pvData q =
     (if u32Size q = u32Capacity q then
        (if nonblock_input q then Some (E_UTILS_ERROR_BLOCK, q) else None)
      else Some (E_UTILS_OK, uq_store pvData q))"

definition eUtils_QueueDequeue ::
  "'a tsQueuePrivate \<Rightarrow> (teUtilsStatus \<times> 'a option \<times> 'a tsQueuePrivate) option" where
  "eUtils_QueueDequeue q =
     (if u32Size q = 0 then
        (if nonblock_output q then Some (E_UTILS_ERROR_BLOCK, None, q) else None)
      else (case uq_fetch q of (d, q') \<Rightarrow> Some (E_UTILS_OK, d, q')))"

text \<open>
  The timed wait: the script gives the answers of \<open>pthread_cond_timedwait\<close> with the queue
  as the other threads have left it; while the script lasts the loop goes on.
\<close>

datatype wait_result = WAIT_SIGNALLED | WAIT_TIMEDOUT | WAIT_FAILED

fun eUtils_QueueDequeueTimed :: "(wait_result \<times> 'a tsQueuePrivate) list \<Rightarrow> 'a tsQueuePrivate
    \<Rightarrow> (teUtilsStatus \<times> 'a option \<times> 'a tsQueuePrivate) option" where
  "eUtils_QueueDequeueTimed script q =
     (if u32Size q = 0 then
        (case script of
           [] \<Rightarrow> None
         | (WAIT_SIGNALLED, q') # rest \<Rightarrow> eUtils_QueueDequeueTimed rest q'
         | (WAIT_TIMEDOUT, q') # rest \<Rightarrow> Some (E_UTILS_ERROR_TIMEOUT, None, q')
         | (WAIT_FAILED, q') # rest \<Rightarrow> Some (E_UTILS_ERROR_FAILED, None, q'))
      else (case uq_fetch q of (d, q') \<Rightarrow> Some (E_UTILS_OK, d, q')))"

declare eUtils_QueueDequeueTimed.simps [simp del]

text \<open>
  The absolute deadline of a timed wait, as seconds and nanoseconds; the same computation
  is in \<open>eSL_MessageWait\<close>.
\<close>

definition wait_deadline :: "nat \<Rightarrow> nat \<Rightarrow> nat \<Rightarrow> nat \<times> nat" where
  "wait_deadline now_sec now_usec ms =
     (let sec = now_sec + ms div 1000;
          nsec = (now_usec + (ms mod 1000) * 1000) * 1000
      in if nsec > 1000000000 then (sec + 1, nsec - 1000000000) else (sec, nsec))"

definition u32AtomicAdd :: "u32 \<Rightarrow> u32 \<Rightarrow> u32 \<times> u32" where
  "u32AtomicAdd v u32Operand = (v + u32Operand, v + u32Operand)"

section \<open>The abstract queue\<close>

definition uq_items :: "'a tsQueuePrivate \<Rightarrow> 'a list" where
  "uq_items q = map (\<lambda>j. the (apvBuffer q ! ((unat (u32Out q) + j) mod unat (u32Capacity q)))) [0..<unat (u32Size q)]"

definition uq_invar :: "'a tsQueuePrivate \<Rightarrow> bool" where
  "uq_invar q \<longleftrightarrow>
     (let c = unat (u32Capacity q); n = unat (u32Size q) in
      0 < c \<and> length (apvBuffer q) = c \<and> n \<le> c \<and> unat (u32Out q) < c
      \<and> unat (u32In q) = (unat (u32Out q) + n) mod c
      \<and> (\<forall>j<n. apvBuffer q ! ((unat (u32Out q) + j) mod c) \<noteq> None))"

definition uq_enq :: "'a \<Rightarrow> 'a tsQueuePrivate \<Rightarrow> 'a tsQueuePrivate option" where
  "uq_enq x q = (case eUtils_QueueQueue x q of Some (E_UTILS_OK, q') \<Rightarrow> Some q' | _ \<Rightarrow> None)"

text \<open>
  One attempt of the timed dequeue, the operation the callback thread runs: the test of the
  loop and, when the queue is empty, the wait that ends with \<open>w\<close>; a signalled wait is
  followed by another attempt.  The untimed dequeue takes the same value.
\<close>

definition uq_deq :: "wait_result \<Rightarrow> 'a tsQueuePrivate \<Rightarrow> ('a \<times> 'a tsQueuePrivate) option" where
  "uq_deq w q = (case eUtils_QueueDequeueTimed [(w, q)] q of
     Some (E_UTILS_OK, Some d, q') \<Rightarrow> Some (d, q') | _ \<Rightarrow> None)"

lemma dequeue_timed_attempts:
  "eUtils_QueueDequeueTimed ((w, q1) # rest) q = (case eUtils_QueueDequeueTimed [(w, q)] q of
     None \<Rightarrow> eUtils_QueueDequeueTimed rest q1
   | Some (st, d, q') \<Rightarrow> Some (st, d, if st = E_UTILS_OK then q' else q1))"
  by (cases w) (simp_all add: eUtils_QueueDequeueTimed.simps [of "_ # _" q] eUtils_QueueDequeueTimed.simps [of "[]" q]
      split_beta)

lemma dequeue_untimed:
  "u32Size q \<noteq> 0 \<Longrightarrow> eUtils_QueueDequeue q = eUtils_QueueDequeueTimed script q"
  by (simp add: eUtils_QueueDequeue_def eUtils_QueueDequeueTimed.simps [of script q])

lemma uq_deq_eq:
  "uq_deq w q = (if u32Size q = 0 then None else case uq_fetch q of (d, q') \<Rightarrow> map_option (\<lambda>x. (x, q')) d)"
  by (cases w) (auto simp: uq_deq_def eUtils_QueueDequeueTimed.simps [of "[_]" q] eUtils_QueueDequeueTimed.simps [of "[]" q]
      split_beta split: option.splits)

lemma mod_shift_inject:
  assumes "i < c" and "j < c" and "(k + i) mod c = (k + j) mod (c :: nat)"
  shows "i = j"
proof -
  have *: "i' = j'" if le: "i' \<le> j'" and lt: "j' < c" and eq: "(k + j') mod c = (k + i') mod c" for i' j'
  proof -
    have "c dvd (k + j') - (k + i')" using eq le by (simp add: mod_eq_dvd_iff_nat)
    then have "c dvd j' - i'" by simp
    moreover have "j' - i' < c" using lt by simp
    ultimately show ?thesis using le by (auto dest: dvd_imp_le)
  qed
  show ?thesis using * [of i j] * [of j i] assms by (cases "i \<le> j") auto
qed

lemma unat_inc: "unat (w :: u32) < unat (c :: u32) \<Longrightarrow> unat (w + 1) = Suc (unat w)"
proof -
  assume "unat w < unat c"
  moreover have "unat c < 4294967296" using unsigned_less [of c] by simp
  ultimately show ?thesis by (simp add: unat_word_ariths)
qed

lemma unat_inc_mod: "unat (w :: u32) < unat (c :: u32) \<Longrightarrow> unat ((w + 1) mod c) = Suc (unat w) mod unat c"
  by (simp add: unat_mod unat_inc)

lemma unat_dec: "0 < unat (w :: u32) \<Longrightarrow> unat (w - 1) = unat w - 1"
  by (metis unat_gt_0 unat_minus_one)

lemma uq_store_items:
  assumes "uq_invar q" and "u32Size q \<noteq> u32Capacity q"
  shows "uq_invar (uq_store x q) \<and> uq_items (uq_store x q) = uq_items q @ [x]"
proof -
  let ?c = "unat (u32Capacity q)" and ?n = "unat (u32Size q)" and ?o = "unat (u32Out q)"
  have inv: "length (apvBuffer q) = ?c" "?o < ?c" "unat (u32In q) = (?o + ?n) mod ?c"
    "\<forall>j<?n. apvBuffer q ! ((?o + j) mod ?c) \<noteq> None" "?n \<le> ?c"
    using assms(1) by (simp_all add: uq_invar_def Let_def)
  have n: "?n < ?c" using inv(5) assms(2) by (metis le_neq_implies_less word_unat_eq_iff)
  have size: "unat (u32Size q + 1) = Suc ?n" using n by (rule unat_inc)
  have "unat (u32In q) < ?c" using inv(2,3) by (metis mod_less_divisor gr_implies_not0 not_gr_zero)
  then have in_next: "unat ((u32In q + 1) mod u32Capacity q) = (?o + Suc ?n) mod ?c"
    by (simp add: unat_inc_mod inv(3) mod_Suc_eq)
  have buf: "(apvBuffer q)[(?o + ?n) mod ?c := Some x] ! ((?o + j) mod ?c)
      = (if j = ?n then Some x else apvBuffer q ! ((?o + j) mod ?c))" if "j < ?c" for j
  proof -
    have "(?o + ?n) mod ?c = (?o + j) mod ?c \<longleftrightarrow> j = ?n"
      using mod_shift_inject [of j ?c ?n ?o] that n by auto
    moreover have "(?o + ?n) mod ?c < ?c" using inv(2) by auto
    ultimately show ?thesis using inv(1) by (auto simp: nth_list_update)
  qed
  have "uq_items (uq_store x q) = uq_items q @ [x]"
    using n by (auto simp: uq_items_def uq_store_def size inv(3) buf)
  moreover have "uq_invar (uq_store x q)"
    using n inv(1,2,4,5) in_next by (auto simp: uq_invar_def Let_def uq_store_def size inv(3) buf less_Suc_eq)
  ultimately show ?thesis by simp
qed

lemma uq_fetch_items:
  assumes "uq_invar q" and "u32Size q \<noteq> 0"
  shows "\<exists>y q'. uq_fetch q = (Some y, q') \<and> uq_invar q' \<and> uq_items q = y # uq_items q'
       \<and> u32Capacity q' = u32Capacity q"
proof -
  let ?c = "unat (u32Capacity q)" and ?n = "unat (u32Size q)" and ?o = "unat (u32Out q)"
  have inv: "length (apvBuffer q) = ?c" "?o < ?c" "unat (u32In q) = (?o + ?n) mod ?c"
    "\<forall>j<?n. apvBuffer q ! ((?o + j) mod ?c) \<noteq> None" "?n \<le> ?c"
    using assms(1) by (simp_all add: uq_invar_def Let_def)
  have n: "0 < ?n" using assms(2) by (simp add: unat_gt_0)
  then obtain m where m: "?n = Suc m" by (cases ?n) auto
  have size: "unat (u32Size q - 1) = m" using unat_dec [OF n] m by simp
  have out: "unat ((u32Out q + 1) mod u32Capacity q) = Suc ?o mod ?c"
    using inv(2) by (rule unat_inc_mod)
  have shift: "(Suc ?o mod ?c + j) mod ?c = (?o + Suc j) mod ?c" for j
    by (simp add: mod_add_left_eq)
  from inv(4) m inv(2) obtain y where y: "apvBuffer q ! ?o = Some y"
    by (metis add.right_neutral mod_less n not_Some_eq)
  let ?q = "snd (uq_fetch q)"
  have "uq_items q = y # uq_items ?q"
    using inv(2) y by (simp add: uq_items_def uq_fetch_def size out shift m upt_conv_Cons map_Suc_upt [symmetric] del: upt_Suc)
  moreover have "uq_invar ?q"
    using inv m n by (auto simp: uq_invar_def Let_def uq_fetch_def size out shift)
  moreover have "fst (uq_fetch q) = Some y" "u32Capacity ?q = u32Capacity q" using y by (simp_all add: uq_fetch_def)
  ultimately show ?thesis by (metis prod.collapse)
qed

lemma length_uq_items [simp]: "length (uq_items q) = unat (u32Size q)"
  by (simp add: uq_items_def)

lemma uq_full: "length (uq_items q) = unat (u32Capacity q) \<longleftrightarrow> u32Size q = u32Capacity q"
  by (metis length_uq_items word_unat_eq_iff)

interpretation uq: bounded_fifo uq_enq uq_deq uq_items "\<lambda>q. unat (u32Capacity q)" uq_invar
proof unfold_locales
  fix q :: "'a tsQueuePrivate" and x :: 'a
  assume inv: "uq_invar q"
  show "length (uq_items q) = unat (u32Capacity q) \<Longrightarrow> uq_enq x q = None"
    using uq_full [of q] by (simp add: uq_enq_def eUtils_QueueQueue_def del: length_uq_items)
  show "length (uq_items q) < unat (u32Capacity q) \<Longrightarrow>
      \<exists>q'. uq_enq x q = Some q' \<and> uq_invar q' \<and> unat (u32Capacity q') = unat (u32Capacity q) \<and> uq_items q' = uq_items q @ [x]"
    using uq_store_items [OF inv, of x]
    by (auto simp: uq_enq_def eUtils_QueueQueue_def) (simp add: uq_store_def)
  show "length (uq_items q) \<le> unat (u32Capacity q)"
    using inv by (simp add: uq_invar_def Let_def)
  show "uq_items q = [] \<Longrightarrow> uq_deq w q = None" for w
    by (simp add: uq_deq_eq uq_items_def unat_eq_0)
  show "\<exists>q'. uq_deq w q = Some (y, q') \<and> uq_invar q' \<and> unat (u32Capacity q') = unat (u32Capacity q) \<and> uq_items q' = ys"
    if items: "uq_items q = y # ys" for y ys w
  proof -
    have "u32Size q \<noteq> 0" using items length_uq_items [of q] by auto
    with uq_fetch_items [OF inv] items show ?thesis
      by (auto simp: uq_deq_eq)
  qed
qed

lemma uq_create_invar:
  "u32MaxCapacity \<noteq> 0 \<Longrightarrow> eUtils_QueueCreate True u32MaxCapacity a b = Inr q \<Longrightarrow>
   uq_invar q \<and> uq_items q = [] \<and> u32Capacity q = u32MaxCapacity"
  by (auto simp: eUtils_QueueCreate_def uq_invar_def uq_items_def Let_def unat_gt_0)

lemma replicate_two: "replicate 2 x = [x, x]"
  by (simp add: numeral_2_eq_2)

section \<open>Properties\<close>

text \<open>
  C12: The queue between the serial reader and the callback thread is a bounded first-in
  first-out queue under every schedule of the attempts to queue a value and of the attempts
  (tests and waits, signalled, timed out or failed) of the timed dequeue by which
  the callback thread takes values: the values delivered are those accepted, in the order of
  acceptance, without loss or repetition, and never more values are outstanding
  than the capacity it was created with.
\<close>

theorem utils_queue_fifo:
  assumes "u32MaxCapacity \<noteq> 0" and "eUtils_QueueCreate True u32MaxCapacity nb_in nb_out = Inr q"
    and "fifo_run uq_enq uq_deq ops q = (puts, gets, q')"
  shows "\<exists>outstanding. puts = gets @ outstanding \<and> length outstanding \<le> unat u32MaxCapacity"
  using uq.run_backlog [OF _ _ assms(3)] uq_create_invar [OF assms(1,2)] by simp

theorem utils_queue_fifo_witness:
  "\<exists>outstanding. [1, 2, 4 :: nat] = [1] @ outstanding \<and> length outstanding \<le> unat (2 :: u32)"
  by (rule utils_queue_fifo [of 2 True True
      "\<lparr>apvBuffer = [None, None], u32Capacity = 2, u32Size = 0, u32In = 0, u32Out = 0,
        nonblock_input = True, nonblock_output = True\<rparr>"
      "[Get WAIT_TIMEDOUT, Put 1, Put 2, Put 3, Get WAIT_SIGNALLED, Put 4]" "[1, 2, 4]" "[1]"
      "\<lparr>apvBuffer = [Some 4, Some 2], u32Capacity = 2, u32Size = 2, u32In = 1, u32Out = 1,
        nonblock_input = True, nonblock_output = True\<rparr>"])
    (simp_all add: eUtils_QueueCreate_def uq_enq_def uq_deq_eq eUtils_QueueQueue_def
      uq_store_def uq_fetch_def replicate_two)

text \<open>
  The timed dequeue gives the oldest value whenever it reports success, however often
  it was woken, leaving the other values in order, and a time-out or failure leaves the
  queue as it is.
\<close>

theorem dequeue_timed_result:
  assumes "eUtils_QueueDequeueTimed script q = Some (st, d, q')"
    and "uq_invar q" and "\<forall>(w, q1)\<in>set script. uq_invar q1"
  shows "(st = E_UTILS_OK \<and> uq_invar q'
           \<and> (\<exists>y q1. d = Some y \<and> q1 \<in> {q} \<union> snd ` set script \<and> uq_items q1 = y # uq_items q'))
       \<or> ((st = E_UTILS_ERROR_TIMEOUT \<or> st = E_UTILS_ERROR_FAILED) \<and> d = None \<and> q' \<in> snd ` set script)"
  using assms
proof (induction script q rule: eUtils_QueueDequeueTimed.induct)
  case (1 script q)
  show ?case
  proof (cases "u32Size q = 0")
    case False
    with uq_fetch_items [OF "1.prems"(2)] "1.prems"(1) show ?thesis
      by (fastforce simp: eUtils_QueueDequeueTimed.simps [of script q])
  next
    case True
    show ?thesis
    proof (cases script)
      case Nil
      with True "1.prems"(1) show ?thesis by (simp add: eUtils_QueueDequeueTimed.simps [of "[]" q])
    next
      case (Cons w rest)
      obtain r q1 where w: "w = (r, q1)" by (cases w)
      show ?thesis
      proof (cases r)
        case WAIT_SIGNALLED
        have run: "eUtils_QueueDequeueTimed rest q1 = Some (st, d, q')"
          using "1.prems"(1) True unfolding Cons w WAIT_SIGNALLED
        by (simp add: eUtils_QueueDequeueTimed.simps [of "_ # _" q])
        have inv: "uq_invar q1" "\<forall>(w, q1)\<in>set rest. uq_invar q1" using "1.prems"(3) by (auto simp: Cons w)
        have sub: "{q1} \<union> snd ` set rest \<subseteq> {q} \<union> snd ` set script" "snd ` set rest \<subseteq> snd ` set script"
          by (auto simp: Cons w)
        show ?thesis
          by (rule disj_forward [OF "1.IH" [OF True Cons w [symmetric] WAIT_SIGNALLED run inv]])
             (elim conjE exE, intro conjI exI, (assumption | erule subsetD [OF sub(1)] subsetD [OF sub(2)])+)+
      qed (use "1.prems"(1) True Cons w in \<open>auto simp: eUtils_QueueDequeueTimed.simps [of "_ # _" q]\<close>)
    qed
  qed
qed

text \<open>
  The absolute deadline of the timed waits is exact, and its nanoseconds are
  normalised with one boundary case missed: they are exactly one second (which
  \<open>pthread_cond_timedwait\<close> refuses) when the microseconds of the clock and of the timeout
  add up to one million.
\<close>

theorem wait_deadline_exact:
  assumes "usec < 1000000" and "wait_deadline sec usec ms = (s, ns)"
  shows "s * 1000000000 + ns = sec * 1000000000 + usec * 1000 + ms * 1000000
       \<and> ns \<le> 1000000000 \<and> (ns = 1000000000 \<longleftrightarrow> usec + (ms mod 1000) * 1000 = 1000000)"
proof -
  let ?n = "(usec + (ms mod 1000) * 1000) * 1000"
  obtain a b where ab: "ms div 1000 = a" "ms mod 1000 = b" by simp
  then have "ms = a * 1000 + b" by auto
  then have ms: "ms * 1000000 = (ms div 1000) * 1000000000 + (ms mod 1000) * 1000000"
    unfolding ab by simp
  have "ms mod 1000 \<le> 999" using mod_less_divisor [of 1000 ms] by linarith
  then have n: "?n < 2000000000" using assms(1) by simp
  have total: "sec * 1000000000 + usec * 1000 + ms * 1000000 = (sec + ms div 1000) * 1000000000 + ?n"
    using ms by (simp add: algebra_simps)
  show ?thesis
  proof (cases "?n > 1000000000")
    case True
    then have "s = sec + ms div 1000 + 1" "ns = ?n - 1000000000"
      using assms(2) by (simp_all add: wait_deadline_def Let_def)
    with True n total show ?thesis by (simp add: algebra_simps) linarith
  next
    case False
    then have "s = sec + ms div 1000" "ns = ?n"
      using assms(2) by (simp_all add: wait_deadline_def Let_def)
    with False total show ?thesis by (simp add: algebra_simps) linarith
  qed
qed

theorem wait_deadline_exact_witness:
  "(1700000001 :: nat) * 1000000000 + 499999000 = 1700000000 * 1000000000 + 999999 * 1000 + 500 * 1000000"
  using wait_deadline_exact [of 999999 1700000000 500 1700000001 499999000]
  by (simp add: wait_deadline_def)

definition demo_queue :: "nat tsQueuePrivate" where
  "demo_queue = \<lparr>apvBuffer = [Some 5, None], u32Capacity = 2, u32Size = 1, u32In = 1, u32Out = 0,
     nonblock_input = False, nonblock_output = False\<rparr>"

theorem dequeue_timed_result_witness:
  "eUtils_QueueDequeueTimed [(WAIT_SIGNALLED, demo_queue)]
       (demo_queue\<lparr>apvBuffer := [None, None], u32Size := 0, u32In := 0\<rparr>)
     = Some (E_UTILS_OK, Some 5, demo_queue\<lparr>u32Size := 0, u32Out := 1\<rparr>)
   \<and> uq_invar (demo_queue\<lparr>u32Size := 0, u32Out := 1\<rparr>)"
proof -
  have empty: "uq_invar (demo_queue\<lparr>apvBuffer := [None, None], u32Size := 0, u32In := 0\<rparr>)"
    by (simp add: uq_invar_def demo_queue_def Let_def)
  have "uq_invar demo_queue" by (simp add: uq_invar_def demo_queue_def Let_def)
  with empty show ?thesis
    using dequeue_timed_result [of "[(WAIT_SIGNALLED, demo_queue)]"
        "demo_queue\<lparr>apvBuffer := [None, None], u32Size := 0, u32In := 0\<rparr>"
        E_UTILS_OK "Some 5" "demo_queue\<lparr>u32Size := 0, u32Out := 1\<rparr>"]
    by (simp add: eUtils_QueueDequeueTimed.simps uq_fetch_def demo_queue_def)
qed

end
