(* ===== verification/SerialLink.thy ===== *)
theory SerialLink
  imports SerialFrame UtilsQueue
begin

text \<open>
  The upper half of \<open>ZCB/SerialLink.c\<close>: the three slots in which threads wait for a message
  of the bridge, the request/status protocol of \<open>eSL_SendMessage\<close>, the listener list, and
  what the reader thread does with a received message.

  Each slot has its own mutex, held from the test of the slot to its update, and
  \<open>pthread_cond_timedwait\<close> releases it; claiming a slot, delivering a message and ending a
  wait are the atomic steps.  The host is little-endian, so a \<open>uint16_t\<close> read directly from
  a received message has its bytes swapped.
\<close>

definition E_SL_MSG_STATUS :: u16 where "E_SL_MSG_STATUS = 0x8000"
definition SL_MAX_MESSAGE_QUEUES :: nat where "SL_MAX_MESSAGE_QUEUES = 3"
definition SL_MAX_CALLBACK_QUEUES :: u32 where "SL_MAX_CALLBACK_QUEUES = 3"

definition eSL_PrintError :: "teSL_Status \<Rightarrow> string" where
  "eSL_PrintError eStatus = (case eStatus of
     E_SL_OK \<Rightarrow> ''E_SL_OK'' | E_SL_ERROR \<Rightarrow> ''E_SL_ERROR'' | E_SL_NOMESSAGE \<Rightarrow> ''E_SL_NOMESSAGE''
   | E_SL_ERROR_SERIAL \<Rightarrow> ''E_SL_ERROR_SERIAL'' | E_SL_ERROR_NOMEM \<Rightarrow> ''E_SL_ERROR_NOMEM''
   | E_SL_STACK b \<Rightarrow> ''...'')"

text \<open>
  The status byte of the bridge is stored in the same type as the link's own codes, so its
  values one to four read as the link's errors.
\<close>

definition status_of_byte :: "u8 \<Rightarrow> teSL_Status" where
  "status_of_byte b =
     (if b = 0 then E_SL_OK else if b = 1 then E_SL_ERROR else if b = 2 then E_SL_NOMESSAGE
      else if b = 3 then E_SL_ERROR_SERIAL else if b = 4 then E_SL_ERROR_NOMEM else E_SL_STACK b)"

text \<open>Calls that may block for ever, or whose effect C leaves undefined.\<close>

datatype 'a sl_result = Done 'a | Hangs | Undefined

section \<open>The message slots\<close>

text \<open>
  The message pointer of a slot: null, the waiting thread's own status structure with the
  request type it waits for, or the copy of a received message.
\<close>

datatype slot_msg = MSG_NULL | MSG_WAITER u16 | MSG_COPY "u8 list"

record slot =
  s_type :: u16
  s_length :: u16
  s_msg :: slot_msg
  s_locked :: bool

definition slots_init :: "slot list" where
  "slots_init = replicate SL_MAX_MESSAGE_QUEUES
     \<lparr>s_type = 0, s_length = 0, s_msg = MSG_NULL, s_locked = False\<rparr>"

text \<open>
  The first half of \<open>eSL_MessageWait\<close>, up to the wait: the slot taken, or none free.  A slot
  whose mutex was never released stops the thread.
\<close>

fun eSL_MessageWait_claim :: "u16 \<Rightarrow> slot_msg \<Rightarrow> slot list \<Rightarrow> (nat \<times> slot list) option sl_result" where
  "eSL_MessageWait_claim u16Type pvMessage [] = Done None"
| "eSL_MessageWait_claim u16Type pvMessage (s # ss) =
     (if s_locked s then Hangs
      else if s_type s = 0 then
        Done (Some (0, s\<lparr>s_type := u16Type,
                         s_msg := (if u16Type = E_SL_MSG_STATUS then pvMessage else s_msg s)\<rparr> # ss))
      else (case eSL_MessageWait_claim u16Type pvMessage ss of
              Done (Some (i, ss')) \<Rightarrow> Done (Some (Suc i, s # ss'))
            | r \<Rightarrow> r))"

text \<open>
  The second half, with the answer of the wait.  \<open>pthread_cond_timedwait\<close> takes the mutex
  of the slot again before it returns, also after a time-out.
\<close>

definition eSL_MessageWait_finish ::
  "wait_result \<Rightarrow> nat \<Rightarrow> slot list \<Rightarrow> ((teSL_Status \<times> (u16 \<times> slot_msg) option) \<times> slot list) sl_result" where
  "eSL_MessageWait_finish w i ss =
     (if s_locked (ss ! i) then Hangs
      else Done
       ((case w of
           WAIT_SIGNALLED \<Rightarrow> (E_SL_OK, Some (s_length (ss ! i), s_msg (ss ! i)))
         | WAIT_TIMEDOUT \<Rightarrow> (E_SL_NOMESSAGE, None)
         | WAIT_FAILED \<Rightarrow> (E_SL_ERROR, None)),
        ss[i := (ss ! i)\<lparr>s_type := 0\<rparr>]))"

text \<open>
  Whether a status message is for the waiter of a slot.  \<open>None\<close> is a read behind a stored
  copy that is shorter than a status header.
\<close>

definition status_for :: "slot \<Rightarrow> u8 list \<Rightarrow> bool option" where
  "status_for s buf = (case s_msg s of
     MSG_NULL \<Rightarrow> Some True
   | MSG_WAITER t \<Rightarrow> Some (t = unbe16 (buf ! 2) (buf ! 3))
   | MSG_COPY bs \<Rightarrow> (if 4 \<le> length bs then Some (unbe16 (bs ! 3) (bs ! 2) = unbe16 (buf ! 2) (buf ! 3))
                     else None))"

text \<open>
  \<open>eSL_MessageQueue\<close>; the flag is the outcome of the allocation.  The failure path returns
  with the mutex of the slot still locked.
\<close>

fun eSL_MessageQueue :: "bool \<Rightarrow> u16 \<Rightarrow> u16 \<Rightarrow> u8 list \<Rightarrow> slot list \<Rightarrow> (teSL_Status \<times> slot list) sl_result" where
  "eSL_MessageQueue mem u16Type u16Length buf [] = Done (E_SL_NOMESSAGE, [])"
| "eSL_MessageQueue mem u16Type u16Length buf (s # ss) =
     (let skip = (case eSL_MessageQueue mem u16Type u16Length buf ss of
                    Done (st, ss') \<Rightarrow> Done (st, s # ss') | Hangs \<Rightarrow> Hangs | Undefined \<Rightarrow> Undefined)
      in if s_locked s then Hangs
         else if s_type s = u16Type then
           (case (if u16Type = E_SL_MSG_STATUS then status_for s buf else Some True) of
              None \<Rightarrow> Undefined
            | Some False \<Rightarrow> skip
            | Some True \<Rightarrow>
                if \<not> mem then Done (E_SL_ERROR_NOMEM, s\<lparr>s_locked := True\<rparr> # ss)
                else Done (E_SL_OK, s\<lparr>s_length := u16Length, s_msg := MSG_COPY (take (unat u16Length) buf)\<rparr> # ss))
         else skip)"

section \<open>Requests\<close>

text \<open>
  What \<open>eSL_SendMessage\<close> makes of the end of its wait: the status of the bridge and, on
  success, the sequence number.  A signal without a message (the shutdown of the reader)
  or one that finds its own structure is undefined: the code frees or reads through the
  pointer.
\<close>

definition send_result :: "teSL_Status \<times> (u16 \<times> slot_msg) option \<Rightarrow> (teSL_Status \<times> u8 option) sl_result" where
  "send_result r = (case r of
     (st, Some (len, MSG_COPY bs)) \<Rightarrow>
       if st = E_SL_OK then
         (if 2 \<le> length bs then
            Done (status_of_byte (bs ! 0), if status_of_byte (bs ! 0) = E_SL_OK then Some (bs ! 1) else None)
          else Undefined)
       else Done (st, None)
   | (st, _) \<Rightarrow> if st = E_SL_OK then Undefined else Done (st, None))"

text \<open>
  \<open>eSL_SendMessage\<close>: write the request, claim a slot for its status, wait.  \<open>meanwhile\<close> is
  what the other threads do to the slots until the wait ends with answer \<open>w\<close>.
\<close>

definition eSL_SendMessage ::
  "u16 \<Rightarrow> u8 list \<Rightarrow> (slot list \<Rightarrow> slot list sl_result) \<Rightarrow> wait_result \<Rightarrow> port \<Rightarrow> slot list
   \<Rightarrow> ((teSL_Status \<times> u8 option) \<times> port \<times> slot list) sl_result option" where
  "eSL_SendMessage u16Type payload meanwhile w p ss =
     (case eSL_WriteMessage u16Type (of_nat (length payload)) payload p of
        None \<Rightarrow> None
      | Some (st, p1) \<Rightarrow> Some
         (if st \<noteq> E_SL_OK then Done ((st, None), p1, ss)
          else (case eSL_MessageWait_claim E_SL_MSG_STATUS (MSG_WAITER u16Type) ss of
              Hangs \<Rightarrow> Hangs
            | Undefined \<Rightarrow> Undefined
            | Done None \<Rightarrow> Done ((E_SL_ERROR, None), p1, ss)
            | Done (Some (i, ss1)) \<Rightarrow> (case meanwhile ss1 of
                Hangs \<Rightarrow> Hangs
              | Undefined \<Rightarrow> Undefined
              | Done ss2 \<Rightarrow> (case eSL_MessageWait_finish w i ss2 of
                  Hangs \<Rightarrow> Hangs
                | Undefined \<Rightarrow> Undefined
                | Done (r, ss3) \<Rightarrow>
                    (case send_result r of
                       Hangs \<Rightarrow> Hangs
                     | Undefined \<Rightarrow> Undefined
                     | Done res \<Rightarrow> Done (res, p1, ss3)))))))"

definition eSL_SendMessageNoWait :: "u16 \<Rightarrow> u8 list \<Rightarrow> port \<Rightarrow> (teSL_Status \<times> port) option" where
  "eSL_SendMessageNoWait u16Type payload p = eSL_WriteMessage u16Type (of_nat (length payload)) payload p"

text \<open>
  The reader thread offering one message to the waiting threads once; the flag is the outcome of
  the allocation of the copy.
\<close>

definition deliver :: "bool \<Rightarrow> u16 \<Rightarrow> u8 list \<Rightarrow> slot list \<Rightarrow> slot list sl_result" where
  "deliver mem t d ss =
     (case eSL_MessageQueue mem t (of_nat (length d)) (d @ replicate (SL_MAX_MESSAGE_LENGTH - length d) 0) ss of
        Done (st, ss') \<Rightarrow> Done ss' | Hangs \<Rightarrow> Hangs | Undefined \<Rightarrow> Undefined)"

section \<open>Listeners\<close>

record listener =
  l_type :: u16
  l_callback :: nat
  l_user :: nat

definition eSL_AddListener :: "bool \<Rightarrow> listener \<Rightarrow> listener list \<Rightarrow> teSL_Status \<times> listener list" where
  "eSL_AddListener mem l ls = (if mem then (E_SL_OK, ls @ [l]) else (E_SL_ERROR_NOMEM, ls))"

text \<open>
  The search loop of \<open>eSL_RemoveListener\<close> behind the head, which tests the entry behind
  \<open>psCurrentEntry\<close> and never advances it: \<open>None\<close> is a loop that never ends.
\<close>

partial_function (option) remove_loop :: "nat \<Rightarrow> listener list \<Rightarrow> (listener list \<times> bool) option" where
  "remove_loop cb rest = (case rest of
     [] \<Rightarrow> Some ([], False)
   | l # ls \<Rightarrow> if l_callback l = cb then Some (ls, True) else remove_loop cb rest)"

definition eSL_RemoveListener ::
  "u16 \<Rightarrow> nat \<Rightarrow> listener list \<Rightarrow> (teSL_Status \<times> listener list) sl_result" where
  "eSL_RemoveListener u16Type cb ls = (case ls of
     [] \<Rightarrow> Undefined
   | l # rest \<Rightarrow>
       if l_callback l = cb then Done (E_SL_OK, rest)
       else (case remove_loop cb rest of
               None \<Rightarrow> Hangs
             | Some (rest', found) \<Rightarrow> Done (if found then E_SL_OK else E_SL_ERROR, l # rest')))"

text \<open>The loop of \<open>eSL_Destroy\<close>, each time removing by the callback of the head.\<close>

fun destroy_listeners :: "nat \<Rightarrow> listener list \<Rightarrow> listener list sl_result" where
  "destroy_listeners 0 ls = (if ls = [] then Done [] else Hangs)"
| "destroy_listeners (Suc n) ls = (case ls of
     [] \<Rightarrow> Done []
   | l # _ \<Rightarrow> (case eSL_RemoveListener (l_type l) (l_callback l) ls of
       Done (_, ls') \<Rightarrow> destroy_listeners n ls' | Hangs \<Rightarrow> Hangs | Undefined \<Rightarrow> Undefined))"

section \<open>The reader and callback threads\<close>

record callback_data =
  c_callback :: nat
  c_user :: nat
  c_type :: u16
  c_message :: "u8 list"

text \<open>The records the reader queues for the callback thread, in the order of the list.\<close>

definition reader_callbacks :: "listener list \<Rightarrow> u16 \<Rightarrow> u8 list \<Rightarrow> callback_data list" where
  "reader_callbacks ls t d =
     map (\<lambda>l. \<lparr>c_callback = l_callback l, c_user = l_user l, c_type = t, c_message = d\<rparr>)
       (filter (\<lambda>l. l_type l = t) ls)"

text \<open>
  The dispatch of one message: a log message is terminated in place (a byte behind the
  buffer when it is full), any other is offered to the waiting threads at most twice; then
  the listeners' records are queued.  \<open>mem\<close> gives the outcome of the allocations of the
  two attempts.
\<close>

definition reader_dispatch ::
  "bool \<times> bool \<Rightarrow> listener list \<Rightarrow> u16 \<Rightarrow> u16 \<Rightarrow> u8 list \<Rightarrow> slot list
   \<Rightarrow> (bool \<times> slot list \<times> callback_data list) sl_result" where
  "reader_dispatch mem ls t len buf ss =
     (let calls = reader_callbacks ls t (take (unat len) buf)
      in if t = E_SL_MSG_LOG then
           (if unat len < length buf then Done (True, ss, calls) else Undefined)
         else (case eSL_MessageQueue (fst mem) t len buf ss of
             Hangs \<Rightarrow> Hangs
           | Undefined \<Rightarrow> Undefined
           | Done (st, ss1) \<Rightarrow>
               if st = E_SL_OK then Done (True, ss1, calls)
               else if st = E_SL_NOMESSAGE then Done (calls \<noteq> [], ss1, calls)
               else (case eSL_MessageQueue (snd mem) t len buf ss1 of
                   Hangs \<Rightarrow> Hangs
                 | Undefined \<Rightarrow> Undefined
                 | Done (st2, ss2) \<Rightarrow> Done (st2 = E_SL_OK \<or> calls \<noteq> [], ss2, calls))))"

text \<open>
  One pass of the callback thread: the record it hands to its callback, if the timed
  dequeue gives one.
\<close>

definition callback_pass ::
  "(wait_result \<times> callback_data tsQueuePrivate) list \<Rightarrow> callback_data tsQueuePrivate
   \<Rightarrow> (callback_data option \<times> callback_data tsQueuePrivate) option" where
  "callback_pass script q =
     map_option (\<lambda>(st, d, q'). (if st = E_UTILS_OK then d else None, q')) (eUtils_QueueDequeueTimed script q)"

text \<open>\<open>eSL_Init\<close> after the port is open: no listeners, free slots, an empty callback queue.\<close>

definition eSL_Init :: "bool \<Rightarrow> bool
    \<Rightarrow> teSL_Status \<times> (listener list \<times> slot list \<times> callback_data tsQueuePrivate) option" where
  "eSL_Init port_ok mem =
     (if \<not> port_ok then (E_SL_ERROR_SERIAL, None)
      else (case eUtils_QueueCreate mem SL_MAX_CALLBACK_QUEUES False False of
              Inl _ \<Rightarrow> (E_SL_ERROR, None)
            | Inr q \<Rightarrow> (E_SL_OK, Some ([], slots_init, q))))"

section \<open>Slots under any interleaving\<close>

text \<open>
  The slots together with the threads waiting in them (the type each waits for).  The flag of
  a step is the outcome of its allocation, if it makes one.
\<close>

inductive slot_step :: "bool \<Rightarrow> slot list \<times> (nat \<Rightarrow> u16 option) \<Rightarrow> slot list \<times> (nat \<Rightarrow> u16 option) \<Rightarrow> bool" where
  step_claim: "t \<noteq> 0 \<Longrightarrow> eSL_MessageWait_claim t m ss = Done (Some (i, ss')) \<Longrightarrow>
     slot_step True (ss, w) (ss', w(i \<mapsto> t))"
| step_deliver: "deliver mem t d ss = Done ss' \<Longrightarrow> slot_step mem (ss, w) (ss', w)"
| step_finish: "w i = Some t \<Longrightarrow> eSL_MessageWait_finish a i ss = Done (res, ss') \<Longrightarrow>
     slot_step True (ss, w) (ss', w(i := None))"

text \<open>The flag: no allocation of the way there has failed.\<close>

inductive slot_reach :: "bool \<Rightarrow> slot list \<times> (nat \<Rightarrow> u16 option) \<Rightarrow> bool" where
  reach_init: "slot_reach True (slots_init, Map.empty)"
| reach_step: "slot_reach b s \<Longrightarrow> slot_step mem s s' \<Longrightarrow> slot_reach (b \<and> mem) s'"

inductive_cases slot_stepE: "slot_step mem (ss, w) s'"

definition slots_inv :: "bool \<Rightarrow> slot list \<times> (nat \<Rightarrow> u16 option) \<Rightarrow> bool" where
  "slots_inv b = (\<lambda>(ss, w). length ss = SL_MAX_MESSAGE_QUEUES
     \<and> (b \<longrightarrow> (\<forall>i<length ss. \<not> s_locked (ss ! i)))
     \<and> (\<forall>i<length ss. s_type (ss ! i) = (case w i of None \<Rightarrow> 0 | Some t \<Rightarrow> t))
     \<and> (\<forall>i. w i \<noteq> Some 0 \<and> (length ss \<le> i \<longrightarrow> w i = None)))"

text \<open>Which slot a claim takes: the first free one, unless it meets a locked one before it.\<close>

lemma claim_cases:
  "case eSL_MessageWait_claim t m ss of
     Done (Some (i, ss')) \<Rightarrow> i < length ss \<and> s_type (ss ! i) = 0 \<and> \<not> s_locked (ss ! i)
       \<and> ss' = ss[i := (ss ! i)\<lparr>s_type := t, s_msg := (if t = E_SL_MSG_STATUS then m else s_msg (ss ! i))\<rparr>]
       \<and> (\<forall>j<i. s_type (ss ! j) \<noteq> 0 \<and> \<not> s_locked (ss ! j))
   | Done None \<Rightarrow> \<forall>j<length ss. s_type (ss ! j) \<noteq> 0 \<and> \<not> s_locked (ss ! j)
   | Hangs \<Rightarrow> \<exists>i<length ss. s_locked (ss ! i) \<and> (\<forall>j<i. s_type (ss ! j) \<noteq> 0 \<and> \<not> s_locked (ss ! j))
   | Undefined \<Rightarrow> False"
proof (induction ss)
  case (Cons s ss)
  let ?ok = "\<lambda>n ss. \<forall>j<n. s_type (ss ! j) \<noteq> 0 \<and> \<not> s_locked (ss ! j)"
  have suc: "s_type s \<noteq> 0 \<and> \<not> s_locked s \<Longrightarrow> ?ok n ss \<Longrightarrow> ?ok (Suc n) (s # ss)" for n
    by (auto simp: less_Suc_eq_0_disj)
  show ?case
  proof (cases "s_locked s \<or> s_type s = 0")
    case True
    then show ?thesis by auto
  next
    case False
    show ?thesis
    proof (cases "eSL_MessageWait_claim t m ss")
      case (Done r)
      then show ?thesis
      proof (cases r)
        case (Some x)
        obtain i ss' where x: "x = (i, ss')" by (cases x)
        from Cons Done Some x False suc [of i] show ?thesis by simp
      qed (use Cons Done False suc [of "length ss"] in simp)
    next
      case Hangs
      then obtain i where "i < length ss" "s_locked (ss ! i)" "?ok i ss" using Cons by auto
      then have "Suc i < length (s # ss)" "s_locked ((s # ss) ! Suc i)" "?ok (Suc i) (s # ss)"
        using suc [of i] False by simp_all
      then show ?thesis using Hangs False by (simp only: eSL_MessageWait_claim.simps) auto
    qed (use Cons in simp)
  qed
qed simp

lemma claim_spec:
  assumes "\<forall>s\<in>set ss. \<not> s_locked s"
  shows "eSL_MessageWait_claim t m ss = Done (map_option
     (\<lambda>i. (i, ss[i := (ss ! i)\<lparr>s_type := t, s_msg := (if t = E_SL_MSG_STATUS then m else s_msg (ss ! i))\<rparr>]))
     (first_idx (\<lambda>s. s_type s = 0) ss))"
  using assms
proof (induction ss)
  case (Cons s ss)
  then show ?case by (cases "first_idx (\<lambda>s. s_type s = 0) ss") auto
qed simp

lemma messageQueue_done:
  "eSL_MessageQueue mem t len buf ss = Done (st, ss') \<Longrightarrow>
   length ss' = length ss \<and> map s_type ss' = map s_type ss \<and> (mem \<longrightarrow> map s_locked ss' = map s_locked ss)"
proof (induction ss arbitrary: st ss')
  case (Cons s ss)
  then show ?case
    by (auto simp: Let_def split: if_splits option.splits bool.splits sl_result.splits prod.splits)
qed simp

lemma deliver_done:
  assumes "deliver mem t d ss = Done ss'"
  shows "length ss' = length ss \<and> (\<forall>i<length ss. s_type (ss' ! i) = s_type (ss ! i))
       \<and> (mem \<longrightarrow> (\<forall>i<length ss. s_locked (ss' ! i) = s_locked (ss ! i)))"
proof -
  have "length ss' = length ss \<and> map s_type ss' = map s_type ss \<and> (mem \<longrightarrow> map s_locked ss' = map s_locked ss)"
    using assms by (auto simp: deliver_def dest: messageQueue_done split: sl_result.splits prod.splits)
  then show ?thesis by (metis nth_map)
qed

lemma slots_inv_step: "slot_step mem s s' \<Longrightarrow> slots_inv b s \<Longrightarrow> slots_inv (b \<and> mem) s'"
proof (induction rule: slot_step.induct)
  case (step_claim t m ss i ss' w)
  with claim_cases [where t = t and m = m and ss = ss] have "i < length ss"
    and ss': "ss' = ss[i := (ss ! i)\<lparr>s_type := t, s_msg := (if t = E_SL_MSG_STATUS then m else s_msg (ss ! i))\<rparr>]"
    by simp_all
  with step_claim(1,3) show ?case
    by (auto simp: slots_inv_def ss' nth_list_update split: option.splits)
next
  case (step_deliver mem t d ss ss' w)
  with deliver_done [OF step_deliver(1)] show ?case by (auto simp: slots_inv_def)
next
  case (step_finish w i t a ss res ss')
  then have ss': "ss' = ss[i := (ss ! i)\<lparr>s_type := 0\<rparr>]" by (auto simp: eSL_MessageWait_finish_def split: if_splits)
  have "i < length ss" using step_finish(1,3) by (auto simp: slots_inv_def not_less [symmetric])
  with step_finish(3) show ?case by (auto simp: slots_inv_def ss' nth_list_update)
qed

lemma slots_inv_reach: "slot_reach b s \<Longrightarrow> slots_inv b s"
proof (induction rule: slot_reach.induct)
  case reach_init
  then show ?case by (simp add: slots_inv_def slots_init_def)
qed (simp add: slots_inv_step)

section \<open>Properties\<close>

text \<open>
  C14: The waiting slots are never shared: in every state the threads and the reader can
  reach, whether their allocations succeed or fail, a slot is occupied exactly by the thread that
  waits in it and for the type that thread asked for.  A further wait takes the first slot
  nobody waits in, fails when all three are taken, and blocks exactly when it meets
  before that a slot whose mutex is still locked; only an allocation that failed in
  \<open>eSL_MessageQueue\<close> leaves one locked, so while none has failed no wait blocks.
\<close>

theorem slots_exclusive:
  assumes "slot_reach no_failure (ss, w)"
  shows "(\<forall>i<SL_MAX_MESSAGE_QUEUES. s_type (ss ! i) = (case w i of None \<Rightarrow> 0 | Some t \<Rightarrow> t))
     \<and> (case eSL_MessageWait_claim t m ss of
          Done (Some (i, ss')) \<Rightarrow> w i = None \<and> i < SL_MAX_MESSAGE_QUEUES \<and> s_type (ss' ! i) = t
            \<and> (\<forall>j<i. w j \<noteq> None \<and> \<not> s_locked (ss ! j)) \<and> (\<forall>j. j \<noteq> i \<longrightarrow> ss' ! j = ss ! j)
        | Done None \<Rightarrow> \<forall>i<SL_MAX_MESSAGE_QUEUES. w i \<noteq> None \<and> \<not> s_locked (ss ! i)
        | Hangs \<Rightarrow> \<not> no_failure
            \<and> (\<exists>i<SL_MAX_MESSAGE_QUEUES. s_locked (ss ! i) \<and> (\<forall>j<i. w j \<noteq> None \<and> \<not> s_locked (ss ! j)))
        | Undefined \<Rightarrow> False)"
proof -
  have inv: "slots_inv no_failure (ss, w)" using assms by (rule slots_inv_reach)
  have len: "length ss = SL_MAX_MESSAGE_QUEUES" using inv by (simp add: slots_inv_def)
  have occ: "\<forall>i<SL_MAX_MESSAGE_QUEUES. s_type (ss ! i) = (case w i of None \<Rightarrow> 0 | Some t \<Rightarrow> t)"
    using inv by (simp add: slots_inv_def)
  have type: "s_type (ss ! i) \<noteq> 0 \<longleftrightarrow> w i \<noteq> None" if "i < SL_MAX_MESSAGE_QUEUES" for i
    using inv that by (auto simp: slots_inv_def split: option.splits)
  have unlocked: "no_failure \<Longrightarrow> i < SL_MAX_MESSAGE_QUEUES \<Longrightarrow> \<not> s_locked (ss ! i)" for i
    using inv by (simp add: slots_inv_def)
  have before: "\<forall>j<n. w j \<noteq> None \<and> \<not> s_locked (ss ! j)"
    if "\<forall>j<n. s_type (ss ! j) \<noteq> 0 \<and> \<not> s_locked (ss ! j)" "n \<le> SL_MAX_MESSAGE_QUEUES" for n
    using that type by (meson less_le_trans)
  show ?thesis
  proof (cases "eSL_MessageWait_claim t m ss")
    case (Done r)
    then show ?thesis
    proof (cases r)
      case None
      with claim_cases [where t = t and m = m and ss = ss] Done len before [of SL_MAX_MESSAGE_QUEUES] occ show ?thesis by simp
    next
      case (Some x)
      obtain i ss' where x: "x = (i, ss')" by (cases x)
      from claim_cases [where t = t and m = m and ss = ss] Done Some x len have c: "i < SL_MAX_MESSAGE_QUEUES" "s_type (ss ! i) = 0"
        "ss' = ss[i := (ss ! i)\<lparr>s_type := t, s_msg := (if t = E_SL_MSG_STATUS then m else s_msg (ss ! i))\<rparr>]"
        "\<forall>j<i. s_type (ss ! j) \<noteq> 0 \<and> \<not> s_locked (ss ! j)" by simp_all
      with type [of i] before [of i] len occ show ?thesis by (simp add: Done Some x)
    qed
  next
    case Hangs
    with claim_cases [where t = t and m = m and ss = ss] len obtain i where "i < SL_MAX_MESSAGE_QUEUES" "s_locked (ss ! i)"
      "\<forall>j<i. s_type (ss ! j) \<noteq> 0 \<and> \<not> s_locked (ss ! j)" by auto
    with before [of i] unlocked [of i] occ Hangs show ?thesis by auto
  next
    case Undefined
    with claim_cases [where t = t and m = m and ss = ss] show ?thesis by simp
  qed
qed

text \<open>
  Two threads wait, for a status and for a device announcement; the copy of the announcement
  cannot be allocated, and a third thread blocks on the slot that is left locked.
\<close>

definition jammed_slots :: "slot list" where
  "jammed_slots =
     [\<lparr>s_type = 0x8000, s_length = 0, s_msg = MSG_WAITER 0x0092, s_locked = False\<rparr>,
      \<lparr>s_type = 0x004D, s_length = 0, s_msg = MSG_NULL, s_locked = True\<rparr>,
      \<lparr>s_type = 0, s_length = 0, s_msg = MSG_NULL, s_locked = False\<rparr>]"

lemma jammed_reachable: "slot_reach False (jammed_slots, [0 \<mapsto> 0x8000, 1 \<mapsto> 0x004D])"
proof -
  let ?two = "jammed_slots[1 := (jammed_slots ! 1)\<lparr>s_locked := False\<rparr>]"
  have "slot_step True (slots_init, Map.empty) (?two[1 := (?two ! 1)\<lparr>s_type := 0\<rparr>], Map.empty(0 \<mapsto> 0x8000))"
    by (rule step_claim [where m = "MSG_WAITER 0x0092"])
       (simp_all add: slots_init_def jammed_slots_def SL_MAX_MESSAGE_QUEUES_def E_SL_MSG_STATUS_def numeral_3_eq_3)
  from reach_step [OF reach_init this]
  have "slot_reach True (?two[1 := (?two ! 1)\<lparr>s_type := 0\<rparr>], Map.empty(0 \<mapsto> 0x8000))" by simp
  moreover have "slot_step True (?two[1 := (?two ! 1)\<lparr>s_type := 0\<rparr>], Map.empty(0 \<mapsto> 0x8000))
      (?two, (Map.empty(0 \<mapsto> 0x8000))(1 \<mapsto> 0x004D))"
    by (rule step_claim [where m = MSG_NULL]) (simp_all add: jammed_slots_def E_SL_MSG_STATUS_def)
  ultimately have "slot_reach True (?two, [0 \<mapsto> 0x8000, 1 \<mapsto> 0x004D])"
    using reach_step [where b = True and mem = True] by (metis (full_types))
  moreover have "slot_step False (?two, [0 \<mapsto> 0x8000, 1 \<mapsto> 0x004D]) (jammed_slots, [0 \<mapsto> 0x8000, 1 \<mapsto> 0x004D])"
    by (rule step_deliver [where t = "0x004D" and d = "[1, 2]"])
       (simp add: deliver_def jammed_slots_def E_SL_MSG_STATUS_def)
  ultimately show ?thesis using reach_step [where b = True and mem = False] by (metis (full_types))
qed

theorem slots_exclusive_witness:
  "s_type (jammed_slots ! 0) = 0x8000 \<and> s_type (jammed_slots ! 2) = 0
   \<and> eSL_MessageWait_claim 0x8102 MSG_NULL jammed_slots = Hangs"
proof -
  have "eSL_MessageWait_claim 0x8102 MSG_NULL jammed_slots = Hangs" by (simp add: jammed_slots_def)
  then show ?thesis
    using slots_exclusive [OF jammed_reachable, of "0x8102" MSG_NULL] by (auto simp: SL_MAX_MESSAGE_QUEUES_def)
qed

text \<open>
  C13: A request gets the status of its own type: while the sender waits (no other thread
  waits for a status, which the send mutex ensures, and the reader can allocate its copy), a
  status message for this request type wakes it with the status and sequence number that
  message carries and frees its slot, and a status message for any other type leaves the
  slots as they were.
\<close>

theorem send_status_correlation:
  assumes "write_results p = []" and "length payload < 65536"
    and "\<forall>s\<in>set ss. \<not> s_locked s \<and> s_type s \<noteq> E_SL_MSG_STATUS"
    and "first_idx (\<lambda>s. s_type s = 0) ss = Some i"
    and "4 \<le> length d" and "length d \<le> SL_MAX_MESSAGE_LENGTH"
  shows "(unbe16 (d ! 2) (d ! 3) = t \<longrightarrow>
       (\<exists>q ss'. eSL_SendMessage t payload (deliver True E_SL_MSG_STATUS d) WAIT_SIGNALLED p ss
          = Some (Done ((status_of_byte (d ! 0), if d ! 0 = 0 then Some (d ! 1) else None), q, ss'))
        \<and> sent q = sent p @ frame t payload \<and> map s_type ss' = map s_type ss))
     \<and> (unbe16 (d ! 2) (d ! 3) \<noteq> t \<longrightarrow>
       (\<forall>ss1. eSL_MessageWait_claim E_SL_MSG_STATUS (MSG_WAITER t) ss = Done (Some (i, ss1)) \<longrightarrow>
          deliver True E_SL_MSG_STATUS d ss1 = Done ss1))"
proof -
  let ?w = "(ss ! i)\<lparr>s_type := E_SL_MSG_STATUS, s_msg := MSG_WAITER t\<rparr>"
  let ?buf = "d @ replicate (SL_MAX_MESSAGE_LENGTH - length d) 0"
  let ?len = "of_nat (length d) :: u16"
  have claim: "eSL_MessageWait_claim E_SL_MSG_STATUS (MSG_WAITER t) ss = Done (Some (i, ss[i := ?w]))"
    using assms(3,4) by (simp add: claim_spec)
  have i: "i < length ss" using assms(4) by (rule first_idx_less)
  have nth: "?buf ! 2 = d ! 2" "?buf ! 3 = d ! 3" using assms(5) by (simp_all add: nth_append)
  have len: "unat ?len = length d" using assms(6) by (simp add: unat_of_nat16 SL_MAX_MESSAGE_LENGTH_def)
  have queue: "eSL_MessageQueue True E_SL_MSG_STATUS ?len ?buf (ss[i := ?w])
      = Done (if unbe16 (d ! 2) (d ! 3) = t then (E_SL_OK, ss[i := ?w\<lparr>s_length := ?len, s_msg := MSG_COPY d\<rparr>])
              else (E_SL_NOMESSAGE, ss[i := ?w]))"
    using assms(3) i
  proof (induction ss arbitrary: i)
    case (Cons s ss)
    have none: "eSL_MessageQueue True E_SL_MSG_STATUS ?len ?buf ss = Done (E_SL_NOMESSAGE, ss)"
      if "\<forall>s\<in>set ss. \<not> s_locked s \<and> s_type s \<noteq> E_SL_MSG_STATUS" for ss
      using that by (induction ss) auto
    show ?case
    proof (cases i)
      case 0
      with Cons.prems show ?thesis
        by (simp add: none status_for_def nth len)
    next
      case (Suc k)
      with Cons.prems Cons.IH [of k] show ?thesis by simp
    qed
  qed simp
  show ?thesis
  proof (intro conjI impI allI)
    assume t: "unbe16 (d ! 2) (d ! 3) = t"
    have del: "deliver True E_SL_MSG_STATUS d (ss[i := ?w]) = Done (ss[i := ?w\<lparr>s_length := ?len, s_msg := MSG_COPY d\<rparr>])"
      using queue t by (simp add: deliver_def)
    have "(map s_type ss)[i := 0] = map s_type ss"
      using first_idx_holds [OF assms(4)] i by (metis list_update_id nth_map)
    moreover have "status_of_byte (d ! 0) = E_SL_OK \<longleftrightarrow> d ! 0 = 0" by (simp add: status_of_byte_def)
    moreover have "2 \<le> length d" using assms(5) by simp
    ultimately show "\<exists>q ss'. eSL_SendMessage t payload (deliver True E_SL_MSG_STATUS d) WAIT_SIGNALLED p ss
          = Some (Done ((status_of_byte (d ! 0), if d ! 0 = 0 then Some (d ! 1) else None), q, ss'))
        \<and> sent q = sent p @ frame t payload \<and> map s_type ss' = map s_type ss"
      using eSL_WriteMessage_frame [OF assms(1,2), of t] first_idx_holds [OF assms(4)] i assms(3)
      by (simp add: eSL_SendMessage_def claim del eSL_MessageWait_finish_def send_result_def map_update)
  next
    fix ss1
    assume "unbe16 (d ! 2) (d ! 3) \<noteq> t" "eSL_MessageWait_claim E_SL_MSG_STATUS (MSG_WAITER t) ss = Done (Some (i, ss1))"
    then show "deliver True E_SL_MSG_STATUS d ss1 = Done ss1" using claim queue by (simp add: deliver_def)
  qed
qed

theorem send_status_correlation_witness:
  "\<exists>q ss'. eSL_SendMessage 0x0092 [2, 1] (deliver True E_SL_MSG_STATUS [0, 42, 0x00, 0x92]) WAIT_SIGNALLED
       \<lparr>sent = [], write_results = []\<rparr> slots_init = Some (Done ((E_SL_OK, Some 42), q, ss'))
     \<and> sent q = frame 0x0092 [2, 1]"
proof -
  have "unbe16 0 0x92 = 0x92" by (simp add: unbe16_def)
  then show ?thesis
    using send_status_correlation 
      [where p = "\<lparr>sent = [], write_results = []\<rparr>" and payload = "[2, 1]" and ss = slots_init and i = 0
         and d = "[0, 42, 0x00, 0x92]" and t = "0x92"]
    by (auto simp: slots_init_def SL_MAX_MESSAGE_QUEUES_def E_SL_MSG_STATUS_def SL_MAX_MESSAGE_LENGTH_def
        numeral_3_eq_3 status_of_byte_def)
qed

lemma remove_loop_stuck:
  "l_callback l \<noteq> cb \<Longrightarrow> remove_loop cb (l # ls) = None"
proof -
  have "case rest of [] \<Rightarrow> True | l # _ \<Rightarrow> l_callback l = cb" if "remove_loop cb rest = Some y" for rest y
  proof (rule remove_loop.raw_induct [OF _ that])
    fix f :: "nat \<Rightarrow> listener list \<Rightarrow> (listener list \<times> bool) option" and cb rest y
    assume 1: "\<And>cb rest y. f cb rest = Some y \<Longrightarrow> case rest of [] \<Rightarrow> True | l # _ \<Rightarrow> l_callback l = cb"
      "(case rest of [] \<Rightarrow> Some ([], False) | l # ls \<Rightarrow> if l_callback l = cb then Some (ls, True) else f cb rest) = Some y"
    show "case rest of [] \<Rightarrow> True | l # _ \<Rightarrow> l_callback l = cb"
    proof (cases rest)
      case (Cons l ls)
      show ?thesis
      proof (cases "l_callback l = cb")
        case False
        with 1(2) Cons have "f cb rest = Some y" by simp
        from 1(1) [OF this] show ?thesis .
      qed (simp add: Cons)
    qed simp
  qed
  from this [of "l # ls"] show "l_callback l \<noteq> cb \<Longrightarrow> remove_loop cb (l # ls) = None"
    by (cases "remove_loop cb (l # ls)") auto
qed

lemma remove_loop_simps:
  "remove_loop cb [] = Some ([], False)"
  "l_callback l = cb \<Longrightarrow> remove_loop cb (l # ls) = Some (ls, True)"
  by (simp_all add: remove_loop.simps)

text \<open>
  Removing a listener works for the first two entries of the list only: the head or the
  second entry with this callback is removed and the others keep their order, whatever type
  was asked for; a single entry with another callback is reported as not found; but when
  neither of the first two entries matches, the search never ends, and on an empty list the
  code reads through a null pointer.
\<close>

theorem remove_listener_outcomes:
  "eSL_RemoveListener u16Type cb ls =
     (case ls of
        [] \<Rightarrow> Undefined
      | [l] \<Rightarrow> if l_callback l = cb then Done (E_SL_OK, []) else Done (E_SL_ERROR, [l])
      | l # m # rest \<Rightarrow>
          if l_callback l = cb then Done (E_SL_OK, m # rest)
          else if l_callback m = cb then Done (E_SL_OK, l # rest)
          else Hangs)"
  by (auto simp: eSL_RemoveListener_def remove_loop_simps remove_loop_stuck split: list.split)

text \<open>
  Tearing the link down ends and releases every listener, however many there are: the
  loop always removes the head, so as many rounds as there are listeners empty the list.
\<close>

theorem destroy_releases_all:
  "destroy_listeners (length ls) ls = Done []"
  by (induction ls) (simp_all add: eSL_RemoveListener_def)

lemma messageQueue_nomem:
  assumes "t \<noteq> E_SL_MSG_STATUS" and "\<forall>s\<in>set ss. \<not> s_locked s" and "\<exists>s\<in>set ss. s_type s = t"
  shows "\<exists>ss'. eSL_MessageQueue False t len buf ss = Done (E_SL_ERROR_NOMEM, ss')
           \<and> eSL_MessageQueue m t len buf ss' = Hangs"
  using assms(2,3)
proof (induction ss)
  case (Cons s ss)
  show ?case
  proof (cases "s_type s = t")
    case True
    with Cons.prems assms(1) show ?thesis by simp
  next
    case False
    with Cons obtain ss' where "eSL_MessageQueue False t len buf ss = Done (E_SL_ERROR_NOMEM, ss')"
      "eSL_MessageQueue m t len buf ss' = Hangs" by auto
    with False Cons.prems show ?thesis by simp
  qed
qed simp

text \<open>
  The error paths of the reader thread: if the copy of a message somebody waits for
  cannot be allocated, the slot's mutex stays locked and the thread's own second attempt
  hangs on it, for ever; and a log message that fills the buffer is terminated one byte
  behind it, while a shorter one is passed to its listeners.
\<close>

theorem reader_error_paths:
  assumes "t \<noteq> E_SL_MSG_STATUS" and "t \<noteq> E_SL_MSG_LOG"
    and "\<forall>s\<in>set ss. \<not> s_locked s" and "\<exists>s\<in>set ss. s_type s = t"
    and "length buf = SL_MAX_MESSAGE_LENGTH"
  shows "reader_dispatch (False, m) ls t len buf ss = Hangs
       \<and> reader_dispatch mem ls E_SL_MSG_LOG len buf ss
         = (if unat len < SL_MAX_MESSAGE_LENGTH
            then Done (True, ss, reader_callbacks ls E_SL_MSG_LOG (take (unat len) buf)) else Undefined)"
proof -
  from messageQueue_nomem [OF assms(1,3,4)]
  obtain ss' where "eSL_MessageQueue False t len buf ss = Done (E_SL_ERROR_NOMEM, ss')"
    "eSL_MessageQueue m t len buf ss' = Hangs" by blast
  with assms(2,5) show ?thesis by (simp add: reader_dispatch_def Let_def)
qed

theorem reader_error_paths_witness:
  "reader_dispatch (False, True) [] 0x8102 4 (replicate 256 0)
     [\<lparr>s_type = 0x8102, s_length = 0, s_msg = MSG_NULL, s_locked = False\<rparr>] = Hangs"
  using reader_error_paths [where t = "0x8102" and m = True and ls = "[]" and len = 4 and mem = "(True, True)"
      and ss = "[\<lparr>s_type = 0x8102, s_length = 0, s_msg = MSG_NULL, s_locked = False\<rparr>]" and buf = "replicate 256 0"]
  by (simp add: E_SL_MSG_STATUS_def E_SL_MSG_LOG_def SL_MAX_MESSAGE_LENGTH_def)

end
