(* ===== verification/RowTable.thy ===== *)
theory RowTable
  imports IotPrelude
begin

text \<open>
  Fixed-size tables whose rows carry a key, the empty key marking a free row: the scans the
  database operations share, and the contract of such a table as a finite set of keyed rows
  with a capacity.
\<close>

section \<open>Scans by key\<close>

definition row_find :: "('r \<Rightarrow> string) \<Rightarrow> string \<Rightarrow> 'r list \<Rightarrow> nat option" where
  "row_find key k rows = first_idx (\<lambda>r. key r = k) rows"

definition row_get :: "('r \<Rightarrow> string) \<Rightarrow> string \<Rightarrow> 'r list \<Rightarrow> 'r option" where
  "row_get key k rows = map_option (nth rows) (row_find key k rows)"

definition row_keys :: "('r \<Rightarrow> string) \<Rightarrow> 'r list \<Rightarrow> string set" where
  "row_keys key rows = key ` set rows - {[]}"

definition row_unique :: "('r \<Rightarrow> string) \<Rightarrow> 'r list \<Rightarrow> bool" where
  "row_unique key rows \<longleftrightarrow> (\<forall>i<length rows. \<forall>j<length rows. key (rows ! i) = key (rows ! j) \<and> key (rows ! i) \<noteq> [] \<longrightarrow> i = j)"

lemma row_find_None: "row_find key k rows = None \<longleftrightarrow> k \<notin> key ` set rows"
  by (auto simp: row_find_def first_idx_None)

lemma row_find_key: "row_find key k rows = Some i \<Longrightarrow> i < length rows \<and> key (rows ! i) = k"
  by (auto simp: row_find_def first_idx_Some_iff)

lemma row_keysD: "k \<in> row_keys key rows \<Longrightarrow> \<exists>i<length rows. key (rows ! i) = k \<and> k \<noteq> []"
  by (auto simp: row_keys_def in_set_conv_nth)

lemma row_keysI: "i < length rows \<Longrightarrow> key (rows ! i) = k \<Longrightarrow> k \<noteq> [] \<Longrightarrow> k \<in> row_keys key rows"
  by (auto simp: row_keys_def)

lemma row_get_Some:
  assumes "row_unique key rows" and "k \<noteq> []"
  shows "row_get key k rows = Some r \<longleftrightarrow> (\<exists>i<length rows. rows ! i = r \<and> key r = k)"
proof
  assume "row_get key k rows = Some r"
  then show "\<exists>i<length rows. rows ! i = r \<and> key r = k"
    by (auto simp: row_get_def dest: row_find_key)
next
  assume "\<exists>i<length rows. rows ! i = r \<and> key r = k"
  then obtain i where i: "i < length rows" "rows ! i = r" "key r = k" by auto
  have "row_find key k rows = Some i"
    unfolding row_find_def
  proof (rule first_idx_unique [OF i(1)])
    show "key (rows ! i) = k" using i by simp
    fix j assume "j < length rows" "key (rows ! j) = k"
    then show "j = i" using assms i by (auto simp: row_unique_def)
  qed
  with i(2) show "row_get key k rows = Some r" by (simp add: row_get_def)
qed

lemma row_get_keys: "k \<noteq> [] \<Longrightarrow> (\<exists>r. row_get key k rows = Some r) \<longleftrightarrow> k \<in> row_keys key rows"
  using row_find_None [of key k rows] by (auto simp: row_get_def row_keys_def)

text \<open>Writing one row.\<close>

lemma row_keys_update:
  assumes "row_unique key rows" and "i < length rows"
  shows "row_keys key (rows[i := r]) = (row_keys key rows - {key (rows ! i)}) \<union> ({key r} - {[]})"
proof (intro set_eqI iffI)
  fix k assume "k \<in> row_keys key (rows[i := r])"
  then obtain j where j: "j < length rows" "key (rows[i := r] ! j) = k" "k \<noteq> []"
    using row_keysD [of k key "rows[i := r]"] by auto
  show "k \<in> (row_keys key rows - {key (rows ! i)}) \<union> ({key r} - {[]})"
  proof (cases "j = i")
    case False
    with j have k: "key (rows ! j) = k" by simp
    with assms j False have "key (rows ! i) \<noteq> k" by (auto simp: row_unique_def)
    with k j show ?thesis by (auto intro: row_keysI)
  qed (use j assms(2) in simp)
next
  fix k assume k: "k \<in> (row_keys key rows - {key (rows ! i)}) \<union> ({key r} - {[]})"
  show "k \<in> row_keys key (rows[i := r])"
  proof (cases "k = key r \<and> k \<noteq> []")
    case True
    with assms(2) show ?thesis by (intro row_keysI [of i]) auto
  next
    case False
    with k have "k \<in> row_keys key rows" "k \<noteq> key (rows ! i)" by auto
    then obtain j where "j < length rows" "key (rows ! j) = k" "k \<noteq> []" "j \<noteq> i"
      using row_keysD [of k key rows] by auto
    then show ?thesis by (intro row_keysI [of j]) auto
  qed
qed

lemma row_unique_update:
  assumes "row_unique key rows" and "i < length rows"
    and "key r = [] \<or> key r = key (rows ! i) \<or> key r \<notin> row_keys key rows"
  shows "row_unique key (rows[i := r])"
proof -
  have other: "key (rows ! j) \<noteq> key r" if "j < length rows" "j \<noteq> i" "key (rows ! j) \<noteq> []" for j
    using assms that row_keysI [of j rows key "key (rows ! j)"] by (auto simp: row_unique_def)
  show ?thesis
    unfolding row_unique_def
  proof (intro allI impI, elim conjE)
    fix a b
    assume ab: "a < length (rows[i := r])" "b < length (rows[i := r])"
      "key (rows[i := r] ! a) = key (rows[i := r] ! b)" "key (rows[i := r] ! a) \<noteq> []"
    consider "a = i" "b = i" | "a = i" "b \<noteq> i" | "a \<noteq> i" "b = i" | "a \<noteq> i" "b \<noteq> i" by blast
    then show "a = b"
    proof cases
      case 4
      with ab assms(1) show ?thesis by (simp add: row_unique_def)
    next
      case 2
      with ab other [of b] show ?thesis by simp
    next
      case 3
      with ab other [of a] show ?thesis by simp
    qed simp
  qed
qed

lemma row_get_update:
  assumes "row_unique key rows" and "i < length rows" and "k \<noteq> []"
    and "key r = [] \<or> key r = key (rows ! i) \<or> key r \<notin> row_keys key rows"
  shows "row_get key k (rows[i := r])
       = (if k = key r then Some r else if k = key (rows ! i) then None else row_get key k rows)"
proof -
  have uq: "row_unique key (rows[i := r])" by (rule row_unique_update [OF assms(1,2,4)])
  consider "k = key r" | "k \<noteq> key r" "k = key (rows ! i)" | "k \<noteq> key r" "k \<noteq> key (rows ! i)" by blast
  then show ?thesis
  proof cases
    case 1
    then show ?thesis using row_get_Some [OF uq assms(3), of r] assms(2) by auto
  next
    case 2
    then have "k \<notin> row_keys key (rows[i := r])" by (auto simp: row_keys_update [OF assms(1,2)])
    then show ?thesis using 2 row_get_keys [OF assms(3), of key "rows[i := r]"] by auto
  next
    case 3
    have "row_get key k (rows[i := r]) = Some x \<longleftrightarrow> row_get key k rows = Some x" for x
      unfolding row_get_Some [OF uq assms(3)] row_get_Some [OF assms(1,3)]
      using 3 assms(2) by (auto simp: nth_list_update)
    then have "row_get key k (rows[i := r]) = row_get key k rows" by (metis not_Some_eq)
    with 3 show ?thesis by simp
  qed
qed

lemma row_free_none:
  assumes "row_unique key rows" and "row_find key [] rows = None"
  shows "card (row_keys key rows) = length rows"
proof -
  have "distinct (map key rows)"
    using assms unfolding distinct_conv_nth row_unique_def row_find_None
    by (metis (no_types, lifting) imageI length_map nth_map nth_mem)
  moreover have "row_keys key rows = set (map key rows)"
    using assms(2) by (auto simp: row_keys_def row_find_None)
  ultimately show ?thesis by (metis distinct_card length_map)
qed

lemma row_free_some:
  assumes "row_find key [] rows = Some i"
  shows "card (row_keys key rows) < length rows"
proof -
  have "i < length rows" "key (rows ! i) = []" using row_find_key [OF assms] by simp_all
  then have "[] \<in> set (map key rows)" by (metis length_map nth_map nth_mem)
  then have "row_keys key rows \<subset> set (map key rows)" by (auto simp: row_keys_def)
  then have "card (row_keys key rows) < card (set (map key rows))" by (simp add: psubset_card_mono)
  also have "\<dots> \<le> length rows" by (metis card_length length_map)
  finally show ?thesis .
qed

section \<open>The contract of a keyed table\<close>

datatype table_op = Ensure string | Modify string | Remove string

text \<open>What a table of \<open>n\<close> rows does to its set of keys.\<close>

fun keys_step :: "nat \<Rightarrow> table_op \<Rightarrow> string set \<Rightarrow> string set" where
  "keys_step n (Ensure k) S = (if k \<in> S \<or> card S = n then S else insert k S)"
| "keys_step n (Modify k) S = S"
| "keys_step n (Remove k) S = S - {k}"

fun op_key :: "table_op \<Rightarrow> string" where
  "op_key (Ensure k) = k" | "op_key (Modify k) = k" | "op_key (Remove k) = k"

text \<open>How the clients use a table: look a row up and add it when it is not there, or change it.\<close>

fun table_step :: "(string \<Rightarrow> 'db \<Rightarrow> 'row option) \<Rightarrow> (string \<Rightarrow> 'db \<Rightarrow> 'row option \<times> 'db) \<Rightarrow>
    ('row \<Rightarrow> 'db \<Rightarrow> bool \<times> 'db) \<Rightarrow> (string \<Rightarrow> 'db \<Rightarrow> bool \<times> 'db) \<Rightarrow> ('row \<Rightarrow> 'row) \<Rightarrow> table_op \<Rightarrow> 'db \<Rightarrow> 'db" where
  "table_step get new put del f (Ensure k) db = (case get k db of Some r \<Rightarrow> db | None \<Rightarrow> snd (new k db))"
| "table_step get new put del f (Modify k) db = (case get k db of Some r \<Rightarrow> snd (put (f r) db) | None \<Rightarrow> db)"
| "table_step get new put del f (Remove k) db = snd (del k db)"

locale keyed_table =
  fixes tget :: "string \<Rightarrow> 'db \<Rightarrow> 'row option"
    and tnew :: "string \<Rightarrow> 'db \<Rightarrow> 'row option \<times> 'db"
    and tset :: "'row \<Rightarrow> 'db \<Rightarrow> bool \<times> 'db"
    and tdel :: "string \<Rightarrow> 'db \<Rightarrow> bool \<times> 'db"
    and same_row :: "'row \<Rightarrow> 'row \<Rightarrow> bool"
    and keys :: "'db \<Rightarrow> string set"
    and size :: nat
    and ok_key :: "string \<Rightarrow> bool"
    and invar :: "'db \<Rightarrow> bool"
  assumes get_keys: "invar db \<Longrightarrow> ok_key k \<Longrightarrow> (\<exists>r. tget k db = Some r) \<longleftrightarrow> k \<in> keys db"
    and new_full: "invar db \<Longrightarrow> card (keys db) = size \<Longrightarrow> tnew k db = (None, db)"
    and new_keys: "invar db \<Longrightarrow> ok_key k \<Longrightarrow> k \<notin> keys db \<Longrightarrow> card (keys db) \<noteq> size \<Longrightarrow>
      invar (snd (tnew k db)) \<and> keys (snd (tnew k db)) = insert k (keys db) \<and> fst (tnew k db) = tget k (snd (tnew k db))"
    and set_keys: "invar db \<Longrightarrow> ok_key k \<Longrightarrow> tget k db = Some r \<Longrightarrow> same_row r r' \<Longrightarrow>
      invar (snd (tset r' db)) \<and> keys (snd (tset r' db)) = keys db"
    and del_keys: "invar db \<Longrightarrow> ok_key k \<Longrightarrow> invar (snd (tdel k db)) \<and> keys (snd (tdel k db)) = keys db - {k}"
    and finite_keys: "invar db \<Longrightarrow> finite (keys db) \<and> card (keys db) \<le> size"
begin

lemma step_refines:
  assumes "invar db" and "ok_key (op_key op)" and "\<And>r. same_row r (f r)"
  shows "invar (table_step tget tnew tset tdel f op db)
       \<and> keys (table_step tget tnew tset tdel f op db) = keys_step size op (keys db)"
proof (cases op)
  case (Ensure k)
  show ?thesis
  proof (cases "tget k db")
    case None
    with get_keys [OF assms(1), of k] assms(2) Ensure have "k \<notin> keys db" by auto
    with None new_keys [OF assms(1), of k] new_full [OF assms(1), of k] assms(1,2) show ?thesis
      by (cases "card (keys db) = size") (simp_all add: Ensure)
  next
    case (Some r)
    with get_keys [OF assms(1), of k] assms(1,2) Ensure show ?thesis by auto
  qed
next
  case (Modify k)
  with set_keys [OF assms(1), of k] assms show ?thesis by (auto split: option.split)
next
  case (Remove k)
  with del_keys [OF assms(1), of k] assms show ?thesis by simp
qed

lemma run_refines:
  assumes "invar db" and "\<forall>op\<in>set ops. ok_key (op_key op)" and "\<And>r. same_row r (f r)"
  shows "invar (fold (table_step tget tnew tset tdel f) ops db)
       \<and> keys (fold (table_step tget tnew tset tdel f) ops db) = fold (keys_step size) ops (keys db)"
  using assms(1,2)
proof (induction ops arbitrary: db)
  case (Cons op ops)
  from step_refines [OF Cons.prems(1), of op f] Cons.prems(2) assms(3)
  have "invar (table_step tget tnew tset tdel f op db)"
    "keys (table_step tget tnew tset tdel f op db) = keys_step size op (keys db)" by simp_all
  with Cons.IH Cons.prems(2) show ?case by simp
qed simp

lemma run_lookup:
  assumes "invar db" and "\<forall>op\<in>set ops. ok_key (op_key op)" and "\<And>r. same_row r (f r)" and "ok_key k"
  shows "(\<exists>r. tget k (fold (table_step tget tnew tset tdel f) ops db) = Some r)
       \<longleftrightarrow> k \<in> fold (keys_step size) ops (keys db)"
  using run_refines [OF assms(1-3)] get_keys [OF _ assms(4)] by simp

end

section \<open>Tables stored as arrays of rows\<close>

text \<open>
  A table kept as an array inside a larger state that may not be attached: every row
  carries its own index, and no two used rows share a key.
\<close>

definition stored_keys :: "('db \<Rightarrow> 'row list option) \<Rightarrow> ('row \<Rightarrow> string) \<Rightarrow> 'db \<Rightarrow> string set" where
  "stored_keys rows key db = (case rows db of None \<Rightarrow> {} | Some rs \<Rightarrow> row_keys key rs)"

definition stored_inv :: "('db \<Rightarrow> 'row list option) \<Rightarrow> ('row \<Rightarrow> string) \<Rightarrow> ('row \<Rightarrow> int) \<Rightarrow> nat \<Rightarrow> 'db \<Rightarrow> bool" where
  "stored_inv rows key ident n db \<longleftrightarrow> (case rows db of None \<Rightarrow> False
     | Some rs \<Rightarrow> length rs = n \<and> row_unique key rs \<and> (\<forall>i<n. ident (rs ! i) = int i))"

lemma stored_invE:
  assumes "stored_inv rows key ident n db"
  obtains rs where "rows db = Some rs" "length rs = n" "row_unique key rs" "\<forall>i<n. ident (rs ! i) = int i"
    "stored_keys rows key db = row_keys key rs"
  using assms by (auto simp: stored_inv_def stored_keys_def split: option.splits)

lemma stored_update:
  assumes "rows db' = Some (rs[i := r])" and "length rs = n" and "row_unique key rs"
    and "\<forall>i<n. ident (rs ! i) = int i" and "i < n" and "ident r = int i"
    and "key r = [] \<or> key r = key (rs ! i) \<or> key r \<notin> row_keys key rs"
  shows "stored_inv rows key ident n db'
       \<and> stored_keys rows key db' = (row_keys key rs - {key (rs ! i)}) \<union> ({key r} - {[]})"
  using assms row_unique_update [OF assms(3) _ assms(7)] row_keys_update [OF assms(3), of i r]
  by (auto simp: stored_inv_def stored_keys_def nth_list_update)

lemma finite_row_keys: "finite (row_keys key rows)"
  by (simp add: row_keys_def)

lemma card_row_keys: "card (row_keys key rows) \<le> length rows"
proof -
  have "card (row_keys key rows) \<le> card (key ` set rows)" by (rule card_mono) (auto simp: row_keys_def)
  also have "\<dots> \<le> length rows" by (metis card_length length_map set_map)
  finally show ?thesis .
qed

lemma row_find_free:
  assumes "row_unique key rows" "card (row_keys key rows) \<noteq> length rows"
  obtains i where "row_find key [] rows = Some i" "i < length rows" "key (rows ! i) = []"
  using row_free_none [OF assms(1)] assms(2) row_find_key [of key "[]" rows] by (cases "row_find key [] rows") auto

lemma row_find_full: "card (row_keys key rows) = length rows \<Longrightarrow> row_find key [] rows = None"
  using row_free_some [of key rows] by (cases "row_find key [] rows") auto

locale stored_table =
  fixes tget :: "string \<Rightarrow> 'db \<Rightarrow> 'row option"
    and tnew :: "string \<Rightarrow> 'db \<Rightarrow> 'row option \<times> 'db"
    and tset :: "'row \<Rightarrow> 'db \<Rightarrow> bool \<times> 'db"
    and tdel :: "string \<Rightarrow> 'db \<Rightarrow> bool \<times> 'db"
    and rows :: "'db \<Rightarrow> 'row list option"
    and key :: "'row \<Rightarrow> string"
    and ident :: "'row \<Rightarrow> int"
    and n :: nat
    and ok_key :: "string \<Rightarrow> bool"
  assumes ok_not_empty: "ok_key k \<Longrightarrow> k \<noteq> []"
    and get_row: "rows db = Some rs \<Longrightarrow> tget k db = row_get key k rs"
    and new_none: "rows db = Some rs \<Longrightarrow> row_find key [] rs = None \<Longrightarrow> tnew k db = (None, db)"
    and new_some: "rows db = Some rs \<Longrightarrow> row_find key [] rs = Some i \<Longrightarrow> ok_key k \<Longrightarrow>
      \<exists>r. key r = k \<and> ident r = int i \<and> fst (tnew k db) = Some r \<and> rows (snd (tnew k db)) = Some (rs[i := r])"
    and set_row: "rows db = Some rs \<Longrightarrow> ident r = int i \<Longrightarrow> i < n \<Longrightarrow>
      \<exists>r'. key r' = key r \<and> ident r' = ident r \<and> rows (snd (tset r db)) = Some (rs[i := r'])"
    and del_none: "rows db = Some rs \<Longrightarrow> row_find key k rs = None \<Longrightarrow> snd (tdel k db) = db"
    and del_some: "rows db = Some rs \<Longrightarrow> row_find key k rs = Some i \<Longrightarrow>
      \<exists>r'. key r' = [] \<and> ident r' = ident (rs ! i) \<and> rows (snd (tdel k db)) = Some (rs[i := r'])"

sublocale stored_table \<subseteq> keyed_table tget tnew tset tdel "\<lambda>r r'. ident r' = ident r \<and> key r' = key r"
    "stored_keys rows key" n ok_key "stored_inv rows key ident n"
proof unfold_locales
  fix db k
  assume "stored_inv rows key ident n db"
  then obtain rs where rs: "rows db = Some rs" "length rs = n" "row_unique key rs" "\<forall>i<n. ident (rs ! i) = int i"
    and keys: "stored_keys rows key db = row_keys key rs" by (rule stored_invE)
  show "ok_key k \<Longrightarrow> (\<exists>r. tget k db = Some r) \<longleftrightarrow> k \<in> stored_keys rows key db"
    using row_get_keys [OF ok_not_empty] by (simp add: get_row [OF rs(1)] keys)
  show "card (stored_keys rows key db) = n \<Longrightarrow> tnew k db = (None, db)"
    using row_find_full [of key rs] rs(2) by (simp add: keys new_none [OF rs(1)])
  show "finite (stored_keys rows key db) \<and> card (stored_keys rows key db) \<le> n"
    using card_row_keys [of key rs] rs(2) by (simp add: keys finite_row_keys)
  show "stored_inv rows key ident n (snd (tnew k db)) \<and> stored_keys rows key (snd (tnew k db)) = insert k (stored_keys rows key db)
      \<and> fst (tnew k db) = tget k (snd (tnew k db))"
    if k: "ok_key k" "k \<notin> stored_keys rows key db" "card (stored_keys rows key db) \<noteq> n"
  proof -
    obtain i where i: "row_find key [] rs = Some i" "i < length rs" "key (rs ! i) = []"
      by (rule row_find_free [OF rs(3)]) (use k(3) rs(2) keys in simp)
    from new_some [OF rs(1) i(1) k(1)] obtain r where r: "key r = k" "ident r = int i" "fst (tnew k db) = Some r"
      "rows (snd (tnew k db)) = Some (rs[i := r])" by blast
    have ok: "key r = [] \<or> key r = key (rs ! i) \<or> key r \<notin> row_keys key rs" using k(2) keys r(1) by simp
    have "row_get key k (rs[i := r]) = Some r"
      using row_get_update [OF rs(3) i(2) ok_not_empty [OF k(1)] ok] r(1) by simp
    moreover have "[] \<notin> row_keys key rs" by (simp add: row_keys_def)
    ultimately show ?thesis
      using stored_update [where rows = rows and key = key and ident = ident, OF r(4) rs(2,3,4) _ r(2) ok] i r ok_not_empty [OF k(1)] rs(2)
      by (auto simp: get_row [OF r(4)] keys)
  qed
  show "stored_inv rows key ident n (snd (tset r' db)) \<and> stored_keys rows key (snd (tset r' db)) = stored_keys rows key db"
    if k: "ok_key k" "tget k db = Some r" "ident r' = ident r \<and> key r' = key r" for r r'
  proof -
    from k(2) row_get_Some [OF rs(3) ok_not_empty [OF k(1)], of r]
    obtain i where i: "i < length rs" "rs ! i = r" "key r = k" by (auto simp: get_row [OF rs(1)])
    have "ident (rs ! i) = int i" using rs(2,4) i(1) by blast
    then have id: "ident r' = int i" using i(2) k(3) by simp
    from set_row [OF rs(1) id] i(1) rs(2) obtain s where s: "key s = key r'" "ident s = ident r'"
      "rows (snd (tset r' db)) = Some (rs[i := s])" by auto
    have "k \<in> row_keys key rs" using i ok_not_empty [OF k(1)] by (auto simp: row_keys_def)
    then show ?thesis
      using stored_update [where rows = rows and key = key and ident = ident, OF s(3) rs(2,3,4)] i s id k(3) rs(2) ok_not_empty [OF k(1)]
      by (auto simp: keys)
  qed
  show "stored_inv rows key ident n (snd (tdel k db)) \<and> stored_keys rows key (snd (tdel k db)) = stored_keys rows key db - {k}"
    if k: "ok_key k"
  proof (cases "row_find key k rs")
    case None
    then have "k \<notin> row_keys key rs" by (auto simp: row_find_None row_keys_def)
    with None rs keys show ?thesis by (simp add: del_none [OF rs(1)] stored_inv_def)
  next
    case (Some i)
    note i = row_find_key [OF Some]
    from del_some [OF rs(1) Some] obtain s where s: "key s = []" "ident s = ident (rs ! i)"
      "rows (snd (tdel k db)) = Some (rs[i := s])" by blast
    then show ?thesis
      using stored_update [where rows = rows and key = key and ident = ident, OF s(3) rs(2,3,4)] i rs(2,4) by (auto simp: keys)
  qed
qed

section \<open>Tables whose writes are known\<close>

text \<open>
  Storing a row changes it in a known way (the database stamps it with the time), so that a
  later lookup returns what was stored.  Most clients look a row up, change it with \<open>f\<close> and
  store it, and add it first, changed with \<open>g\<close>, when it is not there.
\<close>

definition table_upsert :: "(string \<Rightarrow> 'db \<Rightarrow> 'row option) \<Rightarrow> (string \<Rightarrow> 'db \<Rightarrow> 'row option \<times> 'db) \<Rightarrow>
    ('row \<Rightarrow> 'db \<Rightarrow> bool \<times> 'db) \<Rightarrow> ('row \<Rightarrow> 'row) \<Rightarrow> ('row \<Rightarrow> 'row) \<Rightarrow> string \<Rightarrow> 'db \<Rightarrow> bool \<times> 'db" where
  "table_upsert get new put f g k db =
     (case get k db of
        Some r \<Rightarrow> put (f r) db
      | None \<Rightarrow> (case new k db of (Some r, db') \<Rightarrow> put (g r) db' | (None, db') \<Rightarrow> (False, db')))"

locale stamped_table = stored_table tget tnew tset tdel rows key ident n ok_key
  for tget :: "string \<Rightarrow> 'db \<Rightarrow> 'row option"
    and tnew :: "string \<Rightarrow> 'db \<Rightarrow> 'row option \<times> 'db"
    and tset :: "'row \<Rightarrow> 'db \<Rightarrow> bool \<times> 'db"
    and tdel :: "string \<Rightarrow> 'db \<Rightarrow> bool \<times> 'db"
    and rows :: "'db \<Rightarrow> 'row list option"
    and key :: "'row \<Rightarrow> string"
    and ident :: "'row \<Rightarrow> int"
    and n :: nat
    and ok_key :: "string \<Rightarrow> bool" +
  fixes stamp :: "'row \<Rightarrow> 'row"
    and blank :: "int \<Rightarrow> string \<Rightarrow> 'row"
  assumes stamp_key: "key (stamp r) = key r"
    and stamp_ident: "ident (stamp r) = ident r"
    and blank_key: "key (blank j k) = k"
    and blank_ident: "ident (blank j k) = j"
    and set_value: "rows db = Some rs \<Longrightarrow> ident r = int i \<Longrightarrow> i < n \<Longrightarrow>
      fst (tset r db) \<and> rows (snd (tset r db)) = Some (rs[i := stamp r])"
    and new_value: "rows db = Some rs \<Longrightarrow> row_find key [] rs = Some i \<Longrightarrow> ok_key k \<Longrightarrow>
      fst (tnew k db) = Some (blank (int i) k) \<and> rows (snd (tnew k db)) = Some (rs[i := blank (int i) k])"
begin

abbreviation inv :: "'db \<Rightarrow> bool" where
  "inv \<equiv> stored_inv rows key ident n"

abbreviation known :: "'db \<Rightarrow> string set" where
  "known \<equiv> stored_keys rows key"

text \<open>One row of a well-formed table replaced by another with the same index.\<close>

lemma row_replaced:
  assumes "rows db = Some rs" "length rs = n" "row_unique key rs" "\<forall>i<n. ident (rs ! i) = int i"
    and "i < n" "ident r = int i" "rows db' = Some (rs[i := r])"
    and "key r = key (rs ! i) \<or> key (rs ! i) = [] \<and> key r \<notin> row_keys key rs" "key r \<noteq> []"
  shows "inv db' \<and> known db' = insert (key r) (known db)
    \<and> (\<forall>k'. k' \<noteq> [] \<longrightarrow> tget k' db' = (if k' = key r then Some r else tget k' db))"
proof -
  have same: "key r = [] \<or> key r = key (rs ! i) \<or> key r \<notin> row_keys key rs" using assms(8) by blast
  have i: "i < length rs" using assms(2,5) by simp
  have up: "inv db' \<and> known db' = (row_keys key rs - {key (rs ! i)}) \<union> ({key r} - {[]})"
    by (rule stored_update [where rows = rows and key = key and ident = ident, OF assms(7,2,3,4,5,6) same])
  have "known db = row_keys key rs" using assms(1) by (simp add: stored_keys_def)
  moreover have "row_keys key rs - {key (rs ! i)} \<union> {key r} = insert (key r) (row_keys key rs)"
    using assms(8,9) by (auto simp: row_keys_def)
  moreover have "tget k' db' = (if k' = key r then Some r else tget k' db)" if "k' \<noteq> []" for k'
    using row_get_update [OF assms(3) i that same] assms(8) that
    by (auto simp: get_row [OF assms(7)] get_row [OF assms(1)])
  ultimately show ?thesis using up assms(9) by auto
qed

lemma put_found:
  assumes "inv db" and "ok_key k" and "tget k db = Some r" and "ident r' = ident r" and "key r' = key r"
  shows "fst (tset r' db) \<and> inv (snd (tset r' db)) \<and> known (snd (tset r' db)) = known db \<and> k \<in> known db \<and> key r = k
    \<and> (\<forall>k'. k' \<noteq> [] \<longrightarrow> tget k' (snd (tset r' db)) = (if k' = k then Some (stamp r') else tget k' db))"
proof -
  obtain rs where rs: "rows db = Some rs" "length rs = n" "row_unique key rs" "\<forall>i<n. ident (rs ! i) = int i"
    using stored_invE [OF assms(1)] by blast
  from assms(3) row_get_Some [OF rs(3) ok_not_empty [OF assms(2)], of r]
  obtain i where i: "i < length rs" "rs ! i = r" "key r = k" by (auto simp: get_row [OF rs(1)])
  then have idx: "i < n" and ident: "ident r = int i" using rs(2,4) by auto
  have id: "ident r' = int i" "ident (stamp r') = int i" using ident assms(4) by (simp_all add: stamp_ident)
  note put = set_value [OF rs(1) id(1) idx]
  have k: "key (stamp r') = k" using assms(5) i(3) by (simp add: stamp_key)
  have mem: "k \<in> known db"
    using i ok_not_empty [OF assms(2)] by (auto simp: stored_keys_def rs(1) row_keys_def)
  then show ?thesis
    using row_replaced [OF rs idx id(2) conjunct2 [OF put]] put i(2,3) ok_not_empty [OF assms(2)]
    by (auto simp: k)
qed

lemma put_new:
  assumes "inv db" and "ok_key k" and "k \<notin> known db" and "card (known db) \<noteq> n"
    and "\<And>r. ident (g r) = ident r \<and> key (g r) = key r"
  shows "\<exists>i db'. tnew k db = (Some (blank i k), db') \<and> fst (tset (g (blank i k)) db')
    \<and> inv (snd (tset (g (blank i k)) db')) \<and> known (snd (tset (g (blank i k)) db')) = insert k (known db)
    \<and> (\<forall>k'. k' \<noteq> [] \<longrightarrow> tget k' (snd (tset (g (blank i k)) db')) = (if k' = k then Some (stamp (g (blank i k))) else tget k' db))"
proof -
  obtain rs where rs: "rows db = Some rs" "length rs = n" "row_unique key rs" "\<forall>i<n. ident (rs ! i) = int i"
    and keys: "known db = row_keys key rs" using stored_invE [OF assms(1)] by blast
  obtain i where i: "row_find key [] rs = Some i" "i < length rs" "key (rs ! i) = []"
    by (rule row_find_free [OF rs(3)]) (use assms(4) rs(2) keys in simp)
  let ?b = "blank (int i) k" and ?db = "snd (tnew k db)"
  note new = new_value [OF rs(1) i(1) assms(2)]
  have free: "key ?b = key (rs ! i) \<or> key (rs ! i) = [] \<and> key ?b \<notin> row_keys key rs"
    using assms(3) i(3) by (simp add: blank_key keys)
  have idx: "i < n" using i(2) rs(2) by simp
  have ne: "key ?b \<noteq> []" using ok_not_empty [OF assms(2)] by (simp add: blank_key)
  note added = row_replaced [OF rs idx blank_ident conjunct2 [OF new] free ne]
  then have inv: "inv ?db" and got: "tget k ?db = Some ?b" and known: "known ?db = insert k (known db)"
    and others: "\<forall>k'. k' \<noteq> [] \<longrightarrow> k' \<noteq> k \<longrightarrow> tget k' ?db = tget k' db"
    using ok_not_empty [OF assms(2)] by (auto simp: blank_key)
  have g: "ident (g ?b) = ident ?b" "key (g ?b) = key ?b" using assms(5) by simp_all
  have "tnew k db = (Some ?b, ?db)" using new by (metis prod.collapse)
  then show ?thesis
    using put_found [OF inv assms(2) got g] known others
    by (intro exI [of _ "int i"] exI [of _ ?db]) auto
qed

text \<open>Looking a row up, or adding it, and storing it changed.\<close>

lemma upsert:
  assumes "inv db" and "ok_key k" and "\<And>r. ident (f r) = ident r \<and> key (f r) = key r"
    and "\<And>r. ident (g r) = ident r \<and> key (g r) = key r" and "k \<in> known db \<or> card (known db) \<noteq> n"
  shows "\<exists>db'. table_upsert tget tnew tset f g k db = (True, db') \<and> inv db' \<and> known db' = insert k (known db)
    \<and> (\<exists>r. tget k db' = Some (stamp r)
         \<and> (case tget k db of Some r0 \<Rightarrow> r = f r0 | None \<Rightarrow> \<exists>i. r = g (blank i k)))
    \<and> (\<forall>k'. k' \<noteq> [] \<longrightarrow> k' \<noteq> k \<longrightarrow> tget k' db' = tget k' db)"
proof (cases "tget k db")
  case (Some r)
  let ?db = "snd (tset (f r) db)"
  have f: "ident (f r) = ident r" "key (f r) = key r" using assms(3) by simp_all
  note put = put_found [OF assms(1,2) Some f]
  then have "table_upsert tget tnew tset f g k db = (True, ?db)"
    by (cases "tset (f r) db") (simp add: table_upsert_def Some)
  moreover have "known ?db = insert k (known db)" using put by auto
  moreover have "tget k ?db = Some (stamp (f r))" using put ok_not_empty [OF assms(2)] by simp
  ultimately show ?thesis using put Some by (intro exI [of _ ?db]) simp
next
  case None
  with get_keys [OF assms(1,2)] have absent: "k \<notin> known db" by auto
  with assms(5) have "card (known db) \<noteq> n" by blast
  from put_new [where g = g, OF assms(1,2) absent this assms(4)] obtain j db1 where
    new: "tnew k db = (Some (blank j k), db1)" and put: "fst (tset (g (blank j k)) db1)"
      "inv (snd (tset (g (blank j k)) db1))" "known (snd (tset (g (blank j k)) db1)) = insert k (known db)"
      "\<And>k'. k' \<noteq> [] \<Longrightarrow> tget k' (snd (tset (g (blank j k)) db1)) = (if k' = k then Some (stamp (g (blank j k))) else tget k' db)"
    by blast
  let ?db = "snd (tset (g (blank j k)) db1)"
  have "table_upsert tget tnew tset f g k db = (True, ?db)"
    using put(1) by (cases "tset (g (blank j k)) db1") (simp add: table_upsert_def None new)
  moreover have "tget k ?db = Some (stamp (g (blank j k)))" using put(4) ok_not_empty [OF assms(2)] by simp
  ultimately show ?thesis using put None by (intro exI [of _ ?db]) auto
qed

lemma upsert_full:
  assumes "inv db" and "ok_key k" and "k \<notin> known db" and "card (known db) = n"
  shows "table_upsert tget tnew tset f g k db = (False, db)"
proof -
  have "tget k db = None" using get_keys [OF assms(1,2)] assms(3) by (cases "tget k db") auto
  then show ?thesis using new_full [OF assms(1,4)] by (simp add: table_upsert_def)
qed

end

section \<open>Tables whose rows are typed\<close>

text \<open>Every row, used or not, satisfies \<open>ok_row\<close> (its texts fit their fields).\<close>

definition rows_typed :: "('db \<Rightarrow> 'row list option) \<Rightarrow> ('row \<Rightarrow> bool) \<Rightarrow> 'db \<Rightarrow> bool" where
  "rows_typed rows ok db \<longleftrightarrow> (\<forall>rs. rows db = Some rs \<longrightarrow> (\<forall>r\<in>set rs. ok r))"

text \<open>All rows replaced at once, each keeping its key or becoming free.\<close>

lemma stored_replaced:
  assumes "stored_inv rows key ident n db" and "rows db = Some rs" and "rows db' = Some rs'" and "length rs' = length rs"
    and "\<And>i. i < n \<Longrightarrow> (key (rs' ! i) = key (rs ! i) \<or> key (rs' ! i) = []) \<and> ident (rs' ! i) = int i"
  shows "stored_inv rows key ident n db'"
proof -
  from stored_invE [OF assms(1)] assms(2)
  have rs: "length rs = n" "row_unique key rs" by auto
  have same: "i = j" if "i < n" "j < n" "key (rs' ! i) = key (rs' ! j)" "key (rs' ! i) \<noteq> []" for i j
  proof -
    have "key (rs' ! i) = key (rs ! i)" "key (rs' ! j) = key (rs ! j)"
      using assms(5) [OF that(1)] assms(5) [OF that(2)] that(3,4) by auto
    then show ?thesis using rs that by (auto simp: row_unique_def)
  qed
  moreover have "length rs' = n" using rs(1) assms(4) by simp
  ultimately have "row_unique key rs'" unfolding row_unique_def by blast
  then show ?thesis using assms rs(1) by (simp add: stored_inv_def)
qed

lemma all_rows_update: "\<forall>r\<in>set rs. ok r \<Longrightarrow> ok x \<Longrightarrow> \<forall>r\<in>set (rs[i := x]). ok r"
  using set_update_subset_insert [of rs i x] by blast

locale typed_table = stamped_table tget tnew tset tdel rows key ident n ok_key stamp blank
  for tget :: "string \<Rightarrow> 'db \<Rightarrow> 'row option"
    and tnew :: "string \<Rightarrow> 'db \<Rightarrow> 'row option \<times> 'db"
    and tset :: "'row \<Rightarrow> 'db \<Rightarrow> bool \<times> 'db"
    and tdel :: "string \<Rightarrow> 'db \<Rightarrow> bool \<times> 'db"
    and rows :: "'db \<Rightarrow> 'row list option"
    and key :: "'row \<Rightarrow> string"
    and ident :: "'row \<Rightarrow> int"
    and n :: nat
    and ok_key :: "string \<Rightarrow> bool"
    and stamp :: "'row \<Rightarrow> 'row"
    and blank :: "int \<Rightarrow> string \<Rightarrow> 'row" +
  fixes ok_row :: "'row \<Rightarrow> bool"
  assumes stamp_row: "ok_row r \<Longrightarrow> ok_row (stamp r)"
    and blank_row: "ok_key k \<Longrightarrow> ok_row (blank j k)"
    and del_row: "rows db = Some rs \<Longrightarrow> rows_typed rows ok_row db \<Longrightarrow> rows_typed rows ok_row (snd (tdel k db))"
begin

abbreviation typed :: "'db \<Rightarrow> bool" where
  "typed db \<equiv> inv db \<and> rows_typed rows ok_row db"

lemma typedE:
  assumes "typed db"
  obtains rs where "rows db = Some rs" "length rs = n" "row_unique key rs" "\<forall>i<n. ident (rs ! i) = int i" "\<forall>r\<in>set rs. ok_row r"
proof -
  have "inv db" using assms by simp
  then obtain rs where "rows db = Some rs" "length rs = n" "row_unique key rs" "\<forall>i<n. ident (rs ! i) = int i"
    by (rule stored_invE)
  with that assms show ?thesis by (simp add: rows_typed_def)
qed

lemma typed_get:
  assumes "typed db" and "k \<noteq> []" and "tget k db = Some r"
  obtains rs i where "rows db = Some rs" "i < n" "rs ! i = r" "ident r = int i" "key r = k" "ok_row r"
proof -
  obtain rs where rs: "rows db = Some rs" "length rs = n" "row_unique key rs" "\<forall>i<n. ident (rs ! i) = int i" "\<forall>r\<in>set rs. ok_row r"
    using assms(1) by (rule typedE)
  have "row_get key k rs = Some r" using assms(3) by (simp add: get_row [OF rs(1)])
  then obtain i where "i < length rs" "rs ! i = r" "key r = k" unfolding row_get_Some [OF rs(3) assms(2)] by blast
  with that rs show ?thesis by auto
qed

lemma typed_put:
  assumes "typed db" and "rows db = Some rs" and "i < n" and "ident r = int i" and "key r = key (rs ! i)" and "ok_row r"
  shows "typed (snd (tset r db))"
proof -
  obtain rs' where rs': "rows db = Some rs'" "length rs' = n" "row_unique key rs'" "\<forall>i<n. ident (rs' ! i) = int i" "\<forall>r\<in>set rs'. ok_row r"
    using assms(1) by (rule typedE)
  have eq: "rs' = rs" using rs'(1) assms(2) by simp
  note rs = rs' [unfolded eq]
  note put = conjunct2 [OF set_value [OF assms(2,4,3)]]
  have st: "ident (stamp r) = int i" "key (stamp r) = key (rs ! i)" using assms(4,5) by (simp_all add: stamp_ident stamp_key)
  have "inv (snd (tset r db))"
    using stored_update [where rows = rows and key = key and ident = ident, OF put rs(2-4) assms(3) st(1)] st(2) by simp
  moreover have "rows_typed rows ok_row (snd (tset r db))"
    using all_rows_update [OF rs(5) stamp_row [OF assms(6)]] by (simp add: rows_typed_def put)
  ultimately show ?thesis by simp
qed

lemma typed_found:
  assumes "typed db" and "k \<noteq> []" and "tget k db = Some r" and "ident r' = ident r" and "key r' = key r" and "ok_row r'"
  shows "typed (snd (tset r' db))"
proof -
  obtain rs i where i: "rows db = Some rs" "i < n" "rs ! i = r" "ident r = int i" "key r = k" "ok_row r"
    using assms(1-3) by (rule typed_get)
  then show ?thesis using typed_put [OF assms(1) i(1,2)] assms(4-6) by simp
qed

lemma typed_new:
  assumes "typed db" and "ok_key k" and "tget k db = None" and "tnew k db = (Some r, db')"
    and "ident r' = ident r" and "key r' = key r" and "ok_row r \<Longrightarrow> ok_row r'"
  shows "typed (snd (tset r' db'))"
proof -
  obtain rs where rs: "rows db = Some rs" "length rs = n" "row_unique key rs" "\<forall>i<n. ident (rs ! i) = int i" "\<forall>r\<in>set rs. ok_row r"
    using assms(1) by (rule typedE)
  obtain i where i: "row_find key [] rs = Some i"
    using assms(4) new_none [OF rs(1), of k] by (cases "row_find key [] rs") simp_all
  from new_value [OF rs(1) i assms(2)] assms(4)
  have r: "r = blank (int i) k" and db': "rows db' = Some (rs[i := r])" by simp_all
  have idx: "i < n" using row_find_key [OF i] rs(2) by simp
  have "row_get key k rs = None" using assms(3) by (simp add: get_row [OF rs(1)])
  then have absent: "k \<notin> row_keys key rs" using row_get_keys [OF ok_not_empty [OF assms(2)], of key rs] by simp
  have same: "key r = [] \<or> key r = key (rs ! i) \<or> key r \<notin> row_keys key rs" using absent r by (simp add: blank_key)
  have id: "ident r = int i" using r by (simp add: blank_ident)
  have inv: "inv db'"
    using stored_update [where rows = rows and key = key and ident = ident, OF db' rs(2-4) idx id same] by simp
  have ok: "ok_row r" using r blank_row [OF assms(2)] by simp
  have "rows_typed rows ok_row db'" using all_rows_update [OF rs(5) ok] by (simp add: rows_typed_def db')
  with inv have typed: "typed db'" by simp
  have args: "ident r' = int i" "key r' = key (rs[i := r] ! i)" "ok_row r'"
    using assms(5-7) id ok rs(2) idx by simp_all
  show ?thesis by (rule typed_put [OF typed db' idx args])
qed

lemma typed_new_none:
  assumes "typed db" and "ok_key k" and "tnew k db = (None, db')"
  shows "db' = db"
proof -
  obtain rs where rs: "rows db = Some rs" "length rs = n" "row_unique key rs" "\<forall>i<n. ident (rs ! i) = int i" "\<forall>r\<in>set rs. ok_row r"
    using assms(1) by (rule typedE)
  show ?thesis
  proof (cases "row_find key [] rs")
    case None
    with new_none [OF rs(1) None, of k] assms(3) show ?thesis by simp
  next
    case (Some i)
    from new_value [OF rs(1) Some assms(2)] assms(3) show ?thesis by simp
  qed
qed

lemma typed_upsert:
  assumes "typed db" and "ok_key k"
    and "\<And>r. ident (f r) = ident r \<and> key (f r) = key r \<and> (ok_row r \<longrightarrow> ok_row (f r))"
    and "\<And>r. ident (g r) = ident r \<and> key (g r) = key r \<and> (ok_row r \<longrightarrow> ok_row (g r))"
  shows "typed (snd (table_upsert tget tnew tset f g k db))"
proof (cases "tget k db")
  case (Some r)
  obtain rs i where r: "rows db = Some rs" "i < n" "rs ! i = r" "ident r = int i" "key r = k" "ok_row r"
    using assms(1) ok_not_empty [OF assms(2)] Some by (rule typed_get)
  have "ident (f r) = ident r" "key (f r) = key r" "ok_row (f r)" using assms(3) r(6) by simp_all
  from typed_found [OF assms(1) ok_not_empty [OF assms(2)] Some this] show ?thesis by (simp add: table_upsert_def Some)
next
  case None
  show ?thesis
  proof (cases "tnew k db")
    case (Pair x db')
    show ?thesis
    proof (cases x)
      case none: None
      with typed_new_none [OF assms(1,2), of db'] Pair None assms(1) show ?thesis by (simp add: table_upsert_def)
    next
      case (Some r)
      have "ident (g r) = ident r" "key (g r) = key r" "ok_row r \<Longrightarrow> ok_row (g r)" using assms(4) by simp_all
      from typed_new [OF assms(1,2) None _ this] Pair Some None show ?thesis by (simp add: table_upsert_def)
    qed
  qed
qed

lemma typed_delete:
  assumes "typed db" and "ok_key k"
  shows "typed (snd (tdel k db))"
proof -
  obtain rs where rs: "rows db = Some rs" "length rs = n" "row_unique key rs" "\<forall>i<n. ident (rs ! i) = int i" "\<forall>r\<in>set rs. ok_row r"
    using assms(1) by (rule typedE)
  have "rows_typed rows ok_row (snd (tdel k db))" using del_row [OF rs(1)] assms(1) by simp
  moreover have "inv (snd (tdel k db))" using del_keys [of db k] assms by simp
  ultimately show ?thesis by simp
qed

end

end
