(* ===== verification/NewDb.thy ===== *)
theory NewDb
  imports RowTable
begin

text \<open>
  The gateway database (\<open>IotCommon/newDb.c\<close>): four fixed-size tables in a shared memory
  segment that every process attaches, with copies handed out and written back.

  Each operation holds the database semaphore from its first to its last access and is one
  atomic step.  The segment is \<open>None\<close> in a process that has not attached it.  \<open>now\<close> is
  the time in seconds the operation reads; row pointers are never null (the callers pass
  addresses of local structures).  Log messages are left out.  Opening the segment, and saving
  it to and restoring it from a file, are in \<open>NewDbFile\<close>.
\<close>

definition NEWDB_VERSION :: c_int where "NEWDB_VERSION = 1"
definition NEWDB_MAX_SYSTEM :: nat where "NEWDB_MAX_SYSTEM = 20"
definition NEWDB_MAX_DEVICES :: nat where "NEWDB_MAX_DEVICES = 20"
definition NEWDB_MAX_PLUGHIST :: nat where "NEWDB_MAX_PLUGHIST = 400"
definition NEWDB_MAX_ZCB :: nat where "NEWDB_MAX_ZCB = 40"
definition LEN_MAC_NIBBLE :: nat where "LEN_MAC_NIBBLE = 16"
definition LEN_NM :: nat where "LEN_NM = 20"
definition LEN_TY :: nat where "LEN_TY = 8"
definition LEN_CMD :: nat where "LEN_CMD = 8"
definition LEN_SYSSTR :: nat where "LEN_SYSSTR = 20"
definition FLAG_TOPO_CLEAR :: int where "FLAG_TOPO_CLEAR = 0x10"

definition DEVICE_DEV_UNKNOWN :: c_int where "DEVICE_DEV_UNKNOWN = 0"
definition DEVICE_DEV_MANAGER :: c_int where "DEVICE_DEV_MANAGER = 1"
definition DEVICE_DEV_PUMP :: c_int where "DEVICE_DEV_PUMP = 5"
definition DEVICE_DEV_LAMP :: c_int where "DEVICE_DEV_LAMP = 6"
definition DEVICE_DEV_PLUG :: c_int where "DEVICE_DEV_PLUG = 7"

datatype empty_mode =
    MODE_DEV_EMPTY_ALL | MODE_DEV_EMPTY_CLIMATE | MODE_DEV_EMPTY_LAMPS | MODE_DEV_EMPTY_PLUGS
  | MODE_DEV_EMPTY_SWITCHES

datatype zcbNodeStatus = ZCB_STATUS_FREE | ZCB_STATUS_USED | ZCB_STATUS_JOINED | ZCB_STATUS_LEFT

record newdb_system_t =
  sys_id :: c_int
  sys_name :: string
  sys_intval :: c_int
  sys_strval :: string
  sys_lastupdate :: c_int

record newdb_dev_t =
  dev_id :: c_int
  dev_mac :: string
  dev_dev :: c_int
  dev_ty :: string
  dev_par :: c_int
  dev_nm :: string
  dev_heat :: c_int
  dev_cool :: c_int
  dev_tmp :: c_int
  dev_hum :: c_int
  dev_prs :: c_int
  dev_co2 :: c_int
  dev_bat :: c_int
  dev_batl :: c_int
  dev_als :: c_int
  dev_xloc :: c_int
  dev_yloc :: c_int
  dev_zloc :: c_int
  dev_sid :: c_int
  dev_cmd :: string
  dev_lvl :: c_int
  dev_rgb :: c_int
  dev_kelvin :: c_int
  dev_act :: c_int
  dev_sum :: c_int
  dev_flags :: c_int
  dev_lastupdate :: c_int

record newdb_plughist_t =
  ph_id :: c_int
  ph_mac :: string
  ph_sum :: c_int
  ph_lastupdate :: c_int

record newdb_zcb_t =
  zcb_id :: c_int
  zcb_mac :: string
  zcb_status :: zcbNodeStatus
  zcb_saddr :: c_int
  zcb_type :: c_int
  zcb_lastupdate :: c_int
  zcb_clusters :: u64
  zcb_info :: string
  zcb_profile :: u16
  zcb_version :: u8

record newdb =
  db_version :: c_int
  db_numwrites :: c_int
  db_lastupdate_sys :: c_int
  db_lastupdate_rooms :: c_int
  db_lastupdate_devices :: c_int
  db_lastupdate_plughist :: c_int
  db_lastupdate_zcb :: c_int
  db_system :: "newdb_system_t list"
  db_devices :: "newdb_dev_t list"
  db_plughist :: "newdb_plughist_t list"
  db_zcb :: "newdb_zcb_t list"

definition with_db :: "'a \<Rightarrow> (newdb \<Rightarrow> 'a \<times> newdb) \<Rightarrow> newdb option \<Rightarrow> 'a \<times> newdb option" where
  "with_db err f m = (case m of None \<Rightarrow> (err, None) | Some db \<Rightarrow> (case f db of (r, db') \<Rightarrow> (r, Some db')))"

definition zero_sys :: newdb_system_t where
  "zero_sys = \<lparr>sys_id = 0, sys_name = [], sys_intval = 0, sys_strval = [], sys_lastupdate = 0\<rparr>"

definition zero_dev :: newdb_dev_t where
  "zero_dev = \<lparr>dev_id = 0, dev_mac = [], dev_dev = 0, dev_ty = [], dev_par = 0, dev_nm = [], dev_heat = 0,
     dev_cool = 0, dev_tmp = 0, dev_hum = 0, dev_prs = 0, dev_co2 = 0, dev_bat = 0, dev_batl = 0, dev_als = 0,
     dev_xloc = 0, dev_yloc = 0, dev_zloc = 0, dev_sid = 0, dev_cmd = [], dev_lvl = 0, dev_rgb = 0,
     dev_kelvin = 0, dev_act = 0, dev_sum = 0, dev_flags = 0, dev_lastupdate = 0\<rparr>"

definition zero_ph :: newdb_plughist_t where
  "zero_ph = \<lparr>ph_id = 0, ph_mac = [], ph_sum = 0, ph_lastupdate = 0\<rparr>"

definition zero_zcb :: newdb_zcb_t where
  "zero_zcb = \<lparr>zcb_id = 0, zcb_mac = [], zcb_status = ZCB_STATUS_FREE, zcb_saddr = 0, zcb_type = 0,
     zcb_lastupdate = 0, zcb_clusters = 0, zcb_info = [], zcb_profile = 0, zcb_version = 0\<rparr>"

section \<open>The empty tables\<close>

definition newDbStrNcpy :: "string \<Rightarrow> nat \<Rightarrow> string" where
  "newDbStrNcpy src len = take len src"

text \<open>The segment after its memory is wiped, and with the tables \<open>newDbOpen\<close> initialises.\<close>

definition db_wiped :: newdb where
  "db_wiped = \<lparr>db_version = 0, db_numwrites = 0, db_lastupdate_sys = 0, db_lastupdate_rooms = 0,
     db_lastupdate_devices = 0, db_lastupdate_plughist = 0, db_lastupdate_zcb = 0,
     db_system = replicate NEWDB_MAX_SYSTEM zero_sys, db_devices = replicate NEWDB_MAX_DEVICES zero_dev,
     db_plughist = replicate NEWDB_MAX_PLUGHIST zero_ph, db_zcb = replicate NEWDB_MAX_ZCB zero_zcb\<rparr>"

definition db_fresh :: newdb where
  "db_fresh = db_wiped\<lparr>db_version := NEWDB_VERSION,
     db_system := map (\<lambda>i. zero_sys\<lparr>sys_id := int i, sys_name := []\<rparr>) [0..<NEWDB_MAX_SYSTEM],
     db_devices := map (\<lambda>i. zero_dev\<lparr>dev_id := int i, dev_mac := []\<rparr>) [0..<NEWDB_MAX_DEVICES],
     db_plughist := map (\<lambda>i. zero_ph\<lparr>ph_id := int i, ph_mac := []\<rparr>) [0..<NEWDB_MAX_PLUGHIST],
     db_zcb := map (\<lambda>i. zero_zcb\<lparr>zcb_id := int i, zcb_status := ZCB_STATUS_FREE\<rparr>) [0..<NEWDB_MAX_ZCB]\<rparr>"

section \<open>The system table\<close>

definition newDbGetSystem :: "string \<Rightarrow> newdb option \<Rightarrow> newdb_system_t option" where
  "newDbGetSystem name m = (case m of None \<Rightarrow> None | Some db \<Rightarrow> row_get sys_name name (db_system db))"

definition sys_written :: "c_int \<Rightarrow> newdb_system_t list \<Rightarrow> newdb \<Rightarrow> newdb" where
  "sys_written now rows db = db\<lparr>db_system := rows, db_numwrites := db_numwrites db + 1, db_lastupdate_sys := now\<rparr>"

definition newDbGetNewSystem ::
  "c_int \<Rightarrow> string \<Rightarrow> newdb option \<Rightarrow> newdb_system_t option \<times> newdb option" where
  "newDbGetNewSystem now name = with_db None (\<lambda>db.
     case row_find sys_name [] (db_system db) of
       None \<Rightarrow> (None, db)
     | Some i \<Rightarrow>
         (let r = zero_sys\<lparr>sys_id := int i, sys_lastupdate := now, sys_name := newDbStrNcpy name LEN_NM\<rparr>
          in (Some r, sys_written now ((db_system db)[i := r]) db)))"

definition newDbSetSystem :: "c_int \<Rightarrow> newdb_system_t \<Rightarrow> newdb option \<Rightarrow> bool \<times> newdb option" where
  "newDbSetSystem now psys = with_db False (\<lambda>db.
     if 0 \<le> sys_id psys \<and> sys_id psys < int NEWDB_MAX_SYSTEM then
       (True, sys_written now ((db_system db)[nat (sys_id psys) := psys\<lparr>sys_lastupdate := now\<rparr>]) db)
     else (False, db))"

definition newDbEmptySystem :: "c_int \<Rightarrow> newdb option \<Rightarrow> bool \<times> newdb option" where
  "newDbEmptySystem now = with_db False (\<lambda>db.
     (True, sys_written now
        (map (\<lambda>i. (db_system db ! i)\<lparr>sys_id := int i, sys_name := []\<rparr>) [0..<length (db_system db)]) db))"

definition newDbDeleteSystem :: "c_int \<Rightarrow> string \<Rightarrow> newdb option \<Rightarrow> bool \<times> newdb option" where
  "newDbDeleteSystem now name = with_db False (\<lambda>db.
     case row_find sys_name name (db_system db) of
       None \<Rightarrow> (False, db)
     | Some i \<Rightarrow> (True, sys_written now ((db_system db)[i := (db_system db ! i)\<lparr>sys_name := []\<rparr>]) db))"

section \<open>The device table\<close>

definition newDbGetDevice :: "string \<Rightarrow> newdb option \<Rightarrow> newdb_dev_t option" where
  "newDbGetDevice mac m = (case m of None \<Rightarrow> None | Some db \<Rightarrow> row_get dev_mac mac (db_devices db))"

definition newDbGetDeviceId :: "c_int \<Rightarrow> newdb option \<Rightarrow> newdb_dev_t option" where
  "newDbGetDeviceId i m = (case m of
     None \<Rightarrow> None
   | Some db \<Rightarrow> if 0 \<le> i \<and> i < int NEWDB_MAX_DEVICES then Some (db_devices db ! nat i) else None)"

definition dev_written :: "c_int \<Rightarrow> newdb_dev_t list \<Rightarrow> newdb \<Rightarrow> newdb" where
  "dev_written now rows db = db\<lparr>db_devices := rows, db_numwrites := db_numwrites db + 1, db_lastupdate_devices := now\<rparr>"

definition newDbGetNewDevice :: "c_int \<Rightarrow> string \<Rightarrow> newdb option \<Rightarrow> newdb_dev_t option \<times> newdb option" where
  "newDbGetNewDevice now mac = with_db None (\<lambda>db.
     case row_find dev_mac [] (db_devices db) of
       None \<Rightarrow> (None, db)
     | Some i \<Rightarrow>
         (let r = zero_dev\<lparr>dev_id := int i, dev_mac := newDbStrNcpy mac LEN_MAC_NIBBLE, dev_lastupdate := now\<rparr>
          in (Some r, dev_written now ((db_devices db)[i := r]) db)))"

definition newDbSetDevice :: "c_int \<Rightarrow> newdb_dev_t \<Rightarrow> newdb option \<Rightarrow> bool \<times> newdb option" where
  "newDbSetDevice now pdev = with_db False (\<lambda>db.
     if 0 \<le> dev_id pdev \<and> dev_id pdev < int NEWDB_MAX_DEVICES then
       (True, dev_written now ((db_devices db)[nat (dev_id pdev) := pdev\<lparr>dev_lastupdate := now\<rparr>]) db)
     else (False, db))"

definition newDbDeviceGetMac :: "c_int \<Rightarrow> newdb option \<Rightarrow> string option" where
  "newDbDeviceGetMac i m = (case m of
     None \<Rightarrow> None
   | Some db \<Rightarrow> if 0 \<le> i \<and> i < int NEWDB_MAX_DEVICES then Some (dev_mac (db_devices db ! nat i)) else None)"

definition empties_device :: "empty_mode \<Rightarrow> newdb_dev_t \<Rightarrow> bool" where
  "empties_device mode r = (case mode of
     MODE_DEV_EMPTY_ALL \<Rightarrow> True
   | MODE_DEV_EMPTY_CLIMATE \<Rightarrow> DEVICE_DEV_MANAGER \<le> dev_dev r \<and> dev_dev r \<le> DEVICE_DEV_PUMP
   | MODE_DEV_EMPTY_LAMPS \<Rightarrow> dev_dev r = DEVICE_DEV_LAMP
   | MODE_DEV_EMPTY_PLUGS \<Rightarrow> dev_dev r = DEVICE_DEV_PLUG
   | MODE_DEV_EMPTY_SWITCHES \<Rightarrow> False)"

definition newDbEmptyDevices :: "c_int \<Rightarrow> empty_mode \<Rightarrow> newdb option \<Rightarrow> bool \<times> newdb option" where
  "newDbEmptyDevices now mode = with_db False (\<lambda>db.
     (True, dev_written now
        (map (\<lambda>i. let r = db_devices db ! i
                  in (if empties_device mode r then r\<lparr>dev_mac := []\<rparr> else r)\<lparr>dev_id := int i\<rparr>)
          [0..<length (db_devices db)]) db))"

definition newest :: "c_int list \<Rightarrow> c_int" where
  "newest ts = fold (\<lambda>t latest. if t > latest then t else latest) ts 0"

definition newDbDevicesCalcChecksumRoom :: "c_int \<Rightarrow> newdb option \<Rightarrow> c_int" where
  "newDbDevicesCalcChecksumRoom room m = (case m of
     None \<Rightarrow> 0
   | Some db \<Rightarrow>
       (let used = filter (\<lambda>r. dev_mac r \<noteq> []) (db_devices db)
        in int (length used) * 100000 + newest (map dev_lastupdate used) smod 100000))"

definition newDbDevicesSetClearFlag :: "newdb option \<Rightarrow> bool \<times> newdb option" where
  "newDbDevicesSetClearFlag = with_db False (\<lambda>db.
     (True, db\<lparr>db_devices := map (\<lambda>r. if dev_mac r \<noteq> [] then r\<lparr>dev_flags := dev_flags r OR FLAG_TOPO_CLEAR\<rparr> else r)
                              (db_devices db)\<rparr>))"

definition newDbDevicesRemoveWithClearFlag :: "newdb option \<Rightarrow> bool \<times> newdb option" where
  "newDbDevicesRemoveWithClearFlag = with_db False (\<lambda>db.
     (True, db\<lparr>db_devices := map (\<lambda>r. if dev_flags r AND FLAG_TOPO_CLEAR \<noteq> 0 then r\<lparr>dev_mac := []\<rparr> else r)
                              (db_devices db)\<rparr>))"

definition newDbDeleteDevice :: "c_int \<Rightarrow> string \<Rightarrow> newdb option \<Rightarrow> bool \<times> newdb option" where
  "newDbDeleteDevice now mac = with_db False (\<lambda>db.
     case row_find dev_mac mac (db_devices db) of
       None \<Rightarrow> (False, db)
     | Some i \<Rightarrow> (True, dev_written now ((db_devices db)[i := (db_devices db ! i)\<lparr>dev_mac := []\<rparr>]) db))"

section \<open>The device and system tables as keyed tables\<close>

abbreviation sys_rows :: "newdb option \<Rightarrow> newdb_system_t list option" where
  "sys_rows \<equiv> map_option db_system"

abbreviation dev_rows :: "newdb option \<Rightarrow> newdb_dev_t list option" where
  "dev_rows \<equiv> map_option db_devices"

abbreviation ok_name_key :: "string \<Rightarrow> bool" where
  "ok_name_key k \<equiv> k \<noteq> [] \<and> length k \<le> LEN_NM"

abbreviation ok_mac_key :: "string \<Rightarrow> bool" where
  "ok_mac_key k \<equiv> k \<noteq> [] \<and> length k \<le> LEN_MAC_NIBBLE"

definition blank_device :: "c_int \<Rightarrow> c_int \<Rightarrow> string \<Rightarrow> newdb_dev_t" where
  "blank_device now i mac = zero_dev\<lparr>dev_id := i, dev_mac := mac, dev_lastupdate := now\<rparr>"

definition blank_system :: "c_int \<Rightarrow> c_int \<Rightarrow> string \<Rightarrow> newdb_system_t" where
  "blank_system now i name = zero_sys\<lparr>sys_id := i, sys_lastupdate := now, sys_name := name\<rparr>"

text \<open>Rows whose texts fit their fields.\<close>

definition dev_typed :: "newdb_dev_t \<Rightarrow> bool" where
  "dev_typed r \<longleftrightarrow> length (dev_mac r) \<le> LEN_MAC_NIBBLE \<and> length (dev_nm r) \<le> LEN_NM
     \<and> length (dev_ty r) \<le> LEN_TY \<and> length (dev_cmd r) \<le> LEN_CMD"

definition sys_typed :: "newdb_system_t \<Rightarrow> bool" where
  "sys_typed r \<longleftrightarrow> length (sys_name r) \<le> LEN_NM \<and> length (sys_strval r) \<le> LEN_SYSSTR"

lemma rows_typed_single:
  assumes "rows db = Some rs" and "rows_typed rows ok db" and "i < length rs" and "ok (rs ! i) \<Longrightarrow> ok x"
    and "rows db' = Some (rs[i := x])"
  shows "rows_typed rows ok db'"
proof -
  have all: "\<forall>r\<in>set rs. ok r" using assms(1,2) unfolding rows_typed_def by blast
  then have "ok x" using assms(3,4) nth_mem by blast
  from all_rows_update [OF all this] assms(5) show ?thesis unfolding rows_typed_def by simp
qed

interpretation devices: typed_table newDbGetDevice "newDbGetNewDevice now" "newDbSetDevice now" "newDbDeleteDevice now"
    dev_rows dev_mac dev_id NEWDB_MAX_DEVICES ok_mac_key "dev_lastupdate_update (\<lambda>_. now)" "blank_device now" dev_typed for now
proof unfold_locales
  fix m :: "newdb option" and rs r i k
  assume rs: "dev_rows m = Some rs"
  show "newDbGetDevice k m = row_get dev_mac k rs" using rs by (auto simp: newDbGetDevice_def)
  show "row_find dev_mac [] rs = None \<Longrightarrow> newDbGetNewDevice now k m = (None, m)"
    using rs by (auto simp: newDbGetNewDevice_def with_db_def)
  show "row_find dev_mac [] rs = Some i \<Longrightarrow> ok_mac_key k \<Longrightarrow>
      \<exists>r. dev_mac r = k \<and> dev_id r = int i \<and> fst (newDbGetNewDevice now k m) = Some r
        \<and> dev_rows (snd (newDbGetNewDevice now k m)) = Some (rs[i := r])"
    using rs by (auto simp: newDbGetNewDevice_def with_db_def dev_written_def newDbStrNcpy_def Let_def)
  show "dev_id r = int i \<Longrightarrow> i < NEWDB_MAX_DEVICES \<Longrightarrow>
      \<exists>r'. dev_mac r' = dev_mac r \<and> dev_id r' = dev_id r \<and> dev_rows (snd (newDbSetDevice now r m)) = Some (rs[i := r'])"
    using rs by (auto simp: newDbSetDevice_def with_db_def dev_written_def intro!: exI [of _ "r\<lparr>dev_lastupdate := now\<rparr>"])
  show "row_find dev_mac k rs = None \<Longrightarrow> snd (newDbDeleteDevice now k m) = m"
    using rs by (auto simp: newDbDeleteDevice_def with_db_def)
  show "row_find dev_mac k rs = Some i \<Longrightarrow>
      \<exists>r'. dev_mac r' = [] \<and> dev_id r' = dev_id (rs ! i) \<and> dev_rows (snd (newDbDeleteDevice now k m)) = Some (rs[i := r'])"
    using rs by (auto simp: newDbDeleteDevice_def with_db_def dev_written_def intro!: exI [of _ "(rs ! i)\<lparr>dev_mac := []\<rparr>"])
  show "dev_id r = int i \<Longrightarrow> i < NEWDB_MAX_DEVICES \<Longrightarrow>
      fst (newDbSetDevice now r m) \<and> dev_rows (snd (newDbSetDevice now r m)) = Some (rs[i := dev_lastupdate_update (\<lambda>_. now) r])"
    using rs by (auto simp: newDbSetDevice_def with_db_def dev_written_def)
  show "row_find dev_mac [] rs = Some i \<Longrightarrow> ok_mac_key k \<Longrightarrow>
      fst (newDbGetNewDevice now k m) = Some (blank_device now (int i) k)
        \<and> dev_rows (snd (newDbGetNewDevice now k m)) = Some (rs[i := blank_device now (int i) k])"
    using rs by (auto simp: newDbGetNewDevice_def with_db_def dev_written_def newDbStrNcpy_def Let_def blank_device_def)
  show "rows_typed dev_rows dev_typed (snd (newDbDeleteDevice now k m))" if "rows_typed dev_rows dev_typed m"
  proof (cases "row_find dev_mac k rs")
    case (Some i)
    then have "i < length rs" by (simp add: row_find_key)
    then show ?thesis
      by (rule rows_typed_single [where rows = dev_rows and x = "(rs ! i)\<lparr>dev_mac := []\<rparr>", OF rs that])
        (use rs Some in \<open>auto simp: newDbDeleteDevice_def with_db_def dev_written_def dev_typed_def\<close>)
  qed (use rs that in \<open>auto simp: newDbDeleteDevice_def with_db_def\<close>)
qed (simp_all add: blank_device_def dev_typed_def zero_dev_def)

interpretation systems: typed_table newDbGetSystem "newDbGetNewSystem now" "newDbSetSystem now" "newDbDeleteSystem now"
    sys_rows sys_name sys_id NEWDB_MAX_SYSTEM ok_name_key "sys_lastupdate_update (\<lambda>_. now)" "blank_system now" sys_typed for now
proof unfold_locales
  fix m :: "newdb option" and rs r i k
  assume rs: "sys_rows m = Some rs"
  show "newDbGetSystem k m = row_get sys_name k rs" using rs by (auto simp: newDbGetSystem_def)
  show "row_find sys_name [] rs = None \<Longrightarrow> newDbGetNewSystem now k m = (None, m)"
    using rs by (auto simp: newDbGetNewSystem_def with_db_def)
  show "row_find sys_name [] rs = Some i \<Longrightarrow> ok_name_key k \<Longrightarrow>
      \<exists>r. sys_name r = k \<and> sys_id r = int i \<and> fst (newDbGetNewSystem now k m) = Some r
        \<and> sys_rows (snd (newDbGetNewSystem now k m)) = Some (rs[i := r])"
    using rs by (auto simp: newDbGetNewSystem_def with_db_def sys_written_def newDbStrNcpy_def Let_def)
  show "sys_id r = int i \<Longrightarrow> i < NEWDB_MAX_SYSTEM \<Longrightarrow>
      \<exists>r'. sys_name r' = sys_name r \<and> sys_id r' = sys_id r \<and> sys_rows (snd (newDbSetSystem now r m)) = Some (rs[i := r'])"
    using rs by (auto simp: newDbSetSystem_def with_db_def sys_written_def intro!: exI [of _ "r\<lparr>sys_lastupdate := now\<rparr>"])
  show "row_find sys_name k rs = None \<Longrightarrow> snd (newDbDeleteSystem now k m) = m"
    using rs by (auto simp: newDbDeleteSystem_def with_db_def)
  show "row_find sys_name k rs = Some i \<Longrightarrow>
      \<exists>r'. sys_name r' = [] \<and> sys_id r' = sys_id (rs ! i) \<and> sys_rows (snd (newDbDeleteSystem now k m)) = Some (rs[i := r'])"
    using rs by (auto simp: newDbDeleteSystem_def with_db_def sys_written_def intro!: exI [of _ "(rs ! i)\<lparr>sys_name := []\<rparr>"])
  show "sys_id r = int i \<Longrightarrow> i < NEWDB_MAX_SYSTEM \<Longrightarrow>
      fst (newDbSetSystem now r m) \<and> sys_rows (snd (newDbSetSystem now r m)) = Some (rs[i := sys_lastupdate_update (\<lambda>_. now) r])"
    using rs by (auto simp: newDbSetSystem_def with_db_def sys_written_def)
  show "row_find sys_name [] rs = Some i \<Longrightarrow> ok_name_key k \<Longrightarrow>
      fst (newDbGetNewSystem now k m) = Some (blank_system now (int i) k)
        \<and> sys_rows (snd (newDbGetNewSystem now k m)) = Some (rs[i := blank_system now (int i) k])"
    using rs by (auto simp: newDbGetNewSystem_def with_db_def sys_written_def newDbStrNcpy_def Let_def blank_system_def)
  show "rows_typed sys_rows sys_typed (snd (newDbDeleteSystem now k m))" if "rows_typed sys_rows sys_typed m"
  proof (cases "row_find sys_name k rs")
    case (Some i)
    then have "i < length rs" by (simp add: row_find_key)
    then show ?thesis
      by (rule rows_typed_single [where rows = sys_rows and x = "(rs ! i)\<lparr>sys_name := []\<rparr>", OF rs that])
        (use rs Some in \<open>auto simp: newDbDeleteSystem_def with_db_def sys_written_def sys_typed_def\<close>)
  qed (use rs that in \<open>auto simp: newDbDeleteSystem_def with_db_def\<close>)
qed (simp_all add: blank_system_def sys_typed_def zero_sys_def)

section \<open>Properties\<close>

lemma db_fresh_devices: "dev_rows (Some db_fresh) = Some (map (\<lambda>i. zero_dev\<lparr>dev_id := int i\<rparr>) [0..<20])"
  by (simp add: db_fresh_def NEWDB_MAX_DEVICES_def zero_dev_def)

lemma stored_inv_fresh:
  assumes "rows db = Some (map g [0..<n])" and "\<And>i. key (g i) = []" and "\<And>i. ident (g i) = int i"
  shows "stored_inv rows key ident n db \<and> stored_keys rows key db = {}"
  using assms by (auto simp: stored_inv_def stored_keys_def row_unique_def row_keys_def)

text \<open>
  C2: The device table is a finite set of devices with room for twenty: from any database
  whose rows carry their indexes and distinct macs, after any sequence of the clients'
  operations (look a device up and add it if it is new, change the fields of a device,
  delete a device), a device is found exactly when the set of devices that sequence
  describes contains it, and that state is kept.
\<close>

theorem devices_refine_set:
  fixes now :: c_int
  assumes "stored_inv dev_rows dev_mac dev_id NEWDB_MAX_DEVICES m"
    and "\<forall>op\<in>set ops. op_key op \<noteq> [] \<and> length (op_key op) \<le> LEN_MAC_NIBBLE"
    and "\<And>r. dev_id (f r) = dev_id r \<and> dev_mac (f r) = dev_mac r" and "k \<noteq> []" and "length k \<le> LEN_MAC_NIBBLE"
  defines "m' \<equiv> fold (table_step newDbGetDevice (newDbGetNewDevice now) (newDbSetDevice now) (newDbDeleteDevice now) f) ops m"
  shows "((\<exists>r. newDbGetDevice k m' = Some r) \<longleftrightarrow> k \<in> fold (keys_step NEWDB_MAX_DEVICES) ops (stored_keys dev_rows dev_mac m))
       \<and> stored_inv dev_rows dev_mac dev_id NEWDB_MAX_DEVICES m'"
  unfolding m'_def using devices.run_lookup [OF assms(1,2,3), of k] devices.run_refines [OF assms(1,2,3)] assms(4,5) by simp

theorem devices_refine_set_witness:
  "(\<exists>r. newDbGetDevice ''00AB'' (fold (table_step newDbGetDevice (newDbGetNewDevice 7) (newDbSetDevice 7)
      (newDbDeleteDevice 7) (\<lambda>r. r\<lparr>dev_lvl := 50\<rparr>))
      [Ensure ''00AB'', Ensure ''00CD'', Modify ''00AB'', Remove ''00CD''] (Some db_fresh)) = Some r)"
proof -
  have "stored_inv dev_rows dev_mac dev_id NEWDB_MAX_DEVICES (Some db_fresh) \<and> stored_keys dev_rows dev_mac (Some db_fresh) = {}"
    unfolding NEWDB_MAX_DEVICES_def 
    by (rule stored_inv_fresh [where rows = dev_rows and db = "Some db_fresh", OF db_fresh_devices]) (simp_all add: zero_dev_def)
  then show ?thesis
    using devices_refine_set [where m = "Some db_fresh" and now = 7 and k = "''00AB''" and f = "\<lambda>r. r\<lparr>dev_lvl := 50\<rparr>"
        and ops = "[Ensure ''00AB'', Ensure ''00CD'', Modify ''00AB'', Remove ''00CD'']"]
    by (simp add: LEN_MAC_NIBBLE_def NEWDB_MAX_DEVICES_def)
qed

text \<open>
  The same holds of the system table, whose keys are names of up to twenty characters.
\<close>

theorem systems_refine_set:
  fixes now :: c_int
  assumes "stored_inv sys_rows sys_name sys_id NEWDB_MAX_SYSTEM m"
    and "\<forall>op\<in>set ops. op_key op \<noteq> [] \<and> length (op_key op) \<le> LEN_NM"
    and "\<And>r. sys_id (f r) = sys_id r \<and> sys_name (f r) = sys_name r" and "k \<noteq> []" and "length k \<le> LEN_NM"
  defines "m' \<equiv> fold (table_step newDbGetSystem (newDbGetNewSystem now) (newDbSetSystem now) (newDbDeleteSystem now) f) ops m"
  shows "((\<exists>r. newDbGetSystem k m' = Some r) \<longleftrightarrow> k \<in> fold (keys_step NEWDB_MAX_SYSTEM) ops (stored_keys sys_rows sys_name m))
       \<and> stored_inv sys_rows sys_name sys_id NEWDB_MAX_SYSTEM m'"
  unfolding m'_def using systems.run_lookup [OF assms(1,2,3), of k] systems.run_refines [OF assms(1,2,3)] assms(4,5) by simp

theorem systems_refine_set_witness:
  "\<not> (\<exists>r. newDbGetSystem ''gw'' (fold (table_step newDbGetSystem (newDbGetNewSystem 7) (newDbSetSystem 7)
      (newDbDeleteSystem 7) (\<lambda>r. r\<lparr>sys_intval := 1\<rparr>)) [Ensure ''gw'', Modify ''gw'', Remove ''gw''] (Some db_fresh)) = Some r)"
proof -
  have "sys_rows (Some db_fresh) = Some (map (\<lambda>i. zero_sys\<lparr>sys_id := int i\<rparr>) [0..<20])"
    by (simp add: db_fresh_def NEWDB_MAX_SYSTEM_def zero_sys_def)
  then have "stored_inv sys_rows sys_name sys_id NEWDB_MAX_SYSTEM (Some db_fresh) \<and> stored_keys sys_rows sys_name (Some db_fresh) = {}"
    unfolding NEWDB_MAX_SYSTEM_def
    by (rule stored_inv_fresh [where rows = sys_rows and db = "Some db_fresh"]) (simp_all add: zero_sys_def)
  then show ?thesis
    using systems_refine_set [where m = "Some db_fresh" and now = 7 and k = "''gw''" and f = "\<lambda>r. r\<lparr>sys_intval := 1\<rparr>"
        and ops = "[Ensure ''gw'', Modify ''gw'', Remove ''gw'']"]
    by (simp add: LEN_NM_def NEWDB_MAX_SYSTEM_def)
qed

lemma and_or_flag: "(a OR b) AND b = (b :: int)"
  by (rule bit_eqI) (auto simp: bit_simps)

text \<open>
  Marking and sweeping the device table removes exactly the devices nobody has
  confirmed since the mark: after \<open>newDbDevicesSetClearFlag\<close>, any change \<open>f\<close> of the rows
  that keeps their macs, and \<open>newDbDevicesRemoveWithClearFlag\<close>, the devices left are those
  whose clear flag the change has reset; with no change, none.
\<close>

theorem mark_and_sweep:
  fixes db :: newdb
  assumes "\<And>r. dev_mac (f r) = dev_mac r"
  defines "mark \<equiv> \<lambda>r. r\<lparr>dev_flags := dev_flags r OR FLAG_TOPO_CLEAR\<rparr>"
  defines "swept \<equiv> \<lambda>g. stored_keys dev_rows dev_mac (snd (newDbDevicesRemoveWithClearFlag
      (map_option (\<lambda>db. db\<lparr>db_devices := map g (db_devices db)\<rparr>) (snd (newDbDevicesSetClearFlag (Some db))))))"
  shows "swept f = {dev_mac r |r. r \<in> set (db_devices db) \<and> dev_mac r \<noteq> [] \<and> dev_flags (f (mark r)) AND FLAG_TOPO_CLEAR = 0}
       \<and> swept (\<lambda>r. r) = {}"
proof -
  have *: "stored_keys dev_rows dev_mac (snd (newDbDevicesRemoveWithClearFlag
      (map_option (\<lambda>db. db\<lparr>db_devices := map g (db_devices db)\<rparr>) (snd (newDbDevicesSetClearFlag (Some db))))))
     = {dev_mac r |r. r \<in> set (db_devices db) \<and> dev_mac r \<noteq> [] \<and> dev_flags (g (mark r)) AND FLAG_TOPO_CLEAR = 0}"
    if g: "\<And>r. dev_mac (g r) = dev_mac r" for g
  proof -
    define h where "h = (\<lambda>x. let y = g (if dev_mac x \<noteq> [] then mark x else x)
        in if dev_flags y AND FLAG_TOPO_CLEAR \<noteq> 0 then y\<lparr>dev_mac := []\<rparr> else y)"
    have "stored_keys dev_rows dev_mac (snd (newDbDevicesRemoveWithClearFlag
        (map_option (\<lambda>db. db\<lparr>db_devices := map g (db_devices db)\<rparr>) (snd (newDbDevicesSetClearFlag (Some db))))))
      = row_keys dev_mac (map h (db_devices db))"
      unfolding h_def mark_def Let_def
      by (simp add: newDbDevicesRemoveWithClearFlag_def newDbDevicesSetClearFlag_def with_db_def
          stored_keys_def comp_def)
    moreover have "dev_mac (h x) = (if dev_mac x \<noteq> [] \<and> dev_flags (g (mark x)) AND FLAG_TOPO_CLEAR = 0 then dev_mac x else [])" for x
      using g by (simp add: h_def Let_def mark_def)
    ultimately show ?thesis by (auto simp: row_keys_def image_image split: if_splits)
  qed
  have "dev_flags (mark r) AND FLAG_TOPO_CLEAR \<noteq> 0" for r
    by (simp add: mark_def and_or_flag) (simp add: FLAG_TOPO_CLEAR_def)
  with * [of f] * [of "\<lambda>r. r"] assms(1) show ?thesis by (simp add: swept_def)
qed

theorem mark_and_sweep_witness:
  "stored_keys dev_rows dev_mac (snd (newDbDevicesRemoveWithClearFlag
     (map_option (\<lambda>db. db\<lparr>db_devices := map (\<lambda>r. if dev_mac r = ''AA'' then r\<lparr>dev_flags := 0\<rparr> else r) (db_devices db)\<rparr>)
       (snd (newDbDevicesSetClearFlag (Some (db_fresh\<lparr>db_devices := [zero_dev\<lparr>dev_mac := ''AA''\<rparr>]\<rparr>))))))) = {''AA''}"
proof -
  have sel: "dev_flags zero_dev = 0" by (simp add: zero_dev_def)
  show ?thesis
    using mark_and_sweep [of "\<lambda>r. if dev_mac r = ''AA'' then r\<lparr>dev_flags := 0\<rparr> else r"
        "db_fresh\<lparr>db_devices := [zero_dev\<lparr>dev_mac := ''AA''\<rparr>]\<rparr>"]
    by (simp add: sel cong: conj_cong)
qed

end
