(* ===== verification/NewDbHist.thy ===== *)
theory NewDbHist
  imports NewDb
begin

text \<open>
  The other two tables of \<open>IotCommon/newDb.c\<close>: the plug-meter samples, where a sample is
  re-used within its minute and the oldest one gives way when the table is full, and the
  Zigbee nodes; the change indicators of all tables, and the loops that hand rows to a
  call-back.
\<close>

section \<open>Plug history\<close>

text \<open>
  The scan of \<open>newDbGetMatchingOrNewPlugHist\<close>, which stops at a match; an index \<open>-1\<close> of
  the code is \<open>None\<close>.
\<close>

record plughist_scan_t =
  firstempty :: "nat option"
  matching :: "nat option"
  oldest :: "nat option"
  oldest_ts :: c_int

definition plughist_matches :: "string \<Rightarrow> c_int \<Rightarrow> newdb_plughist_t \<Rightarrow> bool" where
  "plughist_matches mac minute r \<longleftrightarrow> ph_mac r \<noteq> [] \<and> ph_lastupdate r sdiv 60 = minute \<and> ph_mac r = mac"

definition plughist_visit :: "string \<Rightarrow> c_int \<Rightarrow> nat \<Rightarrow> newdb_plughist_t \<Rightarrow> plughist_scan_t \<Rightarrow> plughist_scan_t" where
  "plughist_visit mac minute i r acc =
     (if ph_mac r = [] then (if firstempty acc = None then acc\<lparr>firstempty := Some i\<rparr> else acc)
      else (let a = (if oldest_ts acc < 0 \<or> oldest_ts acc > ph_lastupdate r
                     then acc\<lparr>oldest_ts := ph_lastupdate r, oldest := Some i\<rparr> else acc)
            in if plughist_matches mac minute r then a\<lparr>matching := Some i\<rparr> else a))"

fun plughist_scan :: "string \<Rightarrow> c_int \<Rightarrow> nat \<Rightarrow> newdb_plughist_t list \<Rightarrow> plughist_scan_t \<Rightarrow> plughist_scan_t" where
  "plughist_scan mac minute i [] acc = acc"
| "plughist_scan mac minute i (r # rs) acc =
     (if matching acc \<noteq> None then acc else plughist_scan mac minute (Suc i) rs (plughist_visit mac minute i r acc))"

definition plughist_scan_init :: plughist_scan_t where
  "plughist_scan_init = \<lparr>firstempty = None, matching = None, oldest = None, oldest_ts = - 1\<rparr>"

definition plughist_choose :: "plughist_scan_t \<Rightarrow> nat option" where
  "plughist_choose sc = (case matching sc of Some i \<Rightarrow> Some i
     | None \<Rightarrow> (case firstempty sc of Some i \<Rightarrow> Some i | None \<Rightarrow> oldest sc))"

definition ph_written :: "c_int \<Rightarrow> newdb_plughist_t list \<Rightarrow> newdb \<Rightarrow> newdb" where
  "ph_written now rows db = db\<lparr>db_plughist := rows, db_numwrites := db_numwrites db + 1, db_lastupdate_plughist := now\<rparr>"

definition newDbGetMatchingOrNewPlugHist ::
  "c_int \<Rightarrow> string \<Rightarrow> c_int \<Rightarrow> newdb option \<Rightarrow> newdb_plughist_t option \<times> newdb option" where
  "newDbGetMatchingOrNewPlugHist now mac minute = with_db None (\<lambda>db.
     case plughist_choose (plughist_scan mac minute 0 (db_plughist db) plughist_scan_init) of
       None \<Rightarrow> (None, db)
     | Some i \<Rightarrow>
         (let r = zero_ph\<lparr>ph_id := int i, ph_mac := newDbStrNcpy mac LEN_MAC_NIBBLE, ph_lastupdate := now\<rparr>
          in (Some r, ph_written now ((db_plughist db)[i := r]) db)))"

definition newDbSetPlugHist :: "c_int \<Rightarrow> newdb_plughist_t \<Rightarrow> newdb option \<Rightarrow> bool \<times> newdb option" where
  "newDbSetPlugHist now phist = with_db False (\<lambda>db.
     if 0 \<le> ph_id phist \<and> ph_id phist < int NEWDB_MAX_PLUGHIST then
       (True, ph_written now ((db_plughist db)[nat (ph_id phist) := phist\<lparr>ph_lastupdate := now\<rparr>]) db)
     else (False, db))"

definition newDbGetNumOfPlughist :: "newdb option \<Rightarrow> nat" where
  "newDbGetNumOfPlughist m = (case m of None \<Rightarrow> 0
     | Some db \<Rightarrow> length (filter (\<lambda>r. ph_mac r \<noteq> []) (db_plughist db)))"

definition newDbEmptyPlugHist :: "c_int \<Rightarrow> newdb option \<Rightarrow> bool \<times> newdb option" where
  "newDbEmptyPlugHist now = with_db False (\<lambda>db.
     (True, ph_written now
        (map (\<lambda>i. (db_plughist db ! i)\<lparr>ph_id := int i, ph_mac := []\<rparr>) [0..<length (db_plughist db)]) db))"

definition newDbDeletePlugHist :: "c_int \<Rightarrow> c_int \<Rightarrow> newdb option \<Rightarrow> bool \<times> newdb option" where
  "newDbDeletePlugHist now i = with_db False (\<lambda>db.
     if 0 \<le> i \<and> i < int NEWDB_MAX_PLUGHIST then
       (True, ph_written now ((db_plughist db)[nat i := (db_plughist db ! nat i)\<lparr>ph_mac := []\<rparr>]) db)
     else (False, db))"

text \<open>A loop that hands rows to a call-back with a state of its own until it returns zero.\<close>

fun loop_rows :: "('row \<Rightarrow> bool) \<Rightarrow> ('row \<Rightarrow> 's \<Rightarrow> bool \<times> 's) \<Rightarrow> 'row list \<Rightarrow> 's \<Rightarrow> bool \<times> 's" where
  "loop_rows sel cb [] s = (True, s)"
| "loop_rows sel cb (r # rs) s =
     (if sel r then (case cb r s of (ok, s') \<Rightarrow> if ok then loop_rows sel cb rs s' else (False, s'))
      else loop_rows sel cb rs s)"

definition newDbLoopPlugHist ::
  "string \<Rightarrow> (newdb_plughist_t \<Rightarrow> 's \<Rightarrow> bool \<times> 's) \<Rightarrow> newdb option \<Rightarrow> 's \<Rightarrow> bool \<times> 's" where
  "newDbLoopPlugHist mac cb m s = (case m of None \<Rightarrow> (False, s)
     | Some db \<Rightarrow> loop_rows (\<lambda>r. ph_mac r = mac) cb (db_plughist db) s)"

section \<open>Zigbee nodes\<close>

abbreviation zcb_free :: "newdb_zcb_t \<Rightarrow> bool" where
  "zcb_free r \<equiv> zcb_status r = ZCB_STATUS_FREE"

definition zcb_get :: "(newdb_zcb_t \<Rightarrow> bool) \<Rightarrow> newdb option \<Rightarrow> newdb_zcb_t option" where
  "zcb_get P m = (case m of None \<Rightarrow> None
     | Some db \<Rightarrow> map_option (nth (db_zcb db)) (first_idx (\<lambda>r. \<not> zcb_free r \<and> P r) (db_zcb db)))"

definition newDbGetZcb :: "string \<Rightarrow> newdb option \<Rightarrow> newdb_zcb_t option" where
  "newDbGetZcb mac = zcb_get (\<lambda>r. zcb_mac r = mac)"

definition newDbGetZcbSaddr :: "c_int \<Rightarrow> newdb option \<Rightarrow> newdb_zcb_t option" where
  "newDbGetZcbSaddr saddr = zcb_get (\<lambda>r. zcb_saddr r = saddr)"

text \<open>The scan of \<open>newDbGetNewZcb\<close>: whether a free slot was found, and the slot to use.\<close>

fun zcb_scan :: "nat \<Rightarrow> newdb_zcb_t list \<Rightarrow> nat option \<Rightarrow> c_int \<Rightarrow> bool \<times> nat option" where
  "zcb_scan i [] idx old = (False, idx)"
| "zcb_scan i (r # rs) idx old =
     (if zcb_free r then (True, Some i)
      else if zcb_lastupdate r < old then zcb_scan (Suc i) rs (Some i) (zcb_lastupdate r)
      else zcb_scan (Suc i) rs idx old)"

definition zcb_written :: "c_int \<Rightarrow> newdb_zcb_t list \<Rightarrow> newdb \<Rightarrow> newdb" where
  "zcb_written now rows db = db\<lparr>db_zcb := rows, db_numwrites := db_numwrites db + 1, db_lastupdate_zcb := now\<rparr>"

text \<open>The result is the code's return value and the row copied to the caller.\<close>

definition newDbGetNewZcb ::
  "c_int \<Rightarrow> string \<Rightarrow> newdb option \<Rightarrow> (bool \<times> newdb_zcb_t option) \<times> newdb option" where
  "newDbGetNewZcb now mac = with_db (False, None) (\<lambda>db.
     case zcb_scan 0 (db_zcb db) None now of
       (added, None) \<Rightarrow> ((added, None), db)
     | (added, Some i) \<Rightarrow>
         (let r = zero_zcb\<lparr>zcb_id := int i, zcb_status := ZCB_STATUS_USED,
                           zcb_mac := newDbStrNcpy mac LEN_MAC_NIBBLE, zcb_lastupdate := now\<rparr>
          in ((added, Some r), zcb_written now ((db_zcb db)[i := r]) db)))"

definition newDbSetZcb :: "c_int \<Rightarrow> newdb_zcb_t \<Rightarrow> newdb option \<Rightarrow> bool \<times> newdb option" where
  "newDbSetZcb now pzcb = with_db False (\<lambda>db.
     if 0 \<le> zcb_id pzcb \<and> zcb_id pzcb < int NEWDB_MAX_ZCB then
       (True, zcb_written now ((db_zcb db)[nat (zcb_id pzcb) := pzcb\<lparr>zcb_lastupdate := now\<rparr>]) db)
     else (False, db))"

definition newDbEmptyZcb :: "c_int \<Rightarrow> newdb option \<Rightarrow> bool \<times> newdb option" where
  "newDbEmptyZcb now = with_db False (\<lambda>db.
     (True, zcb_written now
        (map (\<lambda>i. (db_zcb db ! i)\<lparr>zcb_id := int i, zcb_status := ZCB_STATUS_FREE\<rparr>) [0..<length (db_zcb db)]) db))"

definition newDbLoopZcb :: "(newdb_zcb_t \<Rightarrow> 's \<Rightarrow> bool \<times> 's) \<Rightarrow> newdb option \<Rightarrow> 's \<Rightarrow> bool \<times> 's" where
  "newDbLoopZcb cb m s = (case m of None \<Rightarrow> (False, s)
     | Some db \<Rightarrow> loop_rows (\<lambda>r. \<not> zcb_free r) cb (db_zcb db) s)"

section \<open>Change indicators\<close>

definition lastupdate_of :: "('row \<Rightarrow> bool) \<Rightarrow> ('row \<Rightarrow> c_int) \<Rightarrow> 'row list \<Rightarrow> c_int" where
  "lastupdate_of sel stamp rows =
     (let used = filter sel rows in newest (map stamp used) + int (length used))"

definition newDbGetLastupdateSystem :: "newdb option \<Rightarrow> c_int" where
  "newDbGetLastupdateSystem m = (case m of None \<Rightarrow> 0
     | Some db \<Rightarrow> lastupdate_of (\<lambda>r. sys_name r \<noteq> []) sys_lastupdate (db_system db))"

definition in_dev_range :: "c_int \<Rightarrow> c_int \<Rightarrow> newdb_dev_t \<Rightarrow> bool" where
  "in_dev_range dev1 dev2 r \<longleftrightarrow> dev1 = 0 \<or> (dev1 \<le> dev_dev r \<and> dev_dev r \<le> dev2)"

definition newDbGetLastupdateDevicesDev :: "c_int \<Rightarrow> c_int \<Rightarrow> newdb option \<Rightarrow> c_int" where
  "newDbGetLastupdateDevicesDev dev1 dev2 m = (case m of None \<Rightarrow> 0
     | Some db \<Rightarrow> lastupdate_of (\<lambda>r. dev_mac r \<noteq> [] \<and> in_dev_range dev1 dev2 r) dev_lastupdate (db_devices db))"

definition newDbGetLastupdateDevices :: "newdb option \<Rightarrow> c_int" where
  "newDbGetLastupdateDevices = newDbGetLastupdateDevicesDev DEVICE_DEV_UNKNOWN DEVICE_DEV_UNKNOWN"

definition newDbGetLastupdatePlug :: "newdb option \<Rightarrow> c_int" where
  "newDbGetLastupdatePlug = newDbGetLastupdateDevicesDev DEVICE_DEV_PLUG DEVICE_DEV_PLUG"

definition newDbGetLastupdateLamp :: "newdb option \<Rightarrow> c_int" where
  "newDbGetLastupdateLamp = newDbGetLastupdateDevicesDev DEVICE_DEV_LAMP DEVICE_DEV_LAMP"

definition newDbGetLastupdateClimate :: "newdb option \<Rightarrow> c_int" where
  "newDbGetLastupdateClimate = newDbGetLastupdateDevicesDev DEVICE_DEV_MANAGER DEVICE_DEV_PUMP"

definition newDbGetLastupdateZcb :: "newdb option \<Rightarrow> c_int" where
  "newDbGetLastupdateZcb m = (case m of None \<Rightarrow> 0
     | Some db \<Rightarrow> lastupdate_of (\<lambda>r. \<not> zcb_free r) zcb_lastupdate (db_zcb db))"

definition newDbGetLastupdatePlugHist :: "newdb option \<Rightarrow> c_int" where
  "newDbGetLastupdatePlugHist m = (case m of None \<Rightarrow> 0
     | Some db \<Rightarrow> lastupdate_of (\<lambda>r. ph_mac r \<noteq> []) ph_lastupdate (db_plughist db))"

section \<open>The scans\<close>

text \<open>What the scan knows after the rows \<open>pre\<close>, none of which matched.\<close>

definition scan_inv :: "string \<Rightarrow> c_int \<Rightarrow> newdb_plughist_t list \<Rightarrow> plughist_scan_t \<Rightarrow> bool" where
  "scan_inv mac minute pre acc \<longleftrightarrow> matching acc = None \<and> (\<forall>r\<in>set pre. \<not> plughist_matches mac minute r)
     \<and> firstempty acc = first_idx (\<lambda>r. ph_mac r = []) pre
     \<and> (case oldest acc of
          None \<Rightarrow> oldest_ts acc = - 1 \<and> (\<forall>r\<in>set pre. ph_mac r = [])
        | Some j \<Rightarrow> j < length pre \<and> ph_mac (pre ! j) \<noteq> [] \<and> oldest_ts acc = ph_lastupdate (pre ! j) \<and> 0 \<le> oldest_ts acc
            \<and> (\<forall>r\<in>set pre. ph_mac r \<noteq> [] \<longrightarrow> oldest_ts acc \<le> ph_lastupdate r))"

lemma first_idx_snoc:
  "first_idx P (xs @ [x]) = (case first_idx P xs of Some i \<Rightarrow> Some i | None \<Rightarrow> if P x then Some (length xs) else None)"
  by (induction xs) (auto split: option.split)

lemma scan_inv_visit:
  assumes "scan_inv mac minute pre acc" and "0 \<le> ph_lastupdate r" and "\<not> plughist_matches mac minute r"
  shows "scan_inv mac minute (pre @ [r]) (plughist_visit mac minute (length pre) r acc)"
proof (cases "ph_mac r = []")
  case True
  with assms show ?thesis
    by (auto simp: scan_inv_def plughist_visit_def first_idx_snoc nth_append split: option.splits)
next
  case False
  show ?thesis
  proof (cases "oldest acc")
    case None
    with assms False show ?thesis
      by (auto simp: scan_inv_def plughist_visit_def first_idx_snoc Let_def split: option.splits)
  next
    case (Some j)
    with assms False show ?thesis
      by (auto simp: scan_inv_def plughist_visit_def first_idx_snoc Let_def nth_append split: option.splits)
  qed
qed

lemma plughist_scan_spec:
  assumes "scan_inv mac minute pre acc" and "\<forall>r\<in>set rs. 0 \<le> ph_lastupdate r"
  defines "res \<equiv> plughist_scan mac minute (length pre) rs acc"
  shows "(\<exists>i. matching res = Some i \<and> i < length (pre @ rs) \<and> plughist_matches mac minute ((pre @ rs) ! i))
       \<or> scan_inv mac minute (pre @ rs) res"
  using assms(1,2) unfolding res_def
proof (induction rs arbitrary: pre acc)
  case (Cons r rs)
  have m: "matching acc = None" using Cons.prems(1) by (simp add: scan_inv_def)
  show ?case
  proof (cases "plughist_matches mac minute r")
    case True
    then have "matching (plughist_visit mac minute (length pre) r acc) = Some (length pre)"
      by (auto simp: plughist_visit_def plughist_matches_def Let_def)
    then have "plughist_scan mac minute (Suc (length pre)) rs (plughist_visit mac minute (length pre) r acc)
        = plughist_visit mac minute (length pre) r acc" by (cases rs) simp_all
    with m True show ?thesis by (auto simp: \<open>matching _ = Some _\<close>)
  next
    case False
    from Cons.IH [OF scan_inv_visit [OF Cons.prems(1) _ False]] Cons.prems(2) m show ?thesis by simp
  qed
qed simp

lemma scan_inv_init: "scan_inv mac minute [] plughist_scan_init"
  by (simp add: scan_inv_def plughist_scan_init_def)

lemma zcb_scan_spec:
  "zcb_scan k rs idx ts = (added, j) \<Longrightarrow>
     (added \<and> (\<exists>i<length rs. j = Some (k + i) \<and> zcb_free (rs ! i) \<and> (\<forall>l<i. \<not> zcb_free (rs ! l))))
   \<or> (\<not> added \<and> (\<forall>r\<in>set rs. \<not> zcb_free r)
      \<and> (j = idx \<and> (\<forall>r\<in>set rs. ts \<le> zcb_lastupdate r)
         \<or> (\<exists>i<length rs. j = Some (k + i) \<and> zcb_lastupdate (rs ! i) < ts
              \<and> (\<forall>r\<in>set rs. zcb_lastupdate (rs ! i) \<le> zcb_lastupdate r))))"
proof (induction rs arbitrary: k idx ts)
  case (Cons r rs)
  show ?case
  proof (cases "zcb_free r")
    case True
    with Cons.prems show ?thesis by force
  next
    case used: False
    let ?idx = "if zcb_lastupdate r < ts then Some k else idx"
    let ?ts = "if zcb_lastupdate r < ts then zcb_lastupdate r else ts"
    have "zcb_scan (Suc k) rs ?idx ?ts = (added, j)" using Cons.prems used by (auto split: if_splits)
    from Cons.IH [OF this] show ?thesis
    proof (elim disjE conjE exE)
      fix i assume "added" "i < length rs" "j = Some (Suc k + i)" "zcb_free (rs ! i)" "\<forall>l<i. \<not> zcb_free (rs ! l)"
      with used show ?thesis by (intro disjI1 conjI exI [of _ "Suc i"]) (auto simp: nth_Cons split: nat.split)
    next
      assume "\<not> added" "\<forall>r\<in>set rs. \<not> zcb_free r" "j = ?idx" "\<forall>r\<in>set rs. ?ts \<le> zcb_lastupdate r"
      with used show ?thesis by (auto split: if_splits intro!: exI [of _ "0 :: nat"])
    next
      fix i assume "\<not> added" "\<forall>r\<in>set rs. \<not> zcb_free r" "i < length rs" "j = Some (Suc k + i)"
        "zcb_lastupdate (rs ! i) < ?ts" "\<forall>r\<in>set rs. zcb_lastupdate (rs ! i) \<le> zcb_lastupdate r"
      with used show ?thesis
        by (intro disjI2 conjI disjI2 exI [of _ "Suc i"]) (auto split: if_splits)
    qed
  qed
qed simp

section \<open>Properties\<close>

text \<open>
  A plug sample always finds a slot, and the right one: the row of the same plug and
  minute if there is one, otherwise a free row, otherwise the oldest sample, which it
  replaces.  The row returned is in every case a new one with sum zero (so a matching row
  loses its sum), and all other samples stay.
\<close>

theorem plughist_slot:
  assumes "\<forall>r\<in>set (db_plughist db). 0 \<le> ph_lastupdate r" and "db_plughist db \<noteq> []"
  shows "\<exists>i<length (db_plughist db).
       (let rows = db_plughist db;
            r = \<lparr>ph_id = int i, ph_mac = take LEN_MAC_NIBBLE mac, ph_sum = 0, ph_lastupdate = now\<rparr> in
        newDbGetMatchingOrNewPlugHist now mac minute (Some db) = (Some r, Some (ph_written now (rows[i := r]) db))
      \<and> (if \<exists>r\<in>set rows. plughist_matches mac minute r then plughist_matches mac minute (rows ! i)
         else if \<exists>r\<in>set rows. ph_mac r = [] then ph_mac (rows ! i) = []
         else \<forall>r\<in>set rows. ph_lastupdate (rows ! i) \<le> ph_lastupdate r))"
proof -
  let ?rows = "db_plughist db"
  let ?res = "plughist_scan mac minute 0 ?rows plughist_scan_init"
  have "\<exists>i<length ?rows. plughist_choose ?res = Some i
      \<and> (if \<exists>r\<in>set ?rows. plughist_matches mac minute r then plughist_matches mac minute (?rows ! i)
         else if \<exists>r\<in>set ?rows. ph_mac r = [] then ph_mac (?rows ! i) = []
         else \<forall>r\<in>set ?rows. ph_lastupdate (?rows ! i) \<le> ph_lastupdate r)"
    using plughist_scan_spec [OF scan_inv_init assms(1), of mac minute]
  proof (elim disjE exE)
    fix i assume "matching (plughist_scan mac minute (length []) ?rows plughist_scan_init) = Some i \<and>
      i < length ([] @ ?rows) \<and> plughist_matches mac minute (([] @ ?rows) ! i)"
    then show ?thesis by (auto simp: plughist_choose_def intro!: exI [of _ i])
  next
    assume inv: "scan_inv mac minute ([] @ ?rows) (plughist_scan mac minute (length []) ?rows plughist_scan_init)"
    show ?thesis
    proof (cases "first_idx (\<lambda>r. ph_mac r = []) ?rows")
      case (Some i)
      with inv first_idx_SomeD [OF Some] show ?thesis
        by (auto simp: plughist_choose_def scan_inv_def intro!: exI [of _ i])
    next
      case None
      then have used: "\<forall>r\<in>set ?rows. ph_mac r \<noteq> []" by (simp add: first_idx_None)
      with inv assms(2) obtain j where "oldest ?res = Some j" by (auto simp: scan_inv_def split: option.splits)
      with inv None used show ?thesis
        by (auto simp: plughist_choose_def scan_inv_def intro!: exI [of _ j])
    qed
  qed
  then obtain i where i: "i < length ?rows" "plughist_choose ?res = Some i"
    "if \<exists>r\<in>set ?rows. plughist_matches mac minute r then plughist_matches mac minute (?rows ! i)
     else if \<exists>r\<in>set ?rows. ph_mac r = [] then ph_mac (?rows ! i) = []
     else \<forall>r\<in>set ?rows. ph_lastupdate (?rows ! i) \<le> ph_lastupdate r" by blast
  show ?thesis
    unfolding Let_def
    by (intro exI [of _ i] conjI i)
       (simp add: i(2) newDbGetMatchingOrNewPlugHist_def with_db_def Let_def newDbStrNcpy_def zero_ph_def)
qed

theorem plughist_slot_witness:
  "\<exists>i<1. (let rows = [\<lparr>ph_id = 0, ph_mac = ''00AB'', ph_sum = 12, ph_lastupdate = 120\<rparr>];
        r = \<lparr>ph_id = int i, ph_mac = take LEN_MAC_NIBBLE ''00CD'', ph_sum = 0, ph_lastupdate = 180\<rparr> in
      newDbGetMatchingOrNewPlugHist 180 ''00CD'' 3 (Some (db_fresh\<lparr>db_plughist := rows\<rparr>))
        = (Some r, Some (ph_written 180 (rows[i := r]) (db_fresh\<lparr>db_plughist := rows\<rparr>))))"
  using plughist_slot [of "db_fresh\<lparr>db_plughist := [\<lparr>ph_id = 0, ph_mac = ''00AB'', ph_sum = 12, ph_lastupdate = 120\<rparr>]\<rparr>"
      "''00CD''" 180 3]
  by (simp add: Let_def)

text \<open>
  A new Zigbee node takes the first free slot; when none is free it replaces the node
  whose entry is the oldest, the caller then being told zero although the row is there; and
  when no entry is older than now nothing changes.
\<close>

theorem zcb_slot:
  "let rows = db_zcb db; old = {r \<in> set rows. zcb_lastupdate r < now};
       fresh = \<lambda>i. zero_zcb\<lparr>zcb_id := int i, zcb_status := ZCB_STATUS_USED, zcb_mac := take LEN_MAC_NIBBLE mac, zcb_lastupdate := now\<rparr>;
       res = newDbGetNewZcb now mac (Some db) in
     (if \<exists>r\<in>set rows. zcb_free r then
        \<exists>i<length rows. zcb_free (rows ! i) \<and> res = ((True, Some (fresh i)), Some (zcb_written now (rows[i := fresh i]) db))
      else if old \<noteq> {} then
        \<exists>i<length rows. (\<forall>r\<in>set rows. zcb_lastupdate (rows ! i) \<le> zcb_lastupdate r)
          \<and> res = ((False, Some (fresh i)), Some (zcb_written now (rows[i := fresh i]) db))
      else res = ((False, None), Some db))"
proof -
  obtain added j where sc: "zcb_scan 0 (db_zcb db) None now = (added, j)" by (cases "zcb_scan 0 (db_zcb db) None now")
  from zcb_scan_spec [OF this] show ?thesis
  proof (elim disjE conjE exE)
    fix i assume "added" "i < length (db_zcb db)" "j = Some (0 + i)" "zcb_free (db_zcb db ! i)"
    with sc show ?thesis by (auto simp: newDbGetNewZcb_def with_db_def newDbStrNcpy_def Let_def)
  next
    assume "\<not> added" "\<forall>r\<in>set (db_zcb db). \<not> zcb_free r" "j = None" "\<forall>r\<in>set (db_zcb db). now \<le> zcb_lastupdate r"
    with sc show ?thesis by (auto simp: newDbGetNewZcb_def with_db_def Let_def)
  next
    fix i assume "\<not> added" "\<forall>r\<in>set (db_zcb db). \<not> zcb_free r" "i < length (db_zcb db)" "j = Some (0 + i)"
      "zcb_lastupdate (db_zcb db ! i) < now" "\<forall>r\<in>set (db_zcb db). zcb_lastupdate (db_zcb db ! i) \<le> zcb_lastupdate r"
    moreover from this have "\<exists>x. x \<in> set (db_zcb db) \<and> zcb_lastupdate x < now" by (meson nth_mem)
    ultimately show ?thesis using sc by (auto simp: newDbGetNewZcb_def with_db_def newDbStrNcpy_def Let_def)
  qed
qed

theorem zcb_slot_witness:
  "newDbGetNewZcb 50 ''00AB'' (Some (db_fresh\<lparr>db_zcb := [zero_zcb]\<rparr>))
   = ((True, Some (zero_zcb\<lparr>zcb_id := 0, zcb_status := ZCB_STATUS_USED, zcb_mac := ''00AB'', zcb_lastupdate := 50\<rparr>)),
      Some (zcb_written 50 [zero_zcb\<lparr>zcb_id := 0, zcb_status := ZCB_STATUS_USED, zcb_mac := ''00AB'', zcb_lastupdate := 50\<rparr>]
        (db_fresh\<lparr>db_zcb := [zero_zcb]\<rparr>)))"
proof -
  have "zcb_free zero_zcb" by (simp add: zero_zcb_def)
  then show ?thesis
    using zcb_slot [of "db_fresh\<lparr>db_zcb := [zero_zcb]\<rparr>" 50 "''00AB''"] by (simp add: Let_def LEN_MAC_NIBBLE_def)
qed

end
