(* ===== verification/NewDbSerialize.thy ===== *)
theory NewDbSerialize
  imports NewDbHist Nibbles
begin

text \<open>
  The text form of the database tables (\<open>newDbSerialize...\<close> of \<open>IotCommon/newDb.c\<close>): a
  header and one line per used row, appended field by field to the caller's buffer through
  a pointer that moves along it.

  A buffer is its text from the start and the offset the code's pointer has, \<open>None\<close> for
  the null pointer an error leaves.  Text is only ever appended, so the bytes written are
  those of the text and its terminator.
\<close>

type_synonym sbuf = "string \<times> nat option"

section \<open>The helpers\<close>

definition newDbSerializeHelperStr :: "int \<Rightarrow> sbuf \<Rightarrow> string \<Rightarrow> bool \<Rightarrow> sbuf" where
  "newDbSerializeHelperStr MAXBUF b str proceedComma = (case b of
     (tx, None) \<Rightarrow> (tx, None)
   | (tx, Some off) \<Rightarrow>
       (let blen = length tx - off; slen = length str
        in if int (blen + slen + 1) < MAXBUF
           then (tx @ (if proceedComma then [CHR '',''] else []) @ str, Some (off + blen + slen))
           else (tx, None)))"

text \<open>The room behind the pointer, as every caller computes it.\<close>

definition room :: "nat \<Rightarrow> sbuf \<Rightarrow> int" where
  "room MAXBUF b = (case b of (tx, None) \<Rightarrow> 0 | (tx, Some off) \<Rightarrow> int MAXBUF - int off)"

definition newDbSerializeHelperInt :: "int \<Rightarrow> sbuf \<Rightarrow> c_int \<Rightarrow> bool \<Rightarrow> sbuf" where
  "newDbSerializeHelperInt MAXBUF b num proceedComma = newDbSerializeHelperStr MAXBUF b (c_itoa num) proceedComma"

fun serialize_more :: "nat \<Rightarrow> sbuf \<Rightarrow> string list \<Rightarrow> sbuf" where
  "serialize_more MAXBUF b [] = b"
| "serialize_more MAXBUF b (f # fs) = serialize_more MAXBUF (newDbSerializeHelperStr (room MAXBUF b) b f True) fs"

text \<open>A line: the first field without a comma, the others behind one.\<close>

fun newDbSerializeHelperHeader :: "nat \<Rightarrow> sbuf \<Rightarrow> string list \<Rightarrow> sbuf" where
  "newDbSerializeHelperHeader MAXBUF b [] = b"
| "newDbSerializeHelperHeader MAXBUF b (f # fs) =
     serialize_more MAXBUF (newDbSerializeHelperStr (room MAXBUF b) b f False) fs"

fun serialize_rows :: "nat \<Rightarrow> sbuf \<Rightarrow> string list list \<Rightarrow> sbuf" where
  "serialize_rows MAXBUF b [] = b"
| "serialize_rows MAXBUF b (row # rows) =
     (if snd b = None then b
      else serialize_rows MAXBUF (newDbSerializeHelperHeader MAXBUF (fst b @ [CHR '';''], snd b) row) rows)"

section \<open>The tables\<close>

definition system_columns :: "string list" where
  "system_columns = [''id'', ''name'', ''intval'', ''strval'', ''lastupdate'']"

definition devs_columns :: "string list" where
  "devs_columns = [''id'', ''mac'', ''dev'', ''ty'', ''par'', ''nm'', ''heat'', ''cool'', ''tmp'', ''hum'', ''prs'',
     ''co2'', ''bat'', ''batl'', ''als'', ''xloc'', ''yloc'', ''zloc'', ''sid'', ''cmd'', ''lvl'', ''rgb'', ''kelvin'',
     ''act'', ''sum'', ''flags'', ''lastupdate'']"

definition plughist_columns :: "string list" where
  "plughist_columns = [''id'', ''mac'', ''sum'', ''lastupdate'']"

definition zcb_columns :: "string list" where
  "zcb_columns = [''id'', ''mac'', ''status'', ''saddr'', ''type'', ''lastupdate'']"

definition system_fields :: "newdb_system_t \<Rightarrow> string list" where
  "system_fields r = [c_itoa (sys_id r), sys_name r, c_itoa (sys_intval r), sys_strval r, c_itoa (sys_lastupdate r)]"

definition dev_fields :: "newdb_dev_t \<Rightarrow> string list" where
  "dev_fields r = [c_itoa (dev_id r), dev_mac r, c_itoa (dev_dev r), dev_ty r, c_itoa (dev_par r), dev_nm r,
     c_itoa (dev_heat r), c_itoa (dev_cool r), c_itoa (dev_tmp r), c_itoa (dev_hum r), c_itoa (dev_prs r),
     c_itoa (dev_co2 r), c_itoa (dev_bat r), c_itoa (dev_batl r), c_itoa (dev_als r), c_itoa (dev_xloc r),
     c_itoa (dev_yloc r), c_itoa (dev_zloc r), c_itoa (dev_sid r), dev_cmd r, c_itoa (dev_lvl r),
     c_itoa (dev_rgb r), c_itoa (dev_kelvin r), c_itoa (dev_act r), c_itoa (dev_sum r), c_itoa (dev_flags r),
     c_itoa (dev_lastupdate r)]"

definition plughist_fields :: "newdb_plughist_t \<Rightarrow> string list" where
  "plughist_fields r = [c_itoa (ph_id r), ph_mac r, c_itoa (ph_sum r), c_itoa (ph_lastupdate r)]"

definition status_num :: "zcbNodeStatus \<Rightarrow> c_int" where
  "status_num st = (case st of ZCB_STATUS_FREE \<Rightarrow> 0 | ZCB_STATUS_USED \<Rightarrow> 1 | ZCB_STATUS_JOINED \<Rightarrow> 2 | ZCB_STATUS_LEFT \<Rightarrow> 3)"

definition zcb_fields :: "newdb_zcb_t \<Rightarrow> string list" where
  "zcb_fields r = [c_itoa (zcb_id r), zcb_mac r, c_itoa (status_num (zcb_status r)), c_itoa (zcb_saddr r),
     c_itoa (zcb_type r), c_itoa (zcb_lastupdate r)]"

text \<open>
  Header, then the selected rows; the result is what the buffer holds and whether the
  function returned it (rather than null).
\<close>

definition serialize_table :: "nat \<Rightarrow> string list \<Rightarrow> string list list \<Rightarrow> string \<times> bool" where
  "serialize_table MAXBUF header rows =
     (case serialize_rows MAXBUF (newDbSerializeHelperHeader MAXBUF ([], Some 0) header) rows of
        (tx, p) \<Rightarrow> (tx, p \<noteq> None))"

definition newDbSerializeSystem :: "nat \<Rightarrow> newdb option \<Rightarrow> string \<times> bool" where
  "newDbSerializeSystem MAXBUF m = (case m of None \<Rightarrow> ([], False)
     | Some db \<Rightarrow> serialize_table MAXBUF system_columns
                    (map system_fields (filter (\<lambda>r. sys_name r \<noteq> []) (db_system db))))"

definition newDbSerializeDevsDev :: "c_int \<Rightarrow> c_int \<Rightarrow> nat \<Rightarrow> newdb option \<Rightarrow> string \<times> bool" where
  "newDbSerializeDevsDev dev1 dev2 MAXBUF m = (case m of None \<Rightarrow> ([], False)
     | Some db \<Rightarrow> serialize_table MAXBUF devs_columns
                    (map dev_fields (filter (\<lambda>r. in_dev_range dev1 dev2 r \<and> dev_mac r \<noteq> []) (db_devices db))))"

definition newDbSerializeDevs :: "nat \<Rightarrow> newdb option \<Rightarrow> string \<times> bool" where
  "newDbSerializeDevs = newDbSerializeDevsDev DEVICE_DEV_UNKNOWN DEVICE_DEV_UNKNOWN"

definition newDbSerializePlugs :: "nat \<Rightarrow> newdb option \<Rightarrow> string \<times> bool" where
  "newDbSerializePlugs = newDbSerializeDevsDev DEVICE_DEV_PLUG DEVICE_DEV_PLUG"

definition newDbSerializeLamps :: "nat \<Rightarrow> newdb option \<Rightarrow> string \<times> bool" where
  "newDbSerializeLamps = newDbSerializeDevsDev DEVICE_DEV_LAMP DEVICE_DEV_LAMP"

definition newDbSerializeLampsAndPlugs :: "nat \<Rightarrow> newdb option \<Rightarrow> string \<times> bool" where
  "newDbSerializeLampsAndPlugs = newDbSerializeDevsDev DEVICE_DEV_LAMP DEVICE_DEV_PLUG"

definition newDbSerializeClimate :: "nat \<Rightarrow> newdb option \<Rightarrow> string \<times> bool" where
  "newDbSerializeClimate = newDbSerializeDevsDev DEVICE_DEV_MANAGER DEVICE_DEV_PUMP"

definition newDbSerializePlugHist :: "nat \<Rightarrow> newdb option \<Rightarrow> string \<times> bool" where
  "newDbSerializePlugHist MAXBUF m = (case m of None \<Rightarrow> ([], False)
     | Some db \<Rightarrow> serialize_table MAXBUF plughist_columns
                    (map plughist_fields (filter (\<lambda>r. ph_mac r \<noteq> []) (db_plughist db))))"

definition newDbSerializeZcb :: "nat \<Rightarrow> newdb option \<Rightarrow> string \<times> bool" where
  "newDbSerializeZcb MAXBUF m = (case m of None \<Rightarrow> ([], False)
     | Some db \<Rightarrow> serialize_table MAXBUF zcb_columns
                    (map zcb_fields (filter (\<lambda>r. \<not> zcb_free r) (db_zcb db))))"

section \<open>What the buffer ends up with\<close>

definition commas :: "string list \<Rightarrow> string" where
  "commas fs = concat (map (Cons (CHR '','')) fs)"

lemma commas_simps [simp]: "commas [] = []" "commas (f # fs) = CHR '','' # f @ commas fs"
  by (simp_all add: commas_def)

definition line :: "string list \<Rightarrow> string" where
  "line fs = (case fs of [] \<Rightarrow> [] | f # fs \<Rightarrow> f @ commas fs)"

definition table_text :: "string list \<Rightarrow> string list list \<Rightarrow> string" where
  "table_text header rows = line header @ concat (map (\<lambda>r. CHR '';'' # line r) rows)"

text \<open>A buffer whose pointer is inside its text, with room for the terminator.\<close>

definition buf_at :: "nat \<Rightarrow> string \<Rightarrow> sbuf \<Rightarrow> bool" where
  "buf_at MAXBUF tx b \<longleftrightarrow> fst b = tx \<and> (\<exists>off. snd b = Some off \<and> off \<le> length tx) \<and> length tx < MAXBUF"

lemma helper_step:
  assumes "fst b = tx" and "snd b = Some off" and "off \<le> length tx"
  shows "newDbSerializeHelperStr (room MAXBUF b) b str c =
     (if length tx + length str + 1 < MAXBUF
      then (tx @ (if c then [CHR '',''] else []) @ str, Some (length tx + length str)) else (tx, None))"
  using assms by (cases b) (auto simp: newDbSerializeHelperStr_def room_def Let_def)

lemma helper_null [simp]: "newDbSerializeHelperStr n (tx, None) str c = (tx, None)"
  by (simp add: newDbSerializeHelperStr_def)

lemma serialize_more_null [simp]: "serialize_more MAXBUF (tx, None) fs = (tx, None)"
  by (induction fs) simp_all

lemma serialize_more_spec:
  "buf_at MAXBUF tx b \<Longrightarrow>
   (if length (tx @ commas fs) < MAXBUF then buf_at MAXBUF (tx @ commas fs) (serialize_more MAXBUF b fs)
    else snd (serialize_more MAXBUF b fs) = None \<and> length (fst (serialize_more MAXBUF b fs)) < MAXBUF)"
proof (induction fs arbitrary: tx b)
  case Nil
  then show ?case by (simp add: buf_at_def)
next
  case (Cons f fs)
  then obtain off where off: "fst b = tx" "snd b = Some off" "off \<le> length tx" "length tx < MAXBUF"
    by (auto simp: buf_at_def)
  let ?b = "newDbSerializeHelperStr (room MAXBUF b) b f True"
  show ?case
  proof (cases "length tx + length f + 1 < MAXBUF")
    case True
    then have "buf_at MAXBUF (tx @ CHR '','' # f) ?b" by (auto simp: helper_step [OF off(1-3)] buf_at_def)
    from Cons.IH [OF this] show ?thesis by (auto split: if_splits)
  next
    case False
    then have "?b = (tx, None)" by (simp add: helper_step [OF off(1-3)])
    with False off(4) show ?thesis by simp
  qed
qed

lemma serialize_line_spec:
  assumes "fst b = tx" and "snd b = Some off" and "off \<le> length tx" and "length tx \<le> MAXBUF" and "2 \<le> length fs"
  shows "if length (tx @ line fs) < MAXBUF then buf_at MAXBUF (tx @ line fs) (newDbSerializeHelperHeader MAXBUF b fs)
    else snd (newDbSerializeHelperHeader MAXBUF b fs) = None \<and> length (fst (newDbSerializeHelperHeader MAXBUF b fs)) \<le> MAXBUF"
proof -
  obtain f g gs where fs: "fs = f # g # gs" using assms(5) by (cases fs; cases "tl fs"; auto)
  let ?b = "newDbSerializeHelperStr (room MAXBUF b) b f False"
  show ?thesis
  proof (cases "length tx + length f + 1 < MAXBUF")
    case True
    then have "buf_at MAXBUF (tx @ f) ?b" by (auto simp: helper_step [OF assms(1-3)] buf_at_def)
    from serialize_more_spec [OF this, of "g # gs"] show ?thesis by (auto simp: fs line_def)
  next
    case False
    then have "?b = (tx, None)" by (simp add: helper_step [OF assms(1-3)])
    with False assms(4) show ?thesis by (simp add: fs line_def)
  qed
qed

lemma serialize_rows_spec:
  "buf_at MAXBUF tx b \<Longrightarrow> \<forall>r\<in>set rows. 2 \<le> length r \<Longrightarrow>
   (let t = tx @ concat (map (\<lambda>r. CHR '';'' # line r) rows); b' = serialize_rows MAXBUF b rows in
    if length t < MAXBUF then buf_at MAXBUF t b' else snd b' = None \<and> length (fst b') \<le> MAXBUF)"
proof (induction rows arbitrary: tx b)
  case Nil
  then show ?case by (simp add: buf_at_def)
next
  case (Cons r rows)
  then obtain off where off: "fst b = tx" "snd b = Some off" "off \<le> length tx" "length tx < MAXBUF"
    by (auto simp: buf_at_def)
  let ?b = "(tx @ [CHR '';''], Some off)" and ?tx = "tx @ [CHR '';'']"
  let ?b' = "newDbSerializeHelperHeader MAXBUF ?b r"
  have row: "if length (?tx @ line r) < MAXBUF then buf_at MAXBUF (?tx @ line r) ?b'
      else snd ?b' = None \<and> length (fst ?b') \<le> MAXBUF"
    by (rule serialize_line_spec) (use off Cons.prems(2) in auto)
  have eq: "serialize_rows MAXBUF b (r # rows) = serialize_rows MAXBUF ?b' rows" using off by simp
  show ?case
  proof (cases "length (?tx @ line r) < MAXBUF")
    case True
    with row have "buf_at MAXBUF (?tx @ line r) ?b'" by simp
    from Cons.IH [OF this] Cons.prems(2) show ?thesis unfolding eq by simp
  next
    case False
    with row have "snd ?b' = None" "length (fst ?b') \<le> MAXBUF" by auto
    moreover from this(1) have "serialize_rows MAXBUF ?b' rows = ?b'" by (cases rows) simp_all
    ultimately show ?thesis unfolding eq using False by (simp add: Let_def)
  qed
qed

lemma serialize_table_spec:
  assumes "2 \<le> length header" and "\<forall>r\<in>set rows. 2 \<le> length r"
  shows "if length (table_text header rows) < MAXBUF
         then serialize_table MAXBUF header rows = (table_text header rows, True)
         else \<not> snd (serialize_table MAXBUF header rows) \<and> length (fst (serialize_table MAXBUF header rows)) \<le> MAXBUF"
proof -
  let ?b = "newDbSerializeHelperHeader MAXBUF ([], Some 0) header"
  have h: "if length (line header) < MAXBUF then buf_at MAXBUF (line header) ?b
      else snd ?b = None \<and> length (fst ?b) \<le> MAXBUF"
    using serialize_line_spec [of "([], Some 0)" "[]" 0 MAXBUF header] assms(1)
    by (auto split: if_splits)
  show ?thesis
  proof (cases "length (line header) < MAXBUF")
    case True
    with h have "buf_at MAXBUF (line header) ?b" by simp
    from serialize_rows_spec [OF this assms(2)] show ?thesis
      by (auto simp: serialize_table_def table_text_def buf_at_def Let_def split: prod.splits if_splits)
  next
    case False
    with h have b: "snd ?b = None" "length (fst ?b) \<le> MAXBUF" by auto
    then have "serialize_rows MAXBUF ?b rows = ?b" by (cases rows) simp_all
    with b False show ?thesis by (auto simp: serialize_table_def table_text_def split: prod.splits)
  qed
qed

lemma field_counts [simp]:
  "Suc 0 < length system_columns" "Suc 0 < length devs_columns" "Suc 0 < length plughist_columns"
  "Suc 0 < length zcb_columns" "Suc 0 < length (system_fields r1)" "Suc 0 < length (dev_fields r2)"
  "Suc 0 < length (plughist_fields r3)" "Suc 0 < length (zcb_fields r4)"
  by (simp_all add: system_columns_def devs_columns_def plughist_columns_def zcb_columns_def
      system_fields_def dev_fields_def plughist_fields_def zcb_fields_def)

lemma serialize_table_result:
  assumes "Suc 0 < length header" and "\<And>r. Suc 0 < length (flds r)"
  shows "if length (table_text header (map flds rs)) + 1 \<le> MAXBUF
         then serialize_table MAXBUF header (map flds rs) = (table_text header (map flds rs), True)
         else \<not> snd (serialize_table MAXBUF header (map flds rs))
            \<and> length (fst (serialize_table MAXBUF header (map flds rs))) + 1 \<le> MAXBUF + 1"
proof -
  have "\<forall>r\<in>set (map flds rs). 2 \<le> length r" "2 \<le> length header"
    using assms by (simp_all add: Suc_le_eq numeral_2_eq_2)
  from serialize_table_spec [OF this(2,1), of MAXBUF] show ?thesis by (auto simp: less_Suc_eq_le Suc_le_eq)
qed

section \<open>Properties\<close>

text \<open>
  C29: Serialising a table yields the whole text or an error, never a truncated one: each of
  the four tables is returned as its header and used rows exactly when that text and its
  terminator fit the caller's buffer.  Otherwise null is returned, having written at most
  one byte behind the buffer (the unchecked separator in front of a row).
\<close>

theorem serialize_all_or_nothing:
  "\<forall>(out, tx) \<in> {
      (newDbSerializeSystem MAXBUF (Some db), table_text system_columns (map system_fields (filter (\<lambda>r. sys_name r \<noteq> []) (db_system db)))),
      (newDbSerializeDevs MAXBUF (Some db), table_text devs_columns (map dev_fields (filter (\<lambda>r. dev_mac r \<noteq> []) (db_devices db)))),
      (newDbSerializePlugHist MAXBUF (Some db), table_text plughist_columns (map plughist_fields (filter (\<lambda>r. ph_mac r \<noteq> []) (db_plughist db)))),
      (newDbSerializeZcb MAXBUF (Some db), table_text zcb_columns (map zcb_fields (filter (\<lambda>r. \<not> zcb_free r) (db_zcb db))))}.
     if length tx + 1 \<le> MAXBUF then out = (tx, True) else \<not> snd out \<and> length (fst out) + 1 \<le> MAXBUF + 1"
proof -
  have sel: "(\<lambda>r. in_dev_range DEVICE_DEV_UNKNOWN DEVICE_DEV_UNKNOWN r \<and> dev_mac r \<noteq> []) = (\<lambda>r. dev_mac r \<noteq> [])"
    by (simp add: in_dev_range_def DEVICE_DEV_UNKNOWN_def)
  show ?thesis
    unfolding newDbSerializeSystem_def newDbSerializeDevs_def newDbSerializeDevsDev_def
      newDbSerializePlugHist_def newDbSerializeZcb_def option.case sel
    by (intro ballI, elim insertE emptyE) 
      (hypsubst, simp only: prod.case, rule serialize_table_result; rule field_counts)+
qed

theorem serialize_all_or_nothing_witness:
  "newDbSerializeSystem 100 (Some (db_fresh\<lparr>db_system := [zero_sys\<lparr>sys_name := ''gw''\<rparr>]\<rparr>))
     = (''id,name,intval,strval,lastupdate;0,gw,0,,0'', True)"
proof -
  have "of_code 48 = CHR ''0''" using of_code_code [of "CHR ''0''"] by simp
  then have "c_itoa 0 = ''0''" by (simp add: c_itoa_def dec_digits.simps [of 0])
  then show ?thesis
    using serialize_all_or_nothing [of 100 "db_fresh\<lparr>db_system := [zero_sys\<lparr>sys_name := ''gw''\<rparr>]\<rparr>"]
    by (simp add: table_text_def line_def system_columns_def system_fields_def zero_sys_def)
qed

end
