(* ===== verification/PlugUsage.thy ===== *)
theory PlugUsage
  imports NewDbHist
begin

text \<open>
  What the gateway computes from the plug-meter samples (\<open>IotCommon/plugUsage.c\<close>): the
  clean-up of old samples, the consumption over a period, and the history shown to the
  user.  The static variables of the file are the state of the call-backs; division
  truncates as in C.
\<close>

section \<open>Clean-up\<close>

definition MAXCLEANIDLIST :: nat where "MAXCLEANIDLIST = 10"
definition NUM_CLEAN_SAMPLES :: nat where "NUM_CLEAN_SAMPLES = 60 + 24 + 1"

record clean_state =
  minhourday :: "c_int list"
  mhd_sample :: "c_int list"
  cleanIdList :: "c_int list"

definition plug_sample :: "c_int \<Rightarrow> c_int \<Rightarrow> c_int option" where
  "plug_sample cleanstart minute =
     (if minute < cleanstart then Some (- 1)
      else if minute < cleanstart + 60 then Some (cleanstart - minute)
      else if minute < cleanstart + 60 * 24 then Some (60 + (cleanstart - minute) sdiv 60)
      else if minute < cleanstart + 60 * 24 * 2 then Some (60 + 24)
      else None)"

text \<open>\<open>plug_sample\<close> is the sample, \<open>None\<close> when the row is to be cleaned at once.\<close>

definition plugCleanPrepareCb :: "c_int \<Rightarrow> newdb_plughist_t \<Rightarrow> clean_state \<Rightarrow> bool \<times> clean_state" where
  "plugCleanPrepareCb cleanstart phist s =
     (let (clean, s1) =
        (case plug_sample cleanstart (ph_lastupdate phist sdiv 60) of
           None \<Rightarrow> (ph_id phist, s)
         | Some sample \<Rightarrow>
             if sample < 0 then (- 1, s)
             else
               (let k = nat sample;
                    keep = s\<lparr>minhourday := (minhourday s)[k := ph_sum phist], mhd_sample := (mhd_sample s)[k := ph_id phist]\<rparr>
                in if minhourday s ! k < 0 then (- 1, keep)
                   else if ph_sum phist \<ge> minhourday s ! k then (mhd_sample s ! k, keep)
                   else (ph_id phist, s)))
      in if clean \<ge> 0 then
           (let ids = (if length (cleanIdList s1) < MAXCLEANIDLIST then cleanIdList s1 @ [clean] else cleanIdList s1)
            in (length ids < MAXCLEANIDLIST, s1\<lparr>cleanIdList := ids\<rparr>))
         else (True, s1))"

fun delete_ids :: "c_int \<Rightarrow> c_int list \<Rightarrow> newdb option \<Rightarrow> newdb option" where
  "delete_ids clock [] m = m"
| "delete_ids clock (i # ids) m =
     (case newDbDeletePlugHist clock i m of (ok, m') \<Rightarrow> if ok then delete_ids clock ids m' else m')"

definition clean_init :: clean_state where
  "clean_init = \<lparr>minhourday = replicate NUM_CLEAN_SAMPLES (- 1), mhd_sample = replicate NUM_CLEAN_SAMPLES (- 1),
     cleanIdList = []\<rparr>"

definition plugHistoryCleanup :: "c_int \<Rightarrow> string \<Rightarrow> c_int \<Rightarrow> newdb option \<Rightarrow> bool \<times> newdb option" where
  "plugHistoryCleanup clock mac now m =
     (let ids = cleanIdList (snd (newDbLoopPlugHist mac (plugCleanPrepareCb (now sdiv 60)) m clean_init))
      in (length ids < MAXCLEANIDLIST, delete_ids clock ids m))"

section \<open>Consumption over a period\<close>

record find_state =
  findmax :: c_int
  findmin :: c_int

definition plugFindUsageCb :: "c_int \<Rightarrow> c_int \<Rightarrow> newdb_plughist_t \<Rightarrow> find_state \<Rightarrow> bool \<times> find_state" where
  "plugFindUsageCb findstart findend phist s =
     (let minute = ph_lastupdate phist sdiv 60
      in (True,
          if minute < findstart then s
          else if minute \<le> findend then
            s\<lparr>findmax := (if findmax s < 0 \<or> ph_sum phist > findmax s then ph_sum phist else findmax s),
              findmin := (if findmin s < 0 \<or> ph_sum phist < findmin s then ph_sum phist else findmin s)\<rparr>
          else s))"

definition plugFindUsage :: "string \<Rightarrow> c_int \<Rightarrow> c_int \<Rightarrow> newdb option \<Rightarrow> c_int" where
  "plugFindUsage mac now period m =
     (let findstart = now sdiv 60; findend = findstart - period;
          s = snd (newDbLoopPlugHist mac (plugFindUsageCb findstart findend) m \<lparr>findmax = - 1, findmin = - 1\<rparr>)
      in if findmax s \<ge> 0 \<and> findmin s \<ge> 0 then findmax s - findmin s else 0)"

definition plugFindHourUsage :: "string \<Rightarrow> c_int \<Rightarrow> newdb option \<Rightarrow> c_int" where
  "plugFindHourUsage mac now = plugFindUsage mac now 60"

definition plugFindDayUsage :: "string \<Rightarrow> c_int \<Rightarrow> newdb option \<Rightarrow> c_int" where
  "plugFindDayUsage mac now = plugFindUsage mac now (24 * 60)"

section \<open>History\<close>

record hist_state =
  histbuffer :: "c_int list"
  histmin :: c_int
  histmax :: c_int
  hist_fault :: bool

text \<open>The flag \<open>hist_fault\<close> is no variable of the code: it is set by a division by a period of zero, which ends the program.\<close>

definition hist_sample :: "c_int \<Rightarrow> c_int \<Rightarrow> newdb_plughist_t \<Rightarrow> c_int" where
  "hist_sample histstart histperiod r = (histstart - ph_lastupdate r sdiv 60) sdiv histperiod"

definition plugHistCb :: "c_int \<Rightarrow> c_int \<Rightarrow> newdb_plughist_t \<Rightarrow> hist_state \<Rightarrow> bool \<times> hist_state" where
  "plugHistCb histstart histperiod phist s =
     (let sample = hist_sample histstart histperiod phist
      in (True,
          if histperiod = 0 then s\<lparr>hist_fault := True\<rparr>
          else if sample < 0 then s
          else if sample < int (length (histbuffer s)) then
            s\<lparr>histbuffer := (if ph_sum phist > histbuffer s ! nat sample
                             then (histbuffer s)[nat sample := ph_sum phist] else histbuffer s),
              histmin := (if histmin s = 0 \<or> ph_sum phist < histmin s then ph_sum phist else histmin s)\<rparr>
          else s\<lparr>histmax := (if histmax s = 0 \<or> ph_sum phist > histmax s then ph_sum phist else histmax s)\<rparr>))"

text \<open>The loop that fills the gaps, from the oldest sample to the newest.\<close>

fun fill_gaps :: "nat \<Rightarrow> c_int list \<Rightarrow> c_int list" where
  "fill_gaps 0 buf = buf"
| "fill_gaps (Suc i) buf = fill_gaps i (if buf ! i = 0 then buf[i := buf ! Suc i] else buf)"

text \<open>
  \<open>num\<close> is at least one, or the code writes in front of the buffer; \<open>None\<close> when the program
  does not survive the division.
\<close>

definition plugGetHistory :: "string \<Rightarrow> c_int \<Rightarrow> c_int \<Rightarrow> nat \<Rightarrow> newdb option \<Rightarrow> c_int list option" where
  "plugGetHistory mac now period num m =
     (let s = snd (newDbLoopPlugHist mac (plugHistCb (now sdiv 60) period) m
                     \<lparr>histbuffer = replicate num 0, histmin = 0, histmax = 0, hist_fault = False\<rparr>);
          buf = histbuffer s;
          buf' = (if buf ! (num - 1) = 0
                  then buf[num - 1 := (if histmax s \<noteq> 0 then histmax s else histmin s)] else buf)
      in if hist_fault s then None else Some (fill_gaps (num - 1) buf'))"

section \<open>Loops whose call-back never stops\<close>

lemma loop_rows_fold:
  assumes "\<And>r s. fst (cb r s)"
  shows "loop_rows sel cb rs s = (True, fold (\<lambda>r s. snd (cb r s)) (filter sel rs) s)"
proof (induction rs arbitrary: s)
  case (Cons r rs)
  have "fst (cb r s)" by (rule assms)
  with Cons show ?case by (cases "cb r s") simp
qed simp

lemma loop_rows_invariant:
  "P s \<Longrightarrow> (\<And>r s. r \<in> set rs \<Longrightarrow> sel r \<Longrightarrow> P s \<Longrightarrow> P (snd (cb r s))) \<Longrightarrow> P (snd (loop_rows sel cb rs s))"
proof (induction rs arbitrary: s)
  case (Cons r rs)
  show ?case
  proof (cases "sel r")
    case True
    obtain ok s' where cb: "cb r s = (ok, s')" by (cases "cb r s")
    from Cons.prems(2) [of r s] Cons.prems(1) True cb have s': "P s'" by simp
    have "P (snd (loop_rows sel cb rs s'))"
      using Cons.prems(2) by (intro Cons.IH s') auto
    with s' show ?thesis using cb True by simp
  qed (use Cons in auto)
qed simp

section \<open>What the history call-back collects\<close>

definition sums :: "(newdb_plughist_t \<Rightarrow> bool) \<Rightarrow> newdb_plughist_t list \<Rightarrow> c_int set" where
  "sums P rows = ph_sum ` {r \<in> set rows. P r}"

text \<open>\<open>sums P rows\<close> is the set of the meter readings of the rows with \<open>P\<close>.\<close>

lemma finite_sums [simp]: "finite (sums P rows)"
  by (simp add: sums_def)

lemma sums_Nil [simp]: "sums P [] = {}"
  by (simp add: sums_def)

lemma sums_snoc [simp]:
  "sums P (rows @ [r]) = (if P r then insert (ph_sum r) (sums P rows) else sums P rows)"
  by (auto simp: sums_def)

lemma sums_Cons [simp]:
  "sums P (r # rows) = (if P r then insert (ph_sum r) (sums P rows) else sums P rows)"
  by (auto simp: sums_def)

lemma sums_filter: "sums P (filter Q rows) = sums (\<lambda>r. Q r \<and> P r) rows"
  by (auto simp: sums_def)

lemma sums_empty_iff: "sums P rows = {} \<longleftrightarrow> (\<forall>r\<in>set rows. \<not> P r)"
  by (auto simp: sums_def)

lemma sums_positive: "(\<And>r. r \<in> set rows \<Longrightarrow> 0 < ph_sum r) \<Longrightarrow> v \<in> sums P rows \<Longrightarrow> 0 < v"
  by (auto simp: sums_def)

lemma Max_sums_positive:
  assumes "\<And>r. r \<in> set rows \<Longrightarrow> 0 < ph_sum r" and "sums P rows \<noteq> {}"
  shows "0 < Max (sums P rows)"
  by (rule sums_positive [OF assms(1) Max_in]) (use assms(2) in simp_all)

lemma Min_sums_positive:
  assumes "\<And>r. r \<in> set rows \<Longrightarrow> 0 < ph_sum r" and "sums P rows \<noteq> {}"
  shows "0 < Min (sums P rows)"
  by (rule sums_positive [OF assms(1) Min_in]) (use assms(2) in simp_all)

lemma Max_step: "finite v \<Longrightarrow> v \<noteq> {} \<Longrightarrow> Max (insert a v) = (if Max v < a then a else Max v)" for a :: c_int
  using Max_insert [of v a] by (simp only: max_def split: if_split) (metis not_less order.order_iff_strict)

lemma Min_step: "finite v \<Longrightarrow> v \<noteq> {} \<Longrightarrow> Min (insert a v) = (if a < Min v then a else Min v)" for a :: c_int
  using Min_insert [of v a] by (simp only: min_def split: if_split) (metis not_less order.order_iff_strict)

definition hist_collected :: "c_int \<Rightarrow> c_int \<Rightarrow> nat \<Rightarrow> newdb_plughist_t list \<Rightarrow> hist_state \<Rightarrow> bool" where
  "hist_collected start period num rows s \<longleftrightarrow>
     \<not> hist_fault s \<and> length (histbuffer s) = num \<and>
     (\<forall>k<num. histbuffer s ! k = (let v = sums (\<lambda>r. hist_sample start period r = int k) rows in if v = {} then 0 else Max v)) \<and>
     histmin s = (let v = sums (\<lambda>r. 0 \<le> hist_sample start period r \<and> hist_sample start period r < int num) rows
                  in if v = {} then 0 else Min v) \<and>
     histmax s = (let v = sums (\<lambda>r. int num \<le> hist_sample start period r) rows in if v = {} then 0 else Max v)"

lemma plugHistCb_collects:
  assumes "hist_collected start period num rows s" and pos: "\<And>q. q \<in> set (rows @ [r]) \<Longrightarrow> 0 < ph_sum q"
    and period: "period \<noteq> 0"
  shows "hist_collected start period num (rows @ [r]) (snd (plugHistCb start period r s))"
proof -
  have rows: "\<And>q. q \<in> set rows \<Longrightarrow> 0 < ph_sum q" and r: "0 < ph_sum r" using pos by auto
  have maxs: "sums P rows \<noteq> {} \<Longrightarrow> 0 < Max (sums P rows)" for P by (rule Max_sums_positive [OF rows])
  have mins: "sums P rows \<noteq> {} \<Longrightarrow> 0 < Min (sums P rows)" for P by (rule Min_sums_positive [OF rows])
  consider "hist_sample start period r < 0"
    | "0 \<le> hist_sample start period r" "hist_sample start period r < int num"
    | "int num \<le> hist_sample start period r" by linarith
  then show ?thesis
  proof cases
    case 1
    then show ?thesis
      using assms(1) period by (auto simp: hist_collected_def plugHistCb_def Let_def)
  next
    case 2
    define k where "k = nat (hist_sample start period r)"
    with 2 have k: "hist_sample start period r = int k" "k < num" by simp_all
    let ?v = "sums (\<lambda>r. hist_sample start period r = int k) rows"
    let ?w = "sums (\<lambda>r. 0 \<le> hist_sample start period r \<and> hist_sample start period r < int num) rows"
    from k assms(1) have old_k: "histbuffer s ! k = (if ?v = {} then 0 else Max ?v)"
      and old_min: "histmin s = (if ?w = {} then 0 else Min ?w)"
      by (simp_all add: hist_collected_def Let_def)
    have new_k: "(if ph_sum r > histbuffer s ! k then ph_sum r else histbuffer s ! k) = Max (insert (ph_sum r) ?v)"
      using r by (cases "?v = {}") (simp_all add: old_k Max_step del: Max_insert Max_less_iff)
    have new_min: "(if histmin s = 0 \<or> ph_sum r < histmin s then ph_sum r else histmin s) = Min (insert (ph_sum r) ?w)"
      using mins [of "\<lambda>r. 0 \<le> hist_sample start period r \<and> hist_sample start period r < int num"]
      by (cases "?w = {}") (simp_all add: old_min Min_step del: Min_insert Min_gr_iff)
    have len: "length (histbuffer s) = num" using assms(1) by (simp add: hist_collected_def)
    have pick: "(if b then (histbuffer s)[nat (hist_sample start period r) := v] else histbuffer s) = (histbuffer s)[k := if b then v else histbuffer s ! k]"
      for b v by (simp add: k(1))
    have "snd (plugHistCb start period r s) =
        s\<lparr>histbuffer := (histbuffer s)[k := Max (insert (ph_sum r) ?v)], histmin := Min (insert (ph_sum r) ?w)\<rparr>"
      unfolding plugHistCb_def Let_def using k len period by (simp add: pick new_k new_min split del: if_split)
    then show ?thesis
      using assms(1) k by (auto simp: hist_collected_def Let_def nth_list_update)
  next
    case 3
    let ?v = "sums (\<lambda>r. int num \<le> hist_sample start period r) rows"
    have "(if histmax s = 0 \<or> ph_sum r > histmax s then ph_sum r else histmax s) = Max (insert (ph_sum r) ?v)"
      using maxs [of "\<lambda>r. int num \<le> hist_sample start period r"] assms(1)
      by (cases "?v = {}") (simp_all add: hist_collected_def Let_def Max_step del: Max_insert Max_less_iff)
    with 3 assms(1) period show ?thesis
      by (auto simp: hist_collected_def plugHistCb_def Let_def)
  qed
qed

lemma plugHistCb_fold_collects:
  assumes "\<And>r. r \<in> set rows \<Longrightarrow> 0 < ph_sum r" and "rows \<noteq> [] \<Longrightarrow> period \<noteq> 0"
  shows "hist_collected start period num rows
    (fold (\<lambda>r s. snd (plugHistCb start period r s)) rows \<lparr>histbuffer = replicate num 0, histmin = 0, histmax = 0, hist_fault = False\<rparr>)"
  using assms
proof (induction rows rule: rev_induct)
  case Nil
  then show ?case by (simp add: hist_collected_def)
next
  case (snoc r rows)
  then show ?case using plugHistCb_collects [of start period num rows _ r] by simp
qed

lemma plugHistCb_faults:
  assumes "rows \<noteq> []"
  shows "hist_fault (fold (\<lambda>r s. snd (plugHistCb start 0 r s)) rows s)"
proof -
  have "hist_fault (fold (\<lambda>r s. snd (plugHistCb start 0 r s)) rows s)" if "hist_fault s" for rows s
    using that by (induction rows arbitrary: s) (simp_all add: plugHistCb_def Let_def)
  then show ?thesis using assms by (cases rows) (simp_all add: plugHistCb_def Let_def)
qed

section \<open>Filling the gaps\<close>

lemma length_fill_gaps [simp]: "length (fill_gaps n buf) = length buf"
  by (induction n arbitrary: buf) simp_all

lemma fill_gaps_above: "n \<le> i \<Longrightarrow> fill_gaps n buf ! i = buf ! i"
  by (induction n arbitrary: buf) simp_all

lemma fill_gaps_nth:
  "i \<le> n \<Longrightarrow> n < length buf \<Longrightarrow>
   fill_gaps n buf ! i = (case filter (\<lambda>k. buf ! k \<noteq> 0) [i..<n] of [] \<Rightarrow> buf ! n | k # _ \<Rightarrow> buf ! k)"
proof (induction n arbitrary: buf)
  case (Suc n)
  let ?buf = "if buf ! n = 0 then buf[n := buf ! Suc n] else buf"
  show ?case
  proof (cases "i = Suc n")
    case False
    with Suc.prems have i: "i \<le> n" by simp
    have same: "filter (\<lambda>k. ?buf ! k \<noteq> 0) [i..<n] = filter (\<lambda>k. buf ! k \<noteq> 0) [i..<n]"
      by (rule filter_cong) auto
    have IH: "fill_gaps n ?buf ! i = (case filter (\<lambda>k. buf ! k \<noteq> 0) [i..<n] of [] \<Rightarrow> ?buf ! n | k # _ \<Rightarrow> ?buf ! k)"
      using Suc.IH [of ?buf] Suc.prems i by (simp only: same) simp
    have step: "fill_gaps (Suc n) buf ! i = fill_gaps n ?buf ! i"
      and split: "filter (\<lambda>k. buf ! k \<noteq> 0) [i..<Suc n] =
        filter (\<lambda>k. buf ! k \<noteq> 0) [i..<n] @ (if buf ! n \<noteq> 0 then [n] else [])"
      using i by simp_all
    show ?thesis
    proof (cases "filter (\<lambda>k. buf ! k \<noteq> 0) [i..<n]")
      case Nil
      with Suc.prems show ?thesis by (simp only: step IH split) simp
    next
      case (Cons k ks)
      have "k \<in> set (filter (\<lambda>k. buf ! k \<noteq> 0) [i..<n])" by (simp only: Cons) simp
      then have "k < n" by simp
      then show ?thesis by (simp only: step IH split Cons) simp
    qed
  qed (simp add: fill_gaps_above)
qed simp

lemma fst_plugHistCb [simp]: "fst (plugHistCb start period r s)"
  by (simp add: plugHistCb_def Let_def)

section \<open>Properties\<close>

definition samples_at :: "string \<Rightarrow> c_int \<Rightarrow> c_int \<Rightarrow> newdb \<Rightarrow> nat \<Rightarrow> c_int set" where
  "samples_at mac now period db k =
     sums (\<lambda>r. ph_mac r = mac \<and> hist_sample (now sdiv 60) period r = int k) (db_plughist db)"

definition samples_before :: "string \<Rightarrow> c_int \<Rightarrow> c_int \<Rightarrow> newdb \<Rightarrow> nat \<Rightarrow> c_int set" where
  "samples_before mac now period db num =
     sums (\<lambda>r. ph_mac r = mac \<and> int num \<le> hist_sample (now sdiv 60) period r) (db_plughist db)"

definition samples_within :: "string \<Rightarrow> c_int \<Rightarrow> c_int \<Rightarrow> newdb \<Rightarrow> nat \<Rightarrow> c_int set" where
  "samples_within mac now period db num =
     sums (\<lambda>r. ph_mac r = mac \<and> 0 \<le> hist_sample (now sdiv 60) period r \<and> hist_sample (now sdiv 60) period r < int num)
       (db_plughist db)"

text \<open>
  C40: The history is the one the samples describe.  With at least one slot and positive
  meter readings, slot \<open>i\<close> holds the highest reading of the first slot, from \<open>i\<close> on
  towards the past, that has a sample; when there is none it holds the highest reading
  from before the range, or else the lowest reading inside it, or else zero.  There is a history
  unless the period is zero and the plug has a sample.
\<close>

theorem plug_history:
  assumes "0 < num" and "i < num"
    and "\<And>r. r \<in> set (db_plughist db) \<Longrightarrow> ph_mac r = mac \<Longrightarrow> 0 < ph_sum r"
  shows "(plugGetHistory mac now period num (Some db) = None \<longleftrightarrow> period = 0 \<and> (\<exists>r \<in> set (db_plughist db). ph_mac r = mac))
   \<and> (\<forall>h. plugGetHistory mac now period num (Some db) = Some h \<longrightarrow> h ! i =
    (case filter (\<lambda>k. samples_at mac now period db k \<noteq> {}) [i..<num] of
       k # _ \<Rightarrow> Max (samples_at mac now period db k)
     | [] \<Rightarrow> if samples_before mac now period db num \<noteq> {} then Max (samples_before mac now period db num)
             else if samples_within mac now period db num \<noteq> {} then Min (samples_within mac now period db num)
             else 0))" (is "_ \<and> (\<forall>h. _ \<longrightarrow> h ! i = ?described)")
proof (cases "period = 0 \<and> (\<exists>r \<in> set (db_plughist db). ph_mac r = mac)")
  case True
  then have "filter (\<lambda>r. ph_mac r = mac) (db_plughist db) \<noteq> []" by (auto simp: filter_empty_conv)
  from plugHistCb_faults [OF this] show ?thesis
    using True by (simp add: plugGetHistory_def newDbLoopPlugHist_def loop_rows_fold fst_plugHistCb Let_def)
next
  case alive: False
  let ?rows = "filter (\<lambda>r. ph_mac r = mac) (db_plughist db)"
  define s where "s = fold (\<lambda>r s. snd (plugHistCb (now sdiv 60) period r s)) ?rows \<lparr>histbuffer = replicate num 0, histmin = 0, histmax = 0, hist_fault = False\<rparr>"
  define start where "start = (if histmax s \<noteq> 0 then histmax s else histmin s)"
  define buf where "buf = (if histbuffer s ! (num - 1) = 0 then (histbuffer s)[num - 1 := start] else histbuffer s)"
  have pos: "\<And>r. r \<in> set ?rows \<Longrightarrow> 0 < ph_sum r" using assms(3) by simp
  have maxs: "sums (\<lambda>r. ph_mac r = mac \<and> P r) (db_plughist db) \<noteq> {} \<Longrightarrow>
      0 < Max (sums (\<lambda>r. ph_mac r = mac \<and> P r) (db_plughist db))" for P
    using Max_sums_positive [where rows = ?rows and P = P] pos by (simp add: sums_filter)
  have collected: "hist_collected (now sdiv 60) period num ?rows s"
    unfolding s_def using alive pos by (intro plugHistCb_fold_collects) (auto simp: filter_empty_conv)
  then have len: "length (histbuffer s) = num"
    and slot: "\<And>k. k < num \<Longrightarrow> histbuffer s ! k =
      (if samples_at mac now period db k = {} then 0 else Max (samples_at mac now period db k))"
    and hmin: "histmin s = (if samples_within mac now period db num = {} then 0 else Min (samples_within mac now period db num))"
    and hmax: "histmax s = (if samples_before mac now period db num = {} then 0 else Max (samples_before mac now period db num))"
    by (simp_all add: hist_collected_def samples_at_def samples_before_def samples_within_def sums_filter Let_def)
  have first: "start = (if samples_before mac now period db num \<noteq> {} then Max (samples_before mac now period db num)
      else if samples_within mac now period db num \<noteq> {} then Min (samples_within mac now period db num) else 0)"
  proof (cases "samples_before mac now period db num = {}")
    case False
    then have "0 < Max (samples_before mac now period db num)"
      unfolding samples_before_def by (rule maxs)
    with False show ?thesis by (simp add: start_def hmax)
  qed (simp add: start_def hmin hmax)
  have full: "histbuffer s ! k \<noteq> 0 \<longleftrightarrow> samples_at mac now period db k \<noteq> {}" if "k < num" for k
  proof (cases "samples_at mac now period db k = {}")
    case False
    then have "0 < Max (samples_at mac now period db k)" unfolding samples_at_def by (rule maxs)
    with False show ?thesis by (simp add: slot [OF that])
  qed (simp add: slot [OF that])
  have history: "plugGetHistory mac now period num (Some db) = Some (fill_gaps (num - 1) buf)"
    using collected by (simp add: plugGetHistory_def newDbLoopPlugHist_def loop_rows_fold fst_plugHistCb Let_def
        buf_def start_def s_def hist_collected_def)
  have "fill_gaps (num - 1) buf ! i = (case filter (\<lambda>k. buf ! k \<noteq> 0) [i..<num - 1] of [] \<Rightarrow> buf ! (num - 1) | k # _ \<Rightarrow> buf ! k)"
    using assms(1,2) len by (intro fill_gaps_nth) (auto simp: buf_def)
  also have "filter (\<lambda>k. buf ! k \<noteq> 0) [i..<num - 1] = filter (\<lambda>k. samples_at mac now period db k \<noteq> {}) [i..<num - 1]"
    using full by (intro filter_cong) (auto simp: buf_def)
  finally have result: "fill_gaps (num - 1) buf ! i =
    (case filter (\<lambda>k. samples_at mac now period db k \<noteq> {}) [i..<num - 1] of
       [] \<Rightarrow> buf ! (num - 1) | k # _ \<Rightarrow> buf ! k)" .
  have last: "[i..<num] = [i..<num - 1] @ [num - 1]"
    using assms(1,2) upt_Suc_append [of i "num - 1"] by simp
  have end_slot: "buf ! (num - 1) = (if samples_at mac now period db (num - 1) \<noteq> {}
      then Max (samples_at mac now period db (num - 1)) else start)"
    using full [of "num - 1"] slot [of "num - 1"] assms(1) len by (auto simp: buf_def)
  have described: "fill_gaps (num - 1) buf ! i = ?described"
  proof (cases "filter (\<lambda>k. samples_at mac now period db k \<noteq> {}) [i..<num - 1]")
    case Nil
    then show ?thesis unfolding result last using end_slot by (simp add: first)
  next
    case (Cons k ks)
    have "k \<in> set (filter (\<lambda>k. samples_at mac now period db k \<noteq> {}) [i..<num - 1])" by (simp only: Cons) simp
    then have k: "k < num - 1" "samples_at mac now period db k \<noteq> {}" by simp_all
    then have "buf ! k = Max (samples_at mac now period db k)" using slot [of k] by (auto simp: buf_def)
    then show ?thesis unfolding result last using Cons by simp
  qed
  have "plugGetHistory mac now period num (Some db) \<noteq> None" by (simp add: history)
  with alive described show ?thesis unfolding history option.inject by blast
qed

lemma plug_history_rows:
  "r \<in> set (db_plughist (db_fresh\<lparr>db_plughist :=
     [\<lparr>ph_id = 0, ph_mac = ''00AB'', ph_sum = 12, ph_lastupdate = 480\<rparr>,
      \<lparr>ph_id = 1, ph_mac = ''00CD'', ph_sum = 99, ph_lastupdate = 540\<rparr>,
      \<lparr>ph_id = 2, ph_mac = ''00AB'', ph_sum = 7, ph_lastupdate = 120\<rparr>]\<rparr>)) \<Longrightarrow> ph_mac r = mac \<Longrightarrow> 0 < ph_sum r"
  by auto

theorem plug_history_witness:
  "map_option (\<lambda>h. h ! 1) (plugGetHistory ''00AB'' 600 1 4 (Some (db_fresh\<lparr>db_plughist :=
     [\<lparr>ph_id = 0, ph_mac = ''00AB'', ph_sum = 12, ph_lastupdate = 480\<rparr>,
      \<lparr>ph_id = 1, ph_mac = ''00CD'', ph_sum = 99, ph_lastupdate = 540\<rparr>,
      \<lparr>ph_id = 2, ph_mac = ''00AB'', ph_sum = 7, ph_lastupdate = 120\<rparr>]\<rparr>))) = Some 12"
  using plug_history [of 4 1 "db_fresh\<lparr>db_plughist :=
     [\<lparr>ph_id = 0, ph_mac = ''00AB'', ph_sum = 12, ph_lastupdate = 480\<rparr>,
      \<lparr>ph_id = 1, ph_mac = ''00CD'', ph_sum = 99, ph_lastupdate = 540\<rparr>,
      \<lparr>ph_id = 2, ph_mac = ''00AB'', ph_sum = 7, ph_lastupdate = 120\<rparr>]\<rparr>" "''00AB''" 600 1, OF _ _ plug_history_rows]
  by (fastforce simp: samples_at_def hist_sample_def upt_rec signed_divide_int_def)

text \<open>
  The consumption over the last hour or day is always reported as zero: the range
  tested ends before it starts, whatever samples the table holds.
\<close>

theorem plug_usage_zero:
  "plugFindHourUsage mac now m = 0 \<and> plugFindDayUsage mac now m = 0"
proof -
  have idle: "snd (plugFindUsageCb start (start - period) r s) = s" if "0 < period" for start period r s
    using that by (auto simp: plugFindUsageCb_def Let_def)
  have "plugFindUsage mac now period m = 0" if "0 < period" for period
  proof -
    have "snd (newDbLoopPlugHist mac (plugFindUsageCb (now sdiv 60) (now sdiv 60 - period)) m s) = s" for s
      unfolding newDbLoopPlugHist_def
      by (cases m) (simp_all add: loop_rows_invariant [where P = "\<lambda>t. t = s"] idle [OF that])
    then show ?thesis by (simp add: plugFindUsage_def Let_def)
  qed
  then show ?thesis by (simp add: plugFindHourUsage_def plugFindDayUsage_def)
qed

text \<open>
  The clean-up keeps every sample from the past: when no sample of the plug lies in
  the future it reports that all is done and the table is unchanged, however old and
  however many the samples are.
\<close>

theorem plug_cleanup_keeps_past:
  assumes "\<And>r. r \<in> set (db_plughist db) \<Longrightarrow> ph_mac r = mac \<Longrightarrow> ph_lastupdate r sdiv 60 < now sdiv 60"
  shows "plugHistoryCleanup clock mac now (Some db) = (True, Some db)"
proof -
  have "snd (loop_rows (\<lambda>r. ph_mac r = mac) (plugCleanPrepareCb (now sdiv 60)) (db_plughist db) clean_init) = clean_init"
    by (rule loop_rows_invariant [where P = "\<lambda>t. t = clean_init"])
      (use assms in \<open>auto simp: plugCleanPrepareCb_def plug_sample_def Let_def\<close>)
  then show ?thesis
    by (simp add: plugHistoryCleanup_def newDbLoopPlugHist_def clean_init_def MAXCLEANIDLIST_def Let_def)
qed

theorem plug_cleanup_keeps_past_witness:
  "plugHistoryCleanup 9000000 ''00AB'' 9000000 (Some (db_fresh\<lparr>db_plughist :=
     [\<lparr>ph_id = 0, ph_mac = ''00AB'', ph_sum = 12, ph_lastupdate = 480\<rparr>]\<rparr>)) =
   (True, Some (db_fresh\<lparr>db_plughist := [\<lparr>ph_id = 0, ph_mac = ''00AB'', ph_sum = 12, ph_lastupdate = 480\<rparr>]\<rparr>))"
  by (rule plug_cleanup_keeps_past) (simp add: signed_divide_int_def)

end
