(* ===== verification/JsonMessage.thy ===== *)
theory JsonMessage
  imports JsonObject
begin

text \<open>
  The form of the messages between the gateway's processes: a name, a colon and a flat
  object.  The parser reads the name at its top level, with the first row of its stacks,
  and gives it to the object call-backs.
\<close>

section \<open>Messages\<close>

definition show_message :: "string \<Rightarrow> (string \<times> json_value) list \<Rightarrow> string" where
  "show_message nm ms = [CHR 0x22] @ nm @ [CHR 0x22] @ '' : { '' @ show_members '' '' ms @ '' }'' @ [CHR 0x0A]"

definition message_events :: "string \<Rightarrow> (string \<times> json_value) list \<Rightarrow> json_event list" where
  "message_events nm ms = [EvObjectStart nm] @ map member_event ms @ [EvObjectComplete nm]"

definition ok_message :: "string \<Rightarrow> (string \<times> json_value) list \<Rightarrow> bool" where
  "ok_message nm ms \<longleftrightarrow> list_all isValidNameChar nm \<and> length nm < 30
     \<and> ms \<noteq> [] \<and> length ms \<le> 8 \<and> list_all ok_member ms"

section \<open>The name in front of the object\<close>

definition in_head :: "json_state \<Rightarrow> json_event list \<Rightarrow> string \<Rightarrow> parser_data \<Rightarrow> bool" where
  "in_head st T n p \<longleftrightarrow> json_inv p \<and> p_on p = all_handlers \<and> p_state p = st \<and> p_stateIndex p = 1
     \<and> p_states p ! 0 = STATE_NONE \<and> p_stack p = 0 \<and> length n < 30
     \<and> cstr_at (p_chars p) 0 = n \<and> p_trace p = T"

lemma in_head_pstate: "in_head st T n p \<Longrightarrow> p_state p = st"
  by (simp add: in_head_def)

lemma in_head_logged: "in_head st T n p \<Longrightarrow> in_head st T n (logged c p)"
  using cstr_at_logged [of 0 p c] by (auto simp: in_head_def json_inv_logged)

lemma in_head_state: "in_head st T n p \<Longrightarrow> in_head st' T n (p\<lparr>p_state := st'\<rparr>)"
  by (simp add: in_head_def json_pres)

lemma eat_head_open:
  assumes "at_top T p"
  shows "in_head STATE_INNAME T [] (jsonEat (CHR 0x22) p)"
proof -
  define p' where "p' = logged (CHR 0x22) p"
  have top: "at_top T p'" unfolding p'_def using assms by (rule at_top_logged)
  then have st: "p_state p' = STATE_NONE" "p_stateIndex p' = 0" "p_stack p' = 0" "length (p_states p') = 10"
    and len: "length (p_chars p') = 970"
    by (simp_all add: at_top_def json_inv_def chars_size_num json_sizes)
  let ?q = "poke 0 NUL (p'\<lparr>p_states := (p_states p')[0 := STATE_NONE], p_stateIndex := Suc 0, p_state := STATE_INNAME\<rparr>)"
  have "toState STATE_INNAME p' = ?q"
    using st by (simp add: toState_def setState_def name_row_def json_sizes)
  then have "jsonEatNoLog (CHR 0x22) p' = ?q"
    using st by (intro eat_once) (simp add: eat_switch_def)
  moreover have "in_head STATE_INNAME T [] ?q"
    using top st len by (auto simp: in_head_def at_top_def json_inv_def json_sizes cstr_at_terminate)
  ultimately show ?thesis by (simp add: jsonEat_logged p'_def)
qed

lemma eat_head_char:
  assumes "in_head STATE_INNAME T n p" and "isValidNameChar c" and "length n < 29"
  shows "in_head STATE_INNAME T (n @ [c]) (jsonEat c p)"
proof -
  define p' where "p' = logged c p"
  have head: "in_head STATE_INNAME T n p'" unfolding p'_def using assms(1) by (rule in_head_logged)
  then have name: "cur_name p' = n" and len: "length (p_chars p') = 970"
    by (simp_all add: in_head_def cur_name_def name_row_def json_inv_def chars_size_num)
  let ?q = "poke (Suc (length n)) NUL (poke (length n) c p')"
  have "appendName c p' = ?q"
    using head name assms(3) by (simp add: appendName_def Let_def in_head_def name_row_def json_sizes)
  then have "jsonEatNoLog c p' = ?q"
    using in_head_pstate [OF head] assms(2) valid_name_char [OF assms(2)]
    by (intro eat_once) (simp add: eat_switch_def)
  moreover have "cstr_at (p_chars ?q) 0 = n @ [c]"
    using cstr_at_append [of "p_chars p'" 0 "length n" c] head assms(3) len valid_name_char [OF assms(2)]
    by (simp add: in_head_def)
  then have "in_head STATE_INNAME T (n @ [c]) ?q"
    using head assms(3) by (simp add: in_head_def json_pres)
  ultimately show ?thesis by (simp add: jsonEat_logged p'_def)
qed

lemma eat_head_chars:
  "in_head STATE_INNAME T n p \<Longrightarrow> list_all isValidNameChar s \<Longrightarrow> length n + length s < 30 \<Longrightarrow>
   in_head STATE_INNAME T (n @ s) (jsonEats s p)"
proof (induction s arbitrary: n p)
  case (Cons c s)
  from Cons.IH [OF eat_head_char [OF Cons.prems(1), of c]] Cons.prems show ?case by simp
qed simp

lemma eat_head_close:
  assumes "in_head STATE_INNAME T n p"
  shows "in_head STATE_TOCOLUMN T n (jsonEat (CHR 0x22) p)"
proof -
  have head: "in_head STATE_INNAME T n (logged (CHR 0x22) p)" using assms by (rule in_head_logged)
  have "jsonEatNoLog (CHR 0x22) (logged (CHR 0x22) p) = (logged (CHR 0x22) p)\<lparr>p_state := STATE_TOCOLUMN\<rparr>"
    using in_head_pstate [OF assms] by (intro eat_once) (simp add: eat_switch_def setState_def)
  with in_head_state [OF head] show ?thesis by (simp add: jsonEat_logged)
qed

lemma white_space_char:
  assumes "isWhiteSpace c"
  shows "\<not> isNum c" "\<not> isSign c" "c \<noteq> CHR 0x22" "c \<noteq> CHR '':''" "c \<noteq> CHR ''{''" "c \<noteq> CHR ''[''"
  using assms by (auto simp: isWhiteSpace_def isNum_def isSign_def char_le_code)

lemma eat_head_space:
  assumes "in_head st T n p" and "st = STATE_TOCOLUMN \<or> st = STATE_TOVALUE" and "isWhiteSpace c"
  shows "in_head st T n (jsonEat c p)"
proof -
  have "jsonEatNoLog c (logged c p) = logged c p"
    using in_head_pstate [OF assms(1)] assms(2,3) white_space_char [OF assms(3)]
    by (intro eat_once) (elim disjE; simp add: eat_switch_def)
  with in_head_logged [OF assms(1)] show ?thesis by (simp add: jsonEat_logged)
qed

lemma eat_head_colon:
  assumes "in_head STATE_TOCOLUMN T n p"
  shows "in_head STATE_TOVALUE T n (jsonEat (CHR '':'') p)"
proof -
  define p' where "p' = logged (CHR '':'') p"
  have head: "in_head STATE_TOCOLUMN T n p'" unfolding p'_def using assms by (rule in_head_logged)
  let ?q = "poke 150 NUL (p'\<lparr>p_state := STATE_TOVALUE\<rparr>)"
  have "jsonEatNoLog (CHR '':'') p' = ?q"
    using head by (intro eat_once) (simp add: eat_switch_def setState_def in_head_def value_row_def json_sizes)
  moreover have "in_head STATE_TOVALUE T n ?q"
    using head cstr_at_update_other [of 150 0 "p_chars p'" NUL] by (auto simp: in_head_def json_pres)
  ultimately show ?thesis by (simp add: jsonEat_logged p'_def)
qed

lemma eat_head_brace:
  assumes "in_head STATE_TOVALUE T n p"
  shows "in_obj n STATE_TONAME 0 (T @ [EvObjectStart n]) (jsonEat (CHR ''{'') p)"
proof -
  define p' where "p' = logged (CHR ''{'') p"
  have head: "in_head STATE_TOVALUE T n p'" unfolding p'_def using assms by (rule in_head_logged)
  then have len: "length (p_chars p') = 970" and st: "p_state p' = STATE_TOVALUE" "p_stateIndex p' = 1"
    "p_stack p' = 0" "length (p_states p') = 10" and name: "cur_name p' = n"
    by (simp_all add: in_head_def json_inv_def chars_size_num json_sizes cur_name_def name_row_def)
  let ?e = "emit onObjectStart (EvObjectStart n) p'"
  let ?q = "poke 30 NUL (?e\<lparr>p_states := (p_states p')[Suc 0 := STATE_INOBJECT],
      p_stateIndex := 2, p_state := STATE_TONAME, p_stack := 1\<rparr>)"
  have "toState STATE_TONAME (setState STATE_INOBJECT ?e) = ?q"
    using st by (simp add: toState_def setState_def name_row_def json_sizes poke_def)
  then have "jsonEatNoLog (CHR ''{'') p' = ?q"
    using st name by (intro eat_once) (simp add: eat_switch_def isNum_def isSign_def char_le_code)
  moreover have "in_obj n STATE_TONAME 0 (T @ [EvObjectStart n]) ?q"
    using head st len cstr_at_update_other [of 30 0 "p_chars p'" NUL]
    by (auto simp: in_obj_def in_head_def json_inv_def json_sizes nth_list_update)
      (simp_all add: emit_def all_handlers_def)
  ultimately show ?thesis by (simp add: jsonEat_logged p'_def)
qed

section \<open>A whole message\<close>

lemma eat_head:
  assumes "at_top T p" and "list_all isValidNameChar nm" and "length nm < 30"
  shows "in_obj nm STATE_TONAME 0 (T @ [EvObjectStart nm]) (jsonEats ([CHR 0x22] @ nm @ [CHR 0x22] @ '' : { '') p)"
proof -
  have space: "isWhiteSpace (CHR '' '')" by (simp add: isWhiteSpace_def)
  have "in_head STATE_INNAME T nm (jsonEats nm (jsonEat (CHR 0x22) p))"
    using eat_head_chars [OF eat_head_open [OF assms(1)] assms(2)] assms(3) by simp
  from eat_head_colon [OF eat_head_space [OF eat_head_close [OF this] _ space]]
  have "in_head STATE_TOVALUE T nm
    (jsonEat (CHR '':'') (jsonEat (CHR '' '') (jsonEat (CHR 0x22) (jsonEats nm (jsonEat (CHR 0x22) p)))))" by simp
  from eat_space_TONAME [OF eat_head_brace [OF eat_head_space [OF this _ space]] space] show ?thesis by simp
qed

lemma at_top_space:
  assumes "at_top T p" and "isWhiteSpace c"
  shows "at_top T (jsonEat c p)"
proof -
  have "jsonEatNoLog c (logged c p) = logged c p"
    using assms by (intro eat_once) (auto simp: at_top_def eat_switch_def isWhiteSpace_def)
  with at_top_logged [OF assms(1)] show ?thesis by (simp add: jsonEat_logged)
qed

lemma eat_message:
  assumes "at_top T p" and "ok_message nm ms"
  shows "at_top (T @ message_events nm ms) (jsonEats (show_message nm ms) p)"
proof -
  have sp: "list_all isWhiteSpace '' ''" "isWhiteSpace (CHR 0x0A)" by (simp_all add: isWhiteSpace_def)
  have ok: "list_all isValidNameChar nm" "length nm < 30" "ms \<noteq> []" "length ms \<le> 8" "list_all ok_member ms"
    using assms(2) by (simp_all add: ok_message_def)
  show ?thesis
    using at_top_space [OF eat_members_space_close [OF eat_head [OF assms(1) ok(1,2)] ok(5,3,4) sp(1)] sp(2)]
    by (simp add: show_message_def message_events_def)
qed

lemma eat_messages:
  "at_top T p \<Longrightarrow> \<forall>(nm, ms)\<in>set mss. ok_message nm ms \<Longrightarrow>
   at_top (T @ concat (map (\<lambda>(nm, ms). message_events nm ms) mss))
     (jsonEats (concat (map (\<lambda>(nm, ms). show_message nm ms) mss)) p)"
proof (induction mss arbitrary: T p)
  case (Cons x mss)
  obtain nm ms where x: "x = (nm, ms)" by (cases x)
  from Cons.prems have "at_top (T @ message_events nm ms) (jsonEats (show_message nm ms) p)"
    by (intro eat_message) (simp_all add: x)
  from Cons.IH [OF this] Cons.prems(2) show ?case by (simp add: x)
qed simp

text \<open>A message with more than eight members fails at the comma behind the eighth.\<close>

lemma eat_message_overflow:
  assumes "at_top T p" and "list_all isValidNameChar nm" and "length nm < 30"
    and "length ms = 8" and "list_all ok_member ms"
  shows "\<exists>txt. at_top (T @ [EvObjectStart nm] @ map member_event ms @ [EvError ERR_INTERNAL ''internal error'' txt])
    (jsonEats ([CHR 0x22] @ nm @ [CHR 0x22] @ '' : { '' @ show_members '' '' ms @ '','') p)"
proof -
  have sp: "list_all isWhiteSpace '' ''" by (simp add: isWhiteSpace_def)
  obtain q where q: "in_obj nm STATE_OUTVALUE 7 (T @ [EvObjectStart nm] @ map member_event ms) q"
    "jsonEat (CHR '','') (jsonEats (show_members '' '' ms) (jsonEats ([CHR 0x22] @ nm @ [CHR 0x22] @ '' : { '') p))
     = jsonEatNoLog (CHR '','') q"
    using eat_members [OF eat_head [OF assms(1-3)] assms(5) _ _ sp not_num_sep(1)] assms(4) by fastforce
  then show ?thesis
    using eat_comma_overflow [OF q(1)] by simp
qed

end
