(* ===== verification/JsonCreate.thy ===== *)
theory JsonCreate
  imports JsonMessage
begin

text \<open>
  The message writers (\<open>IotCommon/jsonCreate.c\<close>).  All of them fill one static buffer of
  \<open>MAXJSONMESSAGE + 2\<close> bytes through \<open>catString\<close>, which drops a piece that does not
  fit.  The pieces are made in local buffers with \<open>sprintf\<close>; the result \<open>None\<close> is a
  write past such a buffer, whose effect C leaves undefined.

  Every writer makes the same sequence of calls: the object name, \<open>" : { "\<close>, its members
  with \<open>", "\<close> between them, and \<open>" }\<close> with a line feed.  \<open>json_msg\<close> is this
  sequence; a writer is the list of members it chooses to send.
\<close>

section \<open>Pieces\<close>

definition MAXJSONMESSAGE :: nat where "MAXJSONMESSAGE = 500"
definition MAXNAMEVALUE :: nat where "MAXNAMEVALUE = 160"

text \<open>\<open>MAXNAME\<close> is 30, as in the parser.\<close>

fun catString :: "string \<Rightarrow> string option \<Rightarrow> string option" where
  "catString s None = None"
| "catString s (Some m) = Some (if length m + length s < MAXJSONMESSAGE then m @ s else m)"

definition catBuffer :: "nat \<Rightarrow> string \<Rightarrow> string option \<Rightarrow> string option" where
  "catBuffer n buf m = (if length buf < n then catString buf m else None)"

definition catName :: "string \<Rightarrow> string option \<Rightarrow> string option" where
  "catName name = catBuffer (MAXNAME + 2) ([CHR 0x22] @ name @ [CHR 0x22])"

definition catNameValueInt :: "string \<Rightarrow> c_int \<Rightarrow> string option \<Rightarrow> string option" where
  "catNameValueInt name v = catBuffer (MAXNAMEVALUE + 2) ([CHR 0x22] @ name @ [CHR 0x22, CHR '':''] @ c_itoa v)"

definition catNameValueString :: "string \<Rightarrow> string \<Rightarrow> string option \<Rightarrow> string option" where
  "catNameValueString name v = catBuffer (MAXNAMEVALUE + 2)
     ([CHR 0x22] @ name @ [CHR 0x22, CHR '':'', CHR 0x22] @ v @ [CHR 0x22])"

fun catMember :: "string \<times> json_value \<Rightarrow> string option \<Rightarrow> string option" where
  "catMember (name, VInt v) m = catNameValueInt name v m"
| "catMember (name, VStr v) m = catNameValueString name v m"

fun catMembers :: "(string \<times> json_value) list \<Rightarrow> string option \<Rightarrow> string option" where
  "catMembers [] m = m"
| "catMembers [x] m = catMember x m"
| "catMembers (x # xs) m = catMembers xs (catString '', '' (catMember x m))"

definition json_msg :: "string \<Rightarrow> (string \<times> json_value) list \<Rightarrow> string option" where
  "json_msg nm ms = catString ('' }'' @ [CHR 0x0A]) (catMembers ms (catString '' : { '' (catName nm (Some []))))"

text \<open>Members sent only when their argument is given.\<close>

definition opt_int :: "string \<Rightarrow> c_int \<Rightarrow> (string \<times> json_value) list" where
  "opt_int name v = (if v \<ge> 0 then [(name, VInt v)] else [])"

definition opt_pos :: "string \<Rightarrow> c_int \<Rightarrow> (string \<times> json_value) list" where
  "opt_pos name v = (if v > 0 then [(name, VInt v)] else [])"

definition opt_loc :: "string \<Rightarrow> c_int \<Rightarrow> (string \<times> json_value) list" where
  "opt_loc name v = (if v \<noteq> INT_MIN then [(name, VInt v)] else [])"

definition opt_str :: "string \<Rightarrow> string option \<Rightarrow> (string \<times> json_value) list" where
  "opt_str name s = (case s of None \<Rightarrow> [] | Some v \<Rightarrow> [(name, VStr v)])"

section \<open>Writers\<close>

definition jsonCmd :: "string \<Rightarrow> c_int \<Rightarrow> string option" where
  "jsonCmd name v = json_msg ''cmd'' [(name, VInt v)]"

definition jsonCmdString :: "string \<Rightarrow> string \<Rightarrow> string option" where
  "jsonCmdString name v = json_msg ''cmd'' [(name, VStr v)]"

definition jsonZcb :: "string \<Rightarrow> c_int \<Rightarrow> string option" where
  "jsonZcb name v = json_msg ''zcb'' [(name, VInt v)]"

definition jsonZcbString :: "string \<Rightarrow> string \<Rightarrow> string option" where
  "jsonZcbString name v = json_msg ''zcb'' [(name, VStr v)]"

definition jsonCmdGetStatus :: "string option" where
  "jsonCmdGetStatus = jsonCmd ''getstatus'' 1"

definition jsonCmdStartNetwork :: "string option" where
  "jsonCmdStartNetwork = jsonCmd ''startnwk'' 1"

definition jsonCmdErase :: "string option" where
  "jsonCmdErase = jsonCmd ''erase'' 1"

definition jsonCmdGetVersion :: "string option" where
  "jsonCmdGetVersion = jsonCmd ''getversion'' 1"

definition jsonCmdGetPermitJoin :: "string option" where
  "jsonCmdGetPermitJoin = jsonCmd ''getpermit'' 1"

definition jsonZcbStatus :: "c_int \<Rightarrow> string option" where
  "jsonZcbStatus v = jsonZcb ''status'' v"

definition jsonCmdReset :: "c_int \<Rightarrow> string option" where
  "jsonCmdReset v = jsonCmd ''reset'' v"

definition jsonZcbResetRsp :: "c_int \<Rightarrow> string option" where
  "jsonZcbResetRsp v = jsonZcb ''resetrsp'' v"

definition jsonCmdResetRsp :: "c_int \<Rightarrow> string option" where
  "jsonCmdResetRsp v = jsonCmd ''resetrsp'' v"

definition jsonZcbStartRsp :: "c_int \<Rightarrow> string option" where
  "jsonZcbStartRsp v = jsonZcb ''startrsp'' v"

definition jsonCmdNfcmode :: "c_int \<Rightarrow> string option" where
  "jsonCmdNfcmode v = jsonCmd ''nfcmode'' v"

definition jsonZcbChanRsp :: "c_int \<Rightarrow> string option" where
  "jsonZcbChanRsp v = jsonZcb ''chanrsp'' v"

definition jsonCmdSetDeviceType :: "c_int \<Rightarrow> string option" where
  "jsonCmdSetDeviceType v = jsonCmd ''setdevicetype'' v"

definition jsonZcbRspPermitJoin :: "c_int \<Rightarrow> string option" where
  "jsonZcbRspPermitJoin v = jsonZcb ''permit'' v"

definition jsonZcbLog :: "string \<Rightarrow> string option" where
  "jsonZcbLog v = jsonZcbString ''log'' v"

definition jsonCmdSetExtPan :: "string \<Rightarrow> string option" where
  "jsonCmdSetExtPan v = jsonCmdString ''setextpanid'' v"

definition jsonCmdSetChannelMask :: "string \<Rightarrow> string option" where
  "jsonCmdSetChannelMask v = jsonCmdString ''chanmask'' v"

definition jsonZcbChanMaskRsp :: "string \<Rightarrow> string option" where
  "jsonZcbChanMaskRsp v = jsonZcbString ''chanrsp'' v"

text \<open>\<open>buf[20]\<close> holds the version text.\<close>

definition jsonZcbVersion :: "c_int \<Rightarrow> c_int \<Rightarrow> string option" where
  "jsonZcbVersion major minor = (let buf = ''r'' @ c_itoa major @ ''.'' @ c_itoa minor in
     if length buf < 20 then jsonZcbString ''version'' buf else None)"

definition jsonCmdSystem :: "c_int \<Rightarrow> string option \<Rightarrow> string option" where
  "jsonCmdSystem sys strval = json_msg ''cmd''
    ([(''system'', VInt sys)] @ opt_str ''strval'' strval)"

definition jsonZcbAnnounce :: "string \<Rightarrow> string \<Rightarrow> string option \<Rightarrow> string option" where
  "jsonZcbAnnounce mac dev ty = json_msg ''zcb''
    ([(''joined'', VStr mac), (''dev'', VStr dev)] @ opt_str ''ty'' ty)"

definition jsonCmdSetPermitJoin :: "string option \<Rightarrow> c_int \<Rightarrow> string option" where
  "jsonCmdSetPermitJoin target duration = json_msg ''cmd''
    
     [(''setpermit'', VStr (case target of Some t \<Rightarrow> t | None \<Rightarrow> ''1'')), (''duration'', VInt duration)]"

definition jsonCmdAuthorizeRequest :: "string \<Rightarrow> string \<Rightarrow> string option" where
  "jsonCmdAuthorizeRequest mac linkkey = json_msg ''cmd''
    [(''authorize'', VStr mac), (''linkkey'', VStr linkkey)]"

definition jsonZcbAuthorizeResponse :: "string \<Rightarrow> string \<Rightarrow> string \<Rightarrow> string \<Rightarrow> c_int \<Rightarrow> c_int \<Rightarrow> string \<Rightarrow> string \<Rightarrow> string option" where
  "jsonZcbAuthorizeResponse mac nwKey mic tcAddress keySeq channel pan extPan = json_msg ''zcb''
    
     [(''authorize'', VStr mac), (''key'', VStr nwKey), (''mic'', VStr mic), (''tcaddr'', VStr tcAddress), (''keyseq'', VInt keySeq), (''chan'', VInt channel), (''pan'', VStr pan), (''extpan'', VStr extPan)]"

definition jsonTls :: "string \<Rightarrow> string \<Rightarrow> string option" where
  "jsonTls label val = json_msg ''tls'' [(label, VStr val)]"

definition jsonLinkInfo :: "c_int \<Rightarrow> c_int \<Rightarrow> c_int \<Rightarrow> string \<Rightarrow> string \<Rightarrow> string option" where
  "jsonLinkInfo nw_version nw_type nw_profile mac linkkey = json_msg ''linkinfo''
    
     [(''version'', VInt nw_version), (''type'', VInt nw_type), (''profile'', VInt nw_profile), (''mac'', VStr mac), (''linkkey'', VStr linkkey)]"

definition jsonJoinSecure :: "c_int \<Rightarrow> c_int \<Rightarrow> string \<Rightarrow> string \<Rightarrow> string \<Rightarrow> string \<Rightarrow> string \<Rightarrow> string option" where
  "jsonJoinSecure channel keysequence pan extendedPan networkKey mic tcAddress = json_msg ''joinsecure''
    
     [(''chan'', VInt channel), (''keyseq'', VInt keysequence), (''pan'', VStr pan), (''extpan'', VStr extendedPan), (''nwkey'', VStr networkKey), (''mic'', VStr mic), (''tcaddr'', VStr tcAddress)]"

definition jsonManager :: "c_int \<Rightarrow> string \<Rightarrow> string option \<Rightarrow> c_int \<Rightarrow> string option \<Rightarrow> c_int \<Rightarrow> string option" where
  "jsonManager i mac nm rm ty joined = json_msg ''manager''
    (opt_int ''id'' i @ [(''mac'', VStr mac)] @ opt_str ''nm'' nm @ opt_int ''rm'' rm @
     opt_str ''ty'' ty @ opt_int ''jnd'' joined)"

definition jsonUI :: "c_int \<Rightarrow> string \<Rightarrow> string option \<Rightarrow> c_int \<Rightarrow> c_int \<Rightarrow> c_int \<Rightarrow> c_int \<Rightarrow> c_int \<Rightarrow> string option" where
  "jsonUI i mac nm rm man heat cool joined = json_msg ''ui''
    (opt_int ''id'' i @ [(''mac'', VStr mac)] @ opt_str ''nm'' nm @ opt_int ''rm'' rm @
     opt_int ''man'' man @ opt_int ''heat'' heat @ opt_int ''cool'' cool @ opt_int ''jnd'' joined)"

definition jsonUiCtrl :: "string \<Rightarrow> c_int \<Rightarrow> c_int \<Rightarrow> string option" where
  "jsonUiCtrl mac heat cool = json_msg ''ctrl''
    ([(''mac'', VStr mac)] @ opt_int ''heat'' heat @ opt_int ''cool'' cool)"

definition jsonSensor :: "c_int \<Rightarrow> string \<Rightarrow> string option \<Rightarrow> c_int \<Rightarrow> c_int \<Rightarrow> c_int \<Rightarrow> c_int \<Rightarrow> c_int \<Rightarrow> c_int \<Rightarrow> c_int \<Rightarrow> c_int \<Rightarrow> c_int \<Rightarrow> c_int \<Rightarrow> c_int \<Rightarrow> c_int \<Rightarrow> c_int \<Rightarrow> string option" where
  "jsonSensor i mac nm rm ui tmp hum prs co2 bat batl als xloc yloc zloc joined = json_msg ''sensor''
    (opt_int ''id'' i @ [(''mac'', VStr mac)] @ opt_str ''nm'' nm @ opt_int ''rm'' rm @
     opt_int ''ui'' ui @ opt_int ''tmp'' tmp @ opt_int ''hum'' hum @ opt_int ''prs'' prs @
     opt_int ''co2'' co2 @ opt_int ''bat'' bat @ opt_int ''batl'' batl @ opt_int ''als'' als @
     opt_loc ''xloc'' xloc @ opt_loc ''yloc'' yloc @ opt_loc ''zloc'' zloc @ opt_int ''jnd'' joined)"

definition jsonPump :: "c_int \<Rightarrow> string \<Rightarrow> string option \<Rightarrow> c_int \<Rightarrow> c_int \<Rightarrow> c_int \<Rightarrow> string option \<Rightarrow> c_int \<Rightarrow> c_int \<Rightarrow> string option" where
  "jsonPump i mac nm rm sen sid cmd lvl joined = json_msg ''pmp''
    (opt_int ''id'' i @ [(''mac'', VStr mac)] @ opt_str ''nm'' nm @ opt_int ''rm'' rm @
     opt_int ''sen'' sen @ opt_int ''sid'' sid @ opt_str ''cmd'' cmd @ opt_int ''lvl'' lvl @
     opt_int ''jnd'' joined)"

definition jsonLampInternal :: "c_int \<Rightarrow> string \<Rightarrow> string option \<Rightarrow> c_int \<Rightarrow> string option \<Rightarrow> string option \<Rightarrow> c_int \<Rightarrow> c_int \<Rightarrow> c_int \<Rightarrow> c_int \<Rightarrow> c_int \<Rightarrow> c_int \<Rightarrow> string option" where
  "jsonLampInternal i mac nm rm ty cmd lvl rgb kelvin xcr ycr joined = json_msg ''lmp''
    (opt_int ''id'' i @ [(''mac'', VStr mac)] @ opt_str ''nm'' nm @ opt_int ''rm'' rm @
     opt_str ''ty'' ty @ opt_str ''cmd'' cmd @ opt_int ''lvl'' lvl @ opt_int ''rgb'' rgb @
     opt_int ''kelvin'' kelvin @ opt_int ''xcr'' xcr @ opt_int ''ycr'' ycr @ opt_int ''jnd'' joined)"

definition jsonLamp :: "c_int \<Rightarrow> string \<Rightarrow> string option \<Rightarrow> c_int \<Rightarrow> string option \<Rightarrow> string option \<Rightarrow> c_int \<Rightarrow> c_int \<Rightarrow> c_int \<Rightarrow> c_int \<Rightarrow> string option" where
  "jsonLamp i mac nm rm ty cmd lvl rgb kelvin joined = 
    jsonLampInternal i mac nm rm ty cmd lvl rgb kelvin (- 1) (- 1) joined"

definition jsonLamp_xyY :: "c_int \<Rightarrow> string \<Rightarrow> string option \<Rightarrow> c_int \<Rightarrow> string option \<Rightarrow> string option \<Rightarrow> c_int \<Rightarrow> c_int \<Rightarrow> c_int \<Rightarrow> c_int \<Rightarrow> string option" where
  "jsonLamp_xyY i mac nm rm ty cmd lvl xcr ycr joined = 
    jsonLampInternal i mac nm rm ty cmd lvl (- 1) (- 1) xcr ycr joined"

definition jsonPlug :: "c_int \<Rightarrow> string \<Rightarrow> string option \<Rightarrow> c_int \<Rightarrow> string option \<Rightarrow> c_int \<Rightarrow> c_int \<Rightarrow> c_int \<Rightarrow> c_int \<Rightarrow> c_int \<Rightarrow> string option" where
  "jsonPlug i mac nm rm cmd act sm h24 joined autoinsert = json_msg ''plg''
    (opt_int ''id'' i @ [(''mac'', VStr mac)] @ opt_str ''nm'' nm @ opt_int ''rm'' rm @
     opt_str ''cmd'' cmd @ opt_int ''act'' act @ opt_int ''sum'' sm @ opt_int ''h24'' h24 @
     opt_int ''jnd'' joined @ opt_int ''autoinsert'' autoinsert)"

definition jsonPlugCmd :: "string \<Rightarrow> string option \<Rightarrow> string option" where
  "jsonPlugCmd mac cmd = jsonPlug (- 1) mac None (- 1) cmd (- 1) (- 1) (- 1) (- 1) (- 1)"

definition jsonAct :: "string \<Rightarrow> c_int \<Rightarrow> string option \<Rightarrow> c_int \<Rightarrow> string option" where
  "jsonAct mac sid cmd lvl = json_msg ''act''
    ([(''mac'', VStr mac)] @ opt_int ''sid'' sid @ opt_str ''cmd'' cmd @ opt_int ''lvl'' lvl)"

definition jsonControl :: "string \<Rightarrow> string option \<Rightarrow> c_int \<Rightarrow> c_int \<Rightarrow> c_int \<Rightarrow> c_int \<Rightarrow> c_int \<Rightarrow> c_int \<Rightarrow> string option" where
  "jsonControl mac cmd sid lvl rgb kelvin heat cool = json_msg ''ctrl''
    ([(''mac'', VStr mac)] @ opt_str ''cmd'' cmd @ opt_int ''lvl'' lvl @ opt_int ''rgb'' rgb @
     opt_int ''kelvin'' kelvin @ opt_int ''heat'' heat @ opt_int ''cool'' cool)"

text \<open>
  The two colour conversions of \<open>colorConv.c\<close> are floating-point computations; their
  results enter as functions.
\<close>

definition jsonLampToZigbee ::
  "(c_int \<Rightarrow> c_int \<times> c_int) \<Rightarrow> string \<Rightarrow> string option \<Rightarrow> c_int \<Rightarrow> c_int \<Rightarrow> c_int \<Rightarrow> string option" where
  "jsonLampToZigbee rgb2xy mac cmd lvl0 rgb kelvin =
     (let lvl = (if (kelvin \<ge> 0 \<or> rgb \<ge> 0) \<and> lvl0 < 0 then 100 else lvl0);
          xy = (\<lambda>c. [(''xcr'', VInt (fst (rgb2xy c))), (''ycr'', VInt (snd (rgb2xy c)))])
      in json_msg ''lmp'' ([(''mac'', VStr mac)] @ opt_str ''cmd'' cmd @ opt_int ''lvl'' lvl @
           (if kelvin = 0 \<and> rgb = 0 then xy 0xFFFFFF
            else if kelvin \<ge> 0 then [(''kelvin'', VInt kelvin)]
            else if rgb \<ge> 0 then xy rgb else [])))"

definition jsonClimateWater :: "string \<Rightarrow> c_int \<Rightarrow> c_int \<Rightarrow> string option" where
  "jsonClimateWater mac out ret = json_msg ''status''
    ([(''cmh'', VStr mac)] @ opt_int ''out'' out @ opt_int ''ret'' ret)"

text \<open>The next two compare a pointer with zero, so the test is always true.\<close>

definition jsonClimateBurner :: "string \<Rightarrow> string \<Rightarrow> c_int \<Rightarrow> string option" where
  "jsonClimateBurner mac burner pwr = json_msg ''status''
    ([(''cmh'', VStr mac), (''burner'', VStr burner)] @ opt_int ''power'' pwr)"

definition jsonClimateCooler :: "string \<Rightarrow> string \<Rightarrow> c_int \<Rightarrow> string option" where
  "jsonClimateCooler mac cooler pwr = json_msg ''status''
    ([(''cmc'', VStr mac), (''cooler'', VStr cooler)] @ opt_int ''power'' pwr)"

definition jsonTopoClear :: "string option" where
  "jsonTopoClear = json_msg ''tp'' [(''cmd'', VStr ''clearall'')]"

definition jsonTopoClearTopo :: "string option" where
  "jsonTopoClearTopo = json_msg ''tp'' [(''cmd'', VStr ''cleartopo'')]"

definition jsonTopoEnd :: "string option" where
  "jsonTopoEnd = json_msg ''tp'' [(''cmd'', VStr ''endconf'')]"

definition jsonTopoGet :: "string option" where
  "jsonTopoGet = json_msg ''tp'' [(''cmd'', VStr ''getconf'')]"

definition jsonTopoUpload :: "string option" where
  "jsonTopoUpload = json_msg ''tp'' [(''cmd'', VStr ''upload'')]"

definition jsonTopoStatus :: "c_int \<Rightarrow> string option" where
  "jsonTopoStatus status = json_msg ''tp''
    [(''status'', VInt status)]"

definition jsonTopoAddDevice :: "string \<Rightarrow> string \<Rightarrow> string option \<Rightarrow> string option \<Rightarrow> c_int \<Rightarrow> string option" where
  "jsonTopoAddDevice device mac name ty sid = json_msg ''tp+''
    ([(device, VStr mac)] @ opt_str ''nm'' name @ opt_str ''ty'' ty @ opt_pos ''sid'' sid)"

definition jsonTopoAddManager :: "string \<Rightarrow> string option \<Rightarrow> string option \<Rightarrow> string option" where
  "jsonTopoAddManager mac name ty = jsonTopoAddDevice ''man'' mac name ty 0"

definition jsonTopoAddUI :: "string \<Rightarrow> string option \<Rightarrow> string option" where
  "jsonTopoAddUI mac name = jsonTopoAddDevice ''ui'' mac name None 0"

definition jsonTopoAddSensor :: "string \<Rightarrow> string option \<Rightarrow> string option" where
  "jsonTopoAddSensor mac name = jsonTopoAddDevice ''sen'' mac name None 0"

definition jsonTopoAddPump :: "string \<Rightarrow> string option \<Rightarrow> c_int \<Rightarrow> string option" where
  "jsonTopoAddPump mac name sid = jsonTopoAddDevice ''pmp'' mac name None sid"

definition jsonTopoAddPlug :: "string \<Rightarrow> string option \<Rightarrow> string option" where
  "jsonTopoAddPlug mac name = jsonTopoAddDevice ''plg'' mac name None 0"

definition jsonTopoAddLamp :: "string \<Rightarrow> string option \<Rightarrow> string option \<Rightarrow> string option" where
  "jsonTopoAddLamp mac name ty = jsonTopoAddDevice ''lmp'' mac name ty 0"

definition jsonTopoAddNone :: "string option" where
  "jsonTopoAddNone = json_msg ''tp+'' [(''cmd'', VStr ''none'')]"

definition jsonTopoResponse :: "c_int \<Rightarrow> string option" where
  "jsonTopoResponse errcode = json_msg ''tprsp''
    [(''errcode'', VInt errcode)]"

definition jsonTunnelOpen :: "string \<Rightarrow> string option" where
  "jsonTunnelOpen mac = json_msg ''tunnel''
    [(''open'', VStr mac)]"

definition jsonTunnelClose :: "string option" where
  "jsonTunnelClose = json_msg ''tunnel'' [(''close'', VInt 0)]"

definition jsonCreateError :: "c_int \<Rightarrow> string option" where
  "jsonCreateError e = catString [CHR 0x0A] (catNameValueInt ''error'' e (Some []))"

definition jsonDbGet :: "string \<Rightarrow> string option" where
  "jsonDbGet mac = json_msg ''dbget''
    [(''mac'', VStr mac)]"

definition jsonDbGetRoom :: "c_int \<Rightarrow> c_int \<Rightarrow> string option" where
  "jsonDbGetRoom room ts = json_msg ''dbget''
    ([(''room'', VInt room)] @ opt_pos ''ts'' ts)"

definition jsonDbGetBegin :: "c_int \<Rightarrow> string option" where
  "jsonDbGetBegin ts = json_msg ''dbget''
    [(''begin'', VInt ts)]"

definition jsonDbGetEnd :: "c_int \<Rightarrow> string option" where
  "jsonDbGetEnd count = json_msg ''dbget''
    [(''end'', VInt count)]"

definition jsonDbEditAdd :: "string \<Rightarrow> c_int \<Rightarrow> string option \<Rightarrow> string option" where
  "jsonDbEditAdd mac dev ty = json_msg ''dbedit''
    ([(''add'', VStr mac), (''dev'', VInt dev)] @ opt_str ''ty'' ty)"

definition jsonDbEditRem :: "string \<Rightarrow> string option" where
  "jsonDbEditRem mac = json_msg ''dbedit''
    [(''rem'', VStr mac)]"

definition jsonDbEditClr :: "string \<Rightarrow> string option" where
  "jsonDbEditClr clr = json_msg ''dbedit''
    [(''clr'', VStr clr)]"

definition jsonLampGroup :: "string \<Rightarrow> string option \<Rightarrow> c_int \<Rightarrow> string option \<Rightarrow> c_int \<Rightarrow> string option" where
  "jsonLampGroup mac grp grpid scn scnid = json_msg ''lmp''
    ([(''mac'', VStr mac)] @ opt_str ''grp'' grp @ opt_pos ''grpid'' grpid @ opt_str ''scn'' scn @
     opt_pos ''scnid'' scnid)"

definition jsonGroup ::
  "(c_int \<Rightarrow> c_int \<times> c_int) \<Rightarrow> (c_int \<Rightarrow> c_int \<times> c_int) \<Rightarrow> c_int \<Rightarrow> string option \<Rightarrow> c_int \<Rightarrow> string option \<Rightarrow>
   c_int \<Rightarrow> c_int \<Rightarrow> c_int \<Rightarrow> c_int \<Rightarrow> c_int \<Rightarrow> string option" where
  "jsonGroup rgb2xy kelvin2xy grpid scn scnid cmd lvl0 rgb kelvin xcr0 ycr0 =
     (let full = (if lvl0 \<ge> 0 then lvl0 else 100);
          (xcr, ycr, lvl) =
            (if rgb \<ge> 0 then (fst (rgb2xy rgb), snd (rgb2xy rgb), full)
             else if kelvin \<ge> 0 then (fst (kelvin2xy kelvin), snd (kelvin2xy kelvin), full)
             else (case cmd of
                 Some c \<Rightarrow> (xcr0, ycr0, if c = ''on'' then full else - 1)
               | None \<Rightarrow> (xcr0, ycr0, lvl0)))
      in json_msg ''grp'' ([(''grpid'', VInt grpid)] @ opt_str ''scn'' scn @ opt_int ''scnid'' scnid @
           opt_str ''cmd'' cmd @ opt_int ''lvl'' lvl @ opt_int ''xcr'' xcr @ opt_int ''ycr'' ycr))"

definition jsonGwProperties :: "string \<Rightarrow> c_int \<Rightarrow> string option" where
  "jsonGwProperties name ifversion = json_msg ''gateway''
    [(''name'', VStr name), (''ifversion'', VInt ifversion)]"

definition jsonProcStart :: "string \<Rightarrow> string option" where
  "jsonProcStart prc = json_msg ''proc''
    [(''start'', VStr prc)]"

definition jsonProcStop :: "string \<Rightarrow> string option" where
  "jsonProcStop prc = json_msg ''proc''
    [(''stop'', VStr prc)]"

definition jsonProcRestart :: "string \<Rightarrow> string option" where
  "jsonProcRestart prc = json_msg ''proc''
    [(''restart'', VStr prc)]"

section \<open>A message that fits is written as it reads\<close>

definition message_fits :: "string \<Rightarrow> (string \<times> json_value) list \<Rightarrow> bool" where
  "message_fits nm ms \<longleftrightarrow> list_all (\<lambda>m. length (show_member m) < MAXNAMEVALUE + 2) ms
     \<and> length (show_message nm ms) < MAXJSONMESSAGE"

lemma catMember_eq: "catMember m = catBuffer (MAXNAMEVALUE + 2) (show_member m)"
proof -
  obtain n v where "m = (n, v)" by (cases m)
  then show ?thesis
    by (cases v) (simp_all add: fun_eq_iff show_member_def catNameValueInt_def catNameValueString_def)
qed

lemma catMember_Some:
  "length (show_member m) < MAXNAMEVALUE + 2 \<Longrightarrow> length t + length (show_member m) < MAXJSONMESSAGE \<Longrightarrow>
   catMember m (Some t) = Some (t @ show_member m)"
  by (simp add: catMember_eq catBuffer_def)

lemma catMembers_Some:
  "list_all (\<lambda>m. length (show_member m) < MAXNAMEVALUE + 2) ms \<Longrightarrow>
   length t + length (show_members '' '' ms) < MAXJSONMESSAGE \<Longrightarrow>
   catMembers ms (Some t) = Some (t @ show_members '' '' ms)"
proof (induction "'' ''" ms arbitrary: t rule: show_members.induct)
  case (2 m)
  then show ?case by (simp add: catMember_Some)
next
  case (3 m m' ms)
  then show ?case by (simp add: catMember_Some)
qed simp

lemma json_msg_show:
  assumes "length nm < 30" and "message_fits nm ms"
  shows "json_msg nm ms = Some (show_message nm ms)"
proof -
  have len: "length nm < 30" "length (show_members '' '' ms) + length nm + 10 < MAXJSONMESSAGE"
    and ms: "list_all (\<lambda>m. length (show_member m) < MAXNAMEVALUE + 2) ms"
    using assms by (simp_all add: message_fits_def show_message_def)
  have "catString '' : { '' (catName nm (Some [])) = Some ([CHR 0x22] @ nm @ [CHR 0x22] @ '' : { '')"
    using len by (simp add: catName_def catBuffer_def json_sizes)
  then show ?thesis
    using len by (simp add: json_msg_def catMembers_Some [OF ms] show_message_def)
qed

definition within_buffer :: "string option \<Rightarrow> bool" where
  "within_buffer m = (case m of None \<Rightarrow> True | Some t \<Rightarrow> length t < MAXJSONMESSAGE)"

lemma catString_within: "within_buffer m \<Longrightarrow> within_buffer (catString s m)"
  by (cases m) (simp_all add: within_buffer_def)

lemma catBuffer_within: "within_buffer m \<Longrightarrow> within_buffer (catBuffer n s m)"
  unfolding catBuffer_def by (simp add: catString_within) (simp add: within_buffer_def)

lemma catMembers_within: "within_buffer m \<Longrightarrow> within_buffer (catMembers ms m)"
  by (induction ms m rule: catMembers.induct) (simp_all add: catMember_eq catBuffer_within catString_within)

lemma json_msg_Some: "ok_message nm ms \<Longrightarrow> message_fits nm ms \<Longrightarrow> json_msg nm ms = Some (show_message nm ms)"
  by (rule json_msg_show) (simp_all add: ok_message_def)

lemma show_members_append:
  "xs \<noteq> [] \<Longrightarrow> show_members sp (xs @ y # ys) = show_members sp xs @ [CHR '',''] @ sp @ show_members sp (y # ys)"
  by (induction sp xs rule: show_members.induct) simp_all

section \<open>Properties\<close>

text \<open>
  C11: Writer and parser agree: a sequence of messages of one to eight members, each within
  the buffers of the writer, is written completely, and the parser reports exactly the name
  and the members of each, in order.
\<close>

theorem json_create_stream:
  assumes "\<forall>(nm, ms)\<in>set mss. ok_message nm ms \<and> message_fits nm ms"
  shows "\<exists>out. map (\<lambda>(nm, ms). json_msg nm ms) mss = map Some out
    \<and> p_trace (jsonEats (concat out) (json_init all_handlers))
      = concat (map (\<lambda>(nm, ms). message_events nm ms) mss)"
proof -
  have "map (\<lambda>(nm, ms). json_msg nm ms) mss = map Some (map (\<lambda>(nm, ms). show_message nm ms) mss)"
    using assms json_msg_Some by auto
  moreover have "\<forall>(nm, ms)\<in>set mss. ok_message nm ms" using assms by auto
  from eat_messages [OF at_top_init this]
  have "p_trace (jsonEats (concat (map (\<lambda>(nm, ms). show_message nm ms) mss)) (json_init all_handlers))
      = concat (map (\<lambda>(nm, ms). message_events nm ms) mss)" by (simp add: at_top_def)
  ultimately show ?thesis by blast
qed

lemma witness_name_chars [simp]:
  "isValidNameChar (CHR ''c'')" "isValidNameChar (CHR ''m'')" "isValidNameChar (CHR ''d'')"
  "isValidNameChar (CHR ''a'')" "isValidNameChar (CHR ''l'')" "isValidNameChar (CHR ''v'')"
  "isValidNameChar (CHR ''p'')" "isValidNameChar (CHR ''i'')" "isValidNameChar (CHR ''n'')"
  "isValidNameChar (CHR ''r'')" "isValidNameChar (CHR ''t'')" "isValidNameChar (CHR ''y'')"
  "isValidNameChar (CHR ''g'')" "isValidNameChar (CHR ''b'')"
  by (simp_all add: isValidNameChar_def isAlpha_def char_le_code) (simp_all add: code_def)

theorem json_create_stream_witness:
  "\<exists>out. map (\<lambda>(nm, ms). json_msg nm ms)
        [(''cmd'', [(''mac'', VStr ''00AB''), (''lvl'', VInt 7)]), (''lmp'', [(''cmd'', VStr ''on'')])] = map Some out
    \<and> p_trace (jsonEats (concat out) (json_init all_handlers))
      = [EvObjectStart ''cmd'', EvString ''mac'' ''00AB'', EvInteger ''lvl'' 7, EvObjectComplete ''cmd'',
         EvObjectStart ''lmp'', EvString ''cmd'' ''on'', EvObjectComplete ''lmp'']"
proof -
  have seven: "c_itoa 7 = ''7''" by code_simp
  show ?thesis
    using json_create_stream [of "[(''cmd'', [(''mac'', VStr ''00AB''), (''lvl'', VInt 7)]), (''lmp'', [(''cmd'', VStr ''on'')])]"]
    by (simp add: ok_message_def message_fits_def ok_member_def ok_name_def json_sizes INT_MIN_def INT_MAX_def
        plain_char_def message_events_def show_message_def show_member_def seven MAXJSONMESSAGE_def MAXNAMEVALUE_def)
qed

text \<open>
  No writer overflows the message buffer: whatever the members, a message that is
  delivered is shorter than \<open>MAXJSONMESSAGE\<close>.
\<close>

theorem json_message_bounded:
  "within_buffer (json_msg nm ms)"
  unfolding json_msg_def catName_def
  by (intro catString_within catMembers_within catBuffer_within) (simp add: within_buffer_def MAXJSONMESSAGE_def)

text \<open>
  A string member of more than 161 characters with its name, quotes and colon, such as
  a log text of 154 characters, is written past the local buffer; up to that length the
  writer stays inside it.
\<close>

theorem json_log_overrun:
  "jsonZcbLog v = None \<longleftrightarrow> 153 < length v"
proof -
  have "catString s m = None \<longleftrightarrow> m = None" for s m by (cases m) simp_all
  then show ?thesis
    by (auto simp: jsonZcbLog_def jsonZcbString_def json_msg_def catName_def catNameValueString_def catBuffer_def
        json_sizes MAXNAMEVALUE_def MAXJSONMESSAGE_def)
qed

text \<open>
  The writers and the parser disagree on long objects.  A lamp whose row in the database
  is complete (identifier, name, room, type, command, level, colours and joined flag) is
  announced with ten members; of these the parser reports eight, then an internal error, and
  it is back at its top level with the object never reported complete.
\<close>

theorem json_lamp_not_parsed:
  assumes "0 \<le> i" "0 \<le> rm" "0 \<le> lvl" "0 \<le> rgb" "0 \<le> kelvin" "0 \<le> joined"
    and "ms = [(''id'', VInt i), (''mac'', VStr mac), (''nm'', VStr nm), (''rm'', VInt rm), (''ty'', VStr ty),
         (''cmd'', VStr cmd), (''lvl'', VInt lvl), (''rgb'', VInt rgb)]"
    and "list_all ok_member (ms @ [(''kelvin'', VInt kelvin), (''jnd'', VInt joined)])"
    and "message_fits ''lmp'' (ms @ [(''kelvin'', VInt kelvin), (''jnd'', VInt joined)])"
  shows "\<exists>out txt rest. jsonLamp i mac (Some nm) rm (Some ty) (Some cmd) lvl rgb kelvin joined = Some (out @ rest)
    \<and> p_state (jsonEats out (json_init all_handlers)) = STATE_NONE
    \<and> p_trace (jsonEats out (json_init all_handlers))
      = [EvObjectStart ''lmp''] @ map member_event ms @ [EvError ERR_INTERNAL ''internal error'' txt]"
proof -
  let ?all = "ms @ [(''kelvin'', VInt kelvin), (''jnd'', VInt joined)]"
  have "jsonLamp i mac (Some nm) rm (Some ty) (Some cmd) lvl rgb kelvin joined = json_msg ''lmp'' ?all"
    using assms(1-7) by (simp add: jsonLamp_def jsonLampInternal_def opt_int_def opt_str_def)
  also have "\<dots> = Some (show_message ''lmp'' ?all)"
    by (rule json_msg_show) (use assms(9) in \<open>simp_all\<close>)
  finally have out: "jsonLamp i mac (Some nm) rm (Some ty) (Some cmd) lvl rgb kelvin joined = Some (show_message ''lmp'' ?all)" .
  let ?out = "[CHR 0x22] @ ''lmp'' @ [CHR 0x22] @ '' : { '' @ show_members '' '' ms @ '',''"
  obtain rest where "show_message ''lmp'' ?all = ?out @ rest"
    using show_members_append [of ms "'' ''" "(''kelvin'', VInt kelvin)" "[(''jnd'', VInt joined)]"] assms(7)
    by (simp add: show_message_def)
  moreover have "list_all isValidNameChar ''lmp''" "length ''lmp'' < 30" "length ms = 8" "list_all ok_member ms"
    using assms(7,8) by simp_all
  from eat_message_overflow [OF at_top_init this] obtain lastchars where
    "at_top ([EvObjectStart ''lmp''] @ map member_event ms @ [EvError ERR_INTERNAL ''internal error'' lastchars])
      (jsonEats ?out (json_init all_handlers))" by auto
  ultimately show ?thesis unfolding out at_top_def by metis
qed

theorem json_lamp_not_parsed_witness:
  "\<exists>out txt rest. jsonLamp 1 ''00AB'' (Some ''a'') 0 (Some ''col'') (Some ''on'') 0 0 0 0 = Some (out @ rest)
    \<and> p_state (jsonEats out (json_init all_handlers)) = STATE_NONE
    \<and> p_trace (jsonEats out (json_init all_handlers))
      = [EvObjectStart ''lmp'', EvInteger ''id'' 1, EvString ''mac'' ''00AB'', EvString ''nm'' ''a'', EvInteger ''rm'' 0,
         EvString ''ty'' ''col'', EvString ''cmd'' ''on'', EvInteger ''lvl'' 0, EvInteger ''rgb'' 0,
         EvError ERR_INTERNAL ''internal error'' txt]"
proof -
  have digits: "length (c_itoa 0) = 1" "length (c_itoa 1) = 1" by code_simp+
  have names: "isValidNameChar (CHR ''k'')" "isValidNameChar (CHR ''e'')" "isValidNameChar (CHR ''j'')"
    by (simp_all add: isValidNameChar_def isAlpha_def char_le_code) (simp_all add: code_def)
  show ?thesis
    using json_lamp_not_parsed [of 1 0 0 0 0 0
      "[(''id'', VInt 1), (''mac'', VStr ''00AB''), (''nm'', VStr ''a''), (''rm'', VInt 0), (''ty'', VStr ''col''),
        (''cmd'', VStr ''on''), (''lvl'', VInt 0), (''rgb'', VInt 0)]" "''00AB''" "''a''" "''col''" "''on''"]
    by (simp add: message_fits_def ok_member_def ok_name_def json_sizes INT_MIN_def INT_MAX_def names
        plain_char_def show_message_def show_member_def digits MAXJSONMESSAGE_def MAXNAMEVALUE_def)
qed

end
