(* ===== verification/SystemTable.thy ===== *)
theory SystemTable
  imports NewDb
begin

text \<open>
  The named values the processes keep in the system table (\<open>IotCommon/systemtable.c\<close>): each
  is looked up by name and written back, a new name taking a free row.
\<close>

definition newDbSystemGetInt :: "string \<Rightarrow> newdb option \<Rightarrow> c_int" where
  "newDbSystemGetInt name m = (case newDbGetSystem name m of Some sys \<Rightarrow> sys_intval sys | None \<Rightarrow> - 1)"

definition newDbSystemGetString :: "string \<Rightarrow> newdb option \<Rightarrow> string option" where
  "newDbSystemGetString name m = (case newDbGetSystem name m of Some sys \<Rightarrow> Some (sys_strval sys) | None \<Rightarrow> None)"

text \<open>The three save functions differ only in the fields they change.\<close>

definition system_save :: "(newdb_system_t \<Rightarrow> newdb_system_t) \<Rightarrow> c_int \<Rightarrow> string \<Rightarrow> newdb option \<Rightarrow> bool \<times> newdb option" where
  "system_save f now = table_upsert newDbGetSystem (newDbGetNewSystem now) (newDbSetSystem now) f f"

definition newDbSystemSaveIntval :: "c_int \<Rightarrow> string \<Rightarrow> c_int \<Rightarrow> newdb option \<Rightarrow> bool \<times> newdb option" where
  "newDbSystemSaveIntval now name intval = system_save (\<lambda>sys. sys\<lparr>sys_intval := intval, sys_strval := []\<rparr>) now name"

definition newDbSystemSaveStringval :: "c_int \<Rightarrow> string \<Rightarrow> string option \<Rightarrow> newdb option \<Rightarrow> bool \<times> newdb option" where
  "newDbSystemSaveStringval now name stringval m = (case stringval of
     None \<Rightarrow> (False, m)
   | Some v \<Rightarrow> system_save (\<lambda>sys. sys\<lparr>sys_intval := 0, sys_strval := newDbStrNcpy v LEN_SYSSTR\<rparr>) now name m)"

definition newDbSystemSaveVal :: "c_int \<Rightarrow> string \<Rightarrow> c_int \<Rightarrow> string option \<Rightarrow> newdb option \<Rightarrow> bool \<times> newdb option" where
  "newDbSystemSaveVal now name intval stringval m = (case stringval of
     None \<Rightarrow> (False, m)
   | Some v \<Rightarrow> system_save (\<lambda>sys. sys\<lparr>sys_intval := intval, sys_strval := newDbStrNcpy v LEN_SYSSTR\<rparr>) now name m)"

section \<open>Properties\<close>

abbreviation sys_inv :: "newdb option \<Rightarrow> bool" where
  "sys_inv \<equiv> stored_inv sys_rows sys_name sys_id NEWDB_MAX_SYSTEM"

abbreviation sys_keys :: "newdb option \<Rightarrow> string set" where
  "sys_keys \<equiv> stored_keys sys_rows sys_name"

lemma sys_fresh: "sys_inv (Some db_fresh) \<and> sys_keys (Some db_fresh) = {}"
proof -
  have rows: "sys_rows (Some db_fresh) = Some (map (\<lambda>i. zero_sys\<lparr>sys_id := int i\<rparr>) [0..<NEWDB_MAX_SYSTEM])"
    by (simp add: db_fresh_def NEWDB_MAX_SYSTEM_def zero_sys_def)
  show ?thesis
    by (rule stored_inv_fresh [where rows = sys_rows and db = "Some db_fresh", OF rows]) (simp_all add: zero_sys_def)
qed

text \<open>
  A saved value is read back: a name that is in the system table, or for which there is
  room, is saved with success and then reads as the value saved, every other name reads as
  before, and the table stays well formed; when the table is full and the name is new, the
  save reports failure and changes nothing.
\<close>

theorem system_save_get:
  assumes "sys_inv m" and "ok_name_key name" and "k \<noteq> []" and "k \<noteq> name"
  shows "(if name \<in> sys_keys m \<or> card (sys_keys m) < NEWDB_MAX_SYSTEM
     then \<exists>m'. newDbSystemSaveVal now name v (Some t) m = (True, m') \<and> sys_inv m' \<and> sys_keys m' = insert name (sys_keys m)
        \<and> newDbSystemGetInt name m' = v \<and> newDbSystemGetString name m' = Some (take LEN_SYSSTR t)
        \<and> newDbGetSystem k m' = newDbGetSystem k m
     else newDbSystemSaveVal now name v (Some t) m = (False, m))"
proof (cases "name \<in> sys_keys m \<or> card (sys_keys m) < NEWDB_MAX_SYSTEM")
  case True
  then have room: "name \<in> sys_keys m \<or> card (sys_keys m) \<noteq> NEWDB_MAX_SYSTEM" by auto
  let ?f = "\<lambda>sys. sys\<lparr>sys_intval := v, sys_strval := newDbStrNcpy t LEN_SYSSTR\<rparr>"
  obtain m' r where m': "system_save ?f now name m = (True, m')" "sys_inv m'" "sys_keys m' = insert name (sys_keys m)"
    "newDbGetSystem name m' = Some (sys_lastupdate_update (\<lambda>_. now) r)" "newDbGetSystem k m' = newDbGetSystem k m"
    and r: "\<exists>r0. r = ?f r0"
    using systems.upsert [OF assms(1,2) _ _ room, of ?f ?f now] assms(3,4)
    unfolding system_save_def by (fastforce split: option.splits)
  have "newDbSystemGetInt name m' = v" "newDbSystemGetString name m' = Some (take LEN_SYSSTR t)"
    using m'(4) r by (auto simp: newDbSystemGetInt_def newDbSystemGetString_def newDbStrNcpy_def)
  with m' True show ?thesis by (simp add: newDbSystemSaveVal_def)
next
  case False
  with systems.finite_keys [OF assms(1)] have "card (sys_keys m) = NEWDB_MAX_SYSTEM" by auto
  with False show ?thesis
    by (simp add: newDbSystemSaveVal_def system_save_def systems.upsert_full [OF assms(1,2)])
qed

theorem system_save_get_witness:
  "\<exists>m'. newDbSystemSaveVal 7 ''permit'' 42 (Some ''on'') (Some db_fresh) = (True, m') \<and> newDbSystemGetInt ''permit'' m' = 42"
  using system_save_get [of "Some db_fresh" "''permit''" "''x''" 7 42 "''on''"] sys_fresh
  by (auto simp: LEN_NM_def NEWDB_MAX_SYSTEM_def)

end
