(* ===== verification/MsgQueue.thy ===== *)
theory MsgQueue
  imports IotPrelude
begin

text \<open>
  The System V message queues between the daemons (\<open>IotCommon/queue.c\<close>).  What the operating
  system answers is an argument: whether a queue can be opened or must be created first,
  whether a message can be sent, and the outcomes of the polls of a read with a time limit.
  A queue hands its messages out in the order they were sent.
\<close>

definition MAXMESSAGESIZE :: nat where "MAXMESSAGESIZE = 300"
definition QREAD_POLL :: c_int where "QREAD_POLL = 50"

datatype queueKey =
    QUEUE_KEY_NONE | QUEUE_KEY_CONTROL_INTERFACE | QUEUE_KEY_SECURE_JOINER | QUEUE_KEY_ZCB_IN | QUEUE_KEY_DBP

definition IOT_ERROR_NONE :: c_int where "IOT_ERROR_NONE = 0"
definition IOT_ERROR_QUEUE_CREATE :: c_int where "IOT_ERROR_QUEUE_CREATE = 60"
definition IOT_ERROR_QUEUE_OPEN :: c_int where "IOT_ERROR_QUEUE_OPEN = 61"
definition IOT_ERROR_QUEUE_READ :: c_int where "IOT_ERROR_QUEUE_READ = 62"
definition IOT_ERROR_QUEUE_WRITE :: c_int where "IOT_ERROR_QUEUE_WRITE = 63"
definition IOT_ERROR_QUEUE_BUFSIZE :: c_int where "IOT_ERROR_QUEUE_BUFSIZE = 66"

text \<open>\<open>msgget\<close>: the queue is there, it is not but can (or cannot) be created, or another error.\<close>

datatype msgget = GET_OK | GET_NOENT bool | GET_FAILED

record mq_env =
  env_get :: "queueKey \<Rightarrow> msgget"
  env_snd :: "queueKey \<Rightarrow> bool"

record ipc =
  q_msgs :: "queueKey \<Rightarrow> string list"
  q_error :: c_int

text \<open>A handle is the key of the queue it belongs to; \<open>None\<close> is \<open>-1\<close>.\<close>

definition queueOpen :: "mq_env \<Rightarrow> queueKey \<Rightarrow> ipc \<Rightarrow> queueKey option \<times> ipc" where
  "queueOpen env key s = (case env_get env key of
     GET_OK \<Rightarrow> (Some key, s)
   | GET_NOENT created \<Rightarrow> (if created then (Some key, s) else (None, s\<lparr>q_error := IOT_ERROR_QUEUE_CREATE\<rparr>))
   | GET_FAILED \<Rightarrow> (None, s\<lparr>q_error := IOT_ERROR_QUEUE_OPEN\<rparr>))"

text \<open>
  A call of \<open>msgsnd\<close> that succeeds: on a queue that is full it sleeps until a reader has made room,
  which the limits of the system decide and no definition here does.
\<close>

definition queueWrite :: "mq_env \<Rightarrow> queueKey \<Rightarrow> string \<Rightarrow> ipc \<Rightarrow> bool \<times> ipc" where
  "queueWrite env q message s =
     (if length message > MAXMESSAGESIZE - 2 then (False, s\<lparr>q_error := IOT_ERROR_QUEUE_BUFSIZE\<rparr>)
      else if \<not> env_snd env q then (False, s\<lparr>q_error := IOT_ERROR_QUEUE_WRITE\<rparr>)
      else (True, s\<lparr>q_msgs := (q_msgs s)(q := q_msgs s q @ [message])\<rparr>))"

definition queueWriteOneMessage :: "mq_env \<Rightarrow> queueKey \<Rightarrow> string \<Rightarrow> ipc \<Rightarrow> bool \<times> ipc" where
  "queueWriteOneMessage env key message s = (case queueOpen env key s of
     (Some q, s') \<Rightarrow> queueWrite env q message s'
   | (None, s') \<Rightarrow> (False, s'))"

text \<open>
  The blocking read; \<open>None\<close> while it waits.  The second argument says whether \<open>msgrcv\<close>
  succeeds; \<open>sz\<close> is the size of the user's buffer, at least one.  On an error the buffer
  is all zero.
\<close>

definition received :: "nat \<Rightarrow> string \<Rightarrow> string" where
  "received sz m = (let d = take MAXMESSAGESIZE m in if length d \<ge> sz then take (sz - 1) d else d)"

definition queueRead :: "bool \<Rightarrow> queueKey \<Rightarrow> nat \<Rightarrow> ipc \<Rightarrow> ((c_int \<times> string) \<times> ipc) option" where
  "queueRead rcv_ok q sz s =
     (if rcv_ok then (case q_msgs s q of
          [] \<Rightarrow> None
        | m # ms \<Rightarrow> Some ((int (length (received sz m)), received sz m), s\<lparr>q_msgs := (q_msgs s)(q := ms)\<rparr>))
      else Some ((- 1, []), s\<lparr>q_error := IOT_ERROR_QUEUE_READ\<rparr>))"

text \<open>
  The read with a time limit: one outcome of \<open>msgrcv\<close> per poll, a message or a failure,
  which an empty queue is.  The result is the length and what the buffer was filled with;
  \<open>None\<close> when the outcomes do not reach to the end of the loop.
\<close>

fun queueReadPoll :: "nat \<Rightarrow> c_int \<Rightarrow> c_int \<Rightarrow> string option \<Rightarrow> string option list \<Rightarrow> (c_int \<times> string option) option" where
  "queueReadPoll sz msec len buf [] = (if len \<le> 0 \<and> msec > 0 then None else Some (len, buf))"
| "queueReadPoll sz msec len buf (out # outs) =
     (if len \<le> 0 \<and> msec > 0 then
        (case out of
           None \<Rightarrow> queueReadPoll sz (msec - QREAD_POLL) (if msec - QREAD_POLL > 0 then 0 else - 1) buf outs
         | Some m \<Rightarrow> queueReadPoll sz msec (int (length (received sz m))) (Some (received sz m)) outs)
      else Some (len, buf))"

definition queueReadWithMsecTimeout :: "nat \<Rightarrow> c_int \<Rightarrow> string option list \<Rightarrow> (c_int \<times> string option) option" where
  "queueReadWithMsecTimeout sz msec outs = queueReadPoll sz msec 0 None outs"

definition queueGetNumMessages :: "bool \<Rightarrow> queueKey \<Rightarrow> ipc \<Rightarrow> c_int" where
  "queueGetNumMessages ctl_ok q s = (if ctl_ok then int (length (q_msgs s q)) else - 1)"

section \<open>Sending and receiving\<close>

definition queue_usable :: "mq_env \<Rightarrow> queueKey \<Rightarrow> bool" where
  "queue_usable env q \<longleftrightarrow> (env_get env q = GET_OK \<or> env_get env q = GET_NOENT True) \<and> env_snd env q"

lemma queueWriteOneMessage_ok [simp]:
  "queue_usable env q \<Longrightarrow> length m \<le> 298 \<Longrightarrow>
   queueWriteOneMessage env q m s = (True, s\<lparr>q_msgs := (q_msgs s)(q := q_msgs s q @ [m])\<rparr>)"
  by (auto simp: queue_usable_def queueWriteOneMessage_def queueOpen_def queueWrite_def MAXMESSAGESIZE_def)

lemma queueWriteOneMessage_unusable: "\<not> queue_usable env q \<Longrightarrow> queueWriteOneMessage env q m s \<noteq> (True, s')"
  by (auto simp: queue_usable_def queueWriteOneMessage_def queueOpen_def queueWrite_def split: msgget.split prod.split option.split)

lemma received_all: "length m \<le> 298 \<Longrightarrow> length m < sz \<Longrightarrow> received sz m = m"
  by (simp add: received_def MAXMESSAGESIZE_def Let_def)

lemma received_bound: "0 < sz \<Longrightarrow> length (received sz m) < sz \<and> length (received sz m) \<le> MAXMESSAGESIZE"
  by (auto simp: received_def Let_def)

fun send_all :: "mq_env \<Rightarrow> queueKey \<Rightarrow> string list \<Rightarrow> ipc \<Rightarrow> ipc" where
  "send_all env q [] s = s"
| "send_all env q (m # ms) s = send_all env q ms (snd (queueWriteOneMessage env q m s))"

fun receive_all :: "queueKey \<Rightarrow> nat \<Rightarrow> nat \<Rightarrow> ipc \<Rightarrow> string list \<times> ipc" where
  "receive_all q sz 0 s = ([], s)"
| "receive_all q sz (Suc n) s = (case queueRead True q sz s of
     None \<Rightarrow> ([], s)
   | Some ((len, m), s') \<Rightarrow> (case receive_all q sz n s' of (ms, s'') \<Rightarrow> (m # ms, s'')))"

lemma send_all_ok:
  "queue_usable env q \<Longrightarrow> \<forall>m\<in>set ms. length m \<le> 298 \<Longrightarrow>
   send_all env q ms s = s\<lparr>q_msgs := (q_msgs s)(q := q_msgs s q @ ms)\<rparr>"
  by (induction ms arbitrary: s) simp_all

lemma receive_all_ok:
  "q_msgs s q = ms @ rest \<Longrightarrow> \<forall>m\<in>set ms. length m \<le> 298 \<and> length m < sz \<Longrightarrow>
   receive_all q sz (length ms) s = (ms, s\<lparr>q_msgs := (q_msgs s)(q := rest)\<rparr>)"
proof (induction ms arbitrary: s)
  case Nil
  then have "(q_msgs s)(q := rest) = q_msgs s" by auto
  then show ?case by simp
qed (simp add: queueRead_def received_all)

text \<open>The polls of a read with a time limit, when none brings a message.\<close>

lemma queueReadPoll_timeout:
  "0 < msec \<Longrightarrow> len \<le> 0 \<Longrightarrow> msec \<le> 50 * int n \<Longrightarrow> 50 * int n < msec + 50 \<Longrightarrow>
   queueReadPoll sz msec len buf (replicate n None @ outs) = Some (- 1, buf)"
proof (induction n arbitrary: msec len)
  case (Suc n)
  show ?case
  proof (cases "msec \<le> 50")
    case True
    with Suc.prems have "n = 0" by simp
    with True Suc.prems show ?thesis by (cases outs) (simp_all add: QREAD_POLL_def)
  next
    case False
    with Suc.IH [of "msec - 50" 0] Suc.prems show ?thesis by (simp add: QREAD_POLL_def)
  qed
qed simp

section \<open>Properties\<close>

text \<open>
  C34: The queues carry messages between the daemons unchanged and in order: with a usable
  queue that is empty, any sequence of messages of at most 298 characters that is sent, and that
  the system has room for, is received again by a reader whose buffer is long enough, and the queue is empty after it.  A longer
  message is refused with \<open>IOT_ERROR_QUEUE_BUFSIZE\<close> and the queue stays as it was.
\<close>

theorem queue_transport:
  assumes "queue_usable env q" and "\<forall>m\<in>set ms. length m \<le> 298 \<and> length m < sz" and "q_msgs s q = []"
    and "298 < length m"
  shows "receive_all q sz (length ms) (send_all env q ms s) = (ms, s)
    \<and> queueWriteOneMessage env q m s = (False, s\<lparr>q_error := IOT_ERROR_QUEUE_BUFSIZE\<rparr>)"
proof -
  have "\<forall>m\<in>set ms. length m \<le> 298" using assms(2) by auto
  from send_all_ok [OF assms(1) this, of s] assms(3)
  have sent: "send_all env q ms s = s\<lparr>q_msgs := (q_msgs s)(q := ms @ [])\<rparr>" by simp
  have "receive_all q sz (length ms) (send_all env q ms s)
      = (ms, (send_all env q ms s)\<lparr>q_msgs := (q_msgs (send_all env q ms s))(q := [])\<rparr>)"
    by (rule receive_all_ok) (use assms(2) in \<open>simp_all add: sent\<close>)
  moreover have "(q_msgs s)(q := []) = q_msgs s" using assms(3) by auto
  ultimately show ?thesis
    using assms(1,4)
    by (auto simp: sent queueWriteOneMessage_def queueOpen_def queue_usable_def queueWrite_def MAXMESSAGESIZE_def)
qed

theorem queue_transport_witness:
  "fst (receive_all QUEUE_KEY_ZCB_IN 100 2 (send_all \<lparr>env_get = \<lambda>_. GET_OK, env_snd = \<lambda>_. True\<rparr> QUEUE_KEY_ZCB_IN
     [''on'', ''off''] \<lparr>q_msgs = \<lambda>_. [], q_error = 0\<rparr>)) = [''on'', ''off'']"
  using queue_transport [of "\<lparr>env_get = \<lambda>_. GET_OK, env_snd = \<lambda>_. True\<rparr>" QUEUE_KEY_ZCB_IN "[''on'', ''off'']" 100
      "\<lparr>q_msgs = \<lambda>_. [], q_error = 0\<rparr>" "replicate 299 (CHR ''x'')"]
  by (simp only: queue_usable_def) (simp add: numeral_2_eq_2)

end
