(* ===== verification/NewDbFile.thy ===== *)
theory NewDbFile
  imports NewDb
begin

text \<open>
  The database in memory and on disk (\<open>IotCommon/newDb.c\<close>): the bytes of the shared memory
  segment, opening it, and saving it to and restoring it from a file, in which the
  structure is stored byte for byte.  \<open>newdb_of\<close> reads the tables of \<open>NewDb\<close> out of these
  bytes, at the offsets the structures of \<open>newDb.h\<close> have (\<open>int\<close> of four bytes,
  little-endian, aligned to four; the bit map of a Zigbee node aligned to eight).

  The operating system's side is in a record of outcomes: which of the calls on the files
  succeed, and for the \<open>write\<close> and \<open>read\<close> calls how many bytes each takes (none is the
  error), all that are left when the script is used up.  A file that exists can be opened
  for reading, so opening fails for an absent file only.  \<open>DB_MULTIPLE_FILES\<close> is not defined, so there is
  one file and one backup.
\<close>

section \<open>The bytes of the segment\<close>

type_synonym bytes = "u8 list"

definition DB_SIZE :: nat where "DB_SIZE = 19832"
definition OFF_SYSTEM :: nat where "OFF_SYSTEM = 72"
definition OFF_DEVICES :: nat where "OFF_DEVICES = 1272"
definition OFF_PLUGHIST :: nat where "OFF_PLUGHIST = 4472"
definition OFF_ZCB :: nat where "OFF_ZCB = 17272"
definition SIZE_SYSTEM :: nat where "SIZE_SYSTEM = 60"
definition SIZE_DEV :: nat where "SIZE_DEV = 160"
definition SIZE_PLUGHIST :: nat where "SIZE_PLUGHIST = 32"
definition SIZE_ZCB :: nat where "SIZE_ZCB = 64"

lemmas db_layout = DB_SIZE_def OFF_SYSTEM_def OFF_DEVICES_def OFF_PLUGHIST_def OFF_ZCB_def
  SIZE_SYSTEM_def SIZE_DEV_def SIZE_PLUGHIST_def SIZE_ZCB_def
  NEWDB_MAX_SYSTEM_def NEWDB_MAX_DEVICES_def NEWDB_MAX_PLUGHIST_def NEWDB_MAX_ZCB_def

definition nat_at :: "bytes \<Rightarrow> nat \<Rightarrow> nat \<Rightarrow> nat" where
  "nat_at img off n = (\<Sum>i<n. unat (img ! (off + i)) * 256 ^ i)"

definition int_at :: "bytes \<Rightarrow> nat \<Rightarrow> c_int" where
  "int_at img off = (let u = int (nat_at img off 4) in if 2147483648 \<le> u then u - 4294967296 else u)"

definition str_at :: "bytes \<Rightarrow> nat \<Rightarrow> nat \<Rightarrow> string" where
  "str_at img off n = takeWhile (\<lambda>c. c \<noteq> NUL) (map (\<lambda>b. char_of (unat b)) (take n (drop off img)))"

definition put_int :: "nat \<Rightarrow> c_int \<Rightarrow> bytes \<Rightarrow> bytes" where
  "put_int off v img = fold (\<lambda>k img. img[off + k := word_of_int (v div 256 ^ k)]) [0..<4] img"

definition sys_at :: "bytes \<Rightarrow> nat \<Rightarrow> newdb_system_t" where
  "sys_at img off = \<lparr>sys_id = int_at img off, sys_name = str_at img (off + 4) 22, sys_intval = int_at img (off + 28),
     sys_strval = str_at img (off + 32) 22, sys_lastupdate = int_at img (off + 56)\<rparr>"

definition dev_at :: "bytes \<Rightarrow> nat \<Rightarrow> newdb_dev_t" where
  "dev_at img off = \<lparr>dev_id = int_at img off, dev_mac = str_at img (off + 4) 18, dev_dev = int_at img (off + 24),
     dev_ty = str_at img (off + 28) 10, dev_par = int_at img (off + 40), dev_nm = str_at img (off + 44) 22,
     dev_heat = int_at img (off + 68), dev_cool = int_at img (off + 72), dev_tmp = int_at img (off + 76),
     dev_hum = int_at img (off + 80), dev_prs = int_at img (off + 84), dev_co2 = int_at img (off + 88),
     dev_bat = int_at img (off + 92), dev_batl = int_at img (off + 96), dev_als = int_at img (off + 100),
     dev_xloc = int_at img (off + 104), dev_yloc = int_at img (off + 108), dev_zloc = int_at img (off + 112),
     dev_sid = int_at img (off + 116), dev_cmd = str_at img (off + 120) 10, dev_lvl = int_at img (off + 132),
     dev_rgb = int_at img (off + 136), dev_kelvin = int_at img (off + 140), dev_act = int_at img (off + 144),
     dev_sum = int_at img (off + 148), dev_flags = int_at img (off + 152), dev_lastupdate = int_at img (off + 156)\<rparr>"

definition ph_at :: "bytes \<Rightarrow> nat \<Rightarrow> newdb_plughist_t" where
  "ph_at img off = \<lparr>ph_id = int_at img off, ph_mac = str_at img (off + 4) 18, ph_sum = int_at img (off + 24),
     ph_lastupdate = int_at img (off + 28)\<rparr>"

text \<open>The states of a node are the numbers 0 to 3; nothing stores another.\<close>

definition zcb_status_of :: "c_int \<Rightarrow> zcbNodeStatus" where
  "zcb_status_of n = (if n = 0 then ZCB_STATUS_FREE else if n = 1 then ZCB_STATUS_USED
     else if n = 2 then ZCB_STATUS_JOINED else ZCB_STATUS_LEFT)"

definition zcb_at :: "bytes \<Rightarrow> nat \<Rightarrow> newdb_zcb_t" where
  "zcb_at img off = \<lparr>zcb_id = int_at img off, zcb_mac = str_at img (off + 4) 18,
     zcb_status = zcb_status_of (int_at img (off + 24)), zcb_saddr = int_at img (off + 28),
     zcb_type = int_at img (off + 32), zcb_lastupdate = int_at img (off + 36),
     zcb_clusters = of_nat (nat_at img (off + 40) 8), zcb_info = str_at img (off + 48) 10,
     zcb_profile = of_nat (nat_at img (off + 58) 2), zcb_version = img ! (off + 60)\<rparr>"

definition newdb_of :: "bytes \<Rightarrow> newdb" where
  "newdb_of img = \<lparr>db_version = int_at img 0, db_numwrites = int_at img 4, db_lastupdate_sys = int_at img 8,
     db_lastupdate_rooms = int_at img 12, db_lastupdate_devices = int_at img 16,
     db_lastupdate_plughist = int_at img 20, db_lastupdate_zcb = int_at img 24,
     db_system = map (\<lambda>i. sys_at img (OFF_SYSTEM + SIZE_SYSTEM * i)) [0..<NEWDB_MAX_SYSTEM],
     db_devices = map (\<lambda>i. dev_at img (OFF_DEVICES + SIZE_DEV * i)) [0..<NEWDB_MAX_DEVICES],
     db_plughist = map (\<lambda>i. ph_at img (OFF_PLUGHIST + SIZE_PLUGHIST * i)) [0..<NEWDB_MAX_PLUGHIST],
     db_zcb = map (\<lambda>i. zcb_at img (OFF_ZCB + SIZE_ZCB * i)) [0..<NEWDB_MAX_ZCB]\<rparr>"

section \<open>The files\<close>

record db_files =
  file_main :: "bytes option"
  file_backup :: "bytes option"

record db_os =
  remove_ok :: bool
  rename_ok :: bool
  create_ok :: bool
  open_ok :: bool
  malloc_ok :: bool
  os_writes :: "nat option list"
  os_reads :: "nat option list"

text \<open>The write loop: the file so far, and the number of bytes not written in the end.\<close>

fun write_loop :: "nat option list \<Rightarrow> bytes \<Rightarrow> bytes \<Rightarrow> bytes \<times> nat" where
  "write_loop script [] f = (f, 0)"
| "write_loop [] buf f = (f @ buf, 0)"
| "write_loop (None # script) buf f = (f, length buf)"
| "write_loop (Some n # script) buf f = write_loop script (drop n buf) (f @ take n buf)"

text \<open>
  The read loop: \<open>bytestoread\<close>, what is left of the file, the buffer so far; a read of no
  bytes ends it, as the end of the file does.
\<close>

fun read_loop :: "nat option list \<Rightarrow> nat \<Rightarrow> bytes \<Rightarrow> bytes \<Rightarrow> bytes \<times> nat" where
  "read_loop script 0 rest buf = (buf, 0)"
| "read_loop script (Suc n) [] buf = (buf, Suc n)"
| "read_loop [] (Suc n) rest buf = (buf @ take (Suc n) rest, Suc n - length rest)"
| "read_loop (None # script) (Suc n) rest buf = (buf, Suc n)"
| "read_loop (Some k # script) (Suc n) rest buf =
     (if k = 0 then (buf, Suc n)
      else let got = take k (take (Suc n) rest)
           in read_loop script (Suc n - length got) (drop (length got) rest) (buf @ got))"

definition newDbSaveTable :: "db_os \<Rightarrow> bytes \<Rightarrow> db_files \<Rightarrow> bool \<times> db_files" where
  "newDbSaveTable os data fs =
     (let create = (\<lambda>g. if \<not> create_ok os then (False, g)
          else if open_ok os then
            (case write_loop (os_writes os) data [] of (f, bytestowrite) \<Rightarrow>
              (bytestowrite = 0, g\<lparr>file_main := Some f\<rparr>))
          else (length data = 0, g\<lparr>file_main := Some []\<rparr>))
      in if data = [] then (False, fs)
         else if file_main fs = None then create fs
         else if file_backup fs \<noteq> None \<and> \<not> remove_ok os then (False, fs)
         else if \<not> rename_ok os then (False, fs\<lparr>file_backup := None\<rparr>)
         else create (fs\<lparr>file_main := None, file_backup := file_main fs\<rparr>))"

definition newDbRestoreTable :: "db_os \<Rightarrow> nat \<Rightarrow> db_files \<Rightarrow> bytes option" where
  "newDbRestoreTable os len fs =
     (if len = 0 then None
      else case (if file_main fs = None then file_backup fs else file_main fs) of
        None \<Rightarrow> None
      | Some f \<Rightarrow> (case read_loop (os_reads os) len f [] of (data, bytestoread) \<Rightarrow>
          if bytestoread = 0 then Some data else None))"

text \<open>The contents copied to the segment, if the file could be restored.\<close>

definition newDbRestore :: "db_os \<Rightarrow> db_files \<Rightarrow> bytes option" where
  "newDbRestore os fs =
     (if \<not> malloc_ok os then None
      else case newDbRestoreTable os DB_SIZE fs of
        None \<Rightarrow> None
      | Some data \<Rightarrow> if int_at data 0 = NEWDB_VERSION then Some data else None)"

text \<open>
  The rows of a table of the wiped segment get their index and an empty key; the rows of the Zigbee
  nodes get the status \<open>ZCB_STATUS_FREE\<close> instead.
\<close>

definition init_rows :: "nat \<Rightarrow> nat \<Rightarrow> (nat \<Rightarrow> bytes \<Rightarrow> bytes) \<Rightarrow> nat \<Rightarrow> bytes \<Rightarrow> bytes" where
  "init_rows base row clear n img =
     fold (\<lambda>i img. clear (base + row * i) (put_int (base + row * i) (int i) img)) [0..<n] img"

definition clear_key :: "nat \<Rightarrow> bytes \<Rightarrow> bytes" where
  "clear_key off img = img[off + 4 := 0]"

definition clear_status :: "nat \<Rightarrow> bytes \<Rightarrow> bytes" where
  "clear_status off img = put_int (off + 24) 0 img"

definition db_wiped_bytes :: bytes where
  "db_wiped_bytes = replicate DB_SIZE 0"

definition newDbInit :: "bytes \<Rightarrow> bytes" where
  "newDbInit img =
     init_rows OFF_ZCB SIZE_ZCB clear_status NEWDB_MAX_ZCB
       (init_rows OFF_PLUGHIST SIZE_PLUGHIST clear_key NEWDB_MAX_PLUGHIST
         (init_rows OFF_DEVICES SIZE_DEV clear_key NEWDB_MAX_DEVICES
           (init_rows OFF_SYSTEM SIZE_SYSTEM clear_key NEWDB_MAX_SYSTEM (put_int 0 NEWDB_VERSION img))))"

text \<open>
  \<open>newDbOpen\<close> with the segment found (\<open>Some\<close> its bytes) or not; the flags are the
  outcomes of creating and of attaching it.
\<close>

definition newDbOpen :: "bool \<Rightarrow> bool \<Rightarrow> db_os \<Rightarrow> bytes option \<Rightarrow> db_files \<Rightarrow> bool \<times> bytes option" where
  "newDbOpen shm_ok attach_ok os segment fs =
     (if segment = None \<and> \<not> shm_ok \<or> \<not> attach_ok then (False, None)
      else (True, Some (case segment of
              Some img \<Rightarrow> img
            | None \<Rightarrow> (case newDbRestore os fs of Some img \<Rightarrow> img | None \<Rightarrow> newDbInit db_wiped_bytes))))"

text \<open>The time stamps a process remembers of its last save.\<close>

record save_stamps =
  st_sys :: c_int
  st_rooms :: c_int
  st_devices :: c_int
  st_plughist :: c_int
  st_zcb :: c_int

definition stamps_of :: "bytes \<Rightarrow> save_stamps" where
  "stamps_of img = \<lparr>st_sys = int_at img 8, st_rooms = int_at img 12, st_devices = int_at img 16,
     st_plughist = int_at img 20, st_zcb = int_at img 24\<rparr>"

definition newDbSave :: "db_os \<Rightarrow> bytes option \<Rightarrow> save_stamps \<Rightarrow> db_files \<Rightarrow> c_int \<times> save_stamps \<times> db_files" where
  "newDbSave os segment st fs = (case segment of
     None \<Rightarrow> (0, st, fs)
   | Some img \<Rightarrow>
       if malloc_ok os \<and> stamps_of img \<noteq> st then
         (case newDbSaveTable os img fs of (ok, fs') \<Rightarrow> (0, if ok then stamps_of img else st, fs'))
       else (0, st, fs))"

section \<open>Reading what was put\<close>

lemma put_int_eq: "put_int off v img = img[off := word_of_int v, off + 1 := word_of_int (v div 256),
    off + 2 := word_of_int (v div 65536), off + 3 := word_of_int (v div 16777216)]"
proof -
  have "[0..<4] = [0, 1, 2, 3 :: nat]" by (simp add: upt_rec)
  then show ?thesis by (simp add: put_int_def)
qed

lemma length_put_int [simp]: "length (put_int off v img) = length img"
  by (simp add: put_int_eq)

lemma put_int_nth:
  "off + 4 \<le> length img \<Longrightarrow>
   put_int off v img ! p = (if off \<le> p \<and> p < off + 4 then word_of_int (v div 256 ^ (p - off)) else img ! p)"
proof -
  assume len: "off + 4 \<le> length img"
  show ?thesis
  proof (cases "off \<le> p \<and> p < off + 4")
    case True
    then have "p = off \<or> p = off + 1 \<or> p = off + 2 \<or> p = off + 3" by auto
    with len show ?thesis by (auto simp: put_int_eq nth_list_update)
  qed (auto simp: put_int_eq nth_list_update)
qed

lemma nat_at_4: "nat_at img off 4 = unat (img ! off) + 256 * unat (img ! (off + 1))
    + 65536 * unat (img ! (off + 2)) + 16777216 * unat (img ! (off + 3))"
proof -
  have "{..<4} = {0, 1, 2, 3 :: nat}" by auto
  then show ?thesis by (simp add: nat_at_def)
qed

lemma int_at_bytes:
  assumes "\<forall>k<4. img ! (off + k) = word_of_int (v div 256 ^ k)" and "- 2147483648 \<le> v" and "v < 2147483648"
  shows "int_at img off = v"
proof -
  have b: "img ! off = word_of_int v" "img ! (off + 1) = word_of_int (v div 256)"
    "img ! (off + 2) = word_of_int (v div 65536)" "img ! (off + 3) = word_of_int (v div 16777216)"
    using assms(1) [rule_format, of 0] assms(1) [rule_format, of 1] assms(1) [rule_format, of 2]
      assms(1) [rule_format, of 3] by simp_all
  have byte: "int (unat (word_of_int x :: u8)) = x mod 256" for x
    by (simp add: unsigned_of_int take_bit_eq_mod)
  have "int (nat_at img off 4) = v mod 256 + 256 * (v div 256 mod 256) + 65536 * (v div 65536 mod 256)
      + 16777216 * (v div 16777216 mod 256)"
    by (simp only: nat_at_4 b of_nat_add of_nat_mult of_nat_numeral byte)
  also have "\<dots> = v mod 4294967296"
  proof -
    have d: "v div 256 div 256 = v div 65536" "v div 65536 div 256 = v div 16777216"
      using zdiv_zmult2_eq [of 256 v 256] zdiv_zmult2_eq [of 256 v 65536] by simp_all
    have "v mod 4294967296 = 256 * (v div 256 mod 16777216) + v mod 256"
      using zmod_zmult2_eq [of 16777216 v 256] by simp
    moreover have "v div 256 mod 16777216 = 256 * (v div 65536 mod 65536) + v div 256 mod 256"
      using zmod_zmult2_eq [of 65536 "v div 256" 256] d by simp
    moreover have "v div 65536 mod 65536 = 256 * (v div 16777216 mod 256) + v div 65536 mod 256"
      using zmod_zmult2_eq [of 256 "v div 65536" 256] d by simp
    ultimately show ?thesis by linarith
  qed
  finally have u: "int (nat_at img off 4) = v mod 4294967296" .
  show ?thesis
  proof (cases "0 \<le> v")
    case True
    then have "v mod 4294967296 = v" using assms(3) by simp
    with assms(3) show ?thesis by (simp add: int_at_def u)
  next
    case False
    then have "(v + 4294967296) mod 4294967296 = v + 4294967296" using assms(2) by (intro mod_pos_pos_trivial) simp_all
    then have "v mod 4294967296 = v + 4294967296" by simp
    with assms(2) show ?thesis by (simp add: int_at_def u)
  qed
qed

lemma nat_at_zero: "\<forall>k<n. img ! (off + k) = 0 \<Longrightarrow> nat_at img off n = 0"
  by (simp add: nat_at_def)

lemma int_at_zero: "\<forall>k<4. img ! (off + k) = 0 \<Longrightarrow> int_at img off = 0"
  by (simp add: int_at_def nat_at_zero)

lemma int_at_cong: "\<forall>k<4. img ! (off + k) = img' ! (off' + k) \<Longrightarrow> int_at img off = int_at img' off'"
  by (simp add: int_at_def nat_at_def)

lemma int_at_put:
  assumes "off + 4 \<le> length img" and "- 2147483648 \<le> v" and "v < 2147483648"
  shows "int_at (put_int off v img) off = v"
    and "off + 4 \<le> off' \<or> off' + 4 \<le> off \<Longrightarrow> int_at (put_int off v img) off' = int_at img off'"
proof -
  show "int_at (put_int off v img) off = v"
    by (rule int_at_bytes) (use assms in \<open>auto simp: put_int_nth\<close>)
  show "int_at (put_int off v img) off' = int_at img off'" if "off + 4 \<le> off' \<or> off' + 4 \<le> off"
    by (rule int_at_cong) (use assms that in \<open>auto simp: put_int_nth\<close>)
qed

lemma str_at_empty: "off < length img \<Longrightarrow> img ! off = 0 \<Longrightarrow> 0 < n \<Longrightarrow> str_at img off n = []"
  by (cases n) (simp_all add: str_at_def Cons_nth_drop_Suc [symmetric] char_of_def)

section \<open>The initialised segment holds the empty tables\<close>

text \<open>A row with its index and zeros behind it.\<close>

definition blank_row :: "bytes \<Rightarrow> nat \<Rightarrow> nat \<Rightarrow> nat \<Rightarrow> bool" where
  "blank_row img off row i \<longleftrightarrow> off + row \<le> length img
     \<and> (\<forall>k<4. img ! (off + k) = word_of_int (int i div 256 ^ k)) \<and> (\<forall>c. 4 \<le> c \<and> c < row \<longrightarrow> img ! (off + c) = 0)"

definition zero_from :: "nat \<Rightarrow> bytes \<Rightarrow> bool" where
  "zero_from off img \<longleftrightarrow> (\<forall>p. off \<le> p \<and> p < length img \<longrightarrow> img ! p = 0)"

lemma clear_key_zero: "zero_from (off + 4) img \<Longrightarrow> clear_key off img = img"
  by (rule nth_equalityI) (auto simp: clear_key_def zero_from_def nth_list_update, metis le_refl list_update_beyond not_le nth_list_update)

lemma clear_status_zero: "zero_from (off + 4) img \<Longrightarrow> off + 28 \<le> length img \<Longrightarrow> clear_status off img = img"
  by (rule nth_equalityI) (auto simp: clear_status_def put_int_nth zero_from_def)

lemma init_rows_blank:
  assumes "zero_from base img" and "base + row * n \<le> length img" and "28 \<le> row" and "n \<le> 2147483648"
    and "\<And>off x. zero_from (off + 4) x \<Longrightarrow> off + row \<le> length x \<Longrightarrow> clear off x = x"
  defines "x \<equiv> init_rows base row clear n img"
  shows "length x = length img \<and> (\<forall>p<base. x ! p = img ! p) \<and> zero_from (base + row * n) x
       \<and> (\<forall>i<n. blank_row x (base + row * i) row i)"
  using assms(2,4) unfolding x_def
proof (induction n)
  case 0
  then show ?case using assms(1) by (simp add: init_rows_def)
next
  case (Suc n)
  let ?x = "init_rows base row clear n img" and ?off = "base + row * n"
  let ?y = "put_int ?off (int n) ?x"
  have IH: "length ?x = length img" "\<forall>p<base. ?x ! p = img ! p" "zero_from ?off ?x"
    "\<forall>i<n. blank_row ?x (base + row * i) row i"
    using Suc by (simp_all add: algebra_simps)
  have room: "?off + row \<le> length ?x" using Suc.prems IH(1) by (simp add: algebra_simps)
  have nth: "?y ! p = (if ?off \<le> p \<and> p < ?off + 4 then word_of_int (int n div 256 ^ (p - ?off)) else ?x ! p)" for p
    using room assms(3) by (simp add: put_int_nth)
  have zero: "zero_from (?off + 4) ?y" using IH(3) by (simp add: zero_from_def nth)
  have step: "init_rows base row clear (Suc n) img = ?y"
    using assms(5) [OF zero] room by (simp add: init_rows_def)
  have "zero_from (base + row * Suc n) ?y" using zero assms(3) by (simp add: zero_from_def algebra_simps)
  moreover have "blank_row ?y (base + row * i) row i" if "i < Suc n" for i
  proof (cases "i = n")
    case True
    then show ?thesis using room IH(3) assms(3) by (auto simp: blank_row_def nth zero_from_def)
  next
    case False
    with that have "row * Suc i \<le> row * n" by (intro mult_le_mono2) simp
    then have "base + row * i + row \<le> ?off" by simp
    moreover have "blank_row ?x (base + row * i) row i" using IH(4) False that by simp
    ultimately show ?thesis using assms(3) by (auto simp: blank_row_def nth)
  qed
  ultimately show ?case using IH(1,2) unfolding step by (simp add: nth)
qed

lemma blank_row_reads:
  assumes "blank_row img off row i" and "i < 1000" and "4 \<le> row"
  shows "int_at img off = int i"
    and "4 \<le> c \<Longrightarrow> c + n \<le> row \<Longrightarrow> nat_at img (off + c) n = 0"
    and "4 \<le> c \<Longrightarrow> c + 4 \<le> row \<Longrightarrow> int_at img (off + c) = 0"
    and "4 \<le> c \<Longrightarrow> c < row \<Longrightarrow> 0 < n \<Longrightarrow> str_at img (off + c) n = []"
    and "4 \<le> c \<Longrightarrow> c < row \<Longrightarrow> img ! (off + c) = 0"
proof -
  have row: "off + row \<le> length img" "\<forall>k<4. img ! (off + k) = word_of_int (int i div 256 ^ k)"
    and zero: "4 \<le> c \<and> c < row \<Longrightarrow> img ! (off + c) = 0" for c
    using assms(1) by (simp_all add: blank_row_def)
  show "int_at img off = int i" by (rule int_at_bytes) (use row assms(2) in simp_all)
  show n: "nat_at img (off + c) n = 0" if "4 \<le> c" "c + n \<le> row" for c n
    by (rule nat_at_zero) (use zero [of "c + _"] that in \<open>simp add: add.assoc\<close>)
  show "int_at img (off + c) = 0" if "4 \<le> c" "c + 4 \<le> row" for c
    using n [OF that] by (simp add: int_at_def)
  show "str_at img (off + c) n = []" if "4 \<le> c" "c < row" "0 < n"
    by (rule str_at_empty) (use row(1) zero that in simp_all)
  show "4 \<le> c \<Longrightarrow> c < row \<Longrightarrow> img ! (off + c) = 0" using zero by simp
qed

lemma blank_rows_at:
  "blank_row img off SIZE_SYSTEM i \<Longrightarrow> i < 1000 \<Longrightarrow> sys_at img off = zero_sys\<lparr>sys_id := int i\<rparr>"
  "blank_row img off SIZE_DEV i \<Longrightarrow> i < 1000 \<Longrightarrow> dev_at img off = zero_dev\<lparr>dev_id := int i\<rparr>"
  "blank_row img off SIZE_PLUGHIST i \<Longrightarrow> i < 1000 \<Longrightarrow> ph_at img off = zero_ph\<lparr>ph_id := int i\<rparr>"
  "blank_row img off SIZE_ZCB i \<Longrightarrow> i < 1000 \<Longrightarrow> zcb_at img off = zero_zcb\<lparr>zcb_id := int i\<rparr>"
  by (simp_all add: sys_at_def dev_at_def ph_at_def zcb_at_def zero_sys_def zero_dev_def zero_ph_def zero_zcb_def
      blank_row_reads db_layout zcb_status_of_def)

lemma zero_from_mono: "zero_from a img \<Longrightarrow> a \<le> b \<Longrightarrow> zero_from b img"
  by (auto simp: zero_from_def)

lemma blank_row_below:
  "blank_row img off row i \<Longrightarrow> length x = length img \<Longrightarrow> \<forall>p<b. x ! p = img ! p \<Longrightarrow> off + row \<le> b \<Longrightarrow> 4 \<le> row \<Longrightarrow>
   blank_row x off row i"
  by (simp add: blank_row_def)

lemma newDbInit_fresh: "newdb_of (newDbInit db_wiped_bytes) = db_fresh"
proof -
  let ?a = "put_int 0 NEWDB_VERSION db_wiped_bytes"
  let ?b = "init_rows OFF_SYSTEM SIZE_SYSTEM clear_key NEWDB_MAX_SYSTEM ?a"
  let ?c = "init_rows OFF_DEVICES SIZE_DEV clear_key NEWDB_MAX_DEVICES ?b"
  let ?d = "init_rows OFF_PLUGHIST SIZE_PLUGHIST clear_key NEWDB_MAX_PLUGHIST ?c"
  let ?e = "init_rows OFF_ZCB SIZE_ZCB clear_status NEWDB_MAX_ZCB ?d"
  have key: "zero_from (off + 4) x \<Longrightarrow> off + row \<le> length x \<Longrightarrow> clear_key off x = x" for off row x
    by (rule clear_key_zero)
  have a: "length ?a = 19832" "zero_from 72 ?a" "\<forall>p. 4 \<le> p \<and> p < 72 \<longrightarrow> ?a ! p = 0" "int_at ?a 0 = 1"
    by (auto simp: db_wiped_bytes_def DB_SIZE_def zero_from_def put_int_nth NEWDB_VERSION_def int_at_put)
  have b: "length ?b = 19832" "\<forall>p<72. ?b ! p = ?a ! p" "zero_from 1272 ?b"
    "\<forall>i<20. blank_row ?b (72 + 60 * i) 60 i"
    using init_rows_blank [of 72 ?a 60 20 clear_key, OF a(2) _ _ _ key] a(1) by (simp_all add: db_layout)
  have c: "length ?c = 19832" "\<forall>p<1272. ?c ! p = ?b ! p" "zero_from 4472 ?c"
    "\<forall>i<20. blank_row ?c (1272 + 160 * i) 160 i"
    using init_rows_blank [of 1272 ?b 160 20 clear_key, OF b(3) _ _ _ key] b(1) by (simp_all add: db_layout)
  have d: "length ?d = 19832" "\<forall>p<4472. ?d ! p = ?c ! p" "zero_from 17272 ?d"
    "\<forall>i<400. blank_row ?d (4472 + 32 * i) 32 i"
    using init_rows_blank [of 4472 ?c 32 400 clear_key, OF c(3) _ _ _ key] c(1) by (simp_all add: db_layout)
  have e: "length ?e = 19832" "\<forall>p<17272. ?e ! p = ?d ! p"
    "\<forall>i<40. blank_row ?e (17272 + 64 * i) 64 i"
    using init_rows_blank [of 17272 ?d 64 40 clear_status, OF d(3) _ _ _ clear_status_zero] d(1)
    by (simp_all add: db_layout)
  have below: "\<forall>p<4472. ?e ! p = ?c ! p" "\<forall>p<1272. ?e ! p = ?b ! p" "\<forall>p<72. ?e ! p = ?a ! p"
    using b(2) c(2) d(2) e(2) by simp_all
  have rows: "i < 20 \<Longrightarrow> blank_row ?e (72 + 60 * i) 60 i" "i < 20 \<Longrightarrow> blank_row ?e (1272 + 160 * i) 160 i"
    "i < 400 \<Longrightarrow> blank_row ?e (4472 + 32 * i) 32 i" for i
    using blank_row_below [of ?b "72 + 60 * i" 60 i ?e 1272] blank_row_below [of ?c "1272 + 160 * i" 160 i ?e 4472]
      blank_row_below [of ?d "4472 + 32 * i" 32 i ?e 17272] b c d e below by simp_all
  have head: "int_at ?e 0 = 1"
    using int_at_cong [of ?e 0 ?a 0] below(3) a(4) by simp
  have zeros: "4 \<le> off \<Longrightarrow> off + 4 \<le> 72 \<Longrightarrow> int_at ?e off = 0" for off
    by (rule int_at_zero) (use below(3) a(3) in simp)
  have init: "newDbInit db_wiped_bytes = ?e" by (simp add: newDbInit_def)
  have tables: "map (\<lambda>i. sys_at ?e (72 + 60 * i)) [0..<20] = map (\<lambda>i. zero_sys\<lparr>sys_id := int i\<rparr>) [0..<20]"
    "map (\<lambda>i. dev_at ?e (1272 + 160 * i)) [0..<20] = map (\<lambda>i. zero_dev\<lparr>dev_id := int i\<rparr>) [0..<20]"
    "map (\<lambda>i. ph_at ?e (4472 + 32 * i)) [0..<400] = map (\<lambda>i. zero_ph\<lparr>ph_id := int i\<rparr>) [0..<400]"
    "map (\<lambda>i. zcb_at ?e (17272 + 64 * i)) [0..<40] = map (\<lambda>i. zero_zcb\<lparr>zcb_id := int i\<rparr>) [0..<40]"
    using rows e(3) by (auto intro!: map_cong blank_rows_at simp: SIZE_SYSTEM_def SIZE_DEV_def SIZE_PLUGHIST_def SIZE_ZCB_def)
  show ?thesis
    unfolding init newdb_of_def db_fresh_def db_wiped_def
    by (simp add: head zeros del: upt_Suc)
      (use tables in \<open>simp add: db_layout zero_sys_def zero_dev_def zero_ph_def zero_zcb_def NEWDB_VERSION_def\<close>)
qed

section \<open>The loops\<close>

lemma write_loop_full: "None \<notin> set script \<Longrightarrow> write_loop script buf f = (f @ buf, 0)"
  by (induction script buf f rule: write_loop.induct) auto

lemma write_loop_cut:
  "sum_list ks < length buf \<Longrightarrow>
   write_loop (map Some ks @ None # rest) buf f = (f @ take (sum_list ks) buf, length buf - sum_list ks)"
proof (induction ks arbitrary: buf f)
  case Nil
  then show ?case by (cases buf) simp_all
next
  case (Cons k ks)
  then have "sum_list ks < length (drop k buf)" by simp
  from Cons.IH [OF this] Cons.prems show ?case
    by (cases buf) (simp_all add: take_add)
qed

lemma take_length_take: "take (length (take n xs)) xs = take n xs"
  by (simp add: min_def)

lemma take_chunk:
  "g = take (length g) xs \<Longrightarrow> length g \<le> n \<Longrightarrow> g @ take (n - length g) (drop (length g) xs) = take n xs"
  by (metis le_add_diff_inverse take_add)

lemma read_loop_full:
  "None \<notin> set script \<Longrightarrow> Some 0 \<notin> set script \<Longrightarrow>
   read_loop script n rest buf = (buf @ take n rest, n - length rest)"
proof (induction script n rest buf rule: read_loop.induct)
  case (5 k script n r rest buf)
  let ?got = "take k (take (Suc n) (r # rest))"
  have k: "k \<noteq> 0" and IH: "read_loop script (Suc n - length ?got) (drop (length ?got) (r # rest)) (buf @ ?got)
      = ((buf @ ?got) @ take (Suc n - length ?got) (drop (length ?got) (r # rest)),
         Suc n - length ?got - length (drop (length ?got) (r # rest)))"
    using 5 by auto
  have got: "?got = take (length ?got) (r # rest)" "length ?got \<le> Suc n" "length ?got \<le> length (r # rest)"
    by (simp_all only: take_take take_length_take) simp_all
  then have "?got @ take (Suc n - length ?got) (drop (length ?got) (r # rest)) = take (Suc n) (r # rest)"
    by (intro take_chunk)
  moreover have "Suc n - length ?got - length (drop (length ?got) (r # rest)) = Suc n - length (r # rest)"
    using got(3) by simp
  moreover have "read_loop (Some k # script) (Suc n) (r # rest) buf
      = read_loop script (Suc n - length ?got) (drop (length ?got) (r # rest)) (buf @ ?got)"
    using k by (simp add: Let_def)
  ultimately show ?case by (simp only: IH append.assoc)
qed auto

text \<open>Whatever the reads return, a short file is never taken for a whole one.\<close>

lemma read_loop_short:
  "snd (read_loop script n rest buf) = 0 \<Longrightarrow> n \<le> length rest"
proof (induction script n rest buf rule: read_loop.induct)
  case (5 k script n r rest buf)
  let ?got = "take k (take (Suc n) (r # rest))"
  have "k \<noteq> 0" using "5.prems" by (cases "k = 0") simp_all
  then have "read_loop (Some k # script) (Suc n) (r # rest) buf
      = read_loop script (Suc n - length ?got) (drop (length ?got) (r # rest)) (buf @ ?got)"
    by (simp add: Let_def)
  with 5 \<open>k \<noteq> 0\<close> have "Suc n - length ?got \<le> length (drop (length ?got) (r # rest))" by metis
  moreover have "length ?got \<le> length (r # rest)" by (auto simp: min_def)
  ultimately show ?case by simp
qed auto

lemma restore_table_full:
  assumes "None \<notin> set (os_reads os)" and "Some 0 \<notin> set (os_reads os)" and "0 < n" and "length data = n"
  shows "newDbRestoreTable os n \<lparr>file_main = Some data, file_backup = b\<rparr> = Some data"
    and "newDbRestoreTable os n \<lparr>file_main = None, file_backup = Some data\<rparr> = Some data"
  using assms by (simp_all add: newDbRestoreTable_def read_loop_full)

lemma restore_table_short:
  assumes "length data < n"
  shows "newDbRestoreTable os n \<lparr>file_main = Some data, file_backup = b\<rparr> = None"
proof -
  obtain x k where r: "read_loop (os_reads os) n data [] = (x, k)" by (cases "read_loop (os_reads os) n data []")
  with read_loop_short [of "os_reads os" n data "[]"] assms have "k \<noteq> 0" by auto
  with r show ?thesis by (simp add: newDbRestoreTable_def)
qed

section \<open>Properties\<close>

text \<open>
  C39: What is saved is what a restart restores.  However few bytes the single \<open>write\<close> and
  \<open>read\<close> calls take, a save in which every call succeeds leaves exactly the bytes of the segment in the
  file, and a newly created segment is opened with them (if they have this program's
  version), so with the same tables; a save that cannot create the new file leaves the
  previous one as the backup, which the next open restores.  But when a write fails
  before the end, the next open finds the short file, does not turn to the intact backup
  beside it, and starts with empty tables.
\<close>

theorem save_restore:
  assumes "length img = DB_SIZE" and "int_at img 0 = NEWDB_VERSION" and "stamps_of img \<noteq> st"
    and "malloc_ok os" and "remove_ok os" and "rename_ok os" and "open_ok os"
    and "malloc_ok os2" and "None \<notin> set (os_reads os2)" and "Some 0 \<notin> set (os_reads os2)"
  shows "case newDbSave os (Some img) st fs of (_, st', fs') \<Rightarrow>
     (create_ok os \<and> None \<notin> set (os_writes os) \<longrightarrow>
        st' = stamps_of img \<and> file_main fs' = Some img \<and> newDbOpen True True os2 None fs' = (True, Some img))
   \<and> (\<not> create_ok os \<and> file_main fs = Some old \<and> length old = DB_SIZE \<and> int_at old 0 = NEWDB_VERSION \<longrightarrow>
        st' = st \<and> file_main fs' = None \<and> newDbOpen True True os2 None fs' = (True, Some old))
   \<and> (create_ok os \<and> os_writes os = map Some ks @ None # ws \<and> sum_list ks < DB_SIZE \<and> file_main fs = Some old \<longrightarrow>
        st' = st \<and> file_main fs' = Some (take (sum_list ks) img) \<and> file_backup fs' = Some old
        \<and> (\<exists>new. newDbOpen True True os2 None fs' = (True, Some new) \<and> newdb_of new = db_fresh))"
proof -
  obtain m b where fs: "fs = \<lparr>file_main = m, file_backup = b\<rparr>" by (cases fs)
  let ?b = "case m of None \<Rightarrow> b | Some f \<Rightarrow> Some f"
  have size: "0 < DB_SIZE" "img \<noteq> []" using assms(1) by (auto simp: DB_SIZE_def)
  have save: "newDbSave os (Some img) st fs =
     (if create_ok os
      then (case write_loop (os_writes os) img [] of (f, k) \<Rightarrow>
        (0, if k = 0 then stamps_of img else st, \<lparr>file_main = Some f, file_backup = ?b\<rparr>))
      else (0, st, \<lparr>file_main = None, file_backup = ?b\<rparr>))"
    using assms(3-7) size(2)
    by (cases m) (auto simp: newDbSave_def newDbSaveTable_def fs Let_def split: prod.splits)
  have full: "newDbOpen True True os2 None \<lparr>file_main = Some data, file_backup = b'\<rparr> = (True, Some data)"
    "newDbOpen True True os2 None \<lparr>file_main = None, file_backup = Some data\<rparr> = (True, Some data)"
    if "length data = DB_SIZE" "int_at data 0 = NEWDB_VERSION" for data b'
    using restore_table_full [OF assms(9,10) size(1) that(1)] that(2) assms(8)
    by (simp_all add: newDbOpen_def newDbRestore_def)
  have short: "newDbOpen True True os2 None \<lparr>file_main = Some data, file_backup = b'\<rparr> = (True, Some (newDbInit db_wiped_bytes))"
    if "length data < DB_SIZE" for data b'
    using restore_table_short [OF that, of os2 b'] by (simp add: newDbOpen_def newDbRestore_def)
  consider "create_ok os" "None \<notin> set (os_writes os)" | "\<not> create_ok os"
    | "create_ok os" "None \<in> set (os_writes os)" by blast
  then show ?thesis
  proof cases
    case 1
    then show ?thesis unfolding save using full(1) [OF assms(1,2), of ?b] write_loop_full [of "os_writes os" img "[]"]
      by (auto simp: fs)
  next
    case 2
    then show ?thesis unfolding save using full(2) [of old] by (auto simp: fs)
  next
    case 3
    have "sum_list ks < DB_SIZE \<Longrightarrow> length (take (sum_list ks) img) < DB_SIZE" using assms(1) by simp
    then show ?thesis
      unfolding save
      using 3 write_loop_cut [of ks img ws "[]"] short [of "take (sum_list ks) img"] newDbInit_fresh assms(1)
      by (auto simp: fs)
  qed
qed

definition demo_image :: bytes where
  "demo_image = put_int 8 5 (put_int 0 NEWDB_VERSION db_wiped_bytes)"

definition demo_os :: db_os where
  "demo_os = \<lparr>remove_ok = True, rename_ok = True, create_ok = True, open_ok = True, malloc_ok = True,
     os_writes = [Some 100, Some 0, Some 7000], os_reads = [Some 1, Some 4096]\<rparr>"

lemma demo_os_facts: "remove_ok demo_os" "rename_ok demo_os" "create_ok demo_os" "open_ok demo_os" "malloc_ok demo_os"
  "None \<notin> set (os_writes demo_os)" "None \<notin> set (os_reads demo_os)" "Some 0 \<notin> set (os_reads demo_os)"
  by (simp_all add: demo_os_def)

lemma demo_image_facts: "length demo_image = DB_SIZE" "int_at demo_image 0 = NEWDB_VERSION" "int_at demo_image 8 = 5"
  by (simp_all add: demo_image_def db_wiped_bytes_def int_at_put NEWDB_VERSION_def DB_SIZE_def)

theorem save_restore_witness:
  "newDbOpen True True demo_os None (snd (snd (newDbSave demo_os (Some demo_image)
      (stamps_of (newDbInit db_wiped_bytes)) \<lparr>file_main = Some [1, 2, 3], file_backup = None\<rparr>)))
   = (True, Some demo_image)"
proof -
  have "db_lastupdate_sys (newdb_of (newDbInit db_wiped_bytes)) = 0" by (simp add: newDbInit_fresh db_fresh_def db_wiped_def)
  then have "stamps_of demo_image \<noteq> stamps_of (newDbInit db_wiped_bytes)"
    by (simp add: stamps_of_def demo_image_facts newdb_of_def)
  with save_restore [of demo_image "stamps_of (newDbInit db_wiped_bytes)" demo_os demo_os
        "\<lparr>file_main = Some [1, 2, 3], file_backup = None\<rparr>"]
  show ?thesis by (simp add: demo_image_facts demo_os_facts split_beta)
qed

end
