(* ===== verification/ControlState.thy ===== *)
theory ControlState
  imports Parsing JsonCreate SystemTable PlugUsage MsgQueue
begin

text \<open>
  What the handlers of the control interface daemon share (\<open>daemons/ControlInterface\<close>).  The
  state is everything a handler touches: the attribute tables, the database, the message
  queues with the global error number, the bytes sent to the client, the requests made to
  the operating system, the static variables of the topology handler, and the outcomes of
  the polls of the control queue that are still to come.  A result \<open>None\<close> is undefined
  behaviour in C: a null string printed or copied, or a write past a local buffer (or that
  the outcomes of the polls do not reach to the end of an upload).  \<open>now\<close> is the time of
  the operations of one message.  Log and debug output is left out.
\<close>

section \<open>Constants\<close>

definition IOT_ERROR_NO_MAC :: c_int where "IOT_ERROR_NO_MAC = 11"
definition IOT_ERROR_NON_EXISTING_MAC :: c_int where "IOT_ERROR_NON_EXISTING_MAC = 12"
definition IOT_ERROR_ALREADY_EXISTING_MAC :: c_int where "IOT_ERROR_ALREADY_EXISTING_MAC = 14"
definition IOT_ERROR_DEVICE_HAS_NO_GET :: c_int where "IOT_ERROR_DEVICE_HAS_NO_GET = 20"
definition IOT_ERROR_DEVICE_MISSING :: c_int where "IOT_ERROR_DEVICE_MISSING = 22"
definition IOT_ERROR_TOPO_ILLEGAL_CMD :: c_int where "IOT_ERROR_TOPO_ILLEGAL_CMD = 30"
definition IOT_ERROR_TOPO_MISSING_NAME :: c_int where "IOT_ERROR_TOPO_MISSING_NAME = 31"
definition IOT_ERROR_TOPO_TIMEOUT :: c_int where "IOT_ERROR_TOPO_TIMEOUT = 32"
definition IOT_ERROR_TOPO_NOT_ACCEPTED :: c_int where "IOT_ERROR_TOPO_NOT_ACCEPTED = 33"
definition IOT_ERROR_TOPO_OVERRUN :: c_int where "IOT_ERROR_TOPO_OVERRUN = 34"

definition DEVICE_DEV_UI :: c_int where "DEVICE_DEV_UI = 2"
definition DEVICE_DEV_SENSOR :: c_int where "DEVICE_DEV_SENSOR = 3"
definition DEVICE_DEV_UISENSOR :: c_int where "DEVICE_DEV_UISENSOR = 4"
definition DEVICE_DEV_SWITCH :: c_int where "DEVICE_DEV_SWITCH = 8"

definition FLAG_DEV_JOINED :: int where "FLAG_DEV_JOINED = 0x01"
definition FLAG_UI_IGNORENEXT_HEAT :: int where "FLAG_UI_IGNORENEXT_HEAT = 0x02"
definition FLAG_LASTKELVIN :: int where "FLAG_LASTKELVIN = 0x04"
definition FLAG_ADDED_BY_GW :: int where "FLAG_ADDED_BY_GW = 0x08"
definition FLAG_UI_IGNORENEXT_COOL :: int where "FLAG_UI_IGNORENEXT_COOL = 0x20"

definition MAXRESPONSE :: nat where "MAXRESPONSE = 6000"

lemmas ci_codes = IOT_ERROR_NO_MAC_def IOT_ERROR_NON_EXISTING_MAC_def IOT_ERROR_ALREADY_EXISTING_MAC_def
  IOT_ERROR_DEVICE_HAS_NO_GET_def IOT_ERROR_DEVICE_MISSING_def IOT_ERROR_NONE_def
  IOT_ERROR_TOPO_ILLEGAL_CMD_def IOT_ERROR_TOPO_MISSING_NAME_def IOT_ERROR_TOPO_TIMEOUT_def
  IOT_ERROR_TOPO_NOT_ACCEPTED_def IOT_ERROR_TOPO_OVERRUN_def

lemmas dev_kinds = DEVICE_DEV_UNKNOWN_def DEVICE_DEV_MANAGER_def DEVICE_DEV_UI_def DEVICE_DEV_SENSOR_def
  DEVICE_DEV_UISENSOR_def DEVICE_DEV_PUMP_def DEVICE_DEV_LAMP_def DEVICE_DEV_PLUG_def DEVICE_DEV_SWITCH_def

section \<open>State and environment\<close>

datatype os_request =
    OS_Sleep nat | OS_FileLock | OS_Save | OS_Shutdown | OS_Reboot | OS_NetworkRestart
  | OS_InitD string string | OS_SetHostname string | OS_EditConfig string string string string

text \<open>A row of the device list of the topology generator, and its other static variables.\<close>

record topo_dev =
  td_id :: c_int
  td_dev :: c_int
  td_par :: c_int
  td_sid :: c_int
  td_mac :: string
  td_nm :: string
  td_ty :: string

record topo_vars =
  currentManager :: c_int
  currentUI :: c_int
  currentSensor :: c_int
  topodevs :: "topo_dev list"

definition topo_start :: topo_vars where
  "topo_start = \<lparr>currentManager = 0, currentUI = 0, currentSensor = 0, topodevs = []\<rparr>"

record ci_state =
  ci_attrs :: parsing
  ci_db :: "newdb option"
  ci_ipc :: ipc
  ci_sent :: string
  ci_os :: "os_request list"
  ci_topo :: topo_vars
  ci_polls :: "string option list list"

text \<open>
  The message queues; the two colour conversions of \<open>colorConv.c\<close> (floating-point
  computations) that the message writers use; and, for the seconds that an upload waits for
  its lock, the time at each try and what the other processes do to the database meanwhile.
\<close>

record ci_env =
  ci_mq :: mq_env
  rgb2xy :: "c_int \<Rightarrow> c_int \<times> c_int"
  kelvin2xy :: "c_int \<Rightarrow> c_int \<times> c_int"
  lock_time :: "c_int \<Rightarrow> nat \<Rightarrow> c_int"
  lock_others :: "c_int \<Rightarrow> nat \<Rightarrow> newdb option \<Rightarrow> newdb option"

abbreviation iotError :: "ci_state \<Rightarrow> c_int" where
  "iotError s \<equiv> q_error (ci_ipc s)"

definition set_iotError :: "c_int \<Rightarrow> ci_state \<Rightarrow> ci_state" where
  "set_iotError e s = s\<lparr>ci_ipc := (ci_ipc s)\<lparr>q_error := e\<rparr>\<rparr>"

definition set_db :: "newdb option \<Rightarrow> ci_state \<Rightarrow> ci_state" where
  "set_db db s = s\<lparr>ci_db := db\<rparr>"

abbreviation attr0 :: "ci_state \<Rightarrow> string \<Rightarrow> string option" where
  "attr0 s name \<equiv> parsingGetStringAttr0 (ci_attrs s) name"

abbreviation attri :: "ci_state \<Rightarrow> string \<Rightarrow> c_int" where
  "attri s name \<equiv> parsingGetIntAttr (ci_attrs s) name"

text \<open>\<open>strtoupper\<close> works in place, on the attribute it was given.\<close>

definition upcase_attr :: "string \<Rightarrow> ci_state \<Rightarrow> ci_state" where
  "upcase_attr name s = s\<lparr>ci_attrs := (ci_attrs s)\<lparr>parsingStringAttrs :=
     map (\<lambda>a. if sa_name a = name then a\<lparr>sa_value := strtoupper (sa_value a)\<rparr> else a)
       (parsingStringAttrs (ci_attrs s))\<rparr>\<rparr>"

text \<open>Writing a constructed message to a queue; its result is not used.\<close>

definition post :: "ci_env \<Rightarrow> queueKey \<Rightarrow> string option \<Rightarrow> ci_state \<Rightarrow> ci_state option" where
  "post env key message s = (case message of
     None \<Rightarrow> None
   | Some m \<Rightarrow> Some (s\<lparr>ci_ipc := snd (queueWriteOneMessage (ci_mq env) key m (ci_ipc s))\<rparr>))"

abbreviation named :: "string \<Rightarrow> newdb_dev_t \<Rightarrow> newdb_dev_t" where
  "named nm d \<equiv> d\<lparr>dev_nm := newDbStrNcpy nm LEN_NM\<rparr>"

lemmas ci_setters = set_iotError_def set_db_def upcase_attr_def

text \<open>An environment where everything succeeds, and a gateway that has just started.\<close>

definition example_env :: ci_env where
  "example_env = \<lparr>ci_mq = \<lparr>env_get = \<lambda>_. GET_OK, env_snd = \<lambda>_. True\<rparr>, rgb2xy = \<lambda>_. (0, 0), kelvin2xy = \<lambda>_. (0, 0),
     lock_time = \<lambda>now w. now, lock_others = \<lambda>now w m. m\<rparr>"

definition example_state :: ci_state where
  "example_state = \<lparr>ci_attrs = parsing_init, ci_db = Some db_fresh, ci_ipc = \<lparr>q_msgs = \<lambda>_. [], q_error = 0\<rparr>, ci_sent = [],
     ci_os = [], ci_topo = topo_start, ci_polls = []\<rparr>"

end
