(* ===== verification/ControlTopo.thy ===== *)
theory ControlTopo
  imports ControlState "HOL-Library.Monad_Syntax"
begin

text \<open>
  The topology messages of the control interface daemon: building up a configuration in the
  device table (\<open>topo.c\<close>), the messages that describe it (\<open>topoGen.c\<close>), and their upload to
  the managers, one acknowledged line at a time, under a lock kept in the system table.
\<close>

section \<open>The messages of a topology\<close>

definition WAIT_NONE :: c_int where "WAIT_NONE = 0"
definition WAIT_NORMAL :: c_int where "WAIT_NORMAL = 500"
definition WAIT_LONG :: c_int where "WAIT_LONG = 2500"
definition MAX_TOPOSTRINGS :: nat where "MAX_TOPOSTRINGS = 60"
definition MAX_JSONLENGTH :: nat where "MAX_JSONLENGTH = 100"
definition MAXTOPODEVS :: nat where "MAXTOPODEVS = 50"

text \<open>The three arrays the generator fills, with the current manager and the error number.\<close>

record topo_line =
  tl_string :: string
  tl_wait :: c_int
  tl_man :: c_int

record topo_gen =
  tg_lines :: "topo_line list"
  tg_man :: c_int
  tg_error :: c_int

definition addString :: "string option \<Rightarrow> c_int \<Rightarrow> topo_gen \<Rightarrow> topo_gen option" where
  "addString message ackWait g = (case message of
     None \<Rightarrow> None
   | Some m \<Rightarrow> Some (
       if length (tg_lines g) \<ge> MAX_TOPOSTRINGS \<or> length m > MAX_JSONLENGTH then g\<lparr>tg_error := IOT_ERROR_TOPO_OVERRUN\<rparr>
       else g\<lparr>tg_lines := tg_lines g @ [\<lparr>tl_string = m, tl_wait = ackWait, tl_man = tg_man g\<rparr>]\<rparr>))"

definition getTopoDevsCb :: "newdb_dev_t \<Rightarrow> topo_dev list \<Rightarrow> bool \<times> topo_dev list" where
  "getTopoDevsCb d devs =
     (if length devs < MAXTOPODEVS then
        (True, devs @ [\<lparr>td_id = dev_id d, td_dev = dev_dev d, td_par = dev_par d, td_sid = dev_sid d,
                       td_mac = dev_mac d, td_nm = dev_nm d, td_ty = dev_ty d\<rparr>])
      else (False, devs))"

fun for_each :: "('a \<Rightarrow> 's \<Rightarrow> 's option) \<Rightarrow> 'a list \<Rightarrow> 's \<Rightarrow> 's option" where
  "for_each f [] s = Some s"
| "for_each f (x # xs) s = do { t \<leftarrow> f x s; for_each f xs t }"

definition topoLoopPump :: "topo_dev list \<Rightarrow> c_int \<Rightarrow> topo_gen \<Rightarrow> topo_gen option" where
  "topoLoopPump devs par = for_each (\<lambda>d g.
     if td_dev d = DEVICE_DEV_PUMP \<and> td_par d = par
     then addString (jsonTopoAddPump (td_mac d) (Some (td_nm d)) (td_sid d)) WAIT_NORMAL g else Some g) devs"

definition topoLoopSensor :: "topo_dev list \<Rightarrow> c_int \<Rightarrow> topo_gen \<Rightarrow> topo_gen option" where
  "topoLoopSensor devs par = for_each (\<lambda>d g.
     if td_dev d = DEVICE_DEV_SENSOR \<and> td_par d = par
     then do { g1 \<leftarrow> addString (jsonTopoAddSensor (td_mac d) (Some (td_nm d))) WAIT_NORMAL g; topoLoopPump devs (td_id d) g1 }
     else Some g) devs"

definition topoLoopUiSensor :: "topo_dev list \<Rightarrow> c_int \<Rightarrow> topo_gen \<Rightarrow> topo_gen option" where
  "topoLoopUiSensor devs par = for_each (\<lambda>d g.
     if td_dev d = DEVICE_DEV_UISENSOR \<and> td_par d = par
     then do {
       g1 \<leftarrow> addString (jsonTopoAddUI (td_mac d) (Some (td_nm d))) WAIT_NORMAL g;
       g2 \<leftarrow> addString (jsonTopoAddSensor (td_mac d) (Some (td_nm d))) WAIT_NORMAL g1;
       g3 \<leftarrow> topoLoopSensor devs (td_id d) g2;
       topoLoopPump devs (td_id d) g3 }
     else Some g) devs"

definition topoLoopUi :: "topo_dev list \<Rightarrow> c_int \<Rightarrow> topo_gen \<Rightarrow> topo_gen option" where
  "topoLoopUi devs par = for_each (\<lambda>d g.
     if td_dev d = DEVICE_DEV_UI \<and> td_par d = par
     then do { g1 \<leftarrow> addString (jsonTopoAddUI (td_mac d) (Some (td_nm d))) WAIT_NORMAL g; topoLoopSensor devs (td_id d) g1 }
     else Some g) devs"

definition topoLoopMan :: "topo_dev list \<Rightarrow> topo_gen \<Rightarrow> topo_gen option" where
  "topoLoopMan devs = for_each (\<lambda>d g.
     if td_dev d = DEVICE_DEV_MANAGER
     then do {
       g1 \<leftarrow> addString (jsonTunnelOpen (td_mac d)) WAIT_NONE (g\<lparr>tg_man := td_id d\<rparr>);
       g2 \<leftarrow> addString jsonTopoClear WAIT_LONG g1;
       g3 \<leftarrow> topoLoopUiSensor devs (td_id d) g2;
       topoLoopUi devs (td_id d) g3 }
     else Some g) devs"

text \<open>The device list is what was collected before; the generator does not collect it itself.\<close>

definition topoGenerate :: "topo_dev list \<Rightarrow> c_int \<Rightarrow> topo_gen option" where
  "topoGenerate devs error = do {
     g \<leftarrow> topoLoopMan devs \<lparr>tg_lines = [], tg_man = 0,
            tg_error = (if error = IOT_ERROR_TOPO_OVERRUN then IOT_ERROR_NONE else error)\<rparr>;
     if tg_lines g \<noteq> []
     then do { g1 \<leftarrow> addString jsonTopoEnd WAIT_NORMAL g; addString jsonTunnelClose WAIT_NONE g1 }
     else Some g }"

section \<open>The lock of an upload\<close>

text \<open>
  One try, and the loop over at most ten of them; \<open>w\<close> counts the tries that are left, and
  the process sleeps between two.
\<close>

definition lock_put :: "c_int \<Rightarrow> newdb_system_t option \<Rightarrow> newdb option \<Rightarrow> bool \<times> newdb option" where
  "lock_put now row m = (case row of
     Some sys \<Rightarrow>
       if sys_intval sys = 0 \<or> now - sys_lastupdate sys > 60 then newDbSetSystem now (sys\<lparr>sys_intval := 1\<rparr>) m
       else (False, m)
   | None \<Rightarrow> newDbSystemSaveIntval now ''topobusy'' 1 m)"

text \<open>
  A try looks the row up and goes on with what it has read.  These are separate operations on
  the database, so other processes can change it in between; \<open>lock_try\<close> is a try that nobody
  interrupts.
\<close>

definition lock_try :: "c_int \<Rightarrow> newdb option \<Rightarrow> bool \<times> newdb option" where
  "lock_try now m = lock_put now (newDbGetSystem ''topobusy'' m) m"

fun lock_loop :: "(nat \<Rightarrow> c_int) \<Rightarrow> (nat \<Rightarrow> newdb option \<Rightarrow> newdb option) \<Rightarrow> nat \<Rightarrow> newdb option \<Rightarrow> bool \<times> newdb option" where
  "lock_loop time others 0 m = (False, m)"
| "lock_loop time others (Suc w) m = (case lock_try (time w) m of
     (True, m') \<Rightarrow> (True, m')
   | (False, m') \<Rightarrow> lock_loop time others w (if w > 0 then others w m' else m'))"

definition lockTopoUpload :: "(nat \<Rightarrow> c_int) \<Rightarrow> (nat \<Rightarrow> newdb option \<Rightarrow> newdb option) \<Rightarrow> newdb option \<Rightarrow> bool \<times> newdb option" where
  "lockTopoUpload time others = lock_loop time others 10"

definition unlockTopoUpload :: "c_int \<Rightarrow> newdb option \<Rightarrow> newdb option" where
  "unlockTopoUpload now m = snd (newDbSystemSaveIntval now ''topobusy'' 0 m)"

section \<open>The upload\<close>

definition MAX_RETRIES :: nat where "MAX_RETRIES = 3"

text \<open>The call-backs for the answers of a manager: \<open>topoOk\<close> and \<open>errcode\<close>.\<close>

fun tr_callback :: "json_event \<Rightarrow> bool \<times> c_int \<Rightarrow> bool \<times> c_int" where
  "tr_callback (EvObjectStart name) (ok, e) = (ok, INT_MAX)"
| "tr_callback (EvObjectComplete name) (ok, e) = (if name = ''tprsp'' then (e = 0, e) else (ok, e))"
| "tr_callback (EvInteger name val) (ok, e) = (if name = ''errcode'' then (ok, val) else (ok, e))"
| "tr_callback _ r = r"

record upload =
  up_ipc :: ipc
  up_db :: "newdb option"
  up_polls :: "string option list list"
  up_parser :: parser_data
  up_error :: c_int

text \<open>Reading with a time limit, from the outcomes of the polls to come.\<close>

definition timed_read :: "c_int \<Rightarrow> string option list list \<Rightarrow> (string option \<times> string option list list) option" where
  "timed_read msec polls = (case polls of
     [] \<Rightarrow> None
   | outs # rest \<Rightarrow> (case queueReadWithMsecTimeout MAXMESSAGESIZE msec outs of
         None \<Rightarrow> None
       | Some (len, buf) \<Rightarrow> Some (if len > 0 then buf else None, rest)))"

function flush_queue :: "string option list list \<Rightarrow> string option list list option" where
  "flush_queue polls = (case timed_read 100 polls of
     None \<Rightarrow> None
   | Some (None, rest) \<Rightarrow> Some rest
   | Some (Some m, rest) \<Rightarrow> flush_queue rest)"
  by pat_completeness auto
termination
  by (relation "measure length") (auto simp: timed_read_def split: list.splits option.splits if_splits)

declare flush_queue.simps [simp del]

text \<open>Eating an answer: the events of its characters, in order.\<close>

definition eat_answer :: "string \<Rightarrow> bool \<times> c_int \<Rightarrow> parser_data \<Rightarrow> (bool \<times> c_int) \<times> parser_data" where
  "eat_answer m r p = (let q = jsonEats m (p\<lparr>p_trace := []\<rparr>) in (fold tr_callback (p_trace q) r, q))"

text \<open>The tries of one line; \<open>r\<close> is the value of \<open>topoOk\<close> and \<open>errcode\<close>.\<close>

fun send_line :: "mq_env \<Rightarrow> topo_line \<Rightarrow> nat \<Rightarrow> (bool \<times> c_int) \<times> upload \<Rightarrow> ((bool \<times> c_int) \<times> upload) option" where
  "send_line env t 0 ru = Some ru"
| "send_line env t (Suc retries) (r, u) =
     (case timed_read (tl_wait t) (up_polls u) of
        None \<Rightarrow> None
      | Some (answer, rest) \<Rightarrow>
          (let u1 = u\<lparr>up_ipc := snd (queueWrite env QUEUE_KEY_ZCB_IN (tl_string t) (up_ipc u)), up_polls := rest,
                      up_error := (if answer = None then IOT_ERROR_TOPO_TIMEOUT else IOT_ERROR_NONE)\<rparr>;
               (r', q) = (case answer of None \<Rightarrow> (r, up_parser u) | Some m \<Rightarrow> eat_answer m r (up_parser u));
               u' = u1\<lparr>up_parser := q\<rparr>
           in if snd r' = INT_MAX then send_line env t retries (r', u') else Some (r', u')))"

definition topo_joined :: "c_int \<Rightarrow> c_int \<Rightarrow> newdb option \<Rightarrow> newdb option" where
  "topo_joined now i m = (case newDbGetDeviceId i m of
     None \<Rightarrow> m
   | Some d \<Rightarrow> if dev_flags d AND FLAG_DEV_JOINED = 0
               then snd (newDbSetDevice now (d\<lparr>dev_flags := dev_flags d OR FLAG_DEV_JOINED\<rparr>) m) else m)"

definition upload_line :: "mq_env \<Rightarrow> c_int \<Rightarrow> topo_line \<Rightarrow> upload \<Rightarrow> upload option" where
  "upload_line env now t u =
     (if up_error u \<noteq> IOT_ERROR_NONE then Some u
      else if tl_wait t \<noteq> 0 then do {
        (r, u') \<leftarrow> send_line env t MAX_RETRIES ((False, INT_MAX), u);
        Some (if fst r then u'\<lparr>up_db := topo_joined now (tl_man t) (up_db u')\<rparr>
              else if up_error u' = IOT_ERROR_NONE then u'\<lparr>up_error := IOT_ERROR_TOPO_NOT_ACCEPTED\<rparr>
              else u') }
      else Some (u\<lparr>up_ipc := snd (queueWrite env QUEUE_KEY_ZCB_IN (tl_string t) (up_ipc u))\<rparr>))"

definition uploadTopo :: "ci_env \<Rightarrow> parser_data \<Rightarrow> c_int \<Rightarrow> ci_state \<Rightarrow> (c_int \<times> ci_state) option" where
  "uploadTopo env p2 now s =
     (case lockTopoUpload (lock_time env now) (lock_others env now) (ci_db s) of
        (False, m) \<Rightarrow> Some (IOT_ERROR_TOPO_TIMEOUT, set_db m s)
      | (True, m) \<Rightarrow> do {
          (error, t) \<leftarrow> (case queueOpen (ci_mq env) QUEUE_KEY_ZCB_IN (ci_ipc s) of
              (None, q) \<Rightarrow> Some (IOT_ERROR_NONE, (set_db m s)\<lparr>ci_ipc := q\<rparr>)
            | (Some k, q) \<Rightarrow> (case queueOpen (ci_mq env) QUEUE_KEY_CONTROL_INTERFACE q of
                  (None, q') \<Rightarrow> Some (IOT_ERROR_NONE, (set_db m s)\<lparr>ci_ipc := q'\<rparr>)
                | (Some k', q') \<Rightarrow> do {
                    g \<leftarrow> topoGenerate (topodevs (ci_topo s)) (q_error q');
                    polls \<leftarrow> flush_queue (ci_polls s);
                    u \<leftarrow> for_each (upload_line (ci_mq env) now) (tg_lines g)
                          \<lparr>up_ipc = q'\<lparr>q_error := tg_error g\<rparr>, up_db = m, up_polls = polls,
                           up_parser = jsonReset p2, up_error = IOT_ERROR_NONE\<rparr>;
                    Some (up_error u, s\<lparr>ci_ipc := up_ipc u, ci_db := up_db u, ci_polls := up_polls u\<rparr>) }));
          Some (error, set_db (unlockTopoUpload now (ci_db t)) t) })"

section \<open>Adding nodes\<close>

text \<open>
  The add operations look the mac up and change its row, or take a free row; the number is
  the index of the row, or \<open>-1\<close> when there is none.  A found row is stored only when it
  passes \<open>store\<close>.  A null type leaves the field as it is.
\<close>

definition add_node :: "(newdb_dev_t \<Rightarrow> newdb_dev_t) \<Rightarrow> (newdb_dev_t \<Rightarrow> bool) \<Rightarrow> (newdb_dev_t \<Rightarrow> newdb_dev_t) \<Rightarrow>
    c_int \<Rightarrow> string \<Rightarrow> newdb option \<Rightarrow> c_int \<times> newdb option" where
  "add_node found store fresh now mac m =
     (case newDbGetDevice mac m of
        Some d \<Rightarrow> (dev_id d, if store (found d) then snd (newDbSetDevice now (found d) m) else m)
      | None \<Rightarrow> (case newDbGetNewDevice now mac m of
            (Some d, m') \<Rightarrow> (dev_id d, snd (newDbSetDevice now (fresh d) m'))
          | (None, m') \<Rightarrow> (- 1, m')))"

definition confirm :: "newdb_dev_t \<Rightarrow> newdb_dev_t" where
  "confirm d = d\<lparr>dev_flags := dev_flags d AND NOT (FLAG_TOPO_CLEAR OR FLAG_ADDED_BY_GW)\<rparr>"

definition typed :: "string option \<Rightarrow> newdb_dev_t \<Rightarrow> newdb_dev_t" where
  "typed ty d = (case ty of Some t \<Rightarrow> d\<lparr>dev_ty := newDbStrNcpy t LEN_TY\<rparr> | None \<Rightarrow> d)"

abbreviation commanded :: "string \<Rightarrow> newdb_dev_t \<Rightarrow> newdb_dev_t" where
  "commanded c d \<equiv> d\<lparr>dev_cmd := newDbStrNcpy c LEN_CMD\<rparr>"

definition addManager :: "c_int \<Rightarrow> string \<Rightarrow> string \<Rightarrow> string option \<Rightarrow> newdb option \<Rightarrow> c_int \<times> newdb option" where
  "addManager now mac nm ty = add_node
     (\<lambda>d. confirm (typed ty (named nm (d\<lparr>dev_dev := DEVICE_DEV_MANAGER\<rparr>)))) (\<lambda>d. True)
     (\<lambda>d. (typed ty (named nm (d\<lparr>dev_dev := DEVICE_DEV_MANAGER, dev_par := 0\<rparr>)))\<lparr>dev_flags := 0\<rparr>) now mac"

definition addUi :: "c_int \<Rightarrow> string \<Rightarrow> string \<Rightarrow> c_int \<Rightarrow> newdb option \<Rightarrow> c_int \<times> newdb option" where
  "addUi now mac nm manager = add_node
     (\<lambda>d. confirm (named nm ((if dev_dev d = DEVICE_DEV_UNKNOWN then d\<lparr>dev_dev := DEVICE_DEV_UI\<rparr>
              else if dev_dev d = DEVICE_DEV_SENSOR then d\<lparr>dev_dev := DEVICE_DEV_UISENSOR\<rparr>
              else d)\<lparr>dev_par := manager\<rparr>))) (\<lambda>d. True)
     (\<lambda>d. (named nm (d\<lparr>dev_dev := DEVICE_DEV_UI, dev_par := manager\<rparr>))\<lparr>dev_flags := 0\<rparr>) now mac"

definition addSensor :: "c_int \<Rightarrow> string \<Rightarrow> string \<Rightarrow> c_int \<Rightarrow> newdb option \<Rightarrow> c_int \<times> newdb option" where
  "addSensor now mac nm ui = add_node
     (\<lambda>d. confirm (if dev_dev d = DEVICE_DEV_UNKNOWN then named nm (d\<lparr>dev_dev := DEVICE_DEV_SENSOR, dev_par := ui\<rparr>)
              else if dev_dev d = DEVICE_DEV_UI then d\<lparr>dev_dev := DEVICE_DEV_UISENSOR\<rparr>
              else if dev_dev d = DEVICE_DEV_SENSOR then named nm (d\<lparr>dev_par := ui\<rparr>)
              else d))
     (\<lambda>d. dev_dev d = DEVICE_DEV_SENSOR \<or> dev_dev d = DEVICE_DEV_UISENSOR)
     (\<lambda>d. (named nm (d\<lparr>dev_dev := DEVICE_DEV_SENSOR, dev_par := ui\<rparr>))\<lparr>dev_flags := 0\<rparr>) now mac"

definition addPump :: "c_int \<Rightarrow> string \<Rightarrow> string \<Rightarrow> c_int \<Rightarrow> c_int \<Rightarrow> newdb option \<Rightarrow> c_int \<times> newdb option" where
  "addPump now mac nm sensor sid = add_node
     (\<lambda>d. confirm ((named nm (d\<lparr>dev_dev := DEVICE_DEV_PUMP, dev_par := sensor\<rparr>))\<lparr>dev_sid := sid\<rparr>)) (\<lambda>d. True)
     (\<lambda>d. (commanded ''off'' ((named nm (d\<lparr>dev_dev := DEVICE_DEV_PUMP, dev_par := sensor\<rparr>))\<lparr>dev_sid := sid\<rparr>))\<lparr>dev_flags := 0\<rparr>)
     now mac"

text \<open>A new lamp is given defaults by its type; comparing a null type is undefined.\<close>

definition lamp_defaults :: "string \<Rightarrow> newdb_dev_t \<Rightarrow> newdb_dev_t" where
  "lamp_defaults ty d =
     (if ty = ''dim'' then d\<lparr>dev_lvl := 100\<rparr>
      else if ty = ''col'' then d\<lparr>dev_lvl := 100, dev_rgb := 0xffffff, dev_kelvin := 6250\<rparr>
      else if ty = ''tw'' then d\<lparr>dev_lvl := 100, dev_kelvin := 6250\<rparr>
      else d)"

definition addLamp :: "c_int \<Rightarrow> string \<Rightarrow> string \<Rightarrow> string option \<Rightarrow> newdb option \<Rightarrow> (c_int \<times> newdb option) option" where
  "addLamp now mac nm ty m =
     (if ty = None \<and> newDbGetDevice mac m = None \<and> fst (newDbGetNewDevice now mac m) \<noteq> None then None
      else Some (add_node
        (\<lambda>d. confirm (typed ty (named nm (d\<lparr>dev_dev := DEVICE_DEV_LAMP\<rparr>)))) (\<lambda>d. True)
        (\<lambda>d. (lamp_defaults (the ty) (commanded ''on'' (typed ty (named nm (d\<lparr>dev_dev := DEVICE_DEV_LAMP\<rparr>)))))\<lparr>dev_flags := 0\<rparr>)
        now mac m))"

definition addPlug :: "c_int \<Rightarrow> string \<Rightarrow> string \<Rightarrow> newdb option \<Rightarrow> c_int \<times> newdb option" where
  "addPlug now mac nm = add_node
     (\<lambda>d. confirm (named nm (d\<lparr>dev_dev := DEVICE_DEV_PLUG\<rparr>))) (\<lambda>d. True)
     (\<lambda>d. (commanded ''on'' (named nm (d\<lparr>dev_dev := DEVICE_DEV_PLUG\<rparr>)))\<lparr>dev_flags := 0\<rparr>) now mac"

section \<open>The handler\<close>

text \<open>The commands; the number is the error, the flag says that an upload was made.\<close>

definition topo_command :: "ci_env \<Rightarrow> parser_data \<Rightarrow> c_int \<Rightarrow> string \<Rightarrow> ci_state \<Rightarrow> ((c_int \<times> bool) \<times> ci_state) option" where
  "topo_command env p2 now cmd s =
     (if cmd = ''clearall'' then
        Some ((IOT_ERROR_NONE, False),
          (set_db (snd (newDbDevicesSetClearFlag (ci_db s))) s)
            \<lparr>ci_topo := (ci_topo s)\<lparr>currentManager := - 1, currentUI := - 1, currentSensor := - 1\<rparr>\<rparr>)
      else if cmd = ''endconf'' then
        map_option (\<lambda>(error, t). ((error, True), t))
          (uploadTopo env p2 now (set_db (snd (newDbDevicesRemoveWithClearFlag (ci_db s))) s))
      else if cmd = ''upload'' then map_option (\<lambda>(error, t). ((error, True), t)) (uploadTopo env p2 now s)
      else Some ((IOT_ERROR_TOPO_ILLEGAL_CMD, False), s))"

text \<open>The macs are made upper case in the attribute table.\<close>

definition topo_add :: "c_int \<Rightarrow> string \<Rightarrow> ci_state \<Rightarrow> ci_state option" where
  "topo_add now nm s =
     (let v = ci_topo s; m = ci_db s; ty = attr0 s ''ty'' in
      case attr0 s ''man'' of Some mac \<Rightarrow>
        (case addManager now (strtoupper mac) nm ty m of (i, m') \<Rightarrow>
           Some ((set_db m' (upcase_attr ''man'' s))\<lparr>ci_topo := v\<lparr>currentUI := - 1, currentSensor := - 1, currentManager := i\<rparr>\<rparr>))
    | None \<Rightarrow> (case attr0 s ''ui'' of Some mac \<Rightarrow>
        (case addUi now (strtoupper mac) nm (currentManager v) m of (i, m') \<Rightarrow>
           Some ((set_db m' (upcase_attr ''ui'' s))\<lparr>ci_topo := v\<lparr>currentUI := i, currentSensor := i\<rparr>\<rparr>))
    | None \<Rightarrow> (case attr0 s ''sen'' of Some mac \<Rightarrow>
        (case addSensor now (strtoupper mac) nm (currentUI v) m of (i, m') \<Rightarrow>
           Some ((set_db m' (upcase_attr ''sen'' s))\<lparr>ci_topo := v\<lparr>currentSensor := i\<rparr>\<rparr>))
    | None \<Rightarrow> (case attr0 s ''pmp'' of Some mac \<Rightarrow>
        Some (set_db (snd (addPump now (strtoupper mac) nm (currentSensor v) (attri s ''sid'') m)) (upcase_attr ''pmp'' s))
    | None \<Rightarrow> (case attr0 s ''lmp'' of Some mac \<Rightarrow>
        map_option (\<lambda>r. set_db (snd r) (upcase_attr ''lmp'' s)) (addLamp now (strtoupper mac) nm ty m)
    | None \<Rightarrow> (case attr0 s ''plg'' of Some mac \<Rightarrow>
        Some (set_db (snd (addPlug now (strtoupper mac) nm m)) (upcase_attr ''plg'' s))
    | None \<Rightarrow> Some s))))))"

definition topoHandle :: "ci_env \<Rightarrow> parser_data \<Rightarrow> c_int \<Rightarrow> ci_state \<Rightarrow> (c_int \<times> ci_state) option" where
  "topoHandle env p2 now s = do {
     ((error, status), t) \<leftarrow> (case attr0 s ''cmd'' of
         Some cmd \<Rightarrow> topo_command env p2 now cmd s
       | None \<Rightarrow> (case attr0 s ''nm'' of
             Some nm \<Rightarrow> map_option (\<lambda>t. ((IOT_ERROR_NONE, False), t)) (topo_add now nm s)
           | None \<Rightarrow> Some ((IOT_ERROR_TOPO_MISSING_NAME, False), s)));
     Some (if error \<noteq> IOT_ERROR_NONE then (- 1, set_iotError error t) else (of_bool status, t)) }"

end
