(* ===== verification/ControlHandlers.thy ===== *)
theory ControlHandlers
  imports ControlState
begin

text \<open>
  The handlers of the control (\<open>ctrl.c\<close>), lamp, group, sensor, database edit, database get,
  command and process messages of the control interface daemon, which read the attributes,
  change the database, and write messages for the Zigbee daemon and for the client.
\<close>

section \<open>Control messages\<close>

definition ctrl_ui_device :: "c_int \<Rightarrow> c_int \<Rightarrow> newdb_dev_t \<Rightarrow> newdb_dev_t" where
  "ctrl_ui_device heat cool d =
     (let d1 = (if heat \<ge> 0 then d\<lparr>dev_heat := heat, dev_flags := dev_flags d OR FLAG_UI_IGNORENEXT_HEAT\<rparr> else d)
      in if cool \<ge> 0 then d1\<lparr>dev_cool := cool, dev_flags := dev_flags d1 OR FLAG_UI_IGNORENEXT_COOL\<rparr> else d1)"

definition ctrl_lamp_device :: "string option \<Rightarrow> c_int \<Rightarrow> c_int \<Rightarrow> c_int \<Rightarrow> newdb_dev_t \<Rightarrow> newdb_dev_t" where
  "ctrl_lamp_device cmd lvl rgb kelvin d =
     (let d0 = d\<lparr>dev_flags := dev_flags d OR FLAG_DEV_JOINED\<rparr>;
          d1 = (if lvl \<ge> 0 then d0\<lparr>dev_lvl := lvl\<rparr> else d0);
          d2 = (if rgb \<ge> 0 then d1\<lparr>dev_flags := dev_flags d1 AND NOT FLAG_LASTKELVIN, dev_rgb := rgb\<rparr> else d1);
          d3 = (if kelvin \<ge> 0 then d2\<lparr>dev_flags := dev_flags d2 OR FLAG_LASTKELVIN, dev_kelvin := kelvin\<rparr> else d2)
      in (case cmd of Some c \<Rightarrow> d3\<lparr>dev_cmd := newDbStrNcpy c LEN_CMD\<rparr> | None \<Rightarrow> d3))"

text \<open>The colour temperature sent: without a command and a colour, the last one if it was one.\<close>

definition ctrl_lamp_kelvin :: "string option \<Rightarrow> c_int \<Rightarrow> newdb_dev_t \<Rightarrow> c_int" where
  "ctrl_lamp_kelvin cmd kelvin d =
     (if cmd = None \<and> kelvin < 0 \<and> dev_flags d AND FLAG_LASTKELVIN \<noteq> 0 then dev_kelvin d else kelvin)"

definition save_device :: "c_int \<Rightarrow> newdb_dev_t \<Rightarrow> ci_state \<Rightarrow> ci_state" where
  "save_device now d s = set_db (snd (newDbSetDevice now d (ci_db s))) s"

definition ctrl_tunnel :: "ci_env \<Rightarrow> c_int \<Rightarrow> string \<Rightarrow> ci_state \<Rightarrow> ci_state option" where
  "ctrl_tunnel env tunnelManager tunnelMessage s =
     (if tunnelManager \<ge> 0 then
        (case newDbDeviceGetMac tunnelManager (ci_db s) of
           None \<Rightarrow> Some (set_iotError IOT_ERROR_NON_EXISTING_MAC s)
         | Some tunnelMac \<Rightarrow>
             (case queueOpen (ci_mq env) QUEUE_KEY_ZCB_IN (ci_ipc s) of
                (None, q) \<Rightarrow> Some (s\<lparr>ci_ipc := q\<rparr>)
              | (Some k, q) \<Rightarrow>
                  (case (jsonTunnelOpen tunnelMac, jsonTunnelClose) of
                     (Some m1, Some m3) \<Rightarrow>
                       Some (s\<lparr>ci_ipc := snd (queueWrite (ci_mq env) k m3 (snd (queueWrite (ci_mq env) k tunnelMessage
                                            (snd (queueWrite (ci_mq env) k m1 q)))))\<rparr>)
                   | _ \<Rightarrow> None)))
      else Some s)"

definition ctrl_device :: "ci_env \<Rightarrow> c_int \<Rightarrow> string \<Rightarrow> newdb_dev_t \<Rightarrow> ci_state \<Rightarrow> ci_state option" where
  "ctrl_device env now mac d s =
     (if dev_dev d = DEVICE_DEV_UI \<or> dev_dev d = DEVICE_DEV_UISENSOR then
        (let heat = attri s ''heat''; cool = attri s ''cool''
         in (case jsonUiCtrl mac heat cool of
               None \<Rightarrow> None
             | Some tunnelMessage \<Rightarrow>
                 if length tunnelMessage < 80 then
                   ctrl_tunnel env (dev_par d) tunnelMessage
                     (if heat \<ge> 0 \<or> cool \<ge> 0 then save_device now (ctrl_ui_device heat cool d) s else s)
                 else None))
      else if dev_dev d = DEVICE_DEV_PLUG then
        (case attr0 s ''cmd'' of
           None \<Rightarrow> Some s
         | Some cmd \<Rightarrow>
             map_option (save_device now (d\<lparr>dev_cmd := newDbStrNcpy cmd LEN_CMD\<rparr>))
               (post env QUEUE_KEY_ZCB_IN (jsonPlugCmd mac (Some cmd)) s))
      else if dev_dev d = DEVICE_DEV_LAMP then
        (let lvl = attri s ''lvl''; rgb = attri s ''rgb''; kelvin = attri s ''kelvin''; cmd = attr0 s ''cmd'';
             d' = ctrl_lamp_device cmd lvl rgb kelvin d
         in map_option (save_device now d')
              (post env QUEUE_KEY_ZCB_IN
                 (jsonLampToZigbee (rgb2xy env) mac cmd lvl rgb (ctrl_lamp_kelvin cmd kelvin d')) s))
      else Some s)"

definition ctrlHandle :: "ci_env \<Rightarrow> c_int \<Rightarrow> ci_state \<Rightarrow> (c_int \<times> ci_state) option" where
  "ctrlHandle env now s0 =
     (let s = set_iotError IOT_ERROR_NONE s0;
          out = (case attr0 s ''mac'' of
             None \<Rightarrow> Some (set_iotError IOT_ERROR_NO_MAC s)
           | Some mac \<Rightarrow>
               (let s1 = upcase_attr ''mac'' s
                in (case newDbGetDevice (strtoupper mac) (ci_db s1) of
                      None \<Rightarrow> Some (set_iotError IOT_ERROR_NON_EXISTING_MAC s1)
                    | Some d \<Rightarrow> ctrl_device env now (strtoupper mac) d s1)))
      in map_option (\<lambda>t. (of_bool (iotError t = IOT_ERROR_NONE), t)) out)"

section \<open>Lamp, group and sensor messages\<close>

text \<open>A null mac would be printed with \<open>%s\<close>.\<close>

definition lmpHandle :: "ci_env \<Rightarrow> ci_state \<Rightarrow> (c_int \<times> ci_state) option" where
  "lmpHandle env s =
     (let mac = attr0 s ''mac''; grp = attr0 s ''grp''; scn = attr0 s ''scn'';
          grpid = attri s ''grpid''; scnid = attri s ''scnid'';
          out = (if grp \<noteq> None \<or> grpid > 0 \<or> scn \<noteq> None \<or> scnid > 0 then
                   (case mac of None \<Rightarrow> None
                    | Some m \<Rightarrow> post env QUEUE_KEY_ZCB_IN (jsonLampGroup m grp grpid scn scnid) s)
                 else Some s)
      in map_option (\<lambda>t. (of_bool (iotError t = IOT_ERROR_NONE), t)) out)"

definition grpHandle :: "ci_env \<Rightarrow> ci_state \<Rightarrow> (c_int \<times> ci_state) option" where
  "grpHandle env s =
     map_option (\<lambda>t. (of_bool (iotError t = IOT_ERROR_NONE), t))
       (post env QUEUE_KEY_ZCB_IN
          (jsonGroup (rgb2xy env) (kelvin2xy env) (attri s ''grpid'') (attr0 s ''scn'') (attri s ''scnid'') (attr0 s ''cmd'')
             (attri s ''lvl'') (attri s ''rgb'') (attri s ''kelvin'') (attri s ''xcr'') (attri s ''ycr'')) s)"

definition sensor_device :: "string option \<Rightarrow> c_int \<Rightarrow> c_int \<Rightarrow> c_int \<Rightarrow> newdb_dev_t \<Rightarrow> newdb_dev_t" where
  "sensor_device nm xloc yloc zloc d =
     (let d0 = (case nm of Some n \<Rightarrow> d\<lparr>dev_nm := newDbStrNcpy n LEN_NM\<rparr> | None \<Rightarrow> d);
          d1 = (if xloc \<noteq> INT_MIN then d0\<lparr>dev_xloc := xloc\<rparr> else d0);
          d2 = (if yloc \<noteq> INT_MIN then d1\<lparr>dev_yloc := yloc\<rparr> else d1)
      in if zloc \<noteq> INT_MIN then d2\<lparr>dev_zloc := zloc\<rparr> else d2)"

definition sensorHandle :: "c_int \<Rightarrow> ci_state \<Rightarrow> (c_int \<times> ci_state) option" where
  "sensorHandle now s =
     (let s' = (case attr0 s ''mac'' of
           None \<Rightarrow> s
         | Some mac \<Rightarrow> (case newDbGetDevice mac (ci_db s) of
               None \<Rightarrow> s
             | Some d \<Rightarrow> save_device now
                 (sensor_device (attr0 s ''nm'') (attri s ''xloc'') (attri s ''yloc'') (attri s ''zloc'') d) s))
      in Some (of_bool (iotError s' = IOT_ERROR_NONE), s'))"

section \<open>Database edit messages\<close>

definition tableEdit :: "c_int \<Rightarrow> string \<Rightarrow> c_int \<Rightarrow> string \<Rightarrow> string \<Rightarrow> newdb option \<Rightarrow> bool \<times> newdb option" where
  "tableEdit now table i col val m =
     (if table = ''devices'' then
        (case newDbGetDeviceId i m of
           None \<Rightarrow> (False, m)
         | Some dev \<Rightarrow> newDbSetDevice now (if col = ''par'' then dev\<lparr>dev_par := Atoi0 (Some val)\<rparr> else dev) m)
      else (False, m))"

text \<open>The defaults of a new device of kind \<open>dev\<close> and type \<open>ty\<close>.\<close>

definition device_defaults :: "c_int \<Rightarrow> string \<Rightarrow> newdb_dev_t \<Rightarrow> newdb_dev_t" where
  "device_defaults dev ty d =
     (if dev = DEVICE_DEV_MANAGER then (if ty = ''h'' then named ''Heating Manager'' d else named ''Cooling Manager'' d)
      else if dev = DEVICE_DEV_UI then named ''UI'' d
      else if dev = DEVICE_DEV_UISENSOR then named ''UI+Sensor'' d
      else if dev = DEVICE_DEV_SENSOR then named ''Sensor'' d
      else if dev = DEVICE_DEV_LAMP then
        (let d' = d\<lparr>dev_cmd := newDbStrNcpy ''on'' LEN_CMD\<rparr>
         in if ty = ''dim'' then (named ''Dim-lamp'' d')\<lparr>dev_lvl := 100\<rparr>
            else if ty = ''col'' then (named ''RGB-lamp'' d')\<lparr>dev_lvl := 100, dev_rgb := 0xffffff, dev_kelvin := 6250\<rparr>
            else if ty = ''tw'' then (named ''TW-lamp'' d')\<lparr>dev_lvl := 100, dev_kelvin := 6250\<rparr>
            else named ''OnOff-lamp'' d')
      else if dev = DEVICE_DEV_PLUG then (named ''Plugmeter'' d)\<lparr>dev_cmd := newDbStrNcpy ''on'' LEN_CMD\<rparr>
      else if dev = DEVICE_DEV_PUMP then (named ''Actuator'' d)\<lparr>dev_cmd := newDbStrNcpy ''off'' LEN_CMD\<rparr>
      else if dev = DEVICE_DEV_SWITCH then named ''Switch'' d
      else d)"

text \<open>Adding a device; the number is the error of the operation.\<close>

definition dbEditAdd :: "c_int \<Rightarrow> string \<Rightarrow> c_int \<Rightarrow> string \<Rightarrow> newdb option \<Rightarrow> c_int \<times> newdb option" where
  "dbEditAdd now mac dev ty m =
     (if dev > DEVICE_DEV_UNKNOWN then
        (case newDbGetDevice mac m of
           Some d \<Rightarrow> (IOT_ERROR_ALREADY_EXISTING_MAC, m)
         | None \<Rightarrow> (case newDbGetNewDevice now mac m of
               (None, m') \<Rightarrow> (IOT_ERROR_NONE, m')
             | (Some d, m') \<Rightarrow>
                 (IOT_ERROR_NONE,
                  snd (newDbSetDevice now
                    ((device_defaults dev ty (d\<lparr>dev_dev := dev, dev_par := 0, dev_ty := newDbStrNcpy ty LEN_TY\<rparr>))
                       \<lparr>dev_flags := FLAG_ADDED_BY_GW\<rparr>) m'))))
      else (IOT_ERROR_DEVICE_MISSING, m))"

definition dbEditClear :: "c_int \<Rightarrow> string \<Rightarrow> newdb option \<Rightarrow> newdb option" where
  "dbEditClear now clr m =
     (if clr = ''climate'' then snd (newDbEmptyDevices now MODE_DEV_EMPTY_CLIMATE m)
      else if clr = ''lamps'' then snd (newDbEmptyDevices now MODE_DEV_EMPTY_LAMPS m)
      else if clr = ''plugs'' then snd (newDbEmptyDevices now MODE_DEV_EMPTY_PLUGS m)
      else if clr = ''devices'' then snd (newDbEmptyPlugHist now (snd (newDbEmptyDevices now MODE_DEV_EMPTY_ALL m)))
      else if clr = ''system'' then snd (newDbEmptySystem now m)
      else if clr = ''zcb'' then snd (newDbEmptyZcb now m)
      else if clr = ''plughistory'' then snd (newDbEmptyPlugHist now m)
      else m)"

text \<open>
  What the message does, with its error.  The type is read with \<open>parsingGetStringAttr\<close>, which is null for an unregistered name and
  is then taken for undefined behaviour as soon as it is read.
\<close>

definition dbEdit_action :: "c_int \<Rightarrow> ci_state \<Rightarrow> (c_int \<times> newdb option) option" where
  "dbEdit_action now s = (case attr0 s ''add'' of
     Some mac \<Rightarrow>
       (case parsingGetStringAttr (ci_attrs s) ''ty'' of
          Some ty \<Rightarrow> Some (dbEditAdd now mac (attri s ''dev'') ty (ci_db s))
        | None \<Rightarrow> (if attri s ''dev'' > DEVICE_DEV_UNKNOWN then None else Some (IOT_ERROR_DEVICE_MISSING, ci_db s)))
   | None \<Rightarrow> (case attr0 s ''rem'' of
         Some mac \<Rightarrow> (case newDbDeleteDevice now mac (ci_db s) of
             (ok, m) \<Rightarrow> Some (if ok then IOT_ERROR_NONE else IOT_ERROR_NON_EXISTING_MAC, m))
       | None \<Rightarrow> (case attr0 s ''clr'' of
             Some clr \<Rightarrow> Some (IOT_ERROR_NONE, dbEditClear now clr (ci_db s))
           | None \<Rightarrow> (case (attr0 s ''table'', attr0 s ''col'', attr0 s ''val'') of
                 (Some table, Some col, Some val) \<Rightarrow>
                   Some (IOT_ERROR_NONE,
                         if attri s ''id'' \<ge> 0 then snd (tableEdit now table (attri s ''id'') col val (ci_db s)) else ci_db s)
               | _ \<Rightarrow> Some (IOT_ERROR_NONE, ci_db s)))))"

definition dbEditHandle :: "c_int \<Rightarrow> ci_state \<Rightarrow> (c_int \<times> ci_state) option" where
  "dbEditHandle now s =
     map_option (\<lambda>(e, m). let t = (if e \<noteq> IOT_ERROR_NONE then set_iotError e (set_db m s) else set_db m s)
                          in (of_bool (iotError t = IOT_ERROR_NONE), t)) (dbEdit_action now s)"

lemma dbEditHandle_result:
  "dbEditHandle now s = Some (ret, t) \<Longrightarrow> \<exists>e m. dbEdit_action now s = Some (e, m)
     \<and> t = (if e \<noteq> IOT_ERROR_NONE then set_iotError e (set_db m s) else set_db m s)"
  by (cases "dbEdit_action now s") (auto simp: dbEditHandle_def Let_def)

section \<open>Database get messages\<close>

definition addToResponse :: "string \<Rightarrow> string \<Rightarrow> string" where
  "addToResponse str buf = (if length str + length buf < MAXRESPONSE then buf @ str else buf)"

fun addAllToResponse :: "string option list \<Rightarrow> string \<Rightarrow> string option" where
  "addAllToResponse [] buf = Some buf"
| "addAllToResponse (None # ms) buf = None"
| "addAllToResponse (Some m # ms) buf = addAllToResponse ms (addToResponse m buf)"

text \<open>The messages for one device, or the error.\<close>

definition dbget_messages :: "c_int \<Rightarrow> newdb_dev_t \<Rightarrow> newdb option \<Rightarrow> c_int + string option list" where
  "dbget_messages now d m =
     (let joined = (if dev_flags d \<ge> 0 then of_bool (dev_flags d AND FLAG_DEV_JOINED \<noteq> 0) else - 1 :: c_int);
          ui = jsonUI (- 1) (dev_mac d) None (- 1) (- 1) (dev_heat d) (dev_cool d) joined;
          sensor = jsonSensor (- 1) (dev_mac d) None (- 1) (- 1) (dev_tmp d) (dev_hum d) (dev_prs d) (dev_co2 d)
                     (dev_bat d) (dev_batl d) (dev_als d) (dev_xloc d) (dev_yloc d) (dev_zloc d) joined
      in if dev_dev d = DEVICE_DEV_MANAGER then Inr [jsonManager (- 1) (dev_mac d) None (- 1) None joined]
         else if dev_dev d = DEVICE_DEV_UISENSOR then Inr [ui, sensor]
         else if dev_dev d = DEVICE_DEV_UI then Inr [ui]
         else if dev_dev d = DEVICE_DEV_SENSOR then Inr [sensor]
         else if dev_dev d = DEVICE_DEV_PUMP then
           Inr [jsonPump (- 1) (dev_mac d) None (- 1) (- 1) (dev_sid d) (Some (dev_cmd d)) (dev_lvl d) joined]
         else if dev_dev d = DEVICE_DEV_LAMP then
           Inr [jsonLamp (- 1) (dev_mac d) None (- 1) None (Some (dev_cmd d)) (dev_lvl d) (dev_rgb d) (dev_kelvin d) joined]
         else if dev_dev d = DEVICE_DEV_PLUG then
           (case plugGetHistory (dev_mac d) now 60 24 m of None \<Rightarrow> Inr [None] | Some day \<Rightarrow>
            Inr [jsonPlug (- 1) (dev_mac d) None (- 1) (Some (dev_cmd d)) (dev_act d) (dev_sum d) (day ! 0 - day ! 23) joined (- 1)])
         else if dev_dev d = DEVICE_DEV_SWITCH then Inr []
         else if dev_dev d < 0 then Inl IOT_ERROR_NON_EXISTING_MAC
         else Inl IOT_ERROR_DEVICE_HAS_NO_GET)"

definition sendResponse :: "string \<Rightarrow> ci_state \<Rightarrow> ci_state" where
  "sendResponse txt s = s\<lparr>ci_sent := ci_sent s @ txt\<rparr>"

definition dbgetHandle :: "c_int \<Rightarrow> ci_state \<Rightarrow> (c_int \<times> ci_state) option" where
  "dbgetHandle now s =
     (let out = (case attr0 s ''mac'' of
          None \<Rightarrow> Some (set_iotError IOT_ERROR_NO_MAC s)
        | Some mac \<Rightarrow>
            (let s1 = upcase_attr ''mac'' s
             in (case newDbGetDevice (strtoupper mac) (ci_db s1) of
                   None \<Rightarrow> Some s1
                 | Some d \<Rightarrow> (case dbget_messages now d (ci_db s1) of
                       Inl e \<Rightarrow> Some (set_iotError e s1)
                     | Inr ms \<Rightarrow> map_option (\<lambda>buf. if buf \<noteq> [] then sendResponse buf s1 else s1) (addAllToResponse ms [])))))
      in map_option (\<lambda>t. (of_bool (iotError t = IOT_ERROR_NONE), t)) out)"

section \<open>Commands\<close>

text \<open>The text of \<open>%08x\<close> for a positive number.\<close>

definition lower_nibble :: "nat \<Rightarrow> char" where
  "lower_nibble n = (if n < 10 then of_code (48 + int n) else of_code (97 + int n - 10))"

definition show_hex8 :: "nat \<Rightarrow> string" where
  "show_hex8 n = map (\<lambda>i. lower_nibble (n div 16 ^ (7 - i) mod 16)) [0..<8]"

text \<open>The requests of the \<open>system\<close> commands; those with a text do nothing without one.\<close>

definition cmd_system :: "c_int \<Rightarrow> string option \<Rightarrow> os_request list" where
  "cmd_system val strval =
     (if val = 1 then [OS_FileLock, OS_Save, OS_Sleep 3, OS_Shutdown]
      else if val = 7 then [OS_FileLock, OS_Save, OS_Sleep 3, OS_Reboot]
      else if val = 8 then [OS_NetworkRestart]
      else (case strval of None \<Rightarrow> []
          | Some v \<Rightarrow>
              if val = 2 then [OS_SetHostname v, OS_EditConfig ''/etc/config/system'' ''system'' ''hostname'' v]
              else if val = 3 then [OS_EditConfig ''/etc/config/wireless'' ''wifi-iface'' ''ssid'' v]
              else if val = 4 then [OS_EditConfig ''/etc/config/wireless'' ''wifi-device'' ''channel'' v]
              else if val = 5 then [OS_EditConfig ''/etc/config/system'' ''system'' ''timezone'' v]
              else if val = 6 then [OS_EditConfig ''/etc/config/system'' ''system'' ''zonename'' v]
              else []))"

definition os_request_all :: "os_request list \<Rightarrow> ci_state \<Rightarrow> ci_state" where
  "os_request_all rs s = s\<lparr>ci_os := ci_os s @ rs\<rparr>"

definition cmd_resetrsp :: "ci_env \<Rightarrow> c_int \<Rightarrow> ci_state \<Rightarrow> ci_state option" where
  "cmd_resetrsp env val s =
     (if val = 0 then
        (let s1 = os_request_all [OS_Sleep 3] s;
             chanmask = newDbSystemGetInt ''chanmask'' (ci_db s1);
             s2 = (if chanmask > 0 then post env QUEUE_KEY_ZCB_IN (jsonCmdSetChannelMask (show_hex8 (nat chanmask))) s1
                   else Some s1)
         in (case s2 of None \<Rightarrow> None | Some t \<Rightarrow> post env QUEUE_KEY_ZCB_IN jsonCmdStartNetwork t))
      else Some s)"

text \<open>The state after the command, and the message it leaves to be sent, if any.\<close>

definition cmd_action :: "ci_env \<Rightarrow> c_int \<Rightarrow> ci_state \<Rightarrow> (ci_state \<times> string option option) option" where
  "cmd_action env now s =
     (if attri s ''reset'' \<ge> 0 then
        map_option (\<lambda>t. (t, None)) (post env QUEUE_KEY_ZCB_IN (jsonCmdReset (attri s ''reset'')) s)
      else if attri s ''resetrsp'' \<ge> 0 then map_option (\<lambda>t. (t, None)) (cmd_resetrsp env (attri s ''resetrsp'') s)
      else if attri s ''getversion'' \<ge> 0 then Some (s, Some jsonCmdGetVersion)
      else if attri s ''duration'' \<ge> 0 then
        (let val = attri s ''duration'';
             m = (if val > 0 then snd (newDbSystemSaveIntval now ''permit'' (now + val) (ci_db s))
                  else snd (newDbDeleteSystem now ''permit'' (ci_db s)))
         in Some (set_db m s, Some (jsonCmdSetPermitJoin (attr0 s ''setpermit'') val)))
      else if attri s ''nfcmode'' \<ge> 0 then
        Some (set_db (snd (newDbSystemSaveIntval now ''nfcmode'' (attri s ''nfcmode'') (ci_db s))) s, None)
      else if attri s ''system'' \<ge> 0 then
        Some (os_request_all (cmd_system (attri s ''system'') (attr0 s ''strval'')) s, None)
      else (case attr0 s ''chanmask'' of
          None \<Rightarrow> Some (s, None)
        | Some v \<Rightarrow> Some (set_db (snd (newDbSystemSaveIntval now ''chanmask'' (AtoiHex (Some v)) (ci_db s))) s,
                           Some (jsonCmdSetChannelMask v))))"

definition cmdHandle :: "ci_env \<Rightarrow> c_int \<Rightarrow> ci_state \<Rightarrow> (c_int \<times> ci_state) option" where
  "cmdHandle env now s = (case cmd_action env now s of
     None \<Rightarrow> None
   | Some (t, None) \<Rightarrow> Some (0, t)
   | Some (t, Some message) \<Rightarrow>
       map_option (\<lambda>t. (of_bool (iotError t = IOT_ERROR_NONE), t)) (post env QUEUE_KEY_ZCB_IN message t))"
section \<open>Process messages\<close>

text \<open>
  The variant for the target: the outcome of \<open>system\<close> is not used, and the result is 0.
\<close>

definition procHandle :: "ci_state \<Rightarrow> c_int \<times> ci_state" where
  "procHandle s =
     (0, (case attr0 s ''start'' of
            Some p \<Rightarrow> os_request_all [OS_InitD p ''start''] s
          | None \<Rightarrow> (case attr0 s ''stop'' of
                Some p \<Rightarrow> os_request_all [OS_InitD p ''stop''] s
              | None \<Rightarrow> (case attr0 s ''restart'' of
                    Some p \<Rightarrow> os_request_all [OS_InitD p ''stop'', OS_Sleep 1, OS_InitD p ''start''] s
                  | None \<Rightarrow> s))))"

end
