(* ===== verification/ControlIface.thy ===== *)
theory ControlIface
  imports ControlTopo ControlHandlers
begin

text \<open>
  The control interface daemon (\<open>daemons/ControlInterface/ci_main.c\<close>): the call-backs that turn
  a parsed message into attribute values and dispatch it by its name, the registration of
  the attributes, the answers to the client, and the table of the client processes.
  \<open>p2\<close> is the parser that uploads use for the answers of the managers.
\<close>

section \<open>The call-backs of the parser\<close>

definition ci_onObjectStart :: "ci_state \<Rightarrow> ci_state" where
  "ci_onObjectStart s = s\<lparr>ci_attrs := parsingReset (ci_attrs s)\<rparr>"

definition ci_onString :: "string \<Rightarrow> string \<Rightarrow> ci_state \<Rightarrow> ci_state" where
  "ci_onString name val s = s\<lparr>ci_attrs := snd (parsingStringAttr name val (ci_attrs s))\<rparr>"

definition ci_onInteger :: "string \<Rightarrow> c_int \<Rightarrow> ci_state \<Rightarrow> ci_state" where
  "ci_onInteger name val s = s\<lparr>ci_attrs := snd (parsingIntAttr name val (ci_attrs s))\<rparr>"

text \<open>
  The dispatch: the state after the handler, the error of the message, and the response it
  has already.  The results of some handlers are tested with \<open>< 0\<close>, of others with \<open>!\<close>.
\<close>

definition if_negative :: "(c_int \<times> ci_state) option \<Rightarrow> (ci_state \<times> c_int) option" where
  "if_negative r = map_option (\<lambda>(ret, t). (t, if ret < 0 then iotError t else IOT_ERROR_NONE)) r"

definition if_zero :: "(c_int \<times> ci_state) option \<Rightarrow> (ci_state \<times> c_int) option" where
  "if_zero r = map_option (\<lambda>(ret, t). (t, if ret = 0 then iotError t else IOT_ERROR_NONE)) r"

definition ci_dispatch :: "ci_env \<Rightarrow> parser_data \<Rightarrow> c_int \<Rightarrow> string \<Rightarrow> ci_state \<Rightarrow> ((ci_state \<times> c_int) \<times> string option option) option" where
  "ci_dispatch env p2 now name s =
     (let plain = map_option (\<lambda>r. (r, None))
      in if name = ''dbget'' then plain (if_zero (dbgetHandle now s))
         else if name = ''dbedit'' then plain (if_zero (dbEditHandle now s))
         else if name = ''ctrl'' then plain (if_negative (ctrlHandle env now s))
         else if name = ''cmd'' then plain (if_negative (cmdHandle env now s))
         else if name = ''lmp'' then plain (if_negative (lmpHandle env s))
         else if name = ''grp'' then plain (if_negative (grpHandle env s))
         else if name = ''sensor'' then plain (if_negative (sensorHandle now s))
         else if name = ''tp'' \<or> name = ''tp+'' then
           (case topoHandle env p2 now s of
              None \<Rightarrow> None
            | Some (ret, t) \<Rightarrow>
                if ret < 0 then Some ((t, iotError t), None)
                else if ret \<noteq> 0 then Some ((t, IOT_ERROR_NONE), Some (jsonTopoStatus 1))
                else Some ((t, IOT_ERROR_NONE), None))
         else if name = ''proc'' then plain (if_zero (Some (procHandle s)))
         else Some ((s, IOT_ERROR_NONE), None))"

lemma ci_dispatchE:
  assumes "ci_dispatch env p2 now name s = Some ((t, e), r)"
  obtains (get) "if_zero (dbgetHandle now s) = Some (t, e)" | (edit) "if_zero (dbEditHandle now s) = Some (t, e)"
    | (ctrl) "if_negative (ctrlHandle env now s) = Some (t, e)" | (cmd) "if_negative (cmdHandle env now s) = Some (t, e)"
    | (lmp) "if_negative (lmpHandle env s) = Some (t, e)" | (grp) "if_negative (grpHandle env s) = Some (t, e)"
    | (sensor) "if_negative (sensorHandle now s) = Some (t, e)" | (topo) ret where "topoHandle env p2 now s = Some (ret, t)"
    | (proc) "if_zero (Some (procHandle s)) = Some (t, e)" | (other) "t = s"
  using assms unfolding ci_dispatch_def Let_def by (auto split: if_splits option.splits prod.splits)

text \<open>The logging of the daemon formats its texts in a buffer of fixed size.\<close>

definition MAX_LOG_BUFFER :: nat where "MAX_LOG_BUFFER = 200"

definition logbuffer_fits :: "string \<Rightarrow> string \<Rightarrow> bool" where
  "logbuffer_fits format text' \<longleftrightarrow> length format + length text' + 1 \<le> MAX_LOG_BUFFER"

lemma logbuffer_fits_short: "length text' \<le> 190 \<Longrightarrow> logbuffer_fits ''Socket - '' text' \<and> logbuffer_fits ''Command: '' text'"
  by (simp add: logbuffer_fits_def MAX_LOG_BUFFER_def)

definition ci_onObjectComplete :: "ci_env \<Rightarrow> parser_data \<Rightarrow> c_int \<Rightarrow> string \<Rightarrow> ci_state \<Rightarrow> ci_state option" where
  "ci_onObjectComplete env p2 now name s = (if \<not> logbuffer_fits ''Command: '' name then None
   else case ci_dispatch env p2 now name s of
     None \<Rightarrow> None
   | Some ((t, error), response) \<Rightarrow>
       (case (if response = None \<and> error \<noteq> IOT_ERROR_NONE then Some (jsonCreateError error) else response) of
          None \<Rightarrow> Some (set_iotError IOT_ERROR_NONE t)
        | Some None \<Rightarrow> None
        | Some (Some m) \<Rightarrow> Some (set_iotError IOT_ERROR_NONE (sendResponse m t))))"

fun ci_callback :: "ci_env \<Rightarrow> parser_data \<Rightarrow> c_int \<Rightarrow> json_event \<Rightarrow> ci_state \<Rightarrow> ci_state option" where
  "ci_callback env p2 now (EvObjectStart name) s = Some (ci_onObjectStart s)"
| "ci_callback env p2 now (EvObjectComplete name) s = ci_onObjectComplete env p2 now name s"
| "ci_callback env p2 now (EvString name val) s = Some (ci_onString name val s)"
| "ci_callback env p2 now (EvInteger name val) s = Some (ci_onInteger name val s)"
| "ci_callback env p2 now _ s = Some s"

fun ci_callbacks :: "ci_env \<Rightarrow> parser_data \<Rightarrow> c_int \<Rightarrow> json_event list \<Rightarrow> ci_state \<Rightarrow> ci_state option" where
  "ci_callbacks env p2 now [] s = Some s"
| "ci_callbacks env p2 now (ev # evs) s =
     (case ci_callback env p2 now ev s of None \<Rightarrow> None | Some t \<Rightarrow> ci_callbacks env p2 now evs t)"

text \<open>
  A client's bytes: every one is made printable and given to the parser, which is reset when
  the client connects; the call-backs do not touch the parser.
\<close>

definition convertPrintable :: "char \<Rightarrow> char" where
  "convertPrintable c = (if (c \<ge> CHR '' '' \<and> c \<le> CHR ''~'') \<or> c = CHR 0x0A \<or> c = CHR 0x0D then c else CHR ''.'')"

text \<open>
  The bytes of the packets the reads return, up to the first read that returns none.  Each packet is
  logged before it is parsed; one that does not fit the log buffer is undefined behaviour,
  whatever was handled before it.
\<close>

fun ci_packets :: "string list \<Rightarrow> string option" where
  "ci_packets [] = Some []"
| "ci_packets (packet # packets) =
     (if packet = [] then Some []
      else let printable = map convertPrintable packet
           in if logbuffer_fits ''Socket - '' printable then map_option ((@) printable) (ci_packets packets) else None)"

definition handleClient :: "ci_env \<Rightarrow> parser_data \<Rightarrow> c_int \<Rightarrow> string list \<Rightarrow> parser_data \<Rightarrow> ci_state \<Rightarrow> ci_state option" where
  "handleClient env p2 now packets p s =
     (let p0 = (jsonReset p)\<lparr>p_trace := []\<rparr>
      in case ci_packets packets of
           None \<Rightarrow> None
         | Some input \<Rightarrow> ci_callbacks env p2 now (p_trace (jsonEats input p0)) (set_iotError IOT_ERROR_NONE s))"

text \<open>A message in packets that fit the log.\<close>

definition packets_of :: "string list \<Rightarrow> string \<Rightarrow> bool" where
  "packets_of packets input \<longleftrightarrow> concat packets = input \<and> (\<forall>p\<in>set packets. p \<noteq> [] \<and> length p \<le> 190)"

lemma ci_packets_of: "packets_of packets input \<Longrightarrow> ci_packets packets = Some (map convertPrintable input)"
  unfolding packets_of_def
proof (induction packets arbitrary: input)
  case (Cons p ps)
  then show ?case using logbuffer_fits_short [of "map convertPrintable p"] by (auto simp: Let_def)
qed simp

lemma packets_of_bytes: "packets_of (map (\<lambda>c. [c]) input) input"
  unfolding packets_of_def by (induction input) auto

section \<open>Registration of the attributes\<close>

definition add_attrs :: "string list \<Rightarrow> (string \<times> c_int) list \<Rightarrow> parsing \<Rightarrow> parsing" where
  "add_attrs is ss p = fold (\<lambda>(k, n) q. snd (parsingAddStringAttr k n q)) ss (fold (\<lambda>k q. snd (parsingAddIntAttr k q)) is p)"

definition dbgetInit :: "parsing \<Rightarrow> parsing" where
  "dbgetInit = add_attrs [''room'', ''ts''] [(''mac'', 16)]"

definition dbEditInit :: "parsing \<Rightarrow> parsing" where
  "dbEditInit = add_attrs [''dev'', ''id'']
     [(''add'', 16), (''rem'', 16), (''ty'', 8), (''clr'', 16), (''table'', 10), (''col'', 10), (''val'', 16)]"

definition ctrlInit :: "parsing \<Rightarrow> parsing" where
  "ctrlInit = add_attrs [''heat'', ''cool'', ''sid'', ''lvl'', ''rgb'', ''kelvin''] [(''mac'', 16), (''cmd'', 4)]"

definition sensorInit :: "parsing \<Rightarrow> parsing" where
  "sensorInit = add_attrs [''xloc'', ''yloc'', ''zloc''] [(''mac'', 16), (''nm'', 16)]"

definition cmdInit :: "parsing \<Rightarrow> parsing" where
  "cmdInit = add_attrs [''reset'', ''resetrsp'', ''getversion'', ''duration'', ''nfcmode'', ''system'']
     [(''chanmask'', 8), (''setpermit'', 16), (''strval'', 38)]"

definition lmpInit :: "parsing \<Rightarrow> parsing" where
  "lmpInit = add_attrs [''grpid'', ''scnid''] [(''mac'', 16), (''grp'', 16), (''scn'', 16)]"

definition topoInit :: "parsing \<Rightarrow> parsing" where
  "topoInit = add_attrs [''sid'', ''room'', ''rm'']
     [(''nm'', 16), (''ty'', 8), (''cmd'', 12), (''man'', 16), (''ui'', 16), (''sen'', 16), (''pmp'', 16), (''lmp'', 16), (''plg'', 16)]"

definition procInit :: "parsing \<Rightarrow> parsing" where
  "procInit = add_attrs [] [(''start'', 16), (''stop'', 16), (''restart'', 16)]"

definition grpInit :: "parsing \<Rightarrow> parsing" where
  "grpInit = add_attrs [''grpid'', ''scnid'', ''lvl'', ''rgb'', ''kelvin'', ''xcr'', ''ycr'']
     [(''mac'', 16), (''cmd'', 16), (''scn'', 16)]"

text \<open>The registrations of \<open>main\<close>.\<close>

definition ci_attrs_start :: parsing where
  "ci_attrs_start = (procInit \<circ> grpInit \<circ> lmpInit \<circ> cmdInit \<circ> sensorInit \<circ> ctrlInit \<circ> dbEditInit \<circ> dbgetInit \<circ> topoInit) parsing_init"

section \<open>Messages without an answer\<close>

text \<open>A handler is silent when it sends the client nothing and its result is not negative.\<close>

definition silent :: "ci_state \<Rightarrow> (c_int \<times> ci_state) option \<Rightarrow> bool" where
  "silent s r \<longleftrightarrow> (\<forall>ret t. r = Some (ret, t) \<longrightarrow> 0 \<le> ret \<and> ci_sent t = ci_sent s)"

lemma sent_simps [simp]:
  "ci_sent (set_iotError e s) = ci_sent s" "ci_sent (set_db m s) = ci_sent s"
  "ci_sent (upcase_attr name s) = ci_sent s" "ci_sent (save_device now d s) = ci_sent s"
  "ci_sent (os_request_all rs s) = ci_sent s"
  by (simp_all add: ci_setters save_device_def os_request_all_def)

lemma sent_post: "post env key message s = Some t \<Longrightarrow> ci_sent t = ci_sent s"
  by (auto simp: post_def split: option.splits)

lemma silent_of_bool:
  "(\<And>t. r = Some t \<Longrightarrow> ci_sent t = ci_sent s) \<Longrightarrow>
   silent s (map_option (\<lambda>t. (of_bool (iotError t = IOT_ERROR_NONE), t)) r)"
  by (auto simp: silent_def)

lemma sent_tunnel: "ctrl_tunnel env man message s = Some t \<Longrightarrow> ci_sent t = ci_sent s"
  by (auto simp: ctrl_tunnel_def split: option.splits if_splits prod.splits)

lemma sent_ctrl_device: "ctrl_device env now mac d s = Some t \<Longrightarrow> ci_sent t = ci_sent s"
  by (auto simp: ctrl_device_def Let_def dest!: sent_post sent_tunnel split: option.splits if_splits)

lemma silent_ctrl: "silent s (ctrlHandle env now s)"
  unfolding ctrlHandle_def Let_def
  by (rule silent_of_bool) (auto dest!: sent_ctrl_device split: option.splits)

lemma silent_lmp: "silent s (lmpHandle env s)"
  unfolding lmpHandle_def Let_def
  by (rule silent_of_bool) (auto dest!: sent_post split: option.splits if_splits)

lemma silent_grp: "silent s (grpHandle env s)"
  unfolding grpHandle_def by (rule silent_of_bool) (auto dest!: sent_post)

lemma silent_sensor: "silent s (sensorHandle now s)"
  by (auto simp: silent_def sensorHandle_def Let_def split: option.splits)

lemma sent_resetrsp: "cmd_resetrsp env val s = Some t \<Longrightarrow> ci_sent t = ci_sent s"
  by (auto simp: cmd_resetrsp_def Let_def dest!: sent_post split: option.splits if_splits)

lemma sent_action: "cmd_action env now s = Some (t, m) \<Longrightarrow> ci_sent t = ci_sent s"
  unfolding cmd_action_def Let_def
  by (auto dest!: sent_post sent_resetrsp split: option.splits if_splits)

lemma silent_cmd: "silent s (cmdHandle env now s)"
  by (auto simp: silent_def cmdHandle_def dest!: sent_post dest: sent_action split: option.splits)

lemma dispatch_silent:
  "silent s r \<Longrightarrow> if_negative r = Some (t, e) \<Longrightarrow> ci_sent t = ci_sent s \<and> e = IOT_ERROR_NONE"
  by (auto simp: silent_def if_negative_def)

lemmas dispatches_silent = dispatch_silent [OF silent_ctrl] dispatch_silent [OF silent_cmd] dispatch_silent [OF silent_lmp]
  dispatch_silent [OF silent_grp] dispatch_silent [OF silent_sensor]

lemma error_no_mac: "jsonCreateError 11 = Some (CHR 0x22 # ''error'' @ CHR 0x22 # '':11'' @ [CHR 0x0A])"
  by code_simp

text \<open>
  The errors of control, command, lamp, group and sensor messages are never reported:
  whatever goes wrong in their handlers, a missing or unknown mac, a queue that cannot be
  opened or a message that is too long, the client is sent nothing and the error number is
  cleared, because the dispatch tests the handlers' results with \<open>< 0\<close> while they return 0 for
  an error and 1 for success.  A database request without a mac does get its error message.
\<close>

theorem ci_errors_unanswered:
  assumes "name \<in> {''ctrl'', ''cmd'', ''lmp'', ''grp'', ''sensor''}"
    and "ci_onObjectComplete env p2 now name s = Some t"
  shows "ci_sent t = ci_sent s \<and> iotError t = IOT_ERROR_NONE
    \<and> (attr0 s ''mac'' = None \<longrightarrow> (\<exists>m u. jsonCreateError IOT_ERROR_NO_MAC = Some m \<and> ci_onObjectComplete env p2 now ''dbget'' s = Some u
          \<and> ci_sent u = ci_sent s @ m))"
proof -
  obtain t' e resp where d: "ci_dispatch env p2 now name s = Some ((t', e), resp)"
    using assms(2) by (auto simp: ci_onObjectComplete_def split: option.splits if_splits)
  consider "name = ''ctrl''" | "name = ''cmd''" | "name = ''lmp''" | "name = ''grp''" | "name = ''sensor''"
    using assms(1) by blast
  then have "ci_sent t' = ci_sent s \<and> e = IOT_ERROR_NONE \<and> resp = None"
    using d by cases (auto simp: ci_dispatch_def dest!: dispatches_silent)
  with assms(2) d have "ci_sent t = ci_sent s \<and> iotError t = IOT_ERROR_NONE"
    by (auto simp: ci_onObjectComplete_def set_iotError_def split: if_splits)
  then show ?thesis
    using error_no_mac logbuffer_fits_short [of "''dbget''"]
    by (simp add: ci_onObjectComplete_def ci_dispatch_def dbgetHandle_def if_zero_def sendResponse_def set_iotError_def ci_codes)
qed

theorem ci_errors_unanswered_witness:
  "\<exists>p t. ci_onObjectComplete example_env p 0 ''ctrl'' example_state = Some t \<and> ci_sent t = []"
proof -
  have "\<exists>t. ci_onObjectComplete example_env p 0 ''ctrl'' example_state = Some t" for p
    using logbuffer_fits_short [of "''ctrl''"]
    by (simp add: ci_onObjectComplete_def ci_dispatch_def ctrlHandle_def if_negative_def example_state_def parsing_init_def
        parsingGetStringAttr0_def set_iotError_def)
  from this [of undefined] show ?thesis
    using ci_errors_unanswered [of "''ctrl''" example_env undefined 0 example_state]
    by (auto simp: example_state_def parsing_init_def parsingGetStringAttr0_def)
qed

end
