(* ===== verification/ControlTyped.thy ===== *)
theory ControlTyped
  imports ControlIface
begin

text \<open>
  What every message keeps, whatever a client sends: the rows of the device and system tables
  carry their indexes and distinct keys and every text fits its field, and the attribute
  tables are well formed.
\<close>

section \<open>The database\<close>

abbreviation dev_ok :: "newdb option \<Rightarrow> bool" where
  "dev_ok m \<equiv> stored_inv dev_rows dev_mac dev_id NEWDB_MAX_DEVICES m \<and> rows_typed dev_rows dev_typed m"

abbreviation sys_ok :: "newdb option \<Rightarrow> bool" where
  "sys_ok m \<equiv> stored_inv sys_rows sys_name sys_id NEWDB_MAX_SYSTEM m \<and> rows_typed sys_rows sys_typed m"

definition db_typed :: "newdb option \<Rightarrow> bool" where
  "db_typed m \<longleftrightarrow> dev_ok m \<and> sys_ok m"

lemma db_typed_dev: "db_typed m \<Longrightarrow> dev_ok m' \<Longrightarrow> sys_rows m' = sys_rows m \<Longrightarrow> db_typed m'"
  by (simp add: db_typed_def stored_inv_def rows_typed_def)

lemma db_typed_sys: "db_typed m \<Longrightarrow> sys_ok m' \<Longrightarrow> dev_rows m' = dev_rows m \<Longrightarrow> db_typed m'"
  by (simp add: db_typed_def stored_inv_def rows_typed_def)

lemma db_typed_same: "db_typed m \<Longrightarrow> dev_rows m' = dev_rows m \<Longrightarrow> sys_rows m' = sys_rows m \<Longrightarrow> db_typed m'"
  by (simp add: db_typed_def stored_inv_def rows_typed_def)

lemma sys_rows_frame [simp]:
  "sys_rows (snd (newDbSetDevice now d m)) = sys_rows m"
  "sys_rows (snd (newDbGetNewDevice now k m)) = sys_rows m"
  "sys_rows (snd (newDbDeleteDevice now k m)) = sys_rows m"
  "sys_rows (snd (newDbEmptyDevices now mode m)) = sys_rows m"
  "sys_rows (snd (newDbDevicesSetClearFlag m)) = sys_rows m"
  "sys_rows (snd (newDbDevicesRemoveWithClearFlag m)) = sys_rows m"
  by (cases m; auto simp: with_db_def dev_written_def newDbSetDevice_def newDbGetNewDevice_def newDbDeleteDevice_def
      newDbEmptyDevices_def newDbDevicesSetClearFlag_def newDbDevicesRemoveWithClearFlag_def Let_def split: option.splits)+

lemma dev_rows_frame [simp]:
  "dev_rows (snd (newDbSetSystem now d m)) = dev_rows m"
  "dev_rows (snd (newDbGetNewSystem now k m)) = dev_rows m"
  "dev_rows (snd (newDbDeleteSystem now k m)) = dev_rows m"
  "dev_rows (snd (newDbEmptySystem now m)) = dev_rows m"
  by (cases m; auto simp: with_db_def sys_written_def newDbSetSystem_def newDbGetNewSystem_def newDbDeleteSystem_def
      newDbEmptySystem_def Let_def split: option.splits)+

lemma other_tables_frame [simp]:
  "dev_rows (snd (newDbEmptyPlugHist now m)) = dev_rows m" "sys_rows (snd (newDbEmptyPlugHist now m)) = sys_rows m"
  "dev_rows (snd (newDbEmptyZcb now m)) = dev_rows m" "sys_rows (snd (newDbEmptyZcb now m)) = sys_rows m"
  by (cases m; simp add: with_db_def newDbEmptyPlugHist_def newDbEmptyZcb_def ph_written_def zcb_written_def)+

text \<open>Storing a row that was found under a key, or under an index.\<close>

lemma typed_set_found:
  assumes "db_typed m" and "newDbGetDevice k m = Some d" and "k \<noteq> []" and "dev_id d' = dev_id d" and "dev_mac d' = dev_mac d"
    and "dev_typed d \<Longrightarrow> dev_typed d'"
  shows "db_typed (snd (newDbSetDevice now d' m))"
proof -
  have m: "dev_ok m" using assms(1) by (simp add: db_typed_def)
  have "dev_typed d'" using m assms(3,2,6) by (rule devices.typed_get)
  from devices.typed_found [OF m assms(3,2,4,5) this, of now] show ?thesis by (rule db_typed_dev [OF assms(1)]) simp
qed

lemma typed_set_id:
  assumes "db_typed m" and "newDbGetDeviceId i m = Some d" and "dev_id d' = dev_id d" and "dev_mac d' = dev_mac d"
    and "dev_typed d \<Longrightarrow> dev_typed d'"
  shows "db_typed (snd (newDbSetDevice now d' m))"
proof -
  have m: "dev_ok m" using assms(1) by (simp add: db_typed_def)
  from assms(2) obtain db where db: "m = Some db" "0 \<le> i" "i < int NEWDB_MAX_DEVICES" "d = db_devices db ! nat i"
    by (auto simp: newDbGetDeviceId_def split: option.splits if_splits)
  have rows: "dev_rows m = Some (db_devices db)" using db(1) by simp
  obtain rs where rs: "dev_rows m = Some rs" "length rs = NEWDB_MAX_DEVICES" "row_unique dev_mac rs"
    "\<forall>i<NEWDB_MAX_DEVICES. dev_id (rs ! i) = int i" "\<forall>r\<in>set rs. dev_typed r"
    using m by (rule devices.typedE)
  have idx: "nat i < NEWDB_MAX_DEVICES" using db(2,3) by simp
  have d: "dev_id d' = int (nat i)" "dev_mac d' = dev_mac (db_devices db ! nat i)" "dev_typed d'"
    using rs idx assms(3-5) db(4) rows by auto
  from devices.typed_put [OF m rows idx d, of now] show ?thesis by (rule db_typed_dev [OF assms(1)]) simp
qed

lemma typed_set_new:
  assumes "db_typed m" and "newDbGetDevice k m = None" and "newDbGetNewDevice now k m = (Some d, m')" and "ok_mac_key k"
    and "dev_id d' = dev_id d" and "dev_mac d' = dev_mac d" and "dev_typed d \<Longrightarrow> dev_typed d'"
  shows "db_typed (snd (newDbSetDevice now d' m'))"
proof -
  have m: "dev_ok m" using assms(1) by (simp add: db_typed_def)
  have "sys_rows m' = sys_rows m" using sys_rows_frame(2) [of now k m] assms(3) by simp
  with devices.typed_new [OF m assms(4,2,3,5,6,7)] show ?thesis by (intro db_typed_dev [OF assms(1)]) simp_all
qed

lemma typed_no_new:
  assumes "db_typed m" and "newDbGetNewDevice now k m = (None, m')" and "ok_mac_key k"
  shows "m' = m"
proof -
  have m: "dev_ok m" using assms(1) by (simp add: db_typed_def)
  from devices.typed_new_none [OF m assms(3,2)] show ?thesis .
qed

lemma dev_typed_delete:
  assumes "db_typed m" and "ok_mac_key k"
  shows "db_typed (snd (newDbDeleteDevice now k m))"
proof -
  have m: "dev_ok m" using assms(1) by (simp add: db_typed_def)
  from devices.typed_delete [OF m assms(2), of now] show ?thesis by (rule db_typed_dev [OF assms(1)]) simp
qed

text \<open>All rows rewritten at once.\<close>

lemma rows_ok_replaced:
  assumes "stored_inv rows key ident n m" and "rows_typed rows ok m" and "rows m = Some rs" and "rows m' = Some rs'"
    and "length rs' = length rs"
    and "\<And>i. i < n \<Longrightarrow> (key (rs' ! i) = key (rs ! i) \<or> key (rs' ! i) = []) \<and> (ident (rs ! i) = int i \<longrightarrow> ident (rs' ! i) = int i)
      \<and> (ok (rs ! i) \<longrightarrow> ok (rs' ! i))"
  shows "stored_inv rows key ident n m' \<and> rows_typed rows ok m'"
proof
  from stored_invE [OF assms(1)] assms(3) have rs: "length rs = n" "\<forall>i<n. ident (rs ! i) = int i" by auto
  then show "stored_inv rows key ident n m'"
    using assms(6) by (intro stored_replaced [OF assms(1,3,4,5)]) blast
  have "\<forall>r\<in>set rs. ok r" using assms(2,3) unfolding rows_typed_def by blast
  then have "ok (rs' ! i)" if "i < length rs'" for i using assms(5,6) rs(1) that by simp
  then show "rows_typed rows ok m'" unfolding rows_typed_def assms(4) by (auto simp: in_set_conv_nth)
qed

lemma typed_devices_replaced:
  assumes "db_typed (Some db)" and "length (db_devices db') = length (db_devices db)" and "db_system db' = db_system db"
    and "\<And>i. i < NEWDB_MAX_DEVICES \<Longrightarrow> (dev_mac (db_devices db' ! i) = dev_mac (db_devices db ! i) \<or> dev_mac (db_devices db' ! i) = [])
      \<and> (dev_id (db_devices db ! i) = int i \<longrightarrow> dev_id (db_devices db' ! i) = int i) \<and> (dev_typed (db_devices db ! i) \<longrightarrow> dev_typed (db_devices db' ! i))"
  shows "db_typed (Some db')"
proof -
  have m: "dev_ok (Some db)" using assms(1) by (simp add: db_typed_def)
  have "dev_ok (Some db')"
    by (rule rows_ok_replaced [OF conjunct1 [OF m] conjunct2 [OF m], where rs = "db_devices db" and rs' = "db_devices db'"])
      (use assms in auto)
  then show ?thesis using assms(3) by (intro db_typed_dev [OF assms(1)]) simp_all
qed

lemma db_typedE:
  assumes "db_typed m"
  obtains db where "m = Some db" "length (db_devices db) = NEWDB_MAX_DEVICES" "length (db_system db) = NEWDB_MAX_SYSTEM"
proof -
  have "dev_ok m" "sys_ok m" using assms by (simp_all add: db_typed_def)
  with that show ?thesis by (cases m) (auto simp: stored_inv_def)
qed

lemma typed_empty:
  assumes "db_typed m"
  shows "db_typed (snd (newDbEmptyDevices now mode m))"
proof -
  obtain db where db: "m = Some db" "length (db_devices db) = NEWDB_MAX_DEVICES" using assms by (rule db_typedE)
  show ?thesis
    using assms unfolding db(1) newDbEmptyDevices_def with_db_def option.case prod.case snd_conv
    by (rule typed_devices_replaced) (auto simp: dev_written_def Let_def dev_typed_def db(2))
qed

lemma typed_set_flag:
  assumes "db_typed m"
  shows "db_typed (snd (newDbDevicesSetClearFlag m))"
proof -
  obtain db where db: "m = Some db" "length (db_devices db) = NEWDB_MAX_DEVICES" using assms by (rule db_typedE)
  show ?thesis
    using assms unfolding db(1) newDbDevicesSetClearFlag_def with_db_def option.case prod.case snd_conv
    by (rule typed_devices_replaced) (auto simp: dev_typed_def db(2))
qed

lemma typed_remove_flagged:
  assumes "db_typed m"
  shows "db_typed (snd (newDbDevicesRemoveWithClearFlag m))"
proof -
  obtain db where db: "m = Some db" "length (db_devices db) = NEWDB_MAX_DEVICES" using assms by (rule db_typedE)
  show ?thesis
    using assms unfolding db(1) newDbDevicesRemoveWithClearFlag_def with_db_def option.case prod.case snd_conv
    by (rule typed_devices_replaced) (auto simp: dev_typed_def db(2))
qed

text \<open>The system table.\<close>

lemma typed_empty_system:
  assumes "db_typed m"
  shows "db_typed (snd (newDbEmptySystem now m))"
proof -
  obtain db where db: "m = Some db" "length (db_devices db) = NEWDB_MAX_DEVICES" "length (db_system db) = NEWDB_MAX_SYSTEM"
    using assms by (rule db_typedE)
  have m: "sys_ok m" using assms by (simp add: db_typed_def)
  let ?rows = "map (\<lambda>i. (db_system db ! i)\<lparr>sys_id := int i, sys_name := []\<rparr>) [0..<length (db_system db)]"
  have "sys_ok (snd (newDbEmptySystem now m))"
    by (rule rows_ok_replaced [OF conjunct1 [OF m] conjunct2 [OF m], where rs = "db_system db" and rs' = ?rows])
      (auto simp: db newDbEmptySystem_def with_db_def sys_written_def sys_typed_def)
  then show ?thesis by (rule db_typed_sys [OF assms]) simp
qed

lemma typed_save:
  assumes "db_typed m" and "ok_name_key k" and "\<And>r. sys_id (f r) = sys_id r \<and> sys_name (f r) = sys_name r \<and> (sys_typed r \<longrightarrow> sys_typed (f r))"
  shows "db_typed (snd (system_save f now k m))"
proof -
  have m: "sys_ok m" using assms(1) by (simp add: db_typed_def)
  have "dev_rows (snd (system_save f now k m)) = dev_rows m"
    using dev_rows_frame(2) [of now k m]
    by (cases "newDbGetNewSystem now k m") (simp add: system_save_def table_upsert_def split: option.split)
  with systems.typed_upsert [OF m assms(2), of f f now] assms(3) show ?thesis
    by (intro db_typed_sys [OF assms(1)]) (simp_all add: system_save_def)
qed

lemma typed_save_int:
  "db_typed m \<Longrightarrow> ok_name_key k \<Longrightarrow> db_typed (snd (newDbSystemSaveIntval now k v m))"
  unfolding newDbSystemSaveIntval_def by (rule typed_save) (simp_all add: sys_typed_def)

lemma typed_delete_system:
  assumes "db_typed m" and "ok_name_key k"
  shows "db_typed (snd (newDbDeleteSystem now k m))"
proof -
  have m: "sys_ok m" using assms(1) by (simp add: db_typed_def)
  from systems.typed_delete [OF m assms(2), of now] show ?thesis by (rule db_typed_sys [OF assms(1)]) simp
qed

section \<open>The attributes\<close>

text \<open>The attributes that name a row of the device table are limited to the length of a mac.\<close>

definition mac_attrs :: "string list" where
  "mac_attrs = [''add'', ''rem'', ''man'', ''ui'', ''sen'', ''pmp'', ''lmp'', ''plg'']"

definition attr_ok :: "stringattr \<Rightarrow> bool" where
  "attr_ok a \<longleftrightarrow> int (length (sa_value a)) \<le> sa_maxlen a \<and> (sa_name a \<in> set mac_attrs \<longrightarrow> sa_maxlen a \<le> 16)"

definition attrs_ok :: "parsing \<Rightarrow> bool" where
  "attrs_ok p \<longleftrightarrow> (\<forall>a\<in>set (parsingStringAttrs p). attr_ok a)"

definition ci_ok :: "ci_state \<Rightarrow> bool" where
  "ci_ok s \<longleftrightarrow> attrs_ok (ci_attrs s) \<and> db_typed (ci_db s)"

lemma attr0_value:
  assumes "parsingGetStringAttr0 p name = Some v"
  shows "\<exists>a\<in>set (parsingStringAttrs p). sa_name a = name \<and> sa_value a = v \<and> v \<noteq> []"
  using assms unfolding parsingGetStringAttr0_def
  by (auto simp: first_idx_Some_iff Let_def split: option.splits if_splits)

lemma attr0_mac:
  assumes "attrs_ok p" and "parsingGetStringAttr0 p name = Some v" and "name \<in> set mac_attrs"
  shows "ok_mac_key v"
proof -
  from attr0_value [OF assms(2)] obtain a where "a \<in> set (parsingStringAttrs p)" "sa_name a = name" "sa_value a = v" "v \<noteq> []" by blast
  with assms(1,3) show ?thesis by (auto simp: attrs_ok_def attr_ok_def LEN_MAC_NIBBLE_def)
qed

lemma ok_upper [simp]: "strtoupper k = [] \<longleftrightarrow> k = []" "length (strtoupper k) = length k"
  by (simp_all add: strtoupper_map)

lemma attrs_ok_reset: "attrs_ok p \<Longrightarrow> attrs_ok (parsingReset p)"
  by (fastforce simp: attrs_ok_def attr_ok_def parsingReset_def)

lemma attrs_ok_int: "attrs_ok p \<Longrightarrow> attrs_ok (snd (parsingIntAttr name val p))"
  by (auto simp: attrs_ok_def parsingIntAttr_def split: option.split)

lemma attrs_ok_string:
  assumes "attrs_ok p"
  shows "attrs_ok (snd (parsingStringAttr name val p))"
proof (cases "first_idx (\<lambda>a. sa_name a = name \<and> fits_maxlen (sa_maxlen a) val) (parsingStringAttrs p)")
  case (Some i)
  let ?a = "parsingStringAttrs p ! i"
  from Some have i: "i < length (parsingStringAttrs p)" "fits_maxlen (sa_maxlen ?a) val" by (auto simp: first_idx_Some_iff)
  have all: "\<forall>a\<in>set (parsingStringAttrs p). attr_ok a" using assms by (simp add: attrs_ok_def)
  have "attr_ok ?a" using all i(1) by simp
  then have "attr_ok (?a\<lparr>sa_value := val\<rparr>)" using i(2) by (auto simp: attr_ok_def fits_maxlen_def)
  from all_rows_update [OF all this, of i] Some show ?thesis by (simp add: parsingStringAttr_def attrs_ok_def)
qed (use assms in \<open>simp add: parsingStringAttr_def\<close>)

lemma ci_ok_simps [simp]:
  "ci_ok (set_iotError e s) = ci_ok s" "ci_ok (os_request_all rs s) = ci_ok s" "ci_ok (sendResponse r s) = ci_ok s"
  "ci_ok (s\<lparr>ci_ipc := q\<rparr>) = ci_ok s" "ci_ok (s\<lparr>ci_topo := v\<rparr>) = ci_ok s"
  "ci_ok s \<Longrightarrow> ci_ok (set_db m s) = db_typed m"
  by (simp_all add: ci_ok_def ci_setters os_request_all_def sendResponse_def)

lemma ci_state_simps [simp]:
  "ci_attrs (set_iotError e s) = ci_attrs s" "ci_attrs (os_request_all rs s) = ci_attrs s" "ci_attrs (set_db m s) = ci_attrs s"
  "ci_db (set_iotError e s) = ci_db s" "ci_db (os_request_all rs s) = ci_db s" "ci_db (set_db m s) = m"
  "ci_db (upcase_attr name s) = ci_db s"
  by (simp_all add: ci_setters os_request_all_def)

lemma ci_ok_upcase [simp]: "ci_ok s \<Longrightarrow> ci_ok (upcase_attr name s)"
  by (fastforce simp: ci_ok_def attrs_ok_def attr_ok_def upcase_attr_def)

lemma ci_okD: "ci_ok s \<Longrightarrow> attrs_ok (ci_attrs s) \<and> db_typed (ci_db s)"
  by (simp add: ci_ok_def)

lemma ci_ok_post: "post env key message s = Some t \<Longrightarrow> ci_ok t = ci_ok s \<and> ci_db t = ci_db s \<and> ci_attrs t = ci_attrs s"
  by (auto simp: post_def split: option.splits)

section \<open>The handlers\<close>

lemma ci_ok_tunnel: "ctrl_tunnel env man message s = Some t \<Longrightarrow> ci_ok t = ci_ok s"
  by (auto simp: ctrl_tunnel_def split: option.splits if_splits prod.splits)

lemma ci_ok_save_device:
  "ci_ok s \<Longrightarrow> newDbGetDevice k (ci_db s) = Some d \<Longrightarrow> k \<noteq> [] \<Longrightarrow> dev_id d' = dev_id d \<Longrightarrow> dev_mac d' = dev_mac d \<Longrightarrow>
   (dev_typed d \<Longrightarrow> dev_typed d') \<Longrightarrow> ci_ok (save_device now d' s)"
  using typed_set_found [of "ci_db s" k d d' now] by (simp add: save_device_def ci_ok_def)

text \<open>What the handlers change of a row keeps its index, its mac and the lengths of its texts.\<close>

lemma dev_changes [simp]:
  "dev_id (ctrl_ui_device heat cool d) = dev_id d" "dev_mac (ctrl_ui_device heat cool d) = dev_mac d"
  "dev_id (ctrl_lamp_device cmd lvl rgb kelvin d) = dev_id d" "dev_mac (ctrl_lamp_device cmd lvl rgb kelvin d) = dev_mac d"
  "dev_id (sensor_device nm x y z d) = dev_id d" "dev_mac (sensor_device nm x y z d) = dev_mac d"
  "dev_id (device_defaults dev ty d) = dev_id d" "dev_mac (device_defaults dev ty d) = dev_mac d"
  by (simp_all add: ctrl_ui_device_def ctrl_lamp_device_def sensor_device_def device_defaults_def Let_def split: option.split)

lemma dev_typed_changes [simp]:
  "dev_typed d \<Longrightarrow> dev_typed (ctrl_ui_device heat cool d)"
  "dev_typed d \<Longrightarrow> dev_typed (ctrl_lamp_device cmd lvl rgb kelvin d)"
  "dev_typed d \<Longrightarrow> dev_typed (sensor_device nm x y z d)"
  by (simp_all add: dev_typed_def ctrl_ui_device_def ctrl_lamp_device_def sensor_device_def newDbStrNcpy_def Let_def split: option.split)

lemma dev_typed_defaults [simp]: "dev_typed d \<Longrightarrow> dev_typed (device_defaults dev ty d)"
  by (simp add: dev_typed_def device_defaults_def newDbStrNcpy_def Let_def LEN_NM_def LEN_CMD_def)

lemma ci_ok_ctrl_device:
  assumes "ci_ok s" and "newDbGetDevice mac (ci_db s) = Some d" and "mac \<noteq> []" and "ctrl_device env now mac d s = Some t"
  shows "ci_ok t"
proof -
  have cmd: "dev_typed d \<Longrightarrow> dev_typed (d\<lparr>dev_cmd := newDbStrNcpy c LEN_CMD\<rparr>)" for c by (simp add: dev_typed_def newDbStrNcpy_def)
  have save: "ci_ok (save_device now d' u)" if "ci_db u = ci_db s" "ci_attrs u = ci_attrs s" "dev_id d' = dev_id d" "dev_mac d' = dev_mac d"
    "dev_typed d \<Longrightarrow> dev_typed d'" for d' u
    by (rule ci_ok_save_device [of _ mac d]) (use that assms(1-3) in \<open>auto simp: ci_ok_def\<close>)
  show ?thesis
    using assms(1,4) unfolding ctrl_device_def Let_def
    by (auto simp: save cmd dest!: ci_ok_tunnel ci_ok_post split: if_splits option.splits)
qed

lemma ci_ok_ctrl: "ci_ok s \<Longrightarrow> ctrlHandle env now s = Some (ret, t) \<Longrightarrow> ci_ok t"
  by (auto simp: ctrlHandle_def Let_def split: option.splits dest!: ci_ok_ctrl_device [rotated -1] attr0_value)

lemma ci_ok_lmp: "ci_ok s \<Longrightarrow> lmpHandle env s = Some (ret, t) \<Longrightarrow> ci_ok t"
  by (auto simp: lmpHandle_def Let_def dest!: ci_ok_post split: option.splits if_splits)

lemma ci_ok_grp: "ci_ok s \<Longrightarrow> grpHandle env s = Some (ret, t) \<Longrightarrow> ci_ok t"
  by (auto simp: grpHandle_def dest!: ci_ok_post)

lemma ci_ok_sensor: "ci_ok s \<Longrightarrow> sensorHandle now s = Some (ret, t) \<Longrightarrow> ci_ok t"
  by (auto simp: sensorHandle_def Let_def split: option.splits dest: attr0_value intro!: ci_ok_save_device)

lemma ci_ok_add:
  assumes "ci_ok s" and "ok_mac_key mac"
  shows "db_typed (snd (dbEditAdd now mac dev ty (ci_db s)))"
proof -
  have m: "db_typed (ci_db s)" using assms(1) by (simp add: ci_ok_def)
  have "db_typed (snd (newDbSetDevice now
      ((device_defaults dev ty (d\<lparr>dev_dev := dev, dev_par := 0, dev_ty := newDbStrNcpy ty LEN_TY\<rparr>))\<lparr>dev_flags := FLAG_ADDED_BY_GW\<rparr>) m'))"
    if "newDbGetDevice mac (ci_db s) = None" "newDbGetNewDevice now mac (ci_db s) = (Some d, m')" for d m'
  proof -
    have "dev_typed (d\<lparr>dev_dev := dev, dev_par := 0, dev_ty := newDbStrNcpy ty LEN_TY\<rparr>)" if "dev_typed d"
      using that by (simp add: dev_typed_def newDbStrNcpy_def)
    from dev_typed_defaults [OF this] show ?thesis
      by (intro typed_set_new [OF m that assms(2)]) (simp_all add: dev_typed_def)
  qed
  moreover have "db_typed m'" if "newDbGetNewDevice now mac (ci_db s) = (None, m')" for m'
    using typed_no_new [OF m that assms(2)] m by simp
  ultimately show ?thesis
    using m by (simp add: dbEditAdd_def split: option.split prod.split)
qed

lemma ci_ok_clear: "db_typed m \<Longrightarrow> db_typed (dbEditClear now clr m)"
  using db_typed_same [of m "snd (newDbEmptyPlugHist now m)"] db_typed_same [of m "snd (newDbEmptyZcb now m)"]
    db_typed_same [of "snd (newDbEmptyDevices now MODE_DEV_EMPTY_ALL m)" "snd (newDbEmptyPlugHist now (snd (newDbEmptyDevices now MODE_DEV_EMPTY_ALL m)))"]
  by (simp add: dbEditClear_def typed_empty typed_empty_system)

lemma ci_ok_tableEdit:
  assumes "db_typed m"
  shows "db_typed (snd (tableEdit now table i col val m))"
proof (cases "newDbGetDeviceId i m")
  case (Some d)
  have "db_typed (snd (newDbSetDevice now (if col = ''par'' then d\<lparr>dev_par := Atoi0 (Some val)\<rparr> else d) m))"
    by (rule typed_set_id [OF assms Some]) (simp_all add: dev_typed_def)
  with assms show ?thesis by (simp add: tableEdit_def Some)
qed (use assms in \<open>simp add: tableEdit_def\<close>)

lemma ci_ok_edit:
  assumes "ci_ok s" and "dbEditHandle now s = Some (ret, t)"
  shows "ci_ok t"
proof -
  have attrs: "attrs_ok (ci_attrs s)" and m: "db_typed (ci_db s)" using assms(1) by (simp_all add: ci_ok_def)
  have mac: "name \<in> set mac_attrs \<Longrightarrow> attr0 s name = Some v \<Longrightarrow> ok_mac_key v" for name v
    using attr0_mac [OF attrs] by blast
  have add: "attr0 s ''add'' = Some v \<Longrightarrow> db_typed (snd (dbEditAdd now v dev ty (ci_db s)))" for v dev ty
    using ci_ok_add [OF assms(1), of v] mac [of "''add''" v] by (simp add: mac_attrs_def)
  have rem: "attr0 s ''rem'' = Some v \<Longrightarrow> db_typed (snd (newDbDeleteDevice now v (ci_db s)))" for v
    using dev_typed_delete [OF m, of v] mac [of "''rem''" v] by (simp add: mac_attrs_def)
  from dbEditHandle_result [OF assms(2)] obtain e m' where act: "dbEdit_action now s = Some (e, m')"
    and t: "t = (if e \<noteq> IOT_ERROR_NONE then set_iotError e (set_db m' s) else set_db m' s)" by blast
  have "db_typed m'"
  proof (cases "attr0 s ''add''")
    case (Some v)
    have "db_typed m'" if "dbEditAdd now v (attri s ''dev'') ty (ci_db s) = (e, m')" for ty
      using add [OF Some, of "attri s ''dev''" ty] that by simp
    with act m show ?thesis by (auto simp: dbEdit_action_def Some split: option.splits if_splits)
  next
    case no_add: None
    show ?thesis
    proof (cases "attr0 s ''rem''")
      case (Some v)
      have "db_typed m'" if "newDbDeleteDevice now v (ci_db s) = (ok, m')" for ok
        using rem [OF Some] that by simp
      with act show ?thesis by (auto simp: dbEdit_action_def no_add Some split: prod.splits)
    next
      case None
      with act m no_add show ?thesis
        by (auto simp: dbEdit_action_def ci_ok_clear [OF m] ci_ok_tableEdit [OF m] split: option.splits)
    qed
  qed
  then show ?thesis using assms(1) by (simp add: t)
qed

lemma ci_ok_get: "ci_ok s \<Longrightarrow> dbgetHandle now s = Some (ret, t) \<Longrightarrow> ci_ok t"
  by (auto simp: dbgetHandle_def Let_def split: option.splits sum.splits if_splits)

lemma ci_ok_proc: "ci_ok s \<Longrightarrow> ci_ok (snd (procHandle s))"
  by (auto simp: procHandle_def split: option.split)

lemma ci_ok_resetrsp: "cmd_resetrsp env val s = Some t \<Longrightarrow> ci_ok t = ci_ok s"
  by (auto simp: cmd_resetrsp_def Let_def dest!: ci_ok_post split: option.splits if_splits)

lemma ci_ok_action: "ci_ok s \<Longrightarrow> cmd_action env now s = Some (t, m) \<Longrightarrow> ci_ok t"
  unfolding cmd_action_def Let_def
  by (auto simp: ci_ok_def typed_save_int typed_delete_system LEN_NM_def dest!: ci_ok_post ci_ok_resetrsp split: option.splits if_splits)

lemma ci_ok_cmd: "ci_ok s \<Longrightarrow> cmdHandle env now s = Some (ret, t) \<Longrightarrow> ci_ok t"
  by (auto simp: cmdHandle_def dest!: ci_ok_post dest: ci_ok_action split: option.splits)

section \<open>Topology messages\<close>

lemma typed_add_node:
  assumes "db_typed m" and "ok_mac_key mac"
    and "\<And>d. dev_id (found d) = dev_id d \<and> dev_mac (found d) = dev_mac d \<and> (dev_typed d \<longrightarrow> dev_typed (found d))"
    and "\<And>d. dev_id (fresh d) = dev_id d \<and> dev_mac (fresh d) = dev_mac d \<and> (dev_typed d \<longrightarrow> dev_typed (fresh d))"
  shows "db_typed (snd (add_node found store fresh now mac m))"
proof -
  have mac: "mac \<noteq> []" using assms(2) by simp
  have "db_typed (snd (newDbSetDevice now (found d) m))" if "newDbGetDevice mac m = Some d" for d
    by (rule typed_set_found [OF assms(1) that mac]) (simp_all add: assms(3))
  moreover have "db_typed (snd (newDbSetDevice now (fresh d) m'))"
    if "newDbGetDevice mac m = None" "newDbGetNewDevice now mac m = (Some d, m')" for d m'
    by (rule typed_set_new [OF assms(1) that assms(2)]) (simp_all add: assms(4))
  moreover have "db_typed m'" if "newDbGetNewDevice now mac m = (None, m')" for m'
    using typed_no_new [OF assms(1) that assms(2)] assms(1) by simp
  ultimately show ?thesis using assms(1) by (simp add: add_node_def split: option.split prod.split)
qed

lemmas node_changes = confirm_def typed_def lamp_defaults_def dev_typed_def newDbStrNcpy_def LEN_CMD_def

lemma typed_adds:
  assumes "db_typed m" and "ok_mac_key mac"
  shows "db_typed (snd (addManager now mac nm ty m))" "db_typed (snd (addUi now mac nm i m))"
    "db_typed (snd (addSensor now mac nm i m))" "db_typed (snd (addPump now mac nm i sid m))"
    "db_typed (snd (addPlug now mac nm m))"
  unfolding addManager_def addUi_def addSensor_def addPump_def addPlug_def
  by (rule typed_add_node [OF assms]; auto simp: node_changes split: option.split)+

lemma typed_addLamp:
  assumes "db_typed m" and "ok_mac_key mac" and "addLamp now mac nm ty m = Some r"
  shows "db_typed (snd r)"
proof -
  have "db_typed (snd (add_node
        (\<lambda>d. confirm (typed ty (named nm (d\<lparr>dev_dev := DEVICE_DEV_LAMP\<rparr>)))) (\<lambda>d. True)
        (\<lambda>d. (lamp_defaults (the ty) (commanded ''on'' (typed ty (named nm (d\<lparr>dev_dev := DEVICE_DEV_LAMP\<rparr>)))))\<lparr>dev_flags := 0\<rparr>)
        now mac m))"
    by (rule typed_add_node [OF assms(1,2)]) (auto simp: node_changes split: option.split)
  with assms(3) show ?thesis unfolding addLamp_def by (simp split: if_splits)
qed

lemma ci_ok_topo_add:
  assumes "ci_ok s" and "topo_add now nm s = Some t"
  shows "ci_ok t"
proof -
  have attrs: "attrs_ok (ci_attrs s)" and m: "db_typed (ci_db s)" using assms(1) by (simp_all add: ci_ok_def)
  have mac: "ok_mac_key (strtoupper v)" if "attr0 s name = Some v" "name \<in> set mac_attrs" for name v
    using attr0_mac [OF attrs that] by simp
  note simps = topo_add_def Let_def case_prod_beta mac_attrs_def
  show ?thesis
  proof (cases "attr0 s ''man''")
    case (Some v)
    with assms(2) mac [OF Some] show ?thesis by (auto simp: assms(1) simps typed_adds [OF m])
  next
    case man: None
    show ?thesis
    proof (cases "attr0 s ''ui''")
      case (Some v)
      with assms(2) man mac [OF Some] show ?thesis by (auto simp: assms(1) simps typed_adds [OF m])
    next
      case ui: None
      show ?thesis
      proof (cases "attr0 s ''sen''")
        case (Some v)
        with assms(2) man ui mac [OF Some] show ?thesis by (auto simp: assms(1) simps typed_adds [OF m])
      next
        case sen: None
        show ?thesis
        proof (cases "attr0 s ''pmp''")
          case (Some v)
          with assms(2) man ui sen mac [OF Some] show ?thesis by (auto simp: assms(1) simps typed_adds [OF m])
        next
          case pmp: None
          show ?thesis
          proof (cases "attr0 s ''lmp''")
            case (Some v)
            with assms(2) man ui sen pmp mac [OF Some] show ?thesis by (auto simp: assms(1) simps dest: typed_addLamp [OF m, rotated])
          next
            case lmp: None
            show ?thesis
            proof (cases "attr0 s ''plg''")
              case (Some v)
              with assms(2) man ui sen pmp lmp mac [OF Some] show ?thesis by (auto simp: assms(1) simps typed_adds [OF m])
            qed (use assms man ui sen pmp lmp in \<open>simp add: simps\<close>)
          qed
        qed
      qed
    qed
  qed
qed

text \<open>The other processes keep the tables too.\<close>

definition others_ok :: "ci_env \<Rightarrow> bool" where
  "others_ok env \<longleftrightarrow> (\<forall>now w m. db_typed m \<longrightarrow> db_typed (lock_others env now w m))"

lemma typed_set_system:
  assumes "db_typed m" and "newDbGetSystem k m = Some d" and "k \<noteq> []"
  shows "db_typed (snd (newDbSetSystem now (d\<lparr>sys_intval := v\<rparr>) m))"
proof -
  have m: "sys_ok m" using assms(1) by (simp add: db_typed_def)
  have "sys_typed d" using m assms(3,2) by (rule systems.typed_get)
  then have "sys_typed (d\<lparr>sys_intval := v\<rparr>)" by (simp add: sys_typed_def)
  from systems.typed_found [OF m assms(3,2) _ _ this, of now] show ?thesis by (intro db_typed_sys [OF assms(1)]) simp_all
qed

lemma typed_lock_try: "db_typed m \<Longrightarrow> db_typed (snd (lock_try now m))"
  unfolding lock_try_def lock_put_def
  by (auto simp: typed_save_int LEN_NM_def intro: typed_set_system split: option.split)

lemma typed_lock_loop:
  "db_typed m \<Longrightarrow> (\<And>w m. db_typed m \<Longrightarrow> db_typed (others w m)) \<Longrightarrow> db_typed (snd (lock_loop time others w m))"
proof (induction w arbitrary: m)
  case (Suc w)
  obtain ok m' where attempt: "lock_try (time w) m = (ok, m')" by fastforce
  with typed_lock_try [OF Suc.prems(1), of "time w"] have "db_typed m'" by simp
  with Suc.IH [of m'] Suc.IH [of "others w m'"] Suc.prems(2) attempt show ?case by (cases ok) simp_all
qed simp

lemma typed_joined:
  assumes "db_typed m"
  shows "db_typed (topo_joined now i m)"
proof (cases "newDbGetDeviceId i m")
  case (Some d)
  have "db_typed (snd (newDbSetDevice now (d\<lparr>dev_flags := dev_flags d OR FLAG_DEV_JOINED\<rparr>) m))"
    by (rule typed_set_id [OF assms Some]) (simp_all add: dev_typed_def)
  with assms Some show ?thesis by (simp add: topo_joined_def)
qed (use assms in \<open>simp add: topo_joined_def\<close>)

lemma send_line_db: "send_line env l n (r, u) = Some (r', u') \<Longrightarrow> up_db u' = up_db u"
proof (induction n arbitrary: r u)
  case (Suc n)
  then obtain answer rest where rd: "timed_read (tl_wait l) (up_polls u) = Some (answer, rest)"
    by (auto split: option.splits)
  show ?case
    using Suc.prems rd by (cases answer) (auto simp: Let_def case_prod_beta dest!: Suc.IH split: if_splits)
qed simp

lemma typed_upload_line: "db_typed (up_db u) \<Longrightarrow> upload_line env now l u = Some u' \<Longrightarrow> db_typed (up_db u')"
  by (auto simp: upload_line_def bind_eq_Some_conv typed_joined dest!: send_line_db split: if_splits)

lemma for_each_keeps:
  "(\<And>x s t. P s \<Longrightarrow> f x s = Some t \<Longrightarrow> P t) \<Longrightarrow> P s \<Longrightarrow> for_each f xs s = Some t \<Longrightarrow> P t"
  by (induction xs arbitrary: s) (auto simp: bind_eq_Some_conv)

lemma typed_upload_lines:
  assumes "db_typed (up_db u)" and "for_each (upload_line env now) ls u = Some u'"
  shows "db_typed (up_db u')"
  by (rule for_each_keeps [where P = "\<lambda>u. db_typed (up_db u)", OF _ assms]) (rule typed_upload_line)

lemma ci_ok_upload:
  assumes "ci_ok s" and "others_ok env" and "uploadTopo env p2 now s = Some (e, t)"
  shows "ci_ok t"
proof -
  obtain ok m where lock: "lockTopoUpload (lock_time env now) (lock_others env now) (ci_db s) = (ok, m)" by fastforce
  have "db_typed (snd (lockTopoUpload (lock_time env now) (lock_others env now) (ci_db s)))"
    using assms(1,2) unfolding lockTopoUpload_def ci_ok_def others_ok_def by (blast intro: typed_lock_loop)
  with lock have m: "db_typed m" by simp
  have unlock: "db_typed m' \<Longrightarrow> db_typed (unlockTopoUpload now m')" for m'
    by (simp add: unlockTopoUpload_def typed_save_int LEN_NM_def)
  show ?thesis
    using assms(1,3) lock m
    by (auto simp: uploadTopo_def bind_eq_Some_conv ci_ok_def unlock dest!: typed_upload_lines [rotated] split: bool.splits option.splits prod.splits)
qed

lemma ci_ok_topo:
  assumes "ci_ok s" and "others_ok env" and "topoHandle env p2 now s = Some (ret, t)"
  shows "ci_ok t"
proof -
  have db: "db_typed (ci_db s)" using assms(1) by (simp add: ci_ok_def)
  have "ci_ok u" if "topo_command env p2 now cmd s = Some (r, u)" for cmd r u
    using that ci_ok_upload [OF _ assms(2), of "set_db (snd (newDbDevicesRemoveWithClearFlag (ci_db s))) s" p2 now]
      ci_ok_upload [OF assms(1,2)] typed_set_flag [OF db] typed_remove_flagged [OF db] assms(1)
    by (auto simp: topo_command_def split: if_splits)
  then show ?thesis
    using assms(1,3) by (auto simp: topoHandle_def bind_eq_Some_conv dest: ci_ok_topo_add split: option.splits if_splits)
qed

section \<open>Every message\<close>

lemma ci_ok_if_zero: "(\<And>ret t. h = Some (ret, t) \<Longrightarrow> ci_ok t) \<Longrightarrow> if_zero h = Some (t, e) \<Longrightarrow> ci_ok t"
  by (auto simp: if_zero_def)

lemma ci_ok_if_negative: "(\<And>ret t. h = Some (ret, t) \<Longrightarrow> ci_ok t) \<Longrightarrow> if_negative h = Some (t, e) \<Longrightarrow> ci_ok t"
  by (auto simp: if_negative_def)

lemma ci_ok_dispatch:
  assumes "ci_ok s" and "others_ok env" and "ci_dispatch env p2 now name s = Some ((t, e), r)"
  shows "ci_ok t"
  using assms(3)
proof (cases rule: ci_dispatchE)
  case get then show ?thesis by (rule ci_ok_if_zero [rotated]) (rule ci_ok_get [OF assms(1)])
next
  case edit then show ?thesis by (rule ci_ok_if_zero [rotated]) (rule ci_ok_edit [OF assms(1)])
next
  case ctrl then show ?thesis by (rule ci_ok_if_negative [rotated]) (rule ci_ok_ctrl [OF assms(1)])
next
  case cmd then show ?thesis by (rule ci_ok_if_negative [rotated]) (rule ci_ok_cmd [OF assms(1)])
next
  case lmp then show ?thesis by (rule ci_ok_if_negative [rotated]) (rule ci_ok_lmp [OF assms(1)])
next
  case grp then show ?thesis by (rule ci_ok_if_negative [rotated]) (rule ci_ok_grp [OF assms(1)])
next
  case sensor then show ?thesis by (rule ci_ok_if_negative [rotated]) (rule ci_ok_sensor [OF assms(1)])
next
  case topo then show ?thesis by (rule ci_ok_topo [OF assms(1,2)])
next
  case proc then show ?thesis using ci_ok_proc [OF assms(1)] by (cases "procHandle s") (simp add: if_zero_def)
next
  case other with assms(1) show ?thesis by simp
qed

lemma ci_ok_complete:
  assumes "ci_ok s" and "others_ok env" and "ci_onObjectComplete env p2 now name s = Some t"
  shows "ci_ok t"
proof -
  from assms(3) obtain u e r where d: "ci_dispatch env p2 now name s = Some ((u, e), r)"
    by (auto simp: ci_onObjectComplete_def split: option.splits if_splits)
  from ci_ok_dispatch [OF assms(1,2) this] assms(3) d show ?thesis
    by (auto simp: ci_onObjectComplete_def split: option.splits if_splits)
qed

lemma ci_ok_callback:
  assumes "ci_ok s" and "others_ok env" and "ci_callback env p2 now ev s = Some t"
  shows "ci_ok t"
proof (cases ev)
  case (EvObjectComplete name)
  with assms(3) show ?thesis by (auto intro: ci_ok_complete [OF assms(1,2)])
qed (use assms in \<open>auto simp: ci_ok_def ci_onObjectStart_def ci_onString_def ci_onInteger_def attrs_ok_reset attrs_ok_int attrs_ok_string\<close>)

lemma ci_ok_callbacks:
  "ci_ok s \<Longrightarrow> others_ok env \<Longrightarrow> ci_callbacks env p2 now evs s = Some t \<Longrightarrow> ci_ok t"
proof (induction evs arbitrary: s)
  case (Cons ev evs)
  from Cons.prems(3) obtain u where "ci_callback env p2 now ev s = Some u" "ci_callbacks env p2 now evs u = Some t"
    by (auto split: option.splits)
  with Cons ci_ok_callback [of s env p2 now ev u] show ?case by blast
qed simp

lemma attrs_ok_add_int: "attrs_ok p \<Longrightarrow> attrs_ok (snd (parsingAddIntAttr name p))"
  by (simp add: attrs_ok_def parsingAddIntAttr_def)

lemma attrs_ok_add_string:
  assumes "attrs_ok p" and "0 \<le> n" and "name \<in> set mac_attrs \<longrightarrow> n \<le> 16"
  shows "attrs_ok (snd (parsingAddStringAttr name n p))"
proof (cases "first_idx (\<lambda>a. sa_name a = name) (parsingStringAttrs p)")
  case None
  with assms show ?thesis
    by (auto simp: parsingAddStringAttr_def parsingExistsStringAttr_def idx_or_minus1_def attrs_ok_def attr_ok_def Let_def)
next
  case (Some i)
  let ?a = "parsingStringAttrs p ! i"
  from Some have i: "i < length (parsingStringAttrs p)" "sa_name ?a = name" by (auto simp: first_idx_Some_iff)
  have all: "\<forall>a\<in>set (parsingStringAttrs p). attr_ok a" using assms(1) by (simp add: attrs_ok_def)
  have "attr_ok ?a" using all i(1) by simp
  then have "attr_ok (?a\<lparr>sa_maxlen := n\<rparr>)" if "sa_maxlen ?a < n" using that assms(3) i(2) by (simp add: attr_ok_def)
  with all_rows_update [OF all, of "?a\<lparr>sa_maxlen := n\<rparr>" i] assms(1) Some show ?thesis
    by (auto simp: parsingAddStringAttr_def parsingExistsStringAttr_def idx_or_minus1_def attrs_ok_def Let_def)
qed

lemma attrs_ok_adds:
  assumes "attrs_ok p" and "\<forall>(name, n)\<in>set ss. 0 \<le> n \<and> (name \<in> set mac_attrs \<longrightarrow> n \<le> 16)"
  shows "attrs_ok (add_attrs is ss p)"
proof -
  have "attrs_ok (fold (\<lambda>k q. snd (parsingAddIntAttr k q)) is p)"
    using assms(1) by (induction "is" arbitrary: p) (simp_all add: attrs_ok_add_int)
  moreover have "attrs_ok (fold (\<lambda>(k, n) q. snd (parsingAddStringAttr k n q)) ss q)" if "attrs_ok q" for q
    using that assms(2) by (induction ss arbitrary: q) (auto simp: attrs_ok_add_string)
  ultimately show ?thesis unfolding add_attrs_def by blast
qed

lemma ci_attrs_start_ok: "attrs_ok ci_attrs_start"
  unfolding ci_attrs_start_def comp_def procInit_def grpInit_def lmpInit_def cmdInit_def sensorInit_def ctrlInit_def
    dbEditInit_def dbgetInit_def topoInit_def
  by (intro attrs_ok_adds) (simp_all add: mac_attrs_def attrs_ok_def parsing_init_def)

lemma db_typed_fresh: "db_typed (Some db_fresh)"
proof -
  have dev: "stored_inv dev_rows dev_mac dev_id NEWDB_MAX_DEVICES (Some db_fresh)"
    unfolding NEWDB_MAX_DEVICES_def
    using stored_inv_fresh [where rows = dev_rows and db = "Some db_fresh", OF db_fresh_devices] by (simp add: zero_dev_def)
  have "rows_typed dev_rows dev_typed (Some db_fresh)" "rows_typed sys_rows sys_typed (Some db_fresh)"
    by (auto simp: rows_typed_def db_fresh_def dev_typed_def sys_typed_def zero_dev_def zero_sys_def)
  with dev sys_fresh show ?thesis by (simp add: db_typed_def)
qed

section \<open>Adding a device\<close>

abbreviation new_device :: "c_int \<Rightarrow> string \<Rightarrow> newdb_dev_t \<Rightarrow> newdb_dev_t" where
  "new_device dev ty d \<equiv> (device_defaults dev ty (d\<lparr>dev_dev := dev, dev_par := 0, dev_ty := newDbStrNcpy ty LEN_TY\<rparr>))
     \<lparr>dev_flags := FLAG_ADDED_BY_GW\<rparr>"

lemma dbEditAdd_new:
  "newDbGetDevice mac m = None \<Longrightarrow> DEVICE_DEV_UNKNOWN < dev \<Longrightarrow> dbEditAdd now mac dev ty m =
     (IOT_ERROR_NONE, snd (table_upsert newDbGetDevice (newDbGetNewDevice now) (newDbSetDevice now) (\<lambda>d. d) (new_device dev ty) mac m))"
  by (simp add: dbEditAdd_def table_upsert_def split: option.split prod.split)

text \<open>
  Adding a device by its mac: of a known kind and with a free row it is added with the
  defaults of its kind and the flag that the gateway added it, and every other device stays
  as it was; a mac that exists or an unknown kind is an error and changes nothing.  When the
  table is full nothing changes either, but no error is reported.
\<close>

theorem dbedit_add_outcomes:
  assumes "dev_ok m" and "ok_mac_key mac" and "k \<noteq> []" and "k \<noteq> mac"
  shows "if dev \<le> DEVICE_DEV_UNKNOWN then dbEditAdd now mac dev ty m = (IOT_ERROR_DEVICE_MISSING, m)
    else if mac \<in> stored_keys dev_rows dev_mac m then dbEditAdd now mac dev ty m = (IOT_ERROR_ALREADY_EXISTING_MAC, m)
    else if card (stored_keys dev_rows dev_mac m) = NEWDB_MAX_DEVICES then dbEditAdd now mac dev ty m = (IOT_ERROR_NONE, m)
    else \<exists>m' i. dbEditAdd now mac dev ty m = (IOT_ERROR_NONE, m') \<and> dev_ok m'
      \<and> newDbGetDevice mac m' = Some ((new_device dev ty (blank_device now i mac))\<lparr>dev_lastupdate := now\<rparr>)
      \<and> newDbGetDevice k m' = newDbGetDevice k m"
proof -
  have inv: "stored_inv dev_rows dev_mac dev_id NEWDB_MAX_DEVICES m" using assms(1) by simp
  have known: "(\<exists>d. newDbGetDevice mac m = Some d) \<longleftrightarrow> mac \<in> stored_keys dev_rows dev_mac m"
    by (rule devices.get_keys [OF inv assms(2)])
  have add: ?thesis if kind: "\<not> dev \<le> DEVICE_DEV_UNKNOWN" and absent: "mac \<notin> stored_keys dev_rows dev_mac m"
  proof -
    let ?up = "table_upsert newDbGetDevice (newDbGetNewDevice now) (newDbSetDevice now) (\<lambda>d. d) (new_device dev ty) mac m"
    have none: "newDbGetDevice mac m = None" using known absent by (cases "newDbGetDevice mac m") auto
    have add: "dbEditAdd now mac dev ty m = (IOT_ERROR_NONE, snd ?up)"
      using dbEditAdd_new [OF none] kind by simp
    have g: "dev_id (new_device dev ty d) = dev_id d \<and> dev_mac (new_device dev ty d) = dev_mac d" for d by simp
    have typed: "dev_typed d \<Longrightarrow> dev_typed (new_device dev ty d)" for d
      using dev_typed_defaults [of "d\<lparr>dev_dev := dev, dev_par := 0, dev_ty := newDbStrNcpy ty LEN_TY\<rparr>" dev ty]
      by (simp add: dev_typed_def newDbStrNcpy_def)
    show ?thesis
    proof (cases "card (stored_keys dev_rows dev_mac m) = NEWDB_MAX_DEVICES")
      case True
      with devices.upsert_full [OF inv assms(2) absent True, of now] add kind absent show ?thesis by simp
    next
      case False
      have ok: "dev_ok (snd ?up)"
        using devices.typed_upsert [OF assms(1,2), of "\<lambda>d. d" "new_device dev ty" now] typed g by blast
      have up: "\<exists>m'. ?up = (True, m') \<and> (\<exists>i. newDbGetDevice mac m' = Some ((new_device dev ty (blank_device now i mac))\<lparr>dev_lastupdate := now\<rparr>))
          \<and> newDbGetDevice k m' = newDbGetDevice k m"
        using devices.upsert [OF inv assms(2) _ g, of "\<lambda>d. d" now] False assms(3,4) none by fastforce
      then obtain m' i where "?up = (True, m')" "newDbGetDevice mac m' = Some ((new_device dev ty (blank_device now i mac))\<lparr>dev_lastupdate := now\<rparr>)"
        "newDbGetDevice k m' = newDbGetDevice k m" by blast
      with add ok kind absent False show ?thesis by auto
    qed
  qed
  show ?thesis
  proof (cases "mac \<in> stored_keys dev_rows dev_mac m")
    case True
    with known obtain d where "newDbGetDevice mac m = Some d" by blast
    with True show ?thesis by (simp add: dbEditAdd_def)
  next
    case False
    with add show ?thesis by (cases "dev \<le> DEVICE_DEV_UNKNOWN") (simp_all add: dbEditAdd_def)
  qed
qed

theorem dbedit_add_outcomes_witness:
  "\<exists>m' i. dbEditAdd 7 ''0A'' DEVICE_DEV_LAMP ''dim'' (Some db_fresh) = (IOT_ERROR_NONE, m')
     \<and> newDbGetDevice ''0A'' m' = Some ((new_device DEVICE_DEV_LAMP ''dim'' (blank_device 7 i ''0A''))\<lparr>dev_lastupdate := 7\<rparr>)"
proof -
  have keys: "stored_keys dev_rows dev_mac (Some db_fresh) = {}" by (auto simp: stored_keys_def row_keys_def db_fresh_def)
  have "dev_ok (Some db_fresh)" using db_typed_fresh by (simp add: db_typed_def)
  from dbedit_add_outcomes [OF this, of "''0A''" "''0B''" DEVICE_DEV_LAMP 7 "''dim''"] keys
  show ?thesis by (auto simp: LEN_MAC_NIBBLE_def NEWDB_MAX_DEVICES_def DEVICE_DEV_LAMP_def DEVICE_DEV_UNKNOWN_def)
qed

end
