(* ===== verification/TopoConfig.thy ===== *)
theory TopoConfig
  imports ControlTyped
begin

text \<open>
  What a configuration session does: the device table after the messages between \<open>clearall\<close>
  and \<open>endconf\<close>, the lock that keeps uploads apart, and the upload itself.
\<close>

section \<open>A configuration\<close>

abbreviation dev_inv :: "newdb option \<Rightarrow> bool" where
  "dev_inv \<equiv> stored_inv dev_rows dev_mac dev_id NEWDB_MAX_DEVICES"

abbreviation dev_keys :: "newdb option \<Rightarrow> string set" where
  "dev_keys \<equiv> stored_keys dev_rows dev_mac"

definition unconfirmed :: "newdb_dev_t \<Rightarrow> bool" where
  "unconfirmed d \<longleftrightarrow> dev_flags d AND FLAG_TOPO_CLEAR \<noteq> 0"

text \<open>The nodes of a configuration, with the operation of the code that adds each.\<close>

datatype topo_item =
    Item_manager string string "string option"
  | Item_ui string string c_int
  | Item_pump string string c_int c_int
  | Item_lamp string string string
  | Item_plug string string

fun item_mac :: "topo_item \<Rightarrow> string" where
  "item_mac (Item_manager mac nm ty) = mac"
| "item_mac (Item_ui mac nm par) = mac"
| "item_mac (Item_pump mac nm par sid) = mac"
| "item_mac (Item_lamp mac nm ty) = mac"
| "item_mac (Item_plug mac nm) = mac"

fun item_step :: "c_int \<Rightarrow> topo_item \<Rightarrow> newdb option \<Rightarrow> newdb option" where
  "item_step now (Item_manager mac nm ty) m = snd (addManager now mac nm ty m)"
| "item_step now (Item_ui mac nm par) m = snd (addUi now mac nm par m)"
| "item_step now (Item_pump mac nm par sid) m = snd (addPump now mac nm par sid m)"
| "item_step now (Item_lamp mac nm ty) m = (case addLamp now mac nm (Some ty) m of Some r \<Rightarrow> snd r | None \<Rightarrow> m)"
| "item_step now (Item_plug mac nm) m = snd (addPlug now mac nm m)"

text \<open>Every add is a lookup or an insertion whose row is confirmed.\<close>

definition confirms :: "(newdb_dev_t \<Rightarrow> newdb_dev_t) \<Rightarrow> bool" where
  "confirms f \<longleftrightarrow> (\<forall>d. dev_id (f d) = dev_id d \<and> dev_mac (f d) = dev_mac d \<and> \<not> unconfirmed (f d))"

lemma cleared_bits: "(x AND (NOT a AND NOT b)) AND a = (0 :: int)"
  by (rule bit_eqI) (auto simp: bit_simps)

lemma confirms_confirm: "(\<And>d. dev_id (g d) = dev_id d \<and> dev_mac (g d) = dev_mac d) \<Longrightarrow> confirms (\<lambda>d. confirm (g d))"
  by (simp add: confirms_def unconfirmed_def confirm_def cleared_bits)

lemma confirms_flags: "(\<And>d. dev_id (g d) = dev_id d \<and> dev_mac (g d) = dev_mac d) \<Longrightarrow> confirms (\<lambda>d. (g d)\<lparr>dev_flags := 0\<rparr>)"
  by (simp add: confirms_def unconfirmed_def)

lemma add_node_upsert:
  "snd (add_node f (\<lambda>d. True) g now mac m) = snd (table_upsert newDbGetDevice (newDbGetNewDevice now) (newDbSetDevice now) f g mac m)"
  by (simp add: add_node_def table_upsert_def split: option.split prod.split)

lemma item_upsert:
  "\<exists>f g. confirms f \<and> confirms g \<and> item_step now item m
     = snd (table_upsert newDbGetDevice (newDbGetNewDevice now) (newDbSetDevice now) f g (item_mac item) m)"
  by (cases item; simp add: addManager_def addUi_def addPump_def addLamp_def addPlug_def add_node_upsert;
      intro exI conjI; (rule refl | rule confirms_confirm | rule confirms_flags);
      simp add: typed_def lamp_defaults_def split: option.split)

text \<open>What holds between the mark and the sweep: the rows without the flag are the confirmed ones.\<close>

definition confirmed_are :: "string set \<Rightarrow> newdb option \<Rightarrow> bool" where
  "confirmed_are C m \<longleftrightarrow> dev_inv m \<and> (\<forall>k r. k \<noteq> [] \<longrightarrow> newDbGetDevice k m = Some r \<longrightarrow> (\<not> unconfirmed r) = (k \<in> C))"

lemma item_confirmed:
  assumes "confirmed_are C m" and "ok_mac_key (item_mac item)"
    and "item_mac item \<in> dev_keys m \<or> card (dev_keys m) \<noteq> NEWDB_MAX_DEVICES"
  shows "confirmed_are (insert (item_mac item) C) (item_step now item m)
    \<and> dev_keys (item_step now item m) = insert (item_mac item) (dev_keys m)"
proof -
  obtain f g where fg: "confirms f" "confirms g"
    and step: "item_step now item m = snd (table_upsert newDbGetDevice (newDbGetNewDevice now) (newDbSetDevice now) f g (item_mac item) m)"
    using item_upsert by blast
  have inv: "dev_inv m" using assms(1) by (simp add: confirmed_are_def)
  have f: "dev_id (f r) = dev_id r \<and> dev_mac (f r) = dev_mac r" and g: "dev_id (g r) = dev_id r \<and> dev_mac (g r) = dev_mac r" for r
    using fg by (simp_all add: confirms_def)
  obtain m' r where m': "item_step now item m = m'" "dev_inv m'" "dev_keys m' = insert (item_mac item) (dev_keys m)"
      "newDbGetDevice (item_mac item) m' = Some (dev_lastupdate_update (\<lambda>_. now) r)"
    and others: "\<And>k'. k' \<noteq> [] \<Longrightarrow> k' \<noteq> item_mac item \<Longrightarrow> newDbGetDevice k' m' = newDbGetDevice k' m"
    and r: "(\<exists>r0. r = f r0) \<or> (\<exists>r0. r = g r0)"
    using devices.upsert [OF inv assms(2) f g assms(3), of now] step by (fastforce split: option.splits)
  have "\<not> unconfirmed (dev_lastupdate_update (\<lambda>_. now) r)" using r fg by (auto simp: confirms_def unconfirmed_def)
  then have "confirmed_are (insert (item_mac item) C) m'"
    using m'(2,4) others assms(1) unfolding confirmed_are_def by (metis insert_iff option.inject)
  then show ?thesis using m' by simp
qed

lemma items_confirmed:
  "confirmed_are C m \<Longrightarrow> \<forall>item\<in>set items. ok_mac_key (item_mac item) \<Longrightarrow> card (dev_keys m \<union> item_mac ` set items) \<le> NEWDB_MAX_DEVICES \<Longrightarrow>
   confirmed_are (C \<union> item_mac ` set items) (fold (item_step now) items m)
   \<and> dev_keys (fold (item_step now) items m) = dev_keys m \<union> item_mac ` set items"
proof (induction items arbitrary: C m)
  case (Cons item items)
  have fin: "finite (dev_keys m)"
    using Cons.prems(1) devices.finite_keys unfolding confirmed_are_def by blast
  have room: "item_mac item \<in> dev_keys m \<or> card (dev_keys m) \<noteq> NEWDB_MAX_DEVICES"
  proof (rule disjCI)
    assume "\<not> card (dev_keys m) \<noteq> NEWDB_MAX_DEVICES"
    moreover have "card (insert (item_mac item) (dev_keys m)) \<le> card (dev_keys m \<union> item_mac ` set (item # items))"
      by (rule card_mono) (use fin in auto)
    ultimately have "card (insert (item_mac item) (dev_keys m)) \<le> card (dev_keys m)" using Cons.prems(3) by simp
    then show "item_mac item \<in> dev_keys m" using fin by (simp add: card_insert_if split: if_splits)
  qed
  have "ok_mac_key (item_mac item)" using Cons.prems(2) by simp
  from item_confirmed [OF Cons.prems(1) this room, of now]
  have step: "confirmed_are (insert (item_mac item) C) (item_step now item m)"
    "dev_keys (item_step now item m) = insert (item_mac item) (dev_keys m)" by simp_all
  have eq: "insert (item_mac item) (dev_keys m) \<union> item_mac ` set items = dev_keys m \<union> item_mac ` set (item # items)" by auto
  have eq': "insert (item_mac item) C \<union> item_mac ` set items = C \<union> item_mac ` set (item # items)" by auto
  from Cons.IH [OF step(1)] Cons.prems(2,3) show ?case by (simp add: step(2) eq eq')
qed simp

text \<open>The mark, and the sweep.\<close>

lemma marked:
  assumes "dev_inv m"
  shows "confirmed_are {} (snd (newDbDevicesSetClearFlag m)) \<and> dev_keys (snd (newDbDevicesSetClearFlag m)) = dev_keys m"
proof -
  obtain rs where rs: "dev_rows m = Some rs" "length rs = NEWDB_MAX_DEVICES" "row_unique dev_mac rs"
    "\<forall>i<NEWDB_MAX_DEVICES. dev_id (rs ! i) = int i" using assms by (rule stored_invE)
  let ?f = "\<lambda>r. if dev_mac r \<noteq> [] then r\<lparr>dev_flags := dev_flags r OR FLAG_TOPO_CLEAR\<rparr> else r"
  let ?m = "snd (newDbDevicesSetClearFlag m)"
  have rows: "dev_rows ?m = Some (map ?f rs)" using rs(1) by (cases m) (simp_all add: newDbDevicesSetClearFlag_def with_db_def)
  have inv: "dev_inv ?m" by (rule stored_replaced [where rows = dev_rows and key = dev_mac and ident = dev_id, OF assms rs(1) rows]) (use rs(2,4) in simp_all)
  have mac: "dev_mac (?f r) = dev_mac r" for r by simp
  have "dev_keys ?m = dev_keys m" unfolding stored_keys_def rows rs(1) option.case row_keys_def set_map image_image mac ..
  moreover have "unconfirmed r" if "k \<noteq> []" "newDbGetDevice k ?m = Some r" for k r
  proof -
    obtain rs' where rs': "dev_rows ?m = Some rs'" "row_unique dev_mac rs'" using inv by (rule stored_invE)
    have "row_get dev_mac k rs' = Some r" using that(2) by (simp add: devices.get_row [OF rs'(1)])
    then have "\<exists>i<length rs'. rs' ! i = r \<and> dev_mac r = k" using row_get_Some [OF rs'(2) that(1)] by blast
    then have "r \<in> set rs'" "dev_mac r = k" by auto
    with rows rs'(1) obtain r0 where "r = ?f r0" "dev_mac r0 = k" by auto
    with that(1) show ?thesis by (simp add: unconfirmed_def and_or_flag) (simp add: FLAG_TOPO_CLEAR_def)
  qed
  ultimately show ?thesis using inv by (auto simp: confirmed_are_def)
qed

lemma swept:
  assumes "confirmed_are C m"
  shows "dev_inv (snd (newDbDevicesRemoveWithClearFlag m)) \<and> dev_keys (snd (newDbDevicesRemoveWithClearFlag m)) = dev_keys m \<inter> C"
proof -
  have inv: "dev_inv m" using assms by (simp add: confirmed_are_def)
  obtain rs where rs: "dev_rows m = Some rs" "length rs = NEWDB_MAX_DEVICES" "row_unique dev_mac rs"
    "\<forall>i<NEWDB_MAX_DEVICES. dev_id (rs ! i) = int i" using inv by (rule stored_invE)
  let ?f = "\<lambda>r. if dev_flags r AND FLAG_TOPO_CLEAR \<noteq> 0 then r\<lparr>dev_mac := []\<rparr> else r"
  let ?m = "snd (newDbDevicesRemoveWithClearFlag m)"
  have rows: "dev_rows ?m = Some (map ?f rs)" using rs(1) by (cases m) (simp_all add: newDbDevicesRemoveWithClearFlag_def with_db_def)
  have "dev_inv ?m" by (rule stored_replaced [where rows = dev_rows and key = dev_mac and ident = dev_id, OF inv rs(1) rows]) (use rs(2,4) in simp_all)
  moreover have flag: "(\<not> unconfirmed r) = (dev_mac r \<in> C)" if "r \<in> set rs" "dev_mac r \<noteq> []" for r
  proof -
    from that(1) obtain i where "i < length rs" "rs ! i = r" by (auto simp: in_set_conv_nth)
    then have "row_get dev_mac (dev_mac r) rs = Some r" using row_get_Some [OF rs(3) that(2)] by blast
    with assms that(2) show ?thesis by (simp add: confirmed_are_def devices.get_row [OF rs(1)])
  qed
  have "dev_keys ?m = dev_keys m \<inter> C"
  proof -
    have "dev_keys ?m = {dev_mac r |r. r \<in> set rs \<and> dev_mac r \<noteq> [] \<and> \<not> unconfirmed r}"
      by (auto simp: stored_keys_def rows row_keys_def unconfirmed_def image_iff split: if_splits)
    also have "\<dots> = dev_keys m \<inter> C" using flag by (auto simp: stored_keys_def rs(1) row_keys_def)
    finally show ?thesis .
  qed
  ultimately show ?thesis by simp
qed

text \<open>
  C15: A configuration replaces the network: after \<open>clearall\<close>, any number of managers, user
  interfaces, pumps, lamps and plugs (at most twenty macs together with those already known),
  and the sweep of \<open>endconf\<close>, the devices in the table are exactly those of the
  configuration, whatever was there before, and the table is well formed.
\<close>

theorem topo_configuration_exact:
  fixes now :: c_int
  assumes "dev_inv m" and "\<forall>item\<in>set items. ok_mac_key (item_mac item)"
    and "card (dev_keys m \<union> item_mac ` set items) \<le> NEWDB_MAX_DEVICES"
  defines "m' \<equiv> snd (newDbDevicesRemoveWithClearFlag (fold (item_step now) items (snd (newDbDevicesSetClearFlag m))))"
  shows "dev_keys m' = item_mac ` set items \<and> dev_inv m'"
proof -
  note mark = marked [OF assms(1)]
  then have room: "card (dev_keys (snd (newDbDevicesSetClearFlag m)) \<union> item_mac ` set items) \<le> NEWDB_MAX_DEVICES"
    using assms(3) by simp
  from items_confirmed [OF conjunct1 [OF mark] assms(2) room, of now] swept mark
  show ?thesis unfolding m'_def by auto
qed

theorem topo_configuration_exact_witness:
  "dev_keys (snd (newDbDevicesRemoveWithClearFlag (fold (item_step 7) [Item_manager ''0A'' ''Boiler'' (Some ''h''), Item_lamp ''0B'' ''Desk'' ''dim'']
     (snd (newDbDevicesSetClearFlag (Some db_fresh)))))) = {''0A'', ''0B''}"
proof -
  have "dev_inv (Some db_fresh)" using db_typed_fresh by (simp add: db_typed_def)
  moreover have "dev_keys (Some db_fresh) = {}"
    by (auto simp: stored_keys_def row_keys_def db_fresh_def)
  ultimately show ?thesis
    using topo_configuration_exact [of "Some db_fresh" "[Item_manager ''0A'' ''Boiler'' (Some ''h''), Item_lamp ''0B'' ''Desk'' ''dim'']" 7]
    by (simp add: NEWDB_MAX_DEVICES_def LEN_MAC_NIBBLE_def card_insert_if)
qed

section \<open>The lock of an upload\<close>

definition lock_free :: "c_int \<Rightarrow> newdb option \<Rightarrow> bool" where
  "lock_free now m = (case newDbGetSystem ''topobusy'' m of
     Some sys \<Rightarrow> sys_intval sys = 0 \<or> now - sys_lastupdate sys > 60 | None \<Rightarrow> True)"

lemma lock_try_upsert:
  "lock_free now m \<Longrightarrow> lock_try now m = table_upsert newDbGetSystem (newDbGetNewSystem now) (newDbSetSystem now)
     (\<lambda>sys. sys\<lparr>sys_intval := 1, sys_strval := (if newDbGetSystem ''topobusy'' m = None then [] else sys_strval sys)\<rparr>)
     (\<lambda>sys. sys\<lparr>sys_intval := 1, sys_strval := []\<rparr>) ''topobusy'' m"
  by (auto simp: lock_try_def lock_put_def lock_free_def table_upsert_def newDbSystemSaveIntval_def system_save_def split: option.splits if_splits)

lemma lock_try_taken:
  assumes "sys_inv m" and "''topobusy'' \<in> sys_keys m \<or> card (sys_keys m) < NEWDB_MAX_SYSTEM" and "lock_free now m"
  shows "\<exists>m'. lock_try now m = (True, m') \<and> sys_inv m' \<and> (\<forall>t. lock_free t m' \<longleftrightarrow> t - now > 60)"
proof -
  have key: "ok_name_key ''topobusy''" by (simp add: LEN_NM_def)
  have room: "''topobusy'' \<in> sys_keys m \<or> card (sys_keys m) \<noteq> NEWDB_MAX_SYSTEM" using assms(2) by auto
  let ?f = "\<lambda>sys. sys\<lparr>sys_intval := 1, sys_strval := (if newDbGetSystem ''topobusy'' m = None then [] else sys_strval sys)\<rparr>"
  let ?g = "\<lambda>sys. sys\<lparr>sys_intval := 1, sys_strval := []\<rparr>"
  have keep: "sys_id (?f r) = sys_id r \<and> sys_name (?f r) = sys_name r" "sys_id (?g r) = sys_id r \<and> sys_name (?g r) = sys_name r" for r
    by simp_all
  obtain m' r where m': "lock_try now m = (True, m')" "sys_inv m'"
      "newDbGetSystem ''topobusy'' m' = Some (sys_lastupdate_update (\<lambda>_. now) r)"
    and r: "(\<exists>r0. r = ?f r0) \<or> (\<exists>r0. r = ?g r0)"
    using systems.upsert [OF assms(1) key keep room, of now] lock_try_upsert [OF assms(3)]
    by (fastforce split: option.splits)
  from r have "sys_intval r = 1" by auto
  then have "\<forall>t. lock_free t m' \<longleftrightarrow> t - now > 60" using m'(3) by (simp add: lock_free_def)
  with m' show ?thesis by blast
qed

lemma lock_try_refused: "\<not> lock_free now m \<Longrightarrow> lock_try now m = (False, m)"
  by (auto simp: lock_try_def lock_put_def lock_free_def split: option.splits)

lemma lock_loop_refused:
  "\<forall>i<w. \<not> lock_free (time i) m \<Longrightarrow> lock_loop time (\<lambda>w m. m) w m = (False, m)"
  by (induction w) (simp_all add: lock_try_refused)

lemma lock_loop_taken:
  "i < w \<Longrightarrow> lock_free (time i) m \<Longrightarrow> (\<And>t. lock_free t m \<Longrightarrow> fst (lock_try t m)) \<Longrightarrow>
   fst (lock_loop time (\<lambda>w m. m) w m)"
proof (induction w)
  case (Suc w)
  show ?case
  proof (cases "lock_free (time w) m")
    case True
    obtain ok m' where res: "lock_try (time w) m = (ok, m')" by fastforce
    with Suc.prems(3) [OF True] show ?thesis by simp
  next
    case False
    with Suc.prems(1,2) have "i < w" by (metis less_SucE)
    with Suc False show ?thesis by (simp add: lock_try_refused)
  qed
qed simp

text \<open>
  C16: An upload gets its lock as soon as it is free, and keeps the others out: when the
  system table has room for it, the lock is obtained exactly when at one of the ten tries it
  is free or was taken more than sixty seconds before (the others doing nothing meanwhile);
  when it is taken at a time, every later try within sixty seconds is refused.
\<close>

theorem upload_lock_obtained:
  assumes "sys_inv m" and "''topobusy'' \<in> sys_keys m \<or> card (sys_keys m) < NEWDB_MAX_SYSTEM"
  shows "(fst (lockTopoUpload time (\<lambda>w m. m) m) \<longleftrightarrow> (\<exists>i<10. lock_free (time i) m))
    \<and> (fst (lock_try now m) \<longrightarrow> t \<le> now + 60 \<longrightarrow> lock_try t (snd (lock_try now m)) = (False, snd (lock_try now m)))"
proof -
  have taken: "fst (lock_try t m)" if "lock_free t m" for t
    using lock_try_taken [OF assms that] by auto
  have "fst (lockTopoUpload time (\<lambda>w m. m) m) \<longleftrightarrow> (\<exists>i<10. lock_free (time i) m)"
    unfolding lockTopoUpload_def using lock_loop_refused [of 10 time m] lock_loop_taken [of _ 10 time m, OF _ _ taken] by force
  moreover have "lock_try t (snd (lock_try now m)) = (False, snd (lock_try now m))" if ok: "fst (lock_try now m)" and t: "t \<le> now + 60"
  proof -
    have "lock_free now m" using lock_try_refused [of now m] ok by force
    from lock_try_taken [OF assms this] obtain m' where "lock_try now m = (True, m')" "\<not> lock_free t m'" using t by auto
    then show ?thesis by (simp add: lock_try_refused)
  qed
  ultimately show ?thesis by blast
qed

theorem upload_lock_obtained_witness:
  "fst (lockTopoUpload (\<lambda>w. 100) (\<lambda>w m. m) (Some db_fresh))"
proof -
  have "newDbGetSystem ''topobusy'' (Some db_fresh) = None"
    using systems.get_keys [OF conjunct1 [OF sys_fresh], of "''topobusy''"] sys_fresh
    by (cases "newDbGetSystem ''topobusy'' (Some db_fresh)") (auto simp: LEN_NM_def)
  then have "lock_free 100 (Some db_fresh)" by (simp add: lock_free_def)
  then show ?thesis
    using upload_lock_obtained [of "Some db_fresh" "\<lambda>w. 100"] sys_fresh
    by (auto simp: NEWDB_MAX_SYSTEM_def intro: exI [of _ 0])
qed

text \<open>
  C27: The lock does not keep two uploads apart when their tries interleave: from any table in
  which it is free, two processes that both look it up before either writes both get
  it, whereas a try that looks it up after the first has written is refused for sixty seconds.
\<close>

theorem upload_lock_race:
  assumes "sys_inv m" and "''topobusy'' \<in> sys_keys m \<or> card (sys_keys m) < NEWDB_MAX_SYSTEM"
    and "lock_free now1 m" and "lock_free now2 m"
  shows "\<exists>m1 m2. lock_put now1 (newDbGetSystem ''topobusy'' m) m = (True, m1)
    \<and> lock_put now2 (newDbGetSystem ''topobusy'' m) m1 = (True, m2)
    \<and> (now2 \<le> now1 + 60 \<longrightarrow> lock_try now2 m1 = (False, m1))"
proof -
  have key: "ok_name_key ''topobusy''" by (simp add: LEN_NM_def)
  obtain m1 where m1: "lock_try now1 m = (True, m1)" "sys_inv m1" "\<forall>t. lock_free t m1 \<longleftrightarrow> t - now1 > 60"
    using lock_try_taken [OF assms(1-3)] by blast
  have "newDbGetSystem ''topobusy'' m1 \<noteq> None" using m1(3) [rule_format, of now1]
    by (cases "newDbGetSystem ''topobusy'' m1") (auto simp: lock_free_def)
  then have in1: "''topobusy'' \<in> sys_keys m1" using systems.get_keys [OF m1(2) key] by auto
  have "\<exists>m2. lock_put now2 (newDbGetSystem ''topobusy'' m) m1 = (True, m2)"
  proof (cases "newDbGetSystem ''topobusy'' m")
    case None
    let ?f = "\<lambda>sys :: newdb_system_t. sys\<lparr>sys_intval := 1, sys_strval := []\<rparr>"
    from systems.upsert [OF m1(2) key, of ?f ?f now2] in1 None show ?thesis
      by (fastforce simp: lock_put_def newDbSystemSaveIntval_def system_save_def)
  next
    case (Some sys)
    with assms(3,4) m1(1) have "newDbSetSystem now1 (sys\<lparr>sys_intval := 1\<rparr>) m = (True, m1)"
      by (auto simp: lock_try_def lock_put_def lock_free_def)
    then have "\<exists>m2. newDbSetSystem now2 (sys\<lparr>sys_intval := 1\<rparr>) m1 = (True, m2)"
      by (auto simp: newDbSetSystem_def with_db_def split: option.splits if_splits)
    with Some assms(4) show ?thesis by (auto simp: lock_put_def lock_free_def)
  qed
  with m1 show ?thesis by (auto simp: lock_try_def [of now1] lock_try_refused)
qed

theorem upload_lock_race_witness:
  "\<exists>m1 m2. lock_put 9 (newDbGetSystem ''topobusy'' (Some db_fresh)) (Some db_fresh) = (True, m1)
    \<and> lock_put 10 (newDbGetSystem ''topobusy'' (Some db_fresh)) m1 = (True, m2) \<and> lock_try 10 m1 = (False, m1)"
proof -
  have "newDbGetSystem ''topobusy'' (Some db_fresh) = None"
    using systems.get_keys [OF conjunct1 [OF sys_fresh], of "''topobusy''"] sys_fresh
    by (cases "newDbGetSystem ''topobusy'' (Some db_fresh)") (auto simp: LEN_NM_def)
  then have "lock_free t (Some db_fresh)" for t by (simp add: lock_free_def)
  then show ?thesis
    using upload_lock_race [of "Some db_fresh" 9 10] sys_fresh by (simp add: NEWDB_MAX_SYSTEM_def)
qed

section \<open>The upload\<close>

lemma topoGenerate_empty: "topoGenerate [] e = Some \<lparr>tg_lines = [], tg_man = 0, tg_error = (if e = IOT_ERROR_TOPO_OVERRUN then IOT_ERROR_NONE else e)\<rparr>"
  by (simp add: topoGenerate_def topoLoopMan_def)

lemma upload_empty:
  assumes "topodevs (ci_topo s) = []" and "uploadTopo env p2 now s = Some (e, t)"
  shows "ci_topo t = ci_topo s \<and> q_msgs (ci_ipc t) = q_msgs (ci_ipc s) \<and> ci_attrs t = ci_attrs s
    \<and> e = (if fst (lockTopoUpload (lock_time env now) (lock_others env now) (ci_db s)) then IOT_ERROR_NONE else IOT_ERROR_TOPO_TIMEOUT)"
  using assms
  by (auto simp: uploadTopo_def set_db_def bind_eq_Some_conv topoGenerate_empty queueOpen_def
      split: prod.splits bool.splits option.splits msgget.splits if_splits)

lemma topodevs_keep:
  "topodevs (ci_topo (set_iotError e s)) = topodevs (ci_topo s)" "topodevs (ci_topo (set_db m s)) = topodevs (ci_topo s)"
  "topodevs (ci_topo (upcase_attr name s)) = topodevs (ci_topo s)" "topodevs (ci_topo (save_device now d s)) = topodevs (ci_topo s)"
  "topodevs (ci_topo (os_request_all rs s)) = topodevs (ci_topo s)" "topodevs (ci_topo (sendResponse r s)) = topodevs (ci_topo s)"
  "topodevs (ci_topo (ci_onObjectStart s)) = topodevs (ci_topo s)" "topodevs (ci_topo (ci_onString k v s)) = topodevs (ci_topo s)"
  "topodevs (ci_topo (ci_onInteger k i s)) = topodevs (ci_topo s)"
  by (simp_all add: ci_setters save_device_def os_request_all_def sendResponse_def ci_onObjectStart_def ci_onString_def ci_onInteger_def)

lemmas topodevs_simps [simp] = topodevs_keep

lemma topodevs_post: "post env key message s = Some t \<Longrightarrow> topodevs (ci_topo t) = topodevs (ci_topo s)"
  by (auto simp: post_def split: option.splits)

lemma topodevs_tunnel: "ctrl_tunnel env man message s = Some t \<Longrightarrow> topodevs (ci_topo t) = topodevs (ci_topo s)"
  by (auto simp: ctrl_tunnel_def split: option.splits if_splits prod.splits)

lemma topodevs_ctrl_device: "ctrl_device env now mac d s = Some t \<Longrightarrow> topodevs (ci_topo t) = topodevs (ci_topo s)"
  by (auto simp: ctrl_device_def Let_def dest!: topodevs_post topodevs_tunnel split: option.splits if_splits)

lemma topodevs_handlers:
  "ctrlHandle env now s = Some (ret, t) \<Longrightarrow> topodevs (ci_topo t) = topodevs (ci_topo s)"
  "lmpHandle env s = Some (ret, t) \<Longrightarrow> topodevs (ci_topo t) = topodevs (ci_topo s)"
  "grpHandle env s = Some (ret, t) \<Longrightarrow> topodevs (ci_topo t) = topodevs (ci_topo s)"
  "sensorHandle now s = Some (ret, t) \<Longrightarrow> topodevs (ci_topo t) = topodevs (ci_topo s)"
  "dbgetHandle now s = Some (ret, t) \<Longrightarrow> topodevs (ci_topo t) = topodevs (ci_topo s)"
  "topodevs (ci_topo (snd (procHandle s))) = topodevs (ci_topo s)"
  by (auto simp: ctrlHandle_def lmpHandle_def grpHandle_def sensorHandle_def dbgetHandle_def procHandle_def Let_def
      dest!: topodevs_ctrl_device topodevs_post split: option.splits if_splits sum.splits)

lemma topodevs_edit: "dbEditHandle now s = Some (ret, t) \<Longrightarrow> topodevs (ci_topo t) = topodevs (ci_topo s)"
  by (drule dbEditHandle_result) auto

lemma topodevs_resetrsp: "cmd_resetrsp env val s = Some t \<Longrightarrow> topodevs (ci_topo t) = topodevs (ci_topo s)"
  by (auto simp: cmd_resetrsp_def Let_def dest!: topodevs_post split: option.splits if_splits)

lemma topodevs_action: "cmd_action env now s = Some (t, m) \<Longrightarrow> topodevs (ci_topo t) = topodevs (ci_topo s)"
  unfolding cmd_action_def Let_def
  by (auto dest!: topodevs_post topodevs_resetrsp split: option.splits if_splits)

lemma topodevs_cmd: "cmdHandle env now s = Some (ret, t) \<Longrightarrow> topodevs (ci_topo t) = topodevs (ci_topo s)"
  by (auto simp: cmdHandle_def dest!: topodevs_post topodevs_action split: option.splits)

lemma topodevs_add: "topo_add now nm s = Some t \<Longrightarrow> topodevs (ci_topo t) = topodevs (ci_topo s)"
  unfolding topo_add_def Let_def by (auto split: option.splits prod.splits)

lemma topodevs_command:
  assumes "topodevs (ci_topo s) = []" and "topo_command env p2 now cmd s = Some (r, u)"
  shows "topodevs (ci_topo u) = []"
proof -
  let ?s = "set_db (snd (newDbDevicesRemoveWithClearFlag (ci_db s))) s"
  have "topodevs (ci_topo u) = []" if "uploadTopo env p2 now ?s = Some (e, u)" for e
    using upload_empty [OF _ that] assms(1) by simp
  moreover have "topodevs (ci_topo u) = []" if "uploadTopo env p2 now s = Some (e, u)" for e
    using upload_empty [OF assms(1) that] assms(1) by simp
  ultimately show ?thesis
    using assms by (auto simp: topo_command_def split: if_splits)
qed

lemma topodevs_topo:
  assumes "topodevs (ci_topo s) = []" and "topoHandle env p2 now s = Some (ret, t)"
  shows "topodevs (ci_topo t) = []"
proof (cases "attr0 s ''cmd''")
  case None
  with assms show ?thesis
    by (auto simp: topoHandle_def bind_eq_Some_conv dest!: topodevs_add split: option.splits if_splits)
next
  case (Some cmd)
  then obtain r u where "topo_command env p2 now cmd s = Some (r, u)" "topodevs (ci_topo t) = topodevs (ci_topo u)"
    using assms(2) by (auto simp: topoHandle_def bind_eq_Some_conv split: if_splits)
  with topodevs_command [OF assms(1)] show ?thesis by simp
qed

lemma topodevs_dispatch:
  assumes "topodevs (ci_topo s) = []" and "ci_dispatch env p2 now name s = Some ((t, e), r)"
  shows "topodevs (ci_topo t) = []"
  using assms(2)
proof (cases rule: ci_dispatchE)
  case (topo ret)
  then show ?thesis by (rule topodevs_topo [OF assms(1)])
next
  case proc
  then show ?thesis using assms(1) topodevs_handlers(6) [of s] by (cases "procHandle s") (simp add: if_zero_def)
qed (use assms(1) in \<open>auto simp: if_zero_def if_negative_def topodevs_edit topodevs_cmd topodevs_handlers\<close>)

lemma topodevs_callbacks:
  "topodevs (ci_topo s) = [] \<Longrightarrow> ci_callbacks env p2 now evs s = Some t \<Longrightarrow> topodevs (ci_topo t) = []"
proof (induction evs arbitrary: s)
  case (Cons ev evs)
  from Cons.prems(2) obtain u where u: "ci_callback env p2 now ev s = Some u" "ci_callbacks env p2 now evs u = Some t"
    by (auto split: option.splits)
  have "topodevs (ci_topo u) = []"
  proof (cases ev)
    case (EvObjectComplete name)
    with u(1) obtain v e r where v: "ci_dispatch env p2 now name s = Some ((v, e), r)" "topodevs (ci_topo u) = topodevs (ci_topo v)"
      by (auto simp: ci_onObjectComplete_def split: option.splits if_splits)
    with topodevs_dispatch [OF Cons.prems(1) v(1)] show ?thesis by simp
  qed (use u(1) Cons.prems(1) in auto)
  with Cons.IH u(2) show ?case by blast
qed simp

text \<open>
  No topology is ever uploaded: nothing collects the devices for the generator, so from
  the start of the daemon on, after whatever messages, an upload writes no message to any
  queue, and reports success as soon as it gets its lock, even when a queue cannot be opened.
\<close>

theorem upload_sends_nothing:
  assumes "ci_topo s0 = topo_start" and "ci_callbacks env p2 now evs s0 = Some s"
    and "uploadTopo env p2 now s = Some (e, t)"
  shows "q_msgs (ci_ipc t) = q_msgs (ci_ipc s)
    \<and> e = (if fst (lockTopoUpload (lock_time env now) (lock_others env now) (ci_db s)) then IOT_ERROR_NONE else IOT_ERROR_TOPO_TIMEOUT)"
  using upload_empty [OF topodevs_callbacks [OF _ assms(2)] assms(3)] assms(1) by (simp add: topo_start_def)

theorem upload_sends_nothing_witness:
  "\<exists>p e t. uploadTopo example_env p 9 (example_state\<lparr>ci_polls := [[None, None]]\<rparr>) = Some (e, t) \<and> q_msgs (ci_ipc t) = (\<lambda>_. [])"
proof -
  let ?s = "example_state\<lparr>ci_polls := [[None, None]]\<rparr>"
  obtain ok m where lock: "lockTopoUpload (lock_time example_env 9) (lock_others example_env 9) (ci_db ?s) = (ok, m)" by fastforce
  have ipc: "ci_topo ?s = topo_start" "ci_polls ?s = [[None, None]]" "q_msgs (ci_ipc ?s) = (\<lambda>_. [])" "ci_mq example_env = \<lparr>env_get = \<lambda>_. GET_OK, env_snd = \<lambda>_. True\<rparr>"
    by (simp_all add: example_state_def example_env_def)
  have "\<exists>e t. uploadTopo example_env p 9 ?s = Some (e, t)" for p
    using lock by (cases ok) (simp_all add: uploadTopo_def ipc topo_start_def queueOpen_def topoGenerate_empty flush_queue.simps
        timed_read_def queueReadWithMsecTimeout_def QREAD_POLL_def)
  then obtain p e t where t: "uploadTopo example_env p 9 ?s = Some (e, t)" by blast
  have "ci_callbacks example_env p 9 [] ?s = Some ?s" by simp
  from upload_sends_nothing [OF ipc(1) this t] t ipc(3) show ?thesis by auto
qed

end
