(* ===== verification/ControlPath.thy ===== *)
theory ControlPath
  imports TopoConfig
begin

text \<open>
  From the bytes of a client to the device table and the queue of the Zigbee daemon: what the
  attribute tables hold after the call-backs of one message, and the registrations the
  handlers rely on.
\<close>

section \<open>The attributes of one message\<close>

fun assign_member :: "string \<times> json_value \<Rightarrow> parsing \<Rightarrow> parsing" where
  "assign_member (k, VInt i) p = snd (parsingIntAttr k i p)"
| "assign_member (k, VStr v) p = snd (parsingStringAttr k v p)"

fun int_members :: "(string \<times> json_value) list \<Rightarrow> (string \<times> c_int) list" where
  "int_members [] = []"
| "int_members ((k, VInt i) # ms) = (k, i) # int_members ms"
| "int_members ((k, VStr v) # ms) = int_members ms"

fun string_members :: "(string \<times> json_value) list \<Rightarrow> (string \<times> string) list" where
  "string_members [] = []"
| "string_members ((k, VInt i) # ms) = string_members ms"
| "string_members ((k, VStr v) # ms) = (k, v) # string_members ms"

definition assign_members :: "(string \<times> json_value) list \<Rightarrow> parsing \<Rightarrow> parsing" where
  "assign_members ms p = fold assign_member ms p"

lemma callbacks_members:
  "ci_callbacks env p2 now (map member_event ms @ evs) s
   = ci_callbacks env p2 now evs (s\<lparr>ci_attrs := assign_members ms (ci_attrs s)\<rparr>)"
proof (induction ms arbitrary: s)
  case (Cons x ms)
  obtain k v where x: "x = (k, v)" by (cases x)
  show ?case
    by (cases v) (simp_all add: x Cons.IH assign_members_def ci_onInteger_def ci_onString_def)
qed (simp add: assign_members_def)

text \<open>The two tables do not disturb each other.\<close>

lemma ints_of_string [simp]: "parsingIntAttrs (snd (parsingStringAttr k v p)) = parsingIntAttrs p"
  by (simp add: parsingStringAttr_def split: option.split)

lemma strings_of_int [simp]: "parsingStringAttrs (snd (parsingIntAttr k i p)) = parsingStringAttrs p"
  by (simp add: parsingIntAttr_def split: option.split)

lemma ints_assigned: "parsingIntAttrs q = parsingIntAttrs p \<Longrightarrow>
  parsingIntAttrs (assign_members ms q) = parsingIntAttrs (assign_all (\<lambda>k i q. snd (parsingIntAttr k i q)) (int_members ms) p)"
proof (induction ms arbitrary: p q rule: int_members.induct)
  case (2 k i ms)
  have "parsingIntAttrs (snd (parsingIntAttr k i q)) = parsingIntAttrs (snd (parsingIntAttr k i p))"
    using "2.prems" by (simp add: parsingIntAttr_def split: option.split)
  from "2.IH" [OF this] show ?case by (simp add: assign_members_def)
next
  case (3 k v ms)
  from "3.IH" [of "snd (parsingStringAttr k v q)" p] "3.prems" show ?case by (simp add: assign_members_def)
qed (simp add: assign_members_def)

lemma strings_assigned: "parsingStringAttrs q = parsingStringAttrs p \<Longrightarrow>
  parsingStringAttrs (assign_members ms q) = parsingStringAttrs (assign_all (\<lambda>k v q. snd (parsingStringAttr k v q)) (string_members ms) p)"
proof (induction ms arbitrary: p q rule: string_members.induct)
  case (2 k i ms)
  from "2.IH" [of "snd (parsingIntAttr k i q)" p] "2.prems" show ?case by (simp add: assign_members_def)
next
  case (3 k v ms)
  have "parsingStringAttrs (snd (parsingStringAttr k v q)) = parsingStringAttrs (snd (parsingStringAttr k v p))"
    using "3.prems" by (simp add: parsingStringAttr_def split: option.split)
  from "3.IH" [OF this] show ?case by (simp add: assign_members_def)
qed (simp add: assign_members_def)

lemma get_int_cong: "parsingIntAttrs q = parsingIntAttrs p \<Longrightarrow> parsingGetIntAttr q k = parsingGetIntAttr p k"
  by (simp add: parsingGetIntAttr_def split: option.split)

lemma string_fetch_cong: "parsingStringAttrs q = parsingStringAttrs p \<Longrightarrow> string_fetch q k = string_fetch p k"
  by (simp add: string_fetch_def parsingGetStringAttr_def split: option.split)

lemma int_after_message:
  assumes "parsing_wf p" and "int_known p k"
  shows "parsingGetIntAttr (assign_members ms (parsingReset p)) k = last_assigned (\<lambda>_. True) k INT_MIN (int_members ms)"
  using int_attrs.fetch_message [OF assms, of "int_members ms"] get_int_cong [OF ints_assigned [OF refl, of ms "parsingReset p"], of k]
  by simp

lemma attr0_fetch: "parsingGetStringAttr0 p k = (if string_fetch p k = [] then None else Some (string_fetch p k))"
  by (simp add: parsingGetStringAttr0_def string_fetch_def parsingGetStringAttr_def Let_def split: option.split)

lemma string_after_message:
  assumes "parsing_wf p" and "string_maxlen p k = Some n" and "\<forall>(k', v)\<in>set (string_members ms). fits_maxlen n v"
  shows "parsingGetStringAttr0 (assign_members ms (parsingReset p)) k
    = (let v = last_assigned (\<lambda>_. True) k [] (string_members ms) in if v = [] then None else Some v)"
proof -
  have known: "string_maxlen p k \<noteq> None" using assms(2) by simp
  have "string_fits p k v" if "fits_maxlen n v" for v using assms(2) that by (simp add: string_fits_def)
  with assms(3) have "last_assigned (string_fits p k) k d (string_members ms) = last_assigned (\<lambda>_. True) k d (string_members ms)" for d
    by (induction "string_members ms" arbitrary: ms d) (auto simp: last_assigned_def intro!: fold_cong)
  then show ?thesis
    using string_attrs.fetch_message [OF assms(1) known, of "string_members ms"]
      string_fetch_cong [OF strings_assigned [OF refl, of ms "parsingReset p"], of k]
    by (simp add: attr0_fetch Let_def)
qed

section \<open>The registrations\<close>

definition add_name :: "string \<Rightarrow> string list \<Rightarrow> string list" where
  "add_name k ns = (if k \<in> set ns \<or> 30 \<le> length ns then ns else ns @ [k])"

fun add_limit :: "string \<times> c_int \<Rightarrow> (string \<times> c_int) list \<Rightarrow> (string \<times> c_int) list" where
  "add_limit (k, n) [] = [(k, n)]"
| "add_limit (k, n) ((k', n') # xs) = (if k' = k then (k', max n n') # xs else (k', n') # add_limit (k, n) xs)"

definition int_names :: "parsing \<Rightarrow> string list" where
  "int_names p = map ia_name (parsingIntAttrs p)"

definition string_limits :: "parsing \<Rightarrow> (string \<times> c_int) list" where
  "string_limits p = map (\<lambda>a. (sa_name a, sa_maxlen a)) (parsingStringAttrs p)"

lemma int_names_add: "int_names (snd (parsingAddIntAttr k p)) = add_name k (int_names p)"
  by (auto simp: int_names_def add_name_def parsingAddIntAttr_def parsingExistsIntAttr_def idx_or_minus1_neg first_idx_None MAXINTATTRS_def)

lemma int_names_string: "int_names (snd (parsingAddStringAttr k n p)) = int_names p"
  by (simp add: int_names_def parsingAddStringAttr_def Let_def)

lemma string_limits_int: "string_limits (snd (parsingAddIntAttr k p)) = string_limits p"
  by (simp add: string_limits_def parsingAddIntAttr_def)

lemma add_limit_found:
  "first_idx (\<lambda>x. fst x = k) xs = Some i \<Longrightarrow> add_limit (k, n) xs = xs[i := (k, max n (snd (xs ! i)))]"
  by (induction xs arbitrary: i) (auto split: if_splits)

lemma add_limit_new: "first_idx (\<lambda>x. fst x = k) xs = None \<Longrightarrow> add_limit (k, n) xs = xs @ [(k, n)]"
  by (induction xs) (auto split: if_splits)

lemma first_idx_map: "first_idx P (map f xs) = first_idx (\<lambda>x. P (f x)) xs"
  by (induction xs) simp_all

lemma string_limits_idx: "first_idx (\<lambda>x. fst x = k) (string_limits p) = first_idx (\<lambda>a. sa_name a = k) (parsingStringAttrs p)"
  by (simp add: string_limits_def first_idx_map)

lemma string_limits_add:
  "string_limits (snd (parsingAddStringAttr k n p)) =
     (if k \<in> fst ` set (string_limits p) \<or> length (string_limits p) < 25 then add_limit (k, n) (string_limits p) else string_limits p)"
proof (cases "first_idx (\<lambda>a. sa_name a = k) (parsingStringAttrs p)")
  case None
  then have "k \<notin> fst ` set (string_limits p)" by (auto simp: first_idx_None string_limits_def)
  moreover have "add_limit (k, n) (string_limits p) = string_limits p @ [(k, n)]"
    using None by (intro add_limit_new) (simp add: string_limits_idx)
  ultimately show ?thesis
    using None by (simp add: parsingAddStringAttr_def parsingExistsStringAttr_def idx_or_minus1_def MAXSTRINGATTRS_def string_limits_def)
next
  case (Some i)
  then have i: "i < length (parsingStringAttrs p)" "sa_name (parsingStringAttrs p ! i) = k" by (auto simp: first_idx_Some_iff)
  then have "k \<in> fst ` set (string_limits p)" by (force simp: string_limits_def in_set_conv_nth)
  moreover have "add_limit (k, n) (string_limits p) = (string_limits p)[i := (k, max n (snd (string_limits p ! i)))]"
    using Some by (intro add_limit_found) (simp add: string_limits_idx)
  moreover have "(string_limits p)[i := (k, sa_maxlen (parsingStringAttrs p ! i))] = string_limits p"
    using i by (simp add: string_limits_def list_update_same_conv)
  ultimately show ?thesis
    using Some i
    by (auto simp: parsingAddStringAttr_def parsingExistsStringAttr_def Let_def string_limits_def map_update max_def idx_or_minus1_def)
qed

lemma registered:
  "int_names (add_attrs is ss p) = fold add_name is (int_names p)"
  "string_limits (add_attrs is ss p) =
     fold (\<lambda>(k, n) xs. if k \<in> fst ` set xs \<or> length xs < 25 then add_limit (k, n) xs else xs) ss (string_limits p)"
proof -
  have i: "int_names (fold (\<lambda>k q. snd (parsingAddIntAttr k q)) is q) = fold add_name is (int_names q)" for q
    by (induction "is" arbitrary: q) (simp_all add: int_names_add)
  have i': "string_limits (fold (\<lambda>k q. snd (parsingAddIntAttr k q)) is q) = string_limits q" for q
    by (induction "is" arbitrary: q) (simp_all add: string_limits_int)
  have s: "int_names (fold (\<lambda>(k, n) q. snd (parsingAddStringAttr k n q)) ss q) = int_names q" for q
    by (induction ss arbitrary: q) (auto simp: int_names_string)
  have s': "string_limits (fold (\<lambda>(k, n) q. snd (parsingAddStringAttr k n q)) ss q) =
      fold (\<lambda>(k, n) xs. if k \<in> fst ` set xs \<or> length xs < 25 then add_limit (k, n) xs else xs) ss (string_limits q)" for q
    by (induction ss arbitrary: q) (auto simp: string_limits_add)
  show "int_names (add_attrs is ss p) = fold add_name is (int_names p)" by (simp add: add_attrs_def i s)
  show "string_limits (add_attrs is ss p) =
      fold (\<lambda>(k, n) xs. if k \<in> fst ` set xs \<or> length xs < 25 then add_limit (k, n) xs else xs) ss (string_limits p)"
    unfolding add_attrs_def s' i' ..
qed

lemmas ci_inits = procInit_def grpInit_def lmpInit_def cmdInit_def sensorInit_def ctrlInit_def dbEditInit_def dbgetInit_def topoInit_def

lemma start_ints: "int_names ci_attrs_start =
  [''sid'', ''room'', ''rm'', ''ts'', ''dev'', ''id'', ''heat'', ''cool'', ''lvl'', ''rgb'', ''kelvin'', ''xloc'', ''yloc'', ''zloc'',
   ''reset'', ''resetrsp'', ''getversion'', ''duration'', ''nfcmode'', ''system'', ''grpid'', ''scnid'', ''xcr'', ''ycr'']"
  unfolding ci_attrs_start_def comp_def ci_inits registered
  by (simp add: add_name_def int_names_def parsing_init_def)

lemma start_strings: "string_limits ci_attrs_start =
  [(''nm'', 16), (''ty'', 8), (''cmd'', 16), (''man'', 16), (''ui'', 16), (''sen'', 16), (''pmp'', 16), (''lmp'', 16), (''plg'', 16),
   (''mac'', 16), (''add'', 16), (''rem'', 16), (''clr'', 16), (''table'', 10), (''col'', 10), (''val'', 16), (''chanmask'', 8),
   (''setpermit'', 16), (''strval'', 38), (''grp'', 16), (''scn'', 16), (''start'', 16), (''stop'', 16), (''restart'', 16)]"
  unfolding ci_attrs_start_def comp_def ci_inits registered
  by (simp add: string_limits_def parsing_init_def)

lemma string_maxlen_limits: "string_maxlen p k = map_option (\<lambda>i. snd (string_limits p ! i)) (first_idx (\<lambda>x. fst x = k) (string_limits p))"
  unfolding string_maxlen_def string_limits_idx
  by (rule map_option_cong) (auto simp: string_limits_def first_idx_Some_iff)

lemma start_wf: "parsing_wf ci_attrs_start"
proof -
  have adds: "parsing_wf (add_attrs is ss p)" if "parsing_wf p" "\<forall>(k, n)\<in>set ss. 0 \<le> n" for "is" ss p
    unfolding add_attrs_def by (rule registration_wf [OF that])
  show ?thesis unfolding ci_attrs_start_def comp_def ci_inits by (intro adds) simp_all
qed

lemma start_known:
  "string_maxlen ci_attrs_start ''mac'' = Some 16" "string_maxlen ci_attrs_start ''cmd'' = Some 16"
  "int_known ci_attrs_start ''lvl''" "int_known ci_attrs_start ''rgb''" "int_known ci_attrs_start ''kelvin''"
  "int_known ci_attrs_start ''heat''" "int_known ci_attrs_start ''cool''"
  using start_ints by (simp_all add: string_maxlen_limits start_strings int_known_map int_names_def)

section \<open>Printable messages\<close>

text \<open>The characters of a value that reach the parser as they are and need no escape.\<close>

definition text_char :: "char \<Rightarrow> bool" where
  "text_char c \<longleftrightarrow> plain_char c \<and> convertPrintable c = c"

lemma printable_code: "32 \<le> code c \<Longrightarrow> code c \<le> 126 \<Longrightarrow> convertPrintable c = c"
  by (simp add: convertPrintable_def char_le_code) (simp add: code_def)

lemma printable_name: "isValidNameChar c \<Longrightarrow> convertPrintable c = c"
  by (rule printable_code; auto simp: isValidNameChar_def isAlpha_def isNum_def char_le_code code_def)

lemma printable_number: "isNum c \<or> isSign c \<Longrightarrow> convertPrintable c = c"
  by (rule printable_code; auto simp: isNum_def isSign_def char_le_code code_def)

definition printable :: "string \<Rightarrow> bool" where
  "printable s \<longleftrightarrow> map convertPrintable s = s"

lemma printable_simps [simp]: "printable []" "printable (c # s) \<longleftrightarrow> convertPrintable c = c \<and> printable s"
  "printable (s @ t) \<longleftrightarrow> printable s \<and> printable t"
  by (auto simp: printable_def)

lemma printable_all: "list_all P s \<Longrightarrow> (\<And>c. P c \<Longrightarrow> convertPrintable c = c) \<Longrightarrow> printable s"
  by (induction s) auto

lemma printable_itoa: "printable (c_itoa n)"
proof -
  obtain d ds where d: "c_itoa n = d # ds" "isNum d \<or> isSign d" "list_all isNum ds" by (rule c_itoa_chars)
  then have "printable ds" by (intro printable_all [OF d(3)]) (simp add: printable_number)
  with d show ?thesis by (simp add: printable_number)
qed

fun text_value :: "json_value \<Rightarrow> bool" where
  "text_value (VInt i) = True"
| "text_value (VStr s) = list_all text_char s"

lemma printable_punctuation: "convertPrintable (CHR 0x22) = CHR 0x22" "convertPrintable (CHR '' '') = CHR '' ''"
  "convertPrintable (CHR ''{'') = CHR ''{''" "convertPrintable (CHR ''}'') = CHR ''}''"
  "convertPrintable (CHR '':'') = CHR '':''" "convertPrintable (CHR '','') = CHR '',''" "convertPrintable (CHR 0x0A) = CHR 0x0A"
  by code_simp+

lemma printable_member:
  assumes "ok_member m" and "text_value (snd m)"
  shows "printable (show_member m)"
proof -
  obtain n v where m: "m = (n, v)" by (cases m)
  have "list_all isValidNameChar n" using assms(1) by (simp add: m ok_member_def ok_name_def)
  then have "printable n" by (rule printable_all) (rule printable_name)
  moreover have "printable (show_value v)"
    using assms(2) printable_itoa by (cases v) (auto simp: m printable_punctuation text_char_def intro: printable_all)
  ultimately show ?thesis by (simp add: m show_member_def printable_punctuation)
qed

lemma printable_members: "list_all ok_member ms \<Longrightarrow> list_all (\<lambda>m. text_value (snd m)) ms \<Longrightarrow> printable (show_members '' '' ms)"
  by (induction "'' ''" ms rule: show_members.induct) (simp_all add: printable_member printable_punctuation)

lemma printable_message:
  "ok_message nm ms \<Longrightarrow> list_all (\<lambda>m. text_value (snd m)) ms \<Longrightarrow> map convertPrintable (show_message nm ms) = show_message nm ms"
  unfolding printable_def [symmetric] show_message_def
  by (auto simp: ok_message_def printable_punctuation printable_members intro: printable_all printable_name)

text \<open>A client that sends one message.\<close>

lemma at_top_start: "at_top [] ((jsonReset (json_init all_handlers))\<lparr>p_trace := []\<rparr>)"
  by (simp add: at_top_def json_inv_def jsonReset_def json_init_def poke_def name_row_def value_row_def json_sizes chars_size_num)

lemma handleClient_message:
  assumes "ok_message nm ms" and "list_all (\<lambda>m. text_value (snd m)) ms"
    and "packets_of packets (show_message nm ms)"
  shows "handleClient env p2 now packets (json_init all_handlers) s
    = ci_onObjectComplete env p2 now nm
        ((set_iotError IOT_ERROR_NONE s)\<lparr>ci_attrs := assign_members ms (parsingReset (ci_attrs s))\<rparr>)"
proof -
  have "p_trace (jsonEats (show_message nm ms) ((jsonReset (json_init all_handlers))\<lparr>p_trace := []\<rparr>)) = message_events nm ms"
    using eat_message [OF at_top_start assms(1)] by (simp add: at_top_def)
  then show ?thesis
    unfolding handleClient_def Let_def ci_packets_of [OF assms(3)] printable_message [OF assms(1,2)]
    by (simp add: message_events_def callbacks_members ci_onObjectStart_def split: option.split)
qed

section \<open>Control messages\<close>

definition ctrl_members :: "string \<Rightarrow> string option \<Rightarrow> c_int \<Rightarrow> c_int \<Rightarrow> c_int \<Rightarrow> (string \<times> json_value) list" where
  "ctrl_members mac cmd lvl rgb kelvin = [(''mac'', VStr mac)] @ opt_str ''cmd'' cmd @ opt_int ''lvl'' lvl @ opt_int ''rgb'' rgb @
     opt_int ''kelvin'' kelvin"

definition ok_text :: "nat \<Rightarrow> string \<Rightarrow> bool" where
  "ok_text n s \<longleftrightarrow> s \<noteq> [] \<and> length s \<le> n \<and> list_all text_char s"

definition ok_ctrl :: "string \<Rightarrow> string option \<Rightarrow> c_int \<Rightarrow> c_int \<Rightarrow> c_int \<Rightarrow> bool" where
  "ok_ctrl mac cmd lvl rgb kelvin \<longleftrightarrow> ok_text 16 mac \<and> strtoupper mac = mac \<and> (case cmd of None \<Rightarrow> True | Some c \<Rightarrow> ok_text 16 c)
     \<and> lvl \<le> INT_MAX \<and> rgb \<le> INT_MAX \<and> kelvin \<le> INT_MAX"

lemma ctrl_name_chars: "list_all isValidNameChar ''ctrl''" "list_all isValidNameChar ''mac''" "list_all isValidNameChar ''cmd''"
  "list_all isValidNameChar ''lvl''" "list_all isValidNameChar ''rgb''" "list_all isValidNameChar ''kelvin''"
  by code_simp+

lemma text_plain: "list_all text_char s \<Longrightarrow> list_all plain_char s"
  by (induction s) (auto simp: text_char_def)

lemma ctrl_message:
  assumes "ok_ctrl mac cmd lvl rgb kelvin"
  shows "ok_message ''ctrl'' (ctrl_members mac cmd lvl rgb kelvin)"
    and "list_all (\<lambda>m. text_value (snd m)) (ctrl_members mac cmd lvl rgb kelvin)"
    and "jsonControl mac cmd sid lvl rgb kelvin (- 1) (- 1) = Some (show_message ''ctrl'' (ctrl_members mac cmd lvl rgb kelvin))"
proof -
  let ?ms = "ctrl_members mac cmd lvl rgb kelvin"
  have strs: "ok_text 16 mac" "\<And>c. cmd = Some c \<Longrightarrow> ok_text 16 c" using assms by (simp_all add: ok_ctrl_def)
  have ints: "lvl \<le> INT_MAX" "rgb \<le> INT_MAX" "kelvin \<le> INT_MAX" using assms by (simp_all add: ok_ctrl_def)
  have members: "list_all ok_member ?ms"
    using strs ints ctrl_name_chars
    by (cases cmd) (auto simp: ctrl_members_def opt_int_def opt_str_def ok_member_def ok_name_def ok_text_def text_plain json_sizes INT_MIN_def)
  then show ok: "ok_message ''ctrl'' ?ms"
    using ctrl_name_chars(1)
    by (cases cmd) (auto simp: ok_message_def ctrl_members_def opt_int_def opt_str_def)
  show "list_all (\<lambda>m. text_value (snd m)) ?ms"
    using strs by (cases cmd) (auto simp: ctrl_members_def opt_int_def opt_str_def ok_text_def)
  have digits: "length (c_itoa n) \<le> 11" if "0 \<le> n" "n \<le> INT_MAX" for n
    using that by (intro length_c_itoa) (simp_all add: INT_MIN_def)
  have "message_fits ''ctrl'' ?ms"
    using strs ints digits [of lvl] digits [of rgb] digits [of kelvin]
    by (cases cmd) (auto simp: message_fits_def show_message_def ctrl_members_def opt_int_def opt_str_def show_member_def ok_text_def
        MAXNAMEVALUE_def MAXJSONMESSAGE_def)
  from json_msg_Some [OF ok this]
  show "jsonControl mac cmd sid lvl rgb kelvin (- 1) (- 1) = Some (show_message ''ctrl'' ?ms)"
    by (simp add: jsonControl_def ctrl_members_def) (simp add: opt_int_def)
qed

text \<open>An absent member reads as \<open>INT_MIN\<close>, a negative number is not sent.\<close>

definition sent_int :: "c_int \<Rightarrow> c_int" where
  "sent_int i = (if i \<ge> 0 then i else INT_MIN)"

lemma ctrl_attributes:
  assumes "ok_ctrl mac cmd lvl rgb kelvin"
  defines "p \<equiv> assign_members (ctrl_members mac cmd lvl rgb kelvin) (parsingReset ci_attrs_start)"
  shows "parsingGetStringAttr0 p ''mac'' = Some mac" "parsingGetStringAttr0 p ''cmd'' = cmd"
    "parsingGetIntAttr p ''lvl'' = sent_int lvl" "parsingGetIntAttr p ''rgb'' = sent_int rgb" "parsingGetIntAttr p ''kelvin'' = sent_int kelvin"
proof -
  have strs: "ok_text 16 mac" "\<And>c. cmd = Some c \<Longrightarrow> ok_text 16 c" using assms by (simp_all add: ok_ctrl_def)
  have fits: "\<forall>(k, v)\<in>set (string_members (ctrl_members mac cmd lvl rgb kelvin)). fits_maxlen 16 v"
    using strs by (cases cmd) (auto simp: ctrl_members_def opt_int_def opt_str_def ok_text_def fits_maxlen_def)
  have ne: "mac \<noteq> []" "cmd \<noteq> Some []" using strs(1) strs(2) [of "[]"] by (auto simp: ok_text_def)
  have mac: "last_assigned (\<lambda>_. True) ''mac'' [] (string_members (ctrl_members mac cmd lvl rgb kelvin)) = mac"
    by (cases cmd) (simp_all add: ctrl_members_def opt_int_def opt_str_def)
  show "parsingGetStringAttr0 p ''mac'' = Some mac"
    unfolding p_def string_after_message [OF start_wf start_known(1) fits] mac using ne(1) by simp
  have cmd: "last_assigned (\<lambda>_. True) ''cmd'' [] (string_members (ctrl_members mac cmd lvl rgb kelvin)) = (case cmd of None \<Rightarrow> [] | Some c \<Rightarrow> c)"
    by (cases cmd) (simp_all add: ctrl_members_def opt_int_def opt_str_def)
  show "parsingGetStringAttr0 p ''cmd'' = cmd"
    unfolding p_def string_after_message [OF start_wf start_known(2) fits] cmd using ne(2) by (cases cmd) simp_all
  show "parsingGetIntAttr p ''lvl'' = sent_int lvl" "parsingGetIntAttr p ''rgb'' = sent_int rgb" "parsingGetIntAttr p ''kelvin'' = sent_int kelvin"
    unfolding p_def int_after_message [OF start_wf start_known(3)] int_after_message [OF start_wf start_known(4)] int_after_message [OF start_wf start_known(5)]
    by (cases cmd; simp add: ctrl_members_def opt_int_def opt_str_def sent_int_def)+
qed

lemma sent_lamp [simp]:
  "ctrl_lamp_device cmd (sent_int lvl) (sent_int rgb) (sent_int kelvin) d = ctrl_lamp_device cmd lvl rgb kelvin d"
  by (simp add: ctrl_lamp_device_def sent_int_def INT_MIN_def)

lemma sent_message:
  "jsonLampToZigbee xy mac cmd (sent_int lvl) (sent_int rgb) (ctrl_lamp_kelvin cmd (sent_int kelvin) d)
   = jsonLampToZigbee xy mac cmd lvl rgb (ctrl_lamp_kelvin cmd kelvin d)"
  by (auto simp: jsonLampToZigbee_def ctrl_lamp_kelvin_def sent_int_def INT_MIN_def Let_def opt_int_def)

text \<open>Making the mac upper case leaves the other attributes as they are.\<close>

lemma attr0_upcase: "k \<noteq> name \<Longrightarrow> attr0 (upcase_attr name s) k = attr0 s k"
proof -
  assume k: "k \<noteq> name"
  let ?f = "\<lambda>a. if sa_name a = name then a\<lparr>sa_value := strtoupper (sa_value a)\<rparr> else a"
  have names: "sa_name (?f a) = sa_name a" for a by simp
  have "first_idx (\<lambda>a. sa_name a = k) (map ?f xs) = first_idx (\<lambda>a. sa_name a = k) xs" for xs
    unfolding first_idx_map names ..
  note idx = this [of "parsingStringAttrs (ci_attrs s)"]
  show ?thesis
  proof (cases "first_idx (\<lambda>a. sa_name a = k) (parsingStringAttrs (ci_attrs s))")
    case None
    with idx show ?thesis by (simp add: upcase_attr_def parsingGetStringAttr0_def)
  next
    case (Some i)
    then have "i < length (parsingStringAttrs (ci_attrs s))" "sa_name (parsingStringAttrs (ci_attrs s) ! i) \<noteq> name"
      using k by (auto simp: first_idx_Some_iff)
    with Some idx show ?thesis by (simp add: upcase_attr_def parsingGetStringAttr0_def)
  qed
qed

lemma attri_upcase [simp]: "attri (upcase_attr name s) k = attri s k"
  unfolding upcase_attr_def by (simp add: get_int_cong [of "ci_attrs s\<lparr>parsingStringAttrs := x\<rparr>" "ci_attrs s" for x])

text \<open>What the handler does with the attributes of a lamp message.\<close>

lemma ctrl_lamp_handled:
  assumes "newDbGetDevice mac (ci_db s) = Some d" and "dev_dev d = DEVICE_DEV_LAMP" and "strtoupper mac = mac"
    and "attr0 s ''mac'' = Some mac" and "attr0 s ''cmd'' = cmd" and "attri s ''lvl'' = sent_int lvl"
    and "attri s ''rgb'' = sent_int rgb" and "attri s ''kelvin'' = sent_int kelvin"
    and "queue_usable (ci_mq env) QUEUE_KEY_ZCB_IN"
    and "jsonLampToZigbee (rgb2xy env) mac cmd lvl rgb (ctrl_lamp_kelvin cmd kelvin (ctrl_lamp_device cmd lvl rgb kelvin d)) = Some msg"
    and "length msg \<le> 298"
  shows "\<exists>t. ci_onObjectComplete env p2 now ''ctrl'' s = Some t \<and> ci_sent t = ci_sent s
    \<and> ci_db t = snd (newDbSetDevice now (ctrl_lamp_device cmd lvl rgb kelvin d) (ci_db s))
    \<and> q_msgs (ci_ipc t) = (q_msgs (ci_ipc s))(QUEUE_KEY_ZCB_IN := q_msgs (ci_ipc s) QUEUE_KEY_ZCB_IN @ [msg])"
proof -
  let ?s = "upcase_attr ''mac'' (set_iotError IOT_ERROR_NONE s)"
  let ?d = "ctrl_lamp_device cmd lvl rgb kelvin d"
  have err: "attr0 (set_iotError IOT_ERROR_NONE s) k = attr0 s k" "attri (set_iotError IOT_ERROR_NONE s) k = attri s k" for k
    by (simp_all add: set_iotError_def)
  have cmd: "attr0 ?s ''cmd'' = cmd" using assms(5) by (simp add: attr0_upcase err)
  have ints: "attri ?s ''lvl'' = sent_int lvl" "attri ?s ''rgb'' = sent_int rgb" "attri ?s ''kelvin'' = sent_int kelvin"
    using assms(6-8) by (simp_all add: err)
  let ?t = "?s\<lparr>ci_ipc := snd (queueWriteOneMessage (ci_mq env) QUEUE_KEY_ZCB_IN msg (ci_ipc ?s))\<rparr>"
  have post: "post env QUEUE_KEY_ZCB_IN (jsonLampToZigbee (rgb2xy env) mac cmd (sent_int lvl) (sent_int rgb)
      (ctrl_lamp_kelvin cmd (sent_int kelvin) ?d)) ?s = Some ?t"
    unfolding sent_message assms(10) by (simp add: post_def)
  have "ctrl_device env now mac d ?s = Some (save_device now ?d ?t)"
    unfolding ctrl_device_def Let_def cmd ints sent_lamp post using assms(2) by (simp add: dev_kinds)
  then have "ctrlHandle env now s = Some (of_bool (iotError (save_device now ?d ?t) = IOT_ERROR_NONE), save_device now ?d ?t)"
    using assms(1,3,4) by (simp add: ctrlHandle_def err Let_def)
  then have "ci_onObjectComplete env p2 now ''ctrl'' s = Some (set_iotError IOT_ERROR_NONE (save_device now ?d ?t))"
    using logbuffer_fits_short [of "''ctrl''"] by (simp add: ci_onObjectComplete_def ci_dispatch_def if_negative_def)
  then show ?thesis
    using assms(9,11) by (simp add: save_device_def ci_setters)
qed

section \<open>The tables stay typed\<close>

text \<open>
  C9: Whatever bytes a client sends, in whatever packets, the tables stay typed: if the device and
  system tables carry their indexes and distinct keys and every text in them fits its field,
  and the other processes keep this too, then it holds again after the client is served, as far
  as the daemon serves it without undefined behaviour (a packet of more than 190 bytes overflows its log
  buffer); and the attribute tables, as they are registered at the start, never hold a
  text longer than their limits.
\<close>

theorem client_keeps_types:
  assumes "attrs_ok (ci_attrs s)" and "db_typed (ci_db s)"
    and "\<And>now w m. db_typed m \<Longrightarrow> db_typed (lock_others env now w m)"
    and "handleClient env p2 now packets p s = Some t"
  shows "attrs_ok (ci_attrs t) \<and> db_typed (ci_db t) \<and> attrs_ok ci_attrs_start"
proof -
  have "ci_ok (set_iotError IOT_ERROR_NONE s)" "others_ok env" using assms(1-3) by (auto simp: ci_ok_def others_ok_def)
  moreover obtain evs where "ci_callbacks env p2 now evs (set_iotError IOT_ERROR_NONE s) = Some t"
    using assms(4) by (auto simp: handleClient_def Let_def split: option.splits)
  ultimately have "ci_ok t" by (rule ci_ok_callbacks)
  moreover have "attrs_ok ci_attrs_start" by (rule ci_attrs_start_ok)
  ultimately show ?thesis by (simp add: ci_ok_def)
qed

text \<open>A client that adds a lamp to the empty device table, in two packets.\<close>

definition add_members :: "(string \<times> json_value) list" where
  "add_members = [(''add'', VStr ''0A''), (''dev'', VInt 6), (''ty'', VStr ''dim'')]"

theorem client_keeps_types_witness:
  "\<exists>p t. handleClient example_env p 7 [take 9 (show_message ''dbedit'' add_members), drop 9 (show_message ''dbedit'' add_members)]
       (json_init all_handlers) (example_state\<lparr>ci_attrs := ci_attrs_start\<rparr>) = Some t
     \<and> db_typed (ci_db t) \<and> (\<exists>d. newDbGetDevice ''0A'' (ci_db t) = Some d)"
proof -
  let ?txt = "show_message ''dbedit'' add_members" and ?e = "example_state\<lparr>ci_attrs := ci_attrs_start\<rparr>"
  define p where "p = assign_members add_members (parsingReset ci_attrs_start)"
  have names: "list_all isValidNameChar ''dbedit''" "list_all isValidNameChar ''add''" "list_all isValidNameChar ''dev''"
    "list_all isValidNameChar ''ty''" "list_all text_char ''0A''" "list_all text_char ''dim''"
    "list_all plain_char ''0A''" "list_all plain_char ''dim''" by code_simp+
  have msg: "ok_message ''dbedit'' add_members" "list_all (\<lambda>m. text_value (snd m)) add_members"
    using names by (simp_all add: ok_message_def add_members_def ok_member_def ok_name_def text_plain json_sizes INT_MIN_def INT_MAX_def)
  have "length ?txt \<le> 100" "9 < length ?txt" by code_simp+
  then have packets: "packets_of [take 9 ?txt, drop 9 ?txt] ?txt"
    by (auto simp: packets_of_def)
  have fits: "\<forall>(k, v)\<in>set (string_members add_members). fits_maxlen 8 v" "\<forall>(k, v)\<in>set (string_members add_members). fits_maxlen 16 v"
    by (simp_all add: add_members_def fits_maxlen_def)
  have known: "string_maxlen ci_attrs_start ''add'' = Some 16" "string_maxlen ci_attrs_start ''ty'' = Some 8" "int_known ci_attrs_start ''dev''"
    using start_ints by (simp_all add: string_maxlen_limits start_strings int_known_map int_names_def)
  have attrs: "parsingGetStringAttr0 p ''add'' = Some ''0A''" "parsingGetStringAttr0 p ''ty'' = Some ''dim''" "parsingGetIntAttr p ''dev'' = 6"
    unfolding p_def string_after_message [OF start_wf known(1) fits(2)] string_after_message [OF start_wf known(2) fits(1)]
      int_after_message [OF start_wf known(3)]
    by (simp_all add: add_members_def)
  have ty: "parsingGetStringAttr p ''ty'' = Some ''dim''"
    using attrs(2) by (auto simp: parsingGetStringAttr0_def parsingGetStringAttr_def Let_def split: option.splits if_splits)
  let ?s = "(set_iotError IOT_ERROR_NONE ?e)\<lparr>ci_attrs := p\<rparr>"
  have dev: "dev_ok (Some db_fresh)" using db_typed_fresh by (simp add: db_typed_def)
  have keys: "stored_keys dev_rows dev_mac (Some db_fresh) = {}" by (auto simp: stored_keys_def row_keys_def db_fresh_def)
  obtain m d where m: "dbEditAdd 7 ''0A'' 6 ''dim'' (Some db_fresh) = (IOT_ERROR_NONE, m)" "newDbGetDevice ''0A'' m = Some d"
    using dbedit_add_outcomes [OF dev, of "''0A''" "''0B''" 6 7 "''dim''"] keys
    by (auto simp: LEN_MAC_NIBBLE_def NEWDB_MAX_DEVICES_def DEVICE_DEV_UNKNOWN_def)
  have action: "dbEdit_action 7 ?s = Some (IOT_ERROR_NONE, m)"
    using attrs ty m(1) by (simp add: dbEdit_action_def set_iotError_def example_state_def)
  have "ci_onObjectComplete example_env p2 7 ''dbedit'' ?s = Some (set_iotError IOT_ERROR_NONE (set_db m ?s))" for p2
    using action logbuffer_fits_short [of "''dbedit''"]
    by (simp add: ci_onObjectComplete_def ci_dispatch_def if_zero_def dbEditHandle_def Let_def set_iotError_def set_db_def IOT_ERROR_NONE_def)
  then have run: "handleClient example_env p2 7 [take 9 ?txt, drop 9 ?txt] (json_init all_handlers) ?e
      = Some (set_iotError IOT_ERROR_NONE (set_db m ?s))" for p2
    using handleClient_message [OF msg packets, of example_env p2 7 ?e] by (simp add: p_def)
  have "attrs_ok (ci_attrs ?e)" "db_typed (ci_db ?e)"
    using ci_attrs_start_ok db_typed_fresh by (simp_all add: example_state_def)
  from client_keeps_types [OF this _ run [of undefined]] have "db_typed (ci_db (set_iotError IOT_ERROR_NONE (set_db m ?s)))"
    by (simp add: example_env_def)
  with run [of undefined] m(2) show ?thesis
    by (intro exI [of _ undefined] exI [of _ "set_iotError IOT_ERROR_NONE (set_db m ?s)"]) (simp add: set_iotError_def set_db_def)
qed

end
