(* ===== verification/ChildTable.thy ===== *)
theory ChildTable
  imports IotPrelude
begin

text \<open>
  The client processes of the control interface daemon (\<open>ci_main.c\<close>): every client is served
  by a forked child whose process id is kept in a table of ten, zero marking a free place.
  When the table is full the daemon waits for a child to end and then kills one.
\<close>

definition MAXCHILDREN :: nat where "MAXCHILDREN = 10"

definition initChildren :: "int list" where
  "initChildren = replicate MAXCHILDREN 0"

definition addChild :: "int \<Rightarrow> int list \<Rightarrow> int \<times> int list" where
  "addChild pid cs = (case first_idx (\<lambda>c. c = 0) cs of Some i \<Rightarrow> (int i, cs[i := pid]) | None \<Rightarrow> (- 1, cs))"

definition remChild :: "int \<Rightarrow> int list \<Rightarrow> int \<times> int list" where
  "remChild pid cs = (case first_idx (\<lambda>c. c = pid) cs of Some i \<Rightarrow> (int i, cs[i := 0]) | None \<Rightarrow> (- 1, cs))"

definition numChildren :: "int list \<Rightarrow> nat" where
  "numChildren cs = length (filter (\<lambda>c. c \<noteq> 0) cs)"

text \<open>The process ids that are killed; 0 is the whole process group of the daemon.\<close>

definition killAllChildren :: "int list \<Rightarrow> int list" where
  "killAllChildren cs = cs"

text \<open>
  The smallest process id is used as the position of the child that is killed; \<open>None\<close> is an
  access outside the table.
\<close>

definition smallest :: "int list \<Rightarrow> int" where
  "smallest cs = fold (\<lambda>c oldest. if c < oldest then c else oldest) cs 2147483647"

definition killOldest :: "int list \<Rightarrow> int list option" where
  "killOldest cs =
     (let oldest = smallest cs
      in if oldest \<noteq> 2147483647 then
           (if 0 \<le> oldest \<and> nat oldest < length cs then Some [cs ! nat oldest] else None)
         else Some [])"

text \<open>
  The wait for a free place: \<open>ended\<close> are the children that end during each sleep, which the
  signal handler removes.  The counter is tested before the number of children.
\<close>

fun wait_children :: "nat \<Rightarrow> int list list \<Rightarrow> int list \<Rightarrow> (bool \<times> int list) option" where
  "wait_children cnt [] cs = None"
| "wait_children cnt (ended # rest) cs =
     (let cs' = fold (\<lambda>pid t. snd (remChild pid t)) ended cs
      in if cnt = 0 then Some (True, cs')
         else if MAXCHILDREN \<le> numChildren cs' then wait_children (cnt - 1) rest cs'
         else Some (False, cs'))"

text \<open>What the parent does with a new child: the processes it kills and the table.\<close>

definition new_child :: "int list list \<Rightarrow> int \<Rightarrow> int list \<Rightarrow> (int list \<times> int list) option" where
  "new_child ended pid cs = (case addChild pid cs of (i, cs1) \<Rightarrow>
     if i \<ge> 0 then
       (if MAXCHILDREN \<le> numChildren cs1 then
          (case wait_children 50 ended cs1 of
             None \<Rightarrow> None
           | Some (late, cs2) \<Rightarrow> if late then map_option (\<lambda>killed. (killed, cs2)) (killOldest cs2) else Some ([], cs2))
        else Some ([], cs1))
     else Some ([pid], cs1))"

section \<open>The table as a set of processes\<close>

definition children_ok :: "int list \<Rightarrow> bool" where
  "children_ok cs \<longleftrightarrow> length cs = MAXCHILDREN \<and> distinct (filter (\<lambda>c. c \<noteq> 0) cs)"

definition children_of :: "int list \<Rightarrow> int set" where
  "children_of cs = set cs - {0}"

lemma filter_update_other:
  "i < length cs \<Longrightarrow> \<not> P x \<Longrightarrow> \<not> P (cs ! i) \<Longrightarrow> filter P (cs[i := x]) = filter P cs"
  by (induction cs arbitrary: i) (auto simp: nth_Cons split: nat.split)

lemma first_idx_split:
  assumes "first_idx P cs = Some i"
  obtains ys zs where "cs = ys @ cs ! i # zs" "length ys = i" "P (cs ! i)" "\<forall>y\<in>set ys. \<not> P y"
proof
  from assms have i: "i < length cs" "P (cs ! i)" "\<forall>j<i. \<not> P (cs ! j)" by (auto simp: first_idx_Some_iff)
  then show "cs = take i cs @ cs ! i # drop (Suc i) cs" by (simp add: id_take_nth_drop)
  show "length (take i cs) = i" "P (cs ! i)" using i by simp_all
  show "\<forall>y\<in>set (take i cs). \<not> P y" using i by (auto simp: in_set_conv_nth)
qed

lemma addChild_free:
  assumes "children_ok cs" and "pid \<noteq> 0" and "pid \<notin> children_of cs" and "0 \<in> set cs"
  shows "\<exists>i cs'. addChild pid cs = (int i, cs') \<and> children_ok cs' \<and> children_of cs' = insert pid (children_of cs)
    \<and> numChildren cs' = Suc (numChildren cs)"
proof -
  obtain i where i: "first_idx (\<lambda>c. c = 0) cs = Some i"
    using assms(4) first_idx_None [of "\<lambda>c. c = 0" cs] by (cases "first_idx (\<lambda>c. c = 0) cs") auto
  then obtain ys zs where split: "cs = ys @ 0 # zs" "length ys = i" "\<forall>y\<in>set ys. y \<noteq> 0"
    by (rule first_idx_split) auto
  then have "cs[i := pid] = ys @ pid # zs" by (simp add: list_update_append)
  then show ?thesis
    using assms i split by (auto simp: addChild_def children_ok_def children_of_def numChildren_def)
qed

lemma remChild_known:
  assumes "children_ok cs" and "pid \<noteq> 0"
  shows "children_ok (snd (remChild pid cs)) \<and> children_of (snd (remChild pid cs)) = children_of cs - {pid}"
proof (cases "first_idx (\<lambda>c. c = pid) cs")
  case None
  then have "snd (remChild pid cs) = cs" by (simp add: remChild_def)
  moreover have "pid \<notin> set cs" using None by (auto simp: first_idx_None)
  ultimately show ?thesis using assms(1) by (simp add: children_of_def)
next
  case (Some i)
  then obtain ys zs where split: "cs = ys @ pid # zs" "length ys = i" "\<forall>y\<in>set ys. y \<noteq> pid"
    by (rule first_idx_split) auto
  then have "cs[i := 0] = ys @ 0 # zs" by (simp add: list_update_append)
  then show ?thesis
    using assms Some split by (auto simp: remChild_def children_ok_def children_of_def)
qed

lemma fold_smallest:
  "fold (\<lambda>c oldest. if c < oldest then c else oldest) cs a \<in> insert a (set cs)
   \<and> (\<forall>c\<in>insert a (set cs). fold (\<lambda>c oldest. if c < oldest then c else oldest) cs a \<le> c)" for a :: int
proof (induction cs arbitrary: a)
  case (Cons c cs)
  from Cons.IH [of "if c < a then c else a"] show ?case by (auto split: if_splits)
qed simp

lemma smallest_in: "c \<in> set cs \<Longrightarrow> c < 2147483647 \<Longrightarrow> smallest cs \<in> set cs \<and> (\<forall>c\<in>set cs. smallest cs \<le> c)"
  using fold_smallest [of cs 2147483647] by (fastforce simp: smallest_def)

section \<open>Properties\<close>

text \<open>
  The oldest child is never killed: in a table of process ids above nine, a full table
  makes \<open>killOldest\<close> read outside the table, and with a free place it kills whatever stands
  in the first place, which is the whole process group when that one is free.  So when ten
  clients stay for the whole wait, the daemon reads out of bounds.
\<close>

theorem kill_oldest_misses:
  assumes "length cs = MAXCHILDREN" and "\<forall>c\<in>set cs. c = 0 \<or> 10 \<le> c \<and> c < 2147483647"
  shows "killOldest cs = (if 0 \<in> set cs then Some [cs ! 0] else None)"
proof -
  obtain c where c: "c \<in> set cs" using assms(1) by (cases cs) (auto simp: MAXCHILDREN_def)
  have small: "c < 2147483647" using assms(2) c by fastforce
  from smallest_in [OF c small] have sm: "smallest cs \<in> set cs" "\<And>c. c \<in> set cs \<Longrightarrow> smallest cs \<le> c" by auto
  note mem = bspec [OF assms(2) sm(1)]
  show ?thesis
  proof (cases "0 \<in> set cs")
    case True
    from sm(2) [OF this] mem have "smallest cs = 0" by linarith
    with True assms(1) show ?thesis by (simp add: killOldest_def MAXCHILDREN_def)
  next
    case False
    with sm(1) have "smallest cs \<noteq> 0" by metis
    with mem have "10 \<le> smallest cs" "smallest cs \<noteq> 2147483647" by auto
    with False assms(1) show ?thesis by (simp add: killOldest_def MAXCHILDREN_def Let_def)
  qed
qed

theorem kill_oldest_misses_witness:
  "killOldest [4001, 4002, 4003, 4004, 4005, 4006, 4007, 4008, 4009, 4010] = None"
  using kill_oldest_misses [of "[4001, 4002, 4003, 4004, 4005, 4006, 4007, 4008, 4009, 4010]"]
  by (simp add: MAXCHILDREN_def)

text \<open>
  The table is the set of the children: adding a new process to a table that has a free
  place makes it a member, the end of a process takes it out, and the entries stay distinct.
\<close>

theorem child_table_set:
  assumes "children_ok cs" and "pid \<noteq> 0" and "pid \<notin> children_of cs" and "0 \<in> set cs" and "q \<noteq> 0"
  shows "fst (addChild pid cs) \<ge> 0
    \<and> children_of (snd (remChild q (snd (addChild pid cs)))) = insert pid (children_of cs) - {q}
    \<and> children_ok (snd (remChild q (snd (addChild pid cs))))"
proof -
  obtain i cs' where add: "addChild pid cs = (int i, cs')" "children_ok cs'" "children_of cs' = insert pid (children_of cs)"
    using addChild_free [OF assms(1-4)] by blast
  with remChild_known [OF add(2) assms(5)] show ?thesis by simp
qed

theorem child_table_set_witness:
  "children_of (snd (remChild 77 (snd (addChild 42 initChildren)))) = {42}"
  using child_table_set [of initChildren 42 77]
  by (simp add: initChildren_def children_ok_def children_of_def MAXCHILDREN_def)

end
