(* ===== verification/ZcbState.thy ===== *)
theory ZcbState
  imports Parsing JsonCreate SystemTable PlugUsage MsgQueue SerialLink "HOL-Library.Monad_Syntax"
begin

text \<open>
  What the parts of the Zigbee daemon share (\<open>daemons/ZCB\<close>).  The state holds the attribute
  tables, the database, the message queues, the requests written to the control bridge, the
  number of waits for its messages, the commands written to the control interface, and the
  static variables.  The radio module is not part of the program: how it answers the
  \<open>n\<close>-th request (\<open>eSL_SendMessage\<close>: the status, and the sequence number of a success) and
  what the \<open>n\<close>-th wait (\<open>eSL_MessageWait\<close>) brings are arguments, as are the outcome of opening
  the control socket and the numbers of \<open>rand\<close>.  A result \<open>None\<close> is undefined behaviour in C
  (a read past a message, an uninitialised structure, a null string) or a loop that does not
  end.  Log and debug output is left out.
\<close>

section \<open>Fields of messages\<close>

definition be32 :: "u32 \<Rightarrow> u8 list" where
  "be32 w = be16 (ucast (drop_bit 16 w)) @ be16 (ucast w)"

definition be64 :: "u64 \<Rightarrow> u8 list" where
  "be64 w = be32 (ucast (drop_bit 32 w)) @ be32 (ucast w)"

definition get8 :: "u8 list \<Rightarrow> nat \<Rightarrow> u8 option" where
  "get8 m i = (if i < length m then Some (m ! i) else None)"

definition get16 :: "u8 list \<Rightarrow> nat \<Rightarrow> u16 option" where
  "get16 m i = do { hi \<leftarrow> get8 m i; lo \<leftarrow> get8 m (i + 1); Some (unbe16 hi lo) }"

definition get32 :: "u8 list \<Rightarrow> nat \<Rightarrow> u32 option" where
  "get32 m i = do { hi \<leftarrow> get16 m i; lo \<leftarrow> get16 m (i + 2); Some (push_bit 16 (ucast hi) OR ucast lo) }"

definition get64 :: "u8 list \<Rightarrow> nat \<Rightarrow> u64 option" where
  "get64 m i = do { hi \<leftarrow> get32 m i; lo \<leftarrow> get32 m (i + 4); Some (push_bit 32 (ucast hi) OR ucast lo) }"

definition get_bytes :: "u8 list \<Rightarrow> nat \<Rightarrow> nat \<Rightarrow> u8 list option" where
  "get_bytes m i n = (if i + n \<le> length m then Some (take n (drop i m)) else None)"

lemma length_be [simp]: "length (be32 w) = 4" "length (be64 v) = 8"
  by (simp_all add: be32_def be64_def)

lemma get8_append [simp]:
  "i < length xs \<Longrightarrow> get8 (xs @ ys) i = get8 xs i"
  "get8 (xs @ ys) (length xs + i) = get8 ys i"
  by (auto simp: get8_def nth_append)

lemma get16_be16: "get16 (xs @ be16 w @ ys) (length xs) = Some w"
  by (simp add: get16_def get8_def be16_def nth_append)

lemma join_halves32: "push_bit 16 (ucast (ucast (drop_bit 16 w) :: u16)) OR ucast (ucast w :: u16) = (w :: u32)"
  by (rule bit_word_eqI) (auto simp: bit_simps)

lemma join_halves64: "push_bit 32 (ucast (ucast (drop_bit 32 w) :: u32)) OR ucast (ucast w :: u32) = (w :: u64)"
  by (rule bit_word_eqI) (auto simp: bit_simps)

lemma get32_be32: "get32 (xs @ be32 w @ ys) (length xs) = Some w"
proof -
  have "get16 (xs @ be32 w @ ys) (length xs) = Some (ucast (drop_bit 16 w))"
    by (simp add: be32_def get16_be16)
  moreover have "get16 ((xs @ be16 (ucast (drop_bit 16 w))) @ be16 (ucast w) @ ys) (length (xs @ be16 (ucast (drop_bit 16 w))))
      = Some (ucast w)" by (rule get16_be16)
  ultimately show ?thesis by (simp add: get32_def be32_def join_halves32)
qed

lemma get64_be64: "get64 (xs @ be64 w @ ys) (length xs) = Some w"
proof -
  have "get32 (xs @ be64 w @ ys) (length xs) = Some (ucast (drop_bit 32 w))"
    by (simp add: be64_def get32_be32)
  moreover have "get32 ((xs @ be32 (ucast (drop_bit 32 w))) @ be32 (ucast w) @ ys) (length (xs @ be32 (ucast (drop_bit 32 w))))
      = Some (ucast w)" by (rule get32_be32)
  ultimately show ?thesis by (simp add: get64_def be64_def join_halves64)
qed

section \<open>State and environment\<close>

text \<open>The last reported values of a plug meter; they are shared by all plugs.\<close>

record meter =
  eSummationDelivered :: u64
  eInstantaneousDemand :: u64
  eMeteringDeviceType :: u64
  eUnitOfMeasure :: u64
  eMultiplier :: u64
  eDivisor :: u64

definition meter_start :: meter where
  "meter_start = \<lparr>eSummationDelivered = 0, eInstantaneousDemand = 0, eMeteringDeviceType = - 1, eUnitOfMeasure = - 1,
     eMultiplier = 0, eDivisor = 0\<rparr>"

record zcb_state =
  z_attrs :: parsing
  z_db :: "newdb option"
  z_ipc :: ipc
  z_requests :: "(u16 \<times> u8 list) list"
  z_waits :: nat
  z_control :: "string list"
  z_tunnel :: u16
  z_log_id :: u32
  z_meter :: meter
  z_cleanup :: c_int
  z_versions :: c_int

record zcb_env =
  sl_answer :: "nat \<Rightarrow> teSL_Status \<times> u8"
  sl_wait :: "nat \<Rightarrow> u8 list option"
  ze_mq :: mq_env
  ze_control :: bool
  ze_rand :: nat

type_synonym teZcbStatus = c_int

definition E_ZCB_OK :: teZcbStatus where "E_ZCB_OK = 0"
definition E_ZCB_ERROR :: teZcbStatus where "E_ZCB_ERROR = 1"
definition E_ZCB_COMMS_FAILED :: teZcbStatus where "E_ZCB_COMMS_FAILED = 0x11"

lemmas zcb_codes = E_ZCB_OK_def E_ZCB_ERROR_def E_ZCB_COMMS_FAILED_def

definition zcb_send :: "zcb_env \<Rightarrow> u16 \<Rightarrow> u8 list \<Rightarrow> zcb_state \<Rightarrow> (teSL_Status \<times> u8) \<times> zcb_state" where
  "zcb_send env t m s = (sl_answer env (length (z_requests s)), s\<lparr>z_requests := z_requests s @ [(t, m)]\<rparr>)"

definition zcb_wait :: "zcb_env \<Rightarrow> zcb_state \<Rightarrow> u8 list option \<times> zcb_state" where
  "zcb_wait env s = (sl_wait env (z_waits s), s\<lparr>z_waits := Suc (z_waits s)\<rparr>)"

abbreviation zattr :: "zcb_state \<Rightarrow> string \<Rightarrow> string option" where
  "zattr s name \<equiv> parsingGetStringAttr (z_attrs s) name"

abbreviation zattr0 :: "zcb_state \<Rightarrow> string \<Rightarrow> string option" where
  "zattr0 s name \<equiv> parsingGetStringAttr0 (z_attrs s) name"

abbreviation zattri :: "zcb_state \<Rightarrow> string \<Rightarrow> c_int" where
  "zattri s name \<equiv> parsingGetIntAttr (z_attrs s) name"

definition z_set_db :: "newdb option \<Rightarrow> zcb_state \<Rightarrow> zcb_state" where
  "z_set_db m s = s\<lparr>z_db := m\<rparr>"

text \<open>A request whose outcome is only whether it was accepted.\<close>

definition zcb_request :: "zcb_env \<Rightarrow> u16 \<Rightarrow> u8 list \<Rightarrow> zcb_state \<Rightarrow> teZcbStatus \<times> zcb_state" where
  "zcb_request env t m s = (case zcb_send env t m s of
     ((st, seq), s') \<Rightarrow> (if st = E_SL_OK then E_ZCB_OK else E_ZCB_COMMS_FAILED, s'))"

text \<open>\<open>queueOpen\<close> and \<open>queueWrite\<close>, as \<open>dispatchMessage\<close> calls them; and the control socket.\<close>

definition dispatchMessage :: "zcb_env \<Rightarrow> queueKey \<Rightarrow> string option \<Rightarrow> zcb_state \<Rightarrow> zcb_state option" where
  "dispatchMessage env key message s = (case message of
     None \<Rightarrow> None
   | Some m \<Rightarrow> (case queueOpen (ze_mq env) key (z_ipc s) of
        (None, q) \<Rightarrow> Some (s\<lparr>z_ipc := q\<rparr>)
      | (Some k, q) \<Rightarrow> Some (s\<lparr>z_ipc := snd (queueWrite (ze_mq env) k m q)\<rparr>)))"

definition writeControl :: "zcb_env \<Rightarrow> string option \<Rightarrow> zcb_state \<Rightarrow> (c_int \<times> zcb_state) option" where
  "writeControl env cmd s = (case cmd of
     None \<Rightarrow> None
   | Some m \<Rightarrow> Some (if ze_control env then (0, s\<lparr>z_control := z_control s @ [m]\<rparr>) else (1, s)))"

text \<open>A daemon that has just started, and an environment where every request is accepted.\<close>

definition zcb_start :: zcb_state where
  "zcb_start = \<lparr>z_attrs = parsing_init, z_db = Some db_fresh, z_ipc = \<lparr>q_msgs = \<lambda>_. [], q_error = 0\<rparr>, z_requests = [],
     z_waits = 0, z_control = [], z_tunnel = 0, z_log_id = 0, z_meter = meter_start, z_cleanup = 0, z_versions = 0\<rparr>"

definition zcb_env_ok :: zcb_env where
  "zcb_env_ok = \<lparr>sl_answer = \<lambda>n. (E_SL_OK, 0), sl_wait = \<lambda>n. None, ze_mq = \<lparr>env_get = \<lambda>_. GET_OK, env_snd = \<lambda>_. True\<rparr>,
     ze_control = True, ze_rand = 0\<rparr>"

end
