(* ===== verification/ZcbNodes.thy ===== *)
theory ZcbNodes
  imports ZcbState
begin

text \<open>
  The Zigbee node table as the daemon uses it (\<open>daemons/ZCB/zcb.c\<close>): nodes are found by their
  short address or by their mac, added when they announce themselves, and marked when they
  leave.  Short addresses stay unique as long as the table has room; a full table and a node
  that re-joins under a known short address break what the table promises.
\<close>

section \<open>Operations\<close>

definition SIMPLE_DESCR_UNKNOWN :: c_int where "SIMPLE_DESCR_UNKNOWN = 0xFFFF"

definition zcbAddNode :: "c_int \<Rightarrow> u16 \<Rightarrow> u64 \<Rightarrow> newdb option \<Rightarrow> c_int \<times> newdb option" where
  "zcbAddNode now shortAddress extendedAddress m =
     (let mac = u642nibblestr extendedAddress; saddr = uint shortAddress in
      case newDbGetZcbSaddr saddr m of
        Some z \<Rightarrow> (1, snd (newDbSetZcb now (z\<lparr>zcb_status := ZCB_STATUS_JOINED, zcb_mac := mac\<rparr>) m))
      | None \<Rightarrow> (case newDbGetZcb mac m of
          Some z \<Rightarrow> (1, snd (newDbSetZcb now (z\<lparr>zcb_status := ZCB_STATUS_JOINED, zcb_saddr := saddr\<rparr>) m))
        | None \<Rightarrow> (case newDbGetNewZcb now mac m of
            ((True, Some z), m') \<Rightarrow>
              (0, snd (newDbSetZcb now (z\<lparr>zcb_status := ZCB_STATUS_JOINED, zcb_saddr := saddr,
                                          zcb_type := SIMPLE_DESCR_UNKNOWN\<rparr>) m'))
          | (_, m') \<Rightarrow> (1, m'))))"

definition zcbNodeGetShortAddress :: "string \<Rightarrow> newdb option \<Rightarrow> u16" where
  "zcbNodeGetShortAddress mac m = (case newDbGetZcb mac m of Some z \<Rightarrow> word_of_int (zcb_saddr z) | None \<Rightarrow> 0xFFFF)"

definition zcbNodeGetExtendedAddress :: "u16 \<Rightarrow> newdb option \<Rightarrow> u64" where
  "zcbNodeGetExtendedAddress shortAddress m =
     (case newDbGetZcbSaddr (uint shortAddress) m of Some z \<Rightarrow> nibblestr2u64 (zcb_mac z) | None \<Rightarrow> 0)"

definition zcbNodeLeft :: "c_int \<Rightarrow> u64 \<Rightarrow> c_int \<Rightarrow> newdb option \<Rightarrow> c_int \<times> newdb option" where
  "zcbNodeLeft now extendedAddress keep m = (case newDbGetZcb (u642nibblestr extendedAddress) m of
     Some z \<Rightarrow> (1, snd (newDbSetZcb now (z\<lparr>zcb_status := (if keep \<noteq> 0 then ZCB_STATUS_LEFT else ZCB_STATUS_FREE)\<rparr>) m))
   | None \<Rightarrow> (0, m))"

definition zcbNodeSetDeviceID :: "c_int \<Rightarrow> u16 \<Rightarrow> u16 \<Rightarrow> newdb option \<Rightarrow> c_int \<times> newdb option" where
  "zcbNodeSetDeviceID now shortAddress deviceID m = (case newDbGetZcbSaddr (uint shortAddress) m of
     Some z \<Rightarrow> (1, if zcb_type z \<noteq> uint deviceID then snd (newDbSetZcb now (z\<lparr>zcb_type := uint deviceID\<rparr>) m) else m)
   | None \<Rightarrow> (0, m))"

section \<open>The node table\<close>

text \<open>Rows carry their index, and the short addresses of nodes in use are different.\<close>

definition nodes_inv :: "newdb_zcb_t list \<Rightarrow> bool" where
  "nodes_inv rows \<longleftrightarrow> length rows = NEWDB_MAX_ZCB \<and> (\<forall>i<length rows. zcb_id (rows ! i) = int i)
     \<and> (\<forall>i<length rows. \<forall>j<length rows. \<not> zcb_free (rows ! i) \<and> \<not> zcb_free (rows ! j)
          \<and> zcb_saddr (rows ! i) = zcb_saddr (rows ! j) \<longrightarrow> i = j)"

lemma zcb_get_Some:
  "zcb_get P (Some db) = Some r \<Longrightarrow> \<exists>i<length (db_zcb db). db_zcb db ! i = r \<and> \<not> zcb_free r \<and> P r"
  by (auto simp: zcb_get_def dest: first_idx_SomeD)

lemma zcb_get_None: "zcb_get P (Some db) = None \<longleftrightarrow> (\<forall>r\<in>set (db_zcb db). zcb_free r \<or> \<not> P r)"
  by (auto simp: zcb_get_def first_idx_None)

lemma saddr_iff:
  assumes "nodes_inv (db_zcb db)"
  shows "newDbGetZcbSaddr a (Some db) = Some r
     \<longleftrightarrow> (\<exists>i<length (db_zcb db). db_zcb db ! i = r \<and> \<not> zcb_free r \<and> zcb_saddr r = a)" (is "?l \<longleftrightarrow> ?r")
proof
  assume ?l
  then show ?r unfolding newDbGetZcbSaddr_def by (drule_tac zcb_get_Some) simp
next
  assume ?r
  then obtain i where i: "i < length (db_zcb db)" "db_zcb db ! i = r" "\<not> zcb_free r" "zcb_saddr r = a" by blast
  have "newDbGetZcbSaddr a (Some db) \<noteq> None"
    using i nth_mem [OF i(1)] by (auto simp: newDbGetZcbSaddr_def zcb_get_None)
  then obtain r' where r': "newDbGetZcbSaddr a (Some db) = Some r'" by blast
  then obtain j where j: "j < length (db_zcb db)" "db_zcb db ! j = r'" "\<not> zcb_free r'" "zcb_saddr r' = a"
    unfolding newDbGetZcbSaddr_def by (drule_tac zcb_get_Some) blast
  have "i = j" using assms i j by (simp add: nodes_inv_def)
  with i j r' show ?l by simp
qed

text \<open>Storing a row of a node in use, with a short address that no other node has.\<close>

lemma nodes_store:
  assumes inv: "nodes_inv (db_zcb db)" and i: "i < length (db_zcb db)" and r: "zcb_id r = int i" "\<not> zcb_free r"
    and other: "\<And>j. j < length (db_zcb db) \<Longrightarrow> j \<noteq> i \<Longrightarrow> \<not> zcb_free (db_zcb db ! j) \<Longrightarrow> zcb_saddr (db_zcb db ! j) \<noteq> zcb_saddr r"
    and rows: "db_zcb db' = (db_zcb db)[i := r]"
  shows "nodes_inv (db_zcb db')" and "newDbGetZcbSaddr (zcb_saddr r) (Some db') = Some r"
    and "a \<noteq> zcb_saddr r \<Longrightarrow> zcb_free (db_zcb db ! i) \<or> zcb_saddr (db_zcb db ! i) \<noteq> a
           \<Longrightarrow> newDbGetZcbSaddr a (Some db') = newDbGetZcbSaddr a (Some db)"
proof -
  show inv': "nodes_inv (db_zcb db')"
    using inv i r other unfolding rows nodes_inv_def by (auto simp: nth_list_update) metis+
  show "newDbGetZcbSaddr (zcb_saddr r) (Some db') = Some r"
    using saddr_iff [OF inv', of "zcb_saddr r" r] i r(2) rows by auto
  assume a: "a \<noteq> zcb_saddr r" "zcb_free (db_zcb db ! i) \<or> zcb_saddr (db_zcb db ! i) \<noteq> a"
  have eq: "newDbGetZcbSaddr a (Some db') = Some q \<longleftrightarrow> newDbGetZcbSaddr a (Some db) = Some q" for q
    using a i unfolding saddr_iff [OF inv'] saddr_iff [OF inv] rows by (auto simp: nth_list_update)
  show "newDbGetZcbSaddr a (Some db') = newDbGetZcbSaddr a (Some db)"
  proof (cases "newDbGetZcbSaddr a (Some db)")
    case None
    with eq show ?thesis by (cases "newDbGetZcbSaddr a (Some db')") auto
  qed (simp add: eq)
qed

lemma set_row:
  "nodes_inv (db_zcb db) \<Longrightarrow> i < length (db_zcb db) \<Longrightarrow> zcb_id r = int i \<Longrightarrow>
   \<exists>db'. newDbSetZcb now r (Some db) = (True, Some db') \<and> db_zcb db' = (db_zcb db)[i := r\<lparr>zcb_lastupdate := now\<rparr>]"
  by (simp add: newDbSetZcb_def with_db_def nodes_inv_def zcb_written_def)

lemma new_row:
  assumes "nodes_inv (db_zcb db)" and "\<exists>r\<in>set (db_zcb db). zcb_free r"
  shows "\<exists>i z db'. newDbGetNewZcb now mac (Some db) = ((True, Some z), Some db') \<and> i < length (db_zcb db) \<and> zcb_free (db_zcb db ! i)
     \<and> zcb_id z = int i \<and> zcb_mac z = take LEN_MAC_NIBBLE mac \<and> length (db_zcb db') = length (db_zcb db)
     \<and> (\<forall>r. (db_zcb db')[i := r] = (db_zcb db)[i := r])"
proof -
  obtain added j where sc: "zcb_scan 0 (db_zcb db) None now = (added, j)" by (cases "zcb_scan 0 (db_zcb db) None now")
  from zcb_scan_spec [OF this] assms(2) obtain i where "added" "i < length (db_zcb db)" "j = Some i" "zcb_free (db_zcb db ! i)"
    by auto
  with sc show ?thesis
    by (auto simp: newDbGetNewZcb_def with_db_def newDbStrNcpy_def zcb_written_def Let_def intro!: exI [of _ i])
qed

text \<open>What a node's announcement leaves: a row of its own, stored over the one it had or a free one.\<close>

lemma add_node_row:
  assumes inv: "nodes_inv (db_zcb db)"
    and room: "newDbGetZcbSaddr (uint sa) (Some db) \<noteq> None \<or> newDbGetZcb (u642nibblestr ext) (Some db) \<noteq> None
      \<or> (\<exists>r\<in>set (db_zcb db). zcb_free r)"
  shows "\<exists>db' i r. snd (zcbAddNode now sa ext (Some db)) = Some db' \<and> i < length (db_zcb db) \<and> db_zcb db' = (db_zcb db)[i := r]
    \<and> zcb_id r = int i \<and> zcb_status r = ZCB_STATUS_JOINED \<and> zcb_saddr r = uint sa \<and> zcb_mac r = u642nibblestr ext
    \<and> (newDbGetZcbSaddr (uint sa) (Some db) = Some (db_zcb db ! i)
       \<or> newDbGetZcbSaddr (uint sa) (Some db) = None
         \<and> (zcb_free (db_zcb db ! i) \<or> newDbGetZcb (u642nibblestr ext) (Some db) = Some (db_zcb db ! i)))"
proof (cases "newDbGetZcbSaddr (uint sa) (Some db)")
  case (Some z)
  then obtain i where i: "i < length (db_zcb db)" "db_zcb db ! i = z" "zcb_saddr z = uint sa" using saddr_iff [OF inv] by blast
  let ?r = "z\<lparr>zcb_status := ZCB_STATUS_JOINED, zcb_mac := u642nibblestr ext\<rparr>"
  have "zcb_id ?r = int i" using inv i by (auto simp: nodes_inv_def)
  from set_row [OF inv i(1) this, of now] obtain db' where
    "newDbSetZcb now ?r (Some db) = (True, Some db')" "db_zcb db' = (db_zcb db)[i := ?r\<lparr>zcb_lastupdate := now\<rparr>]" by blast
  with i Some \<open>zcb_id ?r = int i\<close> show ?thesis
    by (intro exI [of _ db'] exI [of _ i] exI [of _ "?r\<lparr>zcb_lastupdate := now\<rparr>"]) (simp add: zcbAddNode_def Let_def)
next
  case None
  show ?thesis
  proof (cases "newDbGetZcb (u642nibblestr ext) (Some db)")
    case (Some z)
    then obtain i where i: "i < length (db_zcb db)" "db_zcb db ! i = z" "zcb_mac z = u642nibblestr ext"
      unfolding newDbGetZcb_def by (drule_tac zcb_get_Some) blast
    let ?r = "z\<lparr>zcb_status := ZCB_STATUS_JOINED, zcb_saddr := uint sa\<rparr>"
    have "zcb_id ?r = int i" using inv i by (auto simp: nodes_inv_def)
    from set_row [OF inv i(1) this, of now] obtain db' where
      "newDbSetZcb now ?r (Some db) = (True, Some db')" "db_zcb db' = (db_zcb db)[i := ?r\<lparr>zcb_lastupdate := now\<rparr>]" by blast
    with i Some None \<open>zcb_id ?r = int i\<close> show ?thesis
      by (intro exI [of _ db'] exI [of _ i] exI [of _ "?r\<lparr>zcb_lastupdate := now\<rparr>"]) (simp add: zcbAddNode_def Let_def)
  next
    case absent: None
    with None room obtain i z db1 where new: "newDbGetNewZcb now (u642nibblestr ext) (Some db) = ((True, Some z), Some db1)"
      "i < length (db_zcb db)" "zcb_free (db_zcb db ! i)" "zcb_id z = int i" "zcb_mac z = take LEN_MAC_NIBBLE (u642nibblestr ext)"
      "length (db_zcb db1) = length (db_zcb db)" "\<forall>r. (db_zcb db1)[i := r] = (db_zcb db)[i := r]"
      using new_row [OF inv, of now "u642nibblestr ext"] by blast
    let ?r = "z\<lparr>zcb_status := ZCB_STATUS_JOINED, zcb_saddr := uint sa, zcb_type := SIMPLE_DESCR_UNKNOWN\<rparr>"
    have "newDbSetZcb now ?r (Some db1) = (True, Some (zcb_written now ((db_zcb db1)[i := ?r\<lparr>zcb_lastupdate := now\<rparr>]) db1))"
      using new inv by (simp add: newDbSetZcb_def with_db_def nodes_inv_def)
    with new None absent show ?thesis
      by (intro exI [of _ "zcb_written now ((db_zcb db1)[i := ?r\<lparr>zcb_lastupdate := now\<rparr>]) db1"] exI [of _ i]
            exI [of _ "?r\<lparr>zcb_lastupdate := now\<rparr>"])
         (simp add: zcbAddNode_def Let_def zcb_written_def LEN_MAC_NIBBLE_def)
  qed
qed

section \<open>Properties\<close>

text \<open>
  C35: Nodes keep unique short addresses: when a node announces itself and it, or its short
  address, is known or the table has room, its short address leads to its mac from then on,
  marked as joined, no two nodes in use share a short address, and every other short address
  leads where it did, except the one the node had before.
\<close>

theorem zcb_node_joined:
  assumes "nodes_inv (db_zcb db)"
    and "newDbGetZcbSaddr (uint sa) (Some db) \<noteq> None \<or> newDbGetZcb (u642nibblestr ext) (Some db) \<noteq> None
      \<or> (\<exists>r\<in>set (db_zcb db). zcb_free r)"
    and "a \<noteq> sa" and "\<And>z. newDbGetZcb (u642nibblestr ext) (Some db) = Some z \<Longrightarrow> zcb_saddr z \<noteq> uint a"
  shows "\<exists>db' z. snd (zcbAddNode now sa ext (Some db)) = Some db' \<and> nodes_inv (db_zcb db')
    \<and> newDbGetZcbSaddr (uint sa) (Some db') = Some z \<and> zcb_status z = ZCB_STATUS_JOINED
    \<and> zcbNodeGetExtendedAddress sa (Some db') = ext
    \<and> newDbGetZcbSaddr (uint a) (Some db') = newDbGetZcbSaddr (uint a) (Some db)"
proof -
  obtain db' i r where r: "snd (zcbAddNode now sa ext (Some db)) = Some db'" "i < length (db_zcb db)" "db_zcb db' = (db_zcb db)[i := r]"
    "zcb_id r = int i" "zcb_status r = ZCB_STATUS_JOINED" "zcb_saddr r = uint sa" "zcb_mac r = u642nibblestr ext"
    "newDbGetZcbSaddr (uint sa) (Some db) = Some (db_zcb db ! i) \<or> newDbGetZcbSaddr (uint sa) (Some db) = None
       \<and> (zcb_free (db_zcb db ! i) \<or> newDbGetZcb (u642nibblestr ext) (Some db) = Some (db_zcb db ! i))"
    using add_node_row [OF assms(1,2), of now] by blast
  have used: "\<not> zcb_free r" using r(5) by simp
  have sole: "zcb_saddr (db_zcb db ! j) \<noteq> zcb_saddr r"
    if "j < length (db_zcb db)" "j \<noteq> i" "\<not> zcb_free (db_zcb db ! j)" for j
    using r(8)
  proof
    assume "newDbGetZcbSaddr (uint sa) (Some db) = Some (db_zcb db ! i)"
    with that r(2,6) assms(1) show ?thesis unfolding saddr_iff [OF assms(1)] nodes_inv_def by metis
  next
    assume "newDbGetZcbSaddr (uint sa) (Some db) = None \<and>
      (zcb_free (db_zcb db ! i) \<or> newDbGetZcb (u642nibblestr ext) (Some db) = Some (db_zcb db ! i))"
    then show ?thesis using that r(6) by (auto simp: newDbGetZcbSaddr_def zcb_get_None)
  qed
  have ne: "uint a \<noteq> zcb_saddr r" using assms(3) r(6) by (simp add: word_uint_eq_iff)
  have "zcb_free (db_zcb db ! i) \<or> zcb_saddr (db_zcb db ! i) \<noteq> uint a"
    using r(6,8) ne assms(4) unfolding saddr_iff [OF assms(1)] by auto
  then have "newDbGetZcbSaddr (uint a) (Some db') = newDbGetZcbSaddr (uint a) (Some db)"
    using nodes_store(3) [OF assms(1) r(2,4) used sole r(3) ne] by blast
  then show ?thesis
    using r(1,5-7) nodes_store(1,2) [OF assms(1) r(2,4) used sole r(3)]
    by (intro exI [of _ db'] exI [of _ r]) (simp add: zcbNodeGetExtendedAddress_def)
qed

text \<open>Nodes with rows of their own; an empty table.\<close>

lemma nodes_inv_empty: "nodes_inv (db_zcb (db_fresh\<lparr>db_zcb := map (\<lambda>i. zero_zcb\<lparr>zcb_id := int i\<rparr>) [0..<NEWDB_MAX_ZCB]\<rparr>))"
  by (simp add: nodes_inv_def zero_zcb_def)

theorem zcb_node_joined_witness:
  "\<exists>m db'. snd (zcbAddNode 7 0x1234 0xAB (Some m)) = Some db' \<and> zcbNodeGetExtendedAddress 0x1234 (Some db') = 0xAB"
proof -
  let ?m = "db_fresh\<lparr>db_zcb := map (\<lambda>i. zero_zcb\<lparr>zcb_id := int i\<rparr>) [0..<NEWDB_MAX_ZCB]\<rparr>"
  have none: "newDbGetZcb mac (Some ?m) = None" for mac by (simp add: newDbGetZcb_def zcb_get_None zero_zcb_def)
  have "\<exists>r\<in>set (db_zcb ?m). zcb_free r" by (auto simp: zero_zcb_def NEWDB_MAX_ZCB_def intro!: exI [of _ 0])
  with none zcb_node_joined [OF nodes_inv_empty, of "0x1234" "0xAB" "0x5678" 7] show ?thesis by fastforce
qed

text \<open>
  A full node table loses the node that joins: when no row is free and neither the node
  nor its short address is known, the daemon replaces the oldest node's row but is told that
  there was no room, so the short address is not stored: it leads nowhere, and the mac leads
  to short address 0, the coordinator.
\<close>

theorem zcb_full_table:
  assumes "\<forall>r\<in>set (db_zcb db). \<not> zcb_free r" and "\<exists>r\<in>set (db_zcb db). zcb_lastupdate r < now"
    and "newDbGetZcbSaddr (uint sa) (Some db) = None" and "newDbGetZcb (u642nibblestr ext) (Some db) = None" and "sa \<noteq> 0"
  shows "\<exists>db'. zcbAddNode now sa ext (Some db) = (1, Some db') \<and> newDbGetZcbSaddr (uint sa) (Some db') = None
    \<and> zcbNodeGetExtendedAddress sa (Some db') = 0 \<and> zcbNodeGetShortAddress (u642nibblestr ext) (Some db') = 0"
proof -
  let ?mac = "u642nibblestr ext"
  obtain added j where sc: "zcb_scan 0 (db_zcb db) None now = (added, j)" by (cases "zcb_scan 0 (db_zcb db) None now")
  from zcb_scan_spec [OF this] assms(1,2) obtain i where i: "\<not> added" "j = Some i" "i < length (db_zcb db)"
    by (metis add_0 linorder_not_le nth_mem)
  let ?r = "zero_zcb\<lparr>zcb_id := int i, zcb_status := ZCB_STATUS_USED, zcb_mac := ?mac, zcb_lastupdate := now\<rparr>"
  let ?db = "zcb_written now ((db_zcb db)[i := ?r]) db"
  have add: "zcbAddNode now sa ext (Some db) = (1, Some ?db)"
    using sc i assms(3,4)
    by (simp add: zcbAddNode_def newDbGetNewZcb_def with_db_def newDbStrNcpy_def LEN_MAC_NIBBLE_def Let_def)
  have rows: "db_zcb ?db = (db_zcb db)[i := ?r]" by (simp add: zcb_written_def)
  have "uint sa \<noteq> 0" using assms(5) by (simp add: uint_0_iff)
  then have gone: "newDbGetZcbSaddr (uint sa) (Some ?db) = None"
    unfolding newDbGetZcbSaddr_def zcb_get_None rows
    using assms(3) set_update_subset_insert [of "db_zcb db" i ?r]
    by (fastforce simp: newDbGetZcbSaddr_def zcb_get_None zero_zcb_def)
  have "newDbGetZcb ?mac (Some ?db) \<noteq> None"
    using i(3) by (auto simp: newDbGetZcb_def zcb_get_None rows set_update_memI intro!: bexI [of _ ?r])
  then obtain z where z: "newDbGetZcb ?mac (Some ?db) = Some z" by blast
  then obtain k where k: "k < length (db_zcb db)" "((db_zcb db)[i := ?r]) ! k = z" "zcb_mac z = ?mac" "\<not> zcb_free z"
    unfolding newDbGetZcb_def by (drule_tac zcb_get_Some) (auto simp: rows)
  have "k = i"
  proof (rule ccontr)
    assume "k \<noteq> i"
    with k assms(4) show False by (auto simp: newDbGetZcb_def zcb_get_None)
  qed
  with k i(3) have "zcb_saddr z = 0" by (auto simp: zero_zcb_def)
  with add gone z show ?thesis by (simp add: zcbNodeGetExtendedAddress_def zcbNodeGetShortAddress_def)
qed

theorem zcb_full_table_witness:
  "\<exists>m db'. zcbAddNode 7 0x1234 0xAB (Some m) = (1, Some db') \<and> zcbNodeGetShortAddress (u642nibblestr 0xAB) (Some db') = 0"
proof -
  let ?r = "zero_zcb\<lparr>zcb_status := ZCB_STATUS_USED, zcb_saddr := 3, zcb_mac := ''B''\<rparr>"
  let ?m = "db_fresh\<lparr>db_zcb := [?r]\<rparr>"
  have "length ''B'' \<noteq> length (u642nibblestr 0xAB)" by simp
  then have mac: "''B'' \<noteq> u642nibblestr 0xAB" by metis
  have "\<forall>r\<in>set (db_zcb ?m). \<not> zcb_free r" "\<exists>r\<in>set (db_zcb ?m). zcb_lastupdate r < 7"
    "newDbGetZcbSaddr (uint (0x1234 :: u16)) (Some ?m) = None" "newDbGetZcb (u642nibblestr 0xAB) (Some ?m) = None"
    using mac by (simp_all add: newDbGetZcb_def newDbGetZcbSaddr_def zcb_get_None zero_zcb_def)
  from zcb_full_table [OF this] show ?thesis by fastforce
qed

text \<open>
  A node that comes back under another node's short address leaves the table with the
  same mac twice: the row found by the short address is given the new mac, the node's own row
  stays, and the node that had the short address can no longer be found.
\<close>

theorem zcb_rejoin_duplicates:
  assumes "nodes_inv (db_zcb db)" and "newDbGetZcbSaddr (uint a) (Some db) = Some za"
    and "newDbGetZcbSaddr (uint b) (Some db) = Some zb" and "a \<noteq> b" and "zcb_mac zb = u642nibblestr ext"
    and "zcb_mac za \<noteq> u642nibblestr ext" and "\<And>r. r \<in> set (db_zcb db) \<Longrightarrow> r \<noteq> za \<Longrightarrow> zcb_mac r \<noteq> zcb_mac za"
  shows "\<exists>db'. zcbAddNode now a ext (Some db) = (1, Some db')
    \<and> zcbNodeGetExtendedAddress a (Some db') = ext \<and> zcbNodeGetExtendedAddress b (Some db') = ext
    \<and> newDbGetZcb (zcb_mac za) (Some db') = None"
proof -
  obtain i where i: "i < length (db_zcb db)" "db_zcb db ! i = za" "\<not> zcb_free za" "zcb_saddr za = uint a"
    using assms(2) saddr_iff [OF assms(1)] by blast
  let ?r = "za\<lparr>zcb_status := ZCB_STATUS_JOINED, zcb_mac := u642nibblestr ext\<rparr>"
  let ?q = "?r\<lparr>zcb_lastupdate := now\<rparr>"
  have row: "zcb_id ?r = int i" using assms(1) i by (auto simp: nodes_inv_def)
  from set_row [OF assms(1) i(1) this, of now] obtain db' where
    db': "newDbSetZcb now ?r (Some db) = (True, Some db')" "db_zcb db' = (db_zcb db)[i := ?q]" by blast
  then have add: "zcbAddNode now a ext (Some db) = (1, Some db')" using assms(2) by (simp add: zcbAddNode_def Let_def)
  have sole: "zcb_saddr (db_zcb db ! j) \<noteq> zcb_saddr ?q"
    if "j < length (db_zcb db)" "j \<noteq> i" "\<not> zcb_free (db_zcb db ! j)" for j
    using assms(1) i that by (auto simp: nodes_inv_def)
  have ab: "uint b \<noteq> uint a" using assms(4) by (simp add: word_uint_eq_iff)
  note store = nodes_store [OF assms(1) i(1), of ?q db', OF _ _ sole db'(2)]
  have "newDbGetZcbSaddr (uint a) (Some db') = Some ?q" using store(2) row i(4) by simp
  moreover have "newDbGetZcbSaddr (uint b) (Some db') = Some zb" using store(3) [of "uint b"] row i ab assms(3) by simp
  moreover have "zcb_mac r \<noteq> zcb_mac za" if "r \<in> set (db_zcb db')" for r
  proof -
    from that obtain j where j: "j < length (db_zcb db)" "r = ((db_zcb db)[i := ?q]) ! j" by (auto simp: in_set_conv_nth db'(2))
    show ?thesis
    proof (cases "j = i")
      case True
      with i(1) j(2) have "r = ?q" by simp
      then show ?thesis using assms(6) by simp
    next
      case False
      have "zcb_id (db_zcb db ! j) = int j" "zcb_id za = int i" using assms(1) i(1,2) j(1) unfolding nodes_inv_def by blast+
      with False have "db_zcb db ! j \<noteq> za" by (metis of_nat_eq_iff)
      from assms(7) [OF nth_mem [OF j(1)] this] show ?thesis using False j(2) by simp
    qed
  qed
  then have "newDbGetZcb (zcb_mac za) (Some db') = None" by (simp add: newDbGetZcb_def zcb_get_None)
  ultimately show ?thesis using add assms(5) by (auto simp: zcbNodeGetExtendedAddress_def)
qed

theorem zcb_rejoin_duplicates_witness:
  "\<exists>m db'. zcbAddNode 7 1 0xAB (Some m) = (1, Some db')
     \<and> zcbNodeGetExtendedAddress 1 (Some db') = 0xAB \<and> zcbNodeGetExtendedAddress 2 (Some db') = 0xAB"
proof -
  let ?za = "zero_zcb\<lparr>zcb_id := 0, zcb_status := ZCB_STATUS_JOINED, zcb_saddr := 1, zcb_mac := ''A''\<rparr>"
  let ?zb = "zero_zcb\<lparr>zcb_id := 1, zcb_status := ZCB_STATUS_JOINED, zcb_saddr := 2, zcb_mac := u642nibblestr 0xAB\<rparr>"
  let ?rows = "?za # ?zb # map (\<lambda>i. zero_zcb\<lparr>zcb_id := int i\<rparr>) [2..<NEWDB_MAX_ZCB]"
  let ?m = "db_fresh\<lparr>db_zcb := ?rows\<rparr>"
  have "length ''A'' \<noteq> length (u642nibblestr 0xAB)" by simp
  then have mac: "''A'' \<noteq> u642nibblestr 0xAB" by metis
  have "nodes_inv (db_zcb ?m)"
    by (auto simp: nodes_inv_def zero_zcb_def NEWDB_MAX_ZCB_def nth_Cons' split: if_splits)
  moreover have "newDbGetZcbSaddr (uint (1 :: u16)) (Some ?m) = Some ?za" "newDbGetZcbSaddr (uint (2 :: u16)) (Some ?m) = Some ?zb"
    by (simp_all add: newDbGetZcbSaddr_def zcb_get_def)
  moreover have "zcb_mac r \<noteq> zcb_mac ?za" if "r \<in> set (db_zcb ?m)" "r \<noteq> ?za" for r
    using that mac by (auto simp: zero_zcb_def)
  ultimately have "\<exists>db'. zcbAddNode 7 1 0xAB (Some ?m) = (1, Some db')
     \<and> zcbNodeGetExtendedAddress 1 (Some db') = 0xAB \<and> zcbNodeGetExtendedAddress 2 (Some db') = 0xAB
     \<and> newDbGetZcb (zcb_mac ?za) (Some db') = None"
    using mac by (intro zcb_rejoin_duplicates [where b = 2 and zb = ?zb]) simp_all
  then show ?thesis by blast
qed

end
