(* ===== verification/ZcbRequests.thy ===== *)
theory ZcbRequests
  imports ZcbNodes
begin

text \<open>
  The requests the Zigbee daemon writes to the control bridge (\<open>daemons/ZCB/zcb.c\<close> and
  \<open>lmpgrp.c\<close>): commands to a node or a group, the scan of the neighbour table, attribute
  writes and bindings with their responses.  Each message is the packed structure of the
  code, big-endian.  The waits loop until the response with the request's sequence number.
\<close>

section \<open>Message types and addresses\<close>

definition E_SL_MSG_GET_VERSION :: u16 where "E_SL_MSG_GET_VERSION = 0x0010"
definition E_SL_MSG_RESET :: u16 where "E_SL_MSG_RESET = 0x0011"
definition E_SL_MSG_BIND :: u16 where "E_SL_MSG_BIND = 0x0030"
definition E_SL_MSG_SIMPLE_DESCRIPTOR_REQUEST :: u16 where "E_SL_MSG_SIMPLE_DESCRIPTOR_REQUEST = 0x0043"
definition E_SL_MSG_MANAGEMENT_LQI_REQUEST :: u16 where "E_SL_MSG_MANAGEMENT_LQI_REQUEST = 0x004E"
definition E_SL_MSG_ADD_GROUP_REQUEST :: u16 where "E_SL_MSG_ADD_GROUP_REQUEST = 0x0060"
definition E_SL_MSG_REMOVE_GROUP_REQUEST :: u16 where "E_SL_MSG_REMOVE_GROUP_REQUEST = 0x0063"
definition E_SL_MSG_REMOVE_ALL_GROUPS :: u16 where "E_SL_MSG_REMOVE_ALL_GROUPS = 0x0064"
definition E_SL_MSG_MOVE_TO_LEVEL_ONOFF :: u16 where "E_SL_MSG_MOVE_TO_LEVEL_ONOFF = 0x0081"
definition E_SL_MSG_ONOFF :: u16 where "E_SL_MSG_ONOFF = 0x0092"
definition E_SL_MSG_REMOVE_SCENE :: u16 where "E_SL_MSG_REMOVE_SCENE = 0x00A2"
definition E_SL_MSG_REMOVE_ALL_SCENES :: u16 where "E_SL_MSG_REMOVE_ALL_SCENES = 0x00A3"
definition E_SL_MSG_STORE_SCENE :: u16 where "E_SL_MSG_STORE_SCENE = 0x00A4"
definition E_SL_MSG_RECALL_SCENE :: u16 where "E_SL_MSG_RECALL_SCENE = 0x00A5"
definition E_SL_MSG_MOVE_TO_HUE :: u16 where "E_SL_MSG_MOVE_TO_HUE = 0x00B0"
definition E_SL_MSG_MOVE_TO_SATURATION :: u16 where "E_SL_MSG_MOVE_TO_SATURATION = 0x00B3"
definition E_SL_MSG_MOVE_TO_HUE_SATURATION :: u16 where "E_SL_MSG_MOVE_TO_HUE_SATURATION = 0x00B6"
definition E_SL_MSG_MOVE_TO_COLOUR :: u16 where "E_SL_MSG_MOVE_TO_COLOUR = 0x00B7"
definition E_SL_MSG_COLOUR_LOOP_SET :: u16 where "E_SL_MSG_COLOUR_LOOP_SET = 0x00BE"
definition E_SL_MSG_MOVE_TO_COLOUR_TEMPERATURE :: u16 where "E_SL_MSG_MOVE_TO_COLOUR_TEMPERATURE = 0x00C0"
definition E_SL_MSG_MOVE_COLOUR_TEMPERATURE :: u16 where "E_SL_MSG_MOVE_COLOUR_TEMPERATURE = 0x00C1"
definition E_SL_MSG_WRITE_ATTRIBUTE_REQUEST :: u16 where "E_SL_MSG_WRITE_ATTRIBUTE_REQUEST = 0x0110"

lemmas zcb_msg_types = E_SL_MSG_GET_VERSION_def E_SL_MSG_RESET_def E_SL_MSG_BIND_def
  E_SL_MSG_SIMPLE_DESCRIPTOR_REQUEST_def E_SL_MSG_MANAGEMENT_LQI_REQUEST_def E_SL_MSG_ADD_GROUP_REQUEST_def
  E_SL_MSG_REMOVE_GROUP_REQUEST_def E_SL_MSG_REMOVE_ALL_GROUPS_def E_SL_MSG_MOVE_TO_LEVEL_ONOFF_def E_SL_MSG_ONOFF_def
  E_SL_MSG_REMOVE_SCENE_def E_SL_MSG_REMOVE_ALL_SCENES_def E_SL_MSG_STORE_SCENE_def E_SL_MSG_RECALL_SCENE_def
  E_SL_MSG_MOVE_TO_COLOUR_def E_SL_MSG_MOVE_TO_COLOUR_TEMPERATURE_def

definition E_ZB_ADDRESS_MODE_GROUP :: u8 where "E_ZB_ADDRESS_MODE_GROUP = 0x01"
definition E_ZB_ADDRESS_MODE_SHORT :: u8 where "E_ZB_ADDRESS_MODE_SHORT = 0x02"
definition E_ZB_ADDRESS_MODE_SHORT_NO_ACK :: u8 where "E_ZB_ADDRESS_MODE_SHORT_NO_ACK = 0x07"
definition ZB_ENDPOINT_ZHA :: u8 where "ZB_ENDPOINT_ZHA = 1"
definition ZB_DEFAULT_ENDPOINT_ZLL :: u8 where "ZB_DEFAULT_ENDPOINT_ZLL = 3"

lemmas zcb_addressing = E_ZB_ADDRESS_MODE_GROUP_def E_ZB_ADDRESS_MODE_SHORT_def E_ZB_ADDRESS_MODE_SHORT_NO_ACK_def
  ZB_ENDPOINT_ZHA_def ZB_DEFAULT_ENDPOINT_ZLL_def

text \<open>
  The values of a link status as the code compares them: the status codes of a node share
  the small numbers with the link's own errors.
\<close>

definition sl_code :: "teSL_Status \<Rightarrow> c_int" where
  "sl_code st = (case st of E_SL_OK \<Rightarrow> 0 | E_SL_ERROR \<Rightarrow> 1 | E_SL_NOMESSAGE \<Rightarrow> 2 | E_SL_ERROR_SERIAL \<Rightarrow> 3
     | E_SL_ERROR_NOMEM \<Rightarrow> 4 | E_SL_STACK b \<Rightarrow> uint b)"

text \<open>The header of a request to a node, without acknowledgement.\<close>

definition zb_node :: "u16 \<Rightarrow> u8 list" where
  "zb_node saddr = [E_ZB_ADDRESS_MODE_SHORT_NO_ACK] @ be16 saddr @ [ZB_ENDPOINT_ZHA, ZB_ENDPOINT_ZHA]"

section \<open>Commands of zcb.c\<close>

definition eZCB_EstablishComms :: "zcb_env \<Rightarrow> c_int \<Rightarrow> zcb_state \<Rightarrow> (teZcbStatus \<times> zcb_state) option" where
  "eZCB_EstablishComms env now s = (case zcb_request env E_SL_MSG_GET_VERSION [] s of
     (st, s1) \<Rightarrow> if st \<noteq> E_ZCB_OK then Some (E_ZCB_COMMS_FAILED, s1) else
       (case zcb_wait env s1 of
          (None, s2) \<Rightarrow> Some (E_ZCB_COMMS_FAILED, s2)
        | (Some m, s2) \<Rightarrow> do {
            version \<leftarrow> get32 m 0;
            Some (zcb_request env E_SL_MSG_RESET []
              (z_set_db (snd (newDbSystemSaveIntval now ''zcb_version'' (sint version) (z_db s2))) s2)) }))"

definition eOnOff :: "zcb_env \<Rightarrow> u16 \<Rightarrow> u8 \<Rightarrow> zcb_state \<Rightarrow> teZcbStatus \<times> zcb_state" where
  "eOnOff env u16ShortAddress u8Mode s =
     (if u8Mode > 2 then (E_ZCB_ERROR, s)
      else zcb_request env E_SL_MSG_ONOFF (zb_node u16ShortAddress @ [u8Mode]) s)"

text \<open>The retries count the answers that there is no message; any other error is tried again without end.\<close>

partial_function (option) simple_descriptor_loop ::
    "zcb_env \<Rightarrow> u8 list \<Rightarrow> nat \<Rightarrow> zcb_state \<Rightarrow> (teZcbStatus \<times> zcb_state) option" where
  "simple_descriptor_loop env m u8Retry s = (case zcb_send env E_SL_MSG_SIMPLE_DESCRIPTOR_REQUEST m s of ((st, seq), s') \<Rightarrow>
     if st = E_SL_OK then Some (E_ZCB_OK, s')
     else if sl_code st = 2 \<and> u8Retry = 1 then Some (E_ZCB_COMMS_FAILED, s')
     else simple_descriptor_loop env m (if sl_code st = 2 then u8Retry - 1 else u8Retry) s')"

definition SimpleDescriptorRequest :: "zcb_env \<Rightarrow> u16 \<Rightarrow> zcb_state \<Rightarrow> (teZcbStatus \<times> zcb_state) option" where
  "SimpleDescriptorRequest env u16ShortAddress s =
     simple_descriptor_loop env (be16 u16ShortAddress @ [ZB_ENDPOINT_ZHA]) 3 s"

text \<open>The wait for the response with the sequence number of the request.\<close>

partial_function (option) await_seq :: "zcb_env \<Rightarrow> u8 \<Rightarrow> zcb_state \<Rightarrow> (u8 list option \<times> zcb_state) option" where
  "await_seq env seq s = (case zcb_wait env s of
     (None, s') \<Rightarrow> Some (None, s')
   | (Some m, s') \<Rightarrow> Option.bind (get8 m 0) (\<lambda>b. if b = seq then Some (Some m, s') else await_seq env seq s'))"

text \<open>The entries of a neighbour-table response: unknown nodes are added and asked what they are.\<close>

fun neighbours :: "zcb_env \<Rightarrow> c_int \<Rightarrow> u8 list \<Rightarrow> nat \<Rightarrow> nat \<Rightarrow> c_int \<Rightarrow> zcb_state \<Rightarrow> (c_int \<times> zcb_state) option" where
  "neighbours env now m 0 i ret s = Some (ret, s)"
| "neighbours env now m (Suc n) i ret s = do {
     sa \<leftarrow> get16 m (5 + 21 * i);
     pan \<leftarrow> get64 m (7 + 21 * i);
     ieee \<leftarrow> get64 m (15 + 21 * i);
     if sa \<ge> 0xFFFA \<or> ieee = 0 then neighbours env now m n (Suc i) ret s
     else (case newDbGetZcbSaddr (uint sa) (z_db s) of
        Some z \<Rightarrow> neighbours env now m n (Suc i) ret s
      | None \<Rightarrow> do {
          (st, s') \<leftarrow> SimpleDescriptorRequest env sa (z_set_db (snd (zcbAddNode now sa ieee (z_db s))) s);
          neighbours env now m n (Suc i) (if st \<noteq> E_ZCB_OK then - 1 else ret) s' }) }"

definition eZCB_NeighbourTableRequest :: "zcb_env \<Rightarrow> c_int \<Rightarrow> c_int \<Rightarrow> zcb_state \<Rightarrow> (c_int \<times> zcb_state) option" where
  "eZCB_NeighbourTableRequest env now start s =
     (case zcb_send env E_SL_MSG_MANAGEMENT_LQI_REQUEST (be16 0 @ [word_of_int start]) s of
        ((st, seq), s1) \<Rightarrow> if st \<noteq> E_SL_OK then Some (- 1, s1) else do {
          (resp, s2) \<leftarrow> await_seq env seq s1;
          (case resp of
             None \<Rightarrow> Some (- 1, s2)
           | Some m \<Rightarrow> do {
               status \<leftarrow> get8 m 1;
               if status \<noteq> 0 then Some (- 1, s2) else do {
                 tableSize \<leftarrow> get8 m 2;
                 entries \<leftarrow> get8 m 3;
                 (ret, s3) \<leftarrow> neighbours env now m (unat entries) 0 0 s2;
                 let next_start = (if entries > 0 then if start + uint entries \<ge> uint tableSize then 0 else start + uint entries else 0) in
                 Some (if ret = 0 then next_start else ret, s3) } }) })"

text \<open>
  The number of data bytes of a ZCL attribute type.  \<open>pvData\<close> is the memory of a
  little-endian host; the code swaps its bytes.
\<close>

definition zcl_size :: "u8 \<Rightarrow> nat option" where
  "zcl_size t =
     (if t \<in> {0x08, 0x20, 0x28, 0x30, 0x18, 0x10, 0x41, 0x42} then Some 1
      else if t \<in> {0x43, 0x44, 0x4c, 0x29, 0x21, 0x31, 0xe8, 0xe9} then Some 2
      else if t \<in> {0x22, 0x23, 0xe0, 0xe1, 0xe2, 0xea} then Some 4
      else if t \<in> {0x24, 0x25, 0x26, 0x27, 0xf0} then Some 8
      else None)"

definition eZCB_WriteAttributeRequest ::
    "zcb_env \<Rightarrow> u16 \<Rightarrow> u16 \<Rightarrow> u8 \<Rightarrow> u8 \<Rightarrow> u16 \<Rightarrow> u16 \<Rightarrow> u8 \<Rightarrow> u8 list \<Rightarrow> zcb_state \<Rightarrow> (teZcbStatus \<times> zcb_state) option" where
  "eZCB_WriteAttributeRequest env saddr cluster dir manspec manid attr t pvData s = (case zcl_size t of
     None \<Rightarrow> Some (E_ZCB_ERROR, s)
   | Some n \<Rightarrow> do {
       d \<leftarrow> get_bytes pvData 0 n;
       (case zcb_send env E_SL_MSG_WRITE_ATTRIBUTE_REQUEST
               (zb_node saddr @ be16 cluster @ [dir, manspec] @ be16 manid @ [1] @ be16 attr @ [t] @ rev d) s of
          ((st, seq), s1) \<Rightarrow> if st \<noteq> E_SL_OK then Some (E_ZCB_COMMS_FAILED, s1) else
            (case zcb_wait env s1 of
               (None, s2) \<Rightarrow> Some (E_ZCB_COMMS_FAILED, s2)
             | (Some m, s2) \<Rightarrow> do {
                 b \<leftarrow> get8 m 14;
                 if b \<noteq> seq then Some (E_ZCB_COMMS_FAILED, s2) else do {
                   status \<leftarrow> get8 m 16;
                   Some (uint status, s2) } })) })"

definition eZCB_SendBindCommand :: "zcb_env \<Rightarrow> u64 \<Rightarrow> u16 \<Rightarrow> zcb_state \<Rightarrow> (teZcbStatus \<times> zcb_state) option" where
  "eZCB_SendBindCommand env u64IEEEAddress u16ClusterId s =
     (case zcb_send env E_SL_MSG_BIND (be64 u64IEEEAddress @ [ZB_ENDPOINT_ZHA] @ be16 u16ClusterId @ [3]
             @ be64 (zcbNodeGetExtendedAddress 0 (z_db s)) @ [ZB_ENDPOINT_ZHA]) s of
        ((st, seq), s1) \<Rightarrow> if st \<noteq> E_SL_OK then Some (E_ZCB_COMMS_FAILED, s1) else
          (case zcb_wait env s1 of
             (None, s2) \<Rightarrow> Some (E_ZCB_COMMS_FAILED, s2)
           | (Some m, s2) \<Rightarrow> do {
               b \<leftarrow> get8 m 0;
               if b \<noteq> seq then Some (E_ZCB_COMMS_FAILED, s2) else do {
                 status \<leftarrow> get8 m 1;
                 Some (uint status, s2) } }))"

section \<open>Groups and scenes\<close>

text \<open>\<open>eZCB_AddGroupMembership\<close> reports a request that was accepted as failed, and the reverse.\<close>

definition eZCB_AddGroupMembership :: "zcb_env \<Rightarrow> u16 \<Rightarrow> u16 \<Rightarrow> zcb_state \<Rightarrow> teZcbStatus \<times> zcb_state" where
  "eZCB_AddGroupMembership env saddr grp s =
     (case zcb_send env E_SL_MSG_ADD_GROUP_REQUEST (zb_node saddr @ be16 grp) s of
        ((st, seq), s') \<Rightarrow> (if st \<noteq> E_SL_OK then E_ZCB_OK else E_ZCB_COMMS_FAILED, s'))"

definition eZCB_RemoveGroupMembership :: "zcb_env \<Rightarrow> u16 \<Rightarrow> u16 \<Rightarrow> zcb_state \<Rightarrow> teZcbStatus \<times> zcb_state" where
  "eZCB_RemoveGroupMembership env saddr grp = zcb_request env E_SL_MSG_REMOVE_GROUP_REQUEST (zb_node saddr @ be16 grp)"

definition eZCB_ClearGroupMemberships :: "zcb_env \<Rightarrow> u16 \<Rightarrow> zcb_state \<Rightarrow> teZcbStatus \<times> zcb_state" where
  "eZCB_ClearGroupMemberships env saddr = zcb_request env E_SL_MSG_REMOVE_ALL_GROUPS (zb_node saddr)"

text \<open>
  The header of a scene request: short address 0xFFFF stands for the group.  The endpoint for
  groups is stored and then overwritten by the endpoint for scenes.
\<close>

definition scene_header :: "u16 \<Rightarrow> u16 \<Rightarrow> u8 list" where
  "scene_header saddr grp =
     (if saddr \<noteq> 0xFFFF then [E_ZB_ADDRESS_MODE_SHORT_NO_ACK] @ be16 saddr else [E_ZB_ADDRESS_MODE_GROUP] @ be16 grp)
     @ [ZB_ENDPOINT_ZHA, ZB_ENDPOINT_ZHA] @ be16 grp"

definition eZCB_RemoveScene :: "zcb_env \<Rightarrow> u16 \<Rightarrow> u16 \<Rightarrow> u8 \<Rightarrow> zcb_state \<Rightarrow> teZcbStatus \<times> zcb_state" where
  "eZCB_RemoveScene env saddr grp scene = zcb_request env E_SL_MSG_REMOVE_SCENE (scene_header saddr grp @ [scene])"

definition eZCB_RemoveAllScenes :: "zcb_env \<Rightarrow> u16 \<Rightarrow> u16 \<Rightarrow> zcb_state \<Rightarrow> teZcbStatus \<times> zcb_state" where
  "eZCB_RemoveAllScenes env saddr grp = zcb_request env E_SL_MSG_REMOVE_ALL_SCENES (scene_header saddr grp)"

definition eZCB_StoreScene :: "zcb_env \<Rightarrow> u16 \<Rightarrow> u16 \<Rightarrow> u8 \<Rightarrow> zcb_state \<Rightarrow> teZcbStatus \<times> zcb_state" where
  "eZCB_StoreScene env saddr grp scene = zcb_request env E_SL_MSG_STORE_SCENE (scene_header saddr grp @ [scene])"

definition eZCB_RecallScene :: "zcb_env \<Rightarrow> u16 \<Rightarrow> u16 \<Rightarrow> u8 \<Rightarrow> zcb_state \<Rightarrow> teZcbStatus \<times> zcb_state" where
  "eZCB_RecallScene env saddr grp scene = zcb_request env E_SL_MSG_RECALL_SCENE (scene_header saddr grp @ [scene])"

section \<open>Lamps and groups of lamps\<close>

definition initDefaultHeader :: "u16 \<Rightarrow> u16 \<Rightarrow> u8 list" where
  "initDefaultHeader saddr grp =
     (if saddr \<noteq> 0xFFFF then [E_ZB_ADDRESS_MODE_SHORT] @ be16 saddr @ [ZB_ENDPOINT_ZHA, ZB_ENDPOINT_ZHA]
      else [E_ZB_ADDRESS_MODE_GROUP] @ be16 grp @ [ZB_ENDPOINT_ZHA, ZB_DEFAULT_ENDPOINT_ZLL])"

definition lmpgrp_OnOff :: "zcb_env \<Rightarrow> u16 \<Rightarrow> u16 \<Rightarrow> u8 \<Rightarrow> zcb_state \<Rightarrow> teZcbStatus \<times> zcb_state" where
  "lmpgrp_OnOff env saddr grp mode s =
     (if mode > 2 then (E_ZCB_ERROR, s) else zcb_request env E_SL_MSG_ONOFF (initDefaultHeader saddr grp @ [mode]) s)"

definition lmpgrp_MoveToLevel :: "zcb_env \<Rightarrow> u16 \<Rightarrow> u16 \<Rightarrow> u8 \<Rightarrow> u16 \<Rightarrow> zcb_state \<Rightarrow> teZcbStatus \<times> zcb_state" where
  "lmpgrp_MoveToLevel env saddr grp level time = zcb_request env E_SL_MSG_MOVE_TO_LEVEL_ONOFF
     (initDefaultHeader saddr grp @ [0, if level > 254 then 254 else level] @ be16 time)"

definition lmpgrp_MoveToHue :: "zcb_env \<Rightarrow> u16 \<Rightarrow> u16 \<Rightarrow> u8 \<Rightarrow> u16 \<Rightarrow> zcb_state \<Rightarrow> teZcbStatus \<times> zcb_state" where
  "lmpgrp_MoveToHue env saddr grp hue time = zcb_request env E_SL_MSG_MOVE_TO_HUE
     (initDefaultHeader saddr grp @ [hue, 0] @ be16 time)"

definition lmpgrp_MoveToSaturation :: "zcb_env \<Rightarrow> u16 \<Rightarrow> u16 \<Rightarrow> u8 \<Rightarrow> u16 \<Rightarrow> zcb_state \<Rightarrow> teZcbStatus \<times> zcb_state" where
  "lmpgrp_MoveToSaturation env saddr grp sat time = zcb_request env E_SL_MSG_MOVE_TO_SATURATION
     (initDefaultHeader saddr grp @ [sat] @ be16 time)"

definition lmpgrp_MoveToHueSaturation ::
    "zcb_env \<Rightarrow> u16 \<Rightarrow> u16 \<Rightarrow> u8 \<Rightarrow> u8 \<Rightarrow> u16 \<Rightarrow> zcb_state \<Rightarrow> teZcbStatus \<times> zcb_state" where
  "lmpgrp_MoveToHueSaturation env saddr grp hue sat time = zcb_request env E_SL_MSG_MOVE_TO_HUE_SATURATION
     (initDefaultHeader saddr grp @ [hue, sat] @ be16 time)"

definition lmpgrp_MoveToColour :: "zcb_env \<Rightarrow> u16 \<Rightarrow> u16 \<Rightarrow> u16 \<Rightarrow> u16 \<Rightarrow> u16 \<Rightarrow> zcb_state \<Rightarrow> teZcbStatus \<times> zcb_state" where
  "lmpgrp_MoveToColour env saddr grp x y time = zcb_request env E_SL_MSG_MOVE_TO_COLOUR
     (initDefaultHeader saddr grp @ be16 x @ be16 y @ be16 time)"

definition lmpgrp_MoveToColourTemperature ::
    "zcb_env \<Rightarrow> u16 \<Rightarrow> u16 \<Rightarrow> u16 \<Rightarrow> u16 \<Rightarrow> zcb_state \<Rightarrow> teZcbStatus \<times> zcb_state" where
  "lmpgrp_MoveToColourTemperature env saddr grp temp time = zcb_request env E_SL_MSG_MOVE_TO_COLOUR_TEMPERATURE
     (initDefaultHeader saddr grp @ be16 temp @ be16 time)"

definition lmpgrp_MoveColourTemperature ::
    "zcb_env \<Rightarrow> u16 \<Rightarrow> u16 \<Rightarrow> u8 \<Rightarrow> u16 \<Rightarrow> u16 \<Rightarrow> u16 \<Rightarrow> zcb_state \<Rightarrow> teZcbStatus \<times> zcb_state" where
  "lmpgrp_MoveColourTemperature env saddr grp mode rate tmin tmax = zcb_request env E_SL_MSG_MOVE_COLOUR_TEMPERATURE
     (initDefaultHeader saddr grp @ [mode] @ be16 rate @ be16 tmin @ be16 tmax)"

definition lmpgrp_ColourLoopSet ::
    "zcb_env \<Rightarrow> u16 \<Rightarrow> u16 \<Rightarrow> u8 \<Rightarrow> u8 \<Rightarrow> u8 \<Rightarrow> u16 \<Rightarrow> u16 \<Rightarrow> zcb_state \<Rightarrow> teZcbStatus \<times> zcb_state" where
  "lmpgrp_ColourLoopSet env saddr grp flags action direction time hue = zcb_request env E_SL_MSG_COLOUR_LOOP_SET
     (initDefaultHeader saddr grp @ [flags, action, direction] @ be16 time @ be16 hue)"

section \<open>When a simple-descriptor request returns\<close>

definition answer_ok :: "zcb_env \<Rightarrow> nat \<Rightarrow> bool" where
  "answer_ok env i \<longleftrightarrow> fst (sl_answer env i) = E_SL_OK"

definition answer_none :: "zcb_env \<Rightarrow> nat \<Rightarrow> bool" where
  "answer_none env i \<longleftrightarrow> sl_code (fst (sl_answer env i)) = 2"

definition descriptor_stops :: "zcb_env \<Rightarrow> nat \<Rightarrow> nat \<Rightarrow> nat \<Rightarrow> bool" where
  "descriptor_stops env k r j \<longleftrightarrow> k \<le> j \<and> (answer_ok env j \<or> length (filter (answer_none env) [k..<Suc j]) = r)"

lemma ok_not_none: "answer_ok env i \<Longrightarrow> \<not> answer_none env i"
  by (simp add: answer_ok_def answer_none_def sl_code_def)

lemma simple_descriptor_step:
  "simple_descriptor_loop env m r s =
     (let k = length (z_requests s); s' = s\<lparr>z_requests := z_requests s @ [(E_SL_MSG_SIMPLE_DESCRIPTOR_REQUEST, m)]\<rparr> in
      if answer_ok env k then Some (E_ZCB_OK, s')
      else if answer_none env k \<and> r = 1 then Some (E_ZCB_COMMS_FAILED, s')
      else simple_descriptor_loop env m (if answer_none env k then r - 1 else r) s')"
  by (subst simple_descriptor_loop.simps)
     (simp add: zcb_send_def answer_ok_def answer_none_def Let_def split: prod.splits)

lemma stops_here: "descriptor_stops env k (Suc r) k \<longleftrightarrow> answer_ok env k \<or> answer_none env k \<and> r = 0"
  by (auto simp: descriptor_stops_def)

lemma stops_later:
  assumes "\<not> answer_ok env k" and "\<not> (answer_none env k \<and> r = 1)" and "0 < r"
  shows "descriptor_stops env k r j \<longleftrightarrow> descriptor_stops env (Suc k) (if answer_none env k then r - 1 else r) j"
proof (cases "k < j")
  case True
  then have "[k..<Suc j] = k # [Suc k..<Suc j]" by (simp add: upt_conv_Cons)
  with True assms(3) show ?thesis by (auto simp: descriptor_stops_def simp del: upt_Suc)
next
  case False
  then have "\<not> Suc k \<le> j" by simp
  moreover have "\<not> descriptor_stops env k r j"
  proof
    assume d: "descriptor_stops env k r j"
    with False have "j = k" by (simp add: descriptor_stops_def)
    with d assms stops_here [of env k "r - 1"] show False by simp
  qed
  ultimately show ?thesis by (simp add: descriptor_stops_def)
qed

lemma descriptor_returns_if:
  "descriptor_stops env k r j \<Longrightarrow> k = length (z_requests s) \<Longrightarrow> 0 < r \<Longrightarrow> simple_descriptor_loop env m r s \<noteq> None"
proof (induction "j - k" arbitrary: k r s rule: less_induct)
  case less
  show ?case
  proof (cases "answer_ok env k \<or> answer_none env k \<and> r = 1")
    case True
    with less.prems(2) show ?thesis by (subst simple_descriptor_step) (auto simp: Let_def)
  next
    case False
    let ?r = "if answer_none env k then r - 1 else r"
    from False less.prems have d: "descriptor_stops env (Suc k) ?r j" using stops_later [of env k r j] by blast
    then have "Suc k \<le> j" unfolding descriptor_stops_def by blast
    then have "j - Suc k < j - k" by simp
    moreover have "0 < ?r" using False less.prems(3) by auto
    ultimately have "simple_descriptor_loop env m ?r
        (s\<lparr>z_requests := z_requests s @ [(E_SL_MSG_SIMPLE_DESCRIPTOR_REQUEST, m)]\<rparr>) \<noteq> None"
      using less.hyps d less.prems(2) by simp
    with False less.prems(2) show ?thesis by (subst simple_descriptor_step) (auto simp: Let_def)
  qed
qed

lemma descriptor_returns_only_if:
  "simple_descriptor_loop env m r s = Some y \<Longrightarrow> 0 < r \<longrightarrow> (\<exists>j. descriptor_stops env (length (z_requests s)) r j)"
proof (erule simple_descriptor_loop.raw_induct [rotated, where P = "\<lambda>env m r s y. 0 < r \<longrightarrow> (\<exists>j. descriptor_stops env (length (z_requests s)) r j)"],
    intro impI)
  fix loop env m r s y
  assume 1: "\<And>env m r s y. loop env m r s = Some y \<Longrightarrow> 0 < r \<longrightarrow> (\<exists>j. descriptor_stops env (length (z_requests s)) r j)"
    "(case zcb_send env E_SL_MSG_SIMPLE_DESCRIPTOR_REQUEST m s of ((st, seq), s') \<Rightarrow>
     if st = E_SL_OK then Some (E_ZCB_OK, s')
     else if sl_code st = 2 \<and> r = 1 then Some (E_ZCB_COMMS_FAILED, s')
     else loop env m (if sl_code st = 2 then r - 1 else r) s') = Some y" "0 < r"
  let ?k = "length (z_requests s)"
  let ?r = "if answer_none env ?k then r - 1 else r"
  show "\<exists>j. descriptor_stops env ?k r j"
  proof (cases "answer_ok env ?k \<or> answer_none env ?k \<and> r = 1")
    case True
    moreover have "Suc (r - 1) = r" using 1(3) by simp
    ultimately have "descriptor_stops env ?k r ?k" using stops_here [of env ?k "r - 1"] by auto
    then show ?thesis by blast
  next
    case False
    then have "loop env m ?r (s\<lparr>z_requests := z_requests s @ [(E_SL_MSG_SIMPLE_DESCRIPTOR_REQUEST, m)]\<rparr>) = Some y"
      using 1(2) by (auto simp: zcb_send_def answer_ok_def answer_none_def split: prod.splits if_splits)
    moreover have "0 < ?r" using False 1(3) by auto
    ultimately have "\<exists>j. descriptor_stops env (Suc ?k) ?r j" using 1(1) by fastforce
    then show ?thesis using stops_later [of env ?k r] False 1(3) by blast
  qed
qed

text \<open>
  C38: A request for a simple descriptor returns exactly when the control bridge accepts one of
  its messages or has left three of them unanswered: a bridge that goes on reporting any other
  error keeps the daemon in the retry loop.
\<close>

theorem simple_descriptor_returns:
  "SimpleDescriptorRequest env sa s \<noteq> None \<longleftrightarrow>
     (\<exists>j. length (z_requests s) \<le> j \<and> (fst (sl_answer env j) = E_SL_OK
        \<or> length (filter (\<lambda>i. sl_code (fst (sl_answer env i)) = 2) [length (z_requests s)..<Suc j]) = 3))"
proof -
  have "SimpleDescriptorRequest env sa s \<noteq> None \<longleftrightarrow> (\<exists>j. descriptor_stops env (length (z_requests s)) 3 j)"
    using descriptor_returns_if descriptor_returns_only_if [of env _ 3] by (fastforce simp: SimpleDescriptorRequest_def)
  then show ?thesis unfolding descriptor_stops_def answer_ok_def answer_none_def [abs_def] .
qed

end
