(* ===== verification/ZcbHandlers.thy ===== *)
theory ZcbHandlers
  imports ZcbRequests ControlState
begin

text \<open>
  The JSON objects that the Zigbee daemon reads from its queue (\<open>lmp.c\<close>, \<open>grp.c\<close>, \<open>plg.c\<close>,
  \<open>ctrl.c\<close>, \<open>tunnel.c\<close>, \<open>topo.c\<close>, \<open>cmd.c\<close> of \<open>daemons/ZCB\<close>): each handler reads the attributes of the
  object and writes requests to the control bridge.  The handlers share their names with those
  of the control interface and carry the prefix \<open>zcb_\<close>.
\<close>

section \<open>Lamps and groups\<close>

text \<open>The node an object names: nothing happens without a mac, or for an unknown one.\<close>

definition with_node :: "(string \<Rightarrow> u16 \<Rightarrow> zcb_state option) \<Rightarrow> zcb_state \<Rightarrow> zcb_state option" where
  "with_node f s = (case zattr s ''mac'' of
     None \<Rightarrow> None
   | Some mac \<Rightarrow> if mac = [] then Some s
       else let sa = zcbNodeGetShortAddress mac (z_db s) in if sa = 0xFFFF then Some s else f mac sa)"

text \<open>The level (0 to 100 becomes 0 to 255, then a byte) and the colour; a product that overflows is undefined.\<close>

definition lamp_level :: "zcb_env \<Rightarrow> u16 \<Rightarrow> u16 \<Rightarrow> zcb_state \<Rightarrow> zcb_state option" where
  "lamp_level env saddr grp s = (let lvl = zattri s ''lvl'' in
     if lvl < 0 then Some s
     else if lvl * 255 > INT_MAX then None
     else Some (snd (lmpgrp_MoveToLevel env saddr grp (word_of_int (lvl * 255 sdiv 100)) 5 s)))"

definition lamp_colour :: "zcb_env \<Rightarrow> u16 \<Rightarrow> u16 \<Rightarrow> zcb_state \<Rightarrow> zcb_state" where
  "lamp_colour env saddr grp s = (let xcr = zattri s ''xcr''; ycr = zattri s ''ycr'' in
     if xcr \<ge> 0 \<and> ycr \<ge> 0 then snd (lmpgrp_MoveToColour env saddr grp (word_of_int xcr) (word_of_int ycr) 5 s) else s)"

definition lamp_kelvin :: "zcb_env \<Rightarrow> u16 \<Rightarrow> zcb_state \<Rightarrow> zcb_state" where
  "lamp_kelvin env saddr s = (let kelvin = zattri s ''kelvin'' in
     if kelvin > 0 then snd (lmpgrp_MoveToColourTemperature env saddr 0 (word_of_int (1000000 sdiv kelvin)) 5 s) else s)"

definition lamp_onoff :: "zcb_env \<Rightarrow> u16 \<Rightarrow> zcb_state \<Rightarrow> zcb_state" where
  "lamp_onoff env saddr s = (case zattr0 s ''cmd'' of
     Some cmd \<Rightarrow> snd (lmpgrp_OnOff env saddr 0 (if cmd = ''on'' then 1 else 0) s)
   | None \<Rightarrow> s)"

definition lamp_group :: "zcb_env \<Rightarrow> u16 \<Rightarrow> zcb_state \<Rightarrow> zcb_state" where
  "lamp_group env saddr s = (case zattr0 s ''grp'' of
     None \<Rightarrow> s
   | Some g \<Rightarrow> (let gid = zattri s ''grpid'' in
       if g = ''remall'' then snd (eZCB_ClearGroupMemberships env saddr s)
       else if gid \<ge> 0 then
         (if g = ''add'' then snd (eZCB_AddGroupMembership env saddr (word_of_int gid) s)
          else if g = ''rem'' then snd (eZCB_RemoveGroupMembership env saddr (word_of_int gid) s) else s)
       else s))"

definition lamp_scene :: "zcb_env \<Rightarrow> u16 \<Rightarrow> zcb_state \<Rightarrow> zcb_state" where
  "lamp_scene env saddr s = (case zattr0 s ''scn'' of
     None \<Rightarrow> s
   | Some scn \<Rightarrow> (let gid = zattri s ''grpid''; sid = zattri s ''scnid'' in
       if gid \<ge> 0 then
         (if scn = ''remall'' then snd (eZCB_RemoveAllScenes env saddr (word_of_int gid) s)
          else if sid \<ge> 0 then
            (if scn = ''add'' then snd (eZCB_StoreScene env saddr (word_of_int gid) (word_of_int sid) s)
             else if scn = ''rem'' then snd (eZCB_RemoveScene env saddr (word_of_int gid) (word_of_int sid) s)
             else if scn = ''store'' then snd (eZCB_StoreScene env saddr (word_of_int gid) (word_of_int sid) s)
             else if scn = ''recall'' then snd (eZCB_RecallScene env saddr (word_of_int gid) (word_of_int sid) s)
             else s)
          else s)
       else s))"

definition zcb_lmpHandle :: "zcb_env \<Rightarrow> zcb_state \<Rightarrow> zcb_state option" where
  "zcb_lmpHandle env s = with_node (\<lambda>mac saddr. do {
     s1 \<leftarrow> lamp_level env saddr 0 (lamp_onoff env saddr s);
     Some (lamp_scene env saddr (lamp_group env saddr (lamp_kelvin env saddr (lamp_colour env saddr 0 s1)))) }) s"

definition zcb_grpHandle :: "zcb_env \<Rightarrow> zcb_state \<Rightarrow> zcb_state option" where
  "zcb_grpHandle env s = (let gid = zattri s ''grpid''; g = word_of_int gid in
     if gid < 0 then Some s else
       (let s1 = (case zattr0 s ''cmd'' of
            None \<Rightarrow> s
          | Some cmd \<Rightarrow> if cmd = ''on'' then snd (lmpgrp_OnOff env 0xFFFF g 1 s)
              else if cmd = ''off'' then snd (lmpgrp_OnOff env 0xFFFF g 0 s) else s);
          s2 = (case zattr0 s1 ''scn'' of
            None \<Rightarrow> s1
          | Some scn \<Rightarrow>
              if scn = ''recall'' then
                (let sid = zattri s1 ''scnid'' in if sid \<ge> 0 then snd (eZCB_RecallScene env 0xFFFF g (word_of_int sid) s1) else s1)
              else if scn = ''remall'' then snd (eZCB_RemoveAllScenes env 0xFFFF g s1) else s1)
        in map_option (lamp_colour env 0xFFFF g) (lamp_level env 0xFFFF g s2)))"

section \<open>Plugs\<close>

definition zcb_plgHandle :: "zcb_env \<Rightarrow> zcb_state \<Rightarrow> zcb_state option" where
  "zcb_plgHandle env s = with_node (\<lambda>mac saddr. (case zattr s ''cmd'' of
     None \<Rightarrow> None
   | Some cmd \<Rightarrow> Some (if cmd = [] then s else snd (eOnOff env saddr (if cmd = ''on'' then 1 else 0) s)))) s"

section \<open>The tunnel to a manager\<close>

definition LOG_MAX_SIZE :: nat where "LOG_MAX_SIZE = 70"

definition E_SL_MSG_ASC_LOG_MSG :: u16 where "E_SL_MSG_ASC_LOG_MSG = 0x0301"

definition zcb_tunnelHandle :: "zcb_state \<Rightarrow> zcb_state option" where
  "zcb_tunnelHandle s = (case zattr s ''open'' of
     None \<Rightarrow> None
   | Some mac \<Rightarrow> Some (if mac = [] then s
       else let sa = zcbNodeGetShortAddress mac (z_db s) in if sa \<noteq> 0xFFFF then s\<lparr>z_tunnel := sa\<rparr> else s))"

text \<open>A long message is retried without its blanks; the copy stops at the buffer's end.\<close>

definition tunnel_compress :: "string \<Rightarrow> string" where
  "tunnel_compress m = (if LOG_MAX_SIZE \<le> length m
     then take LOG_MAX_SIZE (filter (\<lambda>c. \<not> (c = CHR '' '' \<or> c = CHR 0x09)) m) else m)"

definition char_bytes :: "string \<Rightarrow> u8 list" where
  "char_bytes m = map (\<lambda>c. of_char c) m"

definition tunnelSend :: "zcb_env \<Rightarrow> string option \<Rightarrow> zcb_state \<Rightarrow> (c_int \<times> zcb_state) option" where
  "tunnelSend env message s = (case message of
     None \<Rightarrow> None
   | Some m0 \<Rightarrow> (let m = tunnel_compress m0 in
       if LOG_MAX_SIZE \<le> length m then Some (0, s)
       else if z_tunnel s = 0 then Some (0, s)
       else (case zcb_send env E_SL_MSG_ASC_LOG_MSG
              (zb_node (z_tunnel s) @ be32 0xFFFFFFFF @ be32 (z_log_id s) @ be32 (word_of_nat (length m))
               @ char_bytes m @ replicate (LOG_MAX_SIZE - length m) 0) (s\<lparr>z_log_id := z_log_id s + 1\<rparr>) of
          ((st, seq), s') \<Rightarrow> Some (if st = E_SL_OK then 1 else 0, s'))))"

definition zcb_ctrlHandle :: "zcb_env \<Rightarrow> zcb_state \<Rightarrow> zcb_state option" where
  "zcb_ctrlHandle env s = with_node (\<lambda>mac saddr. (let heat = zattri s ''heat''; cool = zattri s ''cool'' in
     if heat \<ge> 0 \<and> cool \<ge> 0 then map_option snd (tunnelSend env (jsonUiCtrl mac heat cool) s) else Some s)) s"

section \<open>Topology commands\<close>

definition IOT_ERROR_TUNNEL_SEND :: c_int where "IOT_ERROR_TUNNEL_SEND = 15"

definition topo_tunnel :: "zcb_env \<Rightarrow> string option \<Rightarrow> zcb_state \<Rightarrow> (c_int \<times> zcb_state) option" where
  "topo_tunnel env message s = map_option (\<lambda>(ok, s'). (if ok = 0 then IOT_ERROR_TUNNEL_SEND else IOT_ERROR_NONE, s')) (tunnelSend env message s)"

definition zcb_topoHandle :: "zcb_env \<Rightarrow> zcb_state \<Rightarrow> (c_int \<times> zcb_state) option" where
  "zcb_topoHandle env s = map_option (\<lambda>(err, s'). if err \<noteq> IOT_ERROR_NONE
       then (- 1, s'\<lparr>z_ipc := (z_ipc s')\<lparr>q_error := err\<rparr>\<rparr>) else (0, s'))
     (case zattr0 s ''cmd'' of
        Some cmd \<Rightarrow>
          if cmd = ''clearall'' then topo_tunnel env jsonTopoClear s
          else if cmd = ''endconf'' then topo_tunnel env jsonTopoEnd s
          else Some (IOT_ERROR_TOPO_ILLEGAL_CMD, s)
      | None \<Rightarrow> (case zattr0 s ''nm'' of
          None \<Rightarrow> Some (IOT_ERROR_TOPO_MISSING_NAME, s)
        | Some nm \<Rightarrow>
            (case zattr0 s ''man'' of Some mac \<Rightarrow> topo_tunnel env (jsonTopoAddManager mac (Some nm) (zattr0 s ''ty'')) s | None \<Rightarrow>
            (case zattr0 s ''ui'' of Some mac \<Rightarrow> topo_tunnel env (jsonTopoAddUI mac (Some nm)) s | None \<Rightarrow>
            (case zattr0 s ''sen'' of Some mac \<Rightarrow> topo_tunnel env (jsonTopoAddSensor mac (Some nm)) s | None \<Rightarrow>
            (case zattr0 s ''pmp'' of Some mac \<Rightarrow> topo_tunnel env (jsonTopoAddPump mac (Some nm) (zattri s ''sid'')) s | None \<Rightarrow>
            (case zattr0 s ''lmp'' of Some mac \<Rightarrow> topo_tunnel env (jsonTopoAddLamp mac (Some nm) (zattr0 s ''ty'')) s | None \<Rightarrow>
            (case zattr0 s ''plg'' of Some mac \<Rightarrow> topo_tunnel env (jsonTopoAddPlug mac (Some nm)) s | None \<Rightarrow>
             Some (IOT_ERROR_NONE, s)))))))))"

section \<open>Commands to the control bridge\<close>

definition E_SL_MSG_ERASE_PERSISTENT_DATA :: u16 where "E_SL_MSG_ERASE_PERSISTENT_DATA = 0x0012"
definition E_SL_MSG_GET_PERMIT_JOIN :: u16 where "E_SL_MSG_GET_PERMIT_JOIN = 0x0014"
definition E_SL_MSG_SET_CHANNELMASK :: u16 where "E_SL_MSG_SET_CHANNELMASK = 0x0021"
definition E_SL_MSG_SET_DEVICETYPE :: u16 where "E_SL_MSG_SET_DEVICETYPE = 0x0023"
definition E_SL_MSG_START_NETWORK :: u16 where "E_SL_MSG_START_NETWORK = 0x0024"
definition E_SL_MSG_AUTHENTICATE_DEVICE_REQUEST :: u16 where "E_SL_MSG_AUTHENTICATE_DEVICE_REQUEST = 0x0028"
definition E_SL_MSG_PERMIT_JOINING_REQUEST :: u16 where "E_SL_MSG_PERMIT_JOINING_REQUEST = 0x0049"

definition eAuthenticateDevice :: "zcb_env \<Rightarrow> u64 \<Rightarrow> u8 list \<Rightarrow> zcb_state \<Rightarrow> teZcbStatus \<times> zcb_state" where
  "eAuthenticateDevice env u64IEEEAddress linkkey =
     zcb_request env E_SL_MSG_AUTHENTICATE_DEVICE_REQUEST (be64 u64IEEEAddress @ take 16 linkkey)"

definition eGetPermitJoining :: "zcb_env \<Rightarrow> zcb_state \<Rightarrow> c_int \<times> zcb_state" where
  "eGetPermitJoining env s = (case zcb_request env E_SL_MSG_GET_PERMIT_JOIN [] s of
     (st, s') \<Rightarrow> (if st = E_ZCB_OK then 1 else 0, s'))"

definition eSetPermitJoining :: "zcb_env \<Rightarrow> u8 \<Rightarrow> zcb_state \<Rightarrow> teZcbStatus \<times> zcb_state" where
  "eSetPermitJoining env u8Interval s =
     (case zcb_request env E_SL_MSG_PERMIT_JOINING_REQUEST (be16 0xFFFC @ [u8Interval, 0]) s of
        (st, s') \<Rightarrow> if st \<noteq> E_ZCB_OK then (E_ZCB_COMMS_FAILED, s') else (E_ZCB_OK, snd (eGetPermitJoining env s')))"

definition eSetChannelMask :: "zcb_env \<Rightarrow> c_int \<Rightarrow> u32 \<Rightarrow> zcb_state \<Rightarrow> teZcbStatus \<times> zcb_state" where
  "eSetChannelMask env now u32ChannelMask s =
     (case zcb_request env E_SL_MSG_SET_CHANNELMASK (be32 u32ChannelMask) s of
        (st, s') \<Rightarrow> if st \<noteq> E_ZCB_OK then (E_ZCB_COMMS_FAILED, s')
          else (E_ZCB_OK, z_set_db (snd (newDbSystemSaveIntval now ''zcb_channel'' (sint u32ChannelMask) (z_db s'))) s'))"

text \<open>The mode is the host's two bytes, as they are in memory; only the coordinator's mode, 0, is used.\<close>

definition eSetDeviceType :: "zcb_env \<Rightarrow> u16 \<Rightarrow> zcb_state \<Rightarrow> teZcbStatus \<times> zcb_state" where
  "eSetDeviceType env eModuleMode = zcb_request env E_SL_MSG_SET_DEVICETYPE (rev (be16 eModuleMode))"

definition eStartNetwork :: "zcb_env \<Rightarrow> zcb_state \<Rightarrow> teZcbStatus \<times> zcb_state" where
  "eStartNetwork env = zcb_request env E_SL_MSG_START_NETWORK []"

text \<open>The search for a channel starts at a random bit of the mask; \<open>None\<close> is a sum that overflows.\<close>

function chan_loop :: "u32 \<Rightarrow> nat \<Rightarrow> nat \<Rightarrow> nat option" where
  "chan_loop cm r i =
     (if i < 32 then
        (if int (i + r) > INT_MAX then None
         else if bit cm ((i + r) mod 32) then Some ((i + r) mod 32) else chan_loop cm r (i + 1))
      else Some 15)"
  by pat_completeness auto
termination by (relation "measure (\<lambda>(cm, r, i). 32 - i)") auto

declare chan_loop.simps [simp del]

text \<open>The part of \<open>cmdHandle\<close> for resets; the left component is its early return.\<close>

definition cmd_reset :: "zcb_env \<Rightarrow> zcb_state \<Rightarrow> (c_int + c_int) \<times> zcb_state" where
  "cmd_reset env s = (let reset = zattri s ''reset'' in
     if reset < 0 then (Inr 0, s)
     else (let (r, s1) = (if reset \<noteq> 0 then (Inr 0, s)
             else (case zcb_send env E_SL_MSG_ERASE_PERSISTENT_DATA [] s of ((st, seq), s0) \<Rightarrow>
               if sl_code st = 2 then
                 (case zcb_wait env s0 of (None, s') \<Rightarrow> (Inl E_ZCB_COMMS_FAILED, s') | (Some m, s') \<Rightarrow> (Inr 0, s'))
               else (Inr (sl_code st), s0)))
       in case r of
            Inl e \<Rightarrow> (Inl e, s1)
          | Inr ret \<Rightarrow> (case zcb_send env E_SL_MSG_RESET [] s1 of ((st, seq), s2) \<Rightarrow> (Inr (ret + sl_code st), s2))))"

definition cmd_authorize :: "zcb_env \<Rightarrow> zcb_state \<Rightarrow> zcb_state option" where
  "cmd_authorize env s = (case zattr s ''authorize'' of
     None \<Rightarrow> None
   | Some mac \<Rightarrow> if mac = [] then Some s
       else (case zattr s ''linkkey'' of
          None \<Rightarrow> None
        | Some linkkey \<Rightarrow> if length linkkey < 32 then None
            else (case nibblestr2hex (Some (replicate 20 0)) 16 (Some linkkey) 32 of
               (_, Some key) \<Rightarrow> Some (snd (eAuthenticateDevice env (nibblestr2u64 mac) key s))
             | (_, None) \<Rightarrow> None)))"

definition cmd_setpermit :: "zcb_env \<Rightarrow> zcb_state \<Rightarrow> zcb_state option" where
  "cmd_setpermit env s = (case zattr s ''setpermit'' of
     None \<Rightarrow> None
   | Some mac \<Rightarrow> Some (let duration = zattri s ''duration'' in
       if mac \<noteq> [] \<and> duration \<ge> 0 then snd (eSetPermitJoining env (word_of_int duration) s) else s))"

definition cmd_chanmask :: "zcb_env \<Rightarrow> c_int \<Rightarrow> zcb_state \<Rightarrow> zcb_state option" where
  "cmd_chanmask env now s = (case zattr s ''chanmask'' of
     None \<Rightarrow> None
   | Some chanmask \<Rightarrow> if chanmask = [] then Some s
       else map_option (\<lambda>chan. snd (eSetChannelMask env now (word_of_nat chan) s))
              (chan_loop (ucast (nibblestr2u64 chanmask)) (ze_rand env) 0))"

definition zcb_cmdHandle :: "zcb_env \<Rightarrow> c_int \<Rightarrow> zcb_state \<Rightarrow> (c_int \<times> zcb_state) option" where
  "zcb_cmdHandle env now s = (case cmd_reset env s of
     (Inl e, s1) \<Rightarrow> Some (e, s1)
   | (Inr ret, s1) \<Rightarrow>
       (let s2 = (if zattri s1 ''startnwk'' \<ge> 0 then snd (eStartNetwork env s1) else s1);
            s3 = (if zattri s2 ''getversion'' \<ge> 0 then snd (zcb_send env E_SL_MSG_GET_VERSION [] s2) else s2);
            s4 = (if zattri s3 ''getpermit'' \<ge> 0 then snd (eGetPermitJoining env s3) else s3)
        in do {
          s5 \<leftarrow> cmd_authorize env s4;
          s6 \<leftarrow> cmd_setpermit env s5;
          s7 \<leftarrow> cmd_chanmask env now s6;
          Some (ret, s7) }))"

section \<open>Answers of the control bridge to commands\<close>

definition HandleAuthResponse :: "zcb_env \<Rightarrow> u8 list \<Rightarrow> zcb_state \<Rightarrow> zcb_state option" where
  "HandleAuthResponse env m s = do {
     ieee \<leftarrow> get64 m 0;
     nwkey \<leftarrow> get_bytes m 8 16;
     mic \<leftarrow> get_bytes m 24 4;
     tc \<leftarrow> get64 m 28;
     keyseq \<leftarrow> get8 m 36;
     chan \<leftarrow> get8 m 37;
     pan \<leftarrow> get16 m 38;
     extpan \<leftarrow> get64 m 40;
     dispatchMessage env QUEUE_KEY_SECURE_JOINER
       (jsonZcbAuthorizeResponse (u642nibblestr ieee) (hex2nibblestr nwkey) (hex2nibblestr mic) (u642nibblestr tc)
          (uint keyseq) (uint chan) (hex2nibblestr (be16 pan)) (u642nibblestr extpan)) s }"

definition version_text :: "u32 \<Rightarrow> string" where
  "version_text v = ''r'' @ c_itoa (uint (drop_bit 16 v AND 0xFFFF)) @ ''.'' @ c_itoa (uint (v AND 0xFFFF))"

definition HandleVersionResponse :: "zcb_env \<Rightarrow> c_int \<Rightarrow> u8 list \<Rightarrow> zcb_state \<Rightarrow> zcb_state option" where
  "HandleVersionResponse env now m s = do {
     version \<leftarrow> get32 m 0;
     Some (let db1 = snd (newDbSystemSaveIntval now ''zcb_version'' (sint version) (z_db s));
               db2 = snd (newDbSystemSaveVal now ''version'' (z_versions s) (Some (version_text version)) db1)
           in s\<lparr>z_db := db2, z_versions := z_versions s + 1\<rparr>) }"

definition HandleGetPermitResponse :: "c_int \<Rightarrow> u8 list \<Rightarrow> zcb_state \<Rightarrow> zcb_state option" where
  "HandleGetPermitResponse now m s = do {
     st \<leftarrow> get8 m 0;
     Some (z_set_db (snd (newDbSystemSaveIntval now ''zcb_permit'' (uint st) (z_db s))) s) }"

definition HandleRestart :: "zcb_env \<Rightarrow> bool \<Rightarrow> zcb_state \<Rightarrow> zcb_state option" where
  "HandleRestart env factoryNew s =
     (if factoryNew then map_option snd (writeControl env (jsonCmdResetRsp 0) (snd (eSetDeviceType env 0 s)))
      else map_option snd (writeControl env (jsonCmdResetRsp 1) s))"

section \<open>The channel\<close>

definition first_channel :: "u32 \<Rightarrow> nat list \<Rightarrow> nat" where
  "first_channel cm bs = (case List.find (bit cm) bs of Some b \<Rightarrow> b | None \<Rightarrow> 15)"

lemma chan_loop_scan:
  "int (r + 31) \<le> INT_MAX \<Longrightarrow> i \<le> 32 \<Longrightarrow>
     chan_loop cm r i = Some (first_channel cm (map (\<lambda>j. (j + r) mod 32) [i..<32]))"
proof (induction cm r i rule: chan_loop.induct)
  case (1 cm r i)
  show ?case
  proof (cases "i < 32")
    case True
    then have "\<not> int (i + r) > INT_MAX" using 1(2) by linarith
    with True 1 show ?thesis
      by (subst chan_loop.simps) (simp add: first_channel_def upt_conv_Cons del: upt_Suc)
  next
    case False
    then show ?thesis using 1(3) by (subst chan_loop.simps) (simp add: first_channel_def)
  qed
qed

lemma rotated_bits: "map (\<lambda>j. (j + r) mod 32) [0..<32] = rotate (r mod 32) [0..<32]"
  by (rule nth_equalityI) (simp_all add: nth_rotate add.commute mod_add_right_eq)

text \<open>
  C36: The channel command chooses the first channel of its mask at or after a random one, in
  cyclic order, and 15 for an empty mask, exactly as a search of the rotated list of the 32
  bits does; one request carries the number of the channel, and it is stored as the gateway's
  channel when the request is accepted.  The random number is at most the largest number of the C
  library's \<open>rand\<close> less 31: above it the counter of the search overflows.
\<close>

theorem channel_command:
  assumes "zattr s ''chanmask'' = Some t" and "t \<noteq> []" and "int (ze_rand env + 31) \<le> INT_MAX"
  shows "cmd_chanmask env now s = Some (let
       bits = rotate (ze_rand env mod 32) [0..<32];
       chan = (case List.find (bit (ucast (nibblestr2u64 t) :: u32)) bits of Some b \<Rightarrow> b | None \<Rightarrow> 15);
       s' = s\<lparr>z_requests := z_requests s @ [(E_SL_MSG_SET_CHANNELMASK, be32 (word_of_nat chan))]\<rparr>
     in if fst (sl_answer env (length (z_requests s))) = E_SL_OK
        then s'\<lparr>z_db := snd (newDbSystemSaveIntval now ''zcb_channel'' (int chan) (z_db s))\<rparr> else s')"
proof -
  let ?chan = "first_channel (ucast (nibblestr2u64 t)) (rotate (ze_rand env mod 32) [0..<32])"
  have loop: "chan_loop (ucast (nibblestr2u64 t)) (ze_rand env) 0 = Some ?chan"
    using chan_loop_scan [OF assms(3), of 0 "ucast (nibblestr2u64 t)"] unfolding rotated_bits by simp
  have small: "?chan < 32" unfolding first_channel_def
    by (auto simp: nth_rotate split: option.split dest!: find_Some_iff [THEN iffD1])
  then have "sint (word_of_nat ?chan :: u32) = int ?chan"
    by (simp add: signed_of_nat signed_take_bit_int_eq_self)
  then have "cmd_chanmask env now s = Some (let
       s' = s\<lparr>z_requests := z_requests s @ [(E_SL_MSG_SET_CHANNELMASK, be32 (word_of_nat ?chan))]\<rparr>
     in if fst (sl_answer env (length (z_requests s))) = E_SL_OK
        then s'\<lparr>z_db := snd (newDbSystemSaveIntval now ''zcb_channel'' (int ?chan) (z_db s))\<rparr> else s')"
    using assms(1,2) loop
    by (simp add: cmd_chanmask_def eSetChannelMask_def zcb_request_def zcb_send_def z_set_db_def zcb_codes Let_def split: prod.splits)
  then show ?thesis unfolding first_channel_def by (simp add: Let_def)
qed

theorem channel_command_witness:
  "\<exists>s env s'. zattr s ''chanmask'' = Some ''00001000'' \<and> cmd_chanmask env 7 s = Some s'
     \<and> z_requests s' = [(E_SL_MSG_SET_CHANNELMASK, be32 12)]"
proof -
  let ?s = "zcb_start\<lparr>z_attrs := parsing_init\<lparr>parsingStringAttrs := [\<lparr>sa_name = ''chanmask'', sa_maxlen = 8, sa_value = ''00001000''\<rparr>]\<rparr>\<rparr>"
  have attr: "zattr ?s ''chanmask'' = Some ''00001000''" by (simp add: parsingGetStringAttr_def parsing_init_def)
  have "(ucast (nibblestr2u64 ''00001000'') :: u32) = 0x1000" by code_simp
  moreover have "List.find (bit (0x1000 :: u32)) (rotate 0 [0..<32]) = Some 12" by code_simp
  ultimately have "map_option z_requests (cmd_chanmask zcb_env_ok 7 ?s) = Some [(E_SL_MSG_SET_CHANNELMASK, be32 12)]"
    using channel_command [OF attr, of zcb_env_ok 7] by (simp add: zcb_env_ok_def INT_MAX_def Let_def zcb_start_def)
  then obtain s' where "cmd_chanmask zcb_env_ok 7 ?s = Some s'" "z_requests s' = [(E_SL_MSG_SET_CHANNELMASK, be32 12)]" by blast
  with attr show ?thesis by (intro exI [of _ ?s] exI [of _ zcb_env_ok] exI [of _ s']) simp
qed

section \<open>Levels\<close>

lemma wrap_once: "256 \<le> x \<Longrightarrow> x < 512 \<Longrightarrow> x mod 256 = (x :: int) - 256"
  by presburger

lemma uint_capped: "uint (if v > 254 then 254 else v :: u8) = min 254 (uint v)"
  by (auto simp: word_less_def min_def)

text \<open>
  A level from 0 to 100 reaches the lamp as the rounded-down share of 255, at most 254,
  after five tenths of a second; a level from 101 to 200 wraps around the byte and dims the
  lamp instead.
\<close>

theorem lamp_level_sent:
  assumes "zattri s ''lvl'' = lvl" and "0 \<le> lvl" and "lvl \<le> 200"
  shows "\<exists>b. lamp_level env sa g s = Some (s\<lparr>z_requests := z_requests s
        @ [(E_SL_MSG_MOVE_TO_LEVEL_ONOFF, initDefaultHeader sa g @ [0, b] @ be16 5)]\<rparr>)
     \<and> uint b = (if lvl \<le> 100 then min 254 (lvl * 255 div 100) else min 254 (lvl * 255 div 100 - 256))"
proof -
  let ?v = "word_of_int (lvl * 255 sdiv 100) :: u8"
  let ?b = "if ?v > 254 then 254 else ?v"
  have div: "lvl * 255 sdiv 100 = lvl * 255 div 100" using assms(2) by (cases "lvl = 0") (simp_all add: signed_divide_int_def sgn_if)
  have v: "uint ?v = (if lvl \<le> 100 then lvl * 255 div 100 else lvl * 255 div 100 - 256)"
  proof (cases "lvl \<le> 100")
    case True
    then have "0 \<le> lvl * 255 div 100" "lvl * 255 div 100 < 256" using assms(2) by auto
    with True div show ?thesis unfolding uint_word_of_int by simp
  next
    case False
    then have "256 \<le> lvl * 255 div 100" "lvl * 255 div 100 < 512" using assms(3) by auto
    from wrap_once [OF this] have "(lvl * 255 div 100) mod 256 = lvl * 255 div 100 - 256" .
    with False div show ?thesis unfolding uint_word_of_int by simp
  qed
  have "uint ?b = min 254 (uint ?v)" by (rule uint_capped)
  moreover have "\<not> lvl * 255 > INT_MAX" using assms(3) by (simp add: INT_MAX_def)
  then have "lamp_level env sa g s = Some (s\<lparr>z_requests := z_requests s
      @ [(E_SL_MSG_MOVE_TO_LEVEL_ONOFF, initDefaultHeader sa g @ [0, ?b] @ be16 5)]\<rparr>)"
    using assms by (simp add: lamp_level_def lmpgrp_MoveToLevel_def zcb_request_def zcb_send_def Let_def split: prod.splits)
  ultimately show ?thesis using v by (intro exI [of _ ?b]) simp
qed

theorem lamp_level_sent_witness:
  "\<exists>s t b. lamp_level zcb_env_ok 5 0 s = Some t
     \<and> z_requests t = [(E_SL_MSG_MOVE_TO_LEVEL_ONOFF, initDefaultHeader 5 0 @ [0, b] @ be16 5)] \<and> uint b = 127"
proof -
  let ?s = "zcb_start\<lparr>z_attrs := parsing_init\<lparr>parsingIntAttrs := [\<lparr>ia_name = ''lvl'', ia_value = 50\<rparr>]\<rparr>\<rparr>"
  have "zattri ?s ''lvl'' = 50" by (simp add: parsingGetIntAttr_def parsing_init_def)
  moreover have "z_requests ?s = []" by (simp add: zcb_start_def)
  ultimately show ?thesis using lamp_level_sent [of ?s 50 zcb_env_ok 5 0] by fastforce
qed

section \<open>Messages through the tunnel\<close>

text \<open>
  C37: The tunnel carries a message whole or not at all: with the tunnel open, a message of
  fewer than 70 characters, or one that gets below that when its blanks are left out, is
  written in one log record of fixed size with the next log identifier, its length and zeros
  after its end; anything else is refused and changes nothing.  The copy that stops at the end
  of its buffer never lets a cut message through.
\<close>

theorem tunnel_message_whole:
  "tunnelSend env (Some m) s =
     (let m' = (if length m < 70 then m else filter (\<lambda>c. c \<noteq> CHR '' '' \<and> c \<noteq> CHR 0x09) m) in
      if length m' < 70 \<and> z_tunnel s \<noteq> 0
      then Some (if fst (sl_answer env (length (z_requests s))) = E_SL_OK then 1 else 0,
             s\<lparr>z_requests := z_requests s @ [(E_SL_MSG_ASC_LOG_MSG,
                   zb_node (z_tunnel s) @ be32 0xFFFFFFFF @ be32 (z_log_id s) @ be32 (word_of_nat (length m'))
                   @ char_bytes m' @ replicate (70 - length m') 0)],
               z_log_id := z_log_id s + 1\<rparr>)
      else Some (0, s))"
proof -
  let ?f = "filter (\<lambda>c. c \<noteq> CHR '' '' \<and> c \<noteq> CHR 0x09) m"
  have "take 70 ?f = ?f \<or> 70 \<le> length ?f \<and> length (take 70 ?f) = 70" by auto
  then show ?thesis
    by (auto simp: tunnelSend_def tunnel_compress_def LOG_MAX_SIZE_def zcb_send_def Let_def not_le split: prod.splits)
qed

end
