(* ===== verification/ZcbDevices.thy ===== *)
theory ZcbDevices
  imports ZcbHandlers
begin

text \<open>
  What the Zigbee daemon does when a node announces itself or reports an attribute
  (\<open>daemons/ZCB/zb_main.c\<close>, the read requests of \<open>ZigbeeDevices.c\<close>): the device table follows
  the nodes.  Electrical-measurement attributes only feed debug output and are left out.
\<close>

section \<open>Announcing a device\<close>

text \<open>A null type leaves the field as it is.\<close>

definition set_type :: "string option \<Rightarrow> newdb_dev_t \<Rightarrow> newdb_dev_t" where
  "set_type ty d = (case ty of Some t \<Rightarrow> d\<lparr>dev_ty := newDbStrNcpy t LEN_TY\<rparr> | None \<Rightarrow> d)"

definition joined :: "newdb_dev_t \<Rightarrow> newdb_dev_t" where
  "joined d = d\<lparr>dev_flags := dev_flags d OR FLAG_DEV_JOINED\<rparr>"

definition device_kind :: "string \<Rightarrow> c_int" where
  "device_kind devstr =
     (if devstr = ''man'' then DEVICE_DEV_MANAGER
      else if devstr = ''ui'' then DEVICE_DEV_UI
      else if devstr = ''sen'' then DEVICE_DEV_SENSOR
      else if devstr = ''pmp'' then DEVICE_DEV_PUMP
      else if devstr = ''lmp'' then DEVICE_DEV_LAMP
      else if devstr = ''plg'' then DEVICE_DEV_PLUG
      else if devstr = ''swi'' then DEVICE_DEV_SWITCH
      else DEVICE_DEV_UNKNOWN)"

text \<open>The command of a new device is that of its node; without a node it is undefined.\<close>

definition zcbHandleAnnounce :: "zcb_env \<Rightarrow> c_int \<Rightarrow> string \<Rightarrow> string \<Rightarrow> string option \<Rightarrow> zcb_state \<Rightarrow> zcb_state option" where
  "zcbHandleAnnounce env now mac devstr ty s = (let dev = device_kind devstr in do {
     s1 \<leftarrow> (case newDbGetDevice mac (z_db s) of
        Some d \<Rightarrow> Some (z_set_db (snd (newDbSetDevice now (joined (set_type ty (d\<lparr>dev_dev := dev\<rparr>))) (z_db s))) s)
      | None \<Rightarrow> (case newDbGetNewDevice now mac (z_db s) of
           (Some d, m) \<Rightarrow> (case newDbGetZcb mac (z_db s) of
              None \<Rightarrow> None
            | Some node \<Rightarrow> Some (z_set_db (snd (newDbSetDevice now
                ((set_type ty (d\<lparr>dev_dev := dev\<rparr>))\<lparr>dev_flags := FLAG_DEV_JOINED OR FLAG_ADDED_BY_GW, dev_cmd := zcb_info node\<rparr>) m)) s))
         | (None, m) \<Rightarrow> Some (z_set_db m s)));
     if dev = DEVICE_DEV_MANAGER then map_option snd (writeControl env jsonTopoUpload s1) else Some s1 })"

definition bind_cluster :: "zcb_env \<Rightarrow> u64 \<Rightarrow> u16 \<Rightarrow> zcb_state \<Rightarrow> zcb_state option" where
  "bind_cluster env ieee cl s = map_option snd (eZCB_SendBindCommand env ieee cl s)"

definition bind_clusters :: "zcb_env \<Rightarrow> u64 \<Rightarrow> u16 list \<Rightarrow> zcb_state \<Rightarrow> zcb_state option" where
  "bind_clusters env ieee cls s = fold (\<lambda>cl r. Option.bind r (bind_cluster env ieee cl)) cls (Some s)"

definition SmartPlugUpdateIntervalMsg :: "zcb_env \<Rightarrow> u64 \<Rightarrow> u16 \<Rightarrow> zcb_state \<Rightarrow> zcb_state option" where
  "SmartPlugUpdateIntervalMsg env ieee interval s = map_option snd (eZCB_WriteAttributeRequest env
     (zcbNodeGetShortAddress (u642nibblestr ieee) (z_db s)) 0x0702 0 1 0x1037 0x2007 0x21 (rev (be16 interval)) s)"

text \<open>Identifiers that profiles use for different devices: profile, version, identifier and the one to use.\<close>

definition PROFILE_HA :: u16 where "PROFILE_HA = 0x0104"
definition PROFILE_LL :: u16 where "PROFILE_LL = 0xC05E"

definition saDeviceMap :: "((u16 \<times> u16 \<times> u8) \<times> u16) list" where
  "saDeviceMap =
     [((0x0000, PROFILE_LL, 2), 0x0103), ((0x0000, PROFILE_HA, 2), 0x0103), ((0x0000, PROFILE_HA, 1), 0x0103),
      ((0x0100, PROFILE_LL, 2), 0x0101), ((0x010C, PROFILE_HA, 1), 0x0220), ((0x010D, PROFILE_HA, 1), 0x0102),
      ((0x01FF, PROFILE_HA, 2), 0x0220), ((0x01FF, PROFILE_LL, 2), 0x0220),
      ((0x0200, PROFILE_LL, 2), 0x0102), ((0x0210, PROFILE_LL, 2), 0x0102)]"

text \<open>The loop goes on after a match, with the new identifier.\<close>

fun map_device :: "((u16 \<times> u16 \<times> u8) \<times> u16) list \<Rightarrow> u16 \<Rightarrow> u16 \<Rightarrow> u8 \<Rightarrow> u16" where
  "map_device [] device profile version = device"
| "map_device ((k, mapped) # es) device profile version =
     map_device es (if k = (device, profile, version) then mapped else device) profile version"

text \<open>The cluster bits of a node: on/off, illuminance, temperature and occupancy.\<close>

definition sensor_type :: "string \<Rightarrow> (nat \<times> string \<times> u16) list \<Rightarrow> u64 \<Rightarrow> string \<times> u16 list" where
  "sensor_type base extras clusters =
     (let has = filter (\<lambda>(i, t, cl). bit clusters i) extras
      in (base @ concat (map (\<lambda>(i, t, cl). t) has), map (\<lambda>(i, t, cl). cl) has))"

definition announce_sensor ::
    "zcb_env \<Rightarrow> c_int \<Rightarrow> u64 \<Rightarrow> u16 \<Rightarrow> string \<Rightarrow> (nat \<times> string \<times> u16) list \<Rightarrow> zcb_state \<Rightarrow> zcb_state option" where
  "announce_sensor env now ieee cluster base extras s = (let mac = u642nibblestr ieee in
     case newDbGetZcb mac (z_db s) of
       None \<Rightarrow> None
     | Some node \<Rightarrow> (case sensor_type base extras (zcb_clusters node) of (ty, cls) \<Rightarrow>
         Option.bind (bind_clusters env ieee (cluster # cls) s) (zcbHandleAnnounce env now mac ''sen'' (Some ty))))"

definition announceDevice :: "zcb_env \<Rightarrow> c_int \<Rightarrow> u64 \<Rightarrow> u16 \<Rightarrow> u16 \<Rightarrow> u8 \<Rightarrow> zcb_state \<Rightarrow> zcb_state option" where
  "announceDevice env now ieee deviceId profileId version s =
     (let mac = u642nibblestr ieee; d = map_device saDeviceMap deviceId profileId version;
          plain = (\<lambda>devstr ty cls. Option.bind (zcbHandleAnnounce env now mac devstr ty s) (bind_clusters env ieee cls))
      in if d = 0x0840 then Some s
         else if d = 0x0103 then plain ''swi'' (Some ''onoff'') []
         else if d = 0x0104 then plain ''swi'' (Some ''dim'') []
         else if d = 0x0105 then plain ''swi'' (Some ''col'') []
         else if d = 0x0100 then plain ''lmp'' (Some ''onoff'') [0x0006]
         else if d = 0x0101 then plain ''lmp'' (Some ''dim'') [0x0006, 0x0008]
         else if d = 0x0102 then plain ''lmp'' (Some ''col'') [0x0006, 0x0008, 0x0300]
         else if d = 0x0220 then plain ''lmp'' (Some ''tw'') [0x0006, 0x0008, 0x0300]
         else if d = 0x0300 then plain ''man'' None []
         else if d = 0x0301 then plain ''ui'' None []
         else if d = 0x000C then plain ''sen'' None []
         else if d = 0x0303 then plain ''pmp'' None []
         else if d = 0x0051 then
           Option.bind (plain ''plg'' None [0x0006, 0x0702]) (SmartPlugUpdateIntervalMsg env ieee 4)
         else if d = 0x0107 then
           announce_sensor env now ieee 0x0406 ''occ'' [(1, ''+L'', 0x0400), (2, ''+T'', 0x0402)] s
         else if d = 0x0106 then
           announce_sensor env now ieee 0x0400 ''Ill'' [(3, ''+O'', 0x0406), (2, ''+T'', 0x0402)] s
         else Some s)"

section \<open>Values that devices report\<close>

definition update_device :: "c_int \<Rightarrow> string \<Rightarrow> (newdb_dev_t \<Rightarrow> newdb_dev_t) \<Rightarrow> zcb_state \<Rightarrow> zcb_state" where
  "update_device now mac f s = (case newDbGetDevice mac (z_db s) of
     Some d \<Rightarrow> z_set_db (snd (newDbSetDevice now (joined (f d)) (z_db s))) s
   | None \<Rightarrow> s)"

definition zcbHandleActuator :: "c_int \<Rightarrow> string \<Rightarrow> string option \<Rightarrow> c_int \<Rightarrow> zcb_state \<Rightarrow> zcb_state" where
  "zcbHandleActuator now mac cmd lvl = update_device now mac (\<lambda>d.
     let d1 = (case cmd of Some c \<Rightarrow> d\<lparr>dev_cmd := newDbStrNcpy c LEN_CMD\<rparr> | None \<Rightarrow> d)
     in if lvl \<ge> 0 then d1\<lparr>dev_lvl := lvl\<rparr> else d1)"

definition ui_heat :: "c_int \<Rightarrow> newdb_dev_t \<Rightarrow> newdb_dev_t" where
  "ui_heat heat d =
     (if heat = INT_MIN then d
      else if dev_flags d AND FLAG_UI_IGNORENEXT_HEAT = 0 then d\<lparr>dev_heat := heat\<rparr>
      else d\<lparr>dev_flags := dev_flags d AND NOT FLAG_UI_IGNORENEXT_HEAT\<rparr>)"

definition ui_cool :: "c_int \<Rightarrow> newdb_dev_t \<Rightarrow> newdb_dev_t" where
  "ui_cool cool d =
     (if cool = INT_MIN then d
      else if dev_flags d AND FLAG_UI_IGNORENEXT_COOL = 0 then d\<lparr>dev_cool := cool\<rparr>
      else d\<lparr>dev_flags := dev_flags d AND NOT FLAG_UI_IGNORENEXT_COOL\<rparr>)"

definition zcbHandleUI :: "c_int \<Rightarrow> string \<Rightarrow> c_int \<Rightarrow> c_int \<Rightarrow> zcb_state \<Rightarrow> zcb_state" where
  "zcbHandleUI now mac heat cool = update_device now mac (\<lambda>d. ui_cool cool (ui_heat heat d))"

definition sensor_values :: "c_int \<Rightarrow> c_int \<Rightarrow> c_int \<Rightarrow> c_int \<Rightarrow> c_int \<Rightarrow> newdb_dev_t \<Rightarrow> newdb_dev_t" where
  "sensor_values tmp hum als bat batl d =
     (let d1 = (if tmp \<ge> 0 then d\<lparr>dev_tmp := tmp\<rparr> else d);
          d2 = (if hum \<ge> 0 then d1\<lparr>dev_hum := hum\<rparr> else d1);
          d3 = (if als \<ge> 0 then d2\<lparr>dev_als := als\<rparr> else d2);
          d4 = (if bat \<ge> 0 then d3\<lparr>dev_bat := bat\<rparr> else d3)
      in if batl \<ge> 0 then d4\<lparr>dev_batl := batl\<rparr> else d4)"

text \<open>The report of a known sensor is also written to the queue of the sensor daemon.\<close>

definition zcbHandleSensor ::
    "zcb_env \<Rightarrow> c_int \<Rightarrow> string \<Rightarrow> c_int \<Rightarrow> c_int \<Rightarrow> c_int \<Rightarrow> c_int \<Rightarrow> c_int \<Rightarrow> zcb_state \<Rightarrow> zcb_state option" where
  "zcbHandleSensor env now mac tmp hum als bat batl s =
     (if newDbGetDevice mac (z_db s) = None then Some s
      else (let s1 = update_device now mac (sensor_values tmp hum als bat batl) s in do {
        m \<leftarrow> jsonSensor (- 1) mac None (- 1) (- 1) tmp hum (- 1) (- 1) bat batl als INT_MIN INT_MIN INT_MIN (- 1);
        Some (s1\<lparr>z_ipc := snd (queueWriteOneMessage (ze_mq env) QUEUE_KEY_DBP m (z_ipc s1))\<rparr>) }))"

definition sendOccupancy :: "c_int \<Rightarrow> u64 \<Rightarrow> c_int \<Rightarrow> zcb_state \<Rightarrow> zcb_state" where
  "sendOccupancy now ieee data = update_device now (u642nibblestr ieee) (\<lambda>d. d\<lparr>dev_prs := data\<rparr>)"

definition sendActuatorOnOff :: "c_int \<Rightarrow> u64 \<Rightarrow> c_int \<Rightarrow> zcb_state \<Rightarrow> zcb_state" where
  "sendActuatorOnOff now ieee data =
     zcbHandleActuator now (u642nibblestr ieee) (Some (if data \<noteq> 0 then ''on'' else ''off'')) (- 1)"

definition sendActuatorLevel :: "c_int \<Rightarrow> u64 \<Rightarrow> c_int \<Rightarrow> zcb_state \<Rightarrow> zcb_state option" where
  "sendActuatorLevel now ieee data s =
     (if data * 100 < INT_MIN \<or> INT_MAX < data * 100 then None
      else Some (zcbHandleActuator now (u642nibblestr ieee) None (data * 100 sdiv 255) s))"

definition sendTemperature :: "zcb_env \<Rightarrow> c_int \<Rightarrow> u64 \<Rightarrow> c_int \<Rightarrow> zcb_state \<Rightarrow> zcb_state option" where
  "sendTemperature env now ieee data = zcbHandleSensor env now (u642nibblestr ieee) data (- 1) (- 1) (- 1) (- 1)"

definition sendHumidity :: "zcb_env \<Rightarrow> c_int \<Rightarrow> u64 \<Rightarrow> c_int \<Rightarrow> zcb_state \<Rightarrow> zcb_state option" where
  "sendHumidity env now ieee data = zcbHandleSensor env now (u642nibblestr ieee) (- 1) data (- 1) (- 1) (- 1)"

definition sendIllumination :: "zcb_env \<Rightarrow> c_int \<Rightarrow> u64 \<Rightarrow> c_int \<Rightarrow> zcb_state \<Rightarrow> zcb_state option" where
  "sendIllumination env now ieee data = zcbHandleSensor env now (u642nibblestr ieee) (- 1) (- 1) data (- 1) (- 1)"

definition sendCoolingSetpoint :: "c_int \<Rightarrow> u64 \<Rightarrow> c_int \<Rightarrow> zcb_state \<Rightarrow> zcb_state" where
  "sendCoolingSetpoint now ieee data = zcbHandleUI now (u642nibblestr ieee) INT_MIN data"

definition sendHeatingSetpoint :: "c_int \<Rightarrow> u64 \<Rightarrow> c_int \<Rightarrow> zcb_state \<Rightarrow> zcb_state" where
  "sendHeatingSetpoint now ieee data = zcbHandleUI now (u642nibblestr ieee) data INT_MIN"

end
