(* ===== verification/ZcbEvents.thy ===== *)
theory ZcbEvents
  imports ZcbDevices
begin

text \<open>
  The messages of the control bridge (\<open>daemons/ZCB/zcb.c\<close>, \<open>zb_main.c\<close>): the attributes that
  nodes report, the plug meter, and the handlers registered for the serial link.  A handler
  gets the message's buffer; handlers that only write debug output are left out.
\<close>

section \<open>Plug meters\<close>

definition bcd_digit :: "u64 \<Rightarrow> nat \<Rightarrow> nat" where
  "bcd_digit v i = (let digit = unat (drop_bit (4 * i) v AND 0xF) in if digit > 9 then 0 else digit)"

text \<open>The conversion of the code: digit \<open>i\<close> counts \<open>10 * i\<close> times, the first once.\<close>

definition bcd_value :: "u64 \<Rightarrow> u64" where
  "bcd_value v = fold (\<lambda>i acc. acc + (if i = 0 then word_of_nat (bcd_digit v i) else word_of_nat (bcd_digit v i * (i * 10)))) [0..<12] 0"

definition to_int :: "u64 \<Rightarrow> c_int" where
  "to_int v = sint (ucast v :: u32)"

text \<open>A value in watts or watt-hours; one that is negative as an \<open>int\<close> is dropped.\<close>

definition scaled :: "meter \<Rightarrow> u64 \<Rightarrow> c_int" where
  "scaled m v = (let w = v * eMultiplier m * 1000 div eDivisor m in if to_int w < 0 then 0 else to_int w)"

definition meter_ready :: "meter \<Rightarrow> bool" where
  "meter_ready m \<longleftrightarrow> eMeteringDeviceType m = 0 \<and> (eUnitOfMeasure m = 0 \<or> eUnitOfMeasure m = 0x80)
     \<and> eMultiplier m \<noteq> 0 \<and> eDivisor m \<noteq> 0"

definition handlePlugData :: "c_int \<Rightarrow> u64 \<Rightarrow> zcb_state \<Rightarrow> zcb_state" where
  "handlePlugData now ieee s = (let m = z_meter s; mac = u642nibblestr ieee in
     if \<not> meter_ready m then s
     else (let wh = scaled m (if eUnitOfMeasure m = 0x80 then bcd_value (eSummationDelivered m) else eSummationDelivered m);
               w = scaled m (eInstantaneousDemand m)
       in case newDbGetDevice mac (z_db s) of
            None \<Rightarrow> s
          | Some d \<Rightarrow>
              (let s1 = update_device now mac (\<lambda>d. d\<lparr>dev_act := w, dev_sum := wh\<rparr>) s
               in case newDbGetMatchingOrNewPlugHist now mac (now sdiv 60) (z_db s1) of
                    (None, db) \<Rightarrow> s1\<lparr>z_db := db\<rparr>
                  | (Some h, db) \<Rightarrow>
                      (let db2 = snd (newDbSetPlugHist now (h\<lparr>ph_sum := wh\<rparr>) db); c = z_cleanup s1
                       in if c < 0 then
                            (case plugHistoryCleanup now mac now db2 of
                               (ok, db3) \<Rightarrow> s1\<lparr>z_db := db3, z_cleanup := (if ok then 25 else c - 1)\<rparr>)
                          else s1\<lparr>z_db := db2, z_cleanup := c - 1\<rparr>))))"

section \<open>Attributes\<close>

text \<open>The statics take the value as an \<open>int\<close>, extended again to 64 bits.\<close>

definition int_ext :: "u64 \<Rightarrow> u64" where
  "int_ext v = word_of_int (to_int v)"

definition handle_metering :: "c_int \<Rightarrow> u64 \<Rightarrow> u16 \<Rightarrow> u64 \<Rightarrow> zcb_state \<Rightarrow> zcb_state" where
  "handle_metering now ieee attr v s = (let m = z_meter s in
     if attr = 0x0306 then s\<lparr>z_meter := m\<lparr>eMeteringDeviceType := int_ext v\<rparr>\<rparr>
     else if attr = 0x0300 then s\<lparr>z_meter := m\<lparr>eUnitOfMeasure := int_ext v\<rparr>\<rparr>
     else if attr = 0x0301 then s\<lparr>z_meter := m\<lparr>eMultiplier := int_ext v\<rparr>\<rparr>
     else if attr = 0x0302 then s\<lparr>z_meter := m\<lparr>eDivisor := int_ext v\<rparr>\<rparr>
     else if attr = 0x0000 then s\<lparr>z_meter := m\<lparr>eSummationDelivered := int_ext v\<rparr>\<rparr>
     else if attr = 0x0400 then handlePlugData now ieee (s\<lparr>z_meter := m\<lparr>eInstantaneousDemand := int_ext v\<rparr>\<rparr>)
     else s)"

definition handleAttribute :: "zcb_env \<Rightarrow> c_int \<Rightarrow> u16 \<Rightarrow> u16 \<Rightarrow> u16 \<Rightarrow> u64 \<Rightarrow> zcb_state \<Rightarrow> zcb_state option" where
  "handleAttribute env now saddr cluster attr v s =
     (let ieee = zcbNodeGetExtendedAddress saddr (z_db s) in
      if ieee = 0 then Some s
      else if cluster = 0x0006 then Some (if attr = 0 then sendActuatorOnOff now ieee (to_int v) s else s)
      else if cluster = 0x0008 then (if attr = 0 then sendActuatorLevel now ieee (to_int v) s else Some s)
      else if cluster = 0x0201 then
        (if attr = 0x0000 then sendTemperature env now ieee (to_int v) s
         else if attr = 0x0011 then Some (sendCoolingSetpoint now ieee (to_int v) s)
         else if attr = 0x0012 then Some (sendHeatingSetpoint now ieee (to_int v) s)
         else Some s)
      else if cluster = 0x0400 then (if attr = 0 then sendIllumination env now ieee (to_int v) s else Some s)
      else if cluster = 0x0402 then (if attr = 0 then sendTemperature env now ieee (to_int v) s else Some s)
      else if cluster = 0x0405 then (if attr = 0 then sendHumidity env now ieee (to_int v) s else Some s)
      else if cluster = 0x0702 then Some (handle_metering now ieee attr v s)
      else if cluster = 0x0406 then Some (if attr = 0 then sendOccupancy now ieee (to_int v) s else s)
      else Some s)"

text \<open>
  The value of a report by its type: unsigned except for the 24-bit integers, whose sign is
  extended, and 0 for a type that is not known.
\<close>

definition attribute_value :: "u8 \<Rightarrow> u8 list \<Rightarrow> nat \<Rightarrow> u64 option" where
  "attribute_value t m i =
     (if t = 0x2A then map_option (\<lambda>w. word_of_int (sint (signed_drop_bit 8 (push_bit 8 w)))) (get32 m i)
      else (case zcl_size t of
        None \<Rightarrow> Some 0
      | Some n \<Rightarrow> if n = 1 then map_option ucast (get8 m i)
          else if n = 2 then map_option ucast (get16 m i)
          else if n = 4 then map_option ucast (get32 m i)
          else get64 m i))"

definition ZCB_HandleAttributeReport :: "zcb_env \<Rightarrow> c_int \<Rightarrow> u8 list \<Rightarrow> zcb_state \<Rightarrow> zcb_state option" where
  "ZCB_HandleAttributeReport env now m s = do {
     saddr \<leftarrow> get16 m 1;
     cluster \<leftarrow> get16 m 4;
     attr \<leftarrow> get16 m 6;
     t \<leftarrow> get8 m 9;
     v \<leftarrow> attribute_value t m 12;
     handleAttribute env now saddr cluster attr v s }"

section \<open>Nodes\<close>

definition z_save :: "(newdb option \<Rightarrow> 'a \<times> newdb option) \<Rightarrow> zcb_state \<Rightarrow> zcb_state" where
  "z_save f s = z_set_db (snd (f (z_db s))) s"

definition ZCB_HandleNetworkJoined :: "zcb_env \<Rightarrow> c_int \<Rightarrow> u8 list \<Rightarrow> nat \<Rightarrow> zcb_state \<Rightarrow> zcb_state option" where
  "ZCB_HandleNetworkJoined env now m len s = do {
     saddr \<leftarrow> get16 m 1;
     ieee \<leftarrow> get64 m 3;
     let s1 = z_save (zcbAddNode now saddr ieee) s;
         s2 = (if saddr = 0 then
                snd (eZCB_AddGroupMembership env 0 0x0AA1
                  (z_save (zcbNodeSetDeviceID now saddr 0x0002)
                    (z_save (newDbSystemSaveStringval now ''zcb_extpanid'' (Some (u642nibblestr ieee))) s1)))
              else s1) in
     if len = 22 then do {
       chan \<leftarrow> get8 m 11;
       extpan \<leftarrow> get64 m 12;
       pan \<leftarrow> get16 m 20;
       Some (z_save (newDbSystemSaveIntval now ''zcb_channel'' (uint chan))
              (z_save (newDbSystemSaveIntval now ''zcb_panid'' (uint pan))
                (z_save (newDbSystemSaveStringval now ''zcb_extpanid'' (Some (u642nibblestr extpan))) s2))) }
     else Some s2 }"

text \<open>The row is read back after the node is added; a node that could not be added leaves it undefined.\<close>

definition ZCB_HandleDeviceAnnounce :: "zcb_env \<Rightarrow> c_int \<Rightarrow> u8 list \<Rightarrow> zcb_state \<Rightarrow> zcb_state option" where
  "ZCB_HandleDeviceAnnounce env now m s = do {
     saddr \<leftarrow> get16 m 0;
     ieee \<leftarrow> get64 m 2;
     let s1 = z_save (zcbAddNode now saddr ieee) s in do {
       node \<leftarrow> newDbGetZcbSaddr (uint saddr) (z_db s1);
       if zcb_type node = SIMPLE_DESCR_UNKNOWN then map_option snd (SimpleDescriptorRequest env saddr s1) else Some s1 } }"

definition ZCB_HandleDeviceLeave :: "c_int \<Rightarrow> u8 list \<Rightarrow> zcb_state \<Rightarrow> zcb_state option" where
  "ZCB_HandleDeviceLeave now m s = do {
     ieee \<leftarrow> get64 m 0;
     rejoin \<leftarrow> get8 m 8;
     Some (z_save (zcbNodeLeft now ieee (uint rejoin)) s) }"

text \<open>
  The request to read attributes asks for those of the on/off cluster, whatever cluster the
  caller names; it has room for ten.
\<close>

definition E_SL_MSG_READ_ATTRIBUTE_REQUEST :: u16 where "E_SL_MSG_READ_ATTRIBUTE_REQUEST = 0x0100"

definition ZDReadAttrReq :: "zcb_env \<Rightarrow> u16 \<Rightarrow> u8 \<Rightarrow> u8 \<Rightarrow> u16 \<Rightarrow> u16 list \<Rightarrow> zcb_state \<Rightarrow> zcb_state option" where
  "ZDReadAttrReq env saddr src dst cluster attrs s =
     (if length attrs > 10 then None
      else Some (snd (zcb_send env E_SL_MSG_READ_ATTRIBUTE_REQUEST
        ([E_ZB_ADDRESS_MODE_SHORT] @ be16 saddr @ [src, dst] @ be16 0x0006 @ [0, 0] @ be16 0 @ [word_of_nat (length attrs)]
          @ concat (map be16 attrs) @ replicate (20 - 2 * length attrs) 0) s)))"

text \<open>The input clusters of a simple descriptor: the bits of the node's row, and a read of the on/off state.\<close>

definition cluster_bit :: "u16 \<Rightarrow> nat option" where
  "cluster_bit cl =
     (if cl = 0x0006 then Some 0 else if cl = 0x0400 then Some 1 else if cl = 0x0402 then Some 2
      else if cl = 0x0406 then Some 3 else None)"

fun scan_clusters :: "zcb_env \<Rightarrow> u16 \<Rightarrow> u8 \<Rightarrow> u8 list \<Rightarrow> nat \<Rightarrow> nat \<Rightarrow> newdb_zcb_t \<Rightarrow> zcb_state \<Rightarrow> (newdb_zcb_t \<times> zcb_state) option" where
  "scan_clusters env saddr ep m 0 i node s = Some (node, s)"
| "scan_clusters env saddr ep m (Suc n) i node s = do {
     cl \<leftarrow> get16 m (12 + 2 * i);
     s' \<leftarrow> (if cl = 0x0006 then ZDReadAttrReq env saddr 1 ep 0x0006 [0] s else Some s);
     scan_clusters env saddr ep m n (Suc i)
       (case cluster_bit cl of Some b \<Rightarrow> node\<lparr>zcb_clusters := set_bit b (zcb_clusters node)\<rparr> | None \<Rightarrow> node) s' }"

definition ZCB_HandleSimpleDescriptorResponse :: "zcb_env \<Rightarrow> c_int \<Rightarrow> u8 list \<Rightarrow> zcb_state \<Rightarrow> zcb_state option" where
  "ZCB_HandleSimpleDescriptorResponse env now m s = do {
     saddr \<leftarrow> get16 m 2;
     ep \<leftarrow> get8 m 5;
     profileId \<leftarrow> get16 m 6;
     device \<leftarrow> get16 m 8;
     flags \<leftarrow> get8 m 10;
     let version = flags AND 0x0F; ieee = zcbNodeGetExtendedAddress saddr (z_db s) in
     (case newDbGetZcbSaddr (uint saddr) (z_db s) of
        None \<Rightarrow> Some s
      | Some z \<Rightarrow> do {
          let node = z\<lparr>zcb_type := uint device, zcb_profile := profileId, zcb_version := version\<rparr> in do {
          count \<leftarrow> get8 m 11;
          (node', s2) \<leftarrow> scan_clusters env saddr ep m (unat count) 0 node (z_save (newDbSetZcb now node) s);
          announceDevice env now ieee device profileId version (z_save (newDbSetZcb now node') s2) } }) }"

definition ZCB_HandleReadAttrResp :: "zcb_env \<Rightarrow> c_int \<Rightarrow> u8 list \<Rightarrow> zcb_state \<Rightarrow> zcb_state option" where
  "ZCB_HandleReadAttrResp env now m s = do {
     saddr \<leftarrow> get16 m 1;
     let ieee = zcbNodeGetExtendedAddress saddr (z_db s) in
     (case newDbGetZcbSaddr (uint saddr) (z_db s) of
        None \<Rightarrow> Some s
      | Some node \<Rightarrow> do {
          cluster \<leftarrow> get16 m 4;
          attr \<leftarrow> get16 m 6;
          status \<leftarrow> get8 m 8;
          t \<leftarrow> get8 m 9;
          v \<leftarrow> get8 m 12;
          let s1 = (if cluster = 0x0006 \<and> status = 0 \<and> attr = 0 \<and> t = 0x10
                    then z_save (newDbSetZcb now (node\<lparr>zcb_info := (if v \<noteq> 0 then ''on'' else ''off'')\<rparr>)) s else s) in do {
          s2 \<leftarrow> (if ieee \<noteq> 0 then announceDevice env now ieee (word_of_int (zcb_type node)) (zcb_profile node) (zcb_version node) s1
                 else Some s1);
          Some (if zcb_type node = 0x0301 then snd (eZCB_AddGroupMembership env 0 0x0AA1 s2) else s2) } }) }"

section \<open>Manager logs\<close>

text \<open>A log notification carries a JSON text that goes to the control interface as it is.\<close>

definition c_text :: "u8 list \<Rightarrow> string option" where
  "c_text bs = (if 0 \<in> set bs then Some (map (\<lambda>b. char_of (unat b)) (takeWhile (\<lambda>b. b \<noteq> 0) bs)) else None)"

definition HandleAppStatResponse :: "zcb_env \<Rightarrow> u8 list \<Rightarrow> zcb_state \<Rightarrow> zcb_state option" where
  "HandleAppStatResponse env m s = do {
     cmd \<leftarrow> get8 m 4;
     if cmd = 0 then do {
       msg \<leftarrow> c_text (drop 17 m);
       dispatchMessage env QUEUE_KEY_CONTROL_INTERFACE (Some msg) s }
     else Some s }"

section \<open>The registered handlers\<close>

definition zcb_listener :: "zcb_env \<Rightarrow> c_int \<Rightarrow> u16 \<Rightarrow> u8 list \<Rightarrow> nat \<Rightarrow> zcb_state \<Rightarrow> zcb_state option" where
  "zcb_listener env now t m len s =
     (if t = 0x8024 then ZCB_HandleNetworkJoined env now m len s
      else if t = 0x004D then ZCB_HandleDeviceAnnounce env now m s
      else if t = 0x8048 then ZCB_HandleDeviceLeave now m s
      else if t = 0x8102 then ZCB_HandleAttributeReport env now m s
      else if t = 0x8043 then ZCB_HandleSimpleDescriptorResponse env now m s
      else if t = 0x8100 then ZCB_HandleReadAttrResp env now m s
      else if t = 0x8028 then HandleAuthResponse env m s
      else if t = 0x8010 then HandleVersionResponse env now m s
      else if t = 0x8014 then HandleGetPermitResponse now m s
      else if t = 0x8006 then HandleRestart env False s
      else if t = 0x8007 then HandleRestart env True s
      else if t = 0x8301 then HandleAppStatResponse env m s
      else Some s)"

section \<open>Properties\<close>

lemma map_device_stays: "(d, p, v) \<notin> fst ` set es \<Longrightarrow> map_device es d p v = d"
  by (induction es) auto

lemma map_device_lookup:
  "\<forall>e\<in>set es. (snd e, snd (fst e)) \<notin> fst ` set es \<Longrightarrow> distinct (map fst es)
   \<Longrightarrow> map_device es d p v = (case map_of es (d, p, v) of Some r \<Rightarrow> r | None \<Rightarrow> d)"
proof (induction es arbitrary: d)
  case (Cons e es)
  obtain k r where e: "e = (k, r)" by (cases e)
  show ?case
  proof (cases "k = (d, p, v)")
    case True
    then have "(r, p, v) \<notin> fst ` set es" using Cons.prems(1) e by auto
    then show ?thesis using True e by (simp add: map_device_stays)
  next
    case False
    moreover have "\<forall>e\<in>set es. (snd e, snd (fst e)) \<notin> fst ` set es" using Cons.prems(1) by auto
    ultimately show ?thesis using Cons.IH Cons.prems(2) e by simp
  qed
qed simp

text \<open>
  Device identifiers: the loop over the table of conflicting identifiers, which goes on
  with the replaced identifier, does what one lookup of the announced identifier, profile and
  version does, and leaves an identifier without an entry as it is.
\<close>

theorem device_identifier:
  "map_device saDeviceMap d p v = (case map_of saDeviceMap (d, p, v) of Some r \<Rightarrow> r | None \<Rightarrow> d)"
  by (rule map_device_lookup) (simp_all add: saDeviceMap_def PROFILE_HA_def PROFILE_LL_def)

lemma bcd_two_digits:
  "list_all (\<lambda>a. list_all (\<lambda>b. bcd_value (word_of_nat (16 * b + a)) = word_of_nat (10 * b + a)) [0..<10]) [0..<10]"
  by code_simp

text \<open>
  A meter that counts in binary-coded decimal is read right up to 99 and wrong beyond: two
  digits give their decimal value, but the third counts as 20 and not as 100, the fourth as 30.
\<close>

theorem bcd_conversion:
  assumes "a < 10" and "b < 10"
  shows "bcd_value (word_of_nat (16 * b + a)) = word_of_nat (10 * b + a) \<and> bcd_value 0x100 = 20 \<and> bcd_value 0x1000 = 30"
proof -
  have "a \<in> set [0..<10]" "b \<in> set [0..<10]" using assms by auto
  with bcd_two_digits have "bcd_value (word_of_nat (16 * b + a)) = word_of_nat (10 * b + a)"
    unfolding list_all_iff by blast
  moreover have "bcd_value 0x100 = 20" "bcd_value 0x1000 = 30" by code_simp+
  ultimately show ?thesis by blast
qed

theorem bcd_conversion_witness: "bcd_value 0x42 = 42 \<and> bcd_value 0x100 = 20"
  using bcd_conversion [of 2 4] by simp

end
