(* ===== verification/ZcbMain.thy ===== *)
theory ZcbMain
  imports ZcbEvents ControlPath
begin

text \<open>
  The main loop of the Zigbee daemon (\<open>daemons/ZCB/zb_main.c\<close>): the messages of its queue go
  through the JSON parser to the handlers; when none comes in time the neighbour table is
  scanned.  The lemmas follow a lamp message from the queue to the requests it makes.
\<close>

section \<open>Call-backs and registrations\<close>

definition zcb_onObjectComplete :: "zcb_env \<Rightarrow> c_int \<Rightarrow> string \<Rightarrow> zcb_state \<Rightarrow> zcb_state option" where
  "zcb_onObjectComplete env now name s =
     (if name = ''cmd'' then map_option snd (zcb_cmdHandle env now s)
      else if name = ''lmp'' then zcb_lmpHandle env s
      else if name = ''grp'' then zcb_grpHandle env s
      else if name = ''plg'' then zcb_plgHandle env s
      else if name = ''ctrl'' then zcb_ctrlHandle env s
      else if name = ''tp'' then map_option snd (zcb_topoHandle env s)
      else if name = ''tp+'' then map_option snd (zcb_topoHandle env s)
      else if name = ''tunnel'' then zcb_tunnelHandle s
      else Some s)"

definition zcb_onObjectStart :: "zcb_state \<Rightarrow> zcb_state" where
  "zcb_onObjectStart s = s\<lparr>z_attrs := parsingReset (z_attrs s)\<rparr>"

definition zcb_onString :: "string \<Rightarrow> string \<Rightarrow> zcb_state \<Rightarrow> zcb_state" where
  "zcb_onString name val s = s\<lparr>z_attrs := snd (parsingStringAttr name val (z_attrs s))\<rparr>"

definition zcb_onInteger :: "string \<Rightarrow> c_int \<Rightarrow> zcb_state \<Rightarrow> zcb_state" where
  "zcb_onInteger name val s = s\<lparr>z_attrs := snd (parsingIntAttr name val (z_attrs s))\<rparr>"

fun zcb_callback :: "zcb_env \<Rightarrow> c_int \<Rightarrow> json_event \<Rightarrow> zcb_state \<Rightarrow> zcb_state option" where
  "zcb_callback env now (EvObjectStart name) s = Some (zcb_onObjectStart s)"
| "zcb_callback env now (EvObjectComplete name) s = zcb_onObjectComplete env now name s"
| "zcb_callback env now (EvString name val) s = Some (zcb_onString name val s)"
| "zcb_callback env now (EvInteger name val) s = Some (zcb_onInteger name val s)"
| "zcb_callback env now _ s = Some s"

fun zcb_callbacks :: "zcb_env \<Rightarrow> c_int \<Rightarrow> json_event list \<Rightarrow> zcb_state \<Rightarrow> zcb_state option" where
  "zcb_callbacks env now [] s = Some s"
| "zcb_callbacks env now (ev # evs) s = Option.bind (zcb_callback env now ev s) (zcb_callbacks env now evs)"

text \<open>One message of the queue; the parser is reset before it.\<close>

definition zcb_eat :: "zcb_env \<Rightarrow> c_int \<Rightarrow> string \<Rightarrow> parser_data \<Rightarrow> zcb_state \<Rightarrow> zcb_state option" where
  "zcb_eat env now input p s = zcb_callbacks env now (p_trace (jsonEats input ((jsonReset p)\<lparr>p_trace := []\<rparr>))) s"

text \<open>
  One turn of the loop: \<open>outs\<close> are the outcomes of the polls of the queue (four seconds of
  fifty milliseconds each); the result has the index where the next scan starts.
\<close>

definition zcb_turn ::
    "zcb_env \<Rightarrow> c_int \<Rightarrow> string option list \<Rightarrow> parser_data \<Rightarrow> c_int \<Rightarrow> zcb_state \<Rightarrow> (c_int \<times> zcb_state) option" where
  "zcb_turn env now outs p start s = (case queueReadWithMsecTimeout MAXMESSAGESIZE 4000 outs of
     None \<Rightarrow> None
   | Some (n, buf) \<Rightarrow>
       if n > 0 then (case buf of Some m \<Rightarrow> map_option (Pair start) (zcb_eat env now m p s) | None \<Rightarrow> None)
       else map_option (\<lambda>(ret, t). (if ret \<ge> 0 then ret else 0, t)) (eZCB_NeighbourTableRequest env now start s))"

definition zcb_cmdInit :: "parsing \<Rightarrow> parsing" where
  "zcb_cmdInit = add_attrs [''reset'', ''startnwk'', ''erase'', ''getversion'', ''getpermit'', ''duration'']
     [(''chanmask'', 8), (''setpermit'', 16), (''authorize'', 16), (''linkkey'', 32)]"

definition zcb_lmpInit :: "parsing \<Rightarrow> parsing" where
  "zcb_lmpInit = add_attrs [''lvl'', ''xcr'', ''ycr'', ''grpid'', ''scnid'', ''kelvin'']
     [(''mac'', 16), (''cmd'', 6), (''grp'', 8), (''scn'', 8)]"

definition zcb_grpInit :: "parsing \<Rightarrow> parsing" where
  "zcb_grpInit = add_attrs [''lvl'', ''xcr'', ''ycr'', ''grpid'', ''scnid''] [(''cmd'', 6), (''scn'', 8)]"

definition zcb_plgInit :: "parsing \<Rightarrow> parsing" where
  "zcb_plgInit = add_attrs [] [(''mac'', 16), (''cmd'', 6)]"

definition zcb_ctrlInit :: "parsing \<Rightarrow> parsing" where
  "zcb_ctrlInit = add_attrs [''heat'', ''cool''] [(''mac'', 16)]"

definition zcb_topoInit :: "parsing \<Rightarrow> parsing" where
  "zcb_topoInit = add_attrs [''sid'']
     [(''nm'', 16), (''ty'', 8), (''cmd'', 12), (''man'', 16), (''ui'', 16), (''sen'', 16), (''pmp'', 16), (''lmp'', 16), (''plg'', 16)]"

definition zcb_tunnelInit :: "parsing \<Rightarrow> parsing" where
  "zcb_tunnelInit = add_attrs [''close''] [(''open'', 16)]"

definition zcb_attrs_start :: parsing where
  "zcb_attrs_start = (zcb_tunnelInit \<circ> zcb_topoInit \<circ> zcb_ctrlInit \<circ> zcb_plgInit \<circ> zcb_grpInit \<circ> zcb_lmpInit \<circ> zcb_cmdInit) parsing_init"

lemmas zcb_inits = zcb_tunnelInit_def zcb_topoInit_def zcb_ctrlInit_def zcb_plgInit_def zcb_grpInit_def zcb_lmpInit_def zcb_cmdInit_def

lemma zcb_ints: "int_names zcb_attrs_start =
  [''reset'', ''startnwk'', ''erase'', ''getversion'', ''getpermit'', ''duration'', ''lvl'', ''xcr'', ''ycr'', ''grpid'', ''scnid'',
   ''kelvin'', ''heat'', ''cool'', ''sid'', ''close'']"
  unfolding zcb_attrs_start_def comp_def zcb_inits registered
  by (simp add: add_name_def int_names_def parsing_init_def)

lemma zcb_strings: "string_limits zcb_attrs_start =
  [(''chanmask'', 8), (''setpermit'', 16), (''authorize'', 16), (''linkkey'', 32), (''mac'', 16), (''cmd'', 12), (''grp'', 8),
   (''scn'', 8), (''nm'', 16), (''ty'', 8), (''man'', 16), (''ui'', 16), (''sen'', 16), (''pmp'', 16), (''lmp'', 16), (''plg'', 16), (''open'', 16)]"
  unfolding zcb_attrs_start_def comp_def zcb_inits registered
  by (simp add: string_limits_def parsing_init_def)

lemma zcb_wf: "parsing_wf zcb_attrs_start"
proof -
  have adds: "parsing_wf (add_attrs is ss p)" if "parsing_wf p" "\<forall>(k, n)\<in>set ss. 0 \<le> n" for "is" ss p
    unfolding add_attrs_def by (rule registration_wf [OF that])
  show ?thesis unfolding zcb_attrs_start_def comp_def zcb_inits by (intro adds) simp_all
qed

lemma zcb_known:
  "string_maxlen zcb_attrs_start ''mac'' = Some 16" "string_maxlen zcb_attrs_start ''cmd'' = Some 12"
  "string_maxlen zcb_attrs_start ''grp'' = Some 8" "string_maxlen zcb_attrs_start ''scn'' = Some 8"
  "int_known zcb_attrs_start ''lvl''" "int_known zcb_attrs_start ''xcr''" "int_known zcb_attrs_start ''ycr''"
  "int_known zcb_attrs_start ''kelvin''"
  using zcb_ints by (simp_all add: string_maxlen_limits zcb_strings int_known_map int_names_def)

section \<open>One message\<close>

lemma zcb_callbacks_members:
  "zcb_callbacks env now (map member_event ms @ evs) s
   = zcb_callbacks env now evs (s\<lparr>z_attrs := assign_members ms (z_attrs s)\<rparr>)"
proof (induction ms arbitrary: s)
  case (Cons x ms)
  obtain k v where x: "x = (k, v)" by (cases x)
  show ?case
    by (cases v) (simp_all add: x Cons.IH assign_members_def zcb_onInteger_def zcb_onString_def)
qed (simp add: assign_members_def)

lemma zcb_eat_message:
  assumes "ok_message nm ms"
  shows "zcb_eat env now (show_message nm ms) (json_init all_handlers) s
    = zcb_onObjectComplete env now nm (s\<lparr>z_attrs := assign_members ms (parsingReset (z_attrs s))\<rparr>)"
proof -
  have "p_trace (jsonEats (show_message nm ms) ((jsonReset (json_init all_handlers))\<lparr>p_trace := []\<rparr>)) = message_events nm ms"
    using eat_message [OF at_top_start assms] by (simp add: at_top_def)
  then show ?thesis
    unfolding zcb_eat_def
    by (cases "zcb_onObjectComplete env now nm (s\<lparr>z_attrs := assign_members ms (parsingReset (z_attrs s))\<rparr>)")
      (simp_all add: message_events_def zcb_callbacks_members zcb_onObjectStart_def)
qed

lemma zcb_turn_message:
  assumes "0 < length m" and "length m \<le> 298"
  shows "zcb_turn env now (Some m # outs) p start s = map_option (Pair start) (zcb_eat env now m p s)"
proof -
  have r: "received MAXMESSAGESIZE m = m" using assms by (simp add: received_def MAXMESSAGESIZE_def Let_def)
  then have "queueReadWithMsecTimeout MAXMESSAGESIZE 4000 (Some m # outs) = Some (int (length m), Some m)"
    using assms(1) by (cases outs) (auto simp: queueReadWithMsecTimeout_def)
  with assms(1) show ?thesis by (simp add: zcb_turn_def)
qed

section \<open>Lamp messages\<close>

definition lamp_sent_level :: "c_int \<Rightarrow> c_int \<Rightarrow> c_int \<Rightarrow> c_int" where
  "lamp_sent_level lvl rgb kelvin = (if (kelvin \<ge> 0 \<or> rgb \<ge> 0) \<and> lvl < 0 then 100 else lvl)"

definition lamp_sent_colour :: "c_int \<Rightarrow> c_int \<Rightarrow> c_int option" where
  "lamp_sent_colour rgb kelvin =
     (if kelvin = 0 \<and> rgb = 0 then Some 0xFFFFFF else if kelvin \<ge> 0 then None else if rgb \<ge> 0 then Some rgb else None)"

definition lmp_members :: "(c_int \<Rightarrow> c_int \<times> c_int) \<Rightarrow> string \<Rightarrow> string option \<Rightarrow> c_int \<Rightarrow> c_int \<Rightarrow> c_int \<Rightarrow> (string \<times> json_value) list" where
  "lmp_members xy mac cmd lvl rgb kelvin = [(''mac'', VStr mac)] @ opt_str ''cmd'' cmd @ opt_int ''lvl'' (lamp_sent_level lvl rgb kelvin)
     @ (case lamp_sent_colour rgb kelvin of
          Some c \<Rightarrow> [(''xcr'', VInt (fst (xy c))), (''ycr'', VInt (snd (xy c)))]
        | None \<Rightarrow> if kelvin \<ge> 0 then [(''kelvin'', VInt kelvin)] else [])"

lemma lmp_message_members: "jsonLampToZigbee xy mac cmd lvl rgb kelvin = json_msg ''lmp'' (lmp_members xy mac cmd lvl rgb kelvin)"
  by (simp add: jsonLampToZigbee_def lmp_members_def lamp_sent_level_def lamp_sent_colour_def Let_def)

definition ok_lamp :: "(c_int \<Rightarrow> c_int \<times> c_int) \<Rightarrow> string \<Rightarrow> string option \<Rightarrow> c_int \<Rightarrow> c_int \<Rightarrow> c_int \<Rightarrow> bool" where
  "ok_lamp xy mac cmd lvl rgb kelvin \<longleftrightarrow> ok_text 16 mac \<and> (case cmd of None \<Rightarrow> True | Some c \<Rightarrow> ok_text 12 c)
     \<and> lvl \<le> 100 \<and> kelvin \<le> INT_MAX
     \<and> (case lamp_sent_colour rgb kelvin of
          Some c \<Rightarrow> 0 \<le> fst (xy c) \<and> fst (xy c) \<le> INT_MAX \<and> 0 \<le> snd (xy c) \<and> snd (xy c) \<le> INT_MAX
        | None \<Rightarrow> True)"

lemma lmp_name_chars: "list_all isValidNameChar ''lmp''" "list_all isValidNameChar ''xcr''" "list_all isValidNameChar ''ycr''"
  by code_simp+

lemma lmp_message:
  assumes "ok_lamp xy mac cmd lvl rgb kelvin"
  shows "ok_message ''lmp'' (lmp_members xy mac cmd lvl rgb kelvin)"
    and "jsonLampToZigbee xy mac cmd lvl rgb kelvin = Some (show_message ''lmp'' (lmp_members xy mac cmd lvl rgb kelvin))"
    and "length (show_message ''lmp'' (lmp_members xy mac cmd lvl rgb kelvin)) \<le> 298"
proof -
  let ?ms = "lmp_members xy mac cmd lvl rgb kelvin"
  have strs: "ok_text 16 mac" "\<And>c. cmd = Some c \<Longrightarrow> ok_text 12 c" using assms by (simp_all add: ok_lamp_def)
  have lvl: "lamp_sent_level lvl rgb kelvin \<le> INT_MAX" "kelvin \<le> INT_MAX"
    using assms by (auto simp: ok_lamp_def lamp_sent_level_def INT_MAX_def)
  have col: "\<And>c. lamp_sent_colour rgb kelvin = Some c \<Longrightarrow>
      0 \<le> fst (xy c) \<and> fst (xy c) \<le> INT_MAX \<and> 0 \<le> snd (xy c) \<and> snd (xy c) \<le> INT_MAX"
    using assms by (simp add: ok_lamp_def)
  have members: "list_all ok_member ?ms"
    using strs lvl col ctrl_name_chars lmp_name_chars
    by (cases cmd; cases "lamp_sent_colour rgb kelvin")
      (auto simp: lmp_members_def opt_int_def opt_str_def ok_member_def ok_name_def ok_text_def text_plain json_sizes INT_MIN_def)
  then show ok: "ok_message ''lmp'' ?ms"
    using lmp_name_chars(1)
    by (cases cmd; cases "lamp_sent_colour rgb kelvin") (auto simp: ok_message_def lmp_members_def opt_int_def opt_str_def)
  have digits: "length (c_itoa n) \<le> 11" if "0 \<le> n" "n \<le> INT_MAX" for n
    using that by (intro length_c_itoa) (simp_all add: INT_MIN_def)
  show len: "length (show_message ''lmp'' ?ms) \<le> 298"
    using strs lvl col digits [of "lamp_sent_level lvl rgb kelvin"] digits [of kelvin] digits [of "fst (xy c)" for c] digits [of "snd (xy c)" for c]
    by (cases cmd; cases "lamp_sent_colour rgb kelvin")
      (fastforce simp: show_message_def lmp_members_def opt_int_def opt_str_def show_member_def ok_text_def)+
  have "message_fits ''lmp'' ?ms"
    using len strs lvl col digits [of "lamp_sent_level lvl rgb kelvin"] digits [of kelvin]
    by (cases cmd; cases "lamp_sent_colour rgb kelvin")
      (auto simp: message_fits_def lmp_members_def opt_int_def opt_str_def show_member_def ok_text_def MAXNAMEVALUE_def MAXJSONMESSAGE_def
        intro!: le_less_trans [OF digits])
  from json_msg_Some [OF ok this]
  show "jsonLampToZigbee xy mac cmd lvl rgb kelvin = Some (show_message ''lmp'' ?ms)" by (simp add: lmp_message_members)
qed

lemma string_present:
  assumes "parsing_wf p" and "string_maxlen p k = Some n" and "distinct (map fst (string_members ms))"
    and "(k, v) \<in> set (string_members ms)" and "fits_maxlen n v" and "v \<noteq> []"
  shows "parsingGetStringAttr0 (assign_members ms (parsingReset p)) k = Some v"
    and "parsingGetStringAttr (assign_members ms (parsingReset p)) k = Some v"
proof -
  have known: "string_maxlen p k \<noteq> None" and fits: "string_fits p k v" using assms(2,5) by (simp_all add: string_fits_def)
  have "string_fetch (assign_members ms (parsingReset p)) k = v"
    using string_attrs.fetch_message [OF assms(1) known, of "string_members ms"]
      string_fetch_cong [OF strings_assigned [OF refl, of ms "parsingReset p"], of k]
      last_assigned_unique [OF assms(3,4), of "string_fits p k", OF fits] by simp
  then show "parsingGetStringAttr0 (assign_members ms (parsingReset p)) k = Some v"
    "parsingGetStringAttr (assign_members ms (parsingReset p)) k = Some v"
    using assms(6) by (auto simp: attr0_fetch string_fetch_def split: option.splits)
qed

lemma string_absent:
  assumes "parsing_wf p" and "string_maxlen p k = Some n" and "k \<notin> fst ` set (string_members ms)"
  shows "parsingGetStringAttr0 (assign_members ms (parsingReset p)) k = None"
proof -
  have known: "string_maxlen p k \<noteq> None" using assms(2) by simp
  have "string_fetch (assign_members ms (parsingReset p)) k = []"
    using string_attrs.fetch_message [OF assms(1) known, of "string_members ms"]
      string_fetch_cong [OF strings_assigned [OF refl, of ms "parsingReset p"], of k] last_assigned_absent [OF assms(3)] by simp
  then show ?thesis by (simp add: attr0_fetch)
qed

text \<open>What the attributes are when the object of a lamp is complete.\<close>

lemma lmp_attributes:
  assumes "ok_lamp xy mac cmd lvl rgb kelvin"
  defines "p \<equiv> assign_members (lmp_members xy mac cmd lvl rgb kelvin) (parsingReset zcb_attrs_start)"
  shows "parsingGetStringAttr p ''mac'' = Some mac" "parsingGetStringAttr0 p ''cmd'' = cmd"
    "parsingGetStringAttr0 p ''grp'' = None" "parsingGetStringAttr0 p ''scn'' = None"
    "parsingGetIntAttr p ''lvl'' = sent_int (lamp_sent_level lvl rgb kelvin)"
    "parsingGetIntAttr p ''xcr'' = (case lamp_sent_colour rgb kelvin of Some c \<Rightarrow> fst (xy c) | None \<Rightarrow> INT_MIN)"
    "parsingGetIntAttr p ''ycr'' = (case lamp_sent_colour rgb kelvin of Some c \<Rightarrow> snd (xy c) | None \<Rightarrow> INT_MIN)"
    "parsingGetIntAttr p ''kelvin'' = (if lamp_sent_colour rgb kelvin = None then sent_int kelvin else INT_MIN)"
proof -
  let ?ms = "lmp_members xy mac cmd lvl rgb kelvin"
  have strs: "ok_text 16 mac" "\<And>c. cmd = Some c \<Longrightarrow> ok_text 12 c" using assms(1) by (simp_all add: ok_lamp_def)
  have members: "string_members ?ms = (''mac'', mac) # (case cmd of Some c \<Rightarrow> [(''cmd'', c)] | None \<Rightarrow> [])"
    by (cases cmd; cases "lamp_sent_colour rgb kelvin") (simp_all add: lmp_members_def opt_int_def opt_str_def)
  have dist: "distinct (map fst (string_members ?ms))" unfolding members by (cases cmd) simp_all
  show "parsingGetStringAttr p ''mac'' = Some mac"
    unfolding p_def using strs(1) by (intro string_present [OF zcb_wf zcb_known(1) dist]) (simp_all add: members ok_text_def fits_maxlen_def)
  show "parsingGetStringAttr0 p ''cmd'' = cmd"
  proof (cases cmd)
    case None
    then have "''cmd'' \<notin> fst ` set (string_members ?ms)" unfolding members by simp
    then show ?thesis unfolding p_def using string_absent [OF zcb_wf zcb_known(2)] None by simp
  next
    case (Some c)
    then have "(''cmd'', c) \<in> set (string_members ?ms)" "fits_maxlen 12 c" "c \<noteq> []"
      using strs(2) unfolding members by (simp_all add: ok_text_def fits_maxlen_def)
    from string_present(1) [OF zcb_wf zcb_known(2) dist this] show ?thesis unfolding p_def Some .
  qed
  show "parsingGetStringAttr0 p ''grp'' = None" "parsingGetStringAttr0 p ''scn'' = None"
    unfolding p_def by (rule string_absent [OF zcb_wf zcb_known(3)] string_absent [OF zcb_wf zcb_known(4)]; unfold members; cases cmd; simp)+
  have ints: "int_members ?ms = (if lamp_sent_level lvl rgb kelvin \<ge> 0 then [(''lvl'', lamp_sent_level lvl rgb kelvin)] else [])
      @ (case lamp_sent_colour rgb kelvin of Some c \<Rightarrow> [(''xcr'', fst (xy c)), (''ycr'', snd (xy c))]
         | None \<Rightarrow> if kelvin \<ge> 0 then [(''kelvin'', kelvin)] else [])"
    by (cases cmd; cases "lamp_sent_colour rgb kelvin") (simp_all add: lmp_members_def opt_int_def opt_str_def)
  show "parsingGetIntAttr p ''lvl'' = sent_int (lamp_sent_level lvl rgb kelvin)"
    "parsingGetIntAttr p ''xcr'' = (case lamp_sent_colour rgb kelvin of Some c \<Rightarrow> fst (xy c) | None \<Rightarrow> INT_MIN)"
    "parsingGetIntAttr p ''ycr'' = (case lamp_sent_colour rgb kelvin of Some c \<Rightarrow> snd (xy c) | None \<Rightarrow> INT_MIN)"
    "parsingGetIntAttr p ''kelvin'' = (if lamp_sent_colour rgb kelvin = None then sent_int kelvin else INT_MIN)"
    unfolding p_def int_after_message [OF zcb_wf zcb_known(5)] int_after_message [OF zcb_wf zcb_known(6)]
      int_after_message [OF zcb_wf zcb_known(7)] int_after_message [OF zcb_wf zcb_known(8)] ints
    by (cases "lamp_sent_colour rgb kelvin"; simp add: sent_int_def)+
qed

section \<open>The requests of a lamp message\<close>

lemma snd_zcb_request [simp]: "snd (zcb_request env t m s) = s\<lparr>z_requests := z_requests s @ [(t, m)]\<rparr>"
  by (simp add: zcb_request_def zcb_send_def split: prod.splits)

text \<open>What the lamp is asked, in order: on or off, its level, its colour or colour temperature.\<close>

definition lamp_requests ::
    "(c_int \<Rightarrow> c_int \<times> c_int) \<Rightarrow> u16 \<Rightarrow> string option \<Rightarrow> c_int \<Rightarrow> c_int \<Rightarrow> c_int \<Rightarrow> (u16 \<times> u8 list) list" where
  "lamp_requests xy saddr cmd lvl rgb kelvin =
     (let header = [0x02] @ be16 saddr @ [1, 1] in
        (case cmd of Some c \<Rightarrow> [(0x0092, header @ [if c = ''on'' then 1 else 0])] | None \<Rightarrow> [])
      @ (if lamp_sent_level lvl rgb kelvin \<ge> 0
         then [(0x0081, header @ [0, word_of_int (min 254 (lamp_sent_level lvl rgb kelvin * 255 div 100))] @ be16 5)] else [])
      @ (case lamp_sent_colour rgb kelvin of
           Some c \<Rightarrow> [(0x00B7, header @ be16 (word_of_int (fst (xy c))) @ be16 (word_of_int (snd (xy c))) @ be16 5)]
         | None \<Rightarrow> if kelvin > 0 then [(0x00C0, header @ be16 (word_of_int (1000000 div kelvin)) @ be16 5)] else []))"

lemma lamp_header: "sa \<noteq> 0xFFFF \<Longrightarrow> initDefaultHeader sa 0 = [0x02] @ be16 sa @ [1, 1]"
  by (simp add: initDefaultHeader_def zcb_addressing)

lemma sdiv_nonneg: "0 \<le> a \<Longrightarrow> 0 < b \<Longrightarrow> a sdiv b = (a :: int) div b"
  by (cases "a = 0") (simp_all add: signed_divide_int_def sgn_if)

lemma level_byte:
  assumes "0 \<le> l" and "l \<le> 100"
  shows "(if (word_of_int (l * 255 sdiv 100) :: u8) > 254 then 254 else word_of_int (l * 255 sdiv 100) :: u8) = (word_of_int (min 254 (l * 255 div 100)) :: u8)"
proof -
  let ?x = "l * 255 div 100"
  have x: "0 \<le> ?x" "?x \<le> 255" using assms by auto
  have u: "uint (word_of_int ?x :: u8) = ?x" using x unfolding uint_word_of_int by simp
  have m: "uint (word_of_int (min 254 ?x) :: u8) = min 254 ?x" using x unfolding uint_word_of_int by (simp add: min_def)
  have "uint (if (word_of_int ?x :: u8) > 254 then 254 else word_of_int ?x :: u8) = uint (word_of_int (min 254 ?x) :: u8)"
    unfolding uint_capped u m ..
  moreover have "l * 255 sdiv 100 = ?x" using assms(1) by (intro sdiv_nonneg) simp_all
  ultimately show ?thesis by (simp only: word_uint_eq_iff)
qed

lemma lmp_handled:
  assumes "zattr s ''mac'' = Some mac" and "mac \<noteq> []" and "zcbNodeGetShortAddress mac (z_db s) = sa" and "sa \<noteq> 0xFFFF"
    and "zattr0 s ''cmd'' = cmd" and "zattr0 s ''grp'' = None" and "zattr0 s ''scn'' = None"
    and "zattri s ''lvl'' = sent_int (lamp_sent_level lvl rgb kelvin)"
    and "zattri s ''xcr'' = (case lamp_sent_colour rgb kelvin of Some c \<Rightarrow> fst (xy c) | None \<Rightarrow> INT_MIN)"
    and "zattri s ''ycr'' = (case lamp_sent_colour rgb kelvin of Some c \<Rightarrow> snd (xy c) | None \<Rightarrow> INT_MIN)"
    and "zattri s ''kelvin'' = (if lamp_sent_colour rgb kelvin = None then sent_int kelvin else INT_MIN)"
    and "ok_lamp xy mac cmd lvl rgb kelvin"
  shows "zcb_lmpHandle env s = Some (s\<lparr>z_requests := z_requests s @ lamp_requests xy sa cmd lvl rgb kelvin\<rparr>)"
proof -
  let ?l = "lamp_sent_level lvl rgb kelvin"
  let ?h = "initDefaultHeader sa 0"
  let ?r1 = "case cmd of Some c \<Rightarrow> [(E_SL_MSG_ONOFF, ?h @ [if c = ''on'' then 1 else 0])] | None \<Rightarrow> []"
  let ?r2 = "if ?l \<ge> 0 then [(E_SL_MSG_MOVE_TO_LEVEL_ONOFF, ?h @ [0, word_of_int (min 254 (?l * 255 div 100))] @ be16 5)] else []"
  let ?r3 = "case lamp_sent_colour rgb kelvin of
      Some c \<Rightarrow> [(E_SL_MSG_MOVE_TO_COLOUR, ?h @ be16 (word_of_int (fst (xy c))) @ be16 (word_of_int (snd (xy c))) @ be16 5)]
    | None \<Rightarrow> []"
  let ?r4 = "if lamp_sent_colour rgb kelvin = None \<and> kelvin > 0
    then [(E_SL_MSG_MOVE_TO_COLOUR_TEMPERATURE, ?h @ be16 (word_of_int (1000000 div kelvin)) @ be16 5)] else []"
  define add where "add rs t = t\<lparr>z_requests := z_requests t @ rs\<rparr>" for rs and t :: zcb_state
  have attrs: "z_attrs (add rs t) = z_attrs t" and adds: "add rs' (add rs t) = add (rs @ rs') t" and none: "add [] t = t" for rs rs' t
    by (simp_all add: add_def)
  have req: "snd (zcb_request env ty m t) = add [(ty, m)] t" for ty m t by (simp add: add_def)
  have "?l \<le> 100" using assms(12) by (auto simp: ok_lamp_def lamp_sent_level_def)
  then have lvl: "\<not> sent_int ?l * 255 > INT_MAX" "sent_int ?l < 0 \<longleftrightarrow> ?l < 0" by (auto simp: sent_int_def INT_MAX_def INT_MIN_def)
  have one: "lamp_onoff env sa s = add ?r1 s"
    using assms(5) by (cases cmd) (simp_all add: lamp_onoff_def lmpgrp_OnOff_def req none word_less_iff_unsigned del: snd_zcb_request)
  have two: "lamp_level env sa 0 t = Some (add ?r2 t)" if "z_attrs t = z_attrs s" for t
    using assms(8) lvl that \<open>?l \<le> 100\<close>
    by (auto simp: lamp_level_def lmpgrp_MoveToLevel_def Let_def req none level_byte sent_int_def simp del: snd_zcb_request)
  have three: "lamp_colour env sa 0 t = add ?r3 t" if "z_attrs t = z_attrs s" for t
    using assms(9,10,12) that
    by (cases "lamp_sent_colour rgb kelvin") (auto simp: lamp_colour_def lmpgrp_MoveToColour_def Let_def req none INT_MIN_def ok_lamp_def simp del: snd_zcb_request)
  have four: "lamp_kelvin env sa t = add ?r4 t" if "z_attrs t = z_attrs s" for t
    using assms(11) that
    by (auto simp: lamp_kelvin_def lmpgrp_MoveToColourTemperature_def Let_def req none INT_MIN_def sent_int_def sdiv_nonneg simp del: snd_zcb_request)
  have "zcb_lmpHandle env s = Some (add (?r1 @ ?r2 @ ?r3 @ ?r4) s)"
    using assms(1-4,6,7)
    by (simp add: zcb_lmpHandle_def with_node_def Let_def one two three four attrs adds lamp_group_def lamp_scene_def)
  moreover have "?r1 @ ?r2 @ ?r3 @ ?r4 = lamp_requests xy sa cmd lvl rgb kelvin"
    using lamp_header [OF assms(4)] by (auto simp: lamp_requests_def zcb_msg_types Let_def split: option.split)
  ultimately show ?thesis by (simp add: add_def)
qed

text \<open>
  A whole turn of the loop.  The tables are those of the start or what earlier messages made of
  them: \<open>parsingReset\<close> takes them back.
\<close>

lemma zcb_lamp_turn:
  assumes "ok_lamp xy mac cmd lvl rgb kelvin" and "parsingReset (z_attrs z) = parsingReset zcb_attrs_start"
    and "zcbNodeGetShortAddress mac (z_db z) = sa" and "sa \<noteq> 0xFFFF"
  defines "m \<equiv> show_message ''lmp'' (lmp_members xy mac cmd lvl rgb kelvin)"
  shows "zcb_turn env now (Some m # outs) (json_init all_handlers) start z
    = Some (start, z\<lparr>z_attrs := assign_members (lmp_members xy mac cmd lvl rgb kelvin) (parsingReset zcb_attrs_start),
        z_requests := z_requests z @ lamp_requests xy sa cmd lvl rgb kelvin\<rparr>)"
proof -
  let ?s = "z\<lparr>z_attrs := assign_members (lmp_members xy mac cmd lvl rgb kelvin) (parsingReset zcb_attrs_start)\<rparr>"
  have mac: "mac \<noteq> []" using assms(1) by (auto simp: ok_lamp_def ok_text_def)
  have db: "zcbNodeGetShortAddress mac (z_db ?s) = sa" using assms(3) by simp
  have attrs: "z_attrs ?s = assign_members (lmp_members xy mac cmd lvl rgb kelvin) (parsingReset zcb_attrs_start)" by simp
  have len: "0 < length m" "length m \<le> 298" unfolding m_def using lmp_message(3) [OF assms(1)] by (simp_all add: show_message_def)
  have "zcb_eat env now m (json_init all_handlers) z = zcb_onObjectComplete env now ''lmp'' ?s"
    unfolding m_def zcb_eat_message [OF lmp_message(1) [OF assms(1)]] assms(2) ..
  also have "\<dots> = zcb_lmpHandle env ?s" by (simp add: zcb_onObjectComplete_def)
  also have "\<dots> = Some (?s\<lparr>z_requests := z_requests ?s @ lamp_requests xy sa cmd lvl rgb kelvin\<rparr>)"
    by (rule lmp_handled [OF _ mac db assms(4) _ _ _ _ _ _ _ assms(1)]) (simp_all only: attrs lmp_attributes [OF assms(1)])
  finally show ?thesis unfolding zcb_turn_message [OF len] by simp
qed

end
