(* ===== verification/SecureJoin.thy ===== *)
theory SecureJoin
  imports ZcbMain
begin

text \<open>
  The secure joiner (\<open>daemons/SecureJoiner\<close>): a client hands in the mac and the link key of a
  device; the joiner asks the Zigbee daemon to authorise it, waits for the answer on its own
  queue, and gives the client what the device needs to join, or an error.  The theory follows
  a request through the Zigbee daemon to the control bridge and back.

  The answer is parsed with a second parser, into variables of its own.  What the joiner reads
  from its queue is an argument: the outcomes of the polls while it empties the queue, and of
  those while it waits.  \<open>None\<close> is an access the program does not define, or a queue that
  never empties.
\<close>

section \<open>The answer of the Zigbee daemon\<close>

record zcb_answer =
  zcbOk :: bool
  za_keyseq :: c_int
  za_channel :: c_int
  za_authorize :: string
  za_nwkey :: string
  za_mic :: string
  za_tcaddress :: string
  za_pan :: string
  za_extpan :: string

definition sj_zcb_onObjectStart :: "zcb_answer \<Rightarrow> zcb_answer" where
  "sj_zcb_onObjectStart z = z\<lparr>za_keyseq := - 1, za_channel := - 1, za_authorize := [], za_nwkey := [], za_mic := [],
     za_tcaddress := [], za_pan := [], za_extpan := []\<rparr>"

definition answer_complete :: "zcb_answer \<Rightarrow> bool" where
  "answer_complete z \<longleftrightarrow> za_keyseq z \<noteq> - 1 \<and> za_channel z \<noteq> - 1 \<and> za_authorize z \<noteq> [] \<and> za_nwkey z \<noteq> []
     \<and> za_mic z \<noteq> [] \<and> za_tcaddress z \<noteq> [] \<and> za_pan z \<noteq> [] \<and> za_extpan z \<noteq> []"

definition sj_zcb_onObjectComplete :: "zcb_answer \<Rightarrow> zcb_answer" where
  "sj_zcb_onObjectComplete z = (if answer_complete z then z\<lparr>zcbOk := True\<rparr> else z)"

definition sj_zcb_onString :: "string \<Rightarrow> string \<Rightarrow> zcb_answer \<Rightarrow> zcb_answer" where
  "sj_zcb_onString name val z =
     (if name = ''authorize'' then (if length val \<le> 16 then z\<lparr>za_authorize := val\<rparr> else z)
      else if name = ''key'' then (if length val \<le> 32 then z\<lparr>za_nwkey := val\<rparr> else z)
      else if name = ''mic'' then (if length val \<le> 8 then z\<lparr>za_mic := val\<rparr> else z)
      else if name = ''tcaddr'' then (if length val \<le> 16 then z\<lparr>za_tcaddress := val\<rparr> else z)
      else if name = ''pan'' then (if length val \<le> 4 then z\<lparr>za_pan := val\<rparr> else z)
      else if name = ''extpan'' then (if length val \<le> 16 then z\<lparr>za_extpan := val\<rparr> else z)
      else z)"

definition sj_zcb_onInteger :: "string \<Rightarrow> c_int \<Rightarrow> zcb_answer \<Rightarrow> zcb_answer" where
  "sj_zcb_onInteger name val z =
     (if name = ''keyseq'' then z\<lparr>za_keyseq := val\<rparr> else if name = ''chan'' then z\<lparr>za_channel := val\<rparr> else z)"

fun sj_zcb_callback :: "json_event \<Rightarrow> zcb_answer \<Rightarrow> zcb_answer" where
  "sj_zcb_callback (EvObjectStart name) z = sj_zcb_onObjectStart z"
| "sj_zcb_callback (EvObjectComplete name) z = sj_zcb_onObjectComplete z"
| "sj_zcb_callback (EvString name val) z = sj_zcb_onString name val z"
| "sj_zcb_callback (EvInteger name val) z = sj_zcb_onInteger name val z"
| "sj_zcb_callback _ z = z"

definition sj_zcb_eat :: "parser_data \<Rightarrow> string \<Rightarrow> zcb_answer \<Rightarrow> zcb_answer" where
  "sj_zcb_eat p2 input z =
     fold sj_zcb_callback (p_trace (jsonEats input ((jsonReset (p2\<lparr>p_on := all_handlers\<rparr>))\<lparr>p_trace := []\<rparr>))) z"

section \<open>State and commissioning\<close>

record linkinfo_t =
  li_version :: c_int
  li_type :: c_int
  li_profile :: c_int
  li_mac :: string
  li_linkkey :: string

record sj_state =
  sj_attrs :: parsing
  sj_linkinfo :: linkinfo_t
  sj_zcb :: zcb_answer
  sj_ipc :: ipc
  sj_sent :: "string list"

record sj_env =
  sj_mq :: mq_env
  sj_flush :: "string option list list"
  sj_answer :: "string option list"

definition IOT_ERROR_AUTHORIZE_TIMEOUT :: c_int where "IOT_ERROR_AUTHORIZE_TIMEOUT = 4"
definition IOT_ERROR_AUTHORIZE_RESPONSE :: c_int where "IOT_ERROR_AUTHORIZE_RESPONSE = 5"

text \<open>The queue is read until a read of a tenth of a second brings nothing.\<close>

fun joiner_flush :: "string option list list \<Rightarrow> bool" where
  "joiner_flush [] = False"
| "joiner_flush (outs # reads) = (case queueReadWithMsecTimeout MAXMESSAGESIZE 100 outs of
     None \<Rightarrow> False
   | Some (n, buf) \<Rightarrow> if n > 0 then joiner_flush reads else True)"

definition commission_response :: "string \<Rightarrow> zcb_answer \<Rightarrow> string option" where
  "commission_response mac z =
     (if zcbOk z \<and> mac = za_authorize z
      then jsonJoinSecure (za_channel z) (za_keyseq z) (za_pan z) (za_extpan z) (za_nwkey z) (za_mic z) (za_tcaddress z)
      else jsonCreateError IOT_ERROR_AUTHORIZE_RESPONSE)"

definition commission :: "sj_env \<Rightarrow> parser_data \<Rightarrow> string \<Rightarrow> string \<Rightarrow> sj_state \<Rightarrow> sj_state option" where
  "commission env p2 mac0 linkkey s = (let mac = strtoupper mac0 in
     case jsonCmdAuthorizeRequest mac linkkey of None \<Rightarrow> None | Some message \<Rightarrow>
     (case queueOpen (sj_mq env) QUEUE_KEY_SECURE_JOINER (sj_ipc s) of
        (None, q) \<Rightarrow> Some (s\<lparr>sj_ipc := q\<rparr>)
      | (Some k, q) \<Rightarrow>
          if \<not> joiner_flush (sj_flush env) then None
          else (case queueWriteOneMessage (sj_mq env) QUEUE_KEY_ZCB_IN message q of
             (False, q') \<Rightarrow> Some (s\<lparr>sj_ipc := q'\<rparr>)
           | (True, q') \<Rightarrow> (case queueReadWithMsecTimeout MAXMESSAGESIZE 2000 (sj_answer env) of
                None \<Rightarrow> None
              | Some (n, buf) \<Rightarrow>
                  (if n > 0 then (case buf of
                     None \<Rightarrow> None
                   | Some m \<Rightarrow> (let z = sj_zcb_eat p2 m ((sj_zcb s)\<lparr>zcbOk := False\<rparr>) in
                       map_option (\<lambda>r. s\<lparr>sj_ipc := q', sj_zcb := z, sj_sent := sj_sent s @ [r]\<rparr>) (commission_response mac z)))
                   else map_option (\<lambda>r. s\<lparr>sj_ipc := q', sj_sent := sj_sent s @ [r]\<rparr>)
                          (jsonCreateError IOT_ERROR_AUTHORIZE_TIMEOUT))))))"

section \<open>Requests of clients\<close>

definition linkinfoInit :: "parsing \<Rightarrow> parsing" where
  "linkinfoInit = add_attrs [''version'', ''type'', ''profile''] [(''mac'', 16), (''linkkey'', 32)]"

definition linkinfoHandle :: "sj_state \<Rightarrow> linkinfo_t option" where
  "linkinfoHandle s = (case (parsingGetStringAttr (sj_attrs s) ''mac'', parsingGetStringAttr (sj_attrs s) ''linkkey'') of
     (Some mac, Some linkkey) \<Rightarrow> Some \<lparr>li_version = parsingGetIntAttr (sj_attrs s) ''version'',
        li_type = parsingGetIntAttr (sj_attrs s) ''type'', li_profile = parsingGetIntAttr (sj_attrs s) ''profile'',
        li_mac = mac, li_linkkey = linkkey\<rparr>
   | _ \<Rightarrow> None)"

text \<open>The mac is made upper case in the structure itself.\<close>

definition sj_onObjectComplete :: "sj_env \<Rightarrow> parser_data \<Rightarrow> string \<Rightarrow> sj_state \<Rightarrow> sj_state option" where
  "sj_onObjectComplete env p2 name s =
     (if name = ''linkinfo'' then (case linkinfoHandle s of
        None \<Rightarrow> Some s
      | Some l \<Rightarrow> commission env p2 (li_mac l) (li_linkkey l) (s\<lparr>sj_linkinfo := l\<lparr>li_mac := strtoupper (li_mac l)\<rparr>\<rparr>))
      else Some s)"

fun sj_callback :: "sj_env \<Rightarrow> parser_data \<Rightarrow> json_event \<Rightarrow> sj_state \<Rightarrow> sj_state option" where
  "sj_callback env p2 (EvObjectStart name) s = Some (s\<lparr>sj_attrs := parsingReset (sj_attrs s)\<rparr>)"
| "sj_callback env p2 (EvObjectComplete name) s = sj_onObjectComplete env p2 name s"
| "sj_callback env p2 (EvString name val) s = Some (s\<lparr>sj_attrs := snd (parsingStringAttr name val (sj_attrs s))\<rparr>)"
| "sj_callback env p2 (EvInteger name val) s = Some (s\<lparr>sj_attrs := snd (parsingIntAttr name val (sj_attrs s))\<rparr>)"
| "sj_callback env p2 _ s = Some s"

fun sj_callbacks :: "sj_env \<Rightarrow> parser_data \<Rightarrow> json_event list \<Rightarrow> sj_state \<Rightarrow> sj_state option" where
  "sj_callbacks env p2 [] s = Some s"
| "sj_callbacks env p2 (ev # evs) s = Option.bind (sj_callback env p2 ev s) (sj_callbacks env p2 evs)"

definition sj_handleClient :: "sj_env \<Rightarrow> parser_data \<Rightarrow> string \<Rightarrow> parser_data \<Rightarrow> sj_state \<Rightarrow> sj_state option" where
  "sj_handleClient env p2 input p s =
     sj_callbacks env p2 (p_trace (jsonEats input ((jsonReset p)\<lparr>p_trace := []\<rparr>)))
       (s\<lparr>sj_ipc := (sj_ipc s)\<lparr>q_error := IOT_ERROR_NONE\<rparr>\<rparr>)"

definition sj_attrs_start :: parsing where
  "sj_attrs_start = linkinfoInit parsing_init"

section \<open>A request of a client\<close>

lemma sj_strings: "string_limits sj_attrs_start = [(''mac'', 16), (''linkkey'', 32)]"
  unfolding sj_attrs_start_def linkinfoInit_def registered
  by (simp add: string_limits_def parsing_init_def)

lemma sj_wf: "parsing_wf sj_attrs_start"
  unfolding sj_attrs_start_def linkinfoInit_def add_attrs_def by (rule registration_wf) simp_all

lemma sj_known: "string_maxlen sj_attrs_start ''mac'' = Some 16" "string_maxlen sj_attrs_start ''linkkey'' = Some 32"
  by (simp_all add: string_maxlen_limits sj_strings)

lemma sj_callbacks_members:
  "sj_callbacks env p2 (map member_event ms @ evs) s
   = sj_callbacks env p2 evs (s\<lparr>sj_attrs := assign_members ms (sj_attrs s)\<rparr>)"
proof (induction ms arbitrary: s)
  case (Cons x ms)
  obtain k v where x: "x = (k, v)" by (cases x)
  show ?case by (cases v) (simp_all add: x Cons.IH assign_members_def)
qed (simp add: assign_members_def)

lemma sj_handle_message:
  assumes "ok_message nm ms"
  shows "sj_handleClient env p2 (show_message nm ms) (json_init all_handlers) s
    = sj_onObjectComplete env p2 nm
        (s\<lparr>sj_ipc := (sj_ipc s)\<lparr>q_error := IOT_ERROR_NONE\<rparr>, sj_attrs := assign_members ms (parsingReset (sj_attrs s))\<rparr>)"
    (is "_ = sj_onObjectComplete env p2 nm ?s")
proof -
  have "p_trace (jsonEats (show_message nm ms) ((jsonReset (json_init all_handlers))\<lparr>p_trace := []\<rparr>)) = message_events nm ms"
    using eat_message [OF at_top_start assms] by (simp add: at_top_def)
  then show ?thesis
    unfolding sj_handleClient_def
    by (cases "sj_onObjectComplete env p2 nm ?s") (simp_all add: message_events_def sj_callbacks_members)
qed

section \<open>Hexadecimal texts in messages\<close>

definition nibble_text :: "nat \<Rightarrow> string \<Rightarrow> bool" where
  "nibble_text n v \<longleftrightarrow> length v = n \<and> list_all is_upper_nibble v"

lemma upper_nibble_text: "is_upper_nibble c \<Longrightarrow> text_char c"
proof -
  assume "is_upper_nibble c"
  then have "isValidNameChar c" by (auto simp: is_upper_nibble_def isValidNameChar_def isAlpha_def isNum_def char_le_code)
  moreover from this have "plain_char c" by (auto simp: plain_char_def isValidNameChar_def isAlpha_def isNum_def char_le_code)
  ultimately show "text_char c" by (simp add: text_char_def printable_name)
qed

lemma nibble_text_ok: "nibble_text n v \<Longrightarrow> 0 < n \<Longrightarrow> ok_text n v"
  by (auto simp: nibble_text_def ok_text_def list_all_iff upper_nibble_text)

lemma upper_nibble_upper: "is_upper_nibble c \<Longrightarrow> c_toupper c = c"
  by (auto simp: is_upper_nibble_def c_toupper_def char_le_code)

lemma nibble_text_upper: "nibble_text n v \<Longrightarrow> strtoupper v = v"
  by (auto simp: nibble_text_def strtoupper_map list_all_iff upper_nibble_upper intro: map_idI)

lemma hex2nibblestr_upper: "c \<in> set (hex2nibblestr bs) \<Longrightarrow> is_upper_nibble c"
  by (induction bs) (auto simp: byte_nibbles is_upper_nibble_num2nibble)

lemma nibble_text_hex: "nibble_text (2 * length bs) (hex2nibblestr bs)" "nibble_text 16 (u642nibblestr u)"
  by (auto simp: nibble_text_def list_all_iff dest: hex2nibblestr_upper u642nibblestr_upper)

text \<open>Messages that fit the writers, the queues and the parser.\<close>

definition wire_message :: "string \<Rightarrow> (string \<times> json_value) list \<Rightarrow> bool" where
  "wire_message nm ms \<longleftrightarrow> ok_message nm ms \<and> message_fits nm ms \<and> length (show_message nm ms) \<le> 298
     \<and> list_all (\<lambda>m. text_value (snd m)) ms"

lemma wire_json: "wire_message nm ms \<Longrightarrow> json_msg nm ms = Some (show_message nm ms)"
  by (simp add: wire_message_def json_msg_Some)

lemma wire_length: "wire_message nm ms \<Longrightarrow> 0 < length (show_message nm ms) \<and> length (show_message nm ms) \<le> 298"
  by (simp add: wire_message_def show_message_def)

lemma join_name_chars: "list_all isValidNameChar ''linkinfo''" "list_all isValidNameChar ''joinsecure''" "list_all isValidNameChar ''zcb''"
  "list_all isValidNameChar ''version''" "list_all isValidNameChar ''type''" "list_all isValidNameChar ''profile''"
  "list_all isValidNameChar ''linkkey''" "list_all isValidNameChar ''authorize''" "list_all isValidNameChar ''key''"
  "list_all isValidNameChar ''mic''" "list_all isValidNameChar ''tcaddr''" "list_all isValidNameChar ''keyseq''"
  "list_all isValidNameChar ''chan''" "list_all isValidNameChar ''pan''" "list_all isValidNameChar ''extpan''"
  "list_all isValidNameChar ''nwkey''"
  by code_simp+

definition linkinfo_members :: "c_int \<Rightarrow> c_int \<Rightarrow> c_int \<Rightarrow> string \<Rightarrow> string \<Rightarrow> (string \<times> json_value) list" where
  "linkinfo_members ver ty prof mac linkkey =
     [(''version'', VInt ver), (''type'', VInt ty), (''profile'', VInt prof), (''mac'', VStr mac), (''linkkey'', VStr linkkey)]"

definition authorize_members :: "string \<Rightarrow> string \<Rightarrow> (string \<times> json_value) list" where
  "authorize_members mac linkkey = [(''authorize'', VStr mac), (''linkkey'', VStr linkkey)]"

definition answer_members :: "string \<Rightarrow> string \<Rightarrow> string \<Rightarrow> string \<Rightarrow> c_int \<Rightarrow> c_int \<Rightarrow> string \<Rightarrow> string \<Rightarrow> (string \<times> json_value) list" where
  "answer_members mac nwkey mic tcaddr keyseq chan pan extpan =
     [(''authorize'', VStr mac), (''key'', VStr nwkey), (''mic'', VStr mic), (''tcaddr'', VStr tcaddr), (''keyseq'', VInt keyseq),
      (''chan'', VInt chan), (''pan'', VStr pan), (''extpan'', VStr extpan)]"

lemma text_bounds: "ok_text n v \<Longrightarrow> length v \<le> n \<and> list_all plain_char v \<and> list_all text_char v \<and> v \<noteq> []"
  by (simp add: ok_text_def text_plain)

lemma linkinfo_wire:
  assumes "ok_text 16 mac" and "ok_text 32 linkkey" and "\<forall>i\<in>{ver, ty, prof}. 0 \<le> i \<and> i \<le> INT_MAX"
  shows "wire_message ''linkinfo'' (linkinfo_members ver ty prof mac linkkey)"
proof -
  have ints: "0 \<le> ver" "ver \<le> INT_MAX" "0 \<le> ty" "ty \<le> INT_MAX" "0 \<le> prof" "prof \<le> INT_MAX" using assms(3) by auto
  have digits: "length (c_itoa n) \<le> 11" if "0 \<le> n" "n \<le> INT_MAX" for n
    using that by (intro length_c_itoa) (simp_all add: INT_MIN_def)
  note d = digits [OF ints(1,2)] digits [OF ints(3,4)] digits [OF ints(5,6)]
  show ?thesis
    using text_bounds [OF assms(1)] text_bounds [OF assms(2)] d ints join_name_chars ctrl_name_chars
    by (simp add: wire_message_def linkinfo_members_def ok_message_def ok_member_def ok_name_def message_fits_def show_message_def
        show_member_def json_sizes MAXNAMEVALUE_def MAXJSONMESSAGE_def INT_MIN_def)
qed

lemma authorize_wire:
  assumes "ok_text 16 mac" and "ok_text 32 linkkey"
  shows "wire_message ''cmd'' (authorize_members mac linkkey)"
  using text_bounds [OF assms(1)] text_bounds [OF assms(2)] join_name_chars ctrl_name_chars
  by (simp add: wire_message_def authorize_members_def ok_message_def ok_member_def ok_name_def message_fits_def show_message_def
      show_member_def json_sizes MAXNAMEVALUE_def MAXJSONMESSAGE_def)

lemma answer_wire:
  assumes "ok_text 16 mac" and "ok_text 32 nwkey" and "ok_text 8 mic" and "ok_text 16 tcaddr" and "ok_text 4 pan" and "ok_text 16 extpan"
    and "0 \<le> keyseq \<and> keyseq < 256" and "0 \<le> chan \<and> chan < 256"
  shows "wire_message ''zcb'' (answer_members mac nwkey mic tcaddr keyseq chan pan extpan)"
proof -
  have digits: "length (c_itoa n) \<le> 11" if "0 \<le> n \<and> n < 256" for n
    using that by (intro length_c_itoa) (simp_all add: INT_MIN_def INT_MAX_def)
  show ?thesis
    using text_bounds [OF assms(1)] text_bounds [OF assms(2)] text_bounds [OF assms(3)] text_bounds [OF assms(4)]
      text_bounds [OF assms(5)] text_bounds [OF assms(6)] assms(7,8) digits [OF assms(7)] digits [OF assms(8)] join_name_chars ctrl_name_chars
    by (simp add: wire_message_def answer_members_def ok_message_def ok_member_def ok_name_def message_fits_def show_message_def
        show_member_def json_sizes MAXNAMEVALUE_def MAXJSONMESSAGE_def INT_MIN_def INT_MAX_def)
qed

section \<open>From the client to the control bridge\<close>

lemma maxlen_assigned: "string_maxlen (assign_members ms p) = string_maxlen p"
proof (induction ms arbitrary: p)
  case (Cons m ms)
  obtain k v where m: "m = (k, v)" by (cases m)
  have "string_maxlen (snd (parsingIntAttr k i p)) = string_maxlen p" for i
    by (simp add: string_maxlen_def fun_eq_iff)
  then show ?case using Cons.IH by (cases v) (simp_all add: m assign_members_def string_maxlen_parsingStringAttr)
qed (simp add: assign_members_def)

lemma string_blank:
  assumes "parsing_wf p" and "string_maxlen p k = Some n" and "k \<notin> fst ` set (string_members ms)"
  shows "parsingGetStringAttr (assign_members ms (parsingReset p)) k = Some []"
proof -
  let ?q = "assign_members ms (parsingReset p)"
  have "string_maxlen ?q k \<noteq> None" using assms(2) by (simp add: maxlen_assigned string_maxlen_reset)
  then obtain v where v: "parsingGetStringAttr ?q k = Some v" by (auto simp: string_maxlen_def parsingGetStringAttr_def split: option.splits)
  with string_absent [OF assms] have "v = []" by (auto simp: attr0_fetch string_fetch_def split: if_splits)
  with v show ?thesis by simp
qed

lemma linkinfo_read:
  assumes "ok_text 16 mac" and "ok_text 32 linkkey"
    and "sj_attrs s = assign_members (linkinfo_members ver ty prof mac linkkey) (parsingReset sj_attrs_start)"
  shows "\<exists>l. linkinfoHandle s = Some l \<and> li_mac l = mac \<and> li_linkkey l = linkkey"
proof -
  let ?ms = "linkinfo_members ver ty prof mac linkkey"
  have members: "string_members ?ms = [(''mac'', mac), (''linkkey'', linkkey)]" by (simp add: linkinfo_members_def)
  then have dist: "distinct (map fst (string_members ?ms))" by simp
  note present = string_present(2) [OF sj_wf sj_known(1) dist, of mac] string_present(2) [OF sj_wf sj_known(2) dist, of linkkey]
  have "parsingGetStringAttr (sj_attrs s) ''mac'' = Some mac" "parsingGetStringAttr (sj_attrs s) ''linkkey'' = Some linkkey"
    using present text_bounds [OF assms(1)] text_bounds [OF assms(2)] by (simp_all add: assms(3) members fits_maxlen_def)
  then show ?thesis by (simp add: linkinfoHandle_def)
qed

lemma zcb_cmd_known:
  "string_maxlen zcb_attrs_start ''authorize'' = Some 16" "string_maxlen zcb_attrs_start ''linkkey'' = Some 32"
  "string_maxlen zcb_attrs_start ''setpermit'' = Some 16" "string_maxlen zcb_attrs_start ''chanmask'' = Some 8"
  "int_known zcb_attrs_start ''reset''" "int_known zcb_attrs_start ''startnwk''" "int_known zcb_attrs_start ''getversion''"
  "int_known zcb_attrs_start ''getpermit''"
  using zcb_ints by (simp_all add: string_maxlen_limits zcb_strings int_known_map int_names_def)

lemma authorize_attributes:
  assumes "ok_text 16 mac" and "ok_text 32 linkkey"
  defines "p \<equiv> assign_members (authorize_members mac linkkey) (parsingReset zcb_attrs_start)"
  shows "parsingGetStringAttr p ''authorize'' = Some mac" "parsingGetStringAttr p ''linkkey'' = Some linkkey"
    "parsingGetStringAttr p ''setpermit'' = Some []" "parsingGetStringAttr p ''chanmask'' = Some []"
    "parsingGetIntAttr p ''reset'' = INT_MIN" "parsingGetIntAttr p ''startnwk'' = INT_MIN"
    "parsingGetIntAttr p ''getversion'' = INT_MIN" "parsingGetIntAttr p ''getpermit'' = INT_MIN"
proof -
  let ?ms = "authorize_members mac linkkey"
  have members: "string_members ?ms = [(''authorize'', mac), (''linkkey'', linkkey)]" "int_members ?ms = []"
    by (simp_all add: authorize_members_def)
  then have dist: "distinct (map fst (string_members ?ms))" by simp
  note present = string_present(2) [OF zcb_wf zcb_cmd_known(1) dist, of mac] string_present(2) [OF zcb_wf zcb_cmd_known(2) dist, of linkkey]
  show "parsingGetStringAttr p ''authorize'' = Some mac" "parsingGetStringAttr p ''linkkey'' = Some linkkey"
    using present text_bounds [OF assms(1)] text_bounds [OF assms(2)] by (simp_all add: p_def members fits_maxlen_def)
  show "parsingGetStringAttr p ''setpermit'' = Some []" "parsingGetStringAttr p ''chanmask'' = Some []"
    unfolding p_def by (simp_all add: string_blank [OF zcb_wf zcb_cmd_known(3)] string_blank [OF zcb_wf zcb_cmd_known(4)] members)
  show "parsingGetIntAttr p ''reset'' = INT_MIN" "parsingGetIntAttr p ''startnwk'' = INT_MIN"
    "parsingGetIntAttr p ''getversion'' = INT_MIN" "parsingGetIntAttr p ''getpermit'' = INT_MIN"
    unfolding p_def by (simp_all add: int_after_message [OF zcb_wf] zcb_cmd_known members)
qed

lemma authorize_handled:
  assumes "ok_text 16 (u642nibblestr u)" and "length key = 16"
    and "z_attrs z = assign_members (authorize_members (u642nibblestr u) (hex2nibblestr key)) (parsingReset zcb_attrs_start)"
  shows "zcb_cmdHandle env now z = Some (0, z\<lparr>z_requests := z_requests z @ [(0x0028, be64 u @ key)]\<rparr>)"
proof -
  have key: "ok_text 32 (hex2nibblestr key)" using nibble_text_hex(1) [of key] assms(2) by (intro nibble_text_ok) simp_all
  note attrs = authorize_attributes [OF assms(1) key, folded assms(3)]
  have hex: "nibblestr2hex (Some (replicate 20 0)) 16 (Some (hex2nibblestr key)) 32 = (1, Some (key @ replicate 4 0))"
    using assms(2) nibblestr2hex_loop_hex2nibblestr [of 0 0 key] by (simp add: nibblestr2hex_def signed_divide_int_def sgn_if and_one_eq)
  have mac: "u642nibblestr u \<noteq> []" using assms(1) by (auto simp: ok_text_def)
  let ?z = "z\<lparr>z_requests := z_requests z @ [(E_SL_MSG_AUTHENTICATE_DEVICE_REQUEST, be64 u @ key)]\<rparr>"
  have "cmd_authorize env z = Some ?z"
    using mac assms(2) by (simp add: cmd_authorize_def attrs hex eAuthenticateDevice_def)
  moreover have "cmd_reset env z = (Inr 0, z)" by (simp add: cmd_reset_def attrs INT_MIN_def)
  moreover have "cmd_setpermit env ?z = Some ?z" "cmd_chanmask env now ?z = Some ?z"
    by (simp_all add: cmd_setpermit_def cmd_chanmask_def attrs Let_def)
  ultimately show ?thesis
    by (simp add: zcb_cmdHandle_def attrs INT_MIN_def E_SL_MSG_AUTHENTICATE_DEVICE_REQUEST_def)
qed

section \<open>From the control bridge to the client\<close>

definition auth_response :: "u64 \<Rightarrow> u8 list \<Rightarrow> u8 list \<Rightarrow> u64 \<Rightarrow> u8 \<Rightarrow> u8 \<Rightarrow> u16 \<Rightarrow> u64 \<Rightarrow> u8 list" where
  "auth_response u nwkey mic tc keyseq chan pan extpan =
     be64 u @ nwkey @ mic @ be64 tc @ [keyseq, chan] @ be16 pan @ be64 extpan"

definition auth_members :: "u64 \<Rightarrow> u8 list \<Rightarrow> u8 list \<Rightarrow> u64 \<Rightarrow> u8 \<Rightarrow> u8 \<Rightarrow> u16 \<Rightarrow> u64 \<Rightarrow> (string \<times> json_value) list" where
  "auth_members u nwkey mic tc keyseq chan pan extpan =
     answer_members (u642nibblestr u) (hex2nibblestr nwkey) (hex2nibblestr mic) (u642nibblestr tc) (uint keyseq) (uint chan)
       (hex2nibblestr (be16 pan)) (u642nibblestr extpan)"

lemma nibble_texts:
  "ok_text 16 (u642nibblestr u)" "length bs = 16 \<Longrightarrow> ok_text 32 (hex2nibblestr bs)" "length bs = 4 \<Longrightarrow> ok_text 8 (hex2nibblestr bs)"
  "ok_text 4 (hex2nibblestr (be16 w))"
  using nibble_text_hex(1) [of bs] nibble_text_hex(1) [of "be16 w"] nibble_text_hex(2) [of u]
  by (auto intro!: nibble_text_ok simp: be16_def)

lemma auth_wire:
  assumes "length nwkey = 16" and "length mic = 4"
  shows "wire_message ''zcb'' (auth_members u nwkey mic tc keyseq chan pan extpan)"
  unfolding auth_members_def using uint_bounded [of keyseq] uint_bounded [of chan]
  by (intro answer_wire nibble_texts assms) simp_all

lemma dispatch_usable:
  "queue_usable (ze_mq env) key \<Longrightarrow> length m \<le> 298 \<Longrightarrow>
   dispatchMessage env key (Some m) s = Some (s\<lparr>z_ipc := (z_ipc s)\<lparr>q_msgs := (q_msgs (z_ipc s))(key := q_msgs (z_ipc s) key @ [m])\<rparr>\<rparr>)"
  by (auto simp: dispatchMessage_def queue_usable_def queueOpen_def queueWrite_def MAXMESSAGESIZE_def)

lemma auth_answered:
  fixes u tc extpan :: u64 and keyseq chan :: u8 and pan :: u16
  assumes "length nwkey = 16" and "length mic = 4" and "queue_usable (ze_mq env) QUEUE_KEY_SECURE_JOINER"
  defines "m \<equiv> show_message ''zcb'' (auth_members u nwkey mic tc keyseq chan pan extpan)"
  shows "zcb_listener env now 0x8028 (auth_response u nwkey mic tc keyseq chan pan extpan) len s
    = Some (s\<lparr>z_ipc := (z_ipc s)\<lparr>q_msgs := (q_msgs (z_ipc s))
        (QUEUE_KEY_SECURE_JOINER := q_msgs (z_ipc s) QUEUE_KEY_SECURE_JOINER @ [m])\<rparr>\<rparr>)"
proof -
  let ?m = "auth_response u nwkey mic tc keyseq chan pan extpan"
  have 1: "get64 ?m 0 = Some u" using get64_be64 [of "[]" u] by (simp add: auth_response_def)
  have 2: "get_bytes ?m 8 16 = Some nwkey" "get_bytes ?m 24 4 = Some mic"
    using assms(1,2) by (simp_all add: auth_response_def get_bytes_def)
  have 3: "get64 ?m 28 = Some tc"
    using get64_be64 [of "be64 u @ nwkey @ mic" tc "[keyseq, chan] @ be16 pan @ be64 extpan"] assms(1,2) by (simp add: auth_response_def)
  have 4: "get8 ?m 36 = Some keyseq" "get8 ?m 37 = Some chan"
    using assms(1,2) by (simp_all add: auth_response_def get8_def nth_append)
  have 5: "get16 ?m 38 = Some pan"
    using get16_be16 [of "be64 u @ nwkey @ mic @ be64 tc @ [keyseq, chan]" pan "be64 extpan"] assms(1,2) by (simp add: auth_response_def)
  have 6: "get64 ?m 40 = Some extpan"
    using get64_be64 [of "be64 u @ nwkey @ mic @ be64 tc @ [keyseq, chan] @ be16 pan" extpan "[]"] assms(1,2)
    by (simp add: auth_response_def be16_def)
  note wire = auth_wire [OF assms(1,2), of u tc keyseq chan pan extpan]
  have json: "jsonZcbAuthorizeResponse (u642nibblestr u) (hex2nibblestr nwkey) (hex2nibblestr mic) (u642nibblestr tc)
      (uint keyseq) (uint chan) (hex2nibblestr (be16 pan)) (u642nibblestr extpan) = Some m"
    using wire_json [OF wire] by (simp add: jsonZcbAuthorizeResponse_def m_def auth_members_def answer_members_def)
  have "length m \<le> 298" using wire_length [OF wire] by (simp add: m_def)
  note dispatch_usable [OF assms(3) this, of s]
  then show ?thesis by (simp add: zcb_listener_def HandleAuthResponse_def 1 2 3 4 5 6 json)
qed

lemma answer_parsed:
  assumes "ok_message nm ms"
  shows "sj_zcb_eat (json_init h) (show_message nm ms) z
    = fold sj_zcb_callback (message_events nm ms) z"
proof -
  have "jsonReset ((json_init h)\<lparr>p_on := all_handlers\<rparr>) = jsonReset (json_init all_handlers)"
    by (simp add: jsonReset_def json_init_def poke_def)
  then have "p_trace (jsonEats (show_message nm ms) ((jsonReset ((json_init h)\<lparr>p_on := all_handlers\<rparr>))\<lparr>p_trace := []\<rparr>)) = message_events nm ms"
    using eat_message [OF at_top_start assms] by (simp add: at_top_def)
  then show ?thesis by (simp add: sj_zcb_eat_def)
qed

lemma auth_parsed:
  assumes "length nwkey = 16" and "length mic = 4"
  shows "sj_zcb_eat (json_init h) (show_message ''zcb'' (auth_members u nwkey mic tc keyseq chan pan extpan)) z
    = \<lparr>zcbOk = True, za_keyseq = uint keyseq, za_channel = uint chan, za_authorize = u642nibblestr u,
        za_nwkey = hex2nibblestr nwkey, za_mic = hex2nibblestr mic, za_tcaddress = u642nibblestr tc,
        za_pan = hex2nibblestr (be16 pan), za_extpan = u642nibblestr extpan\<rparr>"
proof -
  have "ok_message ''zcb'' (auth_members u nwkey mic tc keyseq chan pan extpan)"
    using auth_wire [OF assms] by (simp add: wire_message_def)
  note answer_parsed [OF this, of h z]
  moreover have "uint keyseq \<noteq> - 1" "uint chan \<noteq> - 1" using uint_ge_0 [of keyseq] uint_ge_0 [of chan] by linarith+
  moreover have "u642nibblestr w \<noteq> []" for w using length_u642nibblestr [of w] by (metis list.size(3) zero_neq_numeral)
  moreover have "hex2nibblestr nwkey \<noteq> []" "hex2nibblestr mic \<noteq> []" using assms
    by (metis length_hex2nibblestr list.size(3) mult_eq_0_iff zero_neq_numeral)+
  moreover have "length (hex2nibblestr (be16 pan)) = 4" by (simp add: be16_def)
  moreover have "hex2nibblestr (be16 pan) \<noteq> []" by (simp add: be16_def)
  ultimately show ?thesis
    using assms
    by (simp add: message_events_def auth_members_def answer_members_def sj_zcb_onString_def sj_zcb_onInteger_def
        sj_zcb_onObjectStart_def sj_zcb_onObjectComplete_def answer_complete_def)
qed

lemma timed_read:
  assumes "0 < length m \<and> length m \<le> 298" and "0 < msec"
  shows "queueReadWithMsecTimeout MAXMESSAGESIZE msec (Some m # outs) = Some (int (length m), Some m)"
proof -
  have "received MAXMESSAGESIZE m = m" using assms(1) by (intro received_all) (simp_all add: MAXMESSAGESIZE_def)
  then show ?thesis using assms by (cases outs) (auto simp: queueReadWithMsecTimeout_def)
qed

lemma commission_answered:
  assumes "queue_usable (sj_mq env) QUEUE_KEY_ZCB_IN" and "queue_usable (sj_mq env) QUEUE_KEY_SECURE_JOINER"
    and "joiner_flush (sj_flush env)" and "sj_answer env = Some m # rest" and "0 < length m \<and> length m \<le> 298"
    and "strtoupper mac = mac" and "jsonCmdAuthorizeRequest mac linkkey = Some req" and "length req \<le> 298"
    and "commission_response mac (sj_zcb_eat p2 m ((sj_zcb s)\<lparr>zcbOk := False\<rparr>)) = Some r"
  shows "\<exists>t. commission env p2 mac linkkey s = Some t \<and> sj_sent t = sj_sent s @ [r]
    \<and> q_msgs (sj_ipc t) = (q_msgs (sj_ipc s))(QUEUE_KEY_ZCB_IN := q_msgs (sj_ipc s) QUEUE_KEY_ZCB_IN @ [req])"
proof -
  have "queueOpen (sj_mq env) QUEUE_KEY_SECURE_JOINER (sj_ipc s) = (Some QUEUE_KEY_SECURE_JOINER, sj_ipc s)"
    using assms(2) by (auto simp: queue_usable_def queueOpen_def)
  then show ?thesis
    using assms by (simp add: commission_def timed_read)
qed

definition join_members :: "u8 \<Rightarrow> u8 \<Rightarrow> u16 \<Rightarrow> u64 \<Rightarrow> u8 list \<Rightarrow> u8 list \<Rightarrow> u64 \<Rightarrow> (string \<times> json_value) list" where
  "join_members chan keyseq pan extpan nwkey mic tc =
     [(''chan'', VInt (uint chan)), (''keyseq'', VInt (uint keyseq)), (''pan'', VStr (hex2nibblestr (be16 pan))),
      (''extpan'', VStr (u642nibblestr extpan)), (''nwkey'', VStr (hex2nibblestr nwkey)), (''mic'', VStr (hex2nibblestr mic)),
      (''tcaddr'', VStr (u642nibblestr tc))]"

lemma join_wire:
  assumes "length nwkey = 16" and "length mic = 4"
  shows "wire_message ''joinsecure'' (join_members chan keyseq pan extpan nwkey mic tc)"
proof -
  note texts = nibble_texts(1) [of extpan] nibble_texts(1) [of tc] nibble_texts(2) [OF assms(1)] nibble_texts(3) [OF assms(2)] nibble_texts(4) [of pan]
  have small: "- 2147483648 \<le> uint w \<and> 0 \<le> uint w \<and> uint w < 256" for w :: u8 using uint_bounded [of w] uint_ge_0 [of w] by (intro conjI) (linarith | simp)+
  have digits: "length (c_itoa (uint w)) \<le> 11" for w :: u8
    using small [of w] unfolding INT_MIN_def INT_MAX_def by (intro length_c_itoa) (unfold INT_MIN_def INT_MAX_def, linarith+)
  show ?thesis
    using texts [THEN text_bounds] small [of chan] small [of keyseq] join_name_chars digits [of chan] digits [of keyseq]
    by (simp add: wire_message_def join_members_def ok_message_def ok_member_def ok_name_def message_fits_def show_message_def
        show_member_def json_sizes MAXNAMEVALUE_def MAXJSONMESSAGE_def INT_MIN_def INT_MAX_def)
qed

lemma join_written:
  "length nwkey = 16 \<Longrightarrow> length mic = 4 \<Longrightarrow>
   jsonJoinSecure (uint chan) (uint keyseq) (hex2nibblestr (be16 pan)) (u642nibblestr extpan) (hex2nibblestr nwkey) (hex2nibblestr mic) (u642nibblestr tc)
   = Some (show_message ''joinsecure'' (join_members chan keyseq pan extpan nwkey mic tc))"
  using wire_json [OF join_wire] by (simp add: jsonJoinSecure_def join_members_def)

section \<open>Joining\<close>

text \<open>
  C4: A device joins: a client's link information, for any address and 16-byte link key, makes
  the secure joiner send a request which, read by the Zigbee daemon, asks the control bridge to
  authenticate exactly that address with exactly that key; whatever the bridge answers for the
  device (network key, check code, trust centre, key number, channel, both network
  identifiers) is put on the joiner's queue, and when the joiner reads it, the client gets one
  message, with exactly these values.
\<close>

theorem device_joins:
  fixes u tc extpan :: u64 and keyseq chan :: u8 and pan :: u16
  assumes "length key = 16" and "length nwkey = 16" and "length mic = 4" and "\<forall>i\<in>{ver, ty, prof}. 0 \<le> i \<and> i \<le> INT_MAX"
    and "parsingReset (sj_attrs s) = parsingReset sj_attrs_start" and "parsingReset (z_attrs z) = parsingReset zcb_attrs_start"
    and "queue_usable (sj_mq env) QUEUE_KEY_ZCB_IN" and "queue_usable (sj_mq env) QUEUE_KEY_SECURE_JOINER"
    and "queue_usable (ze_mq zenv) QUEUE_KEY_SECURE_JOINER" and "joiner_flush (sj_flush env)"
  shows "\<exists>input request answer reply attrs t.
      jsonLinkInfo ver ty prof (u642nibblestr u) (hex2nibblestr key) = Some input
    \<and> zcb_turn zenv now (Some request # polls) (json_init all_handlers) start z
        = Some (start, z\<lparr>z_attrs := attrs, z_requests := z_requests z @ [(0x0028, be64 u @ key)]\<rparr>)
    \<and> zcb_listener zenv now 0x8028 (be64 u @ nwkey @ mic @ be64 tc @ [keyseq, chan] @ be16 pan @ be64 extpan) len z'
        = Some (z'\<lparr>z_ipc := (z_ipc z')\<lparr>q_msgs := (q_msgs (z_ipc z'))
            (QUEUE_KEY_SECURE_JOINER := q_msgs (z_ipc z') QUEUE_KEY_SECURE_JOINER @ [answer])\<rparr>\<rparr>)
    \<and> sj_handleClient (env\<lparr>sj_answer := Some answer # rest\<rparr>) (json_init h) input (json_init all_handlers) s = Some t
    \<and> q_msgs (sj_ipc t) = (q_msgs (sj_ipc s))(QUEUE_KEY_ZCB_IN := q_msgs (sj_ipc s) QUEUE_KEY_ZCB_IN @ [request])
    \<and> jsonJoinSecure (uint chan) (uint keyseq) (hex2nibblestr (be16 pan)) (u642nibblestr extpan) (hex2nibblestr nwkey)
        (hex2nibblestr mic) (u642nibblestr tc) = Some reply
    \<and> sj_sent t = sj_sent s @ [reply]"
proof -
  let ?mac = "u642nibblestr u" let ?key = "hex2nibblestr key"
  let ?lms = "linkinfo_members ver ty prof ?mac ?key" and ?ams = "authorize_members ?mac ?key"
  let ?zms = "auth_members u nwkey mic tc keyseq chan pan extpan"
  define request where "request = show_message ''cmd'' ?ams"
  define answer where "answer = show_message ''zcb'' ?zms"
  have texts: "ok_text 16 ?mac" "ok_text 32 ?key" using nibble_texts(1) nibble_texts(2) [OF assms(1)] by simp_all
  note lw = linkinfo_wire [OF texts assms(4)] and aw = authorize_wire [OF texts] and zw = auth_wire [OF assms(2,3), of u tc keyseq chan pan extpan]
  have req: "jsonCmdAuthorizeRequest ?mac ?key = Some request" "0 < length request" "length request \<le> 298"
    using wire_json [OF aw] wire_length [OF aw] by (simp_all add: request_def jsonCmdAuthorizeRequest_def authorize_members_def)
  have input: "jsonLinkInfo ver ty prof ?mac ?key = Some (show_message ''linkinfo'' ?lms)"
    using wire_json [OF lw] by (simp add: jsonLinkInfo_def linkinfo_members_def)
  obtain reply where reply: "jsonJoinSecure (uint chan) (uint keyseq) (hex2nibblestr (be16 pan)) (u642nibblestr extpan)
      (hex2nibblestr nwkey) (hex2nibblestr mic) (u642nibblestr tc) = Some reply"
    using join_written [OF assms(2,3)] by blast
  have turn: "zcb_turn zenv now (Some request # polls) (json_init all_handlers) start z = Some (start,
      z\<lparr>z_attrs := assign_members ?ams (parsingReset zcb_attrs_start), z_requests := z_requests z @ [(0x0028, be64 u @ key)]\<rparr>)"
    using aw assms(6) authorize_handled [OF texts(1) assms(1), of "z\<lparr>z_attrs := assign_members ?ams (parsingReset zcb_attrs_start)\<rparr>" zenv now]
    unfolding zcb_turn_message [OF req(2,3)]
    by (simp add: request_def wire_message_def zcb_eat_message zcb_onObjectComplete_def)
  have listened: "zcb_listener zenv now 0x8028 (be64 u @ nwkey @ mic @ be64 tc @ [keyseq, chan] @ be16 pan @ be64 extpan) len z'
      = Some (z'\<lparr>z_ipc := (z_ipc z')\<lparr>q_msgs := (q_msgs (z_ipc z'))
          (QUEUE_KEY_SECURE_JOINER := q_msgs (z_ipc z') QUEUE_KEY_SECURE_JOINER @ [answer])\<rparr>\<rparr>)"
    unfolding answer_def by (rule auth_answered [OF assms(2,3,9), unfolded auth_response_def])
  let ?env = "env\<lparr>sj_answer := Some answer # rest\<rparr>"
  let ?s = "s\<lparr>sj_ipc := (sj_ipc s)\<lparr>q_error := IOT_ERROR_NONE\<rparr>, sj_attrs := assign_members ?lms (parsingReset (sj_attrs s))\<rparr>"
  obtain l where l: "linkinfoHandle ?s = Some l" "li_mac l = ?mac" "li_linkkey l = ?key"
    using linkinfo_read [OF texts, of ?s ver ty prof] assms(5) by auto
  have upper: "strtoupper ?mac = ?mac" using nibble_text_hex(2) by (rule nibble_text_upper)
  let ?s' = "?s\<lparr>sj_linkinfo := l\<lparr>li_mac := strtoupper (li_mac l)\<rparr>\<rparr>"
  have "commission_response ?mac (sj_zcb_eat (json_init h) answer ((sj_zcb ?s')\<lparr>zcbOk := False\<rparr>)) = Some reply"
    unfolding answer_def auth_parsed [OF assms(2,3)] by (simp add: commission_response_def reply)
  from commission_answered [of ?env _ rest ?mac ?key request "json_init h" ?s', OF _ _ _ _ _ upper req(1,3) this] assms(7,8,10) wire_length [OF zw]
  obtain t where t: "commission ?env (json_init h) ?mac ?key ?s' = Some t" "sj_sent t = sj_sent s @ [reply]"
      "q_msgs (sj_ipc t) = (q_msgs (sj_ipc s))(QUEUE_KEY_ZCB_IN := q_msgs (sj_ipc s) QUEUE_KEY_ZCB_IN @ [request])"
    by (auto simp: answer_def)
  have "sj_handleClient ?env (json_init h) (show_message ''linkinfo'' ?lms) (json_init all_handlers) s = Some t"
    using sj_handle_message [of "''linkinfo''" ?lms ?env "json_init h" s] lw l t(1) by (simp add: wire_message_def sj_onObjectComplete_def)
  with input turn listened reply t(2,3) show ?thesis by blast
qed

theorem device_joins_witness:
  "\<exists>env p2 input s request answer reply t. jsonLinkInfo 0 0 0 (u642nibblestr 0x0011223344556677) (hex2nibblestr (replicate 16 7)) = Some input
     \<and> sj_handleClient (env\<lparr>sj_answer := [Some answer]\<rparr>) p2 input (json_init all_handlers) s = Some t
     \<and> q_msgs (sj_ipc t) QUEUE_KEY_ZCB_IN = [request] \<and> sj_sent t = [reply]"
proof -
  let ?env = "\<lparr>sj_mq = \<lparr>env_get = \<lambda>_. GET_OK, env_snd = \<lambda>_. True\<rparr>, sj_flush = [[None, None]], sj_answer = []\<rparr>"
  let ?s = "\<lparr>sj_attrs = sj_attrs_start, sj_linkinfo = undefined, sj_zcb = undefined, sj_ipc = \<lparr>q_msgs = \<lambda>_. [], q_error = 0\<rparr>, sj_sent = []\<rparr>"
  let ?z = "zcb_start\<lparr>z_attrs := zcb_attrs_start\<rparr>"
  have flush: "joiner_flush (sj_flush ?env)"
    by (simp add: queueReadWithMsecTimeout_def QREAD_POLL_def)
  have keys: "length (replicate 16 (7 :: u8)) = 16" "length (replicate 16 (3 :: u8)) = 16" "length (replicate 4 (1 :: u8)) = 4"
    "\<forall>i\<in>{0, 0, 0 :: c_int}. 0 \<le> i \<and> i \<le> INT_MAX" by (simp_all add: INT_MAX_def)
  have states: "parsingReset (sj_attrs ?s) = parsingReset sj_attrs_start" "parsingReset (z_attrs ?z) = parsingReset zcb_attrs_start" by simp_all
  have queues: "queue_usable (sj_mq ?env) QUEUE_KEY_ZCB_IN" "queue_usable (sj_mq ?env) QUEUE_KEY_SECURE_JOINER"
    "queue_usable (ze_mq zcb_env_ok) QUEUE_KEY_SECURE_JOINER"
    by (simp_all add: queue_usable_def zcb_env_ok_def)
  have empty: "q_msgs (sj_ipc ?s) = (\<lambda>_. [])" "sj_sent ?s = []" by simp_all
  from device_joins [OF keys states queues flush, of "0x0011223344556677" 7 "[]" 0 9 0 15 "0x1234" 1 48 ?z "[]" undefined]
  obtain input request answer reply t where
    "jsonLinkInfo 0 0 0 (u642nibblestr 0x0011223344556677) (hex2nibblestr (replicate 16 7)) = Some input"
    "sj_handleClient (?env\<lparr>sj_answer := [Some answer]\<rparr>) (json_init undefined) input (json_init all_handlers) ?s = Some t"
    "q_msgs (sj_ipc t) = (q_msgs (sj_ipc ?s))(QUEUE_KEY_ZCB_IN := q_msgs (sj_ipc ?s) QUEUE_KEY_ZCB_IN @ [request])"
    "sj_sent t = sj_sent ?s @ [reply]" by blast
  then show ?thesis unfolding empty by (intro exI conjI) (assumption | simp)+
qed

section \<open>Refusals\<close>

definition answer_sized :: "zcb_answer \<Rightarrow> bool" where
  "answer_sized z \<longleftrightarrow> INT_MIN \<le> za_keyseq z \<and> za_keyseq z \<le> INT_MAX \<and> INT_MIN \<le> za_channel z \<and> za_channel z \<le> INT_MAX
     \<and> length (za_nwkey z) \<le> 32 \<and> length (za_mic z) \<le> 8 \<and> length (za_tcaddress z) \<le> 16 \<and> length (za_pan z) \<le> 4
     \<and> length (za_extpan z) \<le> 16"

lemma members_sized: "list_all ok_member ms \<Longrightarrow> answer_sized z \<Longrightarrow>
  answer_sized (fold sj_zcb_callback (map member_event ms) z) \<and> zcbOk (fold sj_zcb_callback (map member_event ms) z) = zcbOk z"
proof (induction ms arbitrary: z)
  case (Cons m ms)
  obtain k v where m: "m = (k, v)" by (cases m)
  have "answer_sized (sj_zcb_callback (member_event m) z) \<and> zcbOk (sj_zcb_callback (member_event m) z) = zcbOk z"
    using Cons.prems by (cases v) (auto simp: m ok_member_def answer_sized_def sj_zcb_onString_def sj_zcb_onInteger_def)
  with Cons show ?case by simp
qed simp

lemma message_sized:
  fixes nm :: string
  assumes "list_all ok_member ms" and "\<not> zcbOk z"
  defines "z' \<equiv> fold sj_zcb_callback (message_events nm ms) z"
  shows "answer_sized z'" and "zcbOk z' = answer_complete z'"
proof -
  let ?z = "fold sj_zcb_callback (map member_event ms) (sj_zcb_onObjectStart z)"
  have "answer_sized (sj_zcb_onObjectStart z)" by (simp add: answer_sized_def sj_zcb_onObjectStart_def INT_MIN_def INT_MAX_def)
  from members_sized [OF assms(1) this] assms(2) have "answer_sized ?z" "\<not> zcbOk ?z" by (simp_all add: sj_zcb_onObjectStart_def)
  moreover have "z' = sj_zcb_onObjectComplete ?z" by (simp add: z'_def message_events_def)
  ultimately show "answer_sized z'" "zcbOk z' = answer_complete z'"
    by (auto simp: sj_zcb_onObjectComplete_def answer_sized_def answer_complete_def)
qed

lemma join_secure_sized:
  assumes "answer_sized z"
  shows "\<exists>r. jsonJoinSecure (za_channel z) (za_keyseq z) (za_pan z) (za_extpan z) (za_nwkey z) (za_mic z) (za_tcaddress z) = Some r"
proof -
  let ?ms = "[(''chan'', VInt (za_channel z)), (''keyseq'', VInt (za_keyseq z)), (''pan'', VStr (za_pan z)),
    (''extpan'', VStr (za_extpan z)), (''nwkey'', VStr (za_nwkey z)), (''mic'', VStr (za_mic z)), (''tcaddr'', VStr (za_tcaddress z))]"
  have "length (c_itoa (za_channel z)) \<le> 11" "length (c_itoa (za_keyseq z)) \<le> 11"
    using assms by (auto simp: answer_sized_def intro: length_c_itoa)
  then have "message_fits ''joinsecure'' ?ms"
    using assms by (simp add: answer_sized_def message_fits_def show_message_def show_member_def MAXNAMEVALUE_def MAXJSONMESSAGE_def)
  then show ?thesis using json_msg_show [of "''joinsecure''" ?ms] by (simp add: jsonJoinSecure_def)
qed

lemma error_written: "\<exists>r. jsonCreateError 4 = Some r" "\<exists>r. jsonCreateError 5 = Some r"
proof -
  have "\<not> Option.is_none (jsonCreateError 4)" "\<not> Option.is_none (jsonCreateError 5)" by code_simp+
  then show "\<exists>r. jsonCreateError 4 = Some r" "\<exists>r. jsonCreateError 5 = Some r" by (auto simp: Option.is_none_def)
qed

lemma commission_unsent:
  assumes "fst (queueOpen (sj_mq env) QUEUE_KEY_SECURE_JOINER (sj_ipc s)) = None \<or> \<not> queue_usable (sj_mq env) QUEUE_KEY_ZCB_IN"
    and "commission env p mac linkkey s = Some t"
  shows "sj_sent t = sj_sent s"
  using assms queueWriteOneMessage_unusable [of "sj_mq env" QUEUE_KEY_ZCB_IN]
  by (auto simp: commission_def Let_def split: option.splits prod.splits if_splits bool.splits)

text \<open>
  C17: A client never gets the credentials of another device, and gets an answer whenever the request
  could be passed on: with both queues usable, when the reply on the joiner's queue is
  any one message of up to eight members, the client gets the join message exactly if all
  eight fields have come and the address is the one that was asked for, with the fields of that
  reply; otherwise it gets the error for a wrong answer, and when nothing comes for two seconds
  the error for a timeout.  But when the joiner's queue cannot be opened, or the daemon's queue
  cannot be opened or written, the client is sent nothing at all.
\<close>

theorem join_refused:
  fixes s :: sj_state
  assumes "queue_usable (sj_mq env) QUEUE_KEY_ZCB_IN" and "queue_usable (sj_mq env) QUEUE_KEY_SECURE_JOINER"
    and "joiner_flush (sj_flush env)" and "ok_text 16 mac" and "strtoupper mac = mac" and "ok_text 32 linkkey"
    and "ok_message nm ms" and "length (show_message nm ms) \<le> 298"
  defines "z \<equiv> fold sj_zcb_callback (message_events nm ms) ((sj_zcb s)\<lparr>zcbOk := False\<rparr>)"
  shows "(\<exists>t r. commission (env\<lparr>sj_answer := Some (show_message nm ms) # rest\<rparr>) (json_init h) mac linkkey s = Some t
      \<and> sj_sent t = sj_sent s @ [r]
      \<and> (if answer_complete z \<and> za_authorize z = mac
         then jsonJoinSecure (za_channel z) (za_keyseq z) (za_pan z) (za_extpan z) (za_nwkey z) (za_mic z) (za_tcaddress z) = Some r
         else jsonCreateError IOT_ERROR_AUTHORIZE_RESPONSE = Some r))
    \<and> (\<exists>t r. commission (env\<lparr>sj_answer := replicate 40 None\<rparr>) (json_init h) mac linkkey s = Some t
      \<and> sj_sent t = sj_sent s @ [r] \<and> jsonCreateError IOT_ERROR_AUTHORIZE_TIMEOUT = Some r)
    \<and> (\<forall>env' p t. (fst (queueOpen (sj_mq env') QUEUE_KEY_SECURE_JOINER (sj_ipc s)) = None
          \<or> \<not> queue_usable (sj_mq env') QUEUE_KEY_ZCB_IN)
        \<and> commission env' p mac linkkey s = Some t \<longrightarrow> sj_sent t = sj_sent s)"
proof -
  note aw = authorize_wire [OF assms(4,6)]
  have req: "jsonCmdAuthorizeRequest mac linkkey = Some (show_message ''cmd'' (authorize_members mac linkkey))"
      "length (show_message ''cmd'' (authorize_members mac linkkey)) \<le> 298"
    using wire_json [OF aw] wire_length [OF aw] by (simp_all add: jsonCmdAuthorizeRequest_def authorize_members_def)
  have len: "0 < length (show_message nm ms) \<and> length (show_message nm ms) \<le> 298" using assms(8) by (simp add: show_message_def)
  have members: "list_all ok_member ms" using assms(7) by (simp add: ok_message_def)
  note sized = message_sized [OF members, of "(sj_zcb s)\<lparr>zcbOk := False\<rparr>" nm, folded z_def, simplified]
  have eat: "sj_zcb_eat (json_init h) (show_message nm ms) ((sj_zcb s)\<lparr>zcbOk := False\<rparr>) = z"
    unfolding z_def by (rule answer_parsed [OF assms(7)])
  obtain r where r: "commission_response mac z = Some r"
    "if answer_complete z \<and> za_authorize z = mac
     then jsonJoinSecure (za_channel z) (za_keyseq z) (za_pan z) (za_extpan z) (za_nwkey z) (za_mic z) (za_tcaddress z) = Some r
     else jsonCreateError IOT_ERROR_AUTHORIZE_RESPONSE = Some r"
    using join_secure_sized [OF sized(1)] error_written(2) sized(2)
    by (cases "za_authorize z = mac") (auto simp: commission_response_def IOT_ERROR_AUTHORIZE_RESPONSE_def)
  let ?env = "env\<lparr>sj_answer := Some (show_message nm ms) # rest\<rparr>"
  have "\<exists>t. commission ?env (json_init h) mac linkkey s = Some t \<and> sj_sent t = sj_sent s @ [r]"
    using commission_answered [of ?env _ rest mac linkkey _ "json_init h" s r, OF _ _ _ _ len assms(5) req] assms(1-3) eat r(1) by auto
  moreover have "queueReadWithMsecTimeout MAXMESSAGESIZE 2000 (replicate 40 None) = Some (- 1, None)"
    using queueReadPoll_timeout [of 2000 0 40 MAXMESSAGESIZE None "[]"] by (simp add: queueReadWithMsecTimeout_def)
  moreover have "queueOpen (sj_mq env) QUEUE_KEY_SECURE_JOINER (sj_ipc s) = (Some QUEUE_KEY_SECURE_JOINER, sj_ipc s)"
    using assms(2) by (auto simp: queue_usable_def queueOpen_def)
  ultimately have answers: "(\<exists>t. commission ?env (json_init h) mac linkkey s = Some t \<and> sj_sent t = sj_sent s @ [r])
    \<and> (\<exists>t r. commission (env\<lparr>sj_answer := replicate 40 None\<rparr>) (json_init h) mac linkkey s = Some t
      \<and> sj_sent t = sj_sent s @ [r] \<and> jsonCreateError IOT_ERROR_AUTHORIZE_TIMEOUT = Some r)"
    using error_written(1) assms(1,3,5) req by (auto simp: commission_def IOT_ERROR_AUTHORIZE_TIMEOUT_def)
  from answers r(2) commission_unsent show ?thesis by blast
qed

theorem join_refused_witness:
  "\<exists>env s t r. commission env (json_init all_handlers) ''0011223344556677'' ''00112233445566778899AABBCCDDEEFF'' s = Some t
     \<and> sj_sent t = [r] \<and> jsonCreateError IOT_ERROR_AUTHORIZE_RESPONSE = Some r"
proof -
  let ?env = "\<lparr>sj_mq = \<lparr>env_get = \<lambda>_. GET_OK, env_snd = \<lambda>_. True\<rparr>, sj_flush = [[None, None]], sj_answer = []\<rparr>"
  let ?s = "\<lparr>sj_attrs = sj_attrs_start, sj_linkinfo = undefined, sj_zcb = undefined, sj_ipc = \<lparr>q_msgs = \<lambda>_. [], q_error = 0\<rparr>, sj_sent = []\<rparr>"
  let ?ms = "[(''chan'', VInt 15)]"
  have flush: "joiner_flush (sj_flush ?env)" by (simp add: queueReadWithMsecTimeout_def QREAD_POLL_def)
  have queues: "queue_usable (sj_mq ?env) QUEUE_KEY_ZCB_IN" "queue_usable (sj_mq ?env) QUEUE_KEY_SECURE_JOINER"
    by (simp_all add: queue_usable_def)
  have texts: "ok_text 16 ''0011223344556677''" "strtoupper ''0011223344556677'' = ''0011223344556677''"
    "ok_text 32 ''00112233445566778899AABBCCDDEEFF''" by code_simp+
  have answer: "ok_message ''zcb'' ?ms" "length (show_message ''zcb'' ?ms) \<le> 298" by code_simp+
  have partly: "\<not> answer_complete (fold sj_zcb_callback (message_events ''zcb'' ?ms) z)" for z
    by (simp add: message_events_def sj_zcb_onObjectStart_def sj_zcb_onInteger_def sj_zcb_onObjectComplete_def answer_complete_def)
  have empty: "sj_sent ?s = []" by simp
  from join_refused [OF queues flush texts answer, of "[]" all_handlers ?s]
  show ?thesis unfolding empty by (auto simp: partly)
qed

end
