(* ===== verification/Ndef.thy ===== *)
theory Ndef
  imports ZcbState
begin

text \<open>
  The NDEF layer of the NFC daemon (\<open>daemons/nfcRPiAlt/ndef.c\<close>): reading the URI and the payload
  of a tag, and writing them back.  How a tag answers a command is an argument: \<open>tx\<close> is the
  call \<open>nfcTag_transceive\<close> of the reader's library, from a command and a state of the tag to
  the result of the call, the bytes of the answer and the state afterwards.  \<open>None\<close> is an
  access outside the buffers.
\<close>

section \<open>Layout\<close>

definition NDEF_MAX_SIZE :: nat where "NDEF_MAX_SIZE = 2048"
definition NDEF_MAX_PAYLOAD :: nat where "NDEF_MAX_PAYLOAD = 2048"
definition NDEF_MAX_URI :: nat where "NDEF_MAX_URI = 40"
definition NDEF_OFFSET :: nat where "NDEF_OFFSET = 4"

lemmas ndef_sizes = NDEF_MAX_SIZE_def NDEF_MAX_PAYLOAD_def NDEF_MAX_URI_def NDEF_OFFSET_def

type_synonym 't transceive = "u8 list \<Rightarrow> 't \<Rightarrow> (c_int \<times> u8 list) \<times> 't"

text \<open>A command that reads sixteen bytes; the address is a byte and counts in fours.\<close>

definition read_cmd :: "nat \<Rightarrow> u8 list" where
  "read_cmd i = [0x30, word_of_nat (i * 4 + NDEF_OFFSET)]"

definition write_cmd :: "nat \<Rightarrow> u8 list \<Rightarrow> u8 list" where
  "write_cmd i d = [0xA2, word_of_nat (i + NDEF_OFFSET)] @ d"

text \<open>The length of the message and where it starts, from the first two or four bytes.\<close>

definition tag_header :: "u8 list \<Rightarrow> nat \<times> nat" where
  "tag_header cache = (if cache ! 1 = 0xFF then (unat (cache ! 2) * 256 + unat (cache ! 3), 4) else (unat (cache ! 1), 2))"

text \<open>The sizes of the URI and of the payload, an \<open>int\<close>, and where the URI starts.\<close>

definition tag2local_uint32 :: "u32 \<Rightarrow> u32" where
  "tag2local_uint32 t = push_bit 24 (t AND 0xFF) + push_bit 8 (t AND 0xFF00) + drop_bit 8 (t AND 0xFF0000) + (drop_bit 24 t AND 0xFF)"

definition local_uint32 :: "u8 list \<Rightarrow> u32" where
  "local_uint32 bs = ucast (bs ! 0) + push_bit 8 (ucast (bs ! 1)) + push_bit 16 (ucast (bs ! 2)) + push_bit 24 (ucast (bs ! 3))"

definition ndef_header :: "u8 list \<Rightarrow> nat \<Rightarrow> nat \<times> c_int \<times> nat" where
  "ndef_header cache at = (if cache ! at AND 0x10 \<noteq> 0
     then (unat (cache ! (at + 1)), uint (cache ! (at + 2)), at + 3)
     else (unat (cache ! (at + 1)), sint (tag2local_uint32 (local_uint32 (drop (at + 2) cache))), at + 6))"

section \<open>Reading\<close>

text \<open>The blocks behind the first, until one cannot be read; \<open>n\<close> blocks from block \<open>i\<close>.\<close>

fun read_blocks :: "'t transceive \<Rightarrow> nat \<Rightarrow> nat \<Rightarrow> u8 list \<Rightarrow> 't \<Rightarrow> (bool \<times> u8 list \<times> 't) option" where
  "read_blocks tx 0 i cache t = Some (True, cache, t)"
| "read_blocks tx (Suc n) i cache t =
     (if i * 16 + 16 > NDEF_MAX_SIZE then None
      else (case tx (read_cmd i) t of ((num, r), t') \<Rightarrow>
        let cache' = overwrite (i * 16) (take 16 r) cache in
        if num \<noteq> 0 then read_blocks tx n (i + 1) cache' t' else Some (False, cache', t')))"

definition cut_out :: "u8 list \<Rightarrow> nat \<Rightarrow> (c_int \<times> u8 list \<times> u8 list) option" where
  "cut_out cache at = (case ndef_header cache at of (uri_len, plen, start) \<Rightarrow>
     let uri = (if uri_len < NDEF_MAX_URI then take uri_len (drop start cache) else [])
     in if plen < int NDEF_MAX_PAYLOAD
        then (if plen < 0 \<or> start + uri_len + nat plen > NDEF_MAX_SIZE then None
              else Some (plen, take (nat plen) (drop (start + uri_len) cache), uri))
        else Some (plen, [], uri))"

text \<open>The result, the payload and the URI that were stored, the cache and the tag.\<close>

definition ndef_read :: "'t transceive \<Rightarrow> u8 list \<Rightarrow> 't \<Rightarrow> ((c_int \<times> u8 list \<times> u8 list) \<times> u8 list \<times> 't) option" where
  "ndef_read tx cache t = (case tx (read_cmd 0) t of ((num, r), t1) \<Rightarrow>
     let c1 = overwrite 0 (take 16 r) cache in
     if num = 0 then Some ((- 1, [], []), c1, t1)
     else if c1 ! 0 \<noteq> 0x03 then Some ((0, [], []), c1, t1)
     else (case tag_header c1 of (currLen, at) \<Rightarrow>
       if currLen < NDEF_MAX_SIZE - 2 then
         (let num16 = (int currLen - (16 - int at) + 15) sdiv 16 + 1 in
          case read_blocks tx (nat (num16 - 1)) 1 c1 t1 of
            None \<Rightarrow> None
          | Some (ok, c2, t2) \<Rightarrow>
              if ok then map_option (\<lambda>res. (res, c2, t2)) (cut_out c2 at) else Some ((0, [], []), c2, t2))
       else Some ((0, [], []), c1, t1)))"

section \<open>Writing\<close>

definition local2tag_uint32 :: "u32 \<Rightarrow> u32" where
  "local2tag_uint32 w = tag2local_uint32 w"

definition ndef_content :: "u8 list \<Rightarrow> u8 list \<Rightarrow> u8 list" where
  "ndef_content payload uri =
     (let payload_len = length payload; uri_len = length uri;
          hdr = (if payload_len < 255 then [0xD4, word_of_nat uri_len, word_of_nat payload_len]
                 else [0xC4, word_of_nat uri_len] @ le32 (local2tag_uint32 (word_of_nat payload_len)));
          ndef_len = length hdr + uri_len + payload_len
      in (if ndef_len < 255 then [0x03, word_of_nat ndef_len]
          else [0x03, 0xFF, word_of_nat (ndef_len div 256), word_of_nat (ndef_len mod 256)])
         @ hdr @ uri @ payload @ [0xFE])"

text \<open>Blocks of four bytes; only those that differ from what was read are written.\<close>

fun write_blocks :: "'t transceive \<Rightarrow> nat \<Rightarrow> u8 list \<Rightarrow> u8 list \<Rightarrow> c_int \<Rightarrow> 't \<Rightarrow> c_int \<times> 't" where
  "write_blocks tx i cache (a # b # c # d # content) num t =
     (if num > 0 then
        (if take 4 (drop (i * 4) cache) = [a, b, c, d] then write_blocks tx (i + 1) cache content num t
         else (case tx (write_cmd i [a, b, c, d]) t of ((num', r), t') \<Rightarrow> write_blocks tx (i + 1) cache content num' t'))
      else (num, t))"
| "write_blocks tx i cache _ num t = (num, t)"

text \<open>\<open>junk\<close> is what the buffer holds behind the end marker.\<close>

definition ndef_write :: "'t transceive \<Rightarrow> u8 list \<Rightarrow> u8 list \<Rightarrow> u8 list \<Rightarrow> u8 list \<Rightarrow> 't \<Rightarrow> (c_int \<times> 't) option" where
  "ndef_write tx junk cache payload uri t =
     (let content = ndef_content payload uri; pad = (length content + 3) div 4 * 4 - length content in
      if length content + pad > NDEF_MAX_SIZE then None
      else (case write_blocks tx 0 cache (content @ take pad (junk @ replicate 3 0)) 4 t of (num, t1) \<Rightarrow>
        if num > 0 then (case tx [0x30, 220] t1 of ((num', r), t2) \<Rightarrow> Some (if num' > 0 then 1 else 0, t2))
        else Some (0, t1)))"

section \<open>Numbers in the header\<close>

lemma tag2local_bits: "bit (tag2local_uint32 w) n \<longleftrightarrow>
  (if n < 8 then bit w (n + 24) else if n < 16 then bit w (n + 8) else if n < 24 then bit w (n - 8) else n < 32 \<and> bit w (n - 24))"
proof -
  have masks: "(0xFF :: u32) = mask 8" "(0xFF00 :: u32) = push_bit 8 (mask 8)" "(0xFF0000 :: u32) = push_bit 16 (mask 8)"
    by (simp_all add: mask_eq_exp_minus_1 push_bit_eq_mult)
  have "tag2local_uint32 w = push_bit 24 (w AND mask 8) OR push_bit 8 (w AND push_bit 8 (mask 8))
      OR drop_bit 8 (w AND push_bit 16 (mask 8)) OR (drop_bit 24 w AND mask 8)"
    unfolding tag2local_uint32_def masks by (subst disjunctive_add, force simp: bit_simps)+ (simp add: or.assoc)
  then show ?thesis by (auto simp: bit_simps add.commute)
qed

lemma tag2local_invol: "tag2local_uint32 (tag2local_uint32 w) = w"
proof (rule bit_word_eqI)
  fix n assume "n < LENGTH(32)"
  then consider "n < 8" | "8 \<le> n" "n < 16" | "16 \<le> n" "n < 24" | "24 \<le> n" "n < 32" by force
  then show "bit (tag2local_uint32 (tag2local_uint32 w)) n = bit w n" 
    by cases (simp_all add: tag2local_bits less_diff_conv2)
qed

lemma local_bytes: "local_uint32 (le32 w @ xs) = w"
  using unle32_le32 [of w xs] by (simp add: local_uint32_def unle32_def)

section \<open>Tags that keep what is written\<close>

text \<open>
  A tag that stays in the field, with all 256 pages and none of them locked: a read returns the
  sixteen bytes from the address on, a write succeeds and changes four bytes.  \<open>view\<close> is the
  memory of the tag.  Tags that fail or answer less are in the definitions, not in this law.
\<close>

definition memory_tag :: "'t transceive \<Rightarrow> ('t \<Rightarrow> nat \<Rightarrow> u8) \<Rightarrow> bool" where
  "memory_tag tx view \<longleftrightarrow>
     (\<forall>a t. \<exists>t'. tx [0x30, a] t = ((16, map (\<lambda>k. view t (unat a * 4 + k)) [0..<16]), t') \<and> view t' = view t)
   \<and> (\<forall>a d t. length d = 4 \<longrightarrow> (\<exists>n r t'. tx ([0xA2, a] @ d) t = ((n, r), t') \<and> n > 0
        \<and> view t' = (\<lambda>x. if unat a * 4 \<le> x \<and> x < unat a * 4 + 4 then d ! (x - unat a * 4) else view t x)))"

lemma memory_read:
  assumes "memory_tag tx view"
  obtains t' where "tx [0x30, a] t = ((16, map (\<lambda>k. view t (unat a * 4 + k)) [0..<16]), t')" "view t' = view t"
  using assms unfolding memory_tag_def by blast

lemma memory_write:
  assumes "memory_tag tx view" and "length d = 4"
  obtains n r t' where "tx ([0xA2, a] @ d) t = ((n, r), t')" "n > 0"
    "view t' = (\<lambda>x. if unat a * 4 \<le> x \<and> x < unat a * 4 + 4 then d ! (x - unat a * 4) else view t x)"
  using assms unfolding memory_tag_def by blast

lemma address_small: "n < 256 \<Longrightarrow> unat (word_of_nat n :: u8) = n"
  by (simp add: unsigned_of_nat take_bit_nat_eq_self)

lemma write_blocks_stored:
  assumes "memory_tag tx view"
  shows "4 * m = length content \<Longrightarrow> i + m \<le> 252 \<Longrightarrow> num > 0 \<Longrightarrow> 4 * i + length content \<le> length cache
    \<Longrightarrow> \<forall>k < length content. cache ! (4 * i + k) = view t (16 + 4 * i + k)
    \<Longrightarrow> \<exists>n t'. write_blocks tx i cache content num t = (n, t') \<and> n > 0
        \<and> view t' = (\<lambda>x. if 16 + 4 * i \<le> x \<and> x < 16 + 4 * i + length content then content ! (x - (16 + 4 * i)) else view t x)"
proof (induction m arbitrary: i content num t)
  case (Suc m)
  have "length content = Suc (Suc (Suc (Suc (4 * m))))" using Suc.prems(1) by simp
  then obtain a b c d rest where c4: "content = a # b # c # d # rest" "4 * m = length rest"
    by (auto simp: length_Suc_conv)
  let ?blk = "[a, b, c, d]"
  let ?v = "\<lambda>x. if 16 + 4 * i \<le> x \<and> x < 20 + 4 * i then ?blk ! (x - (16 + 4 * i)) else view t x"
  have addr: "unat (word_of_nat (i + NDEF_OFFSET) :: u8) * 4 = 16 + 4 * i"
    using address_small [of "i + NDEF_OFFSET"] Suc.prems(2) by (simp only: NDEF_OFFSET_def) simp
  have step: "\<exists>n t'. write_blocks tx i cache content num t = write_blocks tx (i + 1) cache rest n t' \<and> n > 0 \<and> view t' = ?v"
  proof (cases "take 4 (drop (i * 4) cache) = ?blk")
    case True
    have blk: "view t (16 + 4 * i + k) = ?blk ! k" if "k < 4" for k
    proof -
      have "?blk ! k = take 4 (drop (i * 4) cache) ! k" unfolding True ..
      also have "\<dots> = cache ! (4 * i + k)" using that Suc.prems(4) c4 by (simp add: mult.commute)
      also have "\<dots> = view t (16 + 4 * i + k)" using Suc.prems(5) that c4 by simp
      finally show ?thesis ..
    qed
    have "view t x = ?blk ! (x - (16 + 4 * i))" if x: "16 + 4 * i \<le> x" "x < 20 + 4 * i" for x
    proof -
      have k: "x - (16 + 4 * i) < 4" "16 + 4 * i + (x - (16 + 4 * i)) = x" using x by linarith+
      from blk [OF k(1)] show ?thesis unfolding k(2) .
    qed
    then have "?v x = view t x" for x by (cases "16 + 4 * i \<le> x \<and> x < 20 + 4 * i") (simp_all only: if_P if_not_P simp_thms)
    then have "?v = view t" by (rule ext)
    with True Suc.prems(3) c4 show ?thesis by (intro exI [of _ num] exI [of _ t]) simp
  next
    case False
    obtain n r t' where w: "tx ([0xA2, word_of_nat (i + NDEF_OFFSET)] @ ?blk) t = ((n, r), t')" "n > 0"
      "view t' = ?v"
      using memory_write [OF assms, of ?blk "word_of_nat (i + NDEF_OFFSET)" t] unfolding addr by (auto simp: add.commute)
    with False Suc.prems(3) c4 show ?thesis
      by (intro exI [of _ n] exI [of _ t']) (simp add: write_cmd_def)
  qed
  then obtain n t' where st: "write_blocks tx i cache content num t = write_blocks tx (i + 1) cache rest n t'" "n > 0" "view t' = ?v" by blast
  have "\<forall>k < length rest. cache ! (4 * (i + 1) + k) = view t' (16 + 4 * (i + 1) + k)"
  proof (intro allI impI)
    fix k assume "k < length rest"
    then have "cache ! (4 * i + (k + 4)) = view t (16 + 4 * i + (k + 4))" using Suc.prems(5) c4 by (auto simp del: add_Suc_right)
    then show "cache ! (4 * (i + 1) + k) = view t' (16 + 4 * (i + 1) + k)" by (simp add: st(3) algebra_simps)
  qed
  from Suc.IH [OF c4(2) _ st(2) _ this] Suc.prems(2,4) c4
  obtain n' t'' where fin: "write_blocks tx (i + 1) cache rest n t' = (n', t'')" "n' > 0"
    "view t'' = (\<lambda>x. if 16 + 4 * (i + 1) \<le> x \<and> x < 16 + 4 * (i + 1) + length rest then rest ! (x - (16 + 4 * (i + 1))) else view t' x)"
    by auto
  have "view t'' x = (if 16 + 4 * i \<le> x \<and> x < 16 + 4 * i + length content then content ! (x - (16 + 4 * i)) else view t x)" for x
    using c4 by (auto simp: fin(3) st(3) nth_Cons' nth_append)
  with st(1) fin show ?case by (auto simp: fun_eq_iff)
qed (auto simp: fun_eq_iff)

lemma read_one:
  assumes "memory_tag tx view" and "i \<le> 62" and "length c = 2048"
  obtains r t' where "tx (read_cmd i) t = ((16, r), t')" "view t' = view t" "length (overwrite (i * 16) (take 16 r) c) = 2048"
    "\<And>k. k < 2048 \<Longrightarrow> overwrite (i * 16) (take 16 r) c ! k = (if i * 16 \<le> k \<and> k < i * 16 + 16 then view t (16 + k) else c ! k)"
proof -
  have addr: "unat (word_of_nat (i * 4 + NDEF_OFFSET) :: u8) * 4 = 16 + i * 16"
    using address_small [of "i * 4 + NDEF_OFFSET"] assms(2) by (simp only: NDEF_OFFSET_def) simp
  let ?r = "map (\<lambda>k. view t (16 + i * 16 + k)) [0..<16]"
  obtain t' where t': "tx (read_cmd i) t = ((16, ?r), t')" "view t' = view t"
    using memory_read [OF assms(1), of "word_of_nat (i * 4 + NDEF_OFFSET)" t] unfolding addr read_cmd_def by blast
  have len: "length (take 16 ?r) = 16" "take 16 ?r = ?r" by simp_all
  show ?thesis
  proof (rule that [OF t'])
    show "length (overwrite (i * 16) (take 16 ?r) c) = 2048" using assms(2,3) len by (simp add: length_overwrite)
    show "overwrite (i * 16) (take 16 ?r) c ! k = (if i * 16 \<le> k \<and> k < i * 16 + 16 then view t (16 + k) else c ! k)" if "k < 2048" for k
    proof -
      have "(?r ! (k - i * 16) = view t (16 + k))" if "i * 16 \<le> k" "k < i * 16 + 16"
      proof -
        have "k - i * 16 < 16" "[0..<16] ! (k - i * 16) = k - i * 16" "16 + i * 16 + (k - i * 16) = 16 + k"
          using that by (auto simp: nth_upt)
        then show ?thesis by (simp only: nth_map length_upt diff_zero)
      qed
      then show ?thesis using assms(2,3) \<open>k < 2048\<close> unfolding len(2) by (subst nth_overwrite) auto
    qed
  qed
qed

lemma read_blocks_stored:
  assumes "memory_tag tx view"
  shows "length c = 2048 \<Longrightarrow> i + n \<le> 63
    \<Longrightarrow> \<exists>c' t'. read_blocks tx n i c t = Some (True, c', t') \<and> view t' = view t \<and> length c' = 2048
        \<and> (\<forall>k < 16 * (i + n). c' ! k = (if k < 16 * i then c ! k else view t (16 + k)))"
proof (induction n arbitrary: i c t)
  case (Suc n)
  obtain r t' where one: "tx (read_cmd i) t = ((16, r), t')" "view t' = view t" "length (overwrite (i * 16) (take 16 r) c) = 2048"
    "\<And>k. k < 2048 \<Longrightarrow> overwrite (i * 16) (take 16 r) c ! k = (if i * 16 \<le> k \<and> k < i * 16 + 16 then view t (16 + k) else c ! k)"
    using read_one [OF assms _ Suc.prems(1), of i t] Suc.prems(2) by auto
  obtain c' t'' where rest: "read_blocks tx n (i + 1) (overwrite (i * 16) (take 16 r) c) t' = Some (True, c', t'')"
    "view t'' = view t" "length c' = 2048"
    "\<forall>k < 16 * (i + 1 + n). c' ! k = (if k < 16 * (i + 1) then overwrite (i * 16) (take 16 r) c ! k else view t (16 + k))"
    using Suc.IH [OF one(3), of "i + 1" t'] Suc.prems(2) one(2) by auto
  have "\<forall>k < 16 * (i + Suc n). c' ! k = (if k < 16 * i then c ! k else view t (16 + k))"
    using rest(4) one(4) Suc.prems(2) by auto
  with rest one(1) Suc.prems(2) show ?case by (auto simp: NDEF_MAX_SIZE_def)
qed simp

section \<open>The content\<close>

definition ndef_hdr :: "u8 list \<Rightarrow> u8 list \<Rightarrow> u8 list" where
  "ndef_hdr payload uri = (if length payload < 255 then [0xD4, word_of_nat (length uri), word_of_nat (length payload)]
     else [0xC4, word_of_nat (length uri)] @ le32 (local2tag_uint32 (word_of_nat (length payload))))"

definition ndef_tag :: "nat \<Rightarrow> u8 list" where
  "ndef_tag n = (if n < 255 then [0x03, word_of_nat n] else [0x03, 0xFF, word_of_nat (n div 256), word_of_nat (n mod 256)])"

definition ndef_len :: "u8 list \<Rightarrow> u8 list \<Rightarrow> nat" where
  "ndef_len payload uri = length (ndef_hdr payload uri) + length uri + length payload"

lemma content_parts: "ndef_content payload uri = ndef_tag (ndef_len payload uri) @ ndef_hdr payload uri @ uri @ payload @ [0xFE]"
  by (simp add: ndef_content_def ndef_tag_def ndef_hdr_def ndef_len_def Let_def)

lemma tag_part:
  assumes "n < 65536"
  shows "(ndef_tag n @ xs) ! 0 = 3" and "tag_header (ndef_tag n @ xs) = (n, length (ndef_tag n))"
proof -
  show "(ndef_tag n @ xs) ! 0 = 3" by (simp add: ndef_tag_def)
  show "tag_header (ndef_tag n @ xs) = (n, length (ndef_tag n))"
  proof (cases "n < 255")
    case True
    then have "unat (word_of_nat n :: u8) = n" by (simp add: address_small)
    moreover have "(word_of_nat n :: u8) \<noteq> 0xFF"
    proof
      assume "(word_of_nat n :: u8) = 0xFF"
      then have "unat (word_of_nat n :: u8) = unat (0xFF :: u8)" by (rule arg_cong)
      with calculation True show False by simp
    qed
    ultimately show ?thesis using True by (simp add: tag_header_def ndef_tag_def)
  next
    case False
    have "n div 256 < 256" using assms by linarith
    then have "unat (word_of_nat (n div 256) :: u8) = n div 256" "unat (word_of_nat (n mod 256) :: u8) = n mod 256"
      by (simp_all only: address_small mod_less_divisor zero_less_numeral)
    with False show ?thesis by (simp add: tag_header_def ndef_tag_def)
  qed
qed

lemma cut_parts:
  assumes "length uri < 40" and "length payload < 2048" and "length ts + length (ndef_hdr payload uri) + length uri + length payload \<le> 2048"
  shows "cut_out (ts @ ndef_hdr payload uri @ uri @ payload @ rest) (length ts) = Some (int (length payload), payload, uri)"
proof -
  let ?c = "ts @ ndef_hdr payload uri @ uri @ payload @ rest"
  have uri: "unat (word_of_nat (length uri) :: u8) = length uri" using assms(1) by (simp add: address_small)
  have "ndef_header ?c (length ts) = (length uri, int (length payload), length ts + length (ndef_hdr payload uri))"
  proof (cases "length payload < 255")
    case True
    then have "uint (word_of_nat (length payload) :: u8) = int (length payload)" by (simp add: address_small uint_nat)
    moreover have "(0xD4 :: u8) AND 0x10 \<noteq> 0" by code_simp
    ultimately show ?thesis using True uri by (simp add: ndef_header_def ndef_hdr_def nth_append)
  next
    case False
    have "sint (word_of_nat (length payload) :: u32) = int (length payload)"
      using assms(2) by (simp add: signed_of_nat signed_take_bit_int_eq_self)
    moreover have "(0xC4 :: u8) AND 0x10 = 0" by code_simp
    ultimately show ?thesis using False uri
      by (simp add: ndef_header_def ndef_hdr_def nth_append local_bytes local2tag_uint32_def tag2local_invol)
  qed
  then show ?thesis using assms by (simp add: cut_out_def ndef_sizes)
qed

section \<open>Writing and reading back\<close>

lemma sdiv_nonneg16: "0 \<le> a \<Longrightarrow> a sdiv 16 = (a :: int) div 16"
  by (cases "a = 0") (simp_all add: signed_divide_int_def sgn_if)

lemma padded_bound: "n \<le> 1008 \<Longrightarrow> (n + 3) div 4 * 4 \<le> (1008 :: nat)"
  by presburger

lemma ndef_write_stored:
  assumes "memory_tag tx view" and "length (ndef_content payload uri) \<le> 1008" and "length cache = 2048"
    and "\<forall>k < (length (ndef_content payload uri) + 3) div 4 * 4. cache ! k = view t (16 + k)"
  shows "\<exists>t'. ndef_write tx junk cache payload uri t = Some (1, t')
    \<and> (\<forall>k < length (ndef_content payload uri). view t' (16 + k) = ndef_content payload uri ! k)"
proof -
  define c where "c = ndef_content payload uri"
  let ?pad = "(length c + 3) div 4 * 4 - length c"
  define x where "x = c @ take ?pad (junk @ replicate 3 0)"
  have pad: "?pad \<le> 3" "length c + ?pad = (length c + 3) div 4 * 4" by linarith+
  then have len: "length x = (length c + 3) div 4 * 4" by (simp add: x_def)
  have c: "length c \<le> 1008" using assms(2) by (simp add: c_def)
  have m: "4 * ((length c + 3) div 4) = length x" "0 + (length c + 3) div 4 \<le> 252" "4 * 0 + length x \<le> length cache"
    unfolding len assms(3) using c by auto
  have agree: "\<forall>k < length x. cache ! (4 * 0 + k) = view t (16 + 4 * 0 + k)" using assms(4) len by (simp add: c_def)
  obtain n t1 where w: "write_blocks tx 0 cache x 4 t = (n, t1)" "n > 0"
    "view t1 = (\<lambda>y. if 16 + 4 * 0 \<le> y \<and> y < 16 + 4 * 0 + length x then x ! (y - (16 + 4 * 0)) else view t y)"
    using write_blocks_stored [OF assms(1) m(1,2) _ m(3) agree, of 4] by auto
  obtain t2 where r: "tx [0x30, 220] t1 = ((16, map (\<lambda>k. view t1 (unat (220 :: u8) * 4 + k)) [0..<16]), t2)" "view t2 = view t1"
    using memory_read [OF assms(1)] by blast
  have "length c + ?pad \<le> NDEF_MAX_SIZE" using m(3) pad(2) len assms(3) by (simp add: NDEF_MAX_SIZE_def)
  then have "ndef_write tx junk cache payload uri t = Some (1, t2)"
    using w(1,2) r(1) by (simp add: ndef_write_def Let_def x_def flip: c_def)
  moreover have "view t2 (16 + k) = c ! k" if "k < length c" for k
    using that by (simp add: r(2) w(3) x_def nth_append)
  ultimately show ?thesis unfolding c_def by blast
qed

lemma ndef_read_stored:
  assumes "memory_tag tx view" and "length (ndef_content payload uri) \<le> 1008"
    and "\<forall>k < length (ndef_content payload uri). view t (16 + k) = ndef_content payload uri ! k"
    and "length cache' = 2048" and "length uri < 40"
  shows "\<exists>c t' n. ndef_read tx cache' t = Some ((int (length payload), payload, uri), c, t') \<and> view t' = view t
    \<and> length c = 2048 \<and> n mod 16 = 0 \<and> length (ndef_content payload uri) \<le> n + 1 \<and> (\<forall>k < n. c ! k = view t (16 + k))"
proof -
  let ?c = "ndef_content payload uri" and ?n = "ndef_len payload uri"
  let ?at = "length (ndef_tag ?n)"
  have L: "length ?c = ?at + ?n + 1" by (simp add: content_parts ndef_len_def)
  have at: "?at = 2 \<or> ?at = 4" by (simp add: ndef_tag_def)
  obtain r t1 where one: "tx (read_cmd 0) t = ((16, r), t1)" "view t1 = view t" "length (overwrite 0 (take 16 r) cache') = 2048"
    "\<And>k. k < 2048 \<Longrightarrow> overwrite 0 (take 16 r) cache' ! k = (if k < 16 then view t (16 + k) else cache' ! k)"
    using read_one [OF assms(1) _ assms(4), of 0 t] by auto
  let ?c1 = "overwrite 0 (take 16 r) cache'"
  define blocks where "blocks = nat ((int ?n - (16 - int ?at) + 15) sdiv 16)"
  have sd: "(int ?n - (16 - int ?at) + 15) sdiv 16 = (int ?n - (16 - int ?at) + 15) div 16"
    using L at assms(2) by (intro sdiv_nonneg16) (auto simp: ndef_len_def ndef_hdr_def)
  have "0 \<le> int ?n - (16 - int ?at) + 15" using at by (auto simp: ndef_len_def ndef_hdr_def)
  then have "int blocks = (int ?n - (16 - int ?at) + 15) div 16" unfolding blocks_def sd by (simp add: pos_imp_zdiv_nonneg_iff)
  moreover have "x \<le> 16 * (x div 16) + 15" "16 * (x div 16) \<le> x" for x :: int by presburger+
  note this [of "int ?n - (16 - int ?at) + 15"]
  ultimately have "int ?n - (16 - int ?at) + 15 \<le> 16 * int blocks + 15" "16 * int blocks \<le> int ?n - (16 - int ?at) + 15" by simp_all
  then have "int (1 + blocks) \<le> int 63" "int (?at + ?n) \<le> int (16 * (1 + blocks))" using L assms(2) by simp_all
  then have blocks: "1 + blocks \<le> 63" "?at + ?n \<le> 16 * (1 + blocks)" unfolding of_nat_le_iff .
  obtain c2 t2 where rest: "read_blocks tx blocks 1 ?c1 t1 = Some (True, c2, t2)" "length c2 = 2048"
    "view t2 = view t" "\<forall>k < 16 * (1 + blocks). c2 ! k = (if k < 16 then ?c1 ! k else view t (16 + k))"
    using read_blocks_stored [OF assms(1) one(3) blocks(1), of t1] one(2) by auto
  have "c2 ! k = ?c ! k" if "k < ?at + ?n" for k
    using that rest(4) one(4) [of k] assms(3) blocks L by auto
  then have "take (?at + ?n) c2 = take (?at + ?n) ?c"
    using rest(2) L assms(2) by (intro nth_take_lemma) auto
  also have "\<dots> = ndef_tag ?n @ ndef_hdr payload uri @ uri @ payload" by (simp add: content_parts ndef_len_def)
  finally have c2: "c2 = ndef_tag ?n @ ndef_hdr payload uri @ uri @ payload @ drop (?at + ?n) c2"
    by (metis append_assoc append_take_drop_id)
  have "?c1 ! k = ?c ! k" if "k < 4" for k
    using that one(4) [of k] assms(3) L at by (auto simp: ndef_len_def ndef_hdr_def)
  then have head: "?c1 ! 0 = ?c ! 0" "?c1 ! 1 = ?c ! 1" "?c1 ! 2 = ?c ! 2" "?c1 ! 3 = ?c ! 3" by simp_all
  have "?n < 65536" using L assms(2) by linarith
  note tag = tag_part [OF this, of "ndef_hdr payload uri @ uri @ payload @ [0xFE]", folded content_parts]
  have th: "tag_header ?c1 = (?n, ?at)" using tag(2) unfolding tag_header_def head .
  have cut: "cut_out c2 ?at = Some (int (length payload), payload, uri)"
    by (subst c2) (rule cut_parts; use assms(2,5) L in \<open>simp add: ndef_len_def\<close>)
  have "(int ?n - (16 - int ?at) + 15) sdiv 16 + 1 - 1 = (int ?n - (16 - int ?at) + 15) sdiv 16" by simp
  then have "ndef_read tx cache' t = Some ((int (length payload), payload, uri), c2, t2)"
    using one(1) head(1) tag(1) th rest(1) cut L assms(2)
    by (simp add: ndef_read_def Let_def NDEF_MAX_SIZE_def blocks_def)
  moreover have "\<forall>k < 16 * (1 + blocks). c2 ! k = view t (16 + k)" using rest(4) one(4) blocks(1) by auto
  ultimately show ?thesis
    using rest(2,3) blocks(2) L by (intro exI [of _ c2] exI [of _ t2] exI [of _ "16 * (1 + blocks)"]) simp
qed

text \<open>
  C18: What is written on a tag is what the next read finds: on a tag that keeps its memory, when
  the cache agrees with the tag, writing a payload and a URI of fewer than forty bytes, with a
  content of up to 1008 bytes, succeeds, and a read with any cache then yields exactly this
  payload and this URI, for payloads below and above 255 bytes.
\<close>

theorem ndef_roundtrip:
  assumes "memory_tag tx view" and "length (ndef_content payload uri) \<le> 1008" and "length uri < 40"
    and "length cache = 2048" and "\<forall>k < 1008. cache ! k = view t (16 + k)" and "length cache' = 2048"
  shows "\<exists>t' c t''. ndef_write tx junk cache payload uri t = Some (1, t')
    \<and> ndef_read tx cache' t' = Some ((int (length payload), payload, uri), c, t'')"
proof -
  have "(length (ndef_content payload uri) + 3) div 4 * 4 \<le> 1008" using assms(2) by (rule padded_bound)
  with assms(5) have "\<forall>k < (length (ndef_content payload uri) + 3) div 4 * 4. cache ! k = view t (16 + k)" by simp
  from ndef_write_stored [OF assms(1,2,4) this] obtain t1 where w: "ndef_write tx junk cache payload uri t = Some (1, t1)"
    "\<forall>k < length (ndef_content payload uri). view t1 (16 + k) = ndef_content payload uri ! k" by blast
  from ndef_read_stored [OF assms(1,2) w(2) assms(6,3)] w(1) show ?thesis by blast
qed

text \<open>A tag that is its memory.\<close>

definition plain_tag :: "(nat \<Rightarrow> u8) transceive" where
  "plain_tag cmd m = (let at = unat (cmd ! 1) * 4 in
     if length cmd = 2 then ((16, map (\<lambda>k. m (at + k)) [0..<16]), m)
     else ((1, []), (\<lambda>x. if at \<le> x \<and> x < at + 4 then drop 2 cmd ! (x - at) else m x)))"

lemma plain_tag_memory: "memory_tag plain_tag (\<lambda>m. m)"
  unfolding memory_tag_def plain_tag_def by (auto simp: Let_def simp del: upt_Suc)

theorem ndef_roundtrip_witness:
  "\<exists>t' c t''. ndef_write plain_tag [] (replicate 2048 0) [11, 0, 7] [99, 111, 109] (\<lambda>_. 0) = Some (1, t')
    \<and> ndef_read plain_tag (replicate 2048 5) t' = Some ((3, [11, 0, 7], [99, 111, 109]), c, t'')"
proof -
  have "length (ndef_content [11, 0, 7] [99, 111, 109]) \<le> 1008" "length [99 :: u8, 111, 109] < 40" by (simp_all add: ndef_content_def)
  moreover have "length (replicate 2048 (0 :: u8)) = 2048" "\<forall>k < 1008. replicate 2048 (0 :: u8) ! k = (\<lambda>_. 0) (16 + k)"
    "length (replicate 2048 (5 :: u8)) = 2048" by simp_all
  ultimately obtain t' c t'' where "ndef_write plain_tag [] (replicate 2048 0) [11, 0, 7] [99, 111, 109] (\<lambda>_. 0) = Some (1, t')"
    "ndef_read plain_tag (replicate 2048 5) t' = Some ((int (length [11 :: u8, 0, 7]), [11, 0, 7], [99, 111, 109]), c, t'')"
    using ndef_roundtrip [OF plain_tag_memory, of "[11, 0, 7]" "[99, 111, 109]" "replicate 2048 0" "\<lambda>_. 0" "replicate 2048 5" "[]"] by blast
  then show ?thesis by auto
qed

section \<open>The bound of a read\<close>

lemma read_blocks_bound: "16 * (i + n) \<le> NDEF_MAX_SIZE \<Longrightarrow> \<exists>ok c' t'. read_blocks tx n i c t = Some (ok, c', t')"
proof (induction n arbitrary: i c t)
  case (Suc n)
  obtain num r t' where tx: "tx (read_cmd i) t = ((num, r), t')" by (metis surj_pair)
  show ?case
  proof (cases "num = 0")
    case False
    with Suc.IH [of "i + 1" "overwrite (i * 16) (take 16 r) c" t'] Suc.prems tx show ?thesis by simp
  qed (use Suc.prems tx in auto)
qed auto

lemma read_blocks_add: "read_blocks tx (n + m) i c t = (case read_blocks tx n i c t of
    Some (True, c', t') \<Rightarrow> read_blocks tx m (i + n) c' t' | res \<Rightarrow> res)"
  by (induction n arbitrary: i c t) (auto simp: Let_def split: prod.splits option.splits bool.splits)

lemma unat_byte: "unat (b :: u8) < 256"
  using unsigned_less [of b] by simp

text \<open>
  C26: When a read leaves its cache, exactly, for a first block that could be read and holds a
  message: all the blocks of the announced length are read (up to the 127 that fit behind the
  first), and then either the announced length is 2045, which the test for the size lets
  through and whose last block lies behind the cache, or it is smaller and the record in it
  announces a payload of fewer than 2048 bytes that is negative or ends behind the cache.  In
  every other case, a longer announced length or a failing read among them, the read stays inside,
  whatever the tag answers.
\<close>

theorem ndef_read_bound:
  assumes "tx (read_cmd 0) t = ((num, r), t1)" and "num \<noteq> 0" and "length r = 16" and "r ! 0 = 3" and "tag_header r = (n, at)"
  shows "ndef_read tx cache t = None \<longleftrightarrow>
    (\<exists>c2 t2. read_blocks tx (min 127 (nat ((int n - (16 - int at) + 15) sdiv 16))) 1 (overwrite 0 r cache) t1 = Some (True, c2, t2)
      \<and> (n = 2045 \<or> n < 2045 \<and> (case ndef_header c2 at of (uri_len, payload_len, start) \<Rightarrow>
            payload_len < 2048 \<and> (payload_len < 0 \<or> start + uri_len + nat payload_len > 2048))))"
proof -
  let ?blocks = "nat ((int n - (16 - int at) + 15) sdiv 16)" and ?c1 = "overwrite 0 r cache"
  have at: "at = 4 \<or> at = 2 \<and> n < 256" using assms(5) unat_byte [of "r ! 1"] by (auto simp: tag_header_def split: if_splits)
  have sd: "(int n - (16 - int at) + 15) sdiv 16 = (int n - (16 - int at) + 15) div 16" using at by (intro sdiv_nonneg16) auto
  have "tag_header ?c1 = tag_header r" "?c1 ! 0 = 3"
    using assms(3,4) by (simp_all add: tag_header_def overwrite_def nth_append)
  with assms(1-3,5) have run: "ndef_read tx cache t = (if n < 2046
      then (case read_blocks tx ?blocks 1 ?c1 t1 of
          None \<Rightarrow> None
        | Some (ok, c2, t2) \<Rightarrow> if ok then map_option (\<lambda>res. (res, c2, t2)) (cut_out c2 at) else Some ((0, [], []), c2, t2))
      else Some ((0, [], []), ?c1, t1))"
    by (simp add: ndef_read_def Let_def NDEF_MAX_SIZE_def)
  have cut: "cut_out c2 at = None \<longleftrightarrow> (case ndef_header c2 at of (uri_len, payload_len, start) \<Rightarrow>
      payload_len < 2048 \<and> (payload_len < 0 \<or> start + uri_len + nat payload_len > 2048))" for c2
    by (auto simp: cut_out_def ndef_sizes Let_def split: prod.split)
  consider "n < 2045" | "n = 2045" | "2045 < n" by linarith
  then show ?thesis
  proof cases
    case 1
    then have le: "?blocks \<le> 127" unfolding sd using at by auto
    then have "16 * (1 + ?blocks) \<le> NDEF_MAX_SIZE" by (simp add: NDEF_MAX_SIZE_def)
    from read_blocks_bound [OF this, of tx ?c1 t1] obtain ok c2 t2 where
      "read_blocks tx ?blocks 1 ?c1 t1 = Some (ok, c2, t2)" by blast
    moreover have "min 127 ?blocks = ?blocks" using le by simp
    ultimately show ?thesis using 1 by (simp add: run cut)
  next
    case 2
    then have at4: "at = 4" using at by simp
    have blocks: "?blocks = 127 + 1" unfolding sd using 2 at4 by simp
    have "read_blocks tx 1 128 c t' = None" for c t' by (simp add: NDEF_MAX_SIZE_def)
    then have last: "read_blocks tx ?blocks 1 ?c1 t1 = (case read_blocks tx 127 1 ?c1 t1 of
        Some (True, c', t') \<Rightarrow> None | res \<Rightarrow> res)"
      unfolding blocks read_blocks_add by (auto split: option.split prod.split bool.split)
    have "16 * (1 + 127) \<le> NDEF_MAX_SIZE" by (simp add: NDEF_MAX_SIZE_def)
    from read_blocks_bound [OF this, of tx ?c1 t1] obtain ok c2 t2 where
      r127: "read_blocks tx 127 1 ?c1 t1 = Some (ok, c2, t2)" by blast
    have "min 127 ?blocks = 127" unfolding blocks by simp
    then show ?thesis unfolding run last using 2 r127 by (cases ok) simp_all
  next
    case 3
    then show ?thesis by (simp add: run)
  qed
qed

text \<open>A tag whose record announces a payload of \<open>0xFFFFFFFF\<close> bytes, read as a negative number.\<close>

theorem ndef_read_bound_witness:
  "\<exists>m. ndef_read plain_tag (replicate 2048 0) m = None"
proof -
  let ?r = "[3, 8, 0xC4, 0, 0xFF, 0xFF, 0xFF, 0xFF, 0, 0, 0, 0, 0, 0, 0, 0 :: u8]"
  let ?m = "\<lambda>x. if x < 16 then 0 else ?r ! (x - 16)"
  have list: "[0..<16] = [0, 1, 2, 3, 4, 5, 6, 7, 8, 9, 10, 11, 12, 13, 14, 15 :: nat]" by code_simp
  have one: "plain_tag (read_cmd 0) ?m = ((16, ?r), ?m)"
    by (simp add: plain_tag_def read_cmd_def NDEF_OFFSET_def Let_def list)
  have r: "length ?r = 16" "?r ! 0 = 3" "tag_header ?r = (8, 2)" by (simp_all add: tag_header_def)
  have c1: "overwrite 0 ?r (replicate 2048 0) = ?r @ replicate 2032 0" by (simp add: overwrite_def)
  have "le32 0xFFFFFFFF = [0xFF, 0xFF, 0xFF, 0xFF]" "sint (tag2local_uint32 0xFFFFFFFF) = - 1" "(0xC4 :: u8) AND 0x10 = 0"
    by code_simp+
  then have "sint (tag2local_uint32 (local_uint32 (0xFF # 0xFF # 0xFF # 0xFF # xs))) = - 1" "(0xC4 :: u8) AND 0x10 = 0" for xs
    using local_bytes [of "0xFFFFFFFF" xs] by (simp_all only: append_Cons append_Nil)
  then have header: "ndef_header (?r @ replicate 2032 0) 2 = (0, - 1, 8)" by (simp add: ndef_header_def)
  have "(int 8 - (16 - int 2) + 15) sdiv 16 = (0 :: int)" by code_simp
  with ndef_read_bound [of plain_tag ?m 16 ?r ?m 8 2 "replicate 2048 0", OF one _ r] header
  show ?thesis by (intro exI [of _ ?m]) (simp add: c1)
qed

end
