(* ===== verification/NfcCommission.thy ===== *)
theory NfcCommission
  imports SecureJoin Ndef "HOL-Library.Sublist"
begin

text \<open>
  Commissioning in the NFC daemon (\<open>daemons/nfcRPiAlt/commission.c\<close> and \<open>mful.c\<close>): a
  device writes who it is on its tag; the daemon reads the tag, asks the secure joiner for the
  credentials, writes the answer into the second half of the payload, and tells the control
  interface.  The theory follows a device from its tag through the joiner and the Zigbee
  daemon to the control bridge and back.

  What the sockets do is an argument for each pass: whether they open, whether the message
  is written, and the pieces in which the answer arrives until a read fails or times out.
  \<open>None\<close> is an access the program does not define.
\<close>

section \<open>The payload\<close>

definition COMMISSION_URI :: "u8 list" where
  "COMMISSION_URI = [0x63, 0x6F, 0x6D, 0x2E, 0x6E, 0x78, 0x70, 0x3A, 0x77, 0x69, 0x73, 0x65, 0x30, 0x31]"

definition COMMISSION_SUPPORTED_VERSION :: u8 where "COMMISSION_SUPPORTED_VERSION = 11"

definition COMMAND_FACTORYNEW :: u8 where "COMMAND_FACTORYNEW = 1"
definition COMMAND_JOIN :: u8 where "COMMAND_JOIN = 2"
definition COMMAND_LEAVE :: u8 where "COMMAND_LEAVE = 4"

definition FROM_GATEWAY :: u8 where "FROM_GATEWAY = 0x02"

definition NFC_MODE_COMMISSION :: c_int where "NFC_MODE_COMMISSION = 0"
definition NFC_MODE_DECOMMISSION :: c_int where "NFC_MODE_DECOMMISSION = 1"
definition NFC_MODE_FACTORYRESET :: c_int where "NFC_MODE_FACTORYRESET = 2"

lemmas nfc_modes = NFC_MODE_COMMISSION_def NFC_MODE_DECOMMISSION_def NFC_MODE_FACTORYRESET_def
lemmas nfc_commands = COMMAND_FACTORYNEW_def COMMAND_JOIN_def COMMAND_LEAVE_def FROM_GATEWAY_def

text \<open>The half the device writes: its fields behind the version byte.\<close>

record commission_out =
  out_From :: u8
  out_SeqNr :: u8
  out_NodeExtra :: "u8 list"
  out_NodeMacAddress :: "u8 list"
  out_NodeLinkKey :: "u8 list"

definition c_out :: "u8 list \<Rightarrow> commission_out" where
  "c_out payload = \<lparr>out_From = payload ! 1, out_SeqNr = payload ! 2, out_NodeExtra = take 69 (drop 3 payload),
     out_NodeMacAddress = take 8 (drop 72 payload), out_NodeLinkKey = take 16 (drop 80 payload)\<rparr>"

text \<open>The half the gateway writes.\<close>

record commission_in =
  in_From :: u8
  in_SeqNr :: u8
  in_Command :: u8
  in_GatewayExtra :: "u8 list"
  in_Channel :: u8
  in_KeySeq :: u8
  in_PanIdMSB :: u8
  in_PanIdLSB :: u8
  in_EncMic :: "u8 list"
  in_Mic :: "u8 list"
  in_EncKey :: "u8 list"
  in_ExtPanId :: "u8 list"
  in_TrustCenterAddress :: "u8 list"

definition in_zero :: commission_in where
  "in_zero = \<lparr>in_From = 0, in_SeqNr = 0, in_Command = 0, in_GatewayExtra = replicate 66 0, in_Channel = 0, in_KeySeq = 0,
     in_PanIdMSB = 0, in_PanIdLSB = 0, in_EncMic = replicate 12 0, in_Mic = replicate 4 0, in_EncKey = replicate 16 0,
     in_ExtPanId = replicate 8 0, in_TrustCenterAddress = replicate 8 0\<rparr>"

definition in_bytes :: "commission_in \<Rightarrow> u8 list" where
  "in_bytes c = [in_From c, in_SeqNr c, in_Command c] @ in_GatewayExtra c
     @ [in_Channel c, in_KeySeq c, in_PanIdMSB c, in_PanIdLSB c] @ in_EncMic c @ in_Mic c @ in_EncKey c
     @ in_ExtPanId c @ in_TrustCenterAddress c"

definition c_in_Command :: "u8 list \<Rightarrow> u8" where
  "c_in_Command payload = payload ! 98"

definition set_in :: "commission_in \<Rightarrow> u8 list \<Rightarrow> u8 list" where
  "set_in c payload = overwrite 96 (in_bytes c) payload"

section \<open>Kinds of devices\<close>

definition getDeviceDev :: "u8 \<Rightarrow> c_int" where
  "getDeviceDev from =
     (if from = 0x04 then DEVICE_DEV_SWITCH else if from = 0x03 then DEVICE_DEV_MANAGER
      else if from = 0x20 then DEVICE_DEV_UISENSOR else if from = 0x22 then DEVICE_DEV_SENSOR
      else if from = 0x23 then DEVICE_DEV_PUMP else if from = 0x24 then DEVICE_DEV_UI
      else if from = 0x30 then DEVICE_DEV_PLUG
      else if from = 0x40 \<or> from = 0x41 \<or> from = 0x42 \<or> from = 0x43 then DEVICE_DEV_LAMP
      else DEVICE_DEV_UNKNOWN)"

text \<open>The unknown type is a null pointer.\<close>

definition getDeviceType :: "u8 \<Rightarrow> string option" where
  "getDeviceType from =
     (if from = 0x03 then Some ''h'' else if from = 0x40 then Some ''onoff'' else if from = 0x41 then Some ''dim''
      else if from = 0x42 then Some ''tw'' else if from = 0x43 then Some ''col'' else if from = 0x04 then Some ''onoff''
      else None)"

section \<open>State\<close>

record secjoin_t =
  sec_channel :: u8
  sec_keyseq :: u8
  sec_pan :: u16
  sec_extpan :: "u8 list"
  sec_nwkey :: "u8 list"
  sec_mic :: "u8 list"
  sec_tcaddr :: "u8 list"

record nfc_state =
  nfc_attrs :: parsing
  nfc_join :: secjoin_t
  nfc_ready :: bool
  nfcMode :: c_int
  prevNfcMode :: c_int
  handled_seqnr :: u8
  out_seqnr :: u8
  nfc_to_joiner :: "string list"
  nfc_to_control :: "string list"

text \<open>\<open>ne_junk\<close> is what the stack holds where \<open>secjoin\<close> is declared.\<close>

record nfc_env =
  ne_joiner :: "(bool \<times> string list) option"
  ne_control :: "bool option"
  ne_junk :: secjoin_t

section \<open>The answer of the secure joiner\<close>

text \<open>
  A hexadecimal attribute of \<open>n\<close> bytes.  An empty one leaves the zeros; of a text that is too
  short the program would read what is behind its end.
\<close>

definition hex_attr :: "parsing \<Rightarrow> string \<Rightarrow> nat \<Rightarrow> u8 list option" where
  "hex_attr p name n = (case parsingGetStringAttr0 p name of
     Some v \<Rightarrow> if length v < 2 * n then None else snd (nibblestr2hex (Some (replicate n 0)) (int n) (Some v) (2 * int n))
   | None \<Rightarrow> snd (nibblestr2hex (Some (replicate n 0)) (int n) None (2 * int n)))"

definition secjoin_read :: "parsing \<Rightarrow> secjoin_t option" where
  "secjoin_read p = (case (hex_attr p ''extpan'' 8, hex_attr p ''nwkey'' 16, hex_attr p ''mic'' 4, hex_attr p ''tcaddr'' 8) of
     (Some extpan, Some nwkey, Some mic, Some tcaddr) \<Rightarrow>
       Some \<lparr>sec_channel = word_of_int (parsingGetIntAttr p ''chan''), sec_keyseq = word_of_int (parsingGetIntAttr p ''keyseq''),
         sec_pan = word_of_int (AtoiHex (parsingGetStringAttr p ''pan'')), sec_extpan = extpan, sec_nwkey = nwkey,
         sec_mic = mic, sec_tcaddr = tcaddr\<rparr>
   | _ \<Rightarrow> None)"

definition com_onObjectComplete :: "string \<Rightarrow> nfc_state \<Rightarrow> nfc_state option" where
  "com_onObjectComplete name s =
     (if name = ''joinsecure''
      then map_option (\<lambda>j. s\<lparr>nfc_join := j, nfc_ready := True\<rparr>) (secjoin_read (nfc_attrs s)) else Some s)"

fun com_callback :: "json_event \<Rightarrow> nfc_state \<Rightarrow> nfc_state option" where
  "com_callback (EvObjectStart name) s = Some (s\<lparr>nfc_attrs := parsingReset (nfc_attrs s)\<rparr>)"
| "com_callback (EvObjectComplete name) s = com_onObjectComplete name s"
| "com_callback (EvString name val) s = Some (s\<lparr>nfc_attrs := snd (parsingStringAttr name val (nfc_attrs s))\<rparr>)"
| "com_callback (EvInteger name val) s = Some (s\<lparr>nfc_attrs := snd (parsingIntAttr name val (nfc_attrs s))\<rparr>)"
| "com_callback _ s = Some s"

fun com_callbacks :: "json_event list \<Rightarrow> nfc_state \<Rightarrow> nfc_state option" where
  "com_callbacks [] s = Some s"
| "com_callbacks (ev # evs) s = Option.bind (com_callback ev s) (com_callbacks evs)"

text \<open>The pieces of the answer; what a piece adds to the trace of the parser are its call-backs.\<close>

fun com_read :: "string list \<Rightarrow> parser_data \<Rightarrow> nfc_state \<Rightarrow> nfc_state option" where
  "com_read [] p s = Some s"
| "com_read (piece # pieces) p s =
     (if nfc_ready s then Some s
      else (let p' = jsonEats piece p in
        Option.bind (com_callbacks (drop (length (p_trace p)) (p_trace p')) s) (com_read pieces p')))"

text \<open>The result is \<open>success\<close>; only a failed write clears it.\<close>

definition nfc_commission :: "nfc_env \<Rightarrow> parser_data \<Rightarrow> u8 list \<Rightarrow> u8 list \<Rightarrow> nfc_state \<Rightarrow> (bool \<times> nfc_state) option" where
  "nfc_commission env p mac linkkey s0 = (let s = s0\<lparr>nfc_join := ne_junk env\<rparr> in
     case ne_joiner env of
       None \<Rightarrow> Some (True, s)
     | Some (written, pieces) \<Rightarrow>
         (case jsonLinkInfo 0 0 0 (hex2nibblestr mac) (hex2nibblestr linkkey) of
            None \<Rightarrow> None
          | Some message \<Rightarrow>
              if written
              then map_option (Pair True) (com_read pieces (jsonReset (p\<lparr>p_on := all_handlers\<rparr>))
                     (s\<lparr>nfc_ready := False, nfc_to_joiner := nfc_to_joiner s @ [message]\<rparr>))
              else Some (False, s)))"

section \<open>The control interface\<close>

definition dbEdit :: "nfc_env \<Rightarrow> bool \<Rightarrow> u8 list \<Rightarrow> c_int \<Rightarrow> string option \<Rightarrow> nfc_state \<Rightarrow> nfc_state option" where
  "dbEdit env mode mac dev ty s =
     (case (if mode then jsonDbEditAdd (hex2nibblestr mac) dev ty else jsonDbEditRem (hex2nibblestr mac)) of
        None \<Rightarrow> None
      | Some message \<Rightarrow> Some (if ne_control env = Some True then s\<lparr>nfc_to_control := nfc_to_control s @ [message]\<rparr> else s))"

section \<open>Handling a payload\<close>

text \<open>
  The outcome of a handler: its result, the payload buffer, the tag and the variables.
  \<open>write_in\<close> stores the gateway's half, writes the tag and, when that succeeds, goes on.
\<close>

type_synonym 't outcome = "bool \<times> u8 list \<times> 't \<times> nfc_state"

definition write_in ::
  "'t transceive \<Rightarrow> u8 list \<Rightarrow> u8 list \<Rightarrow> nat \<Rightarrow> commission_in \<Rightarrow> (nfc_state \<Rightarrow> nfc_state option) \<Rightarrow> u8 list \<Rightarrow> 't \<Rightarrow> nfc_state
   \<Rightarrow> 't outcome option" where
  "write_in tx junk cache plen c after payload t s = (let payload' = set_in c payload in
     case ndef_write tx junk cache (take plen payload') COMMISSION_URI t of
       None \<Rightarrow> None
     | Some (r, t') \<Rightarrow> if r \<noteq> 0 then map_option (\<lambda>s'. (True, payload', t', s')) (after s) else Some (False, payload', t', s))"

text \<open>Decommission and factory reset.\<close>

definition handle_command ::
  "nfc_env \<Rightarrow> 't transceive \<Rightarrow> u8 list \<Rightarrow> u8 list \<Rightarrow> nat \<Rightarrow> u8 \<Rightarrow> u8 list \<Rightarrow> 't \<Rightarrow> nfc_state \<Rightarrow> 't outcome option" where
  "handle_command env tx junk cache plen cmd payload t s =
     (if c_in_Command payload \<noteq> cmd
      then write_in tx junk cache plen (in_zero\<lparr>in_From := FROM_GATEWAY, in_SeqNr := out_seqnr s, in_Command := cmd\<rparr>)
             (dbEdit env False (out_NodeMacAddress (c_out payload)) 0 None) payload t (s\<lparr>out_seqnr := out_seqnr s + 1\<rparr>)
      else Some (True, payload, t, s))"

definition join_in :: "u8 \<Rightarrow> secjoin_t \<Rightarrow> commission_in" where
  "join_in seqnr j = in_zero\<lparr>in_From := FROM_GATEWAY, in_SeqNr := seqnr, in_Command := COMMAND_JOIN,
     in_Channel := sec_channel j, in_KeySeq := sec_keyseq j,
     in_PanIdMSB := ucast (drop_bit 8 (sec_pan j) AND 0xFF), in_PanIdLSB := ucast (sec_pan j AND 0xFF),
     in_Mic := sec_mic j, in_EncKey := sec_nwkey j, in_ExtPanId := sec_extpan j, in_TrustCenterAddress := sec_tcaddr j\<rparr>"

definition handle_join ::
  "nfc_env \<Rightarrow> parser_data \<Rightarrow> 't transceive \<Rightarrow> u8 list \<Rightarrow> u8 list \<Rightarrow> nat \<Rightarrow> u8 list \<Rightarrow> 't \<Rightarrow> nfc_state \<Rightarrow> 't outcome option" where
  "handle_join env p tx junk cache plen payload t s = (let half = c_out payload in
     case nfc_commission env p (out_NodeMacAddress half) (out_NodeLinkKey half) s of
       None \<Rightarrow> None
     | Some (False, s') \<Rightarrow> Some (False, payload, t, s')
     | Some (True, s') \<Rightarrow>
         write_in tx junk cache plen (join_in (out_seqnr s') (nfc_join s'))
           (dbEdit env True (out_NodeMacAddress half) (getDeviceDev (out_From half)) (getDeviceType (out_From half)))
           payload t (s'\<lparr>out_seqnr := out_seqnr s' + 1\<rparr>))"

definition commissionHandleNfc ::
  "nfc_env \<Rightarrow> parser_data \<Rightarrow> newdb option \<Rightarrow> 't transceive \<Rightarrow> u8 list \<Rightarrow> u8 list \<Rightarrow> nat \<Rightarrow> u8 list \<Rightarrow> 't \<Rightarrow> nfc_state \<Rightarrow> 't outcome option" where
  "commissionHandleNfc env p m tx junk cache plen payload t s0 =
     (if payload ! 0 \<noteq> COMMISSION_SUPPORTED_VERSION then Some (False, payload, t, s0)
      else (let s = s0\<lparr>nfcMode := newDbSystemGetInt ''nfcmode'' m\<rparr>; seqnr = out_SeqNr (c_out payload) in
        if seqnr = handled_seqnr s \<and> prevNfcMode s = nfcMode s then Some (True, payload, t, s)
        else (let s = s\<lparr>prevNfcMode := nfcMode s\<rparr> in
          map_option (\<lambda>(ret, payload', t', s'). (ret, payload', t', s'\<lparr>handled_seqnr := out_SeqNr (c_out payload')\<rparr>))
            (if nfcMode s = NFC_MODE_DECOMMISSION then handle_command env tx junk cache plen COMMAND_LEAVE payload t s
             else if nfcMode s = NFC_MODE_FACTORYRESET then handle_command env tx junk cache plen COMMAND_FACTORYNEW payload t s
             else if nfcMode s = NFC_MODE_COMMISSION then handle_join env p tx junk cache plen payload t s
             else Some (False, payload, t, s)))))"

definition commissionReset :: "nfc_state \<Rightarrow> nfc_state" where
  "commissionReset s = s\<lparr>handled_seqnr := 255\<rparr>"

definition commissionInit :: "parsing \<Rightarrow> parsing" where
  "commissionInit = add_attrs [''keyseq'', ''chan''] [(''nwkey'', 32), (''mic'', 8), (''tcaddr'', 16), (''pan'', 4), (''extpan'', 16)]"

section \<open>A pass over the tag\<close>

datatype mful_result = TAG_GONE | TAG_CORRUPT | TAG_HANDLED bool

text \<open>
  One pass of the loop of \<open>mfulHandle\<close>: the cache, the payload buffer, the tag and the
  variables afterwards.  The first byte of the buffer is cleared before the tag is read.
\<close>

definition mful_pass ::
  "nfc_env \<Rightarrow> parser_data \<Rightarrow> newdb option \<Rightarrow> 't transceive \<Rightarrow> u8 list \<Rightarrow> u8 list \<times> u8 list \<times> 't \<times> nfc_state
   \<Rightarrow> (mful_result \<times> u8 list \<times> u8 list \<times> 't \<times> nfc_state) option" where
  "mful_pass env p m tx junk = (\<lambda>(cache, payload, t, s).
     (case ndef_read tx cache t of
        None \<Rightarrow> None
      | Some ((plen, stored, uri), cache', t') \<Rightarrow>
          (let payload' = overwrite 0 stored (payload[0 := 0]) in
           if plen < 0 then Some (TAG_GONE, cache', payload', t', s)
           else if plen = 0 then Some (TAG_CORRUPT, cache', payload', t', s)
           else if takeWhile (\<lambda>c. c \<noteq> 0) uri = COMMISSION_URI
           then map_option (\<lambda>(ret, payload'', t'', s'). (TAG_HANDLED ret, cache', payload'', t'', s'))
                  (commissionHandleNfc env p m tx junk cache' (nat plen) payload' t' s)
           else Some (TAG_HANDLED False, cache', payload', t', s))))"

text \<open>
  The loop, for the passes until the tag is seen to be gone; the lamps that were lit, in
  order (\<open>True\<close> is green).
\<close>

fun mfulHandle ::
  "(nfc_env \<times> newdb option) list \<Rightarrow> bool \<Rightarrow> parser_data \<Rightarrow> 't transceive \<Rightarrow> u8 list \<Rightarrow> u8 list \<times> u8 list \<times> 't \<times> nfc_state
   \<Rightarrow> (bool list \<times> u8 list \<times> u8 list \<times> 't \<times> nfc_state) option" where
  "mfulHandle [] first p tx junk u = Some ([], u)"
| "mfulHandle ((env, m) # passes) first p tx junk u = (case mful_pass env p m tx junk u of
     None \<Rightarrow> None
   | Some (TAG_GONE, u') \<Rightarrow> Some ([], u')
   | Some (TAG_CORRUPT, u') \<Rightarrow>
       map_option (\<lambda>(lamps, u''). ((if first then [False] else []) @ lamps, u'')) (mfulHandle passes False p tx junk u')
   | Some (TAG_HANDLED ret, u') \<Rightarrow> map_option (\<lambda>(lamps, u''). (ret # lamps, u'')) (mfulHandle passes False p tx junk u'))"

definition nfc_attrs_start :: parsing where
  "nfc_attrs_start = commissionInit parsing_init"

section \<open>The pieces of an answer\<close>

text \<open>The parser only adds call-backs, so the pieces are those of the whole.\<close>

lemma trace_jsonError: "prefix T (p_trace p) \<Longrightarrow> prefix T (p_trace (jsonError e p))"
  by (auto simp: jsonError_def emit_def)

lemma trace_emit: "prefix T (p_trace p) \<Longrightarrow> prefix T (p_trace (emit h ev p))"
  by (auto simp: emit_def)

lemma trace_append: "prefix T (p_trace p) \<Longrightarrow> prefix T (p_trace (appendName c p))"
  "prefix T (p_trace p) \<Longrightarrow> prefix T (p_trace (appendValue c p))"
  by (simp_all add: appendName_def appendValue_def Let_def trace_jsonError)

lemma trace_setState: "prefix T (p_trace p) \<Longrightarrow> prefix T (p_trace (setState st p))"
  by (cases st) (simp_all add: setState_def Let_def trace_jsonError)

lemma trace_toState: "prefix T (p_trace p) \<Longrightarrow> prefix T (p_trace (toState st p))"
  by (auto simp: toState_def Let_def intro!: trace_jsonError trace_setState)

lemma trace_upState: "prefix T (p_trace p) \<Longrightarrow> prefix T (p_trace (upState p))"
  by (auto simp: upState_def Let_def intro!: trace_jsonError)

lemmas trace_grows = trace_jsonError trace_emit trace_append trace_setState trace_toState trace_upState

lemma trace_eat_switch: "prefix T (p_trace p) \<Longrightarrow> prefix T (p_trace (fst (eat_switch c p)))"
  by (cases "p_state p") (simp_all add: eat_switch_def trace_grows)

lemma trace_eatNoLog: "prefix T (p_trace p) \<Longrightarrow> prefix T (p_trace (jsonEatNoLog c p))"
proof (induction c p rule: jsonEatNoLog.induct)
  case (1 c p)
  obtain q again where q: "eat_switch c p = (q, again)" by (cases "eat_switch c p")
  then have "prefix T (p_trace q)" using trace_eat_switch [OF "1.prems", of c] by simp
  with "1.IH" [OF q [symmetric]] q show ?case by (subst jsonEatNoLog.simps) simp
qed

lemma trace_eat: "prefix (p_trace p) (p_trace (jsonEat c p))"
  unfolding jsonEat_def Let_def by (rule trace_eatNoLog) simp

lemma trace_eats: "prefix (p_trace p) (p_trace (jsonEats s p))"
proof (induction s arbitrary: p)
  case (Cons c s)
  have "prefix (p_trace p) (p_trace (jsonEat c p))" by (rule trace_eat)
  also have "prefix (p_trace (jsonEat c p)) (p_trace (jsonEats s (jsonEat c p)))" by (rule Cons.IH)
  finally (prefix_order.trans) show ?case by simp
qed (simp add: jsonEats_def)

lemma com_callbacks_append: "com_callbacks (xs @ ys) s = Option.bind (com_callbacks xs s) (com_callbacks ys)"
proof (induction xs arbitrary: s)
  case (Cons x xs)
  then show ?case by (cases "com_callback x s") simp_all
qed simp

lemma com_read_pieces:
  "p_trace (jsonEats (concat pieces) p) = p_trace p @ es
   \<Longrightarrow> (\<And>xs ys u. es = xs @ ys \<Longrightarrow> ys \<noteq> [] \<Longrightarrow> com_callbacks xs s = Some u \<Longrightarrow> \<not> nfc_ready u)
   \<Longrightarrow> com_read pieces p s = com_callbacks es s"
proof (induction pieces arbitrary: p s es)
  case (Cons piece pieces)
  let ?p = "jsonEats piece p"
  have eats: "jsonEats (concat (piece # pieces)) p = jsonEats (concat pieces) ?p" by (simp add: jsonEats_def)
  obtain xs where xs: "p_trace ?p = p_trace p @ xs" using trace_eats [of p piece] by (auto elim: prefixE)
  obtain ys where ys: "p_trace (jsonEats (concat pieces) ?p) = p_trace ?p @ ys" using trace_eats [of ?p "concat pieces"] by (auto elim: prefixE)
  have es: "es = xs @ ys" using Cons.prems(1) xs ys by (simp add: eats)
  show ?case
  proof (cases "nfc_ready s")
    case True
    then have "es = []" using Cons.prems(2) [of "[]" es s] by auto
    with True show ?thesis by simp
  next
    case False
    have "com_read pieces ?p u = com_callbacks ys u" if u: "com_callbacks xs s = Some u" for u
    proof (rule Cons.IH [OF ys])
      fix xs' ys' w assume "ys = xs' @ ys'" "ys' \<noteq> []" "com_callbacks xs' u = Some w"
      then show "\<not> nfc_ready w"
        using Cons.prems(2) [of "xs @ xs'" ys' w] u by (simp add: es com_callbacks_append)
    qed
    then show ?thesis using False xs by (cases "com_callbacks xs s") (simp_all add: es com_callbacks_append)
  qed
qed (simp add: jsonEats_def)

lemma com_callbacks_members:
  "com_callbacks (map member_event ms @ evs) s = com_callbacks evs (s\<lparr>nfc_attrs := assign_members ms (nfc_attrs s)\<rparr>)"
proof (induction ms arbitrary: s)
  case (Cons x ms)
  obtain k v where x: "x = (k, v)" by (cases x)
  show ?case by (cases v) (simp_all add: x Cons.IH assign_members_def)
qed (simp add: assign_members_def)

lemma com_members_ready: "com_callbacks (map member_event ms) s = Some u \<Longrightarrow> nfc_ready u = nfc_ready s"
  using com_callbacks_members [of ms "[]" s] by auto

lemma at_top_reset: "json_inv p \<Longrightarrow> at_top (p_trace p) (jsonReset (p\<lparr>p_on := all_handlers\<rparr>))"
  by (simp add: at_top_def json_inv_def json_sizes) (auto simp: jsonReset_def name_row_def value_row_def chars_size_def errbuf_row_def json_sizes nth_list_update)

text \<open>A message in pieces: the call-backs of the message, in order.\<close>

lemma com_read_message:
  assumes "json_inv p" and "ok_message nm ms" and "concat pieces = show_message nm ms" and "\<not> nfc_ready s"
  shows "com_read pieces (jsonReset (p\<lparr>p_on := all_handlers\<rparr>)) s
    = com_onObjectComplete nm (s\<lparr>nfc_attrs := assign_members ms (parsingReset (nfc_attrs s))\<rparr>)"
proof -
  note top = at_top_reset [OF assms(1)]
  have trace: "p_trace (jsonEats (concat pieces) (jsonReset (p\<lparr>p_on := all_handlers\<rparr>))) = p_trace (jsonReset (p\<lparr>p_on := all_handlers\<rparr>)) @ message_events nm ms"
    using eat_message [OF top assms(2)] top by (simp add: at_top_def assms(3))
  have "\<not> nfc_ready u" if split: "message_events nm ms = xs @ ys" "ys \<noteq> []" "com_callbacks xs s = Some u" for xs ys u
  proof (cases xs)
    case (Cons x xs')
    have "message_events nm ms = (EvObjectStart nm # map member_event ms) @ [EvObjectComplete nm]" by (simp add: message_events_def)
    with split(1,2) Cons obtain zs where zs: "x = EvObjectStart nm" "map member_event ms = xs' @ zs"
      by (cases ys rule: rev_cases) auto
    then have xs': "xs' = map member_event (take (length xs') ms)" by (metis append_eq_conv_conj take_map)
    have "com_callbacks (map member_event (take (length xs') ms)) (s\<lparr>nfc_attrs := parsingReset (nfc_attrs s)\<rparr>) = Some u"
      using split(3) Cons zs(1) xs' by simp
    from com_members_ready [OF this] assms(4) show ?thesis by simp
  qed (use split(3) assms(4) in simp)
  from com_read_pieces [OF trace this]
  have "com_read pieces (jsonReset (p\<lparr>p_on := all_handlers\<rparr>)) s = com_callbacks (message_events nm ms) s" .
  also have "\<dots> = com_onObjectComplete nm (s\<lparr>nfc_attrs := assign_members ms (parsingReset (nfc_attrs s))\<rparr>)" (is "_ = ?r")
    by (cases ?r) (simp_all add: message_events_def com_callbacks_members)
  finally show ?thesis .
qed


section \<open>The credentials\<close>

lemma com_strings: "string_limits nfc_attrs_start = [(''nwkey'', 32), (''mic'', 8), (''tcaddr'', 16), (''pan'', 4), (''extpan'', 16)]"
  unfolding nfc_attrs_start_def commissionInit_def registered
  by (simp add: string_limits_def parsing_init_def)

lemma com_ints: "int_names nfc_attrs_start = [''keyseq'', ''chan'']"
  unfolding nfc_attrs_start_def commissionInit_def registered
  by (simp add: int_names_def parsing_init_def add_name_def)

lemma com_wf: "parsing_wf nfc_attrs_start"
  unfolding nfc_attrs_start_def commissionInit_def add_attrs_def by (rule registration_wf) simp_all

lemma com_known: "string_maxlen nfc_attrs_start ''nwkey'' = Some 32" "string_maxlen nfc_attrs_start ''mic'' = Some 8"
  "string_maxlen nfc_attrs_start ''tcaddr'' = Some 16" "string_maxlen nfc_attrs_start ''pan'' = Some 4"
  "string_maxlen nfc_attrs_start ''extpan'' = Some 16" "int_known nfc_attrs_start ''keyseq''" "int_known nfc_attrs_start ''chan''"
  using com_ints by (simp_all add: string_maxlen_limits com_strings int_known_map int_names_def)

lemma byte_nibbles_at:
  fixes w :: "'a :: len word"
  shows "hex2nibblestr [ucast (drop_bit k w)] = [num2nibble (take_bit 4 (drop_bit (k + 4) (uint w))), num2nibble (take_bit 4 (drop_bit k (uint w)))]"
proof -
  have b: "uint (ucast (drop_bit k w) :: u8) = take_bit 8 (drop_bit k (uint w))"
    by (rule bit_eqI) (auto simp: bit_simps bit_uint_iff)
  have "uint (drop_bit 4 x AND 15) = take_bit 4 (drop_bit 4 (uint x))" "uint (x AND 15) = take_bit 4 (uint x)" for x :: u8
    by (auto intro!: bit_eqI simp: bit_simps bit_uint_iff word_and_15)
  moreover have "take_bit 4 (drop_bit 4 (take_bit 8 (drop_bit k y))) = take_bit 4 (drop_bit (k + 4) y)" 
     "take_bit 4 (take_bit 8 (drop_bit k y)) = take_bit 4 (drop_bit k y)" for y :: int
    by (auto intro!: bit_eqI simp: bit_simps ac_simps)
  ultimately show ?thesis by (simp add: b)
qed

lemma digs16_div: "digs16 k n = rev (map (\<lambda>i. take_bit 4 (drop_bit (4 * i) n)) [0..<k])"
proof (induction k arbitrary: n)
  case (Suc k)
  have "[0..<Suc k] = 0 # map Suc [0..<k]" by (simp add: upt_conv_Cons map_Suc_upt del: upt_Suc)
  moreover have "drop_bit (4 * i) (n div 16) = drop_bit (4 + 4 * i) n" for i
    by (simp add: drop_bit_eq_div div_mult2_eq power_add)
  moreover have "n mod 16 = take_bit 4 n" by (simp add: take_bit_eq_mod)
  ultimately show ?case by (simp add: Suc.IH o_def del: upt_Suc)
qed simp

lemma be64_nibbles: "hex2nibblestr (be64 u) = u642nibblestr u"
proof -
  have be: "be64 u = map (\<lambda>k. ucast (drop_bit k u)) [56, 48, 40, 32, 24, 16, 8, 0]"
    unfolding be64_def be32_def be16_def
    by (simp, intro conjI; (rule bit_word_eqI, simp add: bit_simps)?)
  have app: "hex2nibblestr (x # y # xs) = hex2nibblestr [x] @ hex2nibblestr (y # xs)" for x y xs by simp
  have nat: "num2nibble (int (take_bit 4 (drop_bit n (unat u)))) = num2nibble (take_bit 4 (drop_bit n (uint u)))" for n
    by (simp add: of_nat_take_bit of_nat_drop_bit)
  have "[0..<16] = [0, 1, 2, 3, 4, 5, 6, 7, 8, 9, 10, 11, 12, 13, 14, 15]" by (simp add: upt_rec)
  then have "u642nibblestr u = map (\<lambda>n. num2nibble (take_bit 4 (drop_bit n (uint u)))) [60, 56, 52, 48, 44, 40, 36, 32, 28, 24, 20, 16, 12, 8, 4, 0]"
    unfolding u642nibblestr_digs digs16_div nibble_chars_def by (simp add: nat nat [of 0, simplified])
  then show ?thesis
    unfolding be list.map app byte_nibbles_at by simp
qed

lemma x_codes: "code CHR ''x'' = 120" "code CHR ''X'' = 88"
  by code_simp+

lemma nibble_plain: "is_upper_nibble c \<Longrightarrow> \<not> c_isspace c \<and> c \<noteq> CHR ''-'' \<and> c \<noteq> CHR ''+'' \<and> c \<noteq> CHR ''x'' \<and> c \<noteq> CHR ''X'' \<and> c_isxdigit c"
  by (auto simp: is_upper_nibble_def c_isspace_def c_isxdigit_def char_le_code x_codes)

lemma AtoiHex_nibbles: "AtoiHex (Some (hex2nibblestr (be16 pan))) = uint pan"
proof -
  let ?n = "\<lambda>k. take_bit 4 (drop_bit k (uint pan))"
  have n: "0 \<le> take_bit 4 x" "take_bit 4 x < 16" for x :: int using take_bit_int_less_exp [of 4 x] by simp_all
  have "hex2nibblestr (be16 pan) = hex2nibblestr [ucast (drop_bit 8 pan)] @ hex2nibblestr [ucast (drop_bit 0 pan)]"
    by (simp add: be16_def)
  also have "\<dots> = [num2nibble (?n 12), num2nibble (?n 8), num2nibble (?n 4), num2nibble (?n 0)]"
    unfolding byte_nibbles_at by simp
  finally have h: "hex2nibblestr (be16 pan) = [num2nibble (?n 12), num2nibble (?n 8), num2nibble (?n 4), num2nibble (?n 0)]" .
  have "AtoiHex (Some [a, b, c, d]) = clamp_int (hex_value [a, b, c, d])"
    if "is_upper_nibble a" "is_upper_nibble b" "is_upper_nibble c" "is_upper_nibble d" for a b c d
    using that [THEN nibble_plain] by (simp add: AtoiHex_def c_sign_def c_skip0x_def)
  then have "AtoiHex (Some (hex2nibblestr (be16 pan))) = clamp_int (((?n 12 * 16 + ?n 8) * 16 + ?n 4) * 16 + ?n 0)"
    unfolding h by (simp add: is_upper_nibble_num2nibble [OF n] hex_value_def nibble2num_num2nibble [OF n] algebra_simps)
  also have "((?n 12 * 16 + ?n 8) * 16 + ?n 4) * 16 + ?n 0 = uint pan"
  proof -
    define q where "q k = drop_bit (4 * k) (uint pan)" for k
    have q: "q k = 16 * q (Suc k) + take_bit 4 (q k)" for k
    proof -
      have "q (Suc k) = drop_bit 4 (q k)" by (simp add: q_def)
      then show ?thesis by (simp add: take_bit_eq_mod drop_bit_eq_div)
    qed
    have "q 4 = 0" using uint_bounded [of pan] by (simp add: q_def drop_bit_eq_div)
    with q [of 0] q [of 1] q [of 2] q [of 3] have "q 0 = ((take_bit 4 (q 3) * 16 + take_bit 4 (q 2)) * 16 + take_bit 4 (q 1)) * 16 + take_bit 4 (q 0)"
      by (simp add: numeral_eq_Suc)
    then show ?thesis by (simp add: q_def)
  qed
  also have "clamp_int (uint pan) = uint pan"
    using uint_bounded [of pan] order_trans [OF _ uint_ge_0 [of pan], of "- 2147483648"]
    by (simp add: clamp_int_def INT_MIN_def INT_MAX_def max_absorb2)
  finally show ?thesis .
qed

lemma hex_attr_read:
  "parsingGetStringAttr p name = Some (hex2nibblestr bs) \<Longrightarrow> length bs = n \<Longrightarrow> 0 < n \<Longrightarrow> hex_attr p name n = Some bs"
proof -
  assume a: "parsingGetStringAttr p name = Some (hex2nibblestr bs)" "length bs = n" "0 < n"
  then have "hex2nibblestr bs \<noteq> []" by (cases bs) auto
  with a(1) have "parsingGetStringAttr0 p name = Some (hex2nibblestr bs)" by (auto simp: parsingGetStringAttr0_def parsingGetStringAttr_def Let_def split: option.splits)
  with a(2,3) show ?thesis
    using nibblestr2hex_hex2nibblestr [of bs n "replicate n 0"] by (simp add: hex_attr_def)
qed

lemma secjoin_of_message:
  assumes "length nwkey = 16" and "length mic = 4"
    and "parsingReset q = parsingReset nfc_attrs_start"
  shows "secjoin_read (assign_members (join_members chan keyseq pan extpan nwkey mic tc) (parsingReset q))
    = Some \<lparr>sec_channel = chan, sec_keyseq = keyseq, sec_pan = pan, sec_extpan = be64 extpan, sec_nwkey = nwkey, sec_mic = mic, sec_tcaddr = be64 tc\<rparr>"
proof -
  let ?ms = "join_members chan keyseq pan extpan nwkey mic tc"
  have members: "string_members ?ms = [(''pan'', hex2nibblestr (be16 pan)), (''extpan'', u642nibblestr extpan), (''nwkey'', hex2nibblestr nwkey),
      (''mic'', hex2nibblestr mic), (''tcaddr'', u642nibblestr tc)]" "int_members ?ms = [(''chan'', uint chan), (''keyseq'', uint keyseq)]"
    by (simp_all add: join_members_def)
  then have dist: "distinct (map fst (string_members ?ms))" by simp
  note present = string_present(2) [OF com_wf com_known(1) dist, of "hex2nibblestr nwkey"] string_present(2) [OF com_wf com_known(2) dist, of "hex2nibblestr mic"]
    string_present(2) [OF com_wf com_known(3) dist, of "u642nibblestr tc"] string_present(2) [OF com_wf com_known(4) dist, of "hex2nibblestr (be16 pan)"]
    string_present(2) [OF com_wf com_known(5) dist, of "u642nibblestr extpan"]
  let ?q = "assign_members ?ms (parsingReset q)"
  have l: "length (hex2nibblestr nwkey) = 32" "length (hex2nibblestr mic) = 8" "length (hex2nibblestr (be16 pan)) = 4"
    using assms(1,2) by (simp_all add: be16_def)
  then have ne: "hex2nibblestr nwkey \<noteq> []" "hex2nibblestr mic \<noteq> []" "hex2nibblestr (be16 pan) \<noteq> []" "u642nibblestr w \<noteq> []" for w
    using length_u642nibblestr [of w] by (auto simp del: length_u642nibblestr length_hex2nibblestr)
  have got: "parsingGetStringAttr ?q ''nwkey'' = Some (hex2nibblestr nwkey)" "parsingGetStringAttr ?q ''mic'' = Some (hex2nibblestr mic)"
    "parsingGetStringAttr ?q ''tcaddr'' = Some (hex2nibblestr (be64 tc))" "parsingGetStringAttr ?q ''pan'' = Some (hex2nibblestr (be16 pan))"
    "parsingGetStringAttr ?q ''extpan'' = Some (hex2nibblestr (be64 extpan))"
    using present ne l by (simp_all add: members assms(3) fits_maxlen_def be64_nibbles)
  have ints: "parsingGetIntAttr ?q ''chan'' = uint chan" "parsingGetIntAttr ?q ''keyseq'' = uint keyseq"
    unfolding assms(3) by (simp_all add: int_after_message [OF com_wf] com_known members last_assigned_def)
  show ?thesis
    using hex_attr_read [OF got(1) assms(1)] hex_attr_read [OF got(2) assms(2)] hex_attr_read [OF got(3), of 8] hex_attr_read [OF got(5), of 8]
    by (simp add: secjoin_read_def ints got(4) AtoiHex_nibbles)
qed


section \<open>Payloads on a tag\<close>

text \<open>A tag whose memory is the message with this payload and the URI of the daemon.\<close>

definition tag_holds :: "('t \<Rightarrow> nat \<Rightarrow> u8) \<Rightarrow> u8 list \<Rightarrow> 't \<Rightarrow> bool" where
  "tag_holds view payload t \<longleftrightarrow>
     (\<forall>k < length (ndef_content payload COMMISSION_URI). view t (16 + k) = ndef_content payload COMMISSION_URI ! k)"

lemma commission_content: "length payload = 217 \<Longrightarrow> length (ndef_content payload COMMISSION_URI) = 237"
  by (simp add: ndef_content_def COMMISSION_URI_def)

lemma set_in_payload:
  "length payload = 217 \<Longrightarrow> length (in_bytes c) = 121 \<Longrightarrow> set_in c (payload @ rest) = (take 96 payload @ in_bytes c) @ rest"
  by (simp add: set_in_def overwrite_def)

lemma write_held:
  assumes "memory_tag tx view" and "length payload = 217" and "length (in_bytes c) = 121" and "length cache = 2048"
    and "\<forall>k < 240. cache ! k = view t (16 + k)" and "after s = Some s'"
  shows "\<exists>t'. write_in tx junk cache 217 c after (payload @ rest) t s = Some (True, (take 96 payload @ in_bytes c) @ rest, t', s')
    \<and> tag_holds view (take 96 payload @ in_bytes c) t'"
proof -
  let ?p = "take 96 payload @ in_bytes c"
  have len: "length ?p = 217" using assms(2,3) by simp
  note content = commission_content [OF len]
  have "\<exists>t'. ndef_write tx junk cache ?p COMMISSION_URI t = Some (1, t')
      \<and> (\<forall>k < length (ndef_content ?p COMMISSION_URI). view t' (16 + k) = ndef_content ?p COMMISSION_URI ! k)"
    using assms(4,5) by (intro ndef_write_stored [OF assms(1)]) (simp_all add: content)
  moreover have "take 217 (?p @ rest) = ?p" using len by simp
  ultimately show ?thesis
    using assms(6) unfolding write_in_def set_in_payload [OF assms(2,3)] tag_holds_def Let_def by auto
qed

lemma pass_read:
  assumes "memory_tag tx view" and "tag_holds view payload t" and "length payload = 217" and "length cache = 2048" and "length buf = 2050"
  shows "\<exists>c t'. mful_pass env p m tx junk (cache, buf, t, s)
      = map_option (\<lambda>(ret, payload'', t'', s'). (TAG_HANDLED ret, c, payload'', t'', s'))
          (commissionHandleNfc env p m tx junk c 217 (payload @ drop 217 buf) t' s)
    \<and> view t' = view t \<and> length c = 2048 \<and> (\<forall>k < 240. c ! k = view t (16 + k))"
proof -
  note content = commission_content [OF assms(3)]
  then have short: "length (ndef_content payload COMMISSION_URI) \<le> 1008" by simp
  have uri: "length COMMISSION_URI < 40" "takeWhile (\<lambda>c. c \<noteq> 0) COMMISSION_URI = COMMISSION_URI" by (simp_all add: COMMISSION_URI_def)
  obtain c t' n where r: "ndef_read tx cache t = Some ((int (length payload), payload, COMMISSION_URI), c, t')" "view t' = view t"
    "length c = 2048" "n mod 16 = 0" "length (ndef_content payload COMMISSION_URI) \<le> n + 1" "\<forall>k < n. c ! k = view t (16 + k)"
    using ndef_read_stored [OF assms(1) short assms(2) [unfolded tag_holds_def] assms(4) uri(1)] by (elim exE conjE) (rule that)
  have "240 \<le> n" using r(4,5) content by presburger
  moreover have "overwrite 0 payload (buf[0 := 0]) = payload @ drop 217 buf"
    using assms(3) by (simp add: overwrite_def drop_update_cancel)
  ultimately show ?thesis
    using r uri(2) assms(3) by (intro exI [of _ c] exI [of _ t']) (simp add: mful_pass_def Let_def)
qed

lemma pass_again:
  assumes "memory_tag tx view" and "tag_holds view payload t" and "length payload = 217" and "length cache = 2048" and "length buf = 2050"
    and "payload ! 0 = 11" and "newDbSystemGetInt ''nfcmode'' m = nfcMode s" and "payload ! 2 = handled_seqnr s" and "prevNfcMode s = nfcMode s"
  shows "\<exists>c buf' t'. mful_pass env p m tx junk (cache, buf, t, s) = Some (TAG_HANDLED True, c, buf', t', s) \<and> view t' = view t"
proof -
  obtain c t' where pass: "mful_pass env p m tx junk (cache, buf, t, s)
      = map_option (\<lambda>(ret, payload'', t'', s'). (TAG_HANDLED ret, c, payload'', t'', s'))
          (commissionHandleNfc env p m tx junk c 217 (payload @ drop 217 buf) t' s)" "view t' = view t"
    using pass_read [OF assms(1-5), of env p m junk s] by blast
  have "commissionHandleNfc env p m tx junk c 217 (payload @ drop 217 buf) t' s = Some (True, payload @ drop 217 buf, t', s)"
    using assms(3,6-9) by (simp add: commissionHandleNfc_def COMMISSION_SUPPORTED_VERSION_def c_out_def nth_append Let_def)
  with pass show ?thesis by auto
qed

section \<open>Commissioning\<close>

lemma nfc_commission_answered:
  assumes "json_inv p" and "length nwkey = 16" and "length mic = 4" and "parsingReset (nfc_attrs s) = parsingReset nfc_attrs_start"
    and "concat pieces = show_message ''joinsecure'' (join_members chan keyseq pan extpan nwkey mic tc)"
    and "ne_joiner env = Some (True, pieces)" and "jsonLinkInfo 0 0 0 (hex2nibblestr mac) (hex2nibblestr key) = Some message"
  shows "\<exists>s'. nfc_commission env p mac key s = Some (True, s')
    \<and> nfc_join s' = \<lparr>sec_channel = chan, sec_keyseq = keyseq, sec_pan = pan, sec_extpan = be64 extpan, sec_nwkey = nwkey, sec_mic = mic, sec_tcaddr = be64 tc\<rparr>
    \<and> nfc_to_joiner s' = nfc_to_joiner s @ [message] \<and> nfc_to_control s' = nfc_to_control s \<and> out_seqnr s' = out_seqnr s
    \<and> nfcMode s' = nfcMode s \<and> prevNfcMode s' = prevNfcMode s"
proof -
  let ?s = "s\<lparr>nfc_join := ne_junk env, nfc_ready := False, nfc_to_joiner := nfc_to_joiner s @ [message]\<rparr>"
  have ok: "ok_message ''joinsecure'' (join_members chan keyseq pan extpan nwkey mic tc)"
    using join_wire [OF assms(2,3)] by (simp add: wire_message_def)
  have "com_read pieces (jsonReset (p\<lparr>p_on := all_handlers\<rparr>)) ?s
      = com_onObjectComplete ''joinsecure'' (?s\<lparr>nfc_attrs := assign_members (join_members chan keyseq pan extpan nwkey mic tc) (parsingReset (nfc_attrs ?s))\<rparr>)"
    by (rule com_read_message [OF assms(1) ok assms(5)]) simp
  moreover note secjoin_of_message [OF assms(2,3), of "nfc_attrs s" chan keyseq pan extpan tc, OF assms(4)]
  ultimately show ?thesis
    using assms(6,7) by (simp add: nfc_commission_def com_onObjectComplete_def)
qed

lemma join_in_bytes: "length nwkey = 16 \<Longrightarrow> length mic = 4 \<Longrightarrow>
  in_bytes (join_in n \<lparr>sec_channel = chan, sec_keyseq = keyseq, sec_pan = pan, sec_extpan = be64 extpan, sec_nwkey = nwkey, sec_mic = mic, sec_tcaddr = be64 tc\<rparr>)
  = [2, n, 2] @ replicate 66 0 @ [chan, keyseq] @ be16 pan @ replicate 12 0 @ mic @ nwkey @ be64 extpan @ be64 tc"
proof -
  have ff: "(0xFF :: u16) = mask 8" by (simp add: mask_eq_exp_minus_1)
  have "(ucast (drop_bit 8 pan AND 0xFF) :: u8) = ucast (drop_bit 8 pan)" "(ucast (pan AND 0xFF) :: u8) = ucast pan"
    unfolding ff by (auto intro!: bit_word_eqI simp: bit_simps)
  then show ?thesis
    by (simp add: in_bytes_def join_in_def in_zero_def nfc_commands be16_def)
qed


lemma db_edit_written: "ok_text 16 mac \<Longrightarrow> \<exists>message. jsonDbEditAdd mac (getDeviceDev from) (getDeviceType from) = Some message"
proof -
  assume mac: "ok_text 16 mac"
  have dev: "0 \<le> getDeviceDev from \<and> getDeviceDev from \<le> 8"
    by (simp add: getDeviceDev_def DEVICE_DEV_UNKNOWN_def DEVICE_DEV_MANAGER_def DEVICE_DEV_PUMP_def DEVICE_DEV_LAMP_def DEVICE_DEV_PLUG_def
        DEVICE_DEV_UI_def DEVICE_DEV_SENSOR_def DEVICE_DEV_UISENSOR_def DEVICE_DEV_SWITCH_def)
  then have digits: "length (c_itoa (getDeviceDev from)) \<le> 11" by (intro length_c_itoa) (simp_all add: INT_MIN_def INT_MAX_def)
  let ?ms = "[(''add'', VStr mac), (''dev'', VInt (getDeviceDev from))] @ opt_str ''ty'' (getDeviceType from)"
  have "getDeviceType from \<in> {None, Some ''h'', Some ''onoff'', Some ''dim'', Some ''tw'', Some ''col''}" by (simp add: getDeviceType_def)
  then have "message_fits ''dbedit'' ?ms"
    using text_bounds [OF mac] digits
    by (auto simp: opt_str_def message_fits_def show_message_def show_member_def MAXNAMEVALUE_def MAXJSONMESSAGE_def)
  then show ?thesis using json_msg_show [of "''dbedit''" ?ms] by (simp add: jsonDbEditAdd_def)
qed


definition sec_sized :: "secjoin_t \<Rightarrow> bool" where
  "sec_sized j \<longleftrightarrow> length (sec_extpan j) = 8 \<and> length (sec_nwkey j) = 16 \<and> length (sec_mic j) = 4 \<and> length (sec_tcaddr j) = 8"

text \<open>A pass in commission mode, once the joiner was asked: whatever is in \<open>secjoin\<close> is written.\<close>

lemma join_pass:
  assumes "memory_tag tx view" and "tag_holds view payload t" and "length payload = 217" and "length cache = 2048" and "length buf = 2050"
    and "payload ! 0 = 11" and "take 8 (drop 72 payload) = mac" and "take 16 (drop 80 payload) = key"
    and "newDbSystemGetInt ''nfcmode'' m = 0" and "payload ! 2 \<noteq> handled_seqnr s \<or> prevNfcMode s \<noteq> 0"
    and "nfc_commission env p mac key (s\<lparr>nfcMode := 0, prevNfcMode := 0\<rparr>) = Some (True, s1)" and "sec_sized (nfc_join s1)"
    and "jsonDbEditAdd (hex2nibblestr mac) (getDeviceDev (payload ! 1)) (getDeviceType (payload ! 1)) = Some message" and "ne_control env = Some True"
  shows "\<exists>c' rest t'. mful_pass env p m tx junk (cache, buf, t, s)
      = Some (TAG_HANDLED True, c', (take 96 payload @ in_bytes (join_in (out_seqnr s1) (nfc_join s1))) @ rest, t',
          s1\<lparr>out_seqnr := out_seqnr s1 + 1, nfc_to_control := nfc_to_control s1 @ [message], handled_seqnr := payload ! 2\<rparr>)
    \<and> tag_holds view (take 96 payload @ in_bytes (join_in (out_seqnr s1) (nfc_join s1))) t'
    \<and> length c' = 2048 \<and> length (take 96 payload @ in_bytes (join_in (out_seqnr s1) (nfc_join s1))) = 217 \<and> length rest = 1833"
proof -
  let ?in = "in_bytes (join_in (out_seqnr s1) (nfc_join s1))"
  obtain c t1 where pass: "mful_pass env p m tx junk (cache, buf, t, s)
      = map_option (\<lambda>(ret, payload'', t'', s'). (TAG_HANDLED ret, c, payload'', t'', s'))
          (commissionHandleNfc env p m tx junk c 217 (payload @ drop 217 buf) t1 s)"
    "view t1 = view t" "length c = 2048" "\<forall>k < 240. c ! k = view t (16 + k)"
    using pass_read [OF assms(1-5), of env p m junk s] by blast
  let ?s2 = "s1\<lparr>out_seqnr := out_seqnr s1 + 1, nfc_to_control := nfc_to_control s1 @ [message]\<rparr>"
  have edit: "dbEdit env True mac (getDeviceDev (payload ! 1)) (getDeviceType (payload ! 1)) (s1\<lparr>out_seqnr := out_seqnr s1 + 1\<rparr>) = Some ?s2"
    using assms(13,14) by (simp add: dbEdit_def)
  have len: "length ?in = 121" using assms(12) by (simp add: sec_sized_def in_bytes_def join_in_def in_zero_def)
  have "\<forall>k < 240. c ! k = view t1 (16 + k)" using pass(2,4) by simp
  from write_held [where after = "dbEdit env True mac (getDeviceDev (payload ! 1)) (getDeviceType (payload ! 1))",
      OF assms(1,3) len pass(3) this edit, of junk "drop 217 buf"]
  obtain t2 where w: "write_in tx junk c 217 (join_in (out_seqnr s1) (nfc_join s1))
      (dbEdit env True mac (getDeviceDev (payload ! 1)) (getDeviceType (payload ! 1))) (payload @ drop 217 buf) t1
      (s1\<lparr>out_seqnr := out_seqnr s1 + 1\<rparr>) = Some (True, (take 96 payload @ ?in) @ drop 217 buf, t2, ?s2)"
    "tag_holds view (take 96 payload @ ?in) t2" by blast
  have out: "c_out (payload @ drop 217 buf) = c_out payload" "out_NodeMacAddress (c_out payload) = mac" "out_NodeLinkKey (c_out payload) = key"
    "out_From (c_out payload) = payload ! 1" "out_SeqNr (c_out payload) = payload ! 2"
    using assms(3,7,8) by (simp_all add: c_out_def nth_append)
  have "out_SeqNr (c_out ((take 96 payload @ ?in) @ drop 217 buf)) = payload ! 2" using assms(3) by (simp add: c_out_def nth_append)
  then have "commissionHandleNfc env p m tx junk c 217 (payload @ drop 217 buf) t1 s
      = Some (True, (take 96 payload @ ?in) @ drop 217 buf, t2, ?s2\<lparr>handled_seqnr := payload ! 2\<rparr>)"
    using assms(3,6,9-11) w(1)
    by (auto simp: commissionHandleNfc_def COMMISSION_SUPPORTED_VERSION_def nth_append out handle_join_def nfc_modes Let_def)
  with pass(1,3) w(2) len assms(3,5) show ?thesis by (intro exI [of _ c] exI [of _ "drop 217 buf"] exI [of _ t2]) simp
qed


text \<open>
  C6: A device on the reader is commissioned: when its tag holds a payload of this version, the
  gateway is in commission mode, and the payload was not the last one handled, then the
  daemon sends the secure joiner the device's address and link key, and when the joiner
  replies with credentials, in any pieces, the tag afterwards holds the device's half
  unchanged and exactly these credentials behind the join command; the control interface is
  told the address, the kind and the type of the device; and the next pass over the tag, in
  the same mode, leaves the tag as it is and sends nothing.
\<close>

theorem nfc_device_joins:
  fixes u tc extpan :: u64 and keyseq chan :: u8 and pan :: u16
  assumes "memory_tag tx view" and "tag_holds view payload t" and "length payload = 217" and "payload ! 0 = 11"
    and "take 8 (drop 72 payload) = be64 u" and "take 16 (drop 80 payload) = key"
    and "newDbSystemGetInt ''nfcmode'' m = 0" and "payload ! 2 \<noteq> handled_seqnr s \<or> prevNfcMode s \<noteq> 0"
    and "length nwkey = 16" and "length mic = 4"
    and "jsonJoinSecure (uint chan) (uint keyseq) (hex2nibblestr (be16 pan)) (u642nibblestr extpan) (hex2nibblestr nwkey)
        (hex2nibblestr mic) (u642nibblestr tc) = Some reply"
    and "concat pieces = reply" and "ne_joiner env = Some (True, pieces)" and "ne_control env = Some True"
    and "json_inv p" and "parsingReset (nfc_attrs s) = parsingReset nfc_attrs_start"
    and "length cache = 2048" and "length buf = 2050"
  shows "\<exists>c' buf' t' s' input message c'' buf'' t''.
      mful_pass env p m tx junk (cache, buf, t, s) = Some (TAG_HANDLED True, c', buf', t', s')
    \<and> tag_holds view (take 96 payload @ [2, out_seqnr s, 2] @ replicate 66 0 @ [chan, keyseq] @ be16 pan @ replicate 12 0
        @ mic @ nwkey @ be64 extpan @ be64 tc) t'
    \<and> jsonLinkInfo 0 0 0 (u642nibblestr u) (hex2nibblestr key) = Some input \<and> nfc_to_joiner s' = nfc_to_joiner s @ [input]
    \<and> jsonDbEditAdd (u642nibblestr u) (getDeviceDev (payload ! 1)) (getDeviceType (payload ! 1)) = Some message
    \<and> nfc_to_control s' = nfc_to_control s @ [message]
    \<and> mful_pass env' p' m tx junk' (c', buf', t', s') = Some (TAG_HANDLED True, c'', buf'', t'', s') \<and> view t'' = view t'"
proof -
  let ?in = "[2, out_seqnr s, 2] @ replicate 66 0 @ [chan, keyseq] @ be16 pan @ replicate 12 0 @ mic @ nwkey @ be64 extpan @ be64 tc"
  let ?j = "\<lparr>sec_channel = chan, sec_keyseq = keyseq, sec_pan = pan, sec_extpan = be64 extpan, sec_nwkey = nwkey, sec_mic = mic, sec_tcaddr = be64 tc\<rparr>"
  have key: "length key = 16" using assms(3) unfolding assms(6) [symmetric] by simp
  have pieces: "concat pieces = show_message ''joinsecure'' (join_members chan keyseq pan extpan nwkey mic tc)"
    using assms(11,12) join_written [OF assms(9,10)] by simp
  obtain input where input: "jsonLinkInfo 0 0 0 (u642nibblestr u) (hex2nibblestr key) = Some input"
    using wire_json [OF linkinfo_wire [OF nibble_texts(1) nibble_texts(2) [OF key]], of 0 0 0 u]
    by (simp add: jsonLinkInfo_def linkinfo_members_def INT_MAX_def)
  obtain message where message: "jsonDbEditAdd (u642nibblestr u) (getDeviceDev (payload ! 1)) (getDeviceType (payload ! 1)) = Some message"
    using db_edit_written [OF nibble_texts(1)] by blast
  let ?s = "s\<lparr>nfcMode := 0, prevNfcMode := 0\<rparr>"
  obtain s1 where s1: "nfc_commission env p (be64 u) key ?s = Some (True, s1)" "nfc_join s1 = ?j"
    "nfc_to_joiner s1 = nfc_to_joiner s @ [input]" "nfc_to_control s1 = nfc_to_control s" "out_seqnr s1 = out_seqnr s" "nfcMode s1 = 0" "prevNfcMode s1 = 0"
    using nfc_commission_answered [OF assms(15,9,10) _ pieces assms(13), of ?s "be64 u" key input] assms(16) input by (auto simp: be64_nibbles)
  have sized: "sec_sized (nfc_join s1)" using assms(9,10) by (simp add: s1(2) sec_sized_def)
  have bytes: "in_bytes (join_in (out_seqnr s1) (nfc_join s1)) = ?in" unfolding s1(2,5) by (rule join_in_bytes [OF assms(9,10)])
  let ?s3 = "s1\<lparr>out_seqnr := out_seqnr s1 + 1, nfc_to_control := nfc_to_control s1 @ [message], handled_seqnr := payload ! 2\<rparr>"
  obtain c rest t2 where first: "mful_pass env p m tx junk (cache, buf, t, s) = Some (TAG_HANDLED True, c, (take 96 payload @ ?in) @ rest, t2, ?s3)"
    "tag_holds view (take 96 payload @ ?in) t2" "length c = 2048" "length (take 96 payload @ ?in) = 217" "length rest = 1833"
    using join_pass [OF assms(1-3,17,18,4-8) s1(1) sized _ assms(14), of message junk] message unfolding bytes be64_nibbles by blast
  have buf': "length ((take 96 payload @ ?in) @ rest) = 2050" using first(4,5) by (simp only: length_append)
  have head: "(take 96 payload @ ?in) ! 0 = 11" "(take 96 payload @ ?in) ! 2 = payload ! 2" using assms(3,4) by (simp_all add: nth_append)
  have "newDbSystemGetInt ''nfcmode'' m = nfcMode ?s3" "(take 96 payload @ ?in) ! 2 = handled_seqnr ?s3" "prevNfcMode ?s3 = nfcMode ?s3"
    using assms(7) s1(6,7) head(2) by simp_all
  note again = pass_again [OF assms(1) first(2,4,3) buf' head(1) this, of env' p' junk']
  have sent: "nfc_to_joiner ?s3 = nfc_to_joiner s @ [input]" "nfc_to_control ?s3 = nfc_to_control s @ [message]" using s1(3,4) by simp_all
  from first(1,2) again input message sent show ?thesis by blast
qed


section \<open>Passes that tell less than they should\<close>

lemma com_callbacks_other:
  "EvObjectComplete ''joinsecure'' \<notin> set es \<Longrightarrow> \<exists>a. com_callbacks es s = Some (s\<lparr>nfc_attrs := a\<rparr>)"
proof (induction es arbitrary: s)
  case Nil
  show ?case by (intro exI [of _ "nfc_attrs s"]) simp
next
  case (Cons e es)
  have "\<exists>a. com_callback e s = Some (s\<lparr>nfc_attrs := a\<rparr>)"
  proof (cases e)
    case (EvObjectComplete x)
    with Cons.prems show ?thesis by (intro exI [of _ "nfc_attrs s"]) (auto simp: com_onObjectComplete_def)
  qed (auto intro: exI [of _ "nfc_attrs s"])
  then obtain a where a: "com_callback e s = Some (s\<lparr>nfc_attrs := a\<rparr>)" by blast
  obtain b where "com_callbacks es (s\<lparr>nfc_attrs := a\<rparr>) = Some (s\<lparr>nfc_attrs := a\<rparr>\<lparr>nfc_attrs := b\<rparr>)" using Cons.IH [of "s\<lparr>nfc_attrs := a\<rparr>"] Cons.prems by auto
  with a show ?case by auto
qed

text \<open>The answers of the joiner that complete no object of that name: an error, or nothing.\<close>

definition joiner_silent :: "parser_data \<Rightarrow> nfc_env \<Rightarrow> bool" where
  "joiner_silent p env \<longleftrightarrow> (case ne_joiner env of
     None \<Rightarrow> True
   | Some (written, pieces) \<Rightarrow> written \<and> (let q = jsonReset (p\<lparr>p_on := all_handlers\<rparr>) in
       EvObjectComplete ''joinsecure'' \<notin> set (drop (length (p_trace q)) (p_trace (jsonEats (concat pieces) q)))))"

lemma commission_silent:
  assumes "joiner_silent p env" and "jsonLinkInfo 0 0 0 (hex2nibblestr mac) (hex2nibblestr key) = Some input"
  shows "\<exists>s'. nfc_commission env p mac key s = Some (True, s') \<and> nfc_join s' = ne_junk env \<and> out_seqnr s' = out_seqnr s
    \<and> nfc_to_control s' = nfc_to_control s \<and> nfcMode s' = nfcMode s \<and> prevNfcMode s' = prevNfcMode s"
proof (cases "ne_joiner env")
  case None
  then show ?thesis by (simp add: nfc_commission_def)
next
  case (Some answer)
  obtain pieces where pieces: "ne_joiner env = Some (True, pieces)"
    using Some assms(1) by (cases answer) (simp add: joiner_silent_def)
  let ?q = "jsonReset (p\<lparr>p_on := all_handlers\<rparr>)"
  obtain es where es: "p_trace (jsonEats (concat pieces) ?q) = p_trace ?q @ es" using trace_eats [of ?q "concat pieces"] by (auto elim: prefixE)
  have silent: "EvObjectComplete ''joinsecure'' \<notin> set es" using assms(1) by (simp add: joiner_silent_def pieces es Let_def del: jsonReset_sel)
  let ?s = "s\<lparr>nfc_join := ne_junk env, nfc_ready := False, nfc_to_joiner := nfc_to_joiner s @ [input]\<rparr>"
  have "\<not> nfc_ready u" if "es = xs @ ys" "com_callbacks xs ?s = Some u" for xs ys u
    using com_callbacks_other [of xs ?s] that silent by auto
  then have "com_read pieces ?q ?s = com_callbacks es ?s" by (intro com_read_pieces [OF es]) blast
  with com_callbacks_other [OF silent, of ?s] pieces assms(2) show ?thesis by (auto simp: nfc_commission_def)
qed

text \<open>
  C25: The daemon commissions blindly: when the secure joiner cannot be reached, or answers
  with an error, or does not answer at all, the pass is still reported as a success; the tag
  afterwards holds the join command with whatever was on the stack in place of the
  credentials, and the control interface is told to add the device.
\<close>

theorem nfc_blind_join:
  assumes "memory_tag tx view" and "tag_holds view payload t" and "length payload = 217" and "payload ! 0 = 11"
    and "newDbSystemGetInt ''nfcmode'' m = 0" and "payload ! 2 \<noteq> handled_seqnr s \<or> prevNfcMode s \<noteq> 0"
    and "joiner_silent p env" and "ne_control env = Some True" and "sec_sized (ne_junk env)"
    and "take 8 (drop 72 payload) = be64 u" and "length cache = 2048" and "length buf = 2050"
  shows "\<exists>c' buf' t' s' message. mful_pass env p m tx junk (cache, buf, t, s) = Some (TAG_HANDLED True, c', buf', t', s')
    \<and> tag_holds view (take 96 payload @ in_bytes (join_in (out_seqnr s) (ne_junk env))) t'
    \<and> jsonDbEditAdd (u642nibblestr u) (getDeviceDev (payload ! 1)) (getDeviceType (payload ! 1)) = Some message
    \<and> nfc_to_control s' = nfc_to_control s @ [message]"
proof -
  let ?key = "take 16 (drop 80 payload)"
  have key: "length ?key = 16" using assms(3) by simp
  obtain input where input: "jsonLinkInfo 0 0 0 (u642nibblestr u) (hex2nibblestr ?key) = Some input"
    using wire_json [OF linkinfo_wire [OF nibble_texts(1) nibble_texts(2) [OF key]], of 0 0 0 u]
    by (simp add: jsonLinkInfo_def linkinfo_members_def INT_MAX_def)
  obtain message where message: "jsonDbEditAdd (u642nibblestr u) (getDeviceDev (payload ! 1)) (getDeviceType (payload ! 1)) = Some message"
    using db_edit_written [OF nibble_texts(1)] by blast
  let ?s = "s\<lparr>nfcMode := 0, prevNfcMode := 0\<rparr>"
  obtain s1 where s1: "nfc_commission env p (be64 u) ?key ?s = Some (True, s1)" "nfc_join s1 = ne_junk env"
    "nfc_to_control s1 = nfc_to_control s" "out_seqnr s1 = out_seqnr s"
    using commission_silent [OF assms(7), of "be64 u" ?key input ?s] input by (auto simp: be64_nibbles)
  obtain c rest t2 where pass: "mful_pass env p m tx junk (cache, buf, t, s)
      = Some (TAG_HANDLED True, c, (take 96 payload @ in_bytes (join_in (out_seqnr s1) (nfc_join s1))) @ rest, t2,
          s1\<lparr>out_seqnr := out_seqnr s1 + 1, nfc_to_control := nfc_to_control s1 @ [message], handled_seqnr := payload ! 2\<rparr>)"
    "tag_holds view (take 96 payload @ in_bytes (join_in (out_seqnr s1) (nfc_join s1))) t2"
    using join_pass [OF assms(1-3,11,12,4,10) refl assms(5,6) s1(1), of message junk] message assms(8,9) unfolding be64_nibbles s1(2) by blast
  have "nfc_to_control (s1\<lparr>out_seqnr := out_seqnr s1 + 1, nfc_to_control := nfc_to_control s1 @ [message], handled_seqnr := payload ! 2\<rparr>)
      = nfc_to_control s @ [message]" by (simp add: s1(3))
  with pass message show ?thesis unfolding s1(2,4) by blast
qed

text \<open>The mode that was last used is the one of the last handled payload.\<close>

lemma com_callback_modes: "com_callback e s = Some u \<Longrightarrow> nfcMode u = nfcMode s \<and> prevNfcMode u = prevNfcMode s"
  by (cases e) (auto simp: com_onObjectComplete_def split: if_splits)

lemma com_callbacks_modes: "com_callbacks es s = Some u \<Longrightarrow> nfcMode u = nfcMode s \<and> prevNfcMode u = prevNfcMode s"
proof (induction es arbitrary: s)
  case (Cons e es)
  then obtain v where "com_callback e s = Some v" "com_callbacks es v = Some u" by (auto simp: bind_eq_Some_conv)
  with Cons.IH [of v] com_callback_modes [of e s v] show ?case by simp
qed simp

lemma com_read_modes: "com_read pieces p s = Some u \<Longrightarrow> nfcMode u = nfcMode s \<and> prevNfcMode u = prevNfcMode s"
proof (induction pieces arbitrary: p s)
  case (Cons piece pieces)
  show ?case
  proof (cases "nfc_ready s")
    case False
    with Cons.prems obtain v where v: "com_callbacks (drop (length (p_trace p)) (p_trace (jsonEats piece p))) s = Some v"
      "com_read pieces (jsonEats piece p) v = Some u" by (auto simp: bind_eq_Some_conv Let_def)
    with Cons.IH [OF v(2)] com_callbacks_modes [OF v(1)] show ?thesis by simp
  qed (use Cons.prems in simp)
qed simp

lemma commission_modes: "nfc_commission env p mac key s = Some (r, u) \<Longrightarrow> nfcMode u = nfcMode s \<and> prevNfcMode u = prevNfcMode s"
  by (auto simp: nfc_commission_def Let_def split: option.splits if_splits dest!: com_read_modes)

lemma dbEdit_modes: "dbEdit env mode mac dev ty s = Some u \<Longrightarrow> nfcMode u = nfcMode s \<and> prevNfcMode u = prevNfcMode s"
  by (auto simp: dbEdit_def split: option.splits if_splits)

lemma write_in_modes:
  assumes "write_in tx junk cache plen c after payload t s = Some (r, payload', t', u)"
    and "\<And>s'. after s = Some s' \<Longrightarrow> nfcMode s' = nfcMode s \<and> prevNfcMode s' = prevNfcMode s"
  shows "nfcMode u = nfcMode s \<and> prevNfcMode u = prevNfcMode s"
  using assms by (auto simp: write_in_def Let_def split: option.splits if_splits)

lemma handle_command_modes: "handle_command env tx junk cache plen cmd payload t s = Some (r, payload', t', u)
  \<Longrightarrow> nfcMode u = nfcMode s \<and> prevNfcMode u = prevNfcMode s"
  by (fastforce simp: handle_command_def split: if_splits dest: write_in_modes dbEdit_modes)

lemma handle_join_modes: "handle_join env p tx junk cache plen payload t s = Some (r, payload', t', u)
  \<Longrightarrow> nfcMode u = nfcMode s \<and> prevNfcMode u = prevNfcMode s"
  by (fastforce simp: handle_join_def Let_def split: option.splits prod.splits bool.splits dest: write_in_modes dbEdit_modes commission_modes)

text \<open>
  A payload is handled once, well or not: whatever the outcome of handling a payload of
  this version, also when the tag could not be written or the joiner not be asked, any later
  payload with the same sequence number is, in the same mode, reported as a success, and
  nothing is written or sent.
\<close>

theorem nfc_handled_once:
  assumes "commissionHandleNfc env p m tx junk cache plen payload t s = Some (ret, payload', t', s')" and "payload ! 0 = 11"
    and "newDbSystemGetInt ''nfcmode'' m' = newDbSystemGetInt ''nfcmode'' m" and "again ! 0 = 11" and "again ! 2 = handled_seqnr s'"
  shows "commissionHandleNfc env' p' m' tx' junk' cache' plen' again t'' s' = Some (True, again, t'', s')
    \<and> handled_seqnr s' = payload' ! 2"
proof -
  let ?mode = "newDbSystemGetInt ''nfcmode'' m"
  have "nfcMode s' = ?mode \<and> prevNfcMode s' = ?mode \<and> handled_seqnr s' = payload' ! 2"
  proof (cases "payload ! 2 = handled_seqnr s \<and> prevNfcMode s = ?mode")
    case True
    then show ?thesis using assms(1,2) by (auto simp: commissionHandleNfc_def COMMISSION_SUPPORTED_VERSION_def c_out_def Let_def)
  next
    case False
    let ?s = "s\<lparr>nfcMode := ?mode, prevNfcMode := ?mode\<rparr>"
    obtain u where u: "s' = u\<lparr>handled_seqnr := payload' ! 2\<rparr>"
      "(if ?mode = NFC_MODE_DECOMMISSION then handle_command env tx junk cache plen COMMAND_LEAVE payload t ?s
        else if ?mode = NFC_MODE_FACTORYRESET then handle_command env tx junk cache plen COMMAND_FACTORYNEW payload t ?s
        else if ?mode = NFC_MODE_COMMISSION then handle_join env p tx junk cache plen payload t ?s
        else Some (False, payload, t, ?s)) = Some (ret, payload', t', u)"
      using assms(1,2) False by (auto simp: commissionHandleNfc_def COMMISSION_SUPPORTED_VERSION_def c_out_def Let_def cong: if_cong)
    then have "nfcMode u = ?mode \<and> prevNfcMode u = ?mode"
      by (auto split: if_splits dest!: handle_command_modes handle_join_modes)
    with u(1) show ?thesis by simp
  qed
  then show ?thesis
    using assms(3-5) by (auto simp: commissionHandleNfc_def COMMISSION_SUPPORTED_VERSION_def c_out_def Let_def)
qed


section \<open>Examples\<close>

definition example_payload :: "u8 list" where
  "example_payload = [11, 0x41, 7] @ replicate 69 0 @ be64 0x0011223344556677 @ replicate 16 5 @ replicate 121 0"

definition example_tag :: "nat \<Rightarrow> u8" where
  "example_tag x = ndef_content example_payload COMMISSION_URI ! (x - 16)"

definition example_nfc :: nfc_state where
  "example_nfc = \<lparr>nfc_attrs = nfc_attrs_start, nfc_join = \<lparr>sec_channel = 0, sec_keyseq = 0, sec_pan = 0, sec_extpan = [], sec_nwkey = [],
     sec_mic = [], sec_tcaddr = []\<rparr>, nfc_ready = False, nfcMode = 0, prevNfcMode = - 1, handled_seqnr = 255, out_seqnr = 0,
     nfc_to_joiner = [], nfc_to_control = []\<rparr>"

definition example_nfc_env :: nfc_env where
  "example_nfc_env = \<lparr>ne_joiner = None, ne_control = Some True, ne_junk = \<lparr>sec_channel = 1, sec_keyseq = 2, sec_pan = 3,
     sec_extpan = replicate 8 9, sec_nwkey = replicate 16 9, sec_mic = replicate 4 9, sec_tcaddr = replicate 8 9\<rparr>\<rparr>"

lemma example_held: "tag_holds (\<lambda>m. m) example_payload example_tag"
  by (simp add: tag_holds_def example_tag_def)

lemma example_fields:
  "length example_payload = 217" "example_payload ! 0 = 11" "take 8 (drop 72 example_payload) = be64 0x0011223344556677"
  "take 16 (drop 80 example_payload) = replicate 16 5" "example_payload ! 2 = 7"
  by (simp_all add: example_payload_def nth_append)

lemma example_not_handled: "example_payload ! 2 \<noteq> handled_seqnr example_nfc \<or> prevNfcMode example_nfc \<noteq> 0"
  by (simp add: example_nfc_def)

lemma mode_db: "\<exists>m. newDbSystemGetInt ''nfcmode'' m = v"
proof -
  have "ok_name_key ''nfcmode''" by code_simp
  moreover have "card (sys_keys (Some db_fresh)) < NEWDB_MAX_SYSTEM" using sys_fresh by (simp add: NEWDB_MAX_SYSTEM_def)
  ultimately show ?thesis using system_save_get [of "Some db_fresh" "''nfcmode''" "''x''" 0 v "''''"] sys_fresh by auto
qed

theorem nfc_device_joins_witness:
  "\<exists>env m c' buf' t' s' input message.
      mful_pass env (json_init all_handlers) m plain_tag [] (replicate 2048 0, replicate 2050 0, example_tag, example_nfc)
        = Some (TAG_HANDLED True, c', buf', t', s')
    \<and> tag_holds (\<lambda>m. m) (take 96 example_payload @ [2, 0, 2] @ replicate 66 0 @ [15, 9] @ be16 0x1234 @ replicate 12 0
        @ replicate 4 1 @ replicate 16 3 @ be64 48 @ be64 1) t'
    \<and> nfc_to_joiner s' = [input] \<and> nfc_to_control s' = [message]"
proof -
  obtain m where m: "newDbSystemGetInt ''nfcmode'' m = 0" using mode_db by blast
  have keys: "length (replicate 16 (3 :: u8)) = 16" "length (replicate 4 (1 :: u8)) = 4" by simp_all
  let ?reply = "show_message ''joinsecure'' (join_members 15 9 0x1234 48 (replicate 16 3) (replicate 4 1) 1)"
  let ?env = "example_nfc_env\<lparr>ne_joiner := Some (True, [take 40 ?reply, drop 40 ?reply])\<rparr>"
  have env: "concat [take 40 ?reply, drop 40 ?reply] = ?reply" "ne_joiner ?env = Some (True, [take 40 ?reply, drop 40 ?reply])"
    "ne_control ?env = Some True" by (simp_all add: example_nfc_env_def)
  have start: "parsingReset (nfc_attrs example_nfc) = parsingReset nfc_attrs_start" "nfc_to_joiner example_nfc = []"
    "nfc_to_control example_nfc = []" "out_seqnr example_nfc = 0" by (simp_all add: example_nfc_def)
  have bufs: "length (replicate 2048 (0 :: u8)) = 2048" "length (replicate 2050 (0 :: u8)) = 2050" by simp_all
  from nfc_device_joins [OF plain_tag_memory example_held example_fields(1-4) m example_not_handled keys join_written [OF keys] env
      json_inv_init start(1) bufs, of all_handlers "[]" ?env "json_init all_handlers" "[]"]
  show ?thesis unfolding start by fastforce
qed

theorem nfc_blind_join_witness:
  "\<exists>m c' buf' t' s' message.
      mful_pass example_nfc_env (json_init all_handlers) m plain_tag [] (replicate 2048 0, replicate 2050 0, example_tag, example_nfc)
        = Some (TAG_HANDLED True, c', buf', t', s')
    \<and> tag_holds (\<lambda>m. m) (take 96 example_payload @ in_bytes (join_in 0 (ne_junk example_nfc_env))) t' \<and> nfc_to_control s' = [message]"
proof -
  obtain m where m: "newDbSystemGetInt ''nfcmode'' m = 0" using mode_db by blast
  have env: "joiner_silent (json_init all_handlers) example_nfc_env" "ne_control example_nfc_env = Some True" "sec_sized (ne_junk example_nfc_env)"
    by (simp_all add: example_nfc_env_def joiner_silent_def sec_sized_def)
  have start: "nfc_to_control example_nfc = []" "out_seqnr example_nfc = 0" by (simp_all add: example_nfc_def)
  have bufs: "length (replicate 2048 (0 :: u8)) = 2048" "length (replicate 2050 (0 :: u8)) = 2050" by simp_all
  from nfc_blind_join [OF plain_tag_memory example_held example_fields(1,2) m example_not_handled env example_fields(3) bufs, of "[]"]
  show ?thesis unfolding start by fastforce
qed

text \<open>A tag that cannot be written.\<close>

definition dead_tag :: "unit transceive" where
  "dead_tag cmd t = ((0, []), t)"

lemma write_blocks_stop: "write_blocks tx i cache content 0 t = (0, t)"
  by (cases "(tx, i, cache, content, 0 :: c_int, t)" rule: write_blocks.cases) simp_all

theorem nfc_handled_once_witness:
  "\<exists>m payload' s'. commissionHandleNfc example_nfc_env (json_init all_handlers) m dead_tag [] (replicate 2048 0) 217 example_payload () example_nfc
      = Some (False, payload', (), s')
    \<and> commissionHandleNfc example_nfc_env (json_init all_handlers) m dead_tag [] (replicate 2048 0) 217 example_payload () s' = Some (True, example_payload, (), s')"
proof -
  let ?j = "json_init all_handlers"
  obtain m where m: "newDbSystemGetInt ''nfcmode'' m = 1" using mode_db by blast
  let ?s = "example_nfc\<lparr>nfcMode := 1, prevNfcMode := 1\<rparr>"
  let ?c = "in_zero\<lparr>in_From := FROM_GATEWAY, in_SeqNr := out_seqnr ?s, in_Command := COMMAND_LEAVE\<rparr>"
  let ?p = "set_in ?c example_payload"
  have p: "length ?p = 217" "?p ! 2 = 7"
    using example_fields by (simp_all add: set_in_def overwrite_def in_bytes_def in_zero_def nth_append)
  have "ndef_write dead_tag [] (replicate 2048 0) (take 217 ?p) COMMISSION_URI () = Some (0, ())"
    using p(1) by (simp add: ndef_write_def ndef_content_def COMMISSION_URI_def dead_tag_def write_blocks_stop NDEF_MAX_SIZE_def Let_def write_cmd_def)
  moreover have "c_in_Command example_payload = 0" by (simp add: c_in_Command_def example_payload_def nth_append)
  ultimately have first: "commissionHandleNfc example_nfc_env ?j m dead_tag [] (replicate 2048 0) 217 example_payload () example_nfc
      = Some (False, ?p, (), ?s\<lparr>out_seqnr := 1, handled_seqnr := 7\<rparr>)"
    using m p example_fields(2,5)
    by (simp add: commissionHandleNfc_def COMMISSION_SUPPORTED_VERSION_def c_out_def handle_command_def write_in_def nfc_modes nfc_commands Let_def
        example_nfc_def cong: if_cong)
  have seq: "example_payload ! 2 = handled_seqnr (?s\<lparr>out_seqnr := 1, handled_seqnr := 7\<rparr>)" by (simp add: example_fields(5))
  from nfc_handled_once [OF first example_fields(2) refl example_fields(2) seq, of example_nfc_env ?j dead_tag "[]" "replicate 2048 0" 217 "()"] first
  show ?thesis by blast
qed


end
