(* ===== verification/BootLoader.thy ===== *)
theory BootLoader
  imports IotPrelude "HOL-Library.Monad_Syntax"
begin

text \<open>
  The request protocol of the firmware flasher: the serial port (\<open>jnFlasher/jennicCommon/uart.c\<close>)
  and the requests to the boot loader of the radio chip (\<open>JN51xx_BootLoader.c\<close>).

  What the operating system does with the port is an argument, a record of its calls over an
  arbitrary state of the line and of the chip behind it.  An operation returns \<open>None\<close> when it
  never returns (a port that refuses to write), or when the program does not survive it (a reply
  longer than the buffer of the caller, a division by zero).  A \<open>uint8_t\<close> length is a \<open>nat\<close>; the
  host stores its words least significant byte first.
\<close>

section \<open>The status codes\<close>

datatype te_status =
    E_PRG_OK | E_PRG_ERROR | E_PRG_OUT_OF_MEMORY | E_PRG_ERROR_WRITING | E_PRG_ERROR_READING
  | E_PRG_FAILED_TO_OPEN_FILE | E_PRG_BAD_PARAMETER | E_PRG_NULL_PARAMETER | E_PRG_INCOMPATIBLE
  | E_PRG_INVALID_FILE | E_PRG_UNSUPPORTED_CHIP | E_PRG_ABORTED | E_PRG_VERIFICATION_FAILED
  | E_PRG_INVALID_TRANSPORT | E_PRG_COMMS_FAILED | E_PRG_UNSUPPORTED_OPERATION
  | E_PRG_FLASH_DEVICE_UNAVAILABLE | E_PRG_CRP_SET

datatype chip_endian = E_CHIP_BIG_ENDIAN | E_CHIP_LITTLE_ENDIAN

section \<open>The serial port\<close>

text \<open>
  \<open>pt_write\<close> is one \<open>write\<close>, \<open>pt_read\<close> a \<open>select\<close> with a time limit and the \<open>read\<close> that follows
  (\<open>None\<close> when \<open>select\<close> fails, no bytes when the time is over), \<open>pt_flush\<close> and \<open>pt_speed\<close> the
  \<open>tcflush\<close> and the setting of the speed.
\<close>

datatype wr_result = WROTE nat | WR_AGAIN | WR_FAILED

record 'd port =
  pt_write :: "u8 list \<Rightarrow> 'd \<Rightarrow> wr_result \<times> 'd"
  pt_read :: "nat \<Rightarrow> nat \<Rightarrow> 'd \<Rightarrow> u8 list option \<times> 'd"
  pt_flush :: "'d \<Rightarrow> bool \<times> 'd"
  pt_speed :: "nat \<Rightarrow> 'd \<Rightarrow> bool \<times> 'd"

partial_function (option) eUART_Write :: "'d port \<Rightarrow> u8 list \<Rightarrow> 'd \<Rightarrow> (te_status \<times> 'd) option" where
  "eUART_Write port bytes d = (case pt_write port bytes d of
     (WR_FAILED, d') \<Rightarrow> Some (E_PRG_ERROR_WRITING, d')
   | (WR_AGAIN, d') \<Rightarrow> if 0 < length bytes then eUART_Write port bytes d' else Some (E_PRG_OK, d')
   | (WROTE n, d') \<Rightarrow> if n < length bytes then eUART_Write port (drop n bytes) d' else Some (E_PRG_OK, d'))"

definition eUART_Read :: "'d port \<Rightarrow> nat \<Rightarrow> nat \<Rightarrow> 'd \<Rightarrow> (te_status \<times> u8 list) \<times> 'd" where
  "eUART_Read port tmo len d = (case pt_read port tmo len d of
     (None, d') \<Rightarrow> ((E_PRG_ERROR, []), d')
   | (Some bytes, d') \<Rightarrow> ((E_PRG_OK, take len bytes), d'))"

partial_function (option) flush_loop :: "'d port \<Rightarrow> 'd \<Rightarrow> 'd option" where
  "flush_loop port d = (case eUART_Read port 100 1 d of
     ((st, bytes), d') \<Rightarrow> if bytes \<noteq> [] then flush_loop port d' else Some d')"

definition eUART_Flush :: "'d port \<Rightarrow> 'd \<Rightarrow> (te_status \<times> 'd) option" where
  "eUART_Flush port d = (case pt_flush port d of (ok, d1) \<Rightarrow>
     if \<not> ok then Some (E_PRG_ERROR, d1) else map_option (Pair E_PRG_OK) (flush_loop port d1))"

definition uart_rates :: "nat list" where
  "uart_rates = [38400, 115200, 230400, 460800, 500000, 921600, 1000000]"

definition eUART_SetBaudRate :: "'d port \<Rightarrow> nat \<Rightarrow> 'd \<Rightarrow> te_status \<times> 'd" where
  "eUART_SetBaudRate port rate d =
     (if rate \<notin> set uart_rates then (E_PRG_BAD_PARAMETER, d)
      else case pt_flush port d of (ok, d1) \<Rightarrow>
        if \<not> ok then (E_PRG_ERROR, d1)
        else case pt_speed port rate d1 of (set_ok, d2) \<Rightarrow> (if set_ok then E_PRG_OK else E_PRG_ERROR, d2))"

section \<open>Messages\<close>

definition E_BL_MSG_TYPE_SET_CS_REQUEST :: u8 where "E_BL_MSG_TYPE_SET_CS_REQUEST = 0x05"
definition E_BL_MSG_TYPE_SET_CS_RESPONSE :: u8 where "E_BL_MSG_TYPE_SET_CS_RESPONSE = 0x06"
definition E_BL_MSG_TYPE_FLASH_ERASE_REQUEST :: u8 where "E_BL_MSG_TYPE_FLASH_ERASE_REQUEST = 0x07"
definition E_BL_MSG_TYPE_FLASH_ERASE_RESPONSE :: u8 where "E_BL_MSG_TYPE_FLASH_ERASE_RESPONSE = 0x08"
definition E_BL_MSG_TYPE_FLASH_PROGRAM_REQUEST :: u8 where "E_BL_MSG_TYPE_FLASH_PROGRAM_REQUEST = 0x09"
definition E_BL_MSG_TYPE_FLASH_PROGRAM_RESPONSE :: u8 where "E_BL_MSG_TYPE_FLASH_PROGRAM_RESPONSE = 0x0a"
definition E_BL_MSG_TYPE_FLASH_READ_REQUEST :: u8 where "E_BL_MSG_TYPE_FLASH_READ_REQUEST = 0x0b"
definition E_BL_MSG_TYPE_FLASH_READ_RESPONSE :: u8 where "E_BL_MSG_TYPE_FLASH_READ_RESPONSE = 0x0c"
definition E_BL_MSG_TYPE_FLASH_WRITE_PRG_REGISTER_REQUEST :: u8 where "E_BL_MSG_TYPE_FLASH_WRITE_PRG_REGISTER_REQUEST = 0x0f"
definition E_BL_MSG_TYPE_FLASH_WRITE_PRG_REGISTER_RESPONSE :: u8 where "E_BL_MSG_TYPE_FLASH_WRITE_PRG_REGISTER_RESPONSE = 0x10"
definition E_BL_MSG_TYPE_RESET_REQUEST :: u8 where "E_BL_MSG_TYPE_RESET_REQUEST = 0x14"
definition E_BL_MSG_TYPE_RESET_RESPONSE :: u8 where "E_BL_MSG_TYPE_RESET_RESPONSE = 0x15"
definition E_BL_MSG_TYPE_RAM_WRITE_REQUEST :: u8 where "E_BL_MSG_TYPE_RAM_WRITE_REQUEST = 0x1d"
definition E_BL_MSG_TYPE_RAM_WRITE_RESPONSE :: u8 where "E_BL_MSG_TYPE_RAM_WRITE_RESPONSE = 0x1e"
definition E_BL_MSG_TYPE_RAM_READ_REQUEST :: u8 where "E_BL_MSG_TYPE_RAM_READ_REQUEST = 0x1f"
definition E_BL_MSG_TYPE_RAM_READ_RESPONSE :: u8 where "E_BL_MSG_TYPE_RAM_READ_RESPONSE = 0x20"
definition E_BL_MSG_TYPE_RAM_RUN_REQUEST :: u8 where "E_BL_MSG_TYPE_RAM_RUN_REQUEST = 0x21"
definition E_BL_MSG_TYPE_RAM_RUN_RESPONSE :: u8 where "E_BL_MSG_TYPE_RAM_RUN_RESPONSE = 0x22"
definition E_BL_MSG_TYPE_FLASH_READ_ID_REQUEST :: u8 where "E_BL_MSG_TYPE_FLASH_READ_ID_REQUEST = 0x25"
definition E_BL_MSG_TYPE_FLASH_READ_ID_RESPONSE :: u8 where "E_BL_MSG_TYPE_FLASH_READ_ID_RESPONSE = 0x26"
definition E_BL_MSG_TYPE_SET_BAUD_REQUEST :: u8 where "E_BL_MSG_TYPE_SET_BAUD_REQUEST = 0x27"
definition E_BL_MSG_TYPE_SET_BAUD_RESPONSE :: u8 where "E_BL_MSG_TYPE_SET_BAUD_RESPONSE = 0x28"
definition E_BL_MSG_TYPE_FLASH_SELECT_TYPE_REQUEST :: u8 where "E_BL_MSG_TYPE_FLASH_SELECT_TYPE_REQUEST = 0x2c"
definition E_BL_MSG_TYPE_FLASH_SELECT_TYPE_RESPONSE :: u8 where "E_BL_MSG_TYPE_FLASH_SELECT_TYPE_RESPONSE = 0x2d"
definition E_BL_MSG_TYPE_GET_CHIPID_REQUEST :: u8 where "E_BL_MSG_TYPE_GET_CHIPID_REQUEST = 0x32"
definition E_BL_MSG_TYPE_GET_CHIPID_RESPONSE :: u8 where "E_BL_MSG_TYPE_GET_CHIPID_RESPONSE = 0x33"
definition E_BL_MSG_TYPE_PDM_ERASE_REQUEST :: u8 where "E_BL_MSG_TYPE_PDM_ERASE_REQUEST = 0x36"
definition E_BL_MSG_TYPE_PDM_ERASE_RESPONSE :: u8 where "E_BL_MSG_TYPE_PDM_ERASE_RESPONSE = 0x37"
definition E_BL_MSG_TYPE_PROGRAM_INDEX_SECTOR_REQUEST :: u8 where "E_BL_MSG_TYPE_PROGRAM_INDEX_SECTOR_REQUEST = 0x38"
definition E_BL_MSG_TYPE_PROGRAM_INDEX_SECTOR_RESPONSE :: u8 where "E_BL_MSG_TYPE_PROGRAM_INDEX_SECTOR_RESPONSE = 0x39"
definition E_BL_MSG_TYPE_EEPROM_READ_REQUEST :: u8 where "E_BL_MSG_TYPE_EEPROM_READ_REQUEST = 0x3A"
definition E_BL_MSG_TYPE_EEPROM_READ_RESPONSE :: u8 where "E_BL_MSG_TYPE_EEPROM_READ_RESPONSE = 0x3B"
definition E_BL_MSG_TYPE_EEPROM_WRITE_REQUEST :: u8 where "E_BL_MSG_TYPE_EEPROM_WRITE_REQUEST = 0x3C"
definition E_BL_MSG_TYPE_EEPROM_WRITE_RESPONSE :: u8 where "E_BL_MSG_TYPE_EEPROM_WRITE_RESPONSE = 0x3D"

definition E_BL_RESPONSE_OK :: u8 where "E_BL_RESPONSE_OK = 0x00"
definition E_BL_RESPONSE_NOT_SUPPORTED :: u8 where "E_BL_RESPONSE_NOT_SUPPORTED = 0xff"
definition E_BL_RESPONSE_WRITE_FAIL :: u8 where "E_BL_RESPONSE_WRITE_FAIL = 0xfe"
definition E_BL_RESPONSE_CRC_ERROR :: u8 where "E_BL_RESPONSE_CRC_ERROR = 0xfc"
definition E_BL_RESPONSE_READ_FAIL :: u8 where "E_BL_RESPONSE_READ_FAIL = 0xf9"
definition E_BL_RESPONSE_NO_RESPONSE :: u8 where "E_BL_RESPONSE_NO_RESPONSE = 0xf6"
definition E_BL_RESPONSE_ERROR :: u8 where "E_BL_RESPONSE_ERROR = 0xf0"

definition BL_TIMEOUT_250MS :: nat where "BL_TIMEOUT_250MS = 250000"
definition BL_TIMEOUT_1S :: nat where "BL_TIMEOUT_1S = 1000000"
definition BL_TIMEOUT_10S :: nat where "BL_TIMEOUT_10S = 10000000"

lemmas bl_responses = E_BL_RESPONSE_OK_def E_BL_RESPONSE_NOT_SUPPORTED_def E_BL_RESPONSE_WRITE_FAIL_def
  E_BL_RESPONSE_CRC_ERROR_def E_BL_RESPONSE_READ_FAIL_def E_BL_RESPONSE_NO_RESPONSE_def E_BL_RESPONSE_ERROR_def

section \<open>Writing and reading a message\<close>

definition bl_xor :: "u8 list \<Rightarrow> u8" where
  "bl_xor bytes = fold (XOR) bytes 0"

definition eBL_WriteMessage :: "'d port \<Rightarrow> u8 \<Rightarrow> u8 list \<Rightarrow> u8 list \<Rightarrow> 'd \<Rightarrow> (te_status \<times> 'd) option" where
  "eBL_WriteMessage port ty hdr dat d =
     (if 0xfe \<le> length hdr + length dat then Some (E_PRG_BAD_PARAMETER, d)
      else let msg = [word_of_nat (length hdr + length dat + 2), ty] @ hdr @ dat
           in eUART_Write port (msg @ [bl_xor msg]) d)"

text \<open>The rest of a message after its length byte: \<open>attempts\<close> counts all reads, also those that got something.\<close>

function read_rest :: "'d port \<Rightarrow> nat \<Rightarrow> nat \<Rightarrow> u8 list \<Rightarrow> nat \<Rightarrow> 'd \<Rightarrow> bool \<times> u8 list \<times> 'd" where
  "read_rest port tmo len got attempts d = (case eUART_Read port tmo (len - length got) d of
     ((st, bytes), d') \<Rightarrow>
       if st \<noteq> E_PRG_OK then (False, got, d')
       else if length (got @ bytes) < len \<and> (bytes \<noteq> [] \<or> Suc attempts < 10)
         then read_rest port tmo len (got @ bytes) (Suc attempts) d'
         else (True, got @ bytes, d'))"
  by pat_completeness auto
termination
  by (relation "measure (\<lambda>(port, tmo, len, got, attempts, d). (len - length got) + (10 - attempts))")
    (auto simp: neq_Nil_conv)

declare read_rest.simps [simp del]

definition eBL_ReadMessage :: "'d port \<Rightarrow> nat \<Rightarrow> 'd \<Rightarrow> (u8 \<times> u8 \<times> u8 list) \<times> 'd" where
  "eBL_ReadMessage port tmo d = (case eUART_Read port tmo 1 d of ((st, first), d1) \<Rightarrow>
     if st \<noteq> E_PRG_OK \<or> length first \<noteq> 1 then ((E_BL_RESPONSE_NO_RESPONSE, 0, []), d1)
     else if hd first < 3 then ((E_BL_RESPONSE_NO_RESPONSE, 0, []), d1)
     else let len = unat (hd first) in case read_rest port tmo len [] 0 d1 of (ok, msg, d2) \<Rightarrow>
       if \<not> ok \<or> length msg \<noteq> len then ((E_BL_RESPONSE_NO_RESPONSE, 0, []), d2)
       else if bl_xor (first @ msg) \<noteq> 0 then ((E_BL_RESPONSE_CRC_ERROR, 0, []), d2)
       else ((msg ! 1, msg ! 0, take (len - 3) (drop 2 msg)), d2))"

text \<open>The response, the type and the data of the reply; without a reply the caller's type and length keep their zero.\<close>

definition eBL_Request :: "'d port \<Rightarrow> nat \<Rightarrow> u8 \<Rightarrow> u8 list \<Rightarrow> u8 list \<Rightarrow> 'd \<Rightarrow> ((u8 \<times> u8 \<times> u8 list) \<times> 'd) option" where
  "eBL_Request port tmo ty hdr dat d =
     (if 0xfd < length dat then Some ((E_BL_RESPONSE_ERROR, 0, []), d)
      else do {
        (st, d1) \<leftarrow> eBL_WriteMessage port ty hdr dat d;
        if st \<noteq> E_PRG_OK then Some ((E_BL_RESPONSE_ERROR, 0, []), d1)
        else Some (eBL_ReadMessage port tmo d1)
      })"

definition eBL_CheckResponse :: "u8 \<Rightarrow> u8 \<Rightarrow> u8 \<Rightarrow> te_status" where
  "eBL_CheckResponse resp rx expected =
     (if resp = E_BL_RESPONSE_NOT_SUPPORTED then E_PRG_UNSUPPORTED_OPERATION
      else if resp = E_BL_RESPONSE_WRITE_FAIL then E_PRG_ERROR_WRITING
      else if resp = E_BL_RESPONSE_READ_FAIL then E_PRG_ERROR_READING
      else if resp \<noteq> E_BL_RESPONSE_OK then E_PRG_COMMS_FAILED
      else if rx \<noteq> expected then E_PRG_COMMS_FAILED
      else E_PRG_OK)"

definition bl_command :: "'d port \<Rightarrow> nat \<Rightarrow> u8 \<Rightarrow> u8 list \<Rightarrow> u8 list \<Rightarrow> u8 \<Rightarrow> 'd \<Rightarrow> (te_status \<times> 'd) option" where
  "bl_command port tmo ty hdr dat expected d = do {
     ((resp, rx, _), d1) \<leftarrow> eBL_Request port tmo ty hdr dat d;
     Some (eBL_CheckResponse resp rx expected, d1)
   }"

section \<open>The requests\<close>

definition eBL_SetBaudrate :: "'d port \<Rightarrow> u32 \<Rightarrow> 'd \<Rightarrow> (te_status \<times> 'd) option" where
  "eBL_SetBaudrate port rate d =
     (if rate = 0 then None
      else bl_command port BL_TIMEOUT_1S E_BL_MSG_TYPE_SET_BAUD_REQUEST [ucast (1000000 div rate)] [] E_BL_MSG_TYPE_SET_BAUD_RESPONSE d)"

definition join_be :: "u8 list \<Rightarrow> u32" where
  "join_be bytes = unle32 (rev (take 4 bytes))"

text \<open>The chip identifier and the version of the boot loader, written when the reply has them, whatever its response.\<close>

definition eBL_ChipIdRead :: "'d port \<Rightarrow> 'd \<Rightarrow> ((te_status \<times> (u32 \<times> u32) option) \<times> 'd) option" where
  "eBL_ChipIdRead port d = do {
     ((resp, rx, data), d1) \<leftarrow> eBL_Request port BL_TIMEOUT_1S E_BL_MSG_TYPE_GET_CHIPID_REQUEST [] [] d;
     if length data \<noteq> 4 \<and> length data \<noteq> 8 then Some ((E_PRG_COMMS_FAILED, None), d1)
     else Some ((eBL_CheckResponse resp rx E_BL_MSG_TYPE_GET_CHIPID_RESPONSE,
                 Some (join_be data, if length data = 8 then join_be (drop 4 data) else 0)), d1)
   }"

record bl_flash_device =
  fd_manufacturer :: u8
  fd_device :: u8
  fd_type :: u8
  fd_name :: "string option"
  fd_size :: u32

definition asFlashDevices :: "bl_flash_device list" where
  "asFlashDevices =
    [\<lparr>fd_manufacturer = 0x05, fd_device = 0x05, fd_type = 4, fd_name = Some ''SPI flash ST M25P05-A'', fd_size = 64 * 1024\<rparr>,
     \<lparr>fd_manufacturer = 0x10, fd_device = 0x10, fd_type = 0, fd_name = Some ''SPI flash ST M25P10-A'', fd_size = 128 * 1024\<rparr>,
     \<lparr>fd_manufacturer = 0x11, fd_device = 0x11, fd_type = 5, fd_name = Some ''SPI flash ST M25P20-A'', fd_size = 256 * 1024\<rparr>,
     \<lparr>fd_manufacturer = 0x12, fd_device = 0x12, fd_type = 3, fd_name = Some ''SPI flash ST M25P40'', fd_size = 512 * 1024\<rparr>,
     \<lparr>fd_manufacturer = 0xBF, fd_device = 0x49, fd_type = 1, fd_name = Some ''SPI flash SST 25VF010A'', fd_size = 128 * 1024\<rparr>,
     \<lparr>fd_manufacturer = 0x1F, fd_device = 0x60, fd_type = 2, fd_name = Some ''SPI flash Atmel 25F512'', fd_size = 512 * 1024\<rparr>,
     \<lparr>fd_manufacturer = 0xCC, fd_device = 0xEE, fd_type = 8, fd_name = None, fd_size = 0\<rparr>]"

definition FLASH_MANUFACTURER_JN516X :: u8 where "FLASH_MANUFACTURER_JN516X = 0xCC"
definition FLASH_DEVICE_JN516X :: u8 where "FLASH_DEVICE_JN516X = 0xEE"

definition find_flash :: "u8 \<Rightarrow> u8 \<Rightarrow> bl_flash_device option" where
  "find_flash manufacturer device = find (\<lambda>f. fd_manufacturer f = manufacturer \<and> fd_device f = device) asFlashDevices"

definition eBL_FlashIdRead :: "'d port \<Rightarrow> 'd \<Rightarrow> ((te_status \<times> bl_flash_device option) \<times> 'd) option" where
  "eBL_FlashIdRead port d = do {
     ((resp, rx, data), d1) \<leftarrow> eBL_Request port BL_TIMEOUT_1S E_BL_MSG_TYPE_FLASH_READ_ID_REQUEST [] [] d;
     if length data \<noteq> 2 then Some ((E_PRG_COMMS_FAILED, None), d1)
     else case find_flash (data ! 0) (data ! 1) of
       None \<Rightarrow> Some ((E_PRG_FLASH_DEVICE_UNAVAILABLE, None), d1)
     | Some f \<Rightarrow> Some ((eBL_CheckResponse resp rx E_BL_MSG_TYPE_FLASH_READ_ID_RESPONSE, Some f), d1)
   }"

definition select_type :: "'d port \<Rightarrow> u8 \<Rightarrow> 'd \<Rightarrow> (te_status \<times> 'd) option" where
  "select_type port ty = bl_command port BL_TIMEOUT_1S E_BL_MSG_TYPE_FLASH_SELECT_TYPE_REQUEST [ty, 0, 0, 0, 0] []
     E_BL_MSG_TYPE_FLASH_SELECT_TYPE_RESPONSE"

definition eBL_FlashSelectDevice :: "'d port \<Rightarrow> u8 \<Rightarrow> u8 \<Rightarrow> u8 \<Rightarrow> 'd \<Rightarrow> (te_status \<times> 'd) option" where
  "eBL_FlashSelectDevice port manufacturer device cs d =
     (if manufacturer \<noteq> 0 \<and> device \<noteq> 0 then
        (case find_flash manufacturer device of
           None \<Rightarrow> Some (E_PRG_FLASH_DEVICE_UNAVAILABLE, d)
         | Some f \<Rightarrow>
             if cs \<noteq> 0 then do {
               (st, d1) \<leftarrow> bl_command port BL_TIMEOUT_1S E_BL_MSG_TYPE_SET_CS_REQUEST [cs] [] E_BL_MSG_TYPE_SET_CS_RESPONSE d;
               if st \<noteq> E_PRG_OK then Some (st, d1) else select_type port (fd_type f) d1
             } else select_type port (fd_type f) d)
      else select_type port 0 d)"

text \<open>The search over the known devices, the internal flash left out.\<close>

fun discover_loop :: "'d port \<Rightarrow> u8 \<Rightarrow> bl_flash_device list \<Rightarrow> 'd \<Rightarrow> ((te_status \<times> bl_flash_device option) \<times> 'd) option" where
  "discover_loop port cs [] d = Some ((E_PRG_FLASH_DEVICE_UNAVAILABLE, None), d)"
| "discover_loop port cs (f # fs) d =
     (if fd_manufacturer f = FLASH_MANUFACTURER_JN516X \<and> fd_device f = FLASH_DEVICE_JN516X then discover_loop port cs fs d
      else do {
        (st, d1) \<leftarrow> eBL_FlashSelectDevice port (fd_manufacturer f) (fd_device f) cs d;
        if st \<noteq> E_PRG_OK then discover_loop port cs fs d1
        else do {
          ((st', found), d2) \<leftarrow> eBL_FlashIdRead port d1;
          if st' = E_PRG_OK then Some ((E_PRG_OK, found), d2) else discover_loop port cs fs d2
        }
      })"

definition eBL_DiscoverFlash :: "'d port \<Rightarrow> u8 \<Rightarrow> 'd \<Rightarrow> ((te_status \<times> bl_flash_device option) \<times> 'd) option" where
  "eBL_DiscoverFlash port cs = discover_loop port cs asFlashDevices"

definition eBL_FlashStatusRegisterWrite :: "'d port \<Rightarrow> u8 \<Rightarrow> 'd \<Rightarrow> (te_status \<times> 'd) option" where
  "eBL_FlashStatusRegisterWrite port reg = bl_command port BL_TIMEOUT_1S E_BL_MSG_TYPE_FLASH_WRITE_PRG_REGISTER_REQUEST [reg] []
     E_BL_MSG_TYPE_FLASH_WRITE_PRG_REGISTER_RESPONSE"

definition eBL_MemoryExecute :: "'d port \<Rightarrow> u32 \<Rightarrow> 'd \<Rightarrow> (te_status \<times> 'd) option" where
  "eBL_MemoryExecute port addr = bl_command port BL_TIMEOUT_1S E_BL_MSG_TYPE_RAM_RUN_REQUEST (le32 addr) [] E_BL_MSG_TYPE_RAM_RUN_RESPONSE"

text \<open>
  The data of a reply go to the buffer of the caller before their number is compared with the
  one asked for: \<open>None\<close> is a write behind the buffer.
\<close>

definition copy_reply :: "u8 list \<Rightarrow> u8 list \<Rightarrow> u8 list option" where
  "copy_reply data buf = (if length data \<le> length buf then Some (overwrite 0 data buf) else None)"

definition bl_read :: "'d port \<Rightarrow> u8 \<Rightarrow> u8 \<Rightarrow> u32 \<Rightarrow> nat \<Rightarrow> u8 list \<Rightarrow> 'd \<Rightarrow> ((te_status \<times> u8 list) \<times> 'd) option" where
  "bl_read port ty expected addr len buf d =
     (if 0xfc < len then Some ((E_PRG_BAD_PARAMETER, buf), d)
      else do {
        ((resp, rx, data), d1) \<leftarrow> eBL_Request port BL_TIMEOUT_1S ty (le32 addr @ [word_of_nat len, 0]) [] d;
        buf1 \<leftarrow> copy_reply data buf;
        if length data \<noteq> len then Some ((E_PRG_ERROR_READING, buf1), d1)
        else Some ((eBL_CheckResponse resp rx expected, buf1), d1)
      })"

definition eBL_FlashRead :: "'d port \<Rightarrow> u32 \<Rightarrow> nat \<Rightarrow> u8 list \<Rightarrow> 'd \<Rightarrow> ((te_status \<times> u8 list) \<times> 'd) option" where
  "eBL_FlashRead port = bl_read port E_BL_MSG_TYPE_FLASH_READ_REQUEST E_BL_MSG_TYPE_FLASH_READ_RESPONSE"

definition eBL_EEPROMRead :: "'d port \<Rightarrow> u32 \<Rightarrow> nat \<Rightarrow> u8 list \<Rightarrow> 'd \<Rightarrow> ((te_status \<times> u8 list) \<times> 'd) option" where
  "eBL_EEPROMRead port = bl_read port E_BL_MSG_TYPE_EEPROM_READ_REQUEST E_BL_MSG_TYPE_EEPROM_READ_RESPONSE"

text \<open>The words of a buffer between the order of the host and that of the chip: both ways the same exchange.\<close>

fun convert_blocks :: "nat \<Rightarrow> (u8 list \<Rightarrow> u8 list) \<Rightarrow> nat list \<Rightarrow> u8 list \<Rightarrow> u8 list option" where
  "convert_blocks k f [] buf = Some buf"
| "convert_blocks k f (i # offs) buf =
     (if i + k \<le> length buf then convert_blocks k f offs (overwrite i (f (take k (drop i buf))) buf) else None)"

definition convert_words :: "chip_endian \<Rightarrow> nat \<Rightarrow> nat \<Rightarrow> u8 list \<Rightarrow> u8 list option" where
  "convert_words endian block len buf =
     (if block = 2 \<or> block = 4
      then convert_blocks block (if endian = E_CHIP_BIG_ENDIAN then rev else id) (map (\<lambda>i. i * block) [0..<(len + block - 1) div block]) buf
      else Some buf)"

definition eBL_MemoryRead :: "'d port \<Rightarrow> chip_endian \<Rightarrow> u32 \<Rightarrow> nat \<Rightarrow> nat \<Rightarrow> u8 list \<Rightarrow> 'd \<Rightarrow> ((te_status \<times> u8 list) \<times> 'd) option" where
  "eBL_MemoryRead port endian addr len block buf d =
     (if 0xfc < len then Some ((E_PRG_BAD_PARAMETER, buf), d)
      else do {
        ((resp, rx, data), d1) \<leftarrow> eBL_Request port BL_TIMEOUT_1S E_BL_MSG_TYPE_RAM_READ_REQUEST (le32 addr @ [word_of_nat len, 0]) [] d;
        buf1 \<leftarrow> copy_reply data buf;
        if length data \<noteq> len then Some ((E_PRG_ERROR_READING, buf1), d1)
        else do {
          buf2 \<leftarrow> convert_words endian block len buf1;
          Some ((eBL_CheckResponse resp rx E_BL_MSG_TYPE_RAM_READ_RESPONSE, buf2), d1)
        }
      })"

text \<open>The words are converted in the buffer of the caller.\<close>

definition eBL_MemoryWrite :: "'d port \<Rightarrow> chip_endian \<Rightarrow> u32 \<Rightarrow> nat \<Rightarrow> nat \<Rightarrow> u8 list \<Rightarrow> 'd \<Rightarrow> ((te_status \<times> u8 list) \<times> 'd) option" where
  "eBL_MemoryWrite port endian addr len block buf d =
     (if 0xfc < len then Some ((E_PRG_BAD_PARAMETER, buf), d)
      else do {
        buf1 \<leftarrow> convert_words endian block len buf;
        (st, d1) \<leftarrow> bl_command port BL_TIMEOUT_250MS E_BL_MSG_TYPE_RAM_WRITE_REQUEST (le32 addr) (take len buf1) E_BL_MSG_TYPE_RAM_WRITE_RESPONSE d;
        Some ((st, buf1), d1)
      })"

definition eBL_FlashErase :: "'d port \<Rightarrow> 'd \<Rightarrow> (te_status \<times> 'd) option" where
  "eBL_FlashErase port = bl_command port BL_TIMEOUT_10S E_BL_MSG_TYPE_FLASH_ERASE_REQUEST [] [] E_BL_MSG_TYPE_FLASH_ERASE_RESPONSE"

definition eBL_FlashWrite :: "'d port \<Rightarrow> u32 \<Rightarrow> u8 list \<Rightarrow> 'd \<Rightarrow> (te_status \<times> 'd) option" where
  "eBL_FlashWrite port addr dat d =
     (if 0xfc < length dat then Some (E_PRG_BAD_PARAMETER, d)
      else bl_command port BL_TIMEOUT_1S E_BL_MSG_TYPE_FLASH_PROGRAM_REQUEST (le32 addr) dat E_BL_MSG_TYPE_FLASH_PROGRAM_RESPONSE d)"

definition eBL_EEPROMErase :: "'d port \<Rightarrow> c_int \<Rightarrow> 'd \<Rightarrow> (te_status \<times> 'd) option" where
  "eBL_EEPROMErase port erase_all = bl_command port BL_TIMEOUT_1S E_BL_MSG_TYPE_PDM_ERASE_REQUEST [word_of_int erase_all] [] E_BL_MSG_TYPE_PDM_ERASE_RESPONSE"

definition eBL_EEPROMWrite :: "'d port \<Rightarrow> u32 \<Rightarrow> u8 list \<Rightarrow> 'd \<Rightarrow> (te_status \<times> 'd) option" where
  "eBL_EEPROMWrite port addr dat d =
     (if 0xfc < length dat then Some (E_PRG_BAD_PARAMETER, d)
      else bl_command port BL_TIMEOUT_1S E_BL_MSG_TYPE_EEPROM_WRITE_REQUEST (le32 addr) dat E_BL_MSG_TYPE_EEPROM_WRITE_RESPONSE d)"

text \<open>Four words in the order of the chip, behind the page and the number of the word.\<close>

definition chip_word :: "chip_endian \<Rightarrow> u32 \<Rightarrow> u8 list" where
  "chip_word endian w = (if endian = E_CHIP_LITTLE_ENDIAN then le32 w else rev (le32 w))"

definition eBL_IndexSectorWrite :: "'d port \<Rightarrow> chip_endian \<Rightarrow> u8 \<Rightarrow> u8 \<Rightarrow> u32 list \<Rightarrow> 'd \<Rightarrow> (te_status \<times> 'd) option" where
  "eBL_IndexSectorWrite port endian page wordno data =
     bl_command port BL_TIMEOUT_1S E_BL_MSG_TYPE_PROGRAM_INDEX_SECTOR_REQUEST
       ([page, wordno] @ concat (map (chip_word endian) (take 4 data))) [] E_BL_MSG_TYPE_PROGRAM_INDEX_SECTOR_RESPONSE"

definition eBL_Reset :: "'d port \<Rightarrow> 'd \<Rightarrow> (te_status \<times> 'd) option" where
  "eBL_Reset port = bl_command port BL_TIMEOUT_1S E_BL_MSG_TYPE_RESET_REQUEST [] [] E_BL_MSG_TYPE_RESET_RESPONSE"

end
