(* ===== verification/BootLine.thy ===== *)
theory BootLine
  imports BootLoader
begin

text \<open>
  The requests of the flasher over a serial line: a chip that answers every complete request,
  behind a port that takes and gives the bytes in pieces of any size.  The port has a speed and
  the boot loader a divisor of its clock of 1 MHz; a byte arrives when the two speeds differ by at
  most 2 per cent, and is lost otherwise.  A request for another speed is answered at the old
  one and changes the divisor.  What the chip does with a request is an arbitrary function; what the flasher relies on for the flash
  memory, the RAM and the EEPROM is stated as a law of that function, and gives one contract of a
  memory that is written and read in chunks.
\<close>

section \<open>A line and a chip behind it\<close>

type_synonym 'm chip = "u8 \<Rightarrow> u8 list \<Rightarrow> 'm \<Rightarrow> (u8 \<times> u8 \<times> u8 list) \<times> 'm"

record 'm wire =
  w_in :: "u8 list"
  w_out :: "u8 list"
  w_rate :: nat
  w_divisor :: nat
  w_chip :: 'm

definition in_tune :: "'m wire \<Rightarrow> bool" where
  "in_tune w \<longleftrightarrow> 980000 \<le> w_rate w * w_divisor w \<and> w_rate w * w_divisor w \<le> 1020000"

definition retuned :: "u8 \<Rightarrow> u8 list \<Rightarrow> u8 \<Rightarrow> nat \<Rightarrow> nat" where
  "retuned ty body resp divisor =
     (if ty = E_BL_MSG_TYPE_SET_BAUD_REQUEST \<and> resp = E_BL_RESPONSE_OK \<and> body \<noteq> [] then unat (hd body) else divisor)"

definition framed :: "u8 list \<Rightarrow> u8 list" where
  "framed msg = msg @ [bl_xor msg]"

definition reply_frame :: "u8 \<times> u8 \<times> u8 list \<Rightarrow> u8 list" where
  "reply_frame r = (case r of (ty, resp, data) \<Rightarrow> framed ([word_of_nat (length data + 3), ty, resp] @ data))"

text \<open>The chip takes bytes until its request is complete, drops one with a wrong checksum and answers the others.\<close>

definition wire_feed :: "'m chip \<Rightarrow> u8 list \<Rightarrow> 'm wire \<Rightarrow> 'm wire" where
  "wire_feed chip bytes w =
     (let input = w_in w @ bytes; n = Suc (unat (hd input)) in
      if input = [] \<or> length input < n then w\<lparr>w_in := input\<rparr>
      else if n < 3 \<or> bl_xor (take n input) \<noteq> 0 then w\<lparr>w_in := drop n input\<rparr>
      else case chip (input ! 1) (take (n - 3) (drop 2 input)) (w_chip w) of
        (r, m) \<Rightarrow> w\<lparr>w_in := drop n input, w_out := w_out w @ reply_frame r,
          w_divisor := retuned (input ! 1) (take (n - 3) (drop 2 input)) (fst (snd r)) (w_divisor w), w_chip := m\<rparr>)"

definition wire_port :: "'m chip \<Rightarrow> (u8 list \<Rightarrow> nat) \<Rightarrow> (u8 list \<Rightarrow> nat) \<Rightarrow> 'm wire port" where
  "wire_port chip accepts gives =
     \<lparr>pt_write = (\<lambda>bytes w. let n = min (length bytes) (Suc (accepts bytes)) in (WROTE n, if in_tune w then wire_feed chip (take n bytes) w else w)),
      pt_read = (\<lambda>tmo len w. let n = min len (Suc (gives (w_out w))) in
         (Some (take n (w_out w)), w\<lparr>w_out := drop n (w_out w)\<rparr>)),
      pt_flush = (\<lambda>w. (True, w\<lparr>w_out := []\<rparr>)),
      pt_speed = (\<lambda>rate w. (True, w\<lparr>w_rate := rate\<rparr>))\<rparr>"

text \<open>
  The speeds of the port that the boot loader has too, and a line at one of them on which nothing
  is under way.
\<close>

datatype line_speed = AT_38400 | AT_500000 | AT_1000000

definition rate_of :: "line_speed \<Rightarrow> nat" where
  "rate_of sp = (case sp of AT_38400 \<Rightarrow> 38400 | AT_500000 \<Rightarrow> 500000 | AT_1000000 \<Rightarrow> 1000000)"

definition divisor_of :: "line_speed \<Rightarrow> nat" where
  "divisor_of sp = (case sp of AT_38400 \<Rightarrow> 26 | AT_500000 \<Rightarrow> 2 | AT_1000000 \<Rightarrow> 1)"

definition wire_idle :: "line_speed \<Rightarrow> 'm \<Rightarrow> 'm wire" where
  "wire_idle sp m = \<lparr>w_in = [], w_out = [], w_rate = rate_of sp, w_divisor = divisor_of sp, w_chip = m\<rparr>"

lemma in_tune_idle [simp]: "in_tune (wire_idle sp m)"
  by (cases sp) (simp_all add: in_tune_def wire_idle_def rate_of_def divisor_of_def)

lemma in_tune_kept [simp]: "in_tune (w\<lparr>w_in := xs\<rparr>) = in_tune w" "in_tune (w\<lparr>w_out := xs\<rparr>) = in_tune w" "in_tune (w\<lparr>w_chip := m\<rparr>) = in_tune w"
  by (simp_all add: in_tune_def)

text \<open>These are all: the other speeds that the port knows are 8 per cent off, whatever their divisor is rounded to.\<close>

lemma speeds_in_tune:
  assumes "rate \<in> set uart_rates"
  shows "in_tune (w\<lparr>w_rate := rate, w_divisor := 1000000 div rate\<rparr>) \<longleftrightarrow> rate \<in> range rate_of"
proof -
  have "range rate_of = {38400, 500000, 1000000}"
  proof
    show "range rate_of \<subseteq> {38400, 500000, 1000000}" by (auto simp: rate_of_def split: line_speed.splits)
    have "rate_of AT_38400 \<in> range rate_of" "rate_of AT_500000 \<in> range rate_of" "rate_of AT_1000000 \<in> range rate_of" by blast+
    then show "{38400, 500000, 1000000} \<subseteq> range rate_of" by (simp add: rate_of_def)
  qed
  with assms show ?thesis by (auto simp: uart_rates_def in_tune_def)
qed

section \<open>Frames\<close>

lemma bl_xor_start: "fold (XOR) bytes c = bl_xor bytes XOR c"
proof (induction bytes arbitrary: c)
  case (Cons b bytes)
  from Cons [of "b XOR c"] Cons [of "b XOR 0"] show ?case
    by (simp add: bl_xor_def xor.assoc)
qed (simp add: bl_xor_def)

lemma bl_xor_append: "bl_xor (xs @ ys) = bl_xor xs XOR bl_xor ys"
  using bl_xor_start [of ys "bl_xor xs"] by (simp add: bl_xor_def xor.commute)

lemma bl_xor_framed: "bl_xor (framed msg) = 0"
  by (simp add: framed_def bl_xor_append) (simp add: bl_xor_def)

lemma length_framed [simp]: "length (framed msg) = Suc (length msg)"
  by (simp add: framed_def)

lemma length_byte:
  "n < 254 \<Longrightarrow> unat (2 + word_of_nat n :: u8) = Suc (Suc n)" "n < 253 \<Longrightarrow> unat (word_of_nat n + 3 :: u8) = n + 3"
  by (simp_all add: unat_word_ariths unsigned_of_nat take_bit_eq_mod)

text \<open>A request written in pieces is executed once, when its last byte arrives.\<close>

lemma feed_part:
  assumes "w_in w @ bytes = take k frame" and "k < length frame" and "bytes \<noteq> []" and "length frame = Suc (unat (hd frame))"
  shows "wire_feed chip bytes w = w\<lparr>w_in := take k frame\<rparr>"
proof -
  have "take k frame \<noteq> []" using assms(1,3) by (metis append_is_Nil_conv)
  then have "hd (take k frame) = hd frame" "length (take k frame) = k" using assms(2) by (auto simp: hd_take)
  then show ?thesis using assms by (simp add: wire_feed_def)
qed

definition executed :: "'m chip \<Rightarrow> u8 \<Rightarrow> u8 list \<Rightarrow> 'm wire \<Rightarrow> 'm wire" where
  "executed chip ty body w = (case chip ty body (w_chip w) of
     (r, m) \<Rightarrow> w\<lparr>w_in := [], w_out := w_out w @ reply_frame r, w_divisor := retuned ty body (fst (snd r)) (w_divisor w), w_chip := m\<rparr>)"

lemma request_frame:
  assumes "f = framed ([word_of_nat (length body + 2), ty] @ body)" and "length body < 254"
  shows "f \<noteq> []" "unat (hd f) = length body + 2" "length f = length body + 3" "f ! 1 = ty" "take (length body) (drop 2 f) = body"
    "bl_xor f = 0"
  using assms(2) bl_xor_framed [of "[word_of_nat (length body + 2), ty] @ body"] by (simp_all add: assms(1) framed_def length_byte)

lemma feed_whole:
  assumes "w_in w @ bytes = framed ([word_of_nat (length body + 2), ty] @ body)" and "length body < 254"
  shows "wire_feed chip bytes w = executed chip ty body w"
proof -
  obtain f where f: "f = framed ([word_of_nat (length body + 2), ty] @ body)" by blast
  note parts = request_frame [OF f assms(2)]
  show ?thesis using assms(1) parts unfolding f [symmetric]
    by (simp add: wire_feed_def executed_def Let_def split: prod.splits)
qed

lemma write_pieces:
  assumes "w_in w @ bytes = framed ([word_of_nat (length body + 2), ty] @ body)" and "length body < 254" and "bytes \<noteq> []" and "in_tune w"
  shows "eUART_Write (wire_port chip accepts gives) bytes w = Some (E_PRG_OK, executed chip ty body w)"
  using assms
proof (induction "length bytes" arbitrary: bytes w rule: less_induct)
  case less
  let ?f = "framed ([word_of_nat (length body + 2), ty] @ body)"
  note parts = request_frame [OF refl less.prems(2), of ty]
  have frame: "length ?f = Suc (unat (hd ?f))" using parts(2,3) by simp
  let ?n = "min (length bytes) (Suc (accepts bytes))"
  have port: "pt_write (wire_port chip accepts gives) bytes w = (WROTE ?n, wire_feed chip (take ?n bytes) w)"
    using less.prems(4) by (simp add: wire_port_def Let_def)
  show ?case
  proof (cases "?n < length bytes")
    case False
    then have "take ?n bytes = bytes" by simp
    with port False feed_whole [OF less.prems(1,2)] show ?thesis by (subst eUART_Write.simps) simp
  next
    case True
    let ?k = "length (w_in w) + ?n"
    have "take ?k (w_in w @ bytes) = w_in w @ take ?n bytes" by simp
    moreover have "?k < length (w_in w @ bytes)" using True by simp
    ultimately have k: "w_in w @ take ?n bytes = take ?k ?f" "?k < length ?f" unfolding less.prems(1) by (auto dest: sym)
    have piece: "take ?n bytes \<noteq> []" using less.prems(3) by simp
    let ?w = "w\<lparr>w_in := take ?k ?f\<rparr>"
    have fed: "wire_feed chip (take ?n bytes) w = ?w" by (rule feed_part [OF k(1,2) piece frame])
    have rest: "w_in ?w @ drop ?n bytes = ?f"
      using k(1) less.prems(1) by (metis append.assoc append_take_drop_id select_convs(1) surjective update_convs(1))
    have "eUART_Write (wire_port chip accepts gives) (drop ?n bytes) ?w = Some (E_PRG_OK, executed chip ty body ?w)"
      using less.hyps [OF _ rest less.prems(2)] True less.prems(3,4) by simp
    moreover have "executed chip ty body ?w = executed chip ty body w" by (simp add: executed_def split: prod.splits)
    ultimately show ?thesis using port True fed by (subst eUART_Write.simps) simp
  qed
qed

text \<open>A reply that is read in pieces is put together again.\<close>

lemma wire_read:
  "eUART_Read (wire_port chip accepts gives) tmo len w =
     (let n = min len (Suc (gives (w_out w))) in ((E_PRG_OK, take n (w_out w)), w\<lparr>w_out := drop n (w_out w)\<rparr>))"
  by (simp add: eUART_Read_def wire_port_def Let_def)

lemma read_pieces:
  assumes "length got + length (w_out w) = len" and "w_out w \<noteq> []"
  shows "read_rest (wire_port chip accepts gives) tmo len got attempts w = (True, got @ w_out w, w\<lparr>w_out := []\<rparr>)"
  using assms
proof (induction "length (w_out w)" arbitrary: got attempts w rule: less_induct)
  case less
  let ?n = "min (len - length got) (Suc (gives (w_out w)))"
  let ?w = "w\<lparr>w_out := drop ?n (w_out w)\<rparr>"
  have step: "eUART_Read (wire_port chip accepts gives) tmo (len - length got) w = ((E_PRG_OK, take ?n (w_out w)), ?w)"
    by (simp add: wire_read Let_def)
  have n: "0 < ?n" "?n \<le> length (w_out w)" using less.prems by (auto simp: Suc_le_eq)
  show ?case
  proof (cases "?n < length (w_out w)")
    case False
    with n(2) have "?n = length (w_out w)" by simp
    then show ?thesis using step less.prems by (subst read_rest.simps) simp
  next
    case True
    have smaller: "length (w_out ?w) < length (w_out w)" using n by simp
    have "length (got @ take ?n (w_out w)) + length (w_out ?w) = len" using less.prems(1) n(2) by auto
    moreover have "w_out ?w \<noteq> []" using True unfolding not_le [symmetric] by simp
    ultimately have "read_rest (wire_port chip accepts gives) tmo len (got @ take ?n (w_out w)) (Suc attempts) ?w
        = (True, (got @ take ?n (w_out w)) @ w_out ?w, ?w\<lparr>w_out := []\<rparr>)"
      using less.hyps [OF smaller] by blast
    moreover have "length (got @ take ?n (w_out w)) < len" "take ?n (w_out w) \<noteq> []" using less.prems True n(1) by auto
    ultimately show ?thesis using step by (subst read_rest.simps) simp
  qed
qed

lemma reply_parts:
  assumes "length data \<le> 252"
  obtains b rest where "reply_frame (ty, resp, data) = b # rest" "unat b = length data + 3" "length rest = length data + 3"
    "rest ! 0 = ty" "rest ! 1 = resp" "take (length data) (drop 2 rest) = data" "bl_xor (b # rest) = 0"
proof
  let ?b = "word_of_nat (length data + 3) :: u8"
  let ?rest = "[ty, resp] @ data @ [bl_xor (?b # [ty, resp] @ data)]"
  show "reply_frame (ty, resp, data) = ?b # ?rest" by (simp add: reply_frame_def framed_def)
  then show "bl_xor (?b # ?rest) = 0" using bl_xor_framed [of "[?b, ty, resp] @ data"] by (simp add: reply_frame_def)
  show "unat ?b = length data + 3" using assms by (simp add: length_byte)
qed simp_all

lemma read_reply:
  assumes "w_out w = reply_frame (ty, resp, data)" and "length data \<le> 252"
  shows "eBL_ReadMessage (wire_port chip accepts gives) tmo w = ((resp, ty, data), w\<lparr>w_out := []\<rparr>)"
proof -
  obtain b rest where parts: "reply_frame (ty, resp, data) = b # rest" "unat b = length data + 3" "length rest = length data + 3"
    "rest ! 0 = ty" "rest ! 1 = resp" "take (length data) (drop 2 rest) = data" "bl_xor (b # rest) = 0"
    using reply_parts [OF assms(2)] by blast
  have first: "eUART_Read (wire_port chip accepts gives) tmo 1 w = ((E_PRG_OK, [b]), w\<lparr>w_out := rest\<rparr>)"
    using assms(1) parts(1) by (simp add: wire_read Let_def)
  have "read_rest (wire_port chip accepts gives) tmo (unat b) [] 0 (w\<lparr>w_out := rest\<rparr>)
      = (True, [] @ rest, w\<lparr>w_out := rest\<rparr>\<lparr>w_out := []\<rparr>)"
    using parts(2,3) by (subst read_pieces) auto
  moreover have "\<not> b < 3" using parts(2) by (simp add: word_less_nat_alt)
  ultimately show ?thesis using first parts(2-7) by (simp add: eBL_ReadMessage_def Let_def)
qed

text \<open>One request over the line.\<close>

lemma request_answered:
  assumes "length hdr + length dat < 254" and "chip ty (hdr @ dat) m = ((rx, resp, data), m')" and "length data \<le> 252"
  shows "eBL_Request (wire_port chip accepts gives) tmo ty hdr dat (wire_idle sp m)
    = Some ((resp, rx, data), (wire_idle sp m')\<lparr>w_divisor := retuned ty (hdr @ dat) resp (divisor_of sp)\<rparr>)"
proof -
  let ?port = "wire_port chip accepts gives"
  have "eBL_WriteMessage ?port ty hdr dat (wire_idle sp m) = Some (E_PRG_OK, executed chip ty (hdr @ dat) (wire_idle sp m))"
    using assms(1) in_tune_idle [of sp m]
      write_pieces [of "wire_idle sp m" "framed ([word_of_nat (length (hdr @ dat) + 2), ty] @ hdr @ dat)" "hdr @ dat" ty chip accepts gives]
    by (simp add: eBL_WriteMessage_def framed_def Let_def) (simp add: wire_idle_def)
  moreover have "executed chip ty (hdr @ dat) (wire_idle sp m)
      = (wire_idle sp m')\<lparr>w_out := reply_frame (rx, resp, data), w_divisor := retuned ty (hdr @ dat) resp (divisor_of sp)\<rparr>"
    using assms(2) by (simp add: executed_def wire_idle_def)
  ultimately show ?thesis
    using assms(1,3) by (simp add: eBL_Request_def read_reply) (simp add: wire_idle_def)
qed

text \<open>A request that is not for another speed leaves the line as it was.\<close>

lemma retuned_other [simp]: "ty \<noteq> E_BL_MSG_TYPE_SET_BAUD_REQUEST \<Longrightarrow> retuned ty body resp divisor = divisor"
  by (simp add: retuned_def)

lemma divisor_kept [simp]: "(wire_idle sp m)\<lparr>w_divisor := divisor_of sp\<rparr> = wire_idle sp m"
  by (simp add: wire_idle_def)

lemma not_speed_requests [simp]:
  "E_BL_MSG_TYPE_FLASH_ERASE_REQUEST \<noteq> E_BL_MSG_TYPE_SET_BAUD_REQUEST"
  "E_BL_MSG_TYPE_FLASH_PROGRAM_REQUEST \<noteq> E_BL_MSG_TYPE_SET_BAUD_REQUEST"
  "E_BL_MSG_TYPE_FLASH_READ_REQUEST \<noteq> E_BL_MSG_TYPE_SET_BAUD_REQUEST"
  "E_BL_MSG_TYPE_RAM_WRITE_REQUEST \<noteq> E_BL_MSG_TYPE_SET_BAUD_REQUEST"
  "E_BL_MSG_TYPE_RAM_READ_REQUEST \<noteq> E_BL_MSG_TYPE_SET_BAUD_REQUEST"
  "E_BL_MSG_TYPE_RAM_RUN_REQUEST \<noteq> E_BL_MSG_TYPE_SET_BAUD_REQUEST"
  "E_BL_MSG_TYPE_FLASH_SELECT_TYPE_REQUEST \<noteq> E_BL_MSG_TYPE_SET_BAUD_REQUEST"
  "E_BL_MSG_TYPE_GET_CHIPID_REQUEST \<noteq> E_BL_MSG_TYPE_SET_BAUD_REQUEST"
  "E_BL_MSG_TYPE_PDM_ERASE_REQUEST \<noteq> E_BL_MSG_TYPE_SET_BAUD_REQUEST"
  "E_BL_MSG_TYPE_PROGRAM_INDEX_SECTOR_REQUEST \<noteq> E_BL_MSG_TYPE_SET_BAUD_REQUEST"
  "E_BL_MSG_TYPE_EEPROM_READ_REQUEST \<noteq> E_BL_MSG_TYPE_SET_BAUD_REQUEST"
  "E_BL_MSG_TYPE_EEPROM_WRITE_REQUEST \<noteq> E_BL_MSG_TYPE_SET_BAUD_REQUEST"
  by (simp_all add: E_BL_MSG_TYPE_SET_BAUD_REQUEST_def E_BL_MSG_TYPE_FLASH_ERASE_REQUEST_def E_BL_MSG_TYPE_FLASH_PROGRAM_REQUEST_def
      E_BL_MSG_TYPE_FLASH_READ_REQUEST_def E_BL_MSG_TYPE_RAM_WRITE_REQUEST_def E_BL_MSG_TYPE_RAM_READ_REQUEST_def
      E_BL_MSG_TYPE_RAM_RUN_REQUEST_def E_BL_MSG_TYPE_FLASH_SELECT_TYPE_REQUEST_def E_BL_MSG_TYPE_GET_CHIPID_REQUEST_def
      E_BL_MSG_TYPE_PDM_ERASE_REQUEST_def E_BL_MSG_TYPE_PROGRAM_INDEX_SECTOR_REQUEST_def
      E_BL_MSG_TYPE_EEPROM_READ_REQUEST_def E_BL_MSG_TYPE_EEPROM_WRITE_REQUEST_def)

lemma request_over_line:
  assumes "length hdr + length dat < 254" and "chip ty (hdr @ dat) m = ((rx, resp, data), m')" and "length data \<le> 252"
    and "ty \<noteq> E_BL_MSG_TYPE_SET_BAUD_REQUEST"
  shows "eBL_Request (wire_port chip accepts gives) tmo ty hdr dat (wire_idle sp m) = Some ((resp, rx, data), wire_idle sp m')"
  using request_answered [where chip = chip and hdr = hdr and dat = dat and m = m, OF assms(1-3), of accepts gives tmo sp] assms(4) by simp

text \<open>Out of tune nothing is heard, and nothing answered.\<close>

lemma written_unheard:
  assumes "\<not> in_tune w"
  shows "eUART_Write (wire_port chip accepts gives) bytes w = Some (E_PRG_OK, w)"
proof (induction "length bytes" arbitrary: bytes rule: less_induct)
  case less
  then show ?case using assms
    by (subst eUART_Write.simps) (auto simp: wire_port_def Let_def)
qed

lemma request_unheard:
  assumes "\<not> in_tune w" and "w_out w = []" and "length hdr + length dat < 254"
  shows "eBL_Request (wire_port chip accepts gives) tmo ty hdr dat w = Some ((E_BL_RESPONSE_NO_RESPONSE, 0, []), w)"
  using assms by (simp add: eBL_Request_def eBL_WriteMessage_def Let_def written_unheard eBL_ReadMessage_def wire_read)

section \<open>A memory that is written and read in chunks\<close>

text \<open>
  The bytes of a memory after some are written from an address on; \<open>put\<close> combines the old byte
  with the new one (a flash memory can only clear bits).
\<close>

definition mem_put :: "(u8 \<Rightarrow> u8 \<Rightarrow> u8) \<Rightarrow> u32 \<Rightarrow> u8 list \<Rightarrow> (u32 \<Rightarrow> u8) \<Rightarrow> u32 \<Rightarrow> u8" where
  "mem_put put a bytes m x = (if unat (x - a) < length bytes then put (m x) (bytes ! unat (x - a)) else m x)"

definition mem_get :: "u32 \<Rightarrow> nat \<Rightarrow> (u32 \<Rightarrow> u8) \<Rightarrow> u8 list" where
  "mem_get a n m = map (\<lambda>i. m (a + word_of_nat i)) [0..<n]"

lemma length_mem_get [simp]: "length (mem_get a n m) = n"
  by (simp add: mem_get_def)

lemma mem_get_split: "mem_get a (n + k) m = mem_get a n m @ mem_get (a + word_of_nat n) k m"
  by (rule nth_equalityI) (auto simp: mem_get_def nth_append simp flip: of_nat_add)

lemma mem_get_take: "k \<le> n \<Longrightarrow> take k (mem_get a n m) = mem_get a k m"
  by (simp add: mem_get_def take_map)

lemma mem_put_Nil [simp]: "mem_put put a [] m = m"
  by (simp add: fun_eq_iff mem_put_def)

lemma unat_less_offset:
  fixes d :: u32
  assumes "n \<le> 2 ^ 32"
  shows "unat (d - word_of_nat n) = (if n \<le> unat d then unat d - n else unat d + 2 ^ 32 - n)"
proof -
  have "unat (word_of_nat n :: u32) = n mod 2 ^ 32" by (simp add: unsigned_of_nat take_bit_eq_mod)
  moreover have "unat d < 2 ^ 32" using unsigned_less [of d] by simp
  ultimately show ?thesis using assms by (cases "n = 2 ^ 32") (auto simp: unat_sub_if')
qed

lemma offset_beyond:
  fixes x a :: u32
  assumes "n \<le> 2 ^ 32"
  shows "unat (x - (a + word_of_nat n)) = (if n \<le> unat (x - a) then unat (x - a) - n else unat (x - a) + 2 ^ 32 - n)"
  using unat_less_offset [OF assms, of "x - a"] by (simp only: diff_diff_eq)

lemma mem_put_append:
  assumes "length xs + length ys \<le> 2 ^ 32"
  shows "mem_put put (a + word_of_nat (length xs)) ys (mem_put put a xs m) = mem_put put a (xs @ ys) m"
proof
  fix x
  have "unat (x - a) < 2 ^ 32" using unsigned_less [of "x - a"] by simp
  with assms offset_beyond [of "length xs" x a]
  show "mem_put put (a + word_of_nat (length xs)) ys (mem_put put a xs m) x = mem_put put a (xs @ ys) m x"
    by (auto simp: mem_put_def nth_append)
qed

lemma mem_get_put:
  assumes "length bytes \<le> 2 ^ 32"
  shows "mem_get a (length bytes) (mem_put put a bytes m) = map2 put (mem_get a (length bytes) m) bytes"
proof (rule nth_equalityI)
  fix i assume "i < length (mem_get a (length bytes) (mem_put put a bytes m))"
  then have "i < length bytes" by simp
  moreover have "unat (word_of_nat i :: u32) = i" using assms \<open>i < length bytes\<close> by (simp add: unsigned_of_nat take_bit_eq_mod)
  ultimately show "mem_get a (length bytes) (mem_put put a bytes m) ! i = map2 put (mem_get a (length bytes) m) bytes ! i"
    by (simp add: mem_get_def mem_put_def)
qed simp

text \<open>The loops of the programmer: \<open>for (n = 0; n < len; n += chunk)\<close>, the last chunk what is left.\<close>

function for_chunks :: "nat \<Rightarrow> (nat \<Rightarrow> nat \<Rightarrow> 's \<Rightarrow> (te_status \<times> 's) option) \<Rightarrow> nat \<Rightarrow> nat \<Rightarrow> 's \<Rightarrow> (te_status \<times> 's) option" where
  "for_chunks most step len n s =
     (if n < len then
        (if most = 0 then None
         else let k = (if most < len - n then most else len - n) in do {
           (st, s1) \<leftarrow> step n k s;
           if st \<noteq> E_PRG_OK then Some (st, s1) else for_chunks most step len (n + k) s1
         })
      else Some (E_PRG_OK, s))"
  by pat_completeness auto
termination
  by (relation "measure (\<lambda>(most, step, len, n, s). len - n)") (auto split: if_splits)

declare for_chunks.simps [simp del]

text \<open>A chunk that is read and compared with what it should be.\<close>

definition compare_chunk :: "(u32 \<Rightarrow> nat \<Rightarrow> 's \<Rightarrow> ((te_status \<times> u8 list) \<times> 's) option) \<Rightarrow> u32 \<Rightarrow> u8 list \<Rightarrow> 's \<Rightarrow> (te_status \<times> 's) option" where
  "compare_chunk rd a bytes s = do {
     ((st, b), s1) \<leftarrow> rd a (length bytes) s;
     Some (if st \<noteq> E_PRG_OK then st else if b \<noteq> bytes then E_PRG_VERIFICATION_FAILED else E_PRG_OK, s1)
   }"

definition checked_write :: "(u32 \<Rightarrow> u8 list \<Rightarrow> 's \<Rightarrow> (te_status \<times> 's) option) \<Rightarrow>
    (u32 \<Rightarrow> nat \<Rightarrow> 's \<Rightarrow> ((te_status \<times> u8 list) \<times> 's) option) \<Rightarrow> u32 \<Rightarrow> u8 list \<Rightarrow> 's \<Rightarrow> (te_status \<times> 's) option" where
  "checked_write wr rd a bytes s = do {
     (st, s1) \<leftarrow> wr a bytes s;
     if st \<noteq> E_PRG_OK then Some (st, s1) else compare_chunk rd a bytes s1
   }"

locale chunk_store =
  fixes wr :: "u32 \<Rightarrow> u8 list \<Rightarrow> 's \<Rightarrow> (te_status \<times> 's) option"
    and rd :: "u32 \<Rightarrow> nat \<Rightarrow> 's \<Rightarrow> ((te_status \<times> u8 list) \<times> 's) option"
    and mem :: "'s \<Rightarrow> u32 \<Rightarrow> u8"
    and put :: "u8 \<Rightarrow> u8 \<Rightarrow> u8"
    and usable :: "'s \<Rightarrow> bool"
    and limit :: nat
  assumes writes: "usable s \<Longrightarrow> length bytes \<le> limit \<Longrightarrow>
      \<exists>s'. wr a bytes s = Some (E_PRG_OK, s') \<and> usable s' \<and> mem s' = mem_put put a bytes (mem s)"
    and reads: "usable s \<Longrightarrow> n \<le> limit \<Longrightarrow>
      \<exists>s'. rd a n s = Some ((E_PRG_OK, mem_get a n (mem s)), s') \<and> usable s' \<and> mem s' = mem s"
begin

lemma each_chunk:
  assumes step: "\<And>s a bytes. usable s \<Longrightarrow> length bytes \<le> limit \<Longrightarrow>
      \<exists>s'. step a bytes s = Some (E_PRG_OK, s') \<and> usable s' \<and> mem s' = mem_put put a bytes (mem s)"
    and "usable s" and "0 < most" and "most \<le> limit" and "length img \<le> 2 ^ 32"
  shows "\<exists>s'. for_chunks most (\<lambda>n k. step (a + word_of_nat n) (take k (drop n img))) (length img) n s = Some (E_PRG_OK, s')
    \<and> usable s' \<and> mem s' = mem_put put (a + word_of_nat n) (drop n img) (mem s)"
  using assms(2)
proof (induction "length img - n" arbitrary: n s rule: less_induct)
  case less
  show ?case
  proof (cases "n < length img")
    case False
    with less.prems show ?thesis by (subst for_chunks.simps) simp
  next
    case True
    let ?k = "if most < length img - n then most else length img - n"
    have k: "0 < ?k" "?k \<le> limit" "n + ?k \<le> length img" using True assms(3,4) by auto
    have "length (take ?k (drop n img)) \<le> limit" using k(2) by simp
    from step [OF less.prems this] obtain s1 where s1: "step (a + word_of_nat n) (take ?k (drop n img)) s = Some (E_PRG_OK, s1)"
      "usable s1" "mem s1 = mem_put put (a + word_of_nat n) (take ?k (drop n img)) (mem s)" by blast
    have "length img - (n + ?k) < length img - n" using k True by linarith
    from less.hyps [OF this s1(2)] obtain s2 where s2:
      "for_chunks most (\<lambda>n k. step (a + word_of_nat n) (take k (drop n img))) (length img) (n + ?k) s1 = Some (E_PRG_OK, s2)"
      "usable s2" "mem s2 = mem_put put (a + word_of_nat (n + ?k)) (drop (n + ?k) img) (mem s1)" by blast
    have "length (take ?k (drop n img)) = ?k" using k(3) by simp
    then have "mem s2 = mem_put put (a + word_of_nat n) (take ?k (drop n img) @ drop (n + ?k) img) (mem s)"
      using assms(5) k(3) s1(3) s2(3)
        mem_put_append [of "take ?k (drop n img)" "drop (n + ?k) img" put "a + word_of_nat n" "mem s"] by (simp add: add.assoc)
    also have "take ?k (drop n img) @ drop (n + ?k) img = drop n img" by (metis add.commute append_take_drop_id drop_drop)
    finally show ?thesis using True assms(3) s1(1) s2(1,2) by (subst for_chunks.simps) (simp add: Let_def)
  qed
qed

lemma write_all:
  assumes "usable s" and "0 < most" and "most \<le> limit" and "length img \<le> 2 ^ 32"
  shows "\<exists>s'. for_chunks most (\<lambda>n k. wr (a + word_of_nat n) (take k (drop n img))) (length img) n s = Some (E_PRG_OK, s')
    \<and> usable s' \<and> mem s' = mem_put put (a + word_of_nat n) (drop n img) (mem s)"
  using assms by (intro each_chunk writes)

text \<open>Every chunk read back and compared as soon as it is written.\<close>

lemma write_compare_all:
  assumes "\<And>old new. put old new = new" and "usable s" and "0 < most" and "most \<le> limit" and "limit \<le> 2 ^ 32" and "length img \<le> 2 ^ 32"
  shows "\<exists>s'. for_chunks most (\<lambda>n k. checked_write wr rd (a + word_of_nat n) (take k (drop n img))) (length img) n s = Some (E_PRG_OK, s')
    \<and> usable s' \<and> mem s' = mem_put put (a + word_of_nat n) (drop n img) (mem s)"
proof (rule each_chunk [OF _ assms(2-4,6)])
  fix s :: 's and a and bytes :: "u8 list" assume "usable s" and len: "length bytes \<le> limit"
  then obtain s1 where s1: "wr a bytes s = Some (E_PRG_OK, s1)" "usable s1" "mem s1 = mem_put put a bytes (mem s)" using writes by blast
  from reads [OF s1(2) len] obtain s2 where s2: "rd a (length bytes) s1 = Some ((E_PRG_OK, mem_get a (length bytes) (mem s1)), s2)"
    "usable s2" "mem s2 = mem s1" by blast
  have "mem_get a (length bytes) (mem s1) = bytes"
    unfolding s1(3) using assms(1,5) len by (simp add: mem_get_put list_eq_iff_nth_eq)
  then show "\<exists>s'. checked_write wr rd a bytes s = Some (E_PRG_OK, s') \<and> usable s' \<and> mem s' = mem_put put a bytes (mem s)"
    using s1 s2 by (simp add: checked_write_def compare_chunk_def)
qed

lemma compare_all:
  assumes "usable s" and "0 < most" and "most \<le> limit" and "n \<le> length img"
  shows "\<exists>s'. for_chunks most (\<lambda>n k. compare_chunk rd (a + word_of_nat n) (take k (drop n img))) (length img) n s
      = Some (if mem_get (a + word_of_nat n) (length img - n) (mem s) = drop n img then E_PRG_OK else E_PRG_VERIFICATION_FAILED, s')
    \<and> usable s' \<and> mem s' = mem s"
  using assms(1,4)
proof (induction "length img - n" arbitrary: n s rule: less_induct)
  case less
  show ?case
  proof (cases "n < length img")
    case False
    with less.prems show ?thesis by (subst for_chunks.simps) (simp add: mem_get_def)
  next
    case True
    let ?k = "if most < length img - n then most else length img - n"
    let ?a = "a + word_of_nat n"
    have k: "0 < ?k" "?k \<le> limit" "n + ?k \<le> length img" using True assms(2,3) by auto
    have len: "length (take ?k (drop n img)) = ?k" using k(3) by simp
    from reads [OF less.prems(1) k(2)] obtain s1 where s1: "rd ?a ?k s = Some ((E_PRG_OK, mem_get ?a ?k (mem s)), s1)"
      "usable s1" "mem s1 = mem s" by blast
    have one: "compare_chunk rd ?a (take ?k (drop n img)) s
        = Some (if mem_get ?a ?k (mem s) = take ?k (drop n img) then E_PRG_OK else E_PRG_VERIFICATION_FAILED, s1)"
      unfolding compare_chunk_def len s1(1) by simp
    have "length img - (n + ?k) < length img - n" using k True by linarith
    from less.hyps [OF this s1(2) k(3)] obtain s2 where s2:
      "for_chunks most (\<lambda>n k. compare_chunk rd (a + word_of_nat n) (take k (drop n img))) (length img) (n + ?k) s1
        = Some (if mem_get (a + word_of_nat (n + ?k)) (length img - (n + ?k)) (mem s) = drop (n + ?k) img then E_PRG_OK
                else E_PRG_VERIFICATION_FAILED, s2)"
      "usable s2" "mem s2 = mem s" unfolding s1(3) by blast
    have "length img - n = ?k + (length img - (n + ?k))" using k(3) by linarith
    then have split: "mem_get ?a (length img - n) (mem s) = mem_get ?a ?k (mem s) @ mem_get (a + word_of_nat (n + ?k)) (length img - (n + ?k)) (mem s)"
      using mem_get_split [of ?a ?k "length img - (n + ?k)" "mem s"] by (simp add: add.assoc)
    have parts: "drop n img = take ?k (drop n img) @ drop (n + ?k) img" by (metis add.commute append_take_drop_id drop_drop)
    have "mem_get ?a (length img - n) (mem s) = drop n img \<longleftrightarrow>
        mem_get ?a ?k (mem s) = take ?k (drop n img) \<and> mem_get (a + word_of_nat (n + ?k)) (length img - (n + ?k)) (mem s) = drop (n + ?k) img"
      unfolding split by (subst parts, rule append_eq_append_conv) (simp only: length_mem_get len simp_thms)
    then have "(if mem_get ?a ?k (mem s) = take ?k (drop n img)
        then (if mem_get (a + word_of_nat (n + ?k)) (length img - (n + ?k)) (mem s) = drop (n + ?k) img then E_PRG_OK else E_PRG_VERIFICATION_FAILED)
        else E_PRG_VERIFICATION_FAILED) = (if mem_get ?a (length img - n) (mem s) = drop n img then E_PRG_OK else E_PRG_VERIFICATION_FAILED)"
      by presburger
    moreover have "for_chunks most (\<lambda>n k. compare_chunk rd (a + word_of_nat n) (take k (drop n img))) (length img) n s
        = (compare_chunk rd ?a (take ?k (drop n img)) s) \<bind> (\<lambda>(st, s1). if st \<noteq> E_PRG_OK then Some (st, s1)
            else for_chunks most (\<lambda>n k. compare_chunk rd (a + word_of_nat n) (take k (drop n img))) (length img) (n + ?k) s1)"
      using True assms(2) by (subst for_chunks.simps) (simp only: Let_def if_True not_less_zero simp_thms split: if_split, simp)
    ultimately show ?thesis
      using one s1(2,3) s2 by (cases "mem_get ?a ?k (mem s) = take ?k (drop n img)") (simp_all only: bind.simps prod.case simp_thms if_True if_False te_status.distinct not_True_eq_False, auto)
  qed
qed

end

section \<open>What the flasher relies on in the chip\<close>

text \<open>
  The flash memory: a block that is programmed can only lose bits, a block is read as it is, and
  erasing sets every bit.  The RAM and the EEPROM: what is written replaces what was there.
\<close>

definition stores :: "'m chip \<Rightarrow> u8 \<Rightarrow> u8 \<Rightarrow> (u8 \<Rightarrow> u8 \<Rightarrow> u8) \<Rightarrow> ('m \<Rightarrow> u32 \<Rightarrow> u8) \<Rightarrow> bool" where
  "stores chip ty rx put mem \<longleftrightarrow> (\<forall>a bytes m. length bytes \<le> 249 \<longrightarrow>
     (\<exists>m'. chip ty (le32 a @ bytes) m = ((rx, E_BL_RESPONSE_OK, []), m') \<and> mem m' = mem_put put a bytes (mem m)))"

definition shows_memory :: "'m chip \<Rightarrow> u8 \<Rightarrow> u8 \<Rightarrow> ('m \<Rightarrow> u32 \<Rightarrow> u8) \<Rightarrow> bool" where
  "shows_memory chip ty rx mem \<longleftrightarrow> (\<forall>a n m. n \<le> 252 \<longrightarrow>
     (\<exists>m'. chip ty (le32 a @ [word_of_nat n, 0]) m = ((rx, E_BL_RESPONSE_OK, mem_get a n (mem m)), m') \<and> mem m' = mem m))"

definition flash_law :: "'m chip \<Rightarrow> ('m \<Rightarrow> u32 \<Rightarrow> u8) \<Rightarrow> bool" where
  "flash_law chip flash \<longleftrightarrow>
     stores chip E_BL_MSG_TYPE_FLASH_PROGRAM_REQUEST E_BL_MSG_TYPE_FLASH_PROGRAM_RESPONSE (AND) flash
     \<and> shows_memory chip E_BL_MSG_TYPE_FLASH_READ_REQUEST E_BL_MSG_TYPE_FLASH_READ_RESPONSE flash
     \<and> (\<forall>m. \<exists>m'. chip E_BL_MSG_TYPE_FLASH_ERASE_REQUEST [] m = ((E_BL_MSG_TYPE_FLASH_ERASE_RESPONSE, E_BL_RESPONSE_OK, []), m')
             \<and> flash m' = (\<lambda>_. 0xFF))"

definition ram_law :: "'m chip \<Rightarrow> ('m \<Rightarrow> u32 \<Rightarrow> u8) \<Rightarrow> bool" where
  "ram_law chip ram \<longleftrightarrow>
     stores chip E_BL_MSG_TYPE_RAM_WRITE_REQUEST E_BL_MSG_TYPE_RAM_WRITE_RESPONSE (\<lambda>_ new. new) ram
     \<and> shows_memory chip E_BL_MSG_TYPE_RAM_READ_REQUEST E_BL_MSG_TYPE_RAM_READ_RESPONSE ram"

definition eeprom_law :: "'m chip \<Rightarrow> ('m \<Rightarrow> u32 \<Rightarrow> u8) \<Rightarrow> bool" where
  "eeprom_law chip eeprom \<longleftrightarrow>
     stores chip E_BL_MSG_TYPE_EEPROM_WRITE_REQUEST E_BL_MSG_TYPE_EEPROM_WRITE_RESPONSE (\<lambda>_ new. new) eeprom
     \<and> shows_memory chip E_BL_MSG_TYPE_EEPROM_READ_REQUEST E_BL_MSG_TYPE_EEPROM_READ_RESPONSE eeprom"

lemma check_ok [simp]: "eBL_CheckResponse E_BL_RESPONSE_OK rx rx = E_PRG_OK"
  by (simp add: eBL_CheckResponse_def bl_responses)

text \<open>A command, a write and a read over the line.\<close>

lemma command_over_line:
  assumes "length hdr + length dat < 254" and "chip ty (hdr @ dat) m = ((rx, E_BL_RESPONSE_OK, data), m')" and "length data \<le> 252"
    and "ty \<noteq> E_BL_MSG_TYPE_SET_BAUD_REQUEST"
  shows "bl_command (wire_port chip accepts gives) tmo ty hdr dat rx (wire_idle sp m) = Some (E_PRG_OK, wire_idle sp m')"
  using request_over_line [where chip = chip and ty = ty and hdr = hdr and dat = dat and m = m, OF assms, of accepts gives tmo sp]
  by (simp add: bl_command_def)

lemma store_over_line:
  assumes "stores chip ty rx put mem" and "length bytes \<le> 249" and "ty \<noteq> E_BL_MSG_TYPE_SET_BAUD_REQUEST"
  shows "\<exists>m'. bl_command (wire_port chip accepts gives) tmo ty (le32 a) bytes rx (wire_idle sp m) = Some (E_PRG_OK, wire_idle sp m')
    \<and> mem m' = mem_put put a bytes (mem m)"
proof -
  obtain m' where m': "chip ty (le32 a @ bytes) m = ((rx, E_BL_RESPONSE_OK, []), m')" "mem m' = mem_put put a bytes (mem m)"
    using assms unfolding stores_def by blast
  then show ?thesis
    using command_over_line [where chip = chip and ty = ty and hdr = "le32 a" and dat = bytes and m = m, OF _ m'(1), of accepts gives tmo sp] assms(2,3)
    by auto
qed

lemma show_over_line:
  assumes "shows_memory chip ty rx mem" and "n \<le> 252" and "ty \<noteq> E_BL_MSG_TYPE_SET_BAUD_REQUEST"
  shows "\<exists>m'. eBL_Request (wire_port chip accepts gives) tmo ty (le32 a @ [word_of_nat n, 0]) [] (wire_idle sp m)
      = Some ((E_BL_RESPONSE_OK, rx, mem_get a n (mem m)), wire_idle sp m') \<and> mem m' = mem m"
proof -
  obtain m' where m': "chip ty (le32 a @ [word_of_nat n, 0]) m = ((rx, E_BL_RESPONSE_OK, mem_get a n (mem m)), m')" "mem m' = mem m"
    using assms unfolding shows_memory_def by blast
  with request_over_line [of "le32 a @ [word_of_nat n, 0]" "[]" chip ty m, where accepts = accepts and gives = gives and tmo = tmo and sp = sp] assms(2,3)
  show ?thesis by (intro exI [of _ m']) simp
qed

text \<open>A read into a buffer with room for it, of which the bytes asked for are looked at.\<close>

definition looked_at :: "nat \<Rightarrow> ((te_status \<times> u8 list) \<times> 'd) option \<Rightarrow> ((te_status \<times> u8 list) \<times> 'd) option" where
  "looked_at n r = map_option (\<lambda>((st, buf), d). ((st, take n buf), d)) r"

lemma read_over_line:
  assumes "shows_memory chip ty rx mem" and "n \<le> 248" and "248 \<le> length junk" and "ty \<noteq> E_BL_MSG_TYPE_SET_BAUD_REQUEST"
  shows "\<exists>m'. looked_at n (bl_read (wire_port chip accepts gives) ty rx a n junk (wire_idle sp m))
      = Some ((E_PRG_OK, mem_get a n (mem m)), wire_idle sp m') \<and> mem m' = mem m"
  using show_over_line [OF assms(1), of n accepts gives BL_TIMEOUT_1S a sp m] assms(2-4)
  by (auto simp: bl_read_def looked_at_def copy_reply_def overwrite_def)

lemma ram_read_over_line:
  assumes "ram_law chip ram" and "n \<le> 248" and "248 \<le> length junk"
  shows "\<exists>m'. looked_at n (eBL_MemoryRead (wire_port chip accepts gives) endian a n 1 junk (wire_idle sp m))
      = Some ((E_PRG_OK, mem_get a n (ram m)), wire_idle sp m') \<and> ram m' = ram m"
  using show_over_line [of chip E_BL_MSG_TYPE_RAM_READ_REQUEST E_BL_MSG_TYPE_RAM_READ_RESPONSE ram n accepts gives BL_TIMEOUT_1S a sp m] assms
  by (auto simp: ram_law_def eBL_MemoryRead_def looked_at_def copy_reply_def overwrite_def convert_words_def)

lemma ram_write_over_line:
  assumes "ram_law chip ram" and "length bytes \<le> 248"
  shows "\<exists>m'. eBL_MemoryWrite (wire_port chip accepts gives) endian a (length bytes) 1 bytes (wire_idle sp m) = Some ((E_PRG_OK, bytes), wire_idle sp m')
    \<and> ram m' = mem_put (\<lambda>_ new. new) a bytes (ram m)"
proof -
  obtain m' where "bl_command (wire_port chip accepts gives) BL_TIMEOUT_250MS E_BL_MSG_TYPE_RAM_WRITE_REQUEST (le32 a) bytes
      E_BL_MSG_TYPE_RAM_WRITE_RESPONSE (wire_idle sp m) = Some (E_PRG_OK, wire_idle sp m')" "ram m' = mem_put (\<lambda>_ new. new) a bytes (ram m)"
    using store_over_line [of chip _ _ "\<lambda>_ new. new" ram bytes accepts gives BL_TIMEOUT_250MS a sp m] assms unfolding ram_law_def by fastforce
  then show ?thesis using assms(2) by (auto simp: eBL_MemoryWrite_def convert_words_def)
qed

section \<open>The three memories are memories written and read in chunks\<close>

definition memory_line :: "line_speed \<Rightarrow> bool \<Rightarrow> u8 list \<Rightarrow> 'm wire \<Rightarrow> bool" where
  "memory_line sp law junk w \<longleftrightarrow> law \<and> 248 \<le> length junk \<and> w = wire_idle sp (w_chip w)"

lemma memory_lineE:
  assumes "memory_line sp law junk w"
  obtains m where "law" "248 \<le> length junk" "w = wire_idle sp m" "w_chip w = m"
  using assms by (auto simp: memory_line_def)

lemma memory_line_idle: "law \<Longrightarrow> 248 \<le> length junk \<Longrightarrow> memory_line sp law junk (wire_idle sp m)"
  by (simp add: memory_line_def wire_idle_def)

lemma wire_idle_inject [simp]: "wire_idle sp m = wire_idle sp m' \<longleftrightarrow> m = m'"
  by (simp add: wire_idle_def)

lemma w_chip_idle [simp]: "w_chip (wire_idle sp m) = m"
  by (simp add: wire_idle_def)

interpretation flash_memory: chunk_store "eBL_FlashWrite (wire_port chip accepts gives)"
    "\<lambda>a n w. looked_at n (eBL_FlashRead (wire_port chip accepts gives) a n junk w)" "\<lambda>w. flash (w_chip w)" "(AND)"
    "memory_line sp (flash_law chip flash) junk" 248
  for chip :: "'m chip" and accepts gives and junk :: "u8 list" and flash :: "'m \<Rightarrow> u32 \<Rightarrow> u8" and sp :: line_speed
proof unfold_locales
  fix w :: "'m wire" and bytes :: "u8 list" and a
  assume w: "memory_line sp (flash_law chip flash) junk w" and "length bytes \<le> 248"
  obtain m where m: "flash_law chip flash" "248 \<le> length junk" "w = wire_idle sp m" using w by (rule memory_lineE)
  with store_over_line [of chip _ _ "(AND)" flash bytes accepts gives BL_TIMEOUT_1S a sp m] \<open>length bytes \<le> 248\<close>
  obtain m' where "bl_command (wire_port chip accepts gives) BL_TIMEOUT_1S E_BL_MSG_TYPE_FLASH_PROGRAM_REQUEST (le32 a) bytes
      E_BL_MSG_TYPE_FLASH_PROGRAM_RESPONSE (wire_idle sp m) = Some (E_PRG_OK, wire_idle sp m')" "flash m' = mem_put (AND) a bytes (flash m)"
    unfolding flash_law_def by fastforce
  then show "\<exists>w'. eBL_FlashWrite (wire_port chip accepts gives) a bytes w = Some (E_PRG_OK, w') \<and> memory_line sp (flash_law chip flash) junk w'
      \<and> flash (w_chip w') = mem_put (AND) a bytes (flash (w_chip w))"
    using m \<open>length bytes \<le> 248\<close> memory_line_idle [OF m(1,2), where sp = sp] by (auto simp: eBL_FlashWrite_def)
next
  fix w :: "'m wire" and n :: nat and a
  assume w: "memory_line sp (flash_law chip flash) junk w" and "n \<le> 248"
  obtain m where m: "flash_law chip flash" "248 \<le> length junk" "w = wire_idle sp m" using w by (rule memory_lineE)
  with read_over_line [of chip _ _ flash n junk accepts gives a sp m] \<open>n \<le> 248\<close>
  show "\<exists>w'. looked_at n (eBL_FlashRead (wire_port chip accepts gives) a n junk w) = Some ((E_PRG_OK, mem_get a n (flash (w_chip w))), w')
      \<and> memory_line sp (flash_law chip flash) junk w' \<and> flash (w_chip w') = flash (w_chip w)"
    using memory_line_idle [OF m(1,2), where sp = sp] unfolding flash_law_def eBL_FlashRead_def by fastforce
qed

interpretation eeprom_memory: chunk_store "eBL_EEPROMWrite (wire_port chip accepts gives)"
    "\<lambda>a n w. looked_at n (eBL_EEPROMRead (wire_port chip accepts gives) a n junk w)" "\<lambda>w. eeprom (w_chip w)" "\<lambda>_ new. new"
    "memory_line sp (eeprom_law chip eeprom) junk" 248
  for chip :: "'m chip" and accepts gives and junk :: "u8 list" and eeprom :: "'m \<Rightarrow> u32 \<Rightarrow> u8" and sp :: line_speed
proof unfold_locales
  fix w :: "'m wire" and bytes :: "u8 list" and a
  assume w: "memory_line sp (eeprom_law chip eeprom) junk w" and "length bytes \<le> 248"
  obtain m where m: "eeprom_law chip eeprom" "248 \<le> length junk" "w = wire_idle sp m" using w by (rule memory_lineE)
  with store_over_line [of chip _ _ "\<lambda>_ new. new" eeprom bytes accepts gives BL_TIMEOUT_1S a sp m] \<open>length bytes \<le> 248\<close>
  obtain m' where "bl_command (wire_port chip accepts gives) BL_TIMEOUT_1S E_BL_MSG_TYPE_EEPROM_WRITE_REQUEST (le32 a) bytes
      E_BL_MSG_TYPE_EEPROM_WRITE_RESPONSE (wire_idle sp m) = Some (E_PRG_OK, wire_idle sp m')" "eeprom m' = mem_put (\<lambda>_ new. new) a bytes (eeprom m)"
    unfolding eeprom_law_def by fastforce
  then show "\<exists>w'. eBL_EEPROMWrite (wire_port chip accepts gives) a bytes w = Some (E_PRG_OK, w') \<and> memory_line sp (eeprom_law chip eeprom) junk w'
      \<and> eeprom (w_chip w') = mem_put (\<lambda>_ new. new) a bytes (eeprom (w_chip w))"
    using m \<open>length bytes \<le> 248\<close> memory_line_idle [OF m(1,2), where sp = sp] by (auto simp: eBL_EEPROMWrite_def)
next
  fix w :: "'m wire" and n :: nat and a
  assume w: "memory_line sp (eeprom_law chip eeprom) junk w" and "n \<le> 248"
  obtain m where m: "eeprom_law chip eeprom" "248 \<le> length junk" "w = wire_idle sp m" using w by (rule memory_lineE)
  with read_over_line [of chip _ _ eeprom n junk accepts gives a sp m] \<open>n \<le> 248\<close>
  show "\<exists>w'. looked_at n (eBL_EEPROMRead (wire_port chip accepts gives) a n junk w) = Some ((E_PRG_OK, mem_get a n (eeprom (w_chip w))), w')
      \<and> memory_line sp (eeprom_law chip eeprom) junk w' \<and> eeprom (w_chip w') = eeprom (w_chip w)"
    using memory_line_idle [OF m(1,2), where sp = sp] unfolding eeprom_law_def eBL_EEPROMRead_def by fastforce
qed

interpretation ram_memory: chunk_store
    "\<lambda>a bytes w. map_option (\<lambda>((st, buf), w'). (st, w')) (eBL_MemoryWrite (wire_port chip accepts gives) endian a (length bytes) 1 bytes w)"
    "\<lambda>a n w. looked_at n (eBL_MemoryRead (wire_port chip accepts gives) endian a n 1 junk w)" "\<lambda>w. ram (w_chip w)" "\<lambda>_ new. new"
    "memory_line sp (ram_law chip ram) junk" 248
  for chip :: "'m chip" and accepts gives endian and junk :: "u8 list" and ram :: "'m \<Rightarrow> u32 \<Rightarrow> u8" and sp :: line_speed
proof unfold_locales
  fix w :: "'m wire" and bytes :: "u8 list" and a
  assume w: "memory_line sp (ram_law chip ram) junk w" and "length bytes \<le> 248"
  obtain m where m: "ram_law chip ram" "248 \<le> length junk" "w = wire_idle sp m" using w by (rule memory_lineE)
  with ram_write_over_line [OF m(1) \<open>length bytes \<le> 248\<close>, of accepts gives endian a sp m]
  show "\<exists>w'. map_option (\<lambda>((st, buf), w'). (st, w')) (eBL_MemoryWrite (wire_port chip accepts gives) endian a (length bytes) 1 bytes w) = Some (E_PRG_OK, w')
      \<and> memory_line sp (ram_law chip ram) junk w' \<and> ram (w_chip w') = mem_put (\<lambda>_ new. new) a bytes (ram (w_chip w))"
    using memory_line_idle [OF m(1,2), where sp = sp] by fastforce
next
  fix w :: "'m wire" and n :: nat and a
  assume w: "memory_line sp (ram_law chip ram) junk w" and "n \<le> 248"
  obtain m where m: "ram_law chip ram" "248 \<le> length junk" "w = wire_idle sp m" using w by (rule memory_lineE)
  with ram_read_over_line [OF m(1) \<open>n \<le> 248\<close> m(2), of accepts gives endian a sp m]
  show "\<exists>w'. looked_at n (eBL_MemoryRead (wire_port chip accepts gives) endian a n 1 junk w) = Some ((E_PRG_OK, mem_get a n (ram (w_chip w))), w')
      \<and> memory_line sp (ram_law chip ram) junk w' \<and> ram (w_chip w') = ram (w_chip w)"
    using memory_line_idle [OF m(1,2), where sp = sp] by fastforce
qed

end
