(* ===== verification/ChipDetails.thy ===== *)
theory ChipDetails
  imports BootLine
begin

text \<open>
  What the flasher knows of a chip and of a firmware (\<open>jnFlasher/jennicCommon/programmer.h\<close>,
  \<open>ChipID.h\<close>): the context of the programmer, the discovery of the chip behind the boot loader
  (\<open>ePRG_ChipGetDetails\<close> and what it calls in \<open>programmer.c\<close>) and the header of a firmware file
  (\<open>Firmware.c\<close>).

  A pointer into the mapped firmware is an offset; the status text of the context, which is only
  printed, is left out, and memory is never short.  \<open>junk\<close> is what the stack holds in a buffer
  that has not been written.
\<close>

section \<open>The context\<close>

datatype jtag_access = E_DC_JTAG_DEFAULT | E_DC_JTAG_ENABLE | E_DC_JTAG_DISABLE_FLASH | E_DC_JTAG_DISABLE_CPU | E_DC_JTAG_DISABLE

datatype brownout_voltage = E_DC_VBO_DEFAULT | E_DC_VBO_195 | E_DC_VBO_200 | E_DC_VBO_210 | E_DC_VBO_220 | E_DC_VBO_230
  | E_DC_VBO_240 | E_DC_VBO_270 | E_DC_VBO_300

datatype crp_level = E_DC_CRP_DEFAULT | E_DC_CRP_LEVEL0 | E_DC_CRP_LEVEL1 | E_DC_CRP_LEVEL2

datatype flash_encrypted = E_DC_EXTERNAL_FLASH_ENCRYPTED_DEFAULT | E_DC_EXTERNAL_FLASH_ENCRYPTED_TRUE | E_DC_EXTERNAL_FLASH_ENCRYPTED_FALSE

datatype flash_load = E_DC_EXTERNAL_FLASH_LOAD_DEFAULT | E_DC_EXTERNAL_FLASH_LOAD_DISABLE | E_DC_EXTERNAL_FLASH_LOAD_ENABLE

record device_config =
  eJtag :: jtag_access
  eVbo :: brownout_voltage
  eCRP :: crp_level
  eExternalFlashEncrypted :: flash_encrypted
  eExternalFlashLoad :: flash_load

record fw_info =
  u32ROMVersion :: u32
  u32TextSectionLoadAddress :: u32
  u32TextSectionLength :: u32
  u32BssSectionLoadAddress :: u32
  u32BssSectionLength :: u32
  u32WakeUpEntryPoint :: u32
  u32ResetEntryPoint :: u32
  pu8ImageData :: nat
  u32ImageLength :: u32
  u32MacAddressLocation :: u32
  pu8TextData :: nat
  bRawImage :: bool

record flash_details =
  pcFlashName :: string
  u32FlashSize :: u32
  u8ManufacturerID :: u8
  u8DeviceID :: u8
  u8ChipSelect :: u8

record chip_details =
  u32ChipId :: u32
  u32SupportedFirmware :: u32
  pcChipName :: "string option"
  asFlashes :: "flash_details list"
  u32RamSize :: u32
  u32EepromSize :: u32
  u32BootloaderVersion :: u32
  au8MacAddress :: "u8 list"
  eEndianness :: chip_endian
  boEEPpresent :: bool

record prg_context =
  u32BaudRate :: u32
  pu8Firmware :: "u8 list"
  sFirmwareInfo :: fw_info
  sChipDetails :: chip_details
  sDeviceConfig :: device_config
  u32SelectedFlash :: u32
  pu8FlashProgrammerExtensionStart :: "u8 list option"
  u32FlashProgrammerExtensionLength :: u32
  u32BootloaderEntry :: u32
  u32FlashOffset :: u32
  u32EepromOffset :: u32

definition no_config :: device_config where
  "no_config = \<lparr>eJtag = E_DC_JTAG_DEFAULT, eVbo = E_DC_VBO_DEFAULT, eCRP = E_DC_CRP_DEFAULT,
     eExternalFlashEncrypted = E_DC_EXTERNAL_FLASH_ENCRYPTED_DEFAULT, eExternalFlashLoad = E_DC_EXTERNAL_FLASH_LOAD_DEFAULT\<rparr>"

definition no_firmware :: fw_info where
  "no_firmware = \<lparr>u32ROMVersion = 0, u32TextSectionLoadAddress = 0, u32TextSectionLength = 0, u32BssSectionLoadAddress = 0,
     u32BssSectionLength = 0, u32WakeUpEntryPoint = 0, u32ResetEntryPoint = 0, pu8ImageData = 0, u32ImageLength = 0,
     u32MacAddressLocation = 0, pu8TextData = 0, bRawImage = False\<rparr>"

definition no_chip :: chip_details where
  "no_chip = \<lparr>u32ChipId = 0, u32SupportedFirmware = 0, pcChipName = None, asFlashes = [], u32RamSize = 0, u32EepromSize = 0,
     u32BootloaderVersion = 0, au8MacAddress = replicate 8 0, eEndianness = E_CHIP_BIG_ENDIAN, boEEPpresent = False\<rparr>"

text \<open>The context of \<open>main\<close> after its \<open>memset\<close>.\<close>

definition zero_context :: prg_context where
  "zero_context = \<lparr>u32BaudRate = 0, pu8Firmware = [], sFirmwareInfo = no_firmware, sChipDetails = no_chip, sDeviceConfig = no_config,
     u32SelectedFlash = 0, pu8FlashProgrammerExtensionStart = None, u32FlashProgrammerExtensionLength = 0, u32BootloaderEntry = 0,
     u32FlashOffset = 0, u32EepromOffset = 0\<rparr>"

section \<open>Chip identifiers\<close>

definition CHIP_ID_PART :: "u32 \<Rightarrow> u32" where "CHIP_ID_PART a = a AND 0x003ff000"
definition CHIP_ID_VERSION :: "u32 \<Rightarrow> u32" where "CHIP_ID_VERSION a = a AND 0x0fc00000"
definition CHIP_ID_WITH_METAL_MASK :: "u32 \<Rightarrow> u32" where "CHIP_ID_WITH_METAL_MASK a = a AND NOT 0xf0000000"
definition CHIP_ID :: "u32 \<Rightarrow> u32" where "CHIP_ID a = a AND NOT 0xf0000000 AND NOT 0x0fc00000"

definition CHIP_ID_JN5148_REV2A :: u32 where "CHIP_ID_JN5148_REV2A = 0x10004686"
definition CHIP_ID_JN5148_REV2B :: u32 where "CHIP_ID_JN5148_REV2B = 0x10404686"
definition CHIP_ID_JN5148_REV2C :: u32 where "CHIP_ID_JN5148_REV2C = 0x10804686"
definition CHIP_ID_JN5148_REV2D :: u32 where "CHIP_ID_JN5148_REV2D = 0x10C04686"
definition CHIP_ID_JN5148_REV2E :: u32 where "CHIP_ID_JN5148_REV2E = 0x11004686"
definition CHIP_ID_JN5142_REV1A :: u32 where "CHIP_ID_JN5142_REV1A = 0x00005686"
definition CHIP_ID_JN5142_REV1B :: u32 where "CHIP_ID_JN5142_REV1B = 0x00425686"
definition CHIP_ID_JN5142_REV1C :: u32 where "CHIP_ID_JN5142_REV1C = 0x00845686"
definition CHIP_ID_JN5168 :: u32 where "CHIP_ID_JN5168 = 0x00008686"
definition CHIP_ID_JN5169 :: u32 where "CHIP_ID_JN5169 = 0x0000b686"
definition CHIP_ID_JN5172 :: u32 where "CHIP_ID_JN5172 = 0x0000a686"
definition CHIP_ID_JN5172_D :: u32 where "CHIP_ID_JN5172_D = 0x0000a686"
definition CHIP_ID_JN5172_LR :: u32 where "CHIP_ID_JN5172_LR = 0x0040a686"
definition CHIP_ID_JN5172_HR :: u32 where "CHIP_ID_JN5172_HR = 0x0080a686"
definition CHIP_ID_JN5179 :: u32 where "CHIP_ID_JN5179 = 0x1000a686"

lemmas chip_ids = CHIP_ID_JN5148_REV2A_def CHIP_ID_JN5148_REV2B_def CHIP_ID_JN5148_REV2C_def CHIP_ID_JN5148_REV2D_def
  CHIP_ID_JN5148_REV2E_def CHIP_ID_JN5142_REV1A_def CHIP_ID_JN5142_REV1B_def CHIP_ID_JN5142_REV1C_def CHIP_ID_JN5168_def
  CHIP_ID_JN5169_def CHIP_ID_JN5172_def CHIP_ID_JN5172_D_def CHIP_ID_JN5172_LR_def CHIP_ID_JN5172_HR_def CHIP_ID_JN5179_def

definition BOOTLOADER_CAPABILITY_INDEX_SECTOR :: "u32 \<Rightarrow> bool" where
  "BOOTLOADER_CAPABILITY_INDEX_SECTOR a \<longleftrightarrow> bit a 24"

definition BOOTLOADER_CAPABILITY_EEPROM_ACCESS :: "u32 \<Rightarrow> bool" where
  "BOOTLOADER_CAPABILITY_EEPROM_ACCESS a \<longleftrightarrow> bit a 25"

text \<open>The test that guards the operations on the chips with an internal flash memory.\<close>

definition internal_flash_chip :: "u32 \<Rightarrow> bool" where
  "internal_flash_chip i \<longleftrightarrow> CHIP_ID_PART i = CHIP_ID_PART CHIP_ID_JN5168 \<or> CHIP_ID_PART i = CHIP_ID_PART CHIP_ID_JN5169
     \<or> CHIP_ID_PART i = CHIP_ID_PART CHIP_ID_JN5172"

definition index_sector_address :: "u8 \<Rightarrow> u8 \<Rightarrow> u32" where
  "index_sector_address page w = 0x01001000 + push_bit 8 (ucast page) + push_bit 4 (ucast w)"

section \<open>The memory of a process\<close>

definition local_buffer :: "(nat \<Rightarrow> u8) \<Rightarrow> nat \<Rightarrow> u8 list" where
  "local_buffer junk n = map junk [0..<n]"

lemma length_local_buffer [simp]: "length (local_buffer junk n) = n"
  by (simp add: local_buffer_def)

definition slice :: "u8 list \<Rightarrow> nat \<Rightarrow> nat \<Rightarrow> u8 list option" where
  "slice mem off n = (if off + n \<le> length mem then Some (take n (drop off mem)) else None)"

text \<open>The words of a buffer as the host reads them.\<close>

definition host_words :: "nat \<Rightarrow> u8 list \<Rightarrow> u32 list" where
  "host_words n buf = map (\<lambda>i. unle32 (drop (4 * i) buf)) [0..<n]"

definition majority :: "u32 list \<Rightarrow> u32" where
  "majority ws = (ws ! 0 AND ws ! 1) OR (ws ! 0 AND ws ! 2) OR (ws ! 1 AND ws ! 2)"

section \<open>The flash memories of a chip\<close>

definition ePRG_FlashAddDevice :: "string option \<Rightarrow> u32 \<Rightarrow> u8 \<Rightarrow> u8 \<Rightarrow> u8 \<Rightarrow> prg_context \<Rightarrow> te_status \<times> prg_context" where
  "ePRG_FlashAddDevice nm bytes manufacturer device cs ctx = (case nm of
     None \<Rightarrow> (E_PRG_NULL_PARAMETER, ctx)
   | Some n \<Rightarrow> (E_PRG_OK, ctx\<lparr>sChipDetails := (sChipDetails ctx)\<lparr>asFlashes := asFlashes (sChipDetails ctx)
       @ [\<lparr>pcFlashName = n, u32FlashSize = bytes, u8ManufacturerID = manufacturer, u8DeviceID = device, u8ChipSelect = cs\<rparr>]\<rparr>\<rparr>))"

definition ePRG_FlashSelectDevice :: "'d port \<Rightarrow> u32 \<Rightarrow> prg_context \<Rightarrow> 'd \<Rightarrow> (te_status \<times> prg_context \<times> 'd) option" where
  "ePRG_FlashSelectDevice port device ctx d =
     (if length (asFlashes (sChipDetails ctx)) \<le> unat device then Some (E_PRG_FLASH_DEVICE_UNAVAILABLE, ctx, d)
      else let f = asFlashes (sChipDetails ctx) ! unat device in do {
        (st, d1) \<leftarrow> eBL_FlashSelectDevice port (u8ManufacturerID f) (u8DeviceID f) (u8ChipSelect f) d;
        if st \<noteq> E_PRG_OK then Some (st, ctx, d1)
        else if u8ManufacturerID f = FLASH_MANUFACTURER_JN516X \<and> u8DeviceID f = FLASH_DEVICE_JN516X
          then Some (E_PRG_OK, ctx\<lparr>u32SelectedFlash := device\<rparr>, d1)
        else do {
          (st', d2) \<leftarrow> eBL_FlashStatusRegisterWrite port 0 d1;
          if st' \<noteq> E_PRG_OK then Some (st', ctx, d2) else Some (E_PRG_OK, ctx\<lparr>u32SelectedFlash := device\<rparr>, d2)
        }
      })"

section \<open>The chip\<close>

definition chip_name :: "u32 \<Rightarrow> u32 \<Rightarrow> string option" where
  "chip_name i flash =
     (if CHIP_ID i = CHIP_ID CHIP_ID_JN5148_REV2A then
        (if CHIP_ID_WITH_METAL_MASK i \<in> {CHIP_ID_WITH_METAL_MASK CHIP_ID_JN5148_REV2A, CHIP_ID_WITH_METAL_MASK CHIP_ID_JN5148_REV2B,
              CHIP_ID_WITH_METAL_MASK CHIP_ID_JN5148_REV2C} then Some ''JN5148-001''
         else if CHIP_ID_WITH_METAL_MASK i = CHIP_ID_WITH_METAL_MASK CHIP_ID_JN5148_REV2D then Some ''JN5148-J01''
         else if CHIP_ID_WITH_METAL_MASK i = CHIP_ID_WITH_METAL_MASK CHIP_ID_JN5148_REV2E then Some ''JN5148-Z01''
         else None)
      else if CHIP_ID i = CHIP_ID CHIP_ID_JN5142_REV1A \<or> CHIP_ID i = CHIP_ID CHIP_ID_JN5142_REV1B then Some ''JN5142''
      else if CHIP_ID i = CHIP_ID CHIP_ID_JN5142_REV1C then Some ''JN5142-J01''
      else if CHIP_ID i = CHIP_ID CHIP_ID_JN5168 then
        (if flash = 64 * 1024 then Some ''JN5161'' else if flash = 160 * 1024 then Some ''JN5164''
         else if flash = 256 * 1024 then Some ''JN5168'' else Some ''JN516x'')
      else if CHIP_ID i = CHIP_ID CHIP_ID_JN5169 then Some ''JN5169''
      else if CHIP_ID i = CHIP_ID CHIP_ID_JN5172 then
        (if i = CHIP_ID_JN5172_D then Some ''JN5172_D'' else if i = CHIP_ID_JN5172_LR then Some ''JN5172_LR''
         else if i = CHIP_ID_JN5172_HR then Some ''JN5172_HR''
         else if i = CHIP_ID_JN5179 then
           (if flash = 160 * 1024 then Some ''JN5174'' else if flash = 256 * 1024 then Some ''JN5178''
            else if flash = 512 * 1024 then Some ''JN5179'' else Some ''JN517x'')
         else Some ''Unknown'')
      else Some ''Unknown'')"

text \<open>The size codes of flash memory and RAM, and the size of the EEPROM, from the settings of the factory, or their highest values.\<close>

definition ate_sizes :: "u32 \<Rightarrow> u32 option \<Rightarrow> u32 \<times> u32 \<times> u32" where
  "ate_sizes i settings =
     (if CHIP_ID_PART i = CHIP_ID_PART CHIP_ID_JN5168
        then (4 * 1024 - 64, case settings of Some c \<Rightarrow> c AND 0x07 | None \<Rightarrow> 7, case settings of Some c \<Rightarrow> drop_bit 4 (c AND 0x30) | None \<Rightarrow> 3)
      else (if CHIP_ID_PART i = CHIP_ID_PART CHIP_ID_JN5169 then 16 * 1024 - 64 else 4 * 1024 - 64,
            case settings of Some c \<Rightarrow> c AND 0x0F | None \<Rightarrow> 0xF, case settings of Some c \<Rightarrow> drop_bit 4 (c AND 0x30) | None \<Rightarrow> 3))"

definition read_word :: "'d port \<Rightarrow> (nat \<Rightarrow> u8) \<Rightarrow> chip_endian \<Rightarrow> u32 \<Rightarrow> 'd \<Rightarrow> (u32 option \<times> 'd) option" where
  "read_word port junk endian addr d = do {
     ((st, buf), d1) \<leftarrow> eBL_MemoryRead port endian addr 4 4 (local_buffer junk 16) d;
     Some (if st \<noteq> E_PRG_OK then None else Some (unle32 buf), d1)
   }"

definition read_index_word :: "'d port \<Rightarrow> (nat \<Rightarrow> u8) \<Rightarrow> chip_endian \<Rightarrow> u8 \<Rightarrow> u8 \<Rightarrow> 'd \<Rightarrow> (u32 list option \<times> 'd) option" where
  "read_index_word port junk endian page w d = do {
     ((st, buf), d1) \<leftarrow> eBL_MemoryRead port endian (index_sector_address page w) 16 4 (local_buffer junk 16) d;
     Some (if st \<noteq> E_PRG_OK then None else Some (host_words 4 buf), d1)
   }"

definition identify :: "'d port \<Rightarrow> (nat \<Rightarrow> u8) \<Rightarrow> 'd \<Rightarrow> ((te_status \<times> chip_details) \<times> 'd) option" where
  "identify port junk d = do {
     ((st, ids), d1) \<leftarrow> eBL_ChipIdRead port d;
     let c = (case ids of None \<Rightarrow> no_chip | Some (i, v) \<Rightarrow> no_chip\<lparr>u32ChipId := i, u32BootloaderVersion := v\<rparr>) in
     if st = E_PRG_OK then Some ((E_PRG_OK, c), d1)
     else do {
       (w, d2) \<leftarrow> read_word port junk E_CHIP_BIG_ENDIAN 0x100000FC d1;
       Some (case w of None \<Rightarrow> (E_PRG_ERROR, c) | Some i \<Rightarrow> (E_PRG_OK, c\<lparr>u32ChipId := i\<rparr>), d2)
     }
   }"

definition JN516X_BOOTLOADER_VERSION_ADDRESS :: u32 where "JN516X_BOOTLOADER_VERSION_ADDRESS = 0x00000062"
definition JN517X_BOOTLOADER_VERSION_ADDRESS :: u32 where "JN517X_BOOTLOADER_VERSION_ADDRESS = 0x00000044"
definition JN516X_BOOTLOADER_ENTRY :: u32 where "JN516X_BOOTLOADER_ENTRY = 0x00000066"
definition JN517X_BOOTLOADER_ENTRY :: u32 where "JN517X_BOOTLOADER_ENTRY = 0xFFFFFFFF"
definition JN514X_ROM_ID_ADDR :: u32 where "JN514X_ROM_ID_ADDR = 0x00000004"

text \<open>Only a chip that did not report the version of its boot loader is asked for it, and only then found to be little-endian.\<close>

definition with_version :: "'d port \<Rightarrow> (nat \<Rightarrow> u8) \<Rightarrow> chip_details \<Rightarrow> 'd \<Rightarrow> ((te_status \<times> chip_details) \<times> 'd) option" where
  "with_version port junk c d =
     (if u32BootloaderVersion c \<noteq> 0 then Some ((E_PRG_OK, c), d)
      else let c1 = (if CHIP_ID_PART (u32ChipId c) = CHIP_ID_PART CHIP_ID_JN5172 then c\<lparr>eEndianness := E_CHIP_LITTLE_ENDIAN\<rparr> else c) in do {
        (w, d1) \<leftarrow> read_word port junk (eEndianness c1)
           (if CHIP_ID_PART (u32ChipId c) = CHIP_ID_PART CHIP_ID_JN5172 then JN517X_BOOTLOADER_VERSION_ADDRESS else JN516X_BOOTLOADER_VERSION_ADDRESS) d;
        Some (case w of None \<Rightarrow> (E_PRG_ERROR, c1) | Some v \<Rightarrow> (E_PRG_OK, c1\<lparr>u32BootloaderVersion := v\<rparr>), d1)
      })"

definition ePRG_ChipGetChipId :: "'d port \<Rightarrow> (nat \<Rightarrow> u8) \<Rightarrow> prg_context \<Rightarrow> 'd \<Rightarrow> (te_status \<times> prg_context \<times> 'd) option" where
  "ePRG_ChipGetChipId port junk ctx d = do {
     ((st, c), d1) \<leftarrow> identify port junk d;
     if st \<noteq> E_PRG_OK then Some (st, ctx\<lparr>sChipDetails := c\<rparr>, d1)
     else if internal_flash_chip (u32ChipId c) then do {
       ((st', v), d2) \<leftarrow> with_version port junk c d1;
       if st' \<noteq> E_PRG_OK then Some (st', ctx\<lparr>sChipDetails := v\<rparr>, d2)
       else do {
         (settings, d3) \<leftarrow> read_index_word port junk (eEndianness v) 5 0 d2;
         let config = (sDeviceConfig ctx)\<lparr>eCRP := (if settings = None then E_DC_CRP_LEVEL1 else eCRP (sDeviceConfig ctx))\<rparr>;
             (eeprom, flash, ram) = ate_sizes (u32ChipId v) (map_option majority settings);
             bytes = (flash + 1) * 32 * 1024;
             v' = v\<lparr>u32EepromSize := eeprom, u32RamSize := (ram + 1) * 8 * 1024,
                    u32SupportedFirmware := push_bit 16 ram OR push_bit 24 flash OR drop_bit 12 (CHIP_ID_PART (u32ChipId v))\<rparr>;
             ctx' = snd (ePRG_FlashAddDevice (Some ''Internal Flash'') bytes FLASH_MANUFACTURER_JN516X FLASH_DEVICE_JN516X 0
               (ctx\<lparr>sChipDetails := v', sDeviceConfig := config\<rparr>))
         in Some (E_PRG_OK, ctx'\<lparr>sChipDetails := (sChipDetails ctx')\<lparr>pcChipName := chip_name (u32ChipId v) bytes\<rparr>\<rparr>, d3)
       }
     } else do {
       (w, d2) \<leftarrow> read_word port junk (eEndianness c) JN514X_ROM_ID_ADDR d1;
       case w of None \<Rightarrow> Some (E_PRG_ERROR, ctx\<lparr>sChipDetails := c\<rparr>, d2)
       | Some rom \<Rightarrow> Some (E_PRG_OK, ctx\<lparr>sChipDetails := c\<lparr>u32SupportedFirmware := rom, pcChipName := chip_name (u32ChipId c) 0\<rparr>\<rparr>, d2)
     }
   }"

definition ePRG_ChipGetFlashId :: "'d port \<Rightarrow> prg_context \<Rightarrow> 'd \<Rightarrow> (te_status \<times> prg_context \<times> 'd) option" where
  "ePRG_ChipGetFlashId port ctx d = do {
     ((st, found), d1) \<leftarrow> eBL_DiscoverFlash port 0 d;
     case found of
       Some f \<Rightarrow> (case ePRG_FlashAddDevice (fd_name f) (fd_size f) (fd_manufacturer f) (fd_device f) 0 ctx of (st', ctx') \<Rightarrow> Some (st', ctx', d1))
     | None \<Rightarrow> Some (if internal_flash_chip (u32ChipId (sChipDetails ctx)) then E_PRG_OK else st, ctx, d1)
   }"

text \<open>The MAC address of the customer, or that of the factory when it has not been set.\<close>

definition mac_bytes :: "u32 list \<Rightarrow> u8 list" where
  "mac_bytes ws = rev (le32 (ws ! 0)) @ rev (le32 (ws ! 1))"

definition JN514X_MAC_ADDRESS_LOCATION :: nat where "JN514X_MAC_ADDRESS_LOCATION = 0x30"
definition JN514X_MIB_MAC_ADDRESS_LOCATION :: nat where "JN514X_MIB_MAC_ADDRESS_LOCATION = 0x10"

definition jn5142_chip :: "u32 \<Rightarrow> bool" where
  "jn5142_chip i \<longleftrightarrow> CHIP_ID_PART i = CHIP_ID_PART CHIP_ID_JN5142_REV1A \<or> CHIP_ID_PART i = CHIP_ID_PART CHIP_ID_JN5142_REV1B
     \<or> CHIP_ID_PART i = CHIP_ID_PART CHIP_ID_JN5142_REV1C"

text \<open>Where the images of the older chips have their MAC address.\<close>

definition mac_location :: "u32 \<Rightarrow> nat option" where
  "mac_location i =
     (if CHIP_ID_PART i = CHIP_ID_PART CHIP_ID_JN5148_REV2A then
        (if CHIP_ID_VERSION i = CHIP_ID_VERSION CHIP_ID_JN5148_REV2D \<or> CHIP_ID_VERSION i = CHIP_ID_VERSION CHIP_ID_JN5148_REV2E
         then Some JN514X_MIB_MAC_ADDRESS_LOCATION else Some JN514X_MAC_ADDRESS_LOCATION)
      else if jn5142_chip i then Some JN514X_MIB_MAC_ADDRESS_LOCATION
      else None)"

definition ePRG_ChipGetMacAddress :: "'d port \<Rightarrow> prg_context \<Rightarrow> 'd \<Rightarrow> (te_status \<times> prg_context \<times> 'd) option" where
  "ePRG_ChipGetMacAddress port ctx d =
     (let c = sChipDetails ctx in
      case mac_location (u32ChipId c) of
        Some loc \<Rightarrow> do {
          ((st, mac), d1) \<leftarrow> eBL_FlashRead port (word_of_nat loc) 8 (au8MacAddress c) d;
          Some (st, ctx\<lparr>sChipDetails := c\<lparr>au8MacAddress := mac\<rparr>\<rparr>, d1)
        }
      | None \<Rightarrow>
          if internal_flash_chip (u32ChipId c) then do {
            ((st, buf), d1) \<leftarrow> eBL_MemoryRead port (eEndianness c) (index_sector_address 5 7) 8 4 (replicate 8 0) d;
            if host_words 2 buf = [0xffffffff, 0xffffffff] then do {
              ((st', buf'), d2) \<leftarrow> eBL_MemoryRead port (eEndianness c) (index_sector_address 5 8) 8 4 buf d1;
              Some (st', ctx\<lparr>sChipDetails := c\<lparr>au8MacAddress := mac_bytes (host_words 2 buf')\<rparr>\<rparr>, d2)
            } else Some (st, ctx\<lparr>sChipDetails := c\<lparr>au8MacAddress := mac_bytes (host_words 2 buf)\<rparr>\<rparr>, d1)
          } else Some (E_PRG_ERROR, ctx, d))"

definition vbo_of :: "u32 \<Rightarrow> brownout_voltage" where
  "vbo_of n = [E_DC_VBO_195, E_DC_VBO_200, E_DC_VBO_210, E_DC_VBO_220, E_DC_VBO_230, E_DC_VBO_240, E_DC_VBO_270, E_DC_VBO_300] ! unat n"

text \<open>The settings in the two configuration words, each the majority of three copies.\<close>

definition jtag_flash :: "u32 \<Rightarrow> jtag_access" where
  "jtag_flash w = (if length (filter (bit w) [0..<4]) \<le> 2 then E_DC_JTAG_DISABLE_FLASH else E_DC_JTAG_ENABLE)"

definition customer_config :: "jtag_access \<Rightarrow> u32 \<Rightarrow> device_config" where
  "customer_config jtag w =
     \<lparr>eJtag = (if w AND 0x01 = 0 then (if jtag = E_DC_JTAG_DISABLE_FLASH then E_DC_JTAG_DISABLE else E_DC_JTAG_DISABLE_CPU) else jtag),
      eVbo = vbo_of (drop_bit 1 (w AND push_bit 1 7) XOR 6),
      eCRP = (if drop_bit 4 (w AND push_bit 4 3) = 0 then E_DC_CRP_LEVEL2 else if drop_bit 4 (w AND push_bit 4 3) = 1 then E_DC_CRP_LEVEL1
              else if drop_bit 4 (w AND push_bit 4 3) = 2 then E_DC_CRP_LEVEL2 else E_DC_CRP_LEVEL0),
      eExternalFlashEncrypted = (if bit w 6 then E_DC_EXTERNAL_FLASH_ENCRYPTED_FALSE else E_DC_EXTERNAL_FLASH_ENCRYPTED_TRUE),
      eExternalFlashLoad = (if bit w 7 then E_DC_EXTERNAL_FLASH_LOAD_ENABLE else E_DC_EXTERNAL_FLASH_LOAD_DISABLE)\<rparr>"

definition ePRG_DeviceConfigGet :: "'d port \<Rightarrow> (nat \<Rightarrow> u8) \<Rightarrow> prg_context \<Rightarrow> 'd \<Rightarrow> (te_status \<times> prg_context \<times> 'd) option" where
  "ePRG_DeviceConfigGet port junk ctx d =
     (if \<not> internal_flash_chip (u32ChipId (sChipDetails ctx)) then Some (E_PRG_UNSUPPORTED_CHIP, ctx, d)
      else do {
        (ip, d1) \<leftarrow> read_index_word port junk (eEndianness (sChipDetails ctx)) 4 0 d;
        case ip of None \<Rightarrow> Some (E_PRG_ERROR, ctx, d1)
        | Some ws \<Rightarrow>
            let jtag = jtag_flash (majority ws); ctx1 = ctx\<lparr>sDeviceConfig := (sDeviceConfig ctx)\<lparr>eJtag := jtag\<rparr>\<rparr> in do {
              (customer, d2) \<leftarrow> read_index_word port junk (eEndianness (sChipDetails ctx)) 5 1 d1;
              case customer of None \<Rightarrow> Some (E_PRG_ERROR, ctx1, d2)
              | Some cs \<Rightarrow> Some (E_PRG_OK, ctx\<lparr>sDeviceConfig := customer_config jtag (majority cs)\<rparr>, d2)
            }
      })"

definition ePRG_ChipGetEEPROMenable :: "prg_context \<Rightarrow> te_status \<times> prg_context" where
  "ePRG_ChipGetEEPROMenable ctx =
     (E_PRG_OK, ctx\<lparr>sChipDetails := (sChipDetails ctx)\<lparr>boEEPpresent := internal_flash_chip (u32ChipId (sChipDetails ctx))\<rparr>\<rparr>)"

text \<open>\<open>linked\<close> is what the symbols of the linked extension binaries denote: the memory at the one, and the value of the other.\<close>

definition ePRG_ChipGetFlashProgrammerExtensionDetails :: "(u32 \<Rightarrow> u8 list \<times> u32) \<Rightarrow> prg_context \<Rightarrow> te_status \<times> prg_context" where
  "ePRG_ChipGetFlashProgrammerExtensionDetails linked ctx =
     (let i = u32ChipId (sChipDetails ctx) in
      (E_PRG_OK,
       if internal_flash_chip i then
         ctx\<lparr>pu8FlashProgrammerExtensionStart := Some (fst (linked (CHIP_ID_PART i))),
             u32FlashProgrammerExtensionLength := snd (linked (CHIP_ID_PART i)),
             u32BootloaderEntry := (if CHIP_ID_PART i = CHIP_ID_PART CHIP_ID_JN5172 then JN517X_BOOTLOADER_ENTRY else JN516X_BOOTLOADER_ENTRY)\<rparr>
       else ctx))"

definition ePRG_ChipGetDetails :: "'d port \<Rightarrow> (nat \<Rightarrow> u8) \<Rightarrow> (u32 \<Rightarrow> u8 list \<times> u32) \<Rightarrow> prg_context \<Rightarrow> 'd \<Rightarrow> (te_status \<times> prg_context \<times> 'd) option" where
  "ePRG_ChipGetDetails port junk linked ctx d = do {
     (st1, d1) \<leftarrow> eUART_Flush port d;
     if st1 \<noteq> E_PRG_OK then Some (st1, ctx, d1) else do {
     (st2, ctx2, d2) \<leftarrow> ePRG_ChipGetChipId port junk ctx d1;
     if st2 \<noteq> E_PRG_OK then Some (st2, ctx2, d2) else do {
     (st3, ctx3, d3) \<leftarrow> ePRG_ChipGetFlashId port ctx2 d2;
     if st3 \<noteq> E_PRG_OK then Some (st3, ctx3, d3) else do {
     (_, ctx4, d4) \<leftarrow> ePRG_ChipGetMacAddress port ctx3 d3;
     (_, ctx5, d5) \<leftarrow> ePRG_DeviceConfigGet port junk ctx4 d4;
     let ctx6 = snd (ePRG_ChipGetEEPROMenable ctx5);
         ctx7 = snd (ePRG_ChipGetFlashProgrammerExtensionDetails linked ctx6)
     in ePRG_FlashSelectDevice port 0 ctx7 d5
     }}}
   }"

section \<open>The header of a firmware file\<close>

text \<open>
  The firmware is the memory from its first byte on, with what follows the file; \<open>None\<close> when the
  header is read behind it.  \<open>reads\<close> takes a word of the header in one of the two byte orders.
\<close>

definition header_magic :: "(u8 list \<Rightarrow> u32) \<Rightarrow> u8 list \<Rightarrow> u32 list" where
  "header_magic reads mem = map (\<lambda>i. reads (drop (4 + 4 * i) mem)) [0..<3]"

text \<open>What the two orders have in common; a section word has its address in one half and its length in the other.\<close>

definition header_info :: "(u8 list \<Rightarrow> u32) \<Rightarrow> u32 \<Rightarrow> (u32 \<Rightarrow> u32) \<Rightarrow> (u32 \<Rightarrow> u32) \<Rightarrow> u8 list \<Rightarrow> fw_info \<Rightarrow> fw_info" where
  "header_info reads base addr_half len_half mem info = info\<lparr>
     u32ROMVersion := reads mem,
     u32TextSectionLoadAddress := base + addr_half (reads (drop 44 mem)) * 4,
     u32TextSectionLength := len_half (reads (drop 44 mem)) * 4,
     u32BssSectionLoadAddress := base + addr_half (reads (drop 48 mem)) * 4,
     u32BssSectionLength := len_half (reads (drop 48 mem)) * 4,
     u32WakeUpEntryPoint := reads (drop 52 mem),
     u32ResetEntryPoint := reads (drop 56 mem),
     pu8TextData := 60\<rparr>"

definition ePRG_FwGetInfo :: "u8 list \<Rightarrow> u32 \<Rightarrow> prg_context \<Rightarrow> (te_status \<times> prg_context) option" where
  "ePRG_FwGetInfo mem len ctx =
     (let info = (sFirmwareInfo ctx)\<lparr>u32ImageLength := len\<rparr>;
          done = (\<lambda>i. Some (if u32TextSectionLength i > len then (E_PRG_INVALID_FILE, ctx\<lparr>sFirmwareInfo := i\<rparr>)
                            else (E_PRG_OK, ctx\<lparr>sFirmwareInfo := i\<lparr>bRawImage := False\<rparr>\<rparr>))) in
      if length mem < 16 then None
      else if header_magic join_be mem = [0x12345678, 0x11223344, 0x55667788] then
        (if length mem < 60 then None
         else done ((header_info join_be 0x04000000 (drop_bit 16) (\<lambda>w. w AND 0xFFFF) mem info)
                \<lparr>pu8ImageData := 4, u32ImageLength := len - 4, u32MacAddressLocation := 0x10\<rparr>))
      else if header_magic unle32 mem = [0x12345678, 0x11223344, 0x55667788] then
        (if length mem < 60 then None
         else done ((header_info unle32 0x20000000 (\<lambda>w. w AND 0xFFFF) (drop_bit 16) mem info)
                \<lparr>pu8ImageData := 4, u32ImageLength := len - 4, u32MacAddressLocation := 0x10\<rparr>))
      else if header_magic unle32 mem = [0x12345678, 0x22334455, 0x66778899] then
        (if length mem < 60 then None
         else done ((header_info unle32 0x20000000 (\<lambda>w. w AND 0xFFFF) (drop_bit 16) mem info)
                \<lparr>pu8ImageData := 0, u32MacAddressLocation := 0x14\<rparr>))
      else Some (E_PRG_OK, ctx\<lparr>sFirmwareInfo := info\<lparr>pu8ImageData := 0, bRawImage := True\<rparr>\<rparr>))"

text \<open>
  Opening a file maps it, with zeros up to the end of its last page (an empty file cannot be
  mapped); \<open>page\<close> is the size of a page.
\<close>

definition mapped :: "nat \<Rightarrow> u8 list \<Rightarrow> u8 list" where
  "mapped page file = file @ replicate ((page - length file mod page) mod page) 0"

definition ePRG_FwOpen :: "nat \<Rightarrow> u8 list option \<Rightarrow> prg_context \<Rightarrow> (te_status \<times> prg_context) option" where
  "ePRG_FwOpen page contents ctx = (case contents of
     None \<Rightarrow> Some (E_PRG_FAILED_TO_OPEN_FILE, ctx)
   | Some file \<Rightarrow>
       let len = word_of_nat (length file); ctx1 = ctx\<lparr>sFirmwareInfo := (sFirmwareInfo ctx)\<lparr>u32ImageLength := len\<rparr>\<rparr> in
       if file = [] then Some (E_PRG_ERROR, ctx1)
       else ePRG_FwGetInfo (mapped page file) len (ctx1\<lparr>pu8Firmware := mapped page file\<rparr>))"

end
