(* ===== verification/FlashProgrammer.thy ===== *)
theory FlashProgrammer
  imports ChipDetails
begin

text \<open>
  The operations of the flasher (\<open>jnFlasher/jennicCommon/programmer.c\<close>): erasing, programming,
  verifying and dumping the flash memory, loading and starting a program in RAM, the EEPROM, and
  the one-time programmable words of the index sector with what is stored in them.

  A call-back that shows progress or asks for a confirmation is a function of its texts, and
  may abort the operation; \<open>None\<close> is the null pointer.
\<close>

type_synonym progress = "(string \<Rightarrow> nat \<Rightarrow> nat \<Rightarrow> te_status) option"
type_synonym confirm = "(string \<Rightarrow> te_status) option"

definition progressed :: "progress \<Rightarrow> string \<Rightarrow> nat \<Rightarrow> nat \<Rightarrow> bool" where
  "progressed cb txt steps n = (case cb of None \<Rightarrow> True | Some f \<Rightarrow> f txt steps n = E_PRG_OK)"

record 'd prg_env =
  pe_port :: "'d port"
  pe_junk :: "nat \<Rightarrow> u8"

definition selected_flash :: "prg_context \<Rightarrow> flash_details option" where
  "selected_flash ctx = (if unat (u32SelectedFlash ctx) < length (asFlashes (sChipDetails ctx))
     then Some (asFlashes (sChipDetails ctx) ! unat (u32SelectedFlash ctx)) else None)"

section \<open>The flash memory\<close>

text \<open>The name of the selected flash is read for the title: \<open>None\<close> when there is none. Only the first 64 bytes are checked.\<close>

definition ePRG_FlashErase :: "'d prg_env \<Rightarrow> progress \<Rightarrow> prg_context \<Rightarrow> 'd \<Rightarrow> (te_status \<times> 'd) option" where
  "ePRG_FlashErase env cb ctx d =
     (if selected_flash ctx = None then None
      else if \<not> progressed cb ''Erasing'' 0 0 then Some (E_PRG_ABORTED, d)
      else do {
        (st, d1) \<leftarrow> eBL_FlashErase (pe_port env) d;
        if st \<noteq> E_PRG_OK then Some (st, d1)
        else if eCRP (sDeviceConfig ctx) = E_DC_CRP_DEFAULT \<or> eCRP (sDeviceConfig ctx) = E_DC_CRP_LEVEL0 then do {
          ((st', buf), d2) \<leftarrow> eBL_FlashRead (pe_port env) 0 64 (local_buffer (pe_junk env) 249) d1;
          Some (if st' \<noteq> E_PRG_OK then st'
                else if take 64 buf \<noteq> replicate 64 0xFF then E_PRG_ERROR
                else if \<not> progressed cb ''Erasing'' 1 1 then E_PRG_ABORTED else E_PRG_OK, d2)
        } else Some (E_PRG_OK, d1)
      })"

text \<open>The images of the older chips get the MAC address of the chip, in the mapped file.\<close>

definition ePRG_SetUpImage :: "prg_context \<Rightarrow> (te_status \<times> prg_context) option" where
  "ePRG_SetUpImage ctx =
     (case mac_location (u32ChipId (sChipDetails ctx)) of
        Some loc \<Rightarrow>
          let at = pu8ImageData (sFirmwareInfo ctx) + loc in
          if at + 8 \<le> length (pu8Firmware ctx)
            then Some (E_PRG_OK, ctx\<lparr>pu8Firmware := overwrite at (take 8 (au8MacAddress (sChipDetails ctx))) (pu8Firmware ctx)\<rparr>)
            else None
      | None \<Rightarrow> Some (if internal_flash_chip (u32ChipId (sChipDetails ctx)) then E_PRG_OK else E_PRG_UNSUPPORTED_CHIP, ctx))"

definition flash_write_step :: "'d prg_env \<Rightarrow> progress \<Rightarrow> prg_context \<Rightarrow> nat \<Rightarrow> nat \<Rightarrow> 'd \<Rightarrow> (te_status \<times> 'd) option" where
  "flash_write_step env cb ctx n k d = do {
     bytes \<leftarrow> slice (pu8Firmware ctx) (pu8ImageData (sFirmwareInfo ctx) + n) k;
     (st, d1) \<leftarrow> eBL_FlashWrite (pe_port env) (u32FlashOffset ctx + word_of_nat n) bytes d;
     Some (if st \<noteq> E_PRG_OK then st
           else if \<not> progressed cb ''Writing'' (unat (u32ImageLength (sFirmwareInfo ctx))) n then E_PRG_ABORTED else E_PRG_OK, d1)
   }"

definition flash_verify_step :: "'d prg_env \<Rightarrow> progress \<Rightarrow> prg_context \<Rightarrow> nat \<Rightarrow> nat \<Rightarrow> 'd \<Rightarrow> (te_status \<times> 'd) option" where
  "flash_verify_step env cb ctx n k d = do {
     ((st, buf), d1) \<leftarrow> eBL_FlashRead (pe_port env) (u32FlashOffset ctx + word_of_nat n) k (local_buffer (pe_junk env) 249) d;
     if st \<noteq> E_PRG_OK then Some (st, d1)
     else do {
       bytes \<leftarrow> slice (pu8Firmware ctx) (pu8ImageData (sFirmwareInfo ctx) + n) k;
       Some (if bytes \<noteq> take k buf then E_PRG_VERIFICATION_FAILED
             else if \<not> progressed cb ''Verifying'' (unat (u32ImageLength (sFirmwareInfo ctx))) n then E_PRG_ABORTED else E_PRG_OK, d1)
     }
   }"

text \<open>An image for another version of the ROM needs a confirmation.\<close>

definition confirmed :: "confirm \<Rightarrow> prg_context \<Rightarrow> bool" where
  "confirmed cb ctx =
     (u32ROMVersion (sFirmwareInfo ctx) = u32SupportedFirmware (sChipDetails ctx)
      \<or> (case cb of None \<Rightarrow> False
         | Some f \<Rightarrow> f (if bRawImage (sFirmwareInfo ctx) then ''The loaded file does not appear to be a valid image. Program raw?''
                     else ''The loaded image does not appear to be compatible with the connected device. Continue?'') = E_PRG_OK))"

definition ePRG_FlashProgram :: "'d prg_env \<Rightarrow> progress \<Rightarrow> confirm \<Rightarrow> prg_context \<Rightarrow> 'd \<Rightarrow> (te_status \<times> prg_context \<times> 'd) option" where
  "ePRG_FlashProgram env cb confirm ctx0 d =
     (if \<not> confirmed confirm ctx0 then Some (E_PRG_INCOMPATIBLE, ctx0, d)
      else do {
        (st, ctx) \<leftarrow> ePRG_SetUpImage ctx0;
        if st \<noteq> E_PRG_OK then Some (st, ctx, d)
        else do {
          f \<leftarrow> selected_flash ctx;
          let len = u32ImageLength (sFirmwareInfo ctx) in
          if u32FlashOffset ctx + len > u32FlashSize f then Some (E_PRG_INCOMPATIBLE, ctx, d)
          else do {
            (st1, d1) \<leftarrow> ePRG_FlashErase env cb ctx d;
            if st1 \<noteq> E_PRG_OK then Some (st1, ctx, d1)
            else if \<not> progressed cb ''Writing'' 0 0 then Some (E_PRG_ABORTED, ctx, d1)
            else do {
              (st2, d2) \<leftarrow> for_chunks 128 (flash_write_step env cb ctx) (unat len) 0 d1;
              Some (if st2 \<noteq> E_PRG_OK then st2
                    else if \<not> progressed cb ''Writing'' (unat len) (unat len) then E_PRG_ABORTED else E_PRG_OK, ctx, d2)
            }
          }
        }
      })"

definition ePRG_FlashVerify :: "'d prg_env \<Rightarrow> progress \<Rightarrow> prg_context \<Rightarrow> 'd \<Rightarrow> (te_status \<times> prg_context \<times> 'd) option" where
  "ePRG_FlashVerify env cb ctx0 d =
     (if eCRP (sDeviceConfig ctx0) = E_DC_CRP_LEVEL1 then Some (E_PRG_CRP_SET, ctx0, d)
      else do {
        f \<leftarrow> selected_flash ctx0;
        let len = u32ImageLength (sFirmwareInfo ctx0) in
        if u32FlashOffset ctx0 + len > u32FlashSize f then Some (E_PRG_INCOMPATIBLE, ctx0, d)
        else if \<not> progressed cb ''Verifying'' 0 0 then Some (E_PRG_ABORTED, ctx0, d)
        else do {
          (st, ctx) \<leftarrow> ePRG_SetUpImage ctx0;
          if st \<noteq> E_PRG_OK then Some (st, ctx, d)
          else do {
            (st1, d1) \<leftarrow> for_chunks 128 (flash_verify_step env cb ctx) (unat len) 0 d;
            Some (if st1 \<noteq> E_PRG_OK then st1
                  else if \<not> progressed cb ''Verifying'' (unat len) (unat len) then E_PRG_ABORTED else E_PRG_OK, ctx, d1)
          }
        }
      })"

text \<open>
  A dump goes to a file: whether it can be opened, and which of the writes to it succeed, are
  arguments; the bytes written so far are part of the state.
\<close>

definition dump_step :: "(u32 \<Rightarrow> nat \<Rightarrow> u8 list \<Rightarrow> 'd \<Rightarrow> ((te_status \<times> u8 list) \<times> 'd) option) \<Rightarrow> (nat \<Rightarrow> u8) \<Rightarrow> nat \<Rightarrow> (nat \<Rightarrow> bool) \<Rightarrow>
    progress \<Rightarrow> string \<Rightarrow> nat \<Rightarrow> nat \<Rightarrow> nat \<Rightarrow> u8 list \<times> 'd \<Rightarrow> (te_status \<times> u8 list \<times> 'd) option" where
  "dump_step reading junk buf_len write_ok cb txt amount n k s = (case s of (file, d) \<Rightarrow> do {
     ((st, buf), d1) \<leftarrow> reading (word_of_nat n) k (local_buffer junk buf_len) d;
     Some (if st \<noteq> E_PRG_OK then (st, file, d1)
           else if \<not> write_ok n then (E_PRG_ERROR_WRITING, file, d1)
           else (if \<not> progressed cb txt amount n then E_PRG_ABORTED else E_PRG_OK, file @ take k buf, d1))
   })"

definition ePRG_FlashDump :: "'d prg_env \<Rightarrow> bool \<Rightarrow> (nat \<Rightarrow> bool) \<Rightarrow> progress \<Rightarrow> prg_context \<Rightarrow> 'd \<Rightarrow> (te_status \<times> u8 list \<times> 'd) option" where
  "ePRG_FlashDump env opens write_ok cb ctx d =
     (if eCRP (sDeviceConfig ctx) = E_DC_CRP_LEVEL1 then Some (E_PRG_CRP_SET, [], d)
      else do {
        f \<leftarrow> selected_flash ctx;
        let amount = unat (u32FlashSize f) in
        if \<not> opens then Some (E_PRG_FAILED_TO_OPEN_FILE, [], d)
        else do {
          (st, file, d1) \<leftarrow> for_chunks 128 (dump_step (eBL_FlashRead (pe_port env)) (pe_junk env) 128 write_ok cb ''Dumping Flash'' amount)
              amount (unat (u32FlashOffset ctx)) ([], d);
          Some (if st \<noteq> E_PRG_OK then st
                else if \<not> progressed cb ''Dumping Flash'' amount amount then E_PRG_ABORTED else E_PRG_OK, file, d1)
        }
      })"

section \<open>A program in RAM\<close>

definition BL_MAX_CHUNK_SIZE :: nat where "BL_MAX_CHUNK_SIZE = 248"

definition text_load_step :: "'d prg_env \<Rightarrow> progress \<Rightarrow> prg_context \<Rightarrow> nat \<Rightarrow> nat \<Rightarrow> 'd \<Rightarrow> (te_status \<times> 'd) option" where
  "text_load_step env cb ctx n k d =
     (let info = sFirmwareInfo ctx; endian = eEndianness (sChipDetails ctx); addr = u32TextSectionLoadAddress info + word_of_nat n in do {
        bytes \<leftarrow> slice (pu8Firmware ctx) (pu8TextData info + n) k;
        ((st, _), d1) \<leftarrow> eBL_MemoryWrite (pe_port env) endian addr k 1 bytes d;
        if st \<noteq> E_PRG_OK then Some (st, d1)
        else do {
          ((st', buf), d2) \<leftarrow> eBL_MemoryRead (pe_port env) endian addr k 1 (local_buffer (pe_junk env) (BL_MAX_CHUNK_SIZE + 1)) d1;
          Some (if st' \<noteq> E_PRG_OK then st'
                else if bytes \<noteq> take k buf then E_PRG_VERIFICATION_FAILED
                else if \<not> progressed cb ''Loading'' (unat (u32TextSectionLength info + u32BssSectionLength info)) n then E_PRG_ABORTED
                else E_PRG_OK, d2)
        }
      })"

definition bss_clear_step :: "'d prg_env \<Rightarrow> progress \<Rightarrow> prg_context \<Rightarrow> nat \<Rightarrow> nat \<Rightarrow> 'd \<Rightarrow> (te_status \<times> 'd) option" where
  "bss_clear_step env cb ctx n k d =
     (let info = sFirmwareInfo ctx in do {
        ((st, _), d1) \<leftarrow> eBL_MemoryWrite (pe_port env) (eEndianness (sChipDetails ctx)) (u32BssSectionLoadAddress info + word_of_nat n) k 1
            (replicate k 0) d;
        Some (if st \<noteq> E_PRG_OK then st
              else if \<not> progressed cb ''Clearing .bss'' (unat (u32TextSectionLength info + u32BssSectionLength info))
                     (unat (u32TextSectionLength info) + n) then E_PRG_ABORTED
              else E_PRG_OK, d1)
      })"

definition ePRG_MemoryLoadExecute :: "'d prg_env \<Rightarrow> progress \<Rightarrow> confirm \<Rightarrow> prg_context \<Rightarrow> 'd \<Rightarrow> (te_status \<times> 'd) option" where
  "ePRG_MemoryLoadExecute env cb confirm ctx0 d =
     (if confirm = None then Some (E_PRG_NULL_PARAMETER, d)
      else if eCRP (sDeviceConfig ctx0) = E_DC_CRP_LEVEL1 then Some (E_PRG_CRP_SET, d)
      else if bRawImage (sFirmwareInfo ctx0) then Some (E_PRG_INCOMPATIBLE, d)
      else if \<not> confirmed confirm ctx0 then Some (E_PRG_INCOMPATIBLE, d)
      else do {
        (st, ctx) \<leftarrow> ePRG_SetUpImage ctx0;
        if st \<noteq> E_PRG_OK then Some (st, d)
        else let info = sFirmwareInfo ctx; amount = unat (u32TextSectionLength info + u32BssSectionLength info) in
          if u32ImageLength info + u32BssSectionLength info > u32RamSize (sChipDetails ctx) then Some (E_PRG_INCOMPATIBLE, d)
          else if \<not> progressed cb ''Loading'' 0 0 then Some (E_PRG_ABORTED, d)
          else do {
            (st1, d1) \<leftarrow> for_chunks BL_MAX_CHUNK_SIZE (text_load_step env cb ctx) (unat (u32TextSectionLength info)) 0 d;
            if st1 \<noteq> E_PRG_OK then Some (st1, d1)
            else if \<not> progressed cb ''Clearing .bss'' amount (unat (u32TextSectionLength info)) then Some (E_PRG_ABORTED, d1)
            else do {
              (st2, d2) \<leftarrow> for_chunks 127 (bss_clear_step env cb ctx) (unat (u32BssSectionLength info)) 0 d1;
              if st2 \<noteq> E_PRG_OK then Some (st2, d2)
              else if \<not> progressed cb ''Clearing .bss'' amount amount then Some (E_PRG_ABORTED, d2)
              else eBL_MemoryExecute (pe_port env) (u32ResetEntryPoint info) d2
            }
          }
      })"

section \<open>The extension of the boot loader\<close>

text \<open>
  Operations the boot loader lacks are done by a program that is loaded in RAM, with a copy of
  the context; then the boot loader is started again, which talks at its initial speed for a
  while.  The speed that is restored is the one in the context.
\<close>

definition ePRG_FlashProgrammerExtensionLoad :: "'d prg_env \<Rightarrow> prg_context \<Rightarrow> 'd \<Rightarrow> (te_status \<times> 'd) option" where
  "ePRG_FlashProgrammerExtensionLoad env ctx d = (case pu8FlashProgrammerExtensionStart ctx of
     None \<Rightarrow> Some (E_PRG_UNSUPPORTED_OPERATION, d)
   | Some mem \<Rightarrow>
       if u32FlashProgrammerExtensionLength ctx = 0 then Some (E_PRG_UNSUPPORTED_OPERATION, d)
       else do {
         (st, copy) \<leftarrow> ePRG_FwGetInfo mem (u32FlashProgrammerExtensionLength ctx) (ctx\<lparr>pu8Firmware := mem\<rparr>);
         if st \<noteq> E_PRG_OK then Some (st, d)
         else ePRG_MemoryLoadExecute env None (Some (\<lambda>_. E_PRG_OK)) copy d
       })"

definition ePRG_FlashProgrammerExtensionReturn :: "'d prg_env \<Rightarrow> prg_context \<Rightarrow> 'd \<Rightarrow> (te_status \<times> prg_context \<times> 'd) option" where
  "ePRG_FlashProgrammerExtensionReturn env ctx d = do {
     (st, d1) \<leftarrow> eBL_MemoryExecute (pe_port env) (u32BootloaderEntry ctx) d;
     if st \<noteq> E_PRG_OK then Some (st, ctx, d1)
     else if CHIP_ID_PART (u32ChipId (sChipDetails ctx)) = CHIP_ID_PART CHIP_ID_JN5172 then Some (E_PRG_OK, ctx, d1)
     else case eUART_SetBaudRate (pe_port env) 38400 d1 of (st1, d2) \<Rightarrow>
       if st1 \<noteq> E_PRG_OK then Some (st1, ctx\<lparr>u32BaudRate := 38400\<rparr>, d2)
       else case eUART_SetBaudRate (pe_port env) (unat (u32BaudRate ctx)) d2 of (st2, d3) \<Rightarrow> Some (st2, ctx, d3)
   }"

text \<open>An operation done by the boot loader itself when it is \<open>able\<close>, and by the extension otherwise.\<close>

definition with_extension :: "'d prg_env \<Rightarrow> bool \<Rightarrow> ('d \<Rightarrow> (te_status \<times> 'a \<times> 'd) option) \<Rightarrow> 'a \<Rightarrow> prg_context \<Rightarrow> 'd \<Rightarrow> (te_status \<times> 'a \<times> prg_context \<times> 'd) option" where
  "with_extension env able operation none ctx d =
     (if able then do {
        (st, x, d1) \<leftarrow> operation d;
        Some (st, x, ctx, d1)
      } else do {
        (st0, d1) \<leftarrow> ePRG_FlashProgrammerExtensionLoad env ctx d;
        if st0 \<noteq> E_PRG_OK then Some (st0, none, ctx, d1)
        else do {
          (st, x, d2) \<leftarrow> operation d1;
          if st \<noteq> E_PRG_OK then Some (st, x, ctx, d2)
          else do {
            (st', ctx', d3) \<leftarrow> ePRG_FlashProgrammerExtensionReturn env ctx d2;
            Some (st', x, ctx', d3)
          }
        }
      })"

section \<open>The EEPROM\<close>

datatype eeprom_erase = E_ERASE_EEPROM_NONE | E_ERASE_EEPROM_PDM | E_ERASE_EEPROM_ALL

definition eeprom_able :: "prg_context \<Rightarrow> bool" where
  "eeprom_able ctx = BOOTLOADER_CAPABILITY_EEPROM_ACCESS (u32BootloaderVersion (sChipDetails ctx))"

definition ePRG_EepromErase :: "'d prg_env \<Rightarrow> eeprom_erase \<Rightarrow> progress \<Rightarrow> prg_context \<Rightarrow> 'd \<Rightarrow> (te_status \<times> prg_context \<times> 'd) option" where
  "ePRG_EepromErase env erase cb ctx d =
     (if \<not> boEEPpresent (sChipDetails ctx) then Some (E_PRG_UNSUPPORTED_CHIP, ctx, d)
      else if erase = E_ERASE_EEPROM_NONE then Some (E_PRG_BAD_PARAMETER, ctx, d)
      else do {
        (st, _, ctx', d1) \<leftarrow> with_extension env (eeprom_able ctx)
           (\<lambda>d. if \<not> progressed cb ''Erasing EEPROM'' 0 0 then Some (E_PRG_ABORTED, (), d)
                else do {
                  (st, d1) \<leftarrow> eBL_EEPROMErase (pe_port env) (if erase = E_ERASE_EEPROM_ALL then 1 else 0) d;
                  Some (st, (), d1)
                }) () ctx d;
        Some (if st \<noteq> E_PRG_OK then st else if \<not> progressed cb ''Erasing EEPROM'' 1 1 then E_PRG_ABORTED else E_PRG_OK, ctx', d1)
      })"

definition ePRG_EepromDump :: "'d prg_env \<Rightarrow> bool \<Rightarrow> (nat \<Rightarrow> bool) \<Rightarrow> progress \<Rightarrow> prg_context \<Rightarrow> 'd \<Rightarrow> (te_status \<times> u8 list \<times> prg_context \<times> 'd) option" where
  "ePRG_EepromDump env opens write_ok cb ctx d =
     (let amount = unat (u32EepromSize (sChipDetails ctx)) in
      if \<not> boEEPpresent (sChipDetails ctx) then Some (E_PRG_UNSUPPORTED_CHIP, [], ctx, d)
      else if \<not> opens then Some (E_PRG_FAILED_TO_OPEN_FILE, [], ctx, d)
      else with_extension env (eeprom_able ctx)
        (\<lambda>d. do {
           (st, file, d1) \<leftarrow> for_chunks 64 (dump_step (eBL_EEPROMRead (pe_port env)) (pe_junk env) 64 write_ok cb ''Dumping EEPROM'' amount)
               amount (unat (u32EepromOffset ctx)) ([], d);
           Some (if st \<noteq> E_PRG_OK then st
                 else if \<not> progressed cb ''Dumping EEPROM'' amount amount then E_PRG_ABORTED else E_PRG_OK, file, d1)
         }) [] ctx d)"

text \<open>
  The file is read in blocks of 128 bytes; \<open>fails n\<close> is a failed read at that place, whose result
  -1 is stored as the length 255.
\<close>

function eeprom_load :: "'d prg_env \<Rightarrow> progress \<Rightarrow> prg_context \<Rightarrow> (nat \<Rightarrow> bool) \<Rightarrow> u8 list \<Rightarrow> nat \<Rightarrow> 'd \<Rightarrow> (te_status \<times> 'd) option" where
  "eeprom_load env cb ctx fails file n d =
     (let amount = unat (u32EepromSize (sChipDetails ctx)); bytes = take 128 (drop n file) in
      if fails n then Some (if amount < n + 255 then E_PRG_OK else E_PRG_BAD_PARAMETER, d)
      else if bytes = [] then Some (E_PRG_OK, d)
      else if amount < n + length bytes then Some (E_PRG_OK, d)
      else do {
        (st, d1) \<leftarrow> eBL_EEPROMWrite (pe_port env) (u32EepromOffset ctx + word_of_nat n) bytes d;
        if st \<noteq> E_PRG_OK then Some (st, d1)
        else if \<not> progressed cb ''Loading EEPROM'' amount n then Some (E_PRG_ABORTED, d1)
        else eeprom_load env cb ctx fails file (n + length bytes) d1
      })"
  by pat_completeness auto
termination
  by (relation "measure (\<lambda>(env, cb, ctx, fails, file, n, d). length file - n)") auto

declare eeprom_load.simps [simp del]

definition ePRG_EepromProgram :: "'d prg_env \<Rightarrow> u8 list option \<Rightarrow> (nat \<Rightarrow> bool) \<Rightarrow> progress \<Rightarrow> prg_context \<Rightarrow> 'd \<Rightarrow> (te_status \<times> prg_context \<times> 'd) option" where
  "ePRG_EepromProgram env contents fails cb ctx d =
     (let amount = u32EepromSize (sChipDetails ctx) in
      if \<not> boEEPpresent (sChipDetails ctx) then Some (E_PRG_UNSUPPORTED_CHIP, ctx, d)
      else case contents of None \<Rightarrow> Some (E_PRG_FAILED_TO_OPEN_FILE, ctx, d)
      | Some file \<Rightarrow>
          if (word_of_nat (length file) :: u32) = 0 then Some (E_PRG_INVALID_FILE, ctx, d)
          else if u32EepromOffset ctx + word_of_nat (length file) > amount then Some (E_PRG_INVALID_FILE, ctx, d)
          else do {
            (st, _, ctx', d1) \<leftarrow> with_extension env (eeprom_able ctx)
              (\<lambda>d. do {
                 (st, d1) \<leftarrow> eeprom_load env cb ctx fails file 0 d;
                 Some (if st \<noteq> E_PRG_OK then st
                       else if \<not> progressed cb ''Loading EEPROM'' (unat amount) (unat amount) then E_PRG_ABORTED else E_PRG_OK, (), d1)
               }) () ctx d;
            Some (st, ctx', d1)
          })"

section \<open>The index sector\<close>

text \<open>A word of the index sector can be written once: it is read first, and must be blank.\<close>

definition index_sector_warning :: string where
  "index_sector_warning = ''WARNING: This operation will program one-time programmable fields in the index sector of the device.'' @ [CHR 0x0A]
     @ ''The index sector contains many fields, which if set incorrectly could render the device inoperable, voiding any warranties.'' @ [CHR 0x0A]
     @ ''Please consult the user documentation for more details on the setting of these fields.'' @ [CHR 0x0A]
     @ ''Are you sure you wish to continue with this operation?''"

definition ePRG_IndexSectorWrite :: "'d prg_env \<Rightarrow> u8 \<Rightarrow> u8 \<Rightarrow> u32 list \<Rightarrow> progress \<Rightarrow> confirm \<Rightarrow> prg_context \<Rightarrow> 'd \<Rightarrow> (te_status \<times> prg_context \<times> 'd) option" where
  "ePRG_IndexSectorWrite env page w data cb confirm ctx d =
     (let c = sChipDetails ctx in
      if \<not> internal_flash_chip (u32ChipId c) then Some (E_PRG_UNSUPPORTED_CHIP, ctx, d)
      else case confirm of None \<Rightarrow> Some (E_PRG_ABORTED, ctx, d)
      | Some ask \<Rightarrow> do {
          ((st, buf), d1) \<leftarrow> eBL_MemoryRead (pe_port env) (eEndianness c) (index_sector_address page w) 16 4 (local_buffer (pe_junk env) 16) d;
          if st \<noteq> E_PRG_OK then Some (st, ctx, d1)
          else if buf \<noteq> replicate 16 0xFF then Some (E_PRG_ERROR, ctx, d1)
          else if ask index_sector_warning \<noteq> E_PRG_OK then Some (E_PRG_ABORTED, ctx, d1)
          else if \<not> progressed cb ''Programming Index Sector'' 0 0 then Some (E_PRG_ABORTED, ctx, d1)
          else do {
            (st', _, ctx', d2) \<leftarrow> with_extension env (BOOTLOADER_CAPABILITY_INDEX_SECTOR (u32BootloaderVersion c))
              (\<lambda>d. do {
                 (st, d1) \<leftarrow> eBL_IndexSectorWrite (pe_port env) (eEndianness c) page w data d;
                 Some (st, (), d1)
               }) () ctx d1;
            Some (st', ctx', d2)
          }
        })"

definition ePRG_MACAddressSet :: "'d prg_env \<Rightarrow> u8 list \<Rightarrow> progress \<Rightarrow> confirm \<Rightarrow> prg_context \<Rightarrow> 'd \<Rightarrow> (te_status \<times> prg_context \<times> 'd) option" where
  "ePRG_MACAddressSet env mac cb confirm ctx d =
     (if internal_flash_chip (u32ChipId (sChipDetails ctx)) then
        ePRG_IndexSectorWrite env 5 7 [unle32 (rev (take 4 mac)), unle32 (rev (take 4 (drop 4 mac))), 0xFFFFFFFF, 0xFFFFFFFF] cb confirm ctx d
      else Some (E_PRG_OK, ctx\<lparr>sChipDetails := (sChipDetails ctx)\<lparr>au8MacAddress := take 8 mac\<rparr>\<rparr>, d))"

definition read_one_time :: "'d prg_env \<Rightarrow> u8 \<Rightarrow> u8 \<Rightarrow> u8 list \<Rightarrow> prg_context \<Rightarrow> 'd \<Rightarrow> ((te_status \<times> u8 list) \<times> 'd) option" where
  "read_one_time env page w buf ctx d = do {
     ((st, buf'), d1) \<leftarrow> eBL_MemoryRead (pe_port env) (eEndianness (sChipDetails ctx)) (index_sector_address page w) 16 4 buf d;
     Some ((if st \<noteq> E_PRG_OK then E_PRG_ERROR else E_PRG_OK, buf'), d1)
   }"

definition ePRG_AesKeyGet :: "'d prg_env \<Rightarrow> u8 list \<Rightarrow> prg_context \<Rightarrow> 'd \<Rightarrow> ((te_status \<times> u8 list) \<times> 'd) option" where
  "ePRG_AesKeyGet env key ctx d =
     (if internal_flash_chip (u32ChipId (sChipDetails ctx)) then read_one_time env 5 12 key ctx d
      else Some ((E_PRG_UNSUPPORTED_CHIP, key), d))"

definition ePRG_AesKeySet :: "'d prg_env \<Rightarrow> u32 list \<Rightarrow> progress \<Rightarrow> confirm \<Rightarrow> prg_context \<Rightarrow> 'd \<Rightarrow> (te_status \<times> prg_context \<times> 'd) option" where
  "ePRG_AesKeySet env key cb confirm ctx d =
     (if internal_flash_chip (u32ChipId (sChipDetails ctx)) then ePRG_IndexSectorWrite env 5 12 key cb confirm ctx d
      else Some (E_PRG_UNSUPPORTED_CHIP, ctx, d))"

definition ePRG_UserDataGet :: "'d prg_env \<Rightarrow> u32 \<Rightarrow> u8 list \<Rightarrow> prg_context \<Rightarrow> 'd \<Rightarrow> ((te_status \<times> u8 list) \<times> 'd) option" where
  "ePRG_UserDataGet env index data ctx d =
     (if \<not> internal_flash_chip (u32ChipId (sChipDetails ctx)) then Some ((E_PRG_UNSUPPORTED_CHIP, data), d)
      else if index = 0 then read_one_time env 5 4 data ctx d
      else if index = 1 then read_one_time env 5 5 data ctx d
      else if index = 2 then read_one_time env 5 6 data ctx d
      else Some ((E_PRG_BAD_PARAMETER, data), d))"

definition ePRG_UserDataSet :: "'d prg_env \<Rightarrow> u32 \<Rightarrow> u32 list \<Rightarrow> progress \<Rightarrow> confirm \<Rightarrow> prg_context \<Rightarrow> 'd \<Rightarrow> (te_status \<times> prg_context \<times> 'd) option" where
  "ePRG_UserDataSet env index data cb confirm ctx d =
     (if \<not> internal_flash_chip (u32ChipId (sChipDetails ctx)) then Some (E_PRG_UNSUPPORTED_CHIP, ctx, d)
      else if index = 0 then ePRG_IndexSectorWrite env 5 4 data cb confirm ctx d
      else if index = 1 then ePRG_IndexSectorWrite env 5 5 data cb confirm ctx d
      else if index = 2 then ePRG_IndexSectorWrite env 5 6 data cb confirm ctx d
      else Some (E_PRG_ERROR, ctx, d))"

text \<open>The settings of the device: a setting clears bits of a word that is blank before.\<close>

definition JN5168_VBO :: "u32 \<Rightarrow> u32" where
  "JN5168_VBO a = push_bit 1 (a XOR 6) OR NOT (push_bit 1 7)"

definition vbo_mask :: "brownout_voltage \<Rightarrow> u32" where
  "vbo_mask v = (case v of E_DC_VBO_DEFAULT \<Rightarrow> 0xFFFFFFFF
     | E_DC_VBO_195 \<Rightarrow> JN5168_VBO 0 | E_DC_VBO_200 \<Rightarrow> JN5168_VBO 1 | E_DC_VBO_210 \<Rightarrow> JN5168_VBO 2 | E_DC_VBO_220 \<Rightarrow> JN5168_VBO 3
     | E_DC_VBO_230 \<Rightarrow> JN5168_VBO 4 | E_DC_VBO_240 \<Rightarrow> JN5168_VBO 5 | E_DC_VBO_270 \<Rightarrow> JN5168_VBO 6 | E_DC_VBO_300 \<Rightarrow> JN5168_VBO 7)"

definition crp_mask :: "crp_level \<Rightarrow> u32" where
  "crp_mask c = (case c of E_DC_CRP_LEVEL1 \<Rightarrow> push_bit 4 1 OR NOT (push_bit 4 3)
     | E_DC_CRP_LEVEL2 \<Rightarrow> push_bit 4 2 OR NOT (push_bit 4 3) | _ \<Rightarrow> 0xFFFFFFFF)"

definition customer_word :: "device_config \<Rightarrow> u32" where
  "customer_word cfg =
     (if eJtag cfg = E_DC_JTAG_DISABLE \<or> eJtag cfg = E_DC_JTAG_DISABLE_CPU then 0xFFFFFFFE else 0xFFFFFFFF)
     AND vbo_mask (eVbo cfg) AND crp_mask (eCRP cfg)
     AND (if eExternalFlashEncrypted cfg = E_DC_EXTERNAL_FLASH_ENCRYPTED_TRUE then NOT (push_bit 6 1) else 0xFFFFFFFF)
     AND (if eExternalFlashLoad cfg = E_DC_EXTERNAL_FLASH_LOAD_DISABLE then NOT (push_bit 7 1) else 0xFFFFFFFF)"

definition write_customer_word :: "'d prg_env \<Rightarrow> device_config \<Rightarrow> progress \<Rightarrow> confirm \<Rightarrow> prg_context \<Rightarrow> 'd \<Rightarrow> (te_status \<times> prg_context \<times> 'd) option" where
  "write_customer_word env cfg cb confirm ctx d = do {
     (st, ctx1, d1) \<leftarrow> ePRG_IndexSectorWrite env 5 1 (replicate 4 (customer_word cfg)) cb confirm ctx d;
     Some (st, if st = E_PRG_OK then ctx1\<lparr>sDeviceConfig := cfg\<rparr> else ctx1, d1)
   }"

definition ePRG_DeviceConfigSet :: "'d prg_env \<Rightarrow> device_config \<Rightarrow> progress \<Rightarrow> confirm \<Rightarrow> prg_context \<Rightarrow> 'd \<Rightarrow> (te_status \<times> prg_context \<times> 'd) option" where
  "ePRG_DeviceConfigSet env cfg cb confirm ctx d =
     (if \<not> internal_flash_chip (u32ChipId (sChipDetails ctx)) then Some (E_PRG_UNSUPPORTED_CHIP, ctx, d)
      else if eJtag cfg = E_DC_JTAG_DISABLE \<or> eJtag cfg = E_DC_JTAG_DISABLE_FLASH then do {
        (st, ctx1, d1) \<leftarrow> ePRG_IndexSectorWrite env 4 0 (replicate 4 0xFFFFFFF0) cb confirm ctx d;
        if st \<noteq> E_PRG_OK then Some (st, ctx1, d1)
        else write_customer_word env cfg cb (Some (\<lambda>_. E_PRG_OK)) ctx1 d1
      } else write_customer_word env cfg cb confirm ctx d)"

end
