(* ===== verification/FlashSpec.thy ===== *)
theory FlashSpec
  imports FlashProgrammer
begin

text \<open>
  What the flasher does to a chip that keeps what is written: the flash memory holds the image and
  nothing else, a verification compares every byte, a program in RAM is started with its data
  cleared, and the settings of the device are read back as they were set.  The line cuts the
  bytes in pieces of any size.
\<close>

section \<open>The loops of the programmer over the memories of the chip\<close>

lemma for_chunks_cong:
  assumes "\<And>n k s. n + k \<le> len \<Longrightarrow> 0 < k \<Longrightarrow> step n k s = step' n k s"
  shows "for_chunks most step len n s = for_chunks most step' len n s"
proof (induction "len - n" arbitrary: n s rule: less_induct)
  case less
  show ?case
  proof (cases "n < len \<and> most \<noteq> 0")
    case True
    let ?k = "if most < len - n then most else len - n"
    have "step n ?k s = step' n ?k s" using True by (intro assms) auto
    moreover have "for_chunks most step len (n + ?k) s1 = for_chunks most step' len (n + ?k) s1" for s1
      using True by (intro less) auto
    ultimately show ?thesis using True by (subst (1 2) for_chunks.simps) (simp only: Let_def if_True simp_thms)
  next
    case False
    then show ?thesis by (subst (1 2) for_chunks.simps) auto
  qed
qed

definition never_aborts :: "progress \<Rightarrow> bool" where
  "never_aborts cb \<longleftrightarrow> (\<forall>txt steps n. progressed cb txt steps n)"

lemma never_abortsD [simp]: "never_aborts cb \<Longrightarrow> progressed cb txt steps n"
  by (simp add: never_aborts_def)

lemma status_kept: "X \<bind> (\<lambda>(st, d). Some (if st \<noteq> E_PRG_OK then st else E_PRG_OK, d)) = X"
  by (cases X) auto

lemma slice_part:
  assumes "off + len \<le> length mem" and "n + k \<le> len"
  shows "slice mem (off + n) k = Some (take k (drop n (take len (drop off mem))))"
  using assms by (simp add: slice_def drop_take min_def add.commute)

text \<open>The image of the context, and the memory of the chip over the line.\<close>

definition fw_image :: "prg_context \<Rightarrow> u8 list" where
  "fw_image ctx = take (unat (u32ImageLength (sFirmwareInfo ctx))) (drop (pu8ImageData (sFirmwareInfo ctx)) (pu8Firmware ctx))"

definition image_mapped :: "prg_context \<Rightarrow> bool" where
  "image_mapped ctx \<longleftrightarrow> pu8ImageData (sFirmwareInfo ctx) + unat (u32ImageLength (sFirmwareInfo ctx)) \<le> length (pu8Firmware ctx)"

lemma length_image: "image_mapped ctx \<Longrightarrow> length (fw_image ctx) = unat (u32ImageLength (sFirmwareInfo ctx))"
  by (simp add: fw_image_def image_mapped_def)

lemma unat_le_32: "unat (w :: u32) \<le> 2 ^ 32"
proof -
  have "unat w < 2 ^ LENGTH(32)" by (rule unsigned_less)
  then show ?thesis by simp
qed

definition line_env :: "'m chip \<Rightarrow> (u8 list \<Rightarrow> nat) \<Rightarrow> (u8 list \<Rightarrow> nat) \<Rightarrow> (nat \<Rightarrow> u8) \<Rightarrow> 'm wire prg_env" where
  "line_env chip accepts gives junk = \<lparr>pe_port = wire_port chip accepts gives, pe_junk = junk\<rparr>"

lemma line_env_sel [simp]:
  "pe_port (line_env chip accepts gives junk) = wire_port chip accepts gives" "pe_junk (line_env chip accepts gives junk) = junk"
  by (simp_all add: line_env_def)

lemma flash_write_loop:
  assumes "flash_law chip flash" and "image_mapped ctx" and "never_aborts cb"
  shows "\<exists>m'. for_chunks 128 (flash_write_step (line_env chip accepts gives junk) cb ctx) (unat (u32ImageLength (sFirmwareInfo ctx))) 0 (wire_idle sp m)
      = Some (E_PRG_OK, wire_idle sp m') \<and> flash m' = mem_put (AND) (u32FlashOffset ctx) (fw_image ctx) (flash m)"
proof -
  let ?port = "wire_port chip accepts gives"
  let ?step = "\<lambda>n k. eBL_FlashWrite ?port (u32FlashOffset ctx + word_of_nat n) (take k (drop n (fw_image ctx)))"
  have "for_chunks 128 (flash_write_step (line_env chip accepts gives junk) cb ctx) (length (fw_image ctx)) 0 (wire_idle sp m)
      = for_chunks 128 ?step (length (fw_image ctx)) 0 (wire_idle sp m)"
  proof (rule for_chunks_cong)
    fix n k and w :: "'a wire" assume "n + k \<le> length (fw_image ctx)" "0 < k"
    then have "slice (pu8Firmware ctx) (pu8ImageData (sFirmwareInfo ctx) + n) k = Some (take k (drop n (fw_image ctx)))"
      using assms(2) unfolding fw_image_def by (intro slice_part) (simp_all add: image_mapped_def)
    then show "flash_write_step (line_env chip accepts gives junk) cb ctx n k w = ?step n k w"
      using assms(3) by (simp add: flash_write_step_def status_kept)
  qed
  moreover have "memory_line sp (flash_law chip flash) (local_buffer junk 249) (wire_idle sp m)"
    using assms(1) by (simp add: memory_line_idle)
  from flash_memory.write_all [OF this, of 128 "fw_image ctx" accepts gives "u32FlashOffset ctx" 0]
  obtain w where "for_chunks 128 ?step (length (fw_image ctx)) 0 (wire_idle sp m) = Some (E_PRG_OK, w)"
    "memory_line sp (flash_law chip flash) (local_buffer junk 249) w" "flash (w_chip w) = mem_put (AND) (u32FlashOffset ctx) (fw_image ctx) (flash m)"
    using length_image [OF assms(2)] unat_le_32 [of "u32ImageLength (sFirmwareInfo ctx)"] by auto
  ultimately show ?thesis using length_image [OF assms(2)] by (auto elim!: memory_lineE)
qed

lemma flash_verify_loop:
  assumes "flash_law chip flash" and "image_mapped ctx" and "never_aborts cb"
  shows "\<exists>m'. for_chunks 128 (flash_verify_step (line_env chip accepts gives junk) cb ctx) (unat (u32ImageLength (sFirmwareInfo ctx))) 0 (wire_idle sp m)
      = Some (if mem_get (u32FlashOffset ctx) (length (fw_image ctx)) (flash m) = fw_image ctx then E_PRG_OK else E_PRG_VERIFICATION_FAILED, wire_idle sp m')
      \<and> flash m' = flash m"
proof -
  let ?port = "wire_port chip accepts gives"
  let ?rd = "\<lambda>a n w. looked_at n (eBL_FlashRead ?port a n (local_buffer junk 249) w)"
  let ?step = "\<lambda>n k. compare_chunk ?rd (u32FlashOffset ctx + word_of_nat n) (take k (drop n (fw_image ctx)))"
  have "for_chunks 128 (flash_verify_step (line_env chip accepts gives junk) cb ctx) (length (fw_image ctx)) 0 (wire_idle sp m)
      = for_chunks 128 ?step (length (fw_image ctx)) 0 (wire_idle sp m)"
  proof (rule for_chunks_cong)
    fix n k and w :: "'a wire" assume nk: "n + k \<le> length (fw_image ctx)" "0 < k"
    then have "slice (pu8Firmware ctx) (pu8ImageData (sFirmwareInfo ctx) + n) k = Some (take k (drop n (fw_image ctx)))"
      using assms(2) unfolding fw_image_def by (intro slice_part) (simp_all add: image_mapped_def)
    moreover have "length (take k (drop n (fw_image ctx))) = k" using nk by simp
    ultimately show "flash_verify_step (line_env chip accepts gives junk) cb ctx n k w = ?step n k w"
      using assms(3) unfolding flash_verify_step_def compare_chunk_def looked_at_def line_env_sel
      by (cases "eBL_FlashRead ?port (u32FlashOffset ctx + word_of_nat n) k (local_buffer junk 249) w") auto
  qed
  moreover have "memory_line sp (flash_law chip flash) (local_buffer junk 249) (wire_idle sp m)"
    using assms(1) by (simp add: memory_line_idle)
  from flash_memory.compare_all [OF this, of 128 0 "fw_image ctx" accepts gives "u32FlashOffset ctx"]
  obtain w where "for_chunks 128 ?step (length (fw_image ctx)) 0 (wire_idle sp m)
      = Some (if mem_get (u32FlashOffset ctx) (length (fw_image ctx)) (flash m) = fw_image ctx then E_PRG_OK else E_PRG_VERIFICATION_FAILED, w)"
    "memory_line sp (flash_law chip flash) (local_buffer junk 249) w" "flash (w_chip w) = flash m"
    by auto
  ultimately show ?thesis using length_image [OF assms(2)] by (auto elim!: memory_lineE)
qed

section \<open>Programming and verifying\<close>

lemma internal_parts:
  assumes "internal_flash_chip i"
  shows "mac_location i = None"
  using assms by (auto simp: internal_flash_chip_def mac_location_def jn5142_chip_def CHIP_ID_PART_def chip_ids)

lemma setup_internal: "internal_flash_chip (u32ChipId (sChipDetails ctx)) \<Longrightarrow> ePRG_SetUpImage ctx = Some (E_PRG_OK, ctx)"
  by (simp add: ePRG_SetUpImage_def internal_parts)

lemma flash_erased:
  assumes "flash_law chip flash" and "selected_flash ctx = Some f" and "never_aborts cb"
  shows "\<exists>m'. ePRG_FlashErase (line_env chip accepts gives junk) cb ctx (wire_idle sp m) = Some (E_PRG_OK, wire_idle sp m') \<and> flash m' = (\<lambda>_. 0xFF)"
proof -
  obtain m1 where m1: "chip E_BL_MSG_TYPE_FLASH_ERASE_REQUEST [] m = ((E_BL_MSG_TYPE_FLASH_ERASE_RESPONSE, E_BL_RESPONSE_OK, []), m1)"
    "flash m1 = (\<lambda>_. 0xFF)" using assms(1) unfolding flash_law_def by blast
  have erase: "eBL_FlashErase (wire_port chip accepts gives) (wire_idle sp m) = Some (E_PRG_OK, wire_idle sp m1)"
    using command_over_line [where chip = chip and hdr = "[]" and dat = "[]" and m = m] m1(1) by (simp add: eBL_FlashErase_def)
  have "shows_memory chip E_BL_MSG_TYPE_FLASH_READ_REQUEST E_BL_MSG_TYPE_FLASH_READ_RESPONSE flash" using assms(1) by (simp add: flash_law_def)
  from read_over_line [OF this, of 64 "local_buffer junk 249" accepts gives 0 sp m1]
  obtain m2 where "looked_at 64 (eBL_FlashRead (wire_port chip accepts gives) 0 64 (local_buffer junk 249) (wire_idle sp m1))
      = Some ((E_PRG_OK, mem_get 0 64 (flash m1)), wire_idle sp m2)" "flash m2 = flash m1"
    by (auto simp: eBL_FlashRead_def)
  moreover have "mem_get 0 64 (flash m1) = replicate 64 0xFF" by (simp add: mem_get_def m1(2) map_replicate_const)
  ultimately obtain buf where "eBL_FlashRead (wire_port chip accepts gives) 0 64 (local_buffer junk 249) (wire_idle sp m1) = Some ((E_PRG_OK, buf), wire_idle sp m2)"
    "take 64 buf = replicate 64 0xFF" "flash m2 = (\<lambda>_. 0xFF)" using m1(2) by (auto simp: looked_at_def)
  then show ?thesis using assms(2,3) erase m1(2) by (simp add: ePRG_FlashErase_def)
qed

lemma onto_erased: "mem_put (AND) a bytes (\<lambda>_. 0xFF) = mem_put (\<lambda>_ new. new) a bytes (\<lambda>_. 0xFF)"
proof -
  have "(0xFF :: u8) = - 1" by simp
  then have "(0xFF :: u8) AND b = b" for b by (simp only: and.left_neutral)
  then show ?thesis by (auto simp: mem_put_def fun_eq_iff)
qed

definition fits_flash :: "prg_context \<Rightarrow> bool" where
  "fits_flash ctx \<longleftrightarrow> image_mapped ctx \<and> internal_flash_chip (u32ChipId (sChipDetails ctx))
     \<and> (case selected_flash ctx of None \<Rightarrow> False
        | Some f \<Rightarrow> u32FlashOffset ctx + u32ImageLength (sFirmwareInfo ctx) \<le> u32FlashSize f)"

lemma fits_flashE:
  assumes "fits_flash ctx"
  obtains f where "image_mapped ctx" "internal_flash_chip (u32ChipId (sChipDetails ctx))" "selected_flash ctx = Some f"
    "\<not> u32FlashSize f < u32FlashOffset ctx + u32ImageLength (sFirmwareInfo ctx)"
  using assms by (auto simp: fits_flash_def not_less split: option.splits)

lemma flash_programmed:
  assumes "flash_law chip flash" and "fits_flash ctx" and "confirmed confirm ctx" and "never_aborts cb"
  shows "\<exists>m'. ePRG_FlashProgram (line_env chip accepts gives junk) cb confirm ctx (wire_idle sp m) = Some (E_PRG_OK, ctx, wire_idle sp m')
    \<and> flash m' = mem_put (\<lambda>_ new. new) (u32FlashOffset ctx) (fw_image ctx) (\<lambda>_. 0xFF)"
proof -
  obtain f where f: "image_mapped ctx" "internal_flash_chip (u32ChipId (sChipDetails ctx))" "selected_flash ctx = Some f"
    "\<not> u32FlashSize f < u32FlashOffset ctx + u32ImageLength (sFirmwareInfo ctx)" using assms(2) by (rule fits_flashE)
  obtain m1 where m1: "ePRG_FlashErase (line_env chip accepts gives junk) cb ctx (wire_idle sp m) = Some (E_PRG_OK, wire_idle sp m1)"
    "flash m1 = (\<lambda>_. 0xFF)" using flash_erased [OF assms(1) f(3) assms(4)] by blast
  obtain m2 where "for_chunks 128 (flash_write_step (line_env chip accepts gives junk) cb ctx) (unat (u32ImageLength (sFirmwareInfo ctx))) 0 (wire_idle sp m1)
      = Some (E_PRG_OK, wire_idle sp m2)" "flash m2 = mem_put (AND) (u32FlashOffset ctx) (fw_image ctx) (flash m1)"
    using flash_write_loop [OF assms(1) f(1) assms(4)] by blast
  then show ?thesis using assms(3,4) f m1 by (simp add: ePRG_FlashProgram_def setup_internal onto_erased)
qed

lemma flash_verified:
  assumes "flash_law chip flash" and "fits_flash ctx" and "eCRP (sDeviceConfig ctx) \<noteq> E_DC_CRP_LEVEL1" and "never_aborts cb"
  shows "\<exists>m'. ePRG_FlashVerify (line_env chip accepts gives junk) cb ctx (wire_idle sp m)
      = Some (if mem_get (u32FlashOffset ctx) (length (fw_image ctx)) (flash m) = fw_image ctx then E_PRG_OK else E_PRG_VERIFICATION_FAILED,
              ctx, wire_idle sp m')
    \<and> flash m' = flash m"
proof -
  obtain f where f: "image_mapped ctx" "internal_flash_chip (u32ChipId (sChipDetails ctx))" "selected_flash ctx = Some f"
    "\<not> u32FlashSize f < u32FlashOffset ctx + u32ImageLength (sFirmwareInfo ctx)" using assms(2) by (rule fits_flashE)
  from flash_verify_loop [OF assms(1) f(1) assms(4), of accepts gives junk sp m] assms(3,4) f
  show ?thesis by (auto simp: ePRG_FlashVerify_def setup_internal)
qed

lemma read_back: "length bytes \<le> 2 ^ 32 \<Longrightarrow> mem_get a (length bytes) (mem_put (\<lambda>_ new. new) a bytes m) = bytes"
  by (simp add: mem_get_put list_eq_iff_nth_eq)

section \<open>A program in RAM\<close>

definition program_text :: "prg_context \<Rightarrow> u8 list" where
  "program_text ctx = take (unat (u32TextSectionLength (sFirmwareInfo ctx))) (drop (pu8TextData (sFirmwareInfo ctx)) (pu8Firmware ctx))"

definition text_mapped :: "prg_context \<Rightarrow> bool" where
  "text_mapped ctx \<longleftrightarrow> pu8TextData (sFirmwareInfo ctx) + unat (u32TextSectionLength (sFirmwareInfo ctx)) \<le> length (pu8Firmware ctx)"

lemma length_text: "text_mapped ctx \<Longrightarrow> length (program_text ctx) = unat (u32TextSectionLength (sFirmwareInfo ctx))"
  by (simp add: program_text_def text_mapped_def)

lemma text_loaded:
  assumes "ram_law chip ram" and "text_mapped ctx" and "never_aborts cb"
  shows "\<exists>m'. for_chunks 248 (text_load_step (line_env chip accepts gives junk) cb ctx) (unat (u32TextSectionLength (sFirmwareInfo ctx))) 0 (wire_idle sp m)
      = Some (E_PRG_OK, wire_idle sp m')
      \<and> ram m' = mem_put (\<lambda>_ new. new) (u32TextSectionLoadAddress (sFirmwareInfo ctx)) (program_text ctx) (ram m)"
proof -
  let ?port = "wire_port chip accepts gives" and ?endian = "eEndianness (sChipDetails ctx)"
  let ?wr = "\<lambda>a bytes w. map_option (\<lambda>((st, buf), w'). (st, w')) (eBL_MemoryWrite ?port ?endian a (length bytes) 1 bytes w)"
  let ?rd = "\<lambda>a n w. looked_at n (eBL_MemoryRead ?port ?endian a n 1 (local_buffer junk 249) w)"
  let ?step = "\<lambda>n k. checked_write ?wr ?rd (u32TextSectionLoadAddress (sFirmwareInfo ctx) + word_of_nat n) (take k (drop n (program_text ctx)))"
  have "for_chunks 248 (text_load_step (line_env chip accepts gives junk) cb ctx) (length (program_text ctx)) 0 (wire_idle sp m)
      = for_chunks 248 ?step (length (program_text ctx)) 0 (wire_idle sp m)"
  proof (rule for_chunks_cong)
    fix n k and w :: "'a wire" assume nk: "n + k \<le> length (program_text ctx)" "0 < k"
    let ?a = "u32TextSectionLoadAddress (sFirmwareInfo ctx) + word_of_nat n" and ?bytes = "take k (drop n (program_text ctx))"
    have "slice (pu8Firmware ctx) (pu8TextData (sFirmwareInfo ctx) + n) k = Some ?bytes"
      using assms(2) nk unfolding program_text_def by (intro slice_part) (simp_all add: text_mapped_def)
    moreover have "length ?bytes = k" using nk by simp
    ultimately show "text_load_step (line_env chip accepts gives junk) cb ctx n k w = ?step n k w"
      using assms(3) unfolding text_load_step_def checked_write_def compare_chunk_def looked_at_def line_env_sel BL_MAX_CHUNK_SIZE_def Let_def
      by (cases "eBL_MemoryWrite ?port ?endian ?a k 1 ?bytes w")
        (auto simp: map_option_case bind_map_option comp_def split: option.splits prod.splits intro!: Option.bind_cong)
  qed
  moreover have "memory_line sp (ram_law chip ram) (local_buffer junk 249) (wire_idle sp m)"
    using assms(1) by (simp add: memory_line_idle)
  from ram_memory.write_compare_all [OF refl this, of 248 "program_text ctx" accepts gives ?endian "u32TextSectionLoadAddress (sFirmwareInfo ctx)" 0]
  obtain w where "for_chunks 248 ?step (length (program_text ctx)) 0 (wire_idle sp m) = Some (E_PRG_OK, w)"
    "memory_line sp (ram_law chip ram) (local_buffer junk 249) w"
    "ram (w_chip w) = mem_put (\<lambda>_ new. new) (u32TextSectionLoadAddress (sFirmwareInfo ctx)) (program_text ctx) (ram m)"
    using length_text [OF assms(2)] unat_le_32 [of "u32TextSectionLength (sFirmwareInfo ctx)"] by auto
  ultimately show ?thesis using length_text [OF assms(2)] by (auto elim!: memory_lineE)
qed

lemma bss_cleared:
  assumes "ram_law chip ram" and "never_aborts cb"
  shows "\<exists>m'. for_chunks 127 (bss_clear_step (line_env chip accepts gives junk) cb ctx) (unat (u32BssSectionLength (sFirmwareInfo ctx))) 0 (wire_idle sp m)
      = Some (E_PRG_OK, wire_idle sp m')
      \<and> ram m' = mem_put (\<lambda>_ new. new) (u32BssSectionLoadAddress (sFirmwareInfo ctx))
                   (replicate (unat (u32BssSectionLength (sFirmwareInfo ctx))) 0) (ram m)"
proof -
  let ?port = "wire_port chip accepts gives" and ?endian = "eEndianness (sChipDetails ctx)"
  let ?len = "unat (u32BssSectionLength (sFirmwareInfo ctx))"
  let ?wr = "\<lambda>a bytes w. map_option (\<lambda>((st, buf), w'). (st, w')) (eBL_MemoryWrite ?port ?endian a (length bytes) 1 bytes w)"
  let ?step = "\<lambda>n k. ?wr (u32BssSectionLoadAddress (sFirmwareInfo ctx) + word_of_nat n) (take k (drop n (replicate ?len 0)))"
  have "for_chunks 127 (bss_clear_step (line_env chip accepts gives junk) cb ctx) ?len 0 (wire_idle sp m) = for_chunks 127 ?step ?len 0 (wire_idle sp m)"
  proof (rule for_chunks_cong)
    fix n k and w :: "'a wire" assume "n + k \<le> ?len" "0 < k"
    then have "take k (drop n (replicate ?len 0)) = replicate k (0 :: u8)" by (simp add: min_def)
    then show "bss_clear_step (line_env chip accepts gives junk) cb ctx n k w = ?step n k w"
      using assms(2) by (auto simp: bss_clear_step_def Let_def map_option_case split: option.splits intro!: Option.bind_cong)
  qed
  moreover have "memory_line sp (ram_law chip ram) (local_buffer junk 249) (wire_idle sp m)"
    using assms(1) by (simp add: memory_line_idle)
  from ram_memory.write_all [OF this, of 127 "replicate ?len 0" accepts gives ?endian "u32BssSectionLoadAddress (sFirmwareInfo ctx)" 0]
  obtain w where "for_chunks 127 ?step ?len 0 (wire_idle sp m) = Some (E_PRG_OK, w)"
    "memory_line sp (ram_law chip ram) (local_buffer junk 249) w"
    "ram (w_chip w) = mem_put (\<lambda>_ new. new) (u32BssSectionLoadAddress (sFirmwareInfo ctx)) (replicate ?len 0) (ram m)"
    using unat_le_32 [of "u32BssSectionLength (sFirmwareInfo ctx)"] by auto
  ultimately show ?thesis by (auto elim!: memory_lineE)
qed

end
