(* ===== verification/FlashPromises.thy ===== *)
theory FlashPromises
  imports FlashSpec
begin

text \<open>
  The properties of the flasher: requests over a line, the buffers of replies, programming and
  verifying the flash memory, starting a program in RAM, the one-time settings of the device and
  the extension of the boot loader.  They are evaluated on a chip of
  three memories.
\<close>

section \<open>A chip of three memories\<close>

record rom =
  rom_flash :: "u32 \<Rightarrow> u8"
  rom_ram :: "u32 \<Rightarrow> u8"
  rom_eeprom :: "u32 \<Rightarrow> u8"
  rom_started :: "(u32 \<times> (u32 \<Rightarrow> u8)) option"

definition rom_chip :: "rom chip" where
  "rom_chip ty body m =
     (let a = unle32 body; bytes = drop 4 body; n = unat (bytes ! 0) in
      if ty = 0x07 then ((0x08, 0, []), m\<lparr>rom_flash := \<lambda>_. 0xFF\<rparr>)
      else if ty = 0x09 then ((0x0a, 0, []), m\<lparr>rom_flash := mem_put (AND) a bytes (rom_flash m)\<rparr>)
      else if ty = 0x0b then ((0x0c, 0, mem_get a n (rom_flash m)), m)
      else if ty = 0x1d then ((0x1e, 0, []), m\<lparr>rom_ram := mem_put (\<lambda>_ new. new) a bytes (rom_ram m)\<rparr>)
      else if ty = 0x1f then ((0x20, 0, mem_get a n (rom_ram m)), m)
      else if ty = 0x21 then ((0x22, 0, []), m\<lparr>rom_started := Some (a, rom_ram m)\<rparr>)
      else if ty = 0x38 then ((0x39, 0, []), m\<lparr>rom_ram := mem_put (AND) (index_sector_address (body ! 0) (body ! 1)) (drop 2 body) (rom_ram m)\<rparr>)
      else if ty = 0x3A then ((0x3B, 0, mem_get a n (rom_eeprom m)), m)
      else if ty = 0x3C then ((0x3D, 0, []), m\<lparr>rom_eeprom := mem_put (\<lambda>_ new. new) a bytes (rom_eeprom m)\<rparr>)
      else ((ty + 1, 0xff, []), m))"

lemmas rom_types =
  E_BL_MSG_TYPE_FLASH_ERASE_REQUEST_def E_BL_MSG_TYPE_FLASH_ERASE_RESPONSE_def
  E_BL_MSG_TYPE_FLASH_PROGRAM_REQUEST_def E_BL_MSG_TYPE_FLASH_PROGRAM_RESPONSE_def
  E_BL_MSG_TYPE_FLASH_READ_REQUEST_def E_BL_MSG_TYPE_FLASH_READ_RESPONSE_def
  E_BL_MSG_TYPE_RAM_WRITE_REQUEST_def E_BL_MSG_TYPE_RAM_WRITE_RESPONSE_def
  E_BL_MSG_TYPE_RAM_READ_REQUEST_def E_BL_MSG_TYPE_RAM_READ_RESPONSE_def
  E_BL_MSG_TYPE_RAM_RUN_REQUEST_def E_BL_MSG_TYPE_RAM_RUN_RESPONSE_def
  E_BL_MSG_TYPE_PROGRAM_INDEX_SECTOR_REQUEST_def E_BL_MSG_TYPE_PROGRAM_INDEX_SECTOR_RESPONSE_def
  E_BL_MSG_TYPE_EEPROM_READ_REQUEST_def E_BL_MSG_TYPE_EEPROM_READ_RESPONSE_def
  E_BL_MSG_TYPE_EEPROM_WRITE_REQUEST_def E_BL_MSG_TYPE_EEPROM_WRITE_RESPONSE_def E_BL_RESPONSE_OK_def

lemma drop_le32 [simp]: "drop 4 (le32 w @ xs) = xs"
  by (simp add: le32_def)

lemma read_count: "n \<le> 252 \<Longrightarrow> unat (word_of_nat n :: u8) = n"
  by (simp add: unsigned_of_nat take_bit_eq_mod)

lemma rom_flash_law: "flash_law rom_chip rom_flash"
  by (auto simp: flash_law_def stores_def shows_memory_def rom_chip_def rom_types unle32_le32 read_count Let_def)

lemma rom_ram_law: "ram_law rom_chip rom_ram"
  by (auto simp: ram_law_def stores_def shows_memory_def rom_chip_def rom_types unle32_le32 read_count Let_def)

section \<open>Requests and replies\<close>

text \<open>
  C7: A request is executed once and its reply read whole, however the line cuts the bytes: with
  up to 253 bytes of header and data, and a chip whose reply has up to 252 bytes of data, the
  request returns the response, type and data of the reply, the chip has executed the request
  once, and nothing is left on the line; only a request for another speed that is accepted
  changes the divisor of the chip, after its reply.
\<close>

theorem boot_request_answered:
  assumes "length hdr + length dat < 254" and "chip ty (hdr @ dat) m = ((rx, resp, data), m')" and "length data \<le> 252"
  shows "eBL_Request (wire_port chip accepts gives) tmo ty hdr dat (wire_idle sp m)
    = Some ((resp, rx, data), (wire_idle sp m')\<lparr>w_divisor :=
        (if ty = E_BL_MSG_TYPE_SET_BAUD_REQUEST \<and> resp = E_BL_RESPONSE_OK \<and> hdr @ dat \<noteq> [] then unat (hd (hdr @ dat)) else divisor_of sp)\<rparr>)"
  using request_answered [where chip = chip and hdr = hdr and dat = dat and m = m, OF assms] by (simp only: retuned_def)

theorem boot_request_answered_witness:
  "eBL_Request (wire_port (\<lambda>ty body m. ((ty + 1, 0, rev body), body @ m)) (\<lambda>_. 0) (\<lambda>_. 1)) 7 0x1f [1, 2] [3] (wire_idle AT_1000000 [])
     = Some ((0, 0x20, [3, 2, 1]), wire_idle AT_1000000 [1, 2, 3])"
  using boot_request_answered [where hdr = "[1, 2]" and dat = "[3]" and chip = "\<lambda>ty body m. ((ty + 1, 0, rev body), body @ m)"
      and ty = "0x1f" and m = "[]" and rx = "0x20" and resp = 0 and data = "[3, 2, 1]" and m' = "[1, 2, 3]"
      and accepts = "\<lambda>_. 0" and gives = "\<lambda>_. 1" and tmo = 7 and sp = AT_1000000]
  by (simp add: E_BL_MSG_TYPE_SET_BAUD_REQUEST_def)

lemma read_reply_over_line:
  assumes "chip ty (le32 a @ [word_of_nat n, 0]) m = ((rx, resp, data), m')" and "n \<le> 252" and "length data \<le> 252" and "ty \<noteq> E_BL_MSG_TYPE_SET_BAUD_REQUEST"
  shows "bl_read (wire_port chip accepts gives) ty expected a n buf (wire_idle sp m)
      = (if length buf < length data then None
         else Some ((if length data \<noteq> n then E_PRG_ERROR_READING else eBL_CheckResponse resp rx expected, overwrite 0 data buf), wire_idle sp m'))"
proof -
  have "eBL_Request (wire_port chip accepts gives) BL_TIMEOUT_1S ty (le32 a @ [word_of_nat n, 0]) [] (wire_idle sp m) = Some ((resp, rx, data), wire_idle sp m')"
    by (rule request_over_line) (use assms in simp_all)
  then show ?thesis using assms(2) by (simp add: bl_read_def copy_reply_def)
qed

text \<open>
  C22: The data of a reply are copied before their number is looked at: when a read of flash
  memory is answered with up to 252 bytes, the buffer of the caller is overrun exactly when they
  are more than it holds, whatever number was asked for; with as many bytes as were asked for and
  room for them, they are at the start of the buffer.
\<close>

theorem reply_overrun:
  assumes "chip E_BL_MSG_TYPE_FLASH_READ_REQUEST (le32 a @ [word_of_nat n, 0]) m = ((rx, resp, data), m')"
    and "n \<le> 252" and "length data \<le> 252"
  shows "eBL_FlashRead (wire_port chip accepts gives) a n buf (wire_idle sp m)
      = (if length buf < length data then None
         else Some ((if length data \<noteq> n then E_PRG_ERROR_READING else eBL_CheckResponse resp rx E_BL_MSG_TYPE_FLASH_READ_RESPONSE,
                     overwrite 0 data buf), wire_idle sp m'))"
  using read_reply_over_line [where chip = chip and m = m and m' = m' and rx = rx and resp = resp and data = data, OF assms not_speed_requests(3)]
  by (simp add: eBL_FlashRead_def)

theorem reply_overrun_witness:
  "eBL_FlashRead (wire_port (\<lambda>ty body m. ((0x0c, 0, replicate 250 7), m)) (\<lambda>_. 0) (\<lambda>_. 1)) 0 128 (replicate 249 0) (wire_idle AT_38400 ()) = None"
  using reply_overrun [where chip = "\<lambda>ty body m. ((0x0c, 0, replicate 250 7), m)" and a = 0 and n = 128 and m = "()" and m' = "()"
      and rx = "0x0c" and resp = 0 and data = "replicate 250 7" and accepts = "\<lambda>_. 0" and gives = "\<lambda>_. 1" and buf = "replicate 249 0" and sp = AT_38400]
  by simp

section \<open>The flash memory\<close>

text \<open>
  What is programmed is in the flash memory, and the verification says so: on a chip with an
  internal flash memory that keeps what is written, an image that fits, and is for the version of
  the chip or confirmed, is programmed and then found right, whatever the memory held before and
  however the line cuts the bytes; the memory then holds the image at the offset and erased bytes
  everywhere else.
\<close>

lemma image_programmed:
  assumes "flash_law chip flash" and "fits_flash ctx" and "confirmed confirm ctx" and "never_aborts cb"
    and "eCRP (sDeviceConfig ctx) \<noteq> E_DC_CRP_LEVEL1"
  shows "\<exists>m1 m2. ePRG_FlashProgram (line_env chip accepts gives junk) cb confirm ctx (wire_idle sp m) = Some (E_PRG_OK, ctx, wire_idle sp m1)
    \<and> ePRG_FlashVerify (line_env chip accepts gives junk) cb ctx (wire_idle sp m1) = Some (E_PRG_OK, ctx, wire_idle sp m2)
    \<and> flash m2 = mem_put (\<lambda>_ new. new) (u32FlashOffset ctx) (fw_image ctx) (\<lambda>_. 0xFF)"
proof -
  obtain m1 where m1: "ePRG_FlashProgram (line_env chip accepts gives junk) cb confirm ctx (wire_idle sp m) = Some (E_PRG_OK, ctx, wire_idle sp m1)"
    "flash m1 = mem_put (\<lambda>_ new. new) (u32FlashOffset ctx) (fw_image ctx) (\<lambda>_. 0xFF)"
    using flash_programmed [OF assms(1-4)] by blast
  moreover have "mem_get (u32FlashOffset ctx) (length (fw_image ctx)) (flash m1) = fw_image ctx"
    unfolding m1(2) using assms(2) unat_le_32 [of "u32ImageLength (sFirmwareInfo ctx)"]
    by (intro read_back) (auto elim!: fits_flashE simp: length_image)
  ultimately show ?thesis using flash_verified [OF assms(1,2,5,4), of accepts gives junk sp m1] by auto
qed

definition sample_context :: prg_context where
  "sample_context = zero_context\<lparr>pu8Firmware := [1, 2, 3, 4, 5], sFirmwareInfo := no_firmware\<lparr>u32ImageLength := 4, pu8ImageData := 1\<rparr>,
     sChipDetails := no_chip\<lparr>u32ChipId := CHIP_ID_JN5168, u32RamSize := 0x8000,
       asFlashes := [\<lparr>pcFlashName = ''Internal Flash'', u32FlashSize = 0x40000, u8ManufacturerID = 0xCC, u8DeviceID = 0xEE, u8ChipSelect = 0\<rparr>]\<rparr>\<rparr>"

lemma sample_fits: "fits_flash sample_context" "confirmed None sample_context" "never_aborts None" "image_mapped sample_context"
  by (simp_all add: fits_flash_def sample_context_def zero_context_def image_mapped_def internal_flash_chip_def selected_flash_def
      no_firmware_def no_chip_def confirmed_def never_aborts_def progressed_def)

lemma sample_image: "fw_image sample_context = [2, 3, 4, 5]" "eCRP (sDeviceConfig sample_context) \<noteq> E_DC_CRP_LEVEL1"
  "u32FlashOffset sample_context = 0"
  by (simp_all add: fw_image_def sample_context_def no_firmware_def zero_context_def no_config_def)

text \<open>
  C20: The verification is exact: on a chip with an internal flash memory that can be read (its
  level of protection is not 1), for an image that fits and when the progress callback does not
  abort, it succeeds when the flash memory holds the image at the offset, fails with a
  verification error as soon as one byte differs, and leaves the memory as it is.
\<close>

theorem flash_verify_exact:
  assumes "flash_law chip flash" and "fits_flash ctx" and "never_aborts cb" and "eCRP (sDeviceConfig ctx) \<noteq> E_DC_CRP_LEVEL1"
  shows "\<exists>m'. ePRG_FlashVerify (line_env chip accepts gives junk) cb ctx (wire_idle sp m)
      = Some (if (\<forall>i < length (fw_image ctx). flash m (u32FlashOffset ctx + word_of_nat i) = fw_image ctx ! i) then E_PRG_OK
              else E_PRG_VERIFICATION_FAILED, ctx, wire_idle sp m')
    \<and> flash m' = flash m"
proof -
  have exact: "mem_get (u32FlashOffset ctx) (length (fw_image ctx)) (flash m) = fw_image ctx
      \<longleftrightarrow> (\<forall>i < length (fw_image ctx). flash m (u32FlashOffset ctx + word_of_nat i) = fw_image ctx ! i)"
    unfolding list_eq_iff_nth_eq by (auto simp: mem_get_def)
  show ?thesis using flash_verified [OF assms(1,2,4,3), of accepts gives junk sp m] unfolding exact .
qed

theorem flash_verify_exact_witness:
  "\<exists>m'. ePRG_FlashVerify (line_env rom_chip (\<lambda>_. 9) (\<lambda>_. 0) (\<lambda>_. 7)) None sample_context
        (wire_idle AT_1000000 \<lparr>rom_flash = \<lambda>a. if a = 2 then 9 else ucast (a + 2), rom_ram = \<lambda>_. 0, rom_eeprom = \<lambda>_. 0, rom_started = None\<rparr>)
      = Some (E_PRG_VERIFICATION_FAILED, sample_context, wire_idle AT_1000000 m')"
proof -
  let ?m = "\<lparr>rom_flash = \<lambda>a. if a = 2 then 9 else ucast (a + 2), rom_ram = \<lambda>_. 0, rom_eeprom = \<lambda>_. 0, rom_started = None\<rparr>"
  let ?right = "\<forall>i < length (fw_image sample_context). rom_flash ?m (u32FlashOffset sample_context + word_of_nat i) = fw_image sample_context ! i"
  have "\<not> ?right"
  proof
    assume "?right"
    then have "rom_flash ?m (u32FlashOffset sample_context + word_of_nat 2) = fw_image sample_context ! 2" by (rule allE [of _ 2]) (simp add: sample_image(1))
    then show False by (simp add: sample_image)
  qed
  then have "(if ?right then E_PRG_OK else E_PRG_VERIFICATION_FAILED) = E_PRG_VERIFICATION_FAILED" by (rule if_not_P)
  moreover obtain m' where "ePRG_FlashVerify (line_env rom_chip (\<lambda>_. 9) (\<lambda>_. 0) (\<lambda>_. 7)) None sample_context (wire_idle AT_1000000 ?m)
      = Some (if ?right then E_PRG_OK else E_PRG_VERIFICATION_FAILED, sample_context, wire_idle AT_1000000 m')"
    using flash_verify_exact [OF rom_flash_law sample_fits(1,3) sample_image(2), of "\<lambda>_. 9" "\<lambda>_. 0" "\<lambda>_. 7" AT_1000000 ?m] by (elim exE conjE)
  ultimately show ?thesis by (intro exI [of _ m']) (simp only:)
qed

section \<open>A program in RAM\<close>

text \<open>Starting a program: the chip answers, and goes on at the address with the RAM as it is.\<close>

definition run_law :: "'m chip \<Rightarrow> ('m \<Rightarrow> u32 \<Rightarrow> u8) \<Rightarrow> ('m \<Rightarrow> (u32 \<times> (u32 \<Rightarrow> u8)) option) \<Rightarrow> bool" where
  "run_law chip ram started \<longleftrightarrow> (\<forall>a m. \<exists>m'. chip E_BL_MSG_TYPE_RAM_RUN_REQUEST (le32 a) m = ((E_BL_MSG_TYPE_RAM_RUN_RESPONSE, E_BL_RESPONSE_OK, []), m')
     \<and> started m' = Some (a, ram m))"

lemma program_run:
  assumes "run_law chip ram started"
  shows "\<exists>m'. eBL_MemoryExecute (wire_port chip accepts gives) a (wire_idle sp m) = Some (E_PRG_OK, wire_idle sp m') \<and> started m' = Some (a, ram m)"
proof -
  obtain m' where m': "chip E_BL_MSG_TYPE_RAM_RUN_REQUEST (le32 a) m = ((E_BL_MSG_TYPE_RAM_RUN_RESPONSE, E_BL_RESPONSE_OK, []), m')"
    "started m' = Some (a, ram m)" using assms unfolding run_law_def by blast
  with command_over_line [where chip = chip and hdr = "le32 a" and dat = "[]" and m = m and m' = m'] show ?thesis
    by (simp add: eBL_MemoryExecute_def)
qed

definition fits_ram :: "prg_context \<Rightarrow> bool" where
  "fits_ram ctx \<longleftrightarrow> \<not> bRawImage (sFirmwareInfo ctx) \<and> text_mapped ctx \<and> internal_flash_chip (u32ChipId (sChipDetails ctx))
     \<and> u32ImageLength (sFirmwareInfo ctx) + u32BssSectionLength (sFirmwareInfo ctx) \<le> u32RamSize (sChipDetails ctx)"

text \<open>
  C19: A program is started as its file describes it: on a chip whose RAM keeps what is written,
  the text section of a firmware that fits is loaded at its address and checked, the data section
  is cleared, and then the chip runs from the entry point with exactly that in its RAM.
\<close>

theorem program_started:
  assumes "ram_law chip ram" and "run_law chip ram started" and "fits_ram ctx" and "confirm \<noteq> None" and "confirmed confirm ctx"
    and "never_aborts cb" and "eCRP (sDeviceConfig ctx) \<noteq> E_DC_CRP_LEVEL1"
  shows "\<exists>m'. ePRG_MemoryLoadExecute (line_env chip accepts gives junk) cb confirm ctx (wire_idle sp m) = Some (E_PRG_OK, wire_idle sp m')
    \<and> started m' = Some (u32ResetEntryPoint (sFirmwareInfo ctx),
        mem_put (\<lambda>_ new. new) (u32BssSectionLoadAddress (sFirmwareInfo ctx)) (replicate (unat (u32BssSectionLength (sFirmwareInfo ctx))) 0)
          (mem_put (\<lambda>_ new. new) (u32TextSectionLoadAddress (sFirmwareInfo ctx)) (program_text ctx) (ram m)))"
proof -
  note fits = assms(3) [unfolded fits_ram_def]
  obtain m1 where m1: "for_chunks 248 (text_load_step (line_env chip accepts gives junk) cb ctx) (unat (u32TextSectionLength (sFirmwareInfo ctx))) 0 (wire_idle sp m)
      = Some (E_PRG_OK, wire_idle sp m1)"
    "ram m1 = mem_put (\<lambda>_ new. new) (u32TextSectionLoadAddress (sFirmwareInfo ctx)) (program_text ctx) (ram m)"
    using text_loaded [OF assms(1) _ assms(6)] fits by blast
  obtain m2 where m2: "for_chunks 127 (bss_clear_step (line_env chip accepts gives junk) cb ctx) (unat (u32BssSectionLength (sFirmwareInfo ctx))) 0 (wire_idle sp m1)
      = Some (E_PRG_OK, wire_idle sp m2)"
    "ram m2 = mem_put (\<lambda>_ new. new) (u32BssSectionLoadAddress (sFirmwareInfo ctx)) (replicate (unat (u32BssSectionLength (sFirmwareInfo ctx))) 0) (ram m1)"
    using bss_cleared [OF assms(1,6)] by blast
  obtain m3 where "eBL_MemoryExecute (wire_port chip accepts gives) (u32ResetEntryPoint (sFirmwareInfo ctx)) (wire_idle sp m2) = Some (E_PRG_OK, wire_idle sp m3)"
    "started m3 = Some (u32ResetEntryPoint (sFirmwareInfo ctx), ram m2)" using program_run [OF assms(2)] by blast
  then show ?thesis using assms(4-7) fits m1 m2 setup_internal [of ctx]
    by (simp add: ePRG_MemoryLoadExecute_def Let_def BL_MAX_CHUNK_SIZE_def not_less)
qed

lemma rom_run_law: "run_law rom_chip rom_ram rom_started"
  using unle32_le32 [of _ "[]"] by (auto simp: run_law_def rom_chip_def rom_types Let_def)

definition sample_program :: prg_context where
  "sample_program = sample_context\<lparr>sFirmwareInfo := no_firmware\<lparr>u32ImageLength := 5, pu8TextData := 1, u32TextSectionLength := 4,
     u32TextSectionLoadAddress := 0x04000000, u32BssSectionLength := 8, u32BssSectionLoadAddress := 0x04000100, u32ResetEntryPoint := 0x04000002\<rparr>\<rparr>"

lemma sample_program_fits: "fits_ram sample_program" "confirmed (Some (\<lambda>_. E_PRG_OK)) sample_program"
  "eCRP (sDeviceConfig sample_program) \<noteq> E_DC_CRP_LEVEL1" "program_text sample_program = [2, 3, 4, 5]"
  by (simp_all add: fits_ram_def sample_program_def sample_context_def zero_context_def text_mapped_def internal_flash_chip_def
      no_firmware_def no_chip_def no_config_def confirmed_def program_text_def)

theorem program_started_witness:
  "\<exists>m' at_start. ePRG_MemoryLoadExecute (line_env rom_chip (\<lambda>_. 0) (\<lambda>_. 2) (\<lambda>_. 7)) None (Some (\<lambda>_. E_PRG_OK)) sample_program
        (wire_idle AT_1000000 \<lparr>rom_flash = \<lambda>_. 0, rom_ram = \<lambda>_. 9, rom_eeprom = \<lambda>_. 0, rom_started = None\<rparr>) = Some (E_PRG_OK, wire_idle AT_1000000 m')
    \<and> rom_started m' = Some (0x04000002, at_start) \<and> at_start 0x04000003 = 5 \<and> at_start 0x04000104 = 0 \<and> at_start 0x04000108 = 9"
  using program_started [where chip = rom_chip and ram = rom_ram and started = rom_started and ctx = sample_program and confirm = "Some (\<lambda>_. E_PRG_OK)"
      and cb = None and accepts = "\<lambda>_. 0" and gives = "\<lambda>_. 2" and junk = "\<lambda>_. 7" and sp = AT_1000000
      and m = "\<lparr>rom_flash = \<lambda>_. 0, rom_ram = \<lambda>_. 9, rom_eeprom = \<lambda>_. 0, rom_started = None\<rparr>",
      OF rom_ram_law rom_run_law sample_program_fits(1) _ sample_program_fits(2) sample_fits(3) sample_program_fits(3)]
  by (auto simp: sample_program_fits(4)) (auto simp: sample_program_def sample_context_def no_firmware_def mem_put_def)

section \<open>The settings of the device\<close>

text \<open>
  Programming a word of the index sector clears bits of it; the index sector is read like RAM,
  each word as four 32-bit numbers in the byte order of the chip.  Until its next reset the chip
  goes on showing the sector, whatever level of protection was programmed.
\<close>

definition index_law :: "'m chip \<Rightarrow> ('m \<Rightarrow> u32 \<Rightarrow> u8) \<Rightarrow> bool" where
  "index_law chip mem \<longleftrightarrow> shows_memory chip E_BL_MSG_TYPE_RAM_READ_REQUEST E_BL_MSG_TYPE_RAM_READ_RESPONSE mem
     \<and> (\<forall>page w bytes m. length bytes = 16 \<longrightarrow>
          (\<exists>m'. chip E_BL_MSG_TYPE_PROGRAM_INDEX_SECTOR_REQUEST ([page, w] @ bytes) m
              = ((E_BL_MSG_TYPE_PROGRAM_INDEX_SECTOR_RESPONSE, E_BL_RESPONSE_OK, []), m')
            \<and> mem m' = mem_put (AND) (index_sector_address page w) bytes (mem m)))"

definition holds_words :: "chip_endian \<Rightarrow> (u32 \<Rightarrow> u8) \<Rightarrow> u8 \<Rightarrow> u8 \<Rightarrow> u32 list \<Rightarrow> bool" where
  "holds_words endian mem page w ws \<longleftrightarrow> mem_get (index_sector_address page w) 16 mem = concat (map (chip_word endian) ws)"

lemma length_chip_word [simp]: "length (chip_word endian w) = 4"
  by (simp add: chip_word_def)

lemma four_words:
  assumes "length ws = 4"
  obtains a b c d where "ws = [a, b, c, d]"
  using assms by (auto simp: numeral_eq_Suc length_Suc_conv)

lemma length_chip_words [simp]: "length ws = 4 \<Longrightarrow> length (concat (map (chip_word endian) ws)) = 16"
  by (auto elim: four_words)

lemma length_same_words [simp]: "length (concat (replicate 4 (chip_word endian w))) = 16"
  using length_chip_words [of "replicate 4 w" endian] by simp

lemma convert_chip_words:
  assumes "length ws = 4"
  shows "convert_words endian 4 16 (concat (map (chip_word endian) ws)) = Some (concat (map le32 ws))"
proof -
  obtain a b c d where "ws = [a, b, c, d]" using assms by (rule four_words)
  then show ?thesis by (cases endian) (simp_all add: convert_words_def upt_rec chip_word_def le32_def overwrite_def)
qed

lemma host_chip_words:
  assumes "length ws = 4"
  shows "host_words 4 (concat (map le32 ws)) = ws"
proof -
  obtain a b c d where ws: "ws = [a, b, c, d]" using assms by (rule four_words)
  have "[0..<4] = [0, 1, 2, 3 :: nat]" by (simp add: upt_rec)
  then have "host_words 4 buf = [unle32 buf, unle32 (drop 4 buf), unle32 (drop 8 buf), unle32 (drop 12 buf)]" for buf
    by (simp add: host_words_def)
  then show ?thesis using unle32_le32 [of d "[]"] by (simp add: ws unle32_le32)
qed

lemma index_word_read:
  assumes "index_law chip mem" and "holds_words endian (mem m) page w ws" and "length ws = 4" and "length buf = 16"
  shows "\<exists>m'. eBL_MemoryRead (wire_port chip accepts gives) endian (index_sector_address page w) 16 4 buf (wire_idle sp m)
      = Some ((E_PRG_OK, concat (map le32 ws)), wire_idle sp m') \<and> mem m' = mem m"
proof -
  have "shows_memory chip E_BL_MSG_TYPE_RAM_READ_REQUEST E_BL_MSG_TYPE_RAM_READ_RESPONSE mem" using assms(1) by (simp add: index_law_def)
  from show_over_line [OF this, of 16 accepts gives BL_TIMEOUT_1S "index_sector_address page w" sp m]
  obtain m' where "eBL_Request (wire_port chip accepts gives) BL_TIMEOUT_1S E_BL_MSG_TYPE_RAM_READ_REQUEST
        (le32 (index_sector_address page w) @ [16, 0]) [] (wire_idle sp m)
      = Some ((E_BL_RESPONSE_OK, E_BL_MSG_TYPE_RAM_READ_RESPONSE, concat (map (chip_word endian) ws)), wire_idle sp m')" "mem m' = mem m"
    using assms(2) by (auto simp: holds_words_def)
  then show ?thesis using assms(3,4) by (simp add: eBL_MemoryRead_def copy_reply_def overwrite_def convert_chip_words)
qed

text \<open>A blank word is programmed; words at other addresses stay.\<close>

lemma blank_word: "concat (map (chip_word endian) (replicate 4 0xFFFFFFFF)) = replicate 16 0xFF"
proof -
  have "le32 0xFFFFFFFF = [0xFF, 0xFF, 0xFF, 0xFF]" by (simp add: le32_def)
  then have "chip_word endian 0xFFFFFFFF = [0xFF, 0xFF, 0xFF, 0xFF]" by (simp add: chip_word_def)
  moreover have "concat (map f (replicate 4 x)) = f x @ f x @ f x @ f x" for f :: "u32 \<Rightarrow> u8 list" and x by (simp add: numeral_eq_Suc)
  moreover have "[x, x, x, x] @ [x, x, x, x] @ [x, x, x, x] @ [x, x, x, x] = replicate 16 x" for x :: u8 by (simp add: numeral_eq_Suc)
  ultimately show ?thesis by metis
qed

lemma index_word_programmed:
  assumes "index_law chip mem" and "length ws = 4"
  shows "\<exists>m'. eBL_IndexSectorWrite (wire_port chip accepts gives) endian page w ws (wire_idle sp m) = Some (E_PRG_OK, wire_idle sp m')
    \<and> mem m' = mem_put (AND) (index_sector_address page w) (concat (map (chip_word endian) ws)) (mem m)"
proof -
  obtain m' where m': "chip E_BL_MSG_TYPE_PROGRAM_INDEX_SECTOR_REQUEST ([page, w] @ concat (map (chip_word endian) ws)) m
      = ((E_BL_MSG_TYPE_PROGRAM_INDEX_SECTOR_RESPONSE, E_BL_RESPONSE_OK, []), m')"
    "mem m' = mem_put (AND) (index_sector_address page w) (concat (map (chip_word endian) ws)) (mem m)"
    using assms(1) length_chip_words [OF assms(2), of endian] unfolding index_law_def by blast
  have "bl_command (wire_port chip accepts gives) BL_TIMEOUT_1S E_BL_MSG_TYPE_PROGRAM_INDEX_SECTOR_REQUEST
      ([page, w] @ concat (map (chip_word endian) ws)) [] E_BL_MSG_TYPE_PROGRAM_INDEX_SECTOR_RESPONSE (wire_idle sp m) = Some (E_PRG_OK, wire_idle sp m')"
    by (rule command_over_line [where chip = chip and m = m and m' = m' and data = "[]"]) (use assms(2) m' in simp_all)
  then show ?thesis using assms(2) m'(2) by (simp add: eBL_IndexSectorWrite_def)
qed

text \<open>Writing behind a word that is programmed, or before it, leaves it alone.\<close>

lemma mem_get_other:
  assumes "\<And>i. i < n \<Longrightarrow> length bytes \<le> unat (b + word_of_nat i - a)"
  shows "mem_get b n (mem_put put a bytes m) = mem_get b n m"
  using assms by (auto simp: mem_get_def mem_put_def) (meson not_less)

lemma blank_programmed:
  assumes "mem_get a 16 m = replicate 16 0xFF" and "length bytes = 16"
  shows "mem_get a 16 (mem_put (AND) a bytes m) = bytes"
proof -
  have "(0xFF :: u8) = - 1" by simp
  then have "(0xFF :: u8) AND b = b" for b by (simp only: and.left_neutral)
  then have "map2 (AND) (replicate (length bytes) 0xFF) bytes = bytes" by (intro nth_equalityI) simp_all
  then show ?thesis using assms mem_get_put [of bytes a "(AND)" m] by simp
qed

definition word_blank :: "(u32 \<Rightarrow> u8) \<Rightarrow> u8 \<Rightarrow> u8 \<Rightarrow> bool" where
  "word_blank mem page w \<longleftrightarrow> mem_get (index_sector_address page w) 16 mem = replicate 16 0xFF"

lemma index_sector_written:
  assumes "index_law chip mem" and "internal_flash_chip (u32ChipId (sChipDetails ctx))"
    and "BOOTLOADER_CAPABILITY_INDEX_SECTOR (u32BootloaderVersion (sChipDetails ctx))"
    and "word_blank (mem m) page w" and "ask index_sector_warning = E_PRG_OK" and "never_aborts cb" and "length ws = 4"
  shows "\<exists>m'. ePRG_IndexSectorWrite (line_env chip accepts gives junk) page w ws cb (Some ask) ctx (wire_idle sp m) = Some (E_PRG_OK, ctx, wire_idle sp m')
    \<and> mem m' = mem_put (AND) (index_sector_address page w) (concat (map (chip_word (eEndianness (sChipDetails ctx))) ws)) (mem m)"
proof -
  let ?endian = "eEndianness (sChipDetails ctx)"
  have "holds_words ?endian (mem m) page w (replicate 4 0xFFFFFFFF)" using assms(4) unfolding holds_words_def word_blank_def blank_word .
  from index_word_read [OF assms(1) this, of "local_buffer junk 16" accepts gives] obtain m1 where m1:
    "eBL_MemoryRead (wire_port chip accepts gives) ?endian (index_sector_address page w) 16 4 (local_buffer junk 16) (wire_idle sp m)
      = Some ((E_PRG_OK, concat (map le32 (replicate 4 0xFFFFFFFF))), wire_idle sp m1)" "mem m1 = mem m" by auto
  have "concat (map le32 (replicate 4 0xFFFFFFFF)) = replicate 16 0xFF" using blank_word [of E_CHIP_LITTLE_ENDIAN] unfolding chip_word_def by simp
  with m1(1) have blank: "eBL_MemoryRead (wire_port chip accepts gives) ?endian (index_sector_address page w) 16 4 (local_buffer junk 16) (wire_idle sp m)
      = Some ((E_PRG_OK, replicate 16 0xFF), wire_idle sp m1)" by (simp only:)
  obtain m2 where "eBL_IndexSectorWrite (wire_port chip accepts gives) ?endian page w ws (wire_idle sp m1) = Some (E_PRG_OK, wire_idle sp m2)"
    "mem m2 = mem_put (AND) (index_sector_address page w) (concat (map (chip_word ?endian) ws)) (mem m1)"
    using index_word_programmed [OF assms(1,7)] by blast
  then show ?thesis using assms(2,3,5,6) m1(2) unfolding ePRG_IndexSectorWrite_def Let_def line_env_sel blank with_extension_def by simp
qed

lemma word_programmed:
  assumes "word_blank m page w" and "length ws = 4"
  shows "holds_words endian (mem_put (AND) (index_sector_address page w) (concat (map (chip_word endian) ws)) m) page w ws"
  using assms unfolding holds_words_def word_blank_def by (intro blank_programmed) simp_all

text \<open>The two words of the settings do not overlap.\<close>

lemma below_16: "i < 16 \<Longrightarrow> i \<in> {0, 1, 2, 3, 4, 5, 6, 7, 8, 9, 10, 11, 12, 13, 14, 15 :: nat}"
  by simp arith

lemma config_words_apart:
  assumes "length bytes = 16"
  shows "mem_get (index_sector_address 5 1) 16 (mem_put put (index_sector_address 4 0) bytes m) = mem_get (index_sector_address 5 1) 16 m"
    and "mem_get (index_sector_address 4 0) 16 (mem_put put (index_sector_address 5 1) bytes m) = mem_get (index_sector_address 4 0) 16 m"
  by (intro mem_get_other; insert assms; drule below_16; auto simp: index_sector_address_def)+

text \<open>What a setting means that was left at its default, and the word that says so.\<close>

definition resolved :: "device_config \<Rightarrow> device_config" where
  "resolved cfg =
     \<lparr>eJtag = (if eJtag cfg = E_DC_JTAG_DEFAULT then E_DC_JTAG_ENABLE else eJtag cfg),
      eVbo = (if eVbo cfg = E_DC_VBO_DEFAULT then E_DC_VBO_200 else eVbo cfg),
      eCRP = (if eCRP cfg = E_DC_CRP_DEFAULT then E_DC_CRP_LEVEL0 else eCRP cfg),
      eExternalFlashEncrypted = (if eExternalFlashEncrypted cfg = E_DC_EXTERNAL_FLASH_ENCRYPTED_DEFAULT then E_DC_EXTERNAL_FLASH_ENCRYPTED_FALSE
        else eExternalFlashEncrypted cfg),
      eExternalFlashLoad = (if eExternalFlashLoad cfg = E_DC_EXTERNAL_FLASH_LOAD_DEFAULT then E_DC_EXTERNAL_FLASH_LOAD_ENABLE
        else eExternalFlashLoad cfg)\<rparr>"

definition ip_word :: "device_config \<Rightarrow> u32" where
  "ip_word cfg = (if eJtag cfg = E_DC_JTAG_DISABLE \<or> eJtag cfg = E_DC_JTAG_DISABLE_FLASH then 0xFFFFFFF0 else 0xFFFFFFFF)"

lemma jtag_back: "jtag_flash (ip_word cfg) = (if eJtag cfg = E_DC_JTAG_DISABLE \<or> eJtag cfg = E_DC_JTAG_DISABLE_FLASH then E_DC_JTAG_DISABLE_FLASH else E_DC_JTAG_ENABLE)"
  by (simp add: jtag_flash_def ip_word_def upt_rec)

lemma and_part: "(a AND b) AND (m :: u32) = (a AND m) AND (b AND m)"
  by (simp add: ac_simps)

lemma customer_parts:
  "customer_word cfg AND 1 = (if eJtag cfg = E_DC_JTAG_DISABLE \<or> eJtag cfg = E_DC_JTAG_DISABLE_CPU then 0 else 1)"
  "customer_word cfg AND 14 = vbo_mask (eVbo cfg) AND 14"
  "customer_word cfg AND 48 = crp_mask (eCRP cfg) AND 48"
  "bit (customer_word cfg) 6 \<longleftrightarrow> eExternalFlashEncrypted cfg \<noteq> E_DC_EXTERNAL_FLASH_ENCRYPTED_TRUE"
  "bit (customer_word cfg) 7 \<longleftrightarrow> eExternalFlashLoad cfg \<noteq> E_DC_EXTERNAL_FLASH_LOAD_DISABLE"
proof -
  have vbo: "vbo_mask v AND 1 = 1" "vbo_mask v AND 48 = 48" "bit (vbo_mask v) 6" "bit (vbo_mask v) 7" for v
    by (cases v; simp add: vbo_mask_def JN5168_VBO_def)+
  have crp: "crp_mask c AND 1 = 1" "crp_mask c AND 14 = 14" "bit (crp_mask c) 6" "bit (crp_mask c) 7" for c
    by (cases c; simp add: crp_mask_def)+
  show "customer_word cfg AND 1 = (if eJtag cfg = E_DC_JTAG_DISABLE \<or> eJtag cfg = E_DC_JTAG_DISABLE_CPU then 0 else 1)"
    unfolding customer_word_def and_part [of _ _ 1] vbo crp by simp
  show "customer_word cfg AND 14 = vbo_mask (eVbo cfg) AND 14"
    unfolding customer_word_def and_part [of _ _ 14] crp by (cases "eVbo cfg") (simp_all add: vbo_mask_def JN5168_VBO_def)
  show "customer_word cfg AND 48 = crp_mask (eCRP cfg) AND 48"
    unfolding customer_word_def and_part [of _ _ 48] vbo by (cases "eCRP cfg") (simp_all add: crp_mask_def)
  show "bit (customer_word cfg) 6 \<longleftrightarrow> eExternalFlashEncrypted cfg \<noteq> E_DC_EXTERNAL_FLASH_ENCRYPTED_TRUE"
    using vbo crp by (simp add: customer_word_def bit_and_iff)
  show "bit (customer_word cfg) 7 \<longleftrightarrow> eExternalFlashLoad cfg \<noteq> E_DC_EXTERNAL_FLASH_LOAD_DISABLE"
    using vbo crp by (simp add: customer_word_def bit_and_iff)
qed

lemma vbo_back: "vbo_of (drop_bit (Suc 0) (vbo_mask v) AND 7 XOR 6) = (if v = E_DC_VBO_DEFAULT then E_DC_VBO_200 else v)"
  by (cases v) (simp_all add: vbo_mask_def JN5168_VBO_def vbo_of_def mask_eq_exp_minus_1)

lemma customer_back: "customer_config (jtag_flash (ip_word cfg)) (customer_word cfg) = resolved cfg"
  unfolding customer_config_def resolved_def jtag_back
  by (cases "eJtag cfg"; cases "eCRP cfg"; cases "eExternalFlashEncrypted cfg"; cases "eExternalFlashLoad cfg";
      simp add: customer_parts vbo_back crp_mask_def)

lemma majority_same [simp]: "majority (replicate 4 w) = w"
  by (simp add: majority_def numeral_eq_Suc)

lemma index_word_shown:
  assumes "index_law chip mem" and "holds_words endian (mem m) page w ws" and "length ws = 4"
  shows "\<exists>m'. read_index_word (wire_port chip accepts gives) junk endian page w (wire_idle sp m) = Some (Some ws, wire_idle sp m') \<and> mem m' = mem m"
  using index_word_read [OF assms, of "local_buffer junk 16" accepts gives sp] host_chip_words [OF assms(3)]
  by (auto simp: read_index_word_def)

lemma config_shown:
  assumes "index_law chip mem" and "internal_flash_chip (u32ChipId (sChipDetails ctx))"
    and "holds_words (eEndianness (sChipDetails ctx)) (mem m) 4 0 ip" and "length ip = 4"
    and "holds_words (eEndianness (sChipDetails ctx)) (mem m) 5 1 customer" and "length customer = 4"
  shows "\<exists>m'. ePRG_DeviceConfigGet (wire_port chip accepts gives) junk ctx (wire_idle sp m)
      = Some (E_PRG_OK, ctx\<lparr>sDeviceConfig := customer_config (jtag_flash (majority ip)) (majority customer)\<rparr>, wire_idle sp m') \<and> mem m' = mem m"
proof -
  obtain m1 where m1: "read_index_word (wire_port chip accepts gives) junk (eEndianness (sChipDetails ctx)) 4 0 (wire_idle sp m)
      = Some (Some ip, wire_idle sp m1)" "mem m1 = mem m" using index_word_shown [OF assms(1,3,4), of accepts gives junk] by auto
  have "holds_words (eEndianness (sChipDetails ctx)) (mem m1) 5 1 customer" using assms(5) m1(2) by simp
  from index_word_shown [OF assms(1) this assms(6), of accepts gives junk] obtain m2 where
    "read_index_word (wire_port chip accepts gives) junk (eEndianness (sChipDetails ctx)) 5 1 (wire_idle sp m1)
      = Some (Some customer, wire_idle sp m2)" "mem m2 = mem m1" by auto
  then show ?thesis using assms(2) m1 by (simp add: ePRG_DeviceConfigGet_def Let_def)
qed

text \<open>The settings are written in one or two words.\<close>

lemma config_written:
  assumes "index_law chip mem" and "internal_flash_chip (u32ChipId (sChipDetails ctx))"
    and "BOOTLOADER_CAPABILITY_INDEX_SECTOR (u32BootloaderVersion (sChipDetails ctx))"
    and "word_blank (mem m) 4 0" and "word_blank (mem m) 5 1" and "ask index_sector_warning = E_PRG_OK" and "never_aborts cb"
  shows "\<exists>m'. ePRG_DeviceConfigSet (line_env chip accepts gives junk) cfg cb (Some ask) ctx (wire_idle sp m)
      = Some (E_PRG_OK, ctx\<lparr>sDeviceConfig := cfg\<rparr>, wire_idle sp m')
    \<and> holds_words (eEndianness (sChipDetails ctx)) (mem m') 4 0 (replicate 4 (ip_word cfg))
    \<and> holds_words (eEndianness (sChipDetails ctx)) (mem m') 5 1 (replicate 4 (customer_word cfg))"
proof -
  let ?endian = "eEndianness (sChipDetails ctx)"
  obtain m1 ask' where m1: "ePRG_DeviceConfigSet (line_env chip accepts gives junk) cfg cb (Some ask) ctx (wire_idle sp m)
      = write_customer_word (line_env chip accepts gives junk) cfg cb (Some ask') ctx (wire_idle sp m1)"
    "ask' index_sector_warning = E_PRG_OK" "holds_words ?endian (mem m1) 4 0 (replicate 4 (ip_word cfg))" "word_blank (mem m1) 5 1"
  proof (cases "eJtag cfg = E_DC_JTAG_DISABLE \<or> eJtag cfg = E_DC_JTAG_DISABLE_FLASH")
    case True
    obtain m1 where "ePRG_IndexSectorWrite (line_env chip accepts gives junk) 4 0 (replicate 4 0xFFFFFFF0) cb (Some ask) ctx (wire_idle sp m)
        = Some (E_PRG_OK, ctx, wire_idle sp m1)"
      "mem m1 = mem_put (AND) (index_sector_address 4 0) (concat (map (chip_word ?endian) (replicate 4 0xFFFFFFF0))) (mem m)"
      using index_sector_written [where mem = mem and m = m and ask = ask, OF assms(1-4,6,7), of "replicate 4 0xFFFFFFF0" accepts gives junk] by auto
    then show ?thesis using that [of "\<lambda>_. E_PRG_OK" m1] True assms(2,4,5) word_programmed [OF assms(4), of "replicate 4 0xFFFFFFF0" ?endian]
      by (simp add: ePRG_DeviceConfigSet_def ip_word_def word_blank_def config_words_apart)
  next
    case False
    moreover have "holds_words ?endian (mem m) 4 0 (replicate 4 0xFFFFFFFF)" using assms(4) unfolding holds_words_def word_blank_def blank_word .
    ultimately show ?thesis using that [of ask m] assms(2,5,6) by (simp add: ePRG_DeviceConfigSet_def ip_word_def)
  qed
  obtain m2 where "ePRG_IndexSectorWrite (line_env chip accepts gives junk) 5 1 (replicate 4 (customer_word cfg)) cb (Some ask') ctx (wire_idle sp m1)
        = Some (E_PRG_OK, ctx, wire_idle sp m2)"
    "mem m2 = mem_put (AND) (index_sector_address 5 1) (concat (map (chip_word ?endian) (replicate 4 (customer_word cfg)))) (mem m1)"
    using index_sector_written [where mem = mem and m = m1 and ask = ask', OF assms(1-3) m1(4,2) assms(7), of "replicate 4 (customer_word cfg)" accepts gives junk] by auto
  then show ?thesis using m1(1,3) word_programmed [OF m1(4), of "replicate 4 (customer_word cfg)" ?endian]
    by (simp add: write_customer_word_def holds_words_def config_words_apart)
qed

text \<open>
  C8: The settings of a device are read back as they were set: on a chip with an internal flash
  memory whose boot loader can program the index sector, and whose two words are still blank,
  any combination of settings is written, after one confirmation, and the next look at the chip,
  before its next reset, finds exactly them, those left at their default at what the chip takes it for.
\<close>

theorem device_config_roundtrip:
  assumes "index_law chip mem" and "internal_flash_chip (u32ChipId (sChipDetails ctx))"
    and "BOOTLOADER_CAPABILITY_INDEX_SECTOR (u32BootloaderVersion (sChipDetails ctx))"
    and "word_blank (mem m) 4 0" and "word_blank (mem m) 5 1" and "ask index_sector_warning = E_PRG_OK" and "never_aborts cb"
  shows "\<exists>m1 m2. ePRG_DeviceConfigSet (line_env chip accepts gives junk) cfg cb (Some ask) ctx (wire_idle sp m)
      = Some (E_PRG_OK, ctx\<lparr>sDeviceConfig := cfg\<rparr>, wire_idle sp m1)
    \<and> ePRG_DeviceConfigGet (wire_port chip accepts gives) junk ctx (wire_idle sp m1) = Some (E_PRG_OK, ctx\<lparr>sDeviceConfig := resolved cfg\<rparr>, wire_idle sp m2)"
proof -
  obtain m1 where m1: "ePRG_DeviceConfigSet (line_env chip accepts gives junk) cfg cb (Some ask) ctx (wire_idle sp m)
      = Some (E_PRG_OK, ctx\<lparr>sDeviceConfig := cfg\<rparr>, wire_idle sp m1)"
    "holds_words (eEndianness (sChipDetails ctx)) (mem m1) 4 0 (replicate 4 (ip_word cfg))"
    "holds_words (eEndianness (sChipDetails ctx)) (mem m1) 5 1 (replicate 4 (customer_word cfg))" using config_written [where mem = mem and m = m and ask = ask, OF assms] by blast
  from config_shown [OF assms(1,2) m1(2) _ m1(3), of accepts gives junk] show ?thesis using m1(1) customer_back [of cfg] by auto
qed

lemma rom_index_law: "index_law rom_chip rom_ram"
  using rom_ram_law by (auto simp: index_law_def ram_law_def) (auto simp: rom_chip_def rom_types Let_def)

theorem device_config_roundtrip_witness:
  "\<exists>m1 m2. ePRG_DeviceConfigSet (line_env rom_chip (\<lambda>_. 0) (\<lambda>_. 1) (\<lambda>_. 7)) (no_config\<lparr>eJtag := E_DC_JTAG_DISABLE, eCRP := E_DC_CRP_LEVEL1\<rparr>) None (Some (\<lambda>_. E_PRG_OK))
        (sample_context\<lparr>sChipDetails := (sChipDetails sample_context)\<lparr>u32BootloaderVersion := 0x01000000\<rparr>\<rparr>)
        (wire_idle AT_1000000 \<lparr>rom_flash = \<lambda>_. 0, rom_ram = \<lambda>_. 0xFF, rom_eeprom = \<lambda>_. 0, rom_started = None\<rparr>)
      = Some (E_PRG_OK, sample_context\<lparr>sChipDetails := (sChipDetails sample_context)\<lparr>u32BootloaderVersion := 0x01000000\<rparr>,
          sDeviceConfig := no_config\<lparr>eJtag := E_DC_JTAG_DISABLE, eCRP := E_DC_CRP_LEVEL1\<rparr>\<rparr>, wire_idle AT_1000000 m1)
    \<and> ePRG_DeviceConfigGet (wire_port rom_chip (\<lambda>_. 0) (\<lambda>_. 1)) (\<lambda>_. 7)
        (sample_context\<lparr>sChipDetails := (sChipDetails sample_context)\<lparr>u32BootloaderVersion := 0x01000000\<rparr>\<rparr>) (wire_idle AT_1000000 m1)
      = Some (E_PRG_OK, sample_context\<lparr>sChipDetails := (sChipDetails sample_context)\<lparr>u32BootloaderVersion := 0x01000000\<rparr>,
          sDeviceConfig := \<lparr>eJtag = E_DC_JTAG_DISABLE, eVbo = E_DC_VBO_200, eCRP = E_DC_CRP_LEVEL1,
            eExternalFlashEncrypted = E_DC_EXTERNAL_FLASH_ENCRYPTED_FALSE, eExternalFlashLoad = E_DC_EXTERNAL_FLASH_LOAD_ENABLE\<rparr>\<rparr>, wire_idle AT_1000000 m2)"
proof -
  let ?ctx = "sample_context\<lparr>sChipDetails := (sChipDetails sample_context)\<lparr>u32BootloaderVersion := 0x01000000\<rparr>\<rparr>"
  let ?m = "\<lparr>rom_flash = \<lambda>_. 0, rom_ram = \<lambda>_. 0xFF, rom_eeprom = \<lambda>_. 0, rom_started = None\<rparr>"
  let ?cfg = "no_config\<lparr>eJtag := E_DC_JTAG_DISABLE, eCRP := E_DC_CRP_LEVEL1\<rparr>"
  have ok: "internal_flash_chip (u32ChipId (sChipDetails ?ctx))" "BOOTLOADER_CAPABILITY_INDEX_SECTOR (u32BootloaderVersion (sChipDetails ?ctx))"
    "word_blank (rom_ram ?m) 4 0" "word_blank (rom_ram ?m) 5 1"
    by (simp_all add: sample_context_def no_chip_def internal_flash_chip_def BOOTLOADER_CAPABILITY_INDEX_SECTOR_def word_blank_def mem_get_def
        map_replicate_const)
  have "resolved ?cfg = \<lparr>eJtag = E_DC_JTAG_DISABLE, eVbo = E_DC_VBO_200, eCRP = E_DC_CRP_LEVEL1,
      eExternalFlashEncrypted = E_DC_EXTERNAL_FLASH_ENCRYPTED_FALSE, eExternalFlashLoad = E_DC_EXTERNAL_FLASH_LOAD_ENABLE\<rparr>"
    by (simp add: resolved_def no_config_def)
  with device_config_roundtrip [where mem = rom_ram and m = ?m and ask = "\<lambda>_. E_PRG_OK" and accepts = "\<lambda>_. 0" and gives = "\<lambda>_. 1"
      and junk = "\<lambda>_. 7" and cfg = ?cfg and sp = AT_1000000, OF rom_index_law ok refl sample_fits(3)]
  show ?thesis by simp
qed

section \<open>The extension of the boot loader\<close>

lemma return_without_speed:
  assumes "u32BaudRate ctx = 0" and "CHIP_ID_PART (u32ChipId (sChipDetails ctx)) \<noteq> CHIP_ID_PART CHIP_ID_JN5172"
  shows "ePRG_FlashProgrammerExtensionReturn env ctx d \<noteq> Some (E_PRG_OK, ctx', d')"
  using assms
  by (auto simp: ePRG_FlashProgrammerExtensionReturn_def eUART_SetBaudRate_def uart_rates_def bind_eq_Some_conv split: if_splits prod.splits)

lemma never_by_extension:
  assumes "u32BaudRate ctx = 0" and "CHIP_ID_PART (u32ChipId (sChipDetails ctx)) \<noteq> CHIP_ID_PART CHIP_ID_JN5172"
  shows "with_extension env False operation none ctx d \<noteq> Some (E_PRG_OK, x, ctx', d')"
  by (auto simp: with_extension_def bind_eq_Some_conv split: if_splits prod.splits elim: return_without_speed [OF assms, THEN notE])

text \<open>
  C24: Where the boot loader cannot access the EEPROM itself no operation on it succeeds: the
  programmer never sets the speed of its context, and when the extension has done its work the
  return to the boot loader sets the port to that speed, which is none (but for the chips of the
  JN517x family, which keep their speed).
\<close>

theorem eeprom_never_by_extension:
  assumes "u32BaudRate ctx = 0" and "\<not> eeprom_able ctx" and "CHIP_ID_PART (u32ChipId (sChipDetails ctx)) \<noteq> CHIP_ID_PART CHIP_ID_JN5172"
  shows "ePRG_EepromErase env erase cb ctx d \<noteq> Some (E_PRG_OK, ctx', d')
    \<and> ePRG_EepromProgram env contents fails cb ctx d \<noteq> Some (E_PRG_OK, ctx', d')
    \<and> ePRG_EepromDump env opens write_ok cb ctx d \<noteq> Some (E_PRG_OK, file, ctx', d')"
  using assms(2)
  by (auto simp: ePRG_EepromErase_def ePRG_EepromProgram_def ePRG_EepromDump_def Let_def bind_eq_Some_conv split: if_splits prod.splits option.splits
      elim: never_by_extension [OF assms(1,3), THEN notE])

theorem eeprom_never_by_extension_witness:
  "\<forall>m ctx' d'. ePRG_EepromErase (line_env rom_chip (\<lambda>_. 0) (\<lambda>_. 0) (\<lambda>_. 0)) E_ERASE_EEPROM_PDM None
     (sample_context\<lparr>sChipDetails := (sChipDetails sample_context)\<lparr>boEEPpresent := True\<rparr>,
        pu8FlashProgrammerExtensionStart := Some (replicate 60 1), u32FlashProgrammerExtensionLength := 60\<rparr>)
     (wire_idle AT_1000000 m) \<noteq> Some (E_PRG_OK, ctx', d')" (is "\<forall>m ctx' d'. ePRG_EepromErase ?env _ _ ?ctx _ \<noteq> _")
proof -
  have "u32BaudRate ?ctx = 0" "\<not> eeprom_able ?ctx" "CHIP_ID_PART (u32ChipId (sChipDetails ?ctx)) \<noteq> CHIP_ID_PART CHIP_ID_JN5172"
    by (simp_all add: sample_context_def zero_context_def no_chip_def eeprom_able_def BOOTLOADER_CAPABILITY_EEPROM_ACCESS_def chip_ids CHIP_ID_PART_def)
  from eeprom_never_by_extension [OF this] show ?thesis by (intro allI) (rule conjunct1)
qed

end
