(* ===== verification/FlasherMain.thy ===== *)
theory FlasherMain
  imports FlashPromises
begin

text \<open>
  The three commands of the flasher: \<open>iot_jp\<close> (\<open>jnFlasher/jennicProgrammer/jp_main.c\<close>), which
  programs a firmware, \<open>iot_jd\<close> (\<open>jennicDetector/jd_main.c\<close>), which says what chip there is, and
  \<open>iot_jf\<close> (\<open>cbusFtdi/jf_main.c\<close>), which starts the boot loader of the chip or its program.

  The options of the command line are arguments, and so is what the file system holds.  Of the
  texts that are printed only the exit code is kept, and beside it the number of the problem the
  command found.
\<close>

section \<open>The extension of the boot loader\<close>

definition extension_file :: "u32 \<Rightarrow> string option" where
  "extension_file part =
     (if part = CHIP_ID_PART CHIP_ID_JN5168 then Some ''/usr/share/iot/FlashProgrammerExtension_JN5168.bin''
      else if part = CHIP_ID_PART CHIP_ID_JN5169 then Some ''/usr/share/iot/FlashProgrammerExtension_JN5169.bin''
      else if part = CHIP_ID_PART CHIP_ID_JN5179 then Some ''/usr/share/iot/FlashProgrammerExtension_JN5179.bin''
      else None)"

text \<open>
  The file is read into a buffer that is a hundred bytes longer; a file that cannot be read whole
  leaves the two variables of its kind at zero.  A pointer fits the \<open>int\<close> it is kept in.
\<close>

definition ePRG_ImportExtension :: "(nat \<Rightarrow> u8) \<Rightarrow> (string \<Rightarrow> u8 list option) \<Rightarrow> prg_context \<Rightarrow> te_status \<times> prg_context" where
  "ePRG_ImportExtension junk files ctx = (case extension_file (CHIP_ID_PART (u32ChipId (sChipDetails ctx))) of
     None \<Rightarrow> (E_PRG_ERROR, ctx)
   | Some name \<Rightarrow> (case files name of
       None \<Rightarrow> (E_PRG_ERROR, ctx\<lparr>pu8FlashProgrammerExtensionStart := None, u32FlashProgrammerExtensionLength := 0\<rparr>)
     | Some bytes \<Rightarrow> (E_PRG_OK, ctx\<lparr>pu8FlashProgrammerExtensionStart := Some (bytes @ local_buffer junk 100),
         u32FlashProgrammerExtensionLength := word_of_nat (length bytes)\<rparr>)))"

section \<open>The programmer\<close>

text \<open>Up to three requests for the speed: the count that is left tells whether one was answered.\<close>

fun speed_loop :: "'d port \<Rightarrow> u32 \<Rightarrow> nat \<Rightarrow> 'd \<Rightarrow> (c_int \<times> 'd) option" where
  "speed_loop port rate 0 d = Some (-1, d)"
| "speed_loop port rate (Suc retry) d = do {
     (st, d1) \<leftarrow> eBL_SetBaudrate port rate d;
     if st \<noteq> E_PRG_OK then speed_loop port rate retry d1 else Some (int retry, d1)
   }"

definition set_speeds :: "'d port \<Rightarrow> u32 \<Rightarrow> 'd \<Rightarrow> (nat \<times> 'd) option" where
  "set_speeds port rate d = do {
     (retry, d1) \<leftarrow> speed_loop port rate 3 d;
     case eUART_SetBaudRate port (unat rate) d1 of (st, d2) \<Rightarrow>
       Some (if st \<noteq> E_PRG_OK then 3 else if retry \<le> 0 then 2 else 0, d2)
   }"

definition cbProgress :: progress where
  "cbProgress = Some (\<lambda>txt steps n. E_PRG_OK)"

text \<open>With a firmware file: programming it, verifying it, and erasing the stored data of the old program.\<close>

definition flash_firmware :: "'d prg_env \<Rightarrow> nat \<Rightarrow> (string \<Rightarrow> u8 list option) \<Rightarrow> u8 list option \<Rightarrow> prg_context \<Rightarrow> 'd \<Rightarrow> (nat \<times> prg_context \<times> 'd) option" where
  "flash_firmware env page files firmware ctx d = do {
     (st1, ctx1) \<leftarrow> ePRG_FwOpen page firmware ctx;
     if st1 \<noteq> E_PRG_OK then Some (5, ctx1, d) else do {
     (st2, ctx2, d2) \<leftarrow> ePRG_FlashProgram env cbProgress None ctx1 d;
     if st2 \<noteq> E_PRG_OK then Some (6, ctx2, d2) else do {
     (st3, ctx3, d3) \<leftarrow> ePRG_FlashVerify env cbProgress ctx2 d2;
     if st3 \<noteq> E_PRG_OK then Some (7, ctx3, d3)
     else case ePRG_ImportExtension (pe_junk env) files ctx3 of (st4, ctx4) \<Rightarrow>
       if st4 \<noteq> E_PRG_OK then Some (8, ctx4, d3) else do {
       (st5, ctx5, d5) \<leftarrow> ePRG_EepromErase env E_ERASE_EEPROM_PDM cbProgress ctx4 d3;
       Some (if st5 \<noteq> E_PRG_OK then 9 else 0, ctx5, d5)
       }
     }}
   }"

text \<open>\<open>jp_opens\<close>: the serial device can be opened and asked for its settings; \<open>jp_firmware\<close>: the file of the option -f, and what it holds.\<close>

record jp_args =
  jp_opens :: bool
  jp_initial :: u32
  jp_program :: u32
  jp_firmware :: "u8 list option option"

definition eUART_Initialise :: "'d port \<Rightarrow> bool \<Rightarrow> u32 \<Rightarrow> 'd \<Rightarrow> te_status \<times> 'd" where
  "eUART_Initialise port opens rate d = (if \<not> opens then (E_PRG_FAILED_TO_OPEN_FILE, d) else eUART_SetBaudRate port (unat rate) d)"

definition jp_main :: "'d prg_env \<Rightarrow> (u32 \<Rightarrow> u8 list \<times> u32) \<Rightarrow> nat \<Rightarrow> (string \<Rightarrow> u8 list option) \<Rightarrow> jp_args \<Rightarrow> 'd \<Rightarrow> ((nat \<times> nat) \<times> 'd) option" where
  "jp_main env linked page files args d =
     (let port = pe_port env in case eUART_Initialise port (jp_opens args) (jp_initial args) d of (st0, d0) \<Rightarrow>
      if st0 \<noteq> E_PRG_OK then Some ((1, 1), d0)
      else do {
        (ret1, d1) \<leftarrow> (if jp_initial args \<noteq> jp_program args then set_speeds port (jp_program args) d0 else Some (0, d0));
        if ret1 \<noteq> 0 then Some ((ret1, ret1), d1) else do {
        (st2, ctx2, d2) \<leftarrow> ePRG_ChipGetDetails port (pe_junk env) linked zero_context d1;
        (ret3, _, d3) \<leftarrow> (if st2 \<noteq> E_PRG_OK then Some (4, ctx2, d2)
          else case jp_firmware args of None \<Rightarrow> Some (0, ctx2, d2) | Some firmware \<Rightarrow> flash_firmware env page files firmware ctx2 d2);
        (_, d4) \<leftarrow> eBL_SetBaudrate port (jp_initial args) d3;
        case eUART_SetBaudRate port (unat (jp_initial args)) d4 of (_, d5) \<Rightarrow> Some ((0, ret3), d5)
        }
      })"

section \<open>The detector\<close>

definition CHIP_ID_JN5168_COG07A :: u32 where "CHIP_ID_JN5168_COG07A = 0x10008686"
definition CHIP_ID_JN5168_COG07B :: u32 where "CHIP_ID_JN5168_COG07B = 0x10408686"
definition CHIP_ID_JN5169_DONGLE :: u32 where "CHIP_ID_JN5169_DONGLE = 0x6000b686"

definition detected :: "u32 \<Rightarrow> nat" where
  "detected i =
     (if i \<in> {CHIP_ID_JN5148_REV2A, CHIP_ID_JN5148_REV2B, CHIP_ID_JN5148_REV2C, CHIP_ID_JN5148_REV2D, CHIP_ID_JN5148_REV2E} then 48
      else if i \<in> {CHIP_ID_JN5142_REV1A, CHIP_ID_JN5142_REV1B, CHIP_ID_JN5142_REV1C} then 42
      else if i \<in> {CHIP_ID_JN5168, CHIP_ID_JN5168_COG07A, CHIP_ID_JN5168_COG07B} then 68
      else if i \<in> {CHIP_ID_JN5169, CHIP_ID_JN5169_DONGLE} then 69
      else if i = CHIP_ID_JN5172 then 72
      else if i = CHIP_ID_JN5179 then 79
      else 5)"

definition jd_main :: "'d prg_env \<Rightarrow> bool \<Rightarrow> (u32 \<Rightarrow> u8 list \<times> u32) \<Rightarrow> 'd \<Rightarrow> (nat \<times> 'd) option" where
  "jd_main env opens linked d =
     (let port = pe_port env in case eUART_Initialise port opens 38400 d of (st0, d0) \<Rightarrow>
      if st0 \<noteq> E_PRG_OK then Some (1, d0)
      else do {
        (st1, d1) \<leftarrow> eBL_SetBaudrate port 1000000 d0;
        case eUART_SetBaudRate port 1000000 d1 of (st2, d2) \<Rightarrow>
          if st2 \<noteq> E_PRG_OK then Some (3, d2) else if st1 \<noteq> E_PRG_OK then Some (2, d2) else do {
          (st3, ctx, d3) \<leftarrow> ePRG_ChipGetDetails port (pe_junk env) linked zero_context d2;
          (_, d4) \<leftarrow> eBL_SetBaudrate port 38400 d3;
          case eUART_SetBaudRate port 38400 d4 of (_, d5) \<Rightarrow>
            Some (if st3 \<noteq> E_PRG_OK then 4 else detected (u32ChipId (sChipDetails ctx)), d5)
          }
      })"

section \<open>The control of the pins\<close>

text \<open>
  \<open>pins\<close> sets the pins of the adapter to a mask and reads them back (both may fail); a failure
  ends the program with -1, the masks that were set are kept.
\<close>

definition pin_masks :: "bool \<Rightarrow> u8 list" where
  "pin_masks prog =
     (let first = (if prog then 0xCC AND NOT 0x08 else 0xCC OR 0x08) in [first, first AND NOT 0x04, first AND NOT 0x04 OR 0x04])"

fun ftdiCbus_all :: "(u8 \<Rightarrow> 'd \<Rightarrow> bool \<times> 'd) \<Rightarrow> u8 list \<Rightarrow> 'd \<Rightarrow> bool \<times> 'd" where
  "ftdiCbus_all pins [] d = (True, d)"
| "ftdiCbus_all pins (b # bs) d = (case pins b d of (ok, d1) \<Rightarrow> if ok then ftdiCbus_all pins bs d1 else (False, d1))"

definition jf_main :: "bool \<Rightarrow> (u8 \<Rightarrow> 'd \<Rightarrow> bool \<times> 'd) \<Rightarrow> ('d \<Rightarrow> bool \<times> 'd) \<Rightarrow> string option \<Rightarrow> 'd \<Rightarrow> c_int \<times> 'd" where
  "jf_main opens pins closes argument d =
     (if \<not> opens then (1, d)
      else case (case argument of None \<Rightarrow> (True, d) | Some a \<Rightarrow> ftdiCbus_all pins (pin_masks (a = ''prog'')) d) of (ok, d1) \<Rightarrow>
        if \<not> ok then (-1, d1)
        else case closes d1 of (closed, d2) \<Rightarrow> (if closed then 0 else 1, d2))"

section \<open>A module on the line\<close>

text \<open>
  What the programmer finds at the end of the line: a module that reports its chip and its version
  and takes a speed, knows of no flash memory but its own, and clears its stored data on request;
  none of this touches the flash memory or the index sector.
\<close>

definition be32 :: "u32 \<Rightarrow> u8 list" where
  "be32 w = rev (le32 w)"

definition module_law :: "'m chip \<Rightarrow> u32 \<Rightarrow> u32 \<Rightarrow> ('m \<Rightarrow> u32 \<Rightarrow> u8) \<Rightarrow> ('m \<Rightarrow> u32 \<Rightarrow> u8) \<Rightarrow> bool" where
  "module_law chip i v flash mem \<longleftrightarrow>
     (\<forall>m. \<exists>m'. chip E_BL_MSG_TYPE_GET_CHIPID_REQUEST [] m = ((E_BL_MSG_TYPE_GET_CHIPID_RESPONSE, E_BL_RESPONSE_OK, be32 i @ be32 v), m')
        \<and> flash m' = flash m \<and> mem m' = mem m)
     \<and> (\<forall>ty m. \<exists>m'. chip E_BL_MSG_TYPE_FLASH_SELECT_TYPE_REQUEST [ty, 0, 0, 0, 0] m
          = ((E_BL_MSG_TYPE_FLASH_SELECT_TYPE_RESPONSE, if ty = 8 then E_BL_RESPONSE_OK else E_BL_RESPONSE_NOT_SUPPORTED, []), m')
        \<and> flash m' = flash m \<and> mem m' = mem m)
     \<and> (\<forall>divisor m. \<exists>m'. chip E_BL_MSG_TYPE_SET_BAUD_REQUEST [divisor] m = ((E_BL_MSG_TYPE_SET_BAUD_RESPONSE, E_BL_RESPONSE_OK, []), m')
        \<and> flash m' = flash m \<and> mem m' = mem m)
     \<and> (\<forall>what m. \<exists>m'. chip E_BL_MSG_TYPE_PDM_ERASE_REQUEST [what] m = ((E_BL_MSG_TYPE_PDM_ERASE_RESPONSE, E_BL_RESPONSE_OK, []), m')
        \<and> flash m' = flash m \<and> mem m' = mem m)"

lemma module_lawD:
  assumes "module_law chip i v flash mem"
  shows "\<exists>m'. chip E_BL_MSG_TYPE_GET_CHIPID_REQUEST [] m = ((E_BL_MSG_TYPE_GET_CHIPID_RESPONSE, E_BL_RESPONSE_OK, be32 i @ be32 v), m')
      \<and> flash m' = flash m \<and> mem m' = mem m"
    and "\<exists>m'. chip E_BL_MSG_TYPE_FLASH_SELECT_TYPE_REQUEST [ty, 0, 0, 0, 0] m
          = ((E_BL_MSG_TYPE_FLASH_SELECT_TYPE_RESPONSE, if ty = 8 then E_BL_RESPONSE_OK else E_BL_RESPONSE_NOT_SUPPORTED, []), m')
      \<and> flash m' = flash m \<and> mem m' = mem m"
    and "\<exists>m'. chip E_BL_MSG_TYPE_SET_BAUD_REQUEST [divisor] m = ((E_BL_MSG_TYPE_SET_BAUD_RESPONSE, E_BL_RESPONSE_OK, []), m')
      \<and> flash m' = flash m \<and> mem m' = mem m"
    and "\<exists>m'. chip E_BL_MSG_TYPE_PDM_ERASE_REQUEST [what] m = ((E_BL_MSG_TYPE_PDM_ERASE_RESPONSE, E_BL_RESPONSE_OK, []), m')
      \<and> flash m' = flash m \<and> mem m' = mem m"
  using assms unfolding module_law_def by blast+

lemma join_be_be32: "join_be (be32 w @ xs) = w"
  using unle32_le32 [of w "[]"] by (simp add: join_be_def be32_def take_Cons')

lemma chip_id_read:
  assumes "module_law chip i v flash mem"
  shows "\<exists>m'. eBL_ChipIdRead (wire_port chip accepts gives) (wire_idle sp m) = Some ((E_PRG_OK, Some (i, v)), wire_idle sp m') \<and> flash m' = flash m \<and> mem m' = mem m"
proof -
  obtain m' where m': "chip E_BL_MSG_TYPE_GET_CHIPID_REQUEST [] m = ((E_BL_MSG_TYPE_GET_CHIPID_RESPONSE, E_BL_RESPONSE_OK, be32 i @ be32 v), m')"
    "flash m' = flash m" "mem m' = mem m" using module_lawD(1) [OF assms] by blast
  have "eBL_Request (wire_port chip accepts gives) BL_TIMEOUT_1S E_BL_MSG_TYPE_GET_CHIPID_REQUEST [] [] (wire_idle sp m)
      = Some ((E_BL_RESPONSE_OK, E_BL_MSG_TYPE_GET_CHIPID_RESPONSE, be32 i @ be32 v), wire_idle sp m')"
    by (rule request_over_line [where chip = chip and m = m]) (use m'(1) in \<open>simp_all add: be32_def\<close>)
  then show ?thesis using m'(2,3) join_be_be32 [of v "[]"]
    by (auto simp: eBL_ChipIdRead_def join_be_be32) (auto simp: be32_def le32_def)
qed

lemma type_selected:
  assumes "module_law chip i v flash mem"
  shows "\<exists>m'. select_type (wire_port chip accepts gives) ty (wire_idle sp m)
      = Some (if ty = 8 then E_PRG_OK else E_PRG_UNSUPPORTED_OPERATION, wire_idle sp m') \<and> flash m' = flash m \<and> mem m' = mem m"
proof -
  obtain m' where m': "chip E_BL_MSG_TYPE_FLASH_SELECT_TYPE_REQUEST [ty, 0, 0, 0, 0] m
      = ((E_BL_MSG_TYPE_FLASH_SELECT_TYPE_RESPONSE, if ty = 8 then E_BL_RESPONSE_OK else E_BL_RESPONSE_NOT_SUPPORTED, []), m')"
    "flash m' = flash m" "mem m' = mem m" using module_lawD(2) [OF assms] by blast
  have "eBL_Request (wire_port chip accepts gives) BL_TIMEOUT_1S E_BL_MSG_TYPE_FLASH_SELECT_TYPE_REQUEST [ty, 0, 0, 0, 0] [] (wire_idle sp m)
      = Some ((if ty = 8 then E_BL_RESPONSE_OK else E_BL_RESPONSE_NOT_SUPPORTED, E_BL_MSG_TYPE_FLASH_SELECT_TYPE_RESPONSE, []), wire_idle sp m')"
    by (rule request_over_line [where chip = chip and m = m]) (use m'(1) in simp_all)
  then show ?thesis using m'(2,3) by (simp add: select_type_def bl_command_def eBL_CheckResponse_def bl_responses)
qed

lemma speed_asked:
  assumes "module_law chip i v flash mem" and "rate \<noteq> 0"
  shows "\<exists>m'. eBL_SetBaudrate (wire_port chip accepts gives) rate (wire_idle sp m)
      = Some (E_PRG_OK, (wire_idle sp m')\<lparr>w_divisor := unat (ucast (1000000 div rate) :: u8)\<rparr>) \<and> flash m' = flash m \<and> mem m' = mem m"
proof -
  obtain m' where m': "chip E_BL_MSG_TYPE_SET_BAUD_REQUEST ([ucast (1000000 div rate)] @ []) m
      = ((E_BL_MSG_TYPE_SET_BAUD_RESPONSE, E_BL_RESPONSE_OK, []), m')" "flash m' = flash m" "mem m' = mem m"
    using module_lawD(3) [OF assms(1), of "ucast (1000000 div rate)" m] by auto
  have "eBL_Request (wire_port chip accepts gives) BL_TIMEOUT_1S E_BL_MSG_TYPE_SET_BAUD_REQUEST [ucast (1000000 div rate)] [] (wire_idle sp m)
      = Some ((E_BL_RESPONSE_OK, E_BL_MSG_TYPE_SET_BAUD_RESPONSE, []),
          (wire_idle sp m')\<lparr>w_divisor := retuned E_BL_MSG_TYPE_SET_BAUD_REQUEST ([ucast (1000000 div rate)] @ []) E_BL_RESPONSE_OK (divisor_of sp)\<rparr>)"
    by (rule request_answered [where chip = chip and m = m]) (use m'(1) in simp_all)
  then show ?thesis using assms(2) m'(2,3) by (intro exI [of _ m']) (simp add: eBL_SetBaudrate_def bl_command_def retuned_def)
qed

text \<open>When the port has followed, the line is idle at the new speed, if it is one of those in tune.\<close>

lemma rate_divisor:
  assumes "unat (rate :: u32) = rate_of sp"
  shows "unat (ucast (1000000 div rate) :: u8) = divisor_of sp" "rate \<noteq> 0" "unat rate \<in> set uart_rates"
proof -
  have "rate = word_of_nat (unat rate)" by simp
  then have "rate = word_of_nat (rate_of sp)" unfolding assms .
  then show "unat (ucast (1000000 div rate) :: u8) = divisor_of sp" "rate \<noteq> 0" "unat rate \<in> set uart_rates"
    by (cases sp; simp add: rate_of_def divisor_of_def uart_rates_def)+
qed

lemma port_speed:
  assumes "rate \<in> set uart_rates"
  shows "eUART_SetBaudRate (wire_port chip accepts gives) rate w = (E_PRG_OK, w\<lparr>w_out := [], w_rate := rate\<rparr>)"
  using assms by (simp add: eUART_SetBaudRate_def wire_port_def)

lemma speed_changed:
  assumes "module_law chip i v flash mem" and "unat rate = rate_of sp'"
  shows "\<exists>w m'. eBL_SetBaudrate (wire_port chip accepts gives) rate (wire_idle sp m) = Some (E_PRG_OK, w)
    \<and> eUART_SetBaudRate (wire_port chip accepts gives) (unat rate) w = (E_PRG_OK, wire_idle sp' m') \<and> flash m' = flash m \<and> mem m' = mem m"
proof -
  obtain m' where m': "eBL_SetBaudrate (wire_port chip accepts gives) rate (wire_idle sp m)
      = Some (E_PRG_OK, (wire_idle sp m')\<lparr>w_divisor := divisor_of sp'\<rparr>)" "flash m' = flash m" "mem m' = mem m"
    using speed_asked [OF assms(1) rate_divisor(2) [OF assms(2)], of accepts gives sp m] unfolding rate_divisor(1) [OF assms(2)] by blast
  have "eUART_SetBaudRate (wire_port chip accepts gives) (unat rate) ((wire_idle sp m')\<lparr>w_divisor := divisor_of sp'\<rparr>) = (E_PRG_OK, wire_idle sp' m')"
    unfolding port_speed [OF rate_divisor(3) [OF assms(2)]] by (simp add: wire_idle_def assms(2))
  with m' show ?thesis by blast
qed

lemma commands_taken:
  assumes "module_law chip i v flash mem"
  shows "\<exists>m'. eBL_EEPROMErase (wire_port chip accepts gives) what (wire_idle sp m) = Some (E_PRG_OK, wire_idle sp m') \<and> flash m' = flash m \<and> mem m' = mem m"
  using module_lawD(4) [OF assms, of "word_of_int what" m]
    command_over_line [where chip = chip and m = m and dat = "[]" and data = "[]" and accepts = accepts and gives = gives and tmo = BL_TIMEOUT_1S]
  by (fastforce simp: eBL_EEPROMErase_def)

section \<open>What the programmer finds out\<close>

lemma le32_unle32:
  assumes "length bs = 4"
  shows "le32 (unle32 bs) = bs"
proof -
  obtain b0 b1 b2 b3 where bs: "bs = [b0, b1, b2, b3]" using assms by (auto simp: numeral_eq_Suc length_Suc_conv)
  have join: "unle32 bs = ucast b0 OR push_bit 8 (ucast b1) OR push_bit 16 (ucast b2) OR push_bit 24 (ucast b3)"
    by (simp add: unle32_def bs) ((subst disjunctive_add, force simp: bit_simps dest: bit_imp_le_length)+, simp add: or.assoc)
  have high: "\<not> bit b (8 + n)" "\<not> bit b (16 + n)" "\<not> bit b (24 + n)" for b :: u8 and n by (auto dest: bit_imp_le_length)
  show ?thesis unfolding join unfolding le32_def bs by (auto intro!: bit_word_eqI simp: bit_simps high)
qed

text \<open>The four numbers of a word of the index sector, as a big-endian chip has them.\<close>

definition sector_words :: "(u32 \<Rightarrow> u8) \<Rightarrow> u8 \<Rightarrow> u8 \<Rightarrow> u32 list" where
  "sector_words mem page w = map (\<lambda>k. join_be (mem_get (index_sector_address page w + 4 * word_of_nat k) 4 mem)) [0..<4]"

lemma be32_join_be: "length bs = 4 \<Longrightarrow> be32 (join_be bs) = bs"
  using le32_unle32 [of "rev bs"] by (simp add: be32_def join_be_def)

lemma sector_words_held: "holds_words E_CHIP_BIG_ENDIAN mem page w (sector_words mem page w)"
proof -
  let ?a = "index_sector_address page w"
  have upt: "[0..<4] = [0, 1, 2, 3 :: nat]" by (simp add: upt_rec)
  have "mem_get ?a 16 mem = mem_get ?a 4 mem @ mem_get (?a + 4) 4 mem @ mem_get (?a + 8) 4 mem @ mem_get (?a + 12) 4 mem"
    using mem_get_split [of ?a 4 12 mem] mem_get_split [of "?a + 4" 4 8 mem] mem_get_split [of "?a + 8" 4 4 mem] by (simp add: add.assoc)
  moreover have "chip_word E_CHIP_BIG_ENDIAN = be32" by (simp add: fun_eq_iff chip_word_def be32_def)
  ultimately show ?thesis by (simp add: holds_words_def sector_words_def upt be32_join_be)
qed

lemma length_sector_words [simp]: "length (sector_words mem page w) = 4"
  by (simp add: sector_words_def)

lemma half_word_shown:
  assumes "index_law chip mem" and "length buf = 8"
  shows "\<exists>m'. eBL_MemoryRead (wire_port chip accepts gives) E_CHIP_BIG_ENDIAN (index_sector_address page w) 8 4 buf (wire_idle sp m)
      = Some ((E_PRG_OK, concat (map le32 (take 2 (sector_words (mem m) page w)))), wire_idle sp m') \<and> mem m' = mem m"
proof -
  let ?a = "index_sector_address page w"
  have "shows_memory chip E_BL_MSG_TYPE_RAM_READ_REQUEST E_BL_MSG_TYPE_RAM_READ_RESPONSE mem" using assms(1) by (simp add: index_law_def)
  from show_over_line [OF this, of 8 accepts gives BL_TIMEOUT_1S ?a sp m]
  obtain m' where m': "eBL_Request (wire_port chip accepts gives) BL_TIMEOUT_1S E_BL_MSG_TYPE_RAM_READ_REQUEST (le32 ?a @ [8, 0]) [] (wire_idle sp m)
      = Some ((E_BL_RESPONSE_OK, E_BL_MSG_TYPE_RAM_READ_RESPONSE, mem_get ?a 8 (mem m)), wire_idle sp m')" "mem m' = mem m" by auto
  have upt: "[0..<4] = [0, 1, 2, 3 :: nat]" by (simp add: upt_rec)
  obtain c d where words: "take 2 (sector_words (mem m) page w) = [c, d]" "mem_get ?a 8 (mem m) = be32 c @ be32 d"
    using mem_get_split [of ?a 4 4 "mem m"] by (simp add: sector_words_def upt be32_join_be)
  have "convert_words E_CHIP_BIG_ENDIAN 4 8 (be32 c @ be32 d) = Some (le32 c @ le32 d)"
    by (simp add: convert_words_def upt_rec be32_def le32_def overwrite_def)
  then show ?thesis using m' assms(2) by (simp add: eBL_MemoryRead_def copy_reply_def overwrite_def words be32_def)
qed

text \<open>
  The context of the programmer after it has looked at the module: what the code makes of the
  words, also of a chip of the JN517x family that reports its version, whose words it reads in
  the byte order of the others.
\<close>

definition found_mac :: "(u32 \<Rightarrow> u8) \<Rightarrow> u8 list" where
  "found_mac mem = mac_bytes (if take 2 (sector_words mem 5 7) = [0xffffffff, 0xffffffff] then take 2 (sector_words mem 5 8)
     else take 2 (sector_words mem 5 7))"

definition found_chip :: "u32 \<Rightarrow> u32 \<Rightarrow> (u32 \<Rightarrow> u8) \<Rightarrow> chip_details" where
  "found_chip i v mem = (case ate_sizes i (Some (majority (sector_words mem 5 0))) of (eeprom, flash, ram) \<Rightarrow>
     \<lparr>u32ChipId = i, u32SupportedFirmware = push_bit 16 ram OR push_bit 24 flash OR drop_bit 12 (CHIP_ID_PART i),
      pcChipName = chip_name i ((flash + 1) * 32 * 1024),
      asFlashes = [\<lparr>pcFlashName = ''Internal Flash'', u32FlashSize = (flash + 1) * 32 * 1024, u8ManufacturerID = FLASH_MANUFACTURER_JN516X,
        u8DeviceID = FLASH_DEVICE_JN516X, u8ChipSelect = 0\<rparr>],
      u32RamSize = (ram + 1) * 8 * 1024, u32EepromSize = eeprom, u32BootloaderVersion = v, au8MacAddress = found_mac mem,
      eEndianness = E_CHIP_BIG_ENDIAN, boEEPpresent = True\<rparr>)"

definition found_config :: "(u32 \<Rightarrow> u8) \<Rightarrow> device_config" where
  "found_config mem = customer_config (jtag_flash (majority (sector_words mem 4 0))) (majority (sector_words mem 5 1))"

definition found_context :: "(u32 \<Rightarrow> u8 list \<times> u32) \<Rightarrow> u32 \<Rightarrow> u32 \<Rightarrow> (u32 \<Rightarrow> u8) \<Rightarrow> prg_context" where
  "found_context linked i v mem = zero_context\<lparr>sChipDetails := found_chip i v mem, sDeviceConfig := found_config mem,
     pu8FlashProgrammerExtensionStart := Some (fst (linked (CHIP_ID_PART i))),
     u32FlashProgrammerExtensionLength := snd (linked (CHIP_ID_PART i)),
     u32BootloaderEntry := (if CHIP_ID_PART i = CHIP_ID_PART CHIP_ID_JN5172 then JN517X_BOOTLOADER_ENTRY else JN516X_BOOTLOADER_ENTRY)\<rparr>"

text \<open>The size of the flash memory in the settings of the factory.\<close>

definition found_flash_size :: "u32 \<Rightarrow> (u32 \<Rightarrow> u8) \<Rightarrow> u32" where
  "found_flash_size i mem = (fst (snd (ate_sizes i (Some (majority (sector_words mem 5 0))))) + 1) * 32 * 1024"

lemma found_flash: "asFlashes (found_chip i v mem) = [\<lparr>pcFlashName = ''Internal Flash'', u32FlashSize = found_flash_size i mem,
    u8ManufacturerID = FLASH_MANUFACTURER_JN516X, u8DeviceID = FLASH_DEVICE_JN516X, u8ChipSelect = 0\<rparr>]"
  by (cases "ate_sizes i (Some (majority (sector_words mem 5 0)))") (simp add: found_chip_def found_flash_size_def)

lemma line_flushed: "eUART_Flush (wire_port chip accepts gives) (wire_idle sp m) = Some (E_PRG_OK, wire_idle sp m)"
proof -
  have "flush_loop (wire_port chip accepts gives) (wire_idle sp m) = Some (wire_idle sp m)"
    by (subst flush_loop.simps) (simp add: wire_read wire_idle_def)
  then show ?thesis by (simp add: eUART_Flush_def wire_port_def [of chip accepts gives] wire_idle_def)
qed

lemma chip_found:
  assumes "module_law chip i v flash mem" and "index_law chip mem" and "internal_flash_chip i" and "v \<noteq> 0"
  shows "\<exists>m'. ePRG_ChipGetChipId (wire_port chip accepts gives) junk zero_context (wire_idle sp m)
      = Some (E_PRG_OK, zero_context\<lparr>sChipDetails := (found_chip i v (mem m))\<lparr>au8MacAddress := replicate 8 0, boEEPpresent := False\<rparr>\<rparr>, wire_idle sp m')
    \<and> mem m' = mem m"
proof -
  obtain m1 where m1: "eBL_ChipIdRead (wire_port chip accepts gives) (wire_idle sp m) = Some ((E_PRG_OK, Some (i, v)), wire_idle sp m1)" "mem m1 = mem m"
    using chip_id_read [OF assms(1)] by blast
  obtain m2 where m2: "read_index_word (wire_port chip accepts gives) junk E_CHIP_BIG_ENDIAN 5 0 (wire_idle sp m1)
      = Some (Some (sector_words (mem m) 5 0), wire_idle sp m2)" "mem m2 = mem m"
    using index_word_shown [where mem = mem and m = m1, OF assms(2) sector_words_held length_sector_words, of accepts gives junk 5 0] m1(2) by auto
  have "identify (wire_port chip accepts gives) junk (wire_idle sp m)
      = Some ((E_PRG_OK, no_chip\<lparr>u32ChipId := i, u32BootloaderVersion := v\<rparr>), wire_idle sp m1)" using m1(1) by (simp add: identify_def)
  with m2 assms(3,4) show ?thesis
    by (simp add: ePRG_ChipGetChipId_def with_version_def no_chip_def found_chip_def ePRG_FlashAddDevice_def zero_context_def no_config_def Let_def
        split: prod.splits)
qed

lemma none_discovered:
  assumes "module_law chip i v flash mem" and "\<forall>f \<in> set fs. fd_manufacturer f \<noteq> 0 \<and> fd_device f \<noteq> 0
      \<and> (\<exists>g. find_flash (fd_manufacturer f) (fd_device f) = Some g \<and> (fd_type g = 8 \<longrightarrow> fd_manufacturer f = FLASH_MANUFACTURER_JN516X \<and> fd_device f = FLASH_DEVICE_JN516X))"
  shows "\<exists>m'. discover_loop (wire_port chip accepts gives) 0 fs (wire_idle sp m) = Some ((E_PRG_FLASH_DEVICE_UNAVAILABLE, None), wire_idle sp m') \<and> mem m' = mem m"
  using assms(2)
proof (induction fs arbitrary: m)
  case (Cons f fs)
  show ?case
  proof (cases "fd_manufacturer f = FLASH_MANUFACTURER_JN516X \<and> fd_device f = FLASH_DEVICE_JN516X")
    case True
    with Cons show ?thesis by simp
  next
    case False
    with Cons.prems obtain g where g: "fd_manufacturer f \<noteq> 0" "fd_device f \<noteq> 0" "find_flash (fd_manufacturer f) (fd_device f) = Some g" "fd_type g \<noteq> 8" by auto
    obtain m1 where m1: "select_type (wire_port chip accepts gives) (fd_type g) (wire_idle sp m) = Some (E_PRG_UNSUPPORTED_OPERATION, wire_idle sp m1)" "mem m1 = mem m"
      using type_selected [OF assms(1), of accepts gives "fd_type g" sp m] g(4) by auto
    have "discover_loop (wire_port chip accepts gives) 0 (f # fs) (wire_idle sp m) = discover_loop (wire_port chip accepts gives) 0 fs (wire_idle sp m1)"
      using g m1(1) by (simp add: eBL_FlashSelectDevice_def False del: de_Morgan_conj)
    with Cons.IH [of m1] Cons.prems m1(2) show ?thesis by simp
  qed
qed simp

lemma all_devices: "\<forall>f \<in> set asFlashDevices. fd_manufacturer f \<noteq> 0 \<and> fd_device f \<noteq> 0
      \<and> (\<exists>g. find_flash (fd_manufacturer f) (fd_device f) = Some g \<and> (fd_type g = 8 \<longrightarrow> fd_manufacturer f = FLASH_MANUFACTURER_JN516X \<and> fd_device f = FLASH_DEVICE_JN516X))"
  by (simp add: asFlashDevices_def find_flash_def FLASH_MANUFACTURER_JN516X_def FLASH_DEVICE_JN516X_def)

lemma mac_found:
  assumes "index_law chip mem" and "internal_flash_chip (u32ChipId (sChipDetails ctx))" and "eEndianness (sChipDetails ctx) = E_CHIP_BIG_ENDIAN"
  shows "\<exists>m'. ePRG_ChipGetMacAddress (wire_port chip accepts gives) ctx (wire_idle sp m)
      = Some (E_PRG_OK, ctx\<lparr>sChipDetails := (sChipDetails ctx)\<lparr>au8MacAddress := found_mac (mem m)\<rparr>\<rparr>, wire_idle sp m') \<and> mem m' = mem m"
proof -
  have words: "host_words 2 (concat (map le32 (take 2 (sector_words mm page w)))) = take 2 (sector_words mm page w)" for mm page w
  proof -
    have upt: "[0..<4] = [0, 1, 2, 3 :: nat]" "[0..<2] = [0, 1 :: nat]" by (simp_all add: upt_rec)
    then obtain c d where "take 2 (sector_words mm page w) = [c, d]" by (simp add: sector_words_def)
    then show ?thesis using unle32_le32 [of d "[]"] by (simp add: host_words_def upt unle32_le32)
  qed
  have length: "length (concat (map le32 (take 2 (sector_words mm page w)))) = 8" for mm page w
    by (simp add: length_concat comp_def sum_list_triv)
  obtain m1 b7 where m1: "eBL_MemoryRead (wire_port chip accepts gives) E_CHIP_BIG_ENDIAN (index_sector_address 5 7) 8 4 (replicate 8 0) (wire_idle sp m)
      = Some ((E_PRG_OK, b7), wire_idle sp m1)" "mem m1 = mem m" "length b7 = 8" "host_words 2 b7 = take 2 (sector_words (mem m) 5 7)"
    using half_word_shown [where mem = mem and m = m, OF assms(1), of "replicate 8 0" accepts gives 5 7 sp] words length by auto
  obtain m2 b8 where m2: "eBL_MemoryRead (wire_port chip accepts gives) E_CHIP_BIG_ENDIAN (index_sector_address 5 8) 8 4 b7 (wire_idle sp m1)
      = Some ((E_PRG_OK, b8), wire_idle sp m2)" "mem m2 = mem m" "host_words 2 b8 = take 2 (sector_words (mem m) 5 8)"
    using half_word_shown [where mem = mem and m = m1, OF assms(1) m1(3), of accepts gives 5 8 sp] m1(2) words by auto
  show ?thesis using assms(2,3) m1 m2 internal_parts [OF assms(2)]
    by (simp add: ePRG_ChipGetMacAddress_def Let_def found_mac_def)
qed

text \<open>Putting the steps together.\<close>

lemma module_found:
  assumes "module_law chip i v flash mem" and "index_law chip mem" and "internal_flash_chip i" and "v \<noteq> 0"
  shows "\<exists>m'. ePRG_ChipGetDetails (wire_port chip accepts gives) junk linked zero_context (wire_idle sp m)
      = Some (E_PRG_OK, found_context linked i v (mem m), wire_idle sp m') \<and> mem m' = mem m"
proof -
  let ?port = "wire_port chip accepts gives"
  let ?found = "(found_chip i v (mem m))\<lparr>au8MacAddress := replicate 8 0, boEEPpresent := False\<rparr>"
  let ?ctx1 = "zero_context\<lparr>sChipDetails := ?found\<rparr>"
  have chip: "u32ChipId ?found = i" "eEndianness ?found = E_CHIP_BIG_ENDIAN" "u32ChipId (found_chip i v (mem m)) = i"
    "eEndianness (found_chip i v (mem m)) = E_CHIP_BIG_ENDIAN" "au8MacAddress (found_chip i v (mem m)) = found_mac (mem m)"
    "boEEPpresent (found_chip i v (mem m))" by (simp_all add: found_chip_def split: prod.splits)
  obtain m1 where m1: "ePRG_ChipGetChipId ?port junk zero_context (wire_idle sp m) = Some (E_PRG_OK, ?ctx1, wire_idle sp m1)" "mem m1 = mem m"
    using chip_found [OF assms] by blast
  obtain m2 where m2: "eBL_DiscoverFlash ?port 0 (wire_idle sp m1) = Some ((E_PRG_FLASH_DEVICE_UNAVAILABLE, None), wire_idle sp m2)" "mem m2 = mem m"
    using none_discovered [OF assms(1) all_devices, of accepts gives sp m1] m1(2) by (auto simp: eBL_DiscoverFlash_def)
  have flash: "ePRG_ChipGetFlashId ?port ?ctx1 (wire_idle sp m1) = Some (E_PRG_OK, ?ctx1, wire_idle sp m2)"
    using m2(1) assms(3) chip(1) by (simp add: ePRG_ChipGetFlashId_def)
  let ?ctx2 = "?ctx1\<lparr>sChipDetails := ?found\<lparr>au8MacAddress := found_mac (mem m)\<rparr>\<rparr>"
  obtain m3 where m3: "ePRG_ChipGetMacAddress ?port ?ctx1 (wire_idle sp m2) = Some (E_PRG_OK, ?ctx2, wire_idle sp m3)" "mem m3 = mem m"
    using mac_found [OF assms(2), of ?ctx1 accepts gives sp m2] assms(3) chip(1,2) m2(2) by auto
  obtain m4 where m4: "ePRG_DeviceConfigGet ?port junk ?ctx2 (wire_idle sp m3)
      = Some (E_PRG_OK, ?ctx2\<lparr>sDeviceConfig := found_config (mem m)\<rparr>, wire_idle sp m4)" "mem m4 = mem m"
    using config_shown [where mem = mem and m = m3 and ctx = ?ctx2 and ip = "sector_words (mem m) 4 0" and customer = "sector_words (mem m) 5 1",
        OF assms(2), of accepts gives junk]
      sector_words_held [of "mem m"] assms(3) chip(1,2) m3(2) by (simp add: found_config_def) blast
  obtain m5 where m5: "select_type ?port 8 (wire_idle sp m4) = Some (E_PRG_OK, wire_idle sp m5)" "mem m5 = mem m"
    using type_selected [OF assms(1), of accepts gives 8 sp m4] m4(2) by auto
  have ready: "snd (ePRG_ChipGetFlashProgrammerExtensionDetails linked (snd (ePRG_ChipGetEEPROMenable (?ctx2\<lparr>sDeviceConfig := found_config (mem m)\<rparr>))))
      = found_context linked i v (mem m)"
    using assms(3) chip by (simp add: ePRG_ChipGetFlashProgrammerExtensionDetails_def ePRG_ChipGetEEPROMenable_def found_context_def)
  have "ePRG_FlashSelectDevice ?port 0 (found_context linked i v (mem m)) (wire_idle sp m4)
      = Some (E_PRG_OK, found_context linked i v (mem m), wire_idle sp m5)"
    using m5(1) found_flash [of i v "mem m"] by (simp add: ePRG_FlashSelectDevice_def eBL_FlashSelectDevice_def found_context_def find_flash_def asFlashDevices_def Let_def
        FLASH_MANUFACTURER_JN516X_def FLASH_DEVICE_JN516X_def zero_context_def)
  then show ?thesis using line_flushed [of chip accepts gives sp m] m1(1) flash m3(1) m4(1) m5(2) ready
    by (simp add: ePRG_ChipGetDetails_def Let_def)
qed

section \<open>Programming a module\<close>

text \<open>A file that is a firmware for a chip of the JN516x family, for its version of the ROM and its flash memory.\<close>

definition firmware_for :: "nat \<Rightarrow> u8 list \<Rightarrow> u32 \<Rightarrow> u32 \<Rightarrow> bool" where
  "firmware_for page file rom bytes \<longleftrightarrow> 60 \<le> length file \<and> length file < 2 ^ 32
     \<and> header_magic join_be (mapped page file) = [0x12345678, 0x11223344, 0x55667788]
     \<and> (join_be (drop 44 (mapped page file)) AND 0xFFFF) * 4 \<le> word_of_nat (length file)
     \<and> join_be (mapped page file) = rom \<and> word_of_nat (length file) - 4 \<le> bytes"

lemma firmware_opened:
  assumes "firmware_for page file rom bytes"
  shows "\<exists>info. ePRG_FwOpen page (Some file) ctx = Some (E_PRG_OK, ctx\<lparr>pu8Firmware := mapped page file, sFirmwareInfo := info\<rparr>)
    \<and> u32ROMVersion info = rom \<and> pu8ImageData info = 4 \<and> u32ImageLength info = word_of_nat (length file) - 4 \<and> \<not> bRawImage info"
proof -
  have "60 \<le> length (mapped page file)" "file \<noteq> []" using assms by (auto simp: firmware_for_def mapped_def)
  then show ?thesis using assms
    by (auto simp: firmware_for_def ePRG_FwOpen_def ePRG_FwGetInfo_def header_info_def Let_def not_less)
qed

lemma image_length: "60 \<le> n \<Longrightarrow> n < 2 ^ 32 \<Longrightarrow> unat (word_of_nat n - 4 :: u32) = n - 4"
  by (simp add: unat_sub_if' unsigned_of_nat take_bit_eq_mod)

lemma speeds_set:
  assumes "module_law chip i v flash mem" and "unat rate = rate_of sp'"
  shows "\<exists>m'. set_speeds (wire_port chip accepts gives) rate (wire_idle sp m) = Some (0, wire_idle sp' m') \<and> flash m' = flash m \<and> mem m' = mem m"
  using speed_changed [OF assms, of accepts gives sp m] by (auto simp: set_speeds_def numeral_3_eq_3)

lemma firmware_flashed:
  assumes "module_law chip i v flash mem" and "flash_law chip flash" and "internal_flash_chip i" and "BOOTLOADER_CAPABILITY_EEPROM_ACCESS v"
    and "firmware_for page file (u32SupportedFirmware (found_chip i v at_start)) (found_flash_size i at_start)"
    and "eCRP (found_config at_start) \<noteq> E_DC_CRP_LEVEL1" and "extension_file (CHIP_ID_PART i) = Some name" and "files name = Some bytes"
  shows "\<exists>ctx m'. flash_firmware (line_env chip accepts gives junk) page files (Some file) (found_context linked i v at_start) (wire_idle sp m)
      = Some (0, ctx, wire_idle sp m') \<and> flash m' = mem_put (\<lambda>_ new. new) 0 (drop 4 file) (\<lambda>_. 0xFF)"
proof -
  let ?env = "line_env chip accepts gives junk" and ?found = "found_context linked i v at_start"
  have chip: "u32ChipId (found_chip i v at_start) = i" "u32BootloaderVersion (found_chip i v at_start) = v" "boEEPpresent (found_chip i v at_start)"
    by (simp_all add: found_chip_def split: prod.splits)
  obtain info where open_file: "ePRG_FwOpen page (Some file) ?found = Some (E_PRG_OK, ?found\<lparr>pu8Firmware := mapped page file, sFirmwareInfo := info\<rparr>)"
    and info: "u32ROMVersion info = u32SupportedFirmware (found_chip i v at_start)" "pu8ImageData info = 4"
      "u32ImageLength info = word_of_nat (length file) - 4" "\<not> bRawImage info"
    using firmware_opened [OF assms(5)] by blast
  let ?ctx = "?found\<lparr>pu8Firmware := mapped page file, sFirmwareInfo := info\<rparr>"
  have len: "unat (u32ImageLength info) = length file - 4" "60 \<le> length file" "u32ImageLength info \<le> found_flash_size i at_start"
    using assms(5) image_length [of "length file"] info(3) by (simp_all add: firmware_for_def)
  have ctx: "fits_flash ?ctx" "confirmed None ?ctx" "eCRP (sDeviceConfig ?ctx) \<noteq> E_DC_CRP_LEVEL1" "u32FlashOffset ?ctx = 0" "fw_image ?ctx = drop 4 file"
    using len info assms(3,6) chip(1)
    by (simp_all add: fits_flash_def image_mapped_def mapped_def selected_flash_def found_context_def found_flash zero_context_def confirmed_def fw_image_def)
  have "never_aborts cbProgress" by (simp add: never_aborts_def progressed_def cbProgress_def)
  from image_programmed [OF assms(2) ctx(1,2) this ctx(3), of accepts gives junk sp m] obtain m1 m2 where
    m2: "ePRG_FlashProgram ?env cbProgress None ?ctx (wire_idle sp m) = Some (E_PRG_OK, ?ctx, wire_idle sp m1)"
    "ePRG_FlashVerify ?env cbProgress ?ctx (wire_idle sp m1) = Some (E_PRG_OK, ?ctx, wire_idle sp m2)"
    "flash m2 = mem_put (\<lambda>_ new. new) 0 (drop 4 file) (\<lambda>_. 0xFF)" unfolding ctx(4,5) by blast
  obtain start n where loaded: "ePRG_ImportExtension junk files ?ctx
      = (E_PRG_OK, ?ctx\<lparr>pu8FlashProgrammerExtensionStart := start, u32FlashProgrammerExtensionLength := n\<rparr>)"
    using assms(7,8) by (simp add: ePRG_ImportExtension_def found_context_def chip(1))
  obtain m3 where m3: "eBL_EEPROMErase (wire_port chip accepts gives) 0 (wire_idle sp m2) = Some (E_PRG_OK, wire_idle sp m3)" "flash m3 = flash m2"
    using commands_taken [OF assms(1)] by blast
  let ?ctx4 = "?ctx\<lparr>pu8FlashProgrammerExtensionStart := start, u32FlashProgrammerExtensionLength := n\<rparr>"
  have "ePRG_EepromErase ?env E_ERASE_EEPROM_PDM cbProgress ?ctx4 (wire_idle sp m2) = Some (E_PRG_OK, ?ctx4, wire_idle sp m3)"
    using m3(1) assms(4) chip(2,3) by (simp add: ePRG_EepromErase_def with_extension_def eeprom_able_def progressed_def cbProgress_def found_context_def)
  then show ?thesis using m2 m3(2) open_file loaded by (simp add: flash_firmware_def)
qed

text \<open>
  C5: The flasher does its work, and says so: with a module at the end of the line whose boot
  loader is at the initial speed and can access the EEPROM, which is not protected against reading
  its flash memory (its level of protection is not 1), for whose chip the file with the extension
  of the boot loader is installed, and a firmware file for its version that fits, the command
  ends with code 0 and no problem, the flash memory of the module holds the file behind its first
  word and is erased elsewhere, and port and boot loader are back at the initial speed; whatever
  speed the port had before.  The two speeds are any that the boot loader has too: 38400, 500000
  and 1000000.
\<close>

theorem flasher_programs:
  assumes "module_law chip i v flash mem" and "index_law chip mem" and "flash_law chip flash"
    and "internal_flash_chip i" and "BOOTLOADER_CAPABILITY_EEPROM_ACCESS v"
    and "firmware_for page file (u32SupportedFirmware (found_chip i v (mem m))) (found_flash_size i (mem m))"
    and "eCRP (found_config (mem m)) \<noteq> E_DC_CRP_LEVEL1" and "extension_file (CHIP_ID_PART i) = Some name" and "files name = Some bytes"
    and "jp_opens args" and "unat (jp_initial args) = rate_of sp" and "unat (jp_program args) = rate_of sp'" and "jp_firmware args = Some (Some file)"
  shows "\<exists>m'. jp_main (line_env chip accepts gives junk) linked page files args ((wire_idle sp m)\<lparr>w_rate := before\<rparr>) = Some ((0, 0), wire_idle sp m')
    \<and> flash m' = mem_put (\<lambda>_ new. new) 0 (drop 4 file) (\<lambda>_. 0xFF)"
proof -
  let ?port = "wire_port chip accepts gives"
  have opened: "eUART_SetBaudRate ?port (unat (jp_initial args)) ((wire_idle sp m)\<lparr>w_rate := before\<rparr>) = (E_PRG_OK, wire_idle sp m)"
    unfolding port_speed [OF rate_divisor(3) [OF assms(11)]] by (simp add: wire_idle_def assms(11))
  obtain sp1 m1 where m1: "(if jp_initial args \<noteq> jp_program args then set_speeds ?port (jp_program args) (wire_idle sp m) else Some (0, wire_idle sp m))
      = Some (0, wire_idle sp1 m1)" "mem m1 = mem m"
    using speeds_set [OF assms(1,12), of accepts gives sp m] that by (cases "jp_initial args = jp_program args") auto
  have "v \<noteq> 0" using assms(5) by (auto simp: BOOTLOADER_CAPABILITY_EEPROM_ACCESS_def)
  then obtain m2 where m2: "ePRG_ChipGetDetails ?port junk linked zero_context (wire_idle sp1 m1) = Some (E_PRG_OK, found_context linked i v (mem m), wire_idle sp1 m2)"
    using module_found [OF assms(1,2,4), of accepts gives junk linked sp1 m1] m1(2) by auto
  obtain ctx m3 where m3: "flash_firmware (line_env chip accepts gives junk) page files (Some file) (found_context linked i v (mem m)) (wire_idle sp1 m2)
      = Some (0, ctx, wire_idle sp1 m3)" "flash m3 = mem_put (\<lambda>_ new. new) 0 (drop 4 file) (\<lambda>_. 0xFF)"
    using firmware_flashed [where at_start = "mem m" and files = files, OF assms(1,3-9), of accepts gives junk linked sp1 m2] by blast
  obtain w m4 where "eBL_SetBaudrate ?port (jp_initial args) (wire_idle sp1 m3) = Some (E_PRG_OK, w)"
    "eUART_SetBaudRate ?port (unat (jp_initial args)) w = (E_PRG_OK, wire_idle sp m4)" "flash m4 = flash m3"
    using speed_changed [OF assms(1,11)] by blast
  then show ?thesis using m1(1) m2 m3 assms(10,13) opened
    by (simp add: jp_main_def eUART_Initialise_def Let_def)
qed

text \<open>A module with three memories whose boot loader answers.\<close>

definition module_chip :: "u32 \<Rightarrow> u32 \<Rightarrow> rom chip" where
  "module_chip i v ty body m =
     (if ty = 0x32 then ((0x33, 0, be32 i @ be32 v), m)
      else if ty = 0x2c then ((0x2d, if hd body = 8 then 0 else 0xff, []), m)
      else if ty = 0x27 then ((0x28, 0, []), m)
      else if ty = 0x36 then ((0x37, 0, []), m\<lparr>rom_eeprom := \<lambda>_. 0xFF\<rparr>)
      else rom_chip ty body m)"

lemma module_chip_laws:
  "module_law (module_chip i v) i v rom_flash rom_ram" "index_law (module_chip i v) rom_ram" "flash_law (module_chip i v) rom_flash"
proof -
  show "module_law (module_chip i v) i v rom_flash rom_ram"
    by (simp add: module_law_def module_chip_def bl_responses E_BL_MSG_TYPE_GET_CHIPID_REQUEST_def E_BL_MSG_TYPE_GET_CHIPID_RESPONSE_def
        E_BL_MSG_TYPE_FLASH_SELECT_TYPE_REQUEST_def E_BL_MSG_TYPE_FLASH_SELECT_TYPE_RESPONSE_def E_BL_MSG_TYPE_SET_BAUD_REQUEST_def
        E_BL_MSG_TYPE_SET_BAUD_RESPONSE_def E_BL_MSG_TYPE_PDM_ERASE_REQUEST_def E_BL_MSG_TYPE_PDM_ERASE_RESPONSE_def)
  have other: "module_chip i v ty = rom_chip ty" if "ty \<in> {0x07, 0x09, 0x0b, 0x1f, 0x38}" for ty
    using that by (auto simp: fun_eq_iff module_chip_def)
  show "index_law (module_chip i v) rom_ram"
    using rom_index_law by (simp add: index_law_def shows_memory_def other rom_types)
  show "flash_law (module_chip i v) rom_flash"
    using rom_flash_law by (simp add: flash_law_def stores_def shows_memory_def other rom_types)
qed

definition sample_file :: "u8 list" where
  "sample_file = [0x07, 0x03, 0x00, 0x08, 0x12, 0x34, 0x56, 0x78, 0x11, 0x22, 0x33, 0x44, 0x55, 0x66, 0x77, 0x88] @ replicate 44 0"

definition sample_rom :: rom where
  "sample_rom = \<lparr>rom_flash = \<lambda>_. 0, rom_ram = \<lambda>_. 0xFF, rom_eeprom = \<lambda>_. 0, rom_started = None\<rparr>"

lemma sample_words: "sector_words (rom_ram sample_rom) page w = replicate 4 0xFFFFFFFF"
proof -
  have upt: "[0..<4] = [0, 1, 2, 3 :: nat]" by (simp add: upt_rec)
  have "join_be [0xFF, 0xFF, 0xFF, 0xFF] = 0xFFFFFFFF" by (simp add: join_be_def unle32_def)
  moreover have "replicate 4 x = [x, x, x, x]" for x :: u32 by (simp add: numeral_eq_Suc)
  ultimately show ?thesis by (simp add: sector_words_def mem_get_def sample_rom_def upt)
qed

lemma sample_module:
  "u32SupportedFirmware (found_chip CHIP_ID_JN5168 0x02000000 (rom_ram sample_rom)) = 0x07030008"
  "found_flash_size CHIP_ID_JN5168 (rom_ram sample_rom) = 0x40000"
  "eCRP (found_config (rom_ram sample_rom)) \<noteq> E_DC_CRP_LEVEL1"
  "internal_flash_chip CHIP_ID_JN5168" "BOOTLOADER_CAPABILITY_EEPROM_ACCESS 0x02000000"
  "extension_file (CHIP_ID_PART CHIP_ID_JN5168) = Some ''/usr/share/iot/FlashProgrammerExtension_JN5168.bin''"
  by (simp_all add: found_chip_def found_flash_size_def found_config_def sample_words ate_sizes_def CHIP_ID_PART_def chip_ids
      customer_config_def internal_flash_chip_def BOOTLOADER_CAPABILITY_EEPROM_ACCESS_def extension_file_def)

lemma sample_firmware: "firmware_for 64 sample_file 0x07030008 0x40000"
proof -
  have upt: "[0..<3] = [0, 1, 2 :: nat]" by (simp add: upt_rec)
  show ?thesis by (simp add: firmware_for_def sample_file_def mapped_def header_magic_def upt join_be_def unle32_def)
qed

theorem flasher_programs_witness:
  "\<exists>m'. jp_main (line_env (module_chip CHIP_ID_JN5168 0x02000000) (\<lambda>_. 0) (\<lambda>_. 3) (\<lambda>_. 7)) (\<lambda>_. ([], 0)) 64 (\<lambda>_. Some [])
        \<lparr>jp_opens = True, jp_initial = 38400, jp_program = 1000000, jp_firmware = Some (Some sample_file)\<rparr> ((wire_idle AT_38400 sample_rom)\<lparr>w_rate := 9600\<rparr>)
      = Some ((0, 0), wire_idle AT_38400 m')
    \<and> rom_flash m' 0 = 0x12 \<and> rom_flash m' 56 = 0xFF"
proof -
  let ?args = "\<lparr>jp_opens = True, jp_initial = 38400, jp_program = 1000000, jp_firmware = Some (Some sample_file)\<rparr>"
  have args: "jp_opens ?args" "unat (jp_initial ?args) = rate_of AT_38400" "unat (jp_program ?args) = rate_of AT_1000000"
    "jp_firmware ?args = Some (Some sample_file)" by (simp_all add: rate_of_def)
  have fits: "firmware_for 64 sample_file (u32SupportedFirmware (found_chip CHIP_ID_JN5168 0x02000000 (rom_ram sample_rom)))
      (found_flash_size CHIP_ID_JN5168 (rom_ram sample_rom))" unfolding sample_module by (rule sample_firmware)
  obtain m' where "jp_main (line_env (module_chip CHIP_ID_JN5168 0x02000000) (\<lambda>_. 0) (\<lambda>_. 3) (\<lambda>_. 7)) (\<lambda>_. ([], 0)) 64 (\<lambda>_. Some []) ?args ((wire_idle AT_38400 sample_rom)\<lparr>w_rate := 9600\<rparr>)
      = Some ((0, 0), wire_idle AT_38400 m')" "rom_flash m' = mem_put (\<lambda>_ new. new) 0 (drop 4 sample_file) (\<lambda>_. 0xFF)"
    using flasher_programs [where mem = rom_ram and m = sample_rom and args = ?args and before = 9600 and files = "\<lambda>_. Some []", OF module_chip_laws sample_module(4,5) fits sample_module(3,6) refl args]
    by blast
  then show ?thesis by (intro exI [of _ m']) (simp add: mem_put_def sample_file_def)
qed

section \<open>A speed that the boot loader does not have\<close>





lemma speed_problems: "set_speeds port rate d = Some (p, d') \<Longrightarrow> p \<in> {0, 2, 3}"
  by (auto simp: set_speeds_def bind_eq_Some_conv case_prod_beta split: if_splits)

lemma flash_problems: "flash_firmware env page files firmware ctx d = Some (p, ctx', d') \<Longrightarrow> p \<in> {0, 5, 6, 7, 8, 9}"
  by (auto simp: flash_firmware_def bind_eq_Some_conv case_prod_beta split: if_splits)

text \<open>
  C23: The exit code hides the problems: whatever the module does, a run that ends has exit code
  0 as soon as the speeds were set, also when the module could not be read, the firmware not be
  programmed or verified, or the EEPROM not be erased; and the speed counts as not set when only
  the last of the three requests for it was answered.
\<close>

theorem flasher_exit_code:
  "(jp_main env linked page files args d = Some ((c, p), d') \<longrightarrow> c = (if p \<le> 3 then p else 0) \<and> p \<le> 9)
   \<and> (eBL_SetBaudrate port rate d0 = Some (E_PRG_COMMS_FAILED, d1) \<and> eBL_SetBaudrate port rate d1 = Some (E_PRG_COMMS_FAILED, d2)
       \<and> eBL_SetBaudrate port rate d2 = Some (E_PRG_OK, d3) \<and> eUART_SetBaudRate port (unat rate) d3 = (E_PRG_OK, d4)
     \<longrightarrow> set_speeds port rate d0 = Some (2, d4))"
proof
  show "jp_main env linked page files args d = Some ((c, p), d') \<longrightarrow> c = (if p \<le> 3 then p else 0) \<and> p \<le> 9"
    by (auto simp: jp_main_def Let_def bind_eq_Some_conv case_prod_beta split: if_splits option.splits dest!: speed_problems flash_problems)
qed (simp add: set_speeds_def numeral_3_eq_3)

theorem flasher_exit_code_witness:
  "set_speeds (wire_port (\<lambda>ty body m. ((0x28, if m < 2 then 0xf0 else 0, []), Suc m)) (\<lambda>_. 0) (\<lambda>_. 0)) 1000000 (wire_idle AT_38400 0)
     = Some (2, wire_idle AT_1000000 3)"
proof -
  let ?chip = "\<lambda>ty body m. ((0x28, if m < 2 then 0xf0 else 0, []), Suc m)"
  have "eBL_SetBaudrate (wire_port ?chip (\<lambda>_. 0) (\<lambda>_. 0)) 1000000 (wire_idle AT_38400 m)
      = Some (if m < 2 then (E_PRG_COMMS_FAILED, wire_idle AT_38400 (Suc m)) else (E_PRG_OK, (wire_idle AT_38400 (Suc m))\<lparr>w_divisor := 1\<rparr>))" for m
    using request_answered [where hdr = "[1]" and dat = "[]" and chip = ?chip and ty = E_BL_MSG_TYPE_SET_BAUD_REQUEST and m = m and rx = "0x28"
        and resp = "if m < 2 then 0xf0 else 0" and data = "[]" and m' = "Suc m" and accepts = "\<lambda>_. 0" and gives = "\<lambda>_. 0" and tmo = BL_TIMEOUT_1S
        and sp = AT_38400]
    by (auto simp: eBL_SetBaudrate_def bl_command_def eBL_CheckResponse_def bl_responses E_BL_MSG_TYPE_SET_BAUD_RESPONSE_def retuned_def)
  from this [of 0] this [of 1] this [of 2]
  have asked: "eBL_SetBaudrate (wire_port ?chip (\<lambda>_. 0) (\<lambda>_. 0)) 1000000 (wire_idle AT_38400 0) = Some (E_PRG_COMMS_FAILED, wire_idle AT_38400 1)"
    "eBL_SetBaudrate (wire_port ?chip (\<lambda>_. 0) (\<lambda>_. 0)) 1000000 (wire_idle AT_38400 1) = Some (E_PRG_COMMS_FAILED, wire_idle AT_38400 2)"
    "eBL_SetBaudrate (wire_port ?chip (\<lambda>_. 0) (\<lambda>_. 0)) 1000000 (wire_idle AT_38400 2) = Some (E_PRG_OK, (wire_idle AT_38400 3)\<lparr>w_divisor := 1\<rparr>)"
    by (simp_all add: numeral_2_eq_2 numeral_3_eq_3)
  have "eUART_SetBaudRate (wire_port ?chip (\<lambda>_. 0) (\<lambda>_. 0)) (unat (1000000 :: u32)) ((wire_idle AT_38400 3)\<lparr>w_divisor := 1\<rparr>)
      = (E_PRG_OK, wire_idle AT_1000000 3)"
    by (subst port_speed) (simp_all add: uart_rates_def wire_idle_def rate_of_def divisor_of_def)
  with asked show ?thesis by (intro flasher_exit_code [THEN conjunct2, THEN mp] conjI)
qed

end
