(* ===== verification/Spec2Isabelle.thy ===== *)
theory Spec2Isabelle
  imports Parsing JsonObject SerialLink NewDbSerialize PlugUsage JsonCreate SystemTable MsgQueue NewDbFile ControlPath ChildTable NfcCommission FlasherMain
begin

text \<open>
  The NXP IoT gateway (\<open>src/src\<close>): a formal model of the gateway's own C code and its
  correctness.

  1. The program.  A gateway joins lamps, plugs, sensors and thermostats of a Zigbee network to
  clients on the local network.  Its processes are
  \<^item> the control interface (\<open>daemons/ControlInterface\<close>), which serves one client per child process:
    it parses the client's JSON, edits the database, and queues requests for the Zigbee daemon;
  \<^item> the Zigbee daemon (\<open>daemons/ZCB\<close>), which reads that queue and drives the radio chip (the
    ``control bridge'') over a serial line, and stores what the network reports;
  \<^item> the secure joiner (\<open>daemons/SecureJoiner\<close>), which exchanges a device's link key for the
    credentials of the network, through the Zigbee daemon;
  \<^item> the NFC daemon (\<open>daemons/nfcRPiAlt\<close>), which commissions a device through the tag it carries,
    asking the secure joiner or the control interface;
  \<^item> the firmware flasher (\<open>jnFlasher\<close>), a command that programs the radio chip.
  They share a database in shared memory, System V message queues and a library
  (\<open>IotCommon\<close>) with the JSON parser, the message writers and the conversions.

  2. The theories and the code they model.  Paths are relative to \<open>src/src\<close>; a definition has the
  name of the C function or macro it models, with a short prefix where two files share a name
  (\<open>ci_\<close>, \<open>sj_\<close>, \<open>zcb_\<close>).
  \<^item> \<open>IotPrelude\<close>: machine types, C strings, buffers written in place, scans, big-endian fields, and
    the collections \<open>iot_mem\<close>, \<open>iot_scan\<close>, \<open>iot_bytes\<close> that the component proofs use.
  \<^item> \<open>SerialFrame\<close>: \<open>ZCB/Serial.c\<close> and the framing of \<open>ZCB/SerialLink.c\<close> (escapes, checksum, retries
    of a byte, the receiver's state machine).  \<open>UtilsQueue\<close>: the queue of \<open>ZCB/Utils.c\<close>.
    \<open>SerialLink\<close>: the waiting slots, requests and status messages, listeners, and the two threads.
  \<^item> \<open>JsonParser\<close>, \<open>JsonInvariant\<close>, \<open>JsonObject\<close>, \<open>JsonMessage\<close>: \<open>IotCommon/json.c\<close>, its bounds and what
    it reports.  \<open>JsonCreate\<close>: \<open>IotCommon/jsonCreate.c\<close>.
  \<^item> \<open>AttrStore\<close>, \<open>Parsing\<close>: the attribute tables of \<open>IotCommon/parsing.c\<close>, and the contract by which
    the daemons use them.  \<open>Nibbles\<close>: \<open>nibbles.c\<close>, \<open>atoi.c\<close>, \<open>strtoupper.c\<close>.
  \<^item> \<open>RowTable\<close>, \<open>NewDb\<close>, \<open>NewDbHist\<close>, \<open>NewDbSerialize\<close>: \<open>IotCommon/newDb.c\<close>, with the contract of a
    table of keyed rows; \<open>NewDbFile\<close>: the bytes of the segment, and the file they are saved to and
    restored from.  \<open>SystemTable\<close>: \<open>systemtable.c\<close>.  \<open>PlugUsage\<close>: \<open>plugUsage.c\<close>.
    \<open>MsgQueue\<close>: \<open>queue.c\<close>.
  \<^item> \<open>ControlState\<close>, \<open>ControlHandlers\<close>, \<open>ControlTopo\<close>, \<open>ControlIface\<close>: the handlers and the client loop
    of the control interface; \<open>ControlTyped\<close>, \<open>TopoConfig\<close>, \<open>ControlPath\<close>: what every message keeps,
    what a configuration does, what a message leads to.  \<open>ChildTable\<close>: the table of its child
    processes (\<open>ci_main.c\<close>).
  \<^item> \<open>ZcbState\<close>, \<open>ZcbNodes\<close>, \<open>ZcbRequests\<close>, \<open>ZcbHandlers\<close>, \<open>ZcbDevices\<close>, \<open>ZcbEvents\<close>, \<open>ZcbMain\<close>: the Zigbee
    daemon, from its node table and the requests of \<open>zcb.c\<close> to the main loop of \<open>zb_main.c\<close>.
  \<^item> \<open>SecureJoin\<close>: the secure joiner.  \<open>Ndef\<close> and \<open>NfcCommission\<close>: \<open>ndef.c\<close>, \<open>commission.c\<close> and
    \<open>mful.c\<close> of the NFC daemon.
  \<^item> The flasher (\<open>jnFlasher\<close>).  \<open>BootLoader\<close>: \<open>uart.c\<close> and the requests of \<open>JN51xx_BootLoader.c\<close>;
    \<open>BootLine\<close>: the line to a chip with the speeds of its two ends, and the memories of the chip as
    one contract.  \<open>ChipDetails\<close>:
    \<open>programmer.h\<close>, \<open>ChipID.h\<close>, \<open>Firmware.c\<close> and the discovery of the chip in \<open>programmer.c\<close>;
    \<open>FlashProgrammer\<close>: the operations of \<open>programmer.c\<close>; \<open>FlashSpec\<close> and \<open>FlashPromises\<close>: what they do
    to the memories of a chip; \<open>FlasherMain\<close>: the commands \<open>jp_main.c\<close>, \<open>jd_main.c\<close>, \<open>jf_main.c\<close>.
  3. State and effects.  A struct is a record and a table of structs a list of records; the
  static variables of a file are fields of the state its functions take and return.  Shared
  memory is a value of type \<open>newdb option\<close> (\<open>None\<close> is a segment that is not attached), passed
  to each operation whole: the semaphore makes the operations atomic, and where the code does
  not hold it over two operations (\<open>lock_try\<close>) the two are separate steps.  Message queues are
  the list of messages each holds.  What a process sends (to its client, the control bridge, a
  tag) is recorded in order in its state, or handed to an argument that answers it.  Every error
  code and early return of the source is a branch of the model; \<open>None\<close> stands for what the
  program does not survive or never leaves (a write outside a buffer, a null pointer handed to
  \<open>strlen\<close>, a wait without end), as the theory concerned says.  Where the state goes on being used
  after such a write it is a flag of the state instead (\<open>p_fault\<close> of the JSON parser, \<open>hist_fault\<close> of
  the consumption), and the reader thread ends with a \<open>reader_fault\<close>.  A client sends packets, as the
  socket delivers them: a packet that does not fit the log buffer of the control interface, of 191
  bytes or more, is such an end.  Of the waiting slots the one that the code leaves locked when
  memory runs out stays so, and blocks who waits on it.

  4. Arguments that stand for code outside \<open>src/\<close> or for the world: the bytes or failures that a
  serial port, socket or queue yields (a list), the answers of the message-queue calls, the time,
  the two colour conversions (floating point), what is left in uninitialised storage, and the
  answer of an NFC tag to a command.  For the flasher they are the calls of the serial port, what a
  firmware file holds, and the chip: an arbitrary function from a request and its state to a reply
  and a new state, behind a line that cuts the bytes in pieces of any size and loses them when its
  ends differ in speed by more than 2 per cent.  For the database file they are the outcomes of the
  calls on files, with the number of bytes each \<open>write\<close> and \<open>read\<close> takes.  A property that needs to know something of them says so
  in a hypothesis, and its witness supplies a concrete instance.

  5. What the lemmas show.  Kept by every operation: the parser's bounds (C28), the typing of the
  tables (C9), exclusive slots (C14), unique short addresses (C35).  Round trips: serial link (C1),
  writer and parser (C11), queues (C34), NDEF (C18), the database and its file, byte for byte (C39).  Refinements of
  an abstract object: the device table is a finite set with a capacity (C2), the thread queue a
  bounded first-in first-out queue (C12).  End to end: a client's message up to the radio requests
  it causes (C3), a join from the client, or from the tag, to the credentials in the reply (C4, C6),
  and a firmware file up to the flash memory of the chip (C5), at the speeds the boot loader has
  (and not at the others, C21).  The flasher's verification is exact
  (C20), its settings are read back as written (C8), and a program in RAM starts as its file says
  (C19).
  Failures: each error path that loses or hides something is stated as what the code does, and
  the places where this differs from what a comment, a name or the surrounding code means are the
  findings of the manifest.
  The interfaces are locales: \<open>attr_store\<close> (reset, assign, fetch), \<open>keyed_table\<close> with its
  extensions \<open>stored_table\<close>, \<open>stamped_table\<close> and \<open>typed_table\<close>, \<open>bounded_fifo\<close>, and \<open>chunk_store\<close> (a
  memory written and read in chunks); each is interpreted on the definitions of the code in the
  theory that holds them (\<open>int_attrs\<close>, \<open>string_attrs\<close>, \<open>devices\<close>, \<open>systems\<close>, \<open>uq\<close>, and the memories
  \<open>flash_memory\<close>, \<open>eeprom_memory\<close>, \<open>ram_memory\<close>).

  6. Loops.  A loop over an array or a string is structural recursion; one that counts to a
  bound is a \<open>function\<close> with the distance to the bound as its measure (\<open>chan_loop\<close>,
  \<open>u642nibblestr_loop\<close>, \<open>for_chunks\<close>, \<open>eeprom_load\<close>, \<open>read_rest\<close>, which goes on after an empty read only up to the tenth, and
  \<open>jsonEatNoLog\<close>, whose recursion goes to a state that closes the value).
  The reader threads and main loops run over a finite list of what they receive, for any such list,
  and end with it.  Loops whose end depends on an answer (\<open>simple_descriptor_loop\<close>, \<open>await_seq\<close>,
  \<open>remove_loop\<close>, and \<open>eUART_Write\<close> and \<open>flush_loop\<close>, which wait for the serial port) are
  \<open>partial_function (option)\<close>; that they return is proved (C38, and for the port over any line that
  takes and gives bytes, C7).  There is no fuel in the development.

  7. Not modelled.  Floating-point colour conversion; sockets, signals, semaphores, process
  start-up and daemonisation; logging and debug output; functions that nothing calls; the web
  pages (\<open>www\<close>), which print HTML and forward form values as the messages modelled here; the
  gateway discovery; cJSON, the vendored NFC reader library (\<open>libnci\<close>, the greater part of
  the repository's lines), the test programs and the update scripts; the
  location bridge \<open>daemons/dbp\<close>.  Of the flasher: parsing the command line, setting up the terminal,
  the status text, and the connection wrappers of \<open>programmer.c\<close>, which nothing calls.
\<close>

section \<open>From a client to the database and the Zigbee daemon\<close>

text \<open>The control interface: the lamp's row and the message for the Zigbee daemon.\<close>

lemma control_lamp_queued:
  fixes d :: newdb_dev_t
  assumes "dev_inv (ci_db s)" and "ci_attrs s = ci_attrs_start"
    and "newDbGetDevice mac (ci_db s) = Some d" and "dev_dev d = DEVICE_DEV_LAMP" and "ok_ctrl mac cmd lvl rgb kelvin"
    and "queue_usable (ci_mq env) QUEUE_KEY_ZCB_IN"
    and "jsonLampToZigbee (rgb2xy env) mac cmd lvl rgb (ctrl_lamp_kelvin cmd kelvin (ctrl_lamp_device cmd lvl rgb kelvin d)) = Some msg"
    and "length msg \<le> 298" and "k \<noteq> []"
  shows "\<exists>input t. jsonControl mac cmd sid lvl rgb kelvin (- 1) (- 1) = Some input
    \<and> (\<forall>packets. packets_of packets input \<longrightarrow> handleClient env p2 now packets (json_init all_handlers) s = Some t)
    \<and> newDbGetDevice k (ci_db t) = (if k = mac then Some ((ctrl_lamp_device cmd lvl rgb kelvin d)\<lparr>dev_lastupdate := now\<rparr>)
                                   else newDbGetDevice k (ci_db s))
    \<and> q_msgs (ci_ipc t) = (q_msgs (ci_ipc s))(QUEUE_KEY_ZCB_IN := q_msgs (ci_ipc s) QUEUE_KEY_ZCB_IN @ [msg])
    \<and> ci_sent t = ci_sent s"
proof -
  let ?ms = "ctrl_members mac cmd lvl rgb kelvin"
  let ?s = "(set_iotError IOT_ERROR_NONE s)\<lparr>ci_attrs := assign_members ?ms (parsingReset (ci_attrs s))\<rparr>"
  have mac: "strtoupper mac = mac" "ok_mac_key mac"
    using assms(5) by (simp_all add: ok_ctrl_def ok_text_def LEN_MAC_NIBBLE_def)
  have db: "ci_db ?s = ci_db s" by simp
  have attrs: "attr0 ?s ''mac'' = Some mac" "attr0 ?s ''cmd'' = cmd" "attri ?s ''lvl'' = sent_int lvl"
    "attri ?s ''rgb'' = sent_int rgb" "attri ?s ''kelvin'' = sent_int kelvin"
    using ctrl_attributes [OF assms(5)] assms(2) by simp_all
  have found: "newDbGetDevice mac (ci_db ?s) = Some d" using assms(3) db by simp
  obtain t where t: "ci_onObjectComplete env p2 now ''ctrl'' ?s = Some t" "ci_sent t = ci_sent ?s"
    "ci_db t = snd (newDbSetDevice now (ctrl_lamp_device cmd lvl rgb kelvin d) (ci_db ?s))"
    "q_msgs (ci_ipc t) = (q_msgs (ci_ipc ?s))(QUEUE_KEY_ZCB_IN := q_msgs (ci_ipc ?s) QUEUE_KEY_ZCB_IN @ [msg])"
    using ctrl_lamp_handled [OF found assms(4) mac(1) attrs assms(6-8)] by blast
  have put: "newDbGetDevice k (ci_db t) = (if k = mac then Some ((ctrl_lamp_device cmd lvl rgb kelvin d)\<lparr>dev_lastupdate := now\<rparr>)
      else newDbGetDevice k (ci_db s))"
    using devices.put_found [OF assms(1) mac(2) assms(3), of "ctrl_lamp_device cmd lvl rgb kelvin d" now] assms(9) t(3) db by simp
  show ?thesis
    using ctrl_message [OF assms(5)] handleClient_message [OF ctrl_message(1,2) [OF assms(5)], of _ env p2 now s] t put
    by (auto simp: set_iotError_def)
qed

text \<open>
  C3: A control message for a lamp reaches the radio: the text that \<open>jsonControl\<close> writes for a
  known lamp, with any of a command, a level up to 100, a colour and a colour temperature, sent
  by a client in any packets of up to 190 bytes, changes exactly that lamp's row as \<open>ctrlHandle\<close> means to, puts one message in
  the queue of the Zigbee daemon and answers nothing; when the main loop of that daemon reads
  the message, and the lamp has joined, the control bridge is asked exactly for the command, the
  level as a share of 255 that stops at 254, and the colour or colour temperature, in that order, at the lamp's
  short address.
\<close>

theorem control_lamp_to_radio:
  fixes d :: newdb_dev_t and cmd :: "string option" and lvl rgb kelvin :: c_int
  defines "kelvin' \<equiv> ctrl_lamp_kelvin cmd kelvin (ctrl_lamp_device cmd lvl rgb kelvin d)"
  assumes "dev_inv (ci_db s)" and "ci_attrs s = ci_attrs_start"
    and "newDbGetDevice mac (ci_db s) = Some d" and "dev_dev d = DEVICE_DEV_LAMP" and "ok_ctrl mac cmd lvl rgb kelvin"
    and "queue_usable (ci_mq env) QUEUE_KEY_ZCB_IN" and "ok_lamp (rgb2xy env) mac cmd lvl rgb kelvin'" and "k \<noteq> []"
    and "parsingReset (z_attrs z) = parsingReset zcb_attrs_start"
    and "zcbNodeGetShortAddress mac (z_db z) = sa" and "sa \<noteq> 0xFFFF"
  shows "\<exists>input t msg attrs. jsonControl mac cmd sid lvl rgb kelvin (- 1) (- 1) = Some input
    \<and> (\<forall>packets. packets_of packets input \<longrightarrow> handleClient env p2 now packets (json_init all_handlers) s = Some t)
    \<and> newDbGetDevice k (ci_db t) = (if k = mac then Some ((ctrl_lamp_device cmd lvl rgb kelvin d)\<lparr>dev_lastupdate := now\<rparr>)
                                   else newDbGetDevice k (ci_db s))
    \<and> q_msgs (ci_ipc t) = (q_msgs (ci_ipc s))(QUEUE_KEY_ZCB_IN := q_msgs (ci_ipc s) QUEUE_KEY_ZCB_IN @ [msg])
    \<and> ci_sent t = ci_sent s
    \<and> zcb_turn zenv later (Some msg # polls) (json_init all_handlers) start z
        = Some (start, z\<lparr>z_attrs := attrs, z_requests := z_requests z @ lamp_requests (rgb2xy env) sa cmd lvl rgb kelvin'\<rparr>)"
proof -
  note msg = lmp_message(2,3) [OF assms(8)]
  from control_lamp_queued [OF assms(2-7) msg(1) [unfolded assms(1)] _ assms(9), folded assms(1), OF msg(2), of sid p2 now]
    zcb_lamp_turn [OF assms(8,10-12), of zenv later polls start]
  show ?thesis by blast
qed

text \<open>A gateway with one lamp.\<close>

lemma lamp_added:
  "\<exists>m d. dev_inv m \<and> newDbGetDevice ''0A'' m = Some d \<and> dev_dev d = DEVICE_DEV_LAMP"
proof -
  let ?g = "\<lambda>d. d\<lparr>dev_dev := DEVICE_DEV_LAMP\<rparr>"
  have inv: "dev_inv (Some db_fresh)" using db_typed_fresh by (simp add: db_typed_def)
  have keys: "dev_keys (Some db_fresh) = {}" by (auto simp: stored_keys_def row_keys_def db_fresh_def)
  have key: "ok_mac_key ''0A''" by (simp add: LEN_MAC_NIBBLE_def)
  from devices.upsert [OF inv key _ _, of ?g ?g 7] obtain m r where
    m: "dev_inv m" "newDbGetDevice ''0A'' m = Some (dev_lastupdate_update (\<lambda>_. 7) r)"
      "case newDbGetDevice ''0A'' (Some db_fresh) of Some r0 \<Rightarrow> r = ?g r0 | None \<Rightarrow> \<exists>i. r = ?g (blank_device 7 i ''0A'')"
    using keys by (auto simp: NEWDB_MAX_DEVICES_def)
  then have "dev_dev r = DEVICE_DEV_LAMP" by (auto split: option.splits)
  with m show ?thesis by (intro exI [of _ m] exI [of _ "dev_lastupdate_update (\<lambda>_. 7) r"]) simp
qed

theorem control_lamp_to_radio_witness:
  "\<exists>p m input t msg z attrs. jsonControl ''0A'' (Some ''on'') 0 50 (- 1) (- 1) (- 1) (- 1) = Some input
    \<and> handleClient example_env p 7 (map (\<lambda>c. [c]) input) (json_init all_handlers) (example_state\<lparr>ci_attrs := ci_attrs_start, ci_db := m\<rparr>) = Some t
    \<and> q_msgs (ci_ipc t) QUEUE_KEY_ZCB_IN = q_msgs (ci_ipc example_state) QUEUE_KEY_ZCB_IN @ [msg]
    \<and> zcb_turn zcb_env_ok 8 [Some msg] (json_init all_handlers) 0 z
        = Some (0, z\<lparr>z_attrs := attrs, z_requests := [(0x0092, [2, 0x12, 0x34, 1, 1, 1]), (0x0081, [2, 0x12, 0x34, 1, 1, 0, 127, 0, 5])]\<rparr>)"
proof -
  obtain m d where m: "dev_inv m" "newDbGetDevice ''0A'' m = Some d" "dev_dev d = DEVICE_DEV_LAMP" using lamp_added by blast
  let ?s = "example_state\<lparr>ci_attrs := ci_attrs_start, ci_db := m\<rparr>"
  have s: "dev_inv (ci_db ?s)" "ci_attrs ?s = ci_attrs_start" "newDbGetDevice ''0A'' (ci_db ?s) = Some d" using m by simp_all
  have ok: "ok_ctrl ''0A'' (Some ''on'') 50 (- 1) (- 1)" by code_simp
  have usable: "queue_usable (ci_mq example_env) QUEUE_KEY_ZCB_IN" by (simp add: queue_usable_def example_env_def)
  have kelvin: "ctrl_lamp_kelvin (Some ''on'') (- 1) d' = - 1" for d' by (simp add: ctrl_lamp_kelvin_def)
  have xy: "rgb2xy example_env = (\<lambda>_. (0, 0))" by (simp add: example_env_def)
  have "ok_lamp (\<lambda>_. (0, 0)) ''0A'' (Some ''on'') 50 (- 1) (- 1)" by code_simp
  then have lamp: "ok_lamp (rgb2xy example_env) ''0A'' (Some ''on'') 50 (- 1)
      (ctrl_lamp_kelvin (Some ''on'') (- 1) (ctrl_lamp_device (Some ''on'') 50 (- 1) (- 1) d))" by (simp only: xy kelvin)
  let ?z = "zcb_start\<lparr>z_attrs := zcb_attrs_start,
      z_db := Some (db_fresh\<lparr>db_zcb := [zero_zcb\<lparr>zcb_mac := ''0A'', zcb_status := ZCB_STATUS_JOINED, zcb_saddr := 0x1234\<rparr>]\<rparr>)\<rparr>"
  have z: "parsingReset (z_attrs ?z) = parsingReset zcb_attrs_start" "zcbNodeGetShortAddress ''0A'' (z_db ?z) = 0x1234" "z_requests ?z = []"
    by (simp_all add: zcbNodeGetShortAddress_def newDbGetZcb_def zcb_get_def zero_zcb_def zcb_start_def)
  have rs: "lamp_requests (\<lambda>_. (0, 0)) 0x1234 (Some ''on'') 50 (- 1) (- 1)
      = [(0x0092, [2, 0x12, 0x34, 1, 1, 1]), (0x0081, [2, 0x12, 0x34, 1, 1, 0, 127, 0, 5])]" by code_simp
  have "''0A'' \<noteq> []" "(0x1234 :: u16) \<noteq> 0xFFFF" by simp_all
  note this(1) z(1,2) this(2)
  from control_lamp_to_radio [OF s(1,2,3) m(3) ok usable lamp this, of 0 undefined 7 zcb_env_ok 8 "[]" 0]
  obtain input t msg attrs where out: "jsonControl ''0A'' (Some ''on'') 0 50 (- 1) (- 1) (- 1) (- 1) = Some input"
    "\<forall>packets. packets_of packets input \<longrightarrow> handleClient example_env undefined 7 packets (json_init all_handlers) ?s = Some t"
    "q_msgs (ci_ipc t) = (q_msgs (ci_ipc ?s))(QUEUE_KEY_ZCB_IN := q_msgs (ci_ipc ?s) QUEUE_KEY_ZCB_IN @ [msg])"
    "zcb_turn zcb_env_ok 8 [Some msg] (json_init all_handlers) 0 ?z = Some (0, ?z\<lparr>z_attrs := attrs, z_requests := z_requests ?z
      @ lamp_requests (rgb2xy example_env) 0x1234 (Some ''on'') 50 (- 1) (ctrl_lamp_kelvin (Some ''on'') (- 1) (ctrl_lamp_device (Some ''on'') 50 (- 1) (- 1) d))\<rparr>)"
    by blast
  have queue: "q_msgs (ci_ipc t) QUEUE_KEY_ZCB_IN = q_msgs (ci_ipc example_state) QUEUE_KEY_ZCB_IN @ [msg]" using out(3) by simp
  show ?thesis
    by (intro exI conjI, rule out(1), rule out(2) [rule_format, OF packets_of_bytes], rule queue) (rule out(4) [unfolded xy kelvin rs z(3) append_Nil])
qed

end
